(* ===== verification/Prelude.thy ===== *)
theory Prelude
  imports Complex_Main "HOL-Library.Char_ord" "HOL-Library.List_Lexorder"
    "HOL-Library.Product_Lexorder"
begin

text \<open>
  Shared vocabulary of the development: the part of Go's \<^verbatim>\<open>strings\<close> and
  \<^verbatim>\<open>time\<close> packages the sources use, 64-bit integers with their wrap-around, fault
  plans for input and output, and the generic list and map lemmas of the component
  theories.

  A Go string is a byte string; it is modelled as \<^typ>\<open>string\<close>. Case folding and
  white space are those of the ASCII bytes, which is what protocol names, scopes, digests
  and role names are made of.
\<close>

named_theorems go_simps \<open>definitions of the Go string operations\<close>
named_theorems store_simps \<open>definitions of the store operations\<close>
named_theorems verify_simps \<open>definitions of the verifiers\<close>

type_synonym bytes = "char list"

section \<open>Strings\<close>

definition go_space :: "char \<Rightarrow> bool" where
  "go_space c \<longleftrightarrow> List.member [CHR 0x09, CHR 0x0A, CHR 0x0B, CHR 0x0C, CHR 0x0D, CHR '' ''] c"

definition TrimSpace :: "string \<Rightarrow> string" where
  "TrimSpace s = rev (dropWhile go_space (rev (dropWhile go_space s)))"

definition lower_char :: "char \<Rightarrow> char" where
  "lower_char c = (if 65 \<le> (of_char c :: nat) \<and> (of_char c :: nat) \<le> 90
                   then char_of ((of_char c :: nat) + 32) else c)"

definition ToLower :: "string \<Rightarrow> string" where
  "ToLower s = map lower_char s"

definition EqualFold :: "string \<Rightarrow> string \<Rightarrow> bool" where
  "EqualFold a b \<longleftrightarrow> ToLower a = ToLower b"

definition HasPrefix :: "string \<Rightarrow> string \<Rightarrow> bool" where
  "HasPrefix s p \<longleftrightarrow> take (length p) s = p"

definition TrimPrefix :: "string \<Rightarrow> string \<Rightarrow> string" where
  "TrimPrefix s p = (if HasPrefix s p then drop (length p) s else s)"

definition HasSuffix :: "string \<Rightarrow> string \<Rightarrow> bool" where
  "HasSuffix s p \<longleftrightarrow> HasPrefix (rev s) (rev p)"

definition TrimSuffix :: "string \<Rightarrow> string \<Rightarrow> string" where
  "TrimSuffix s p = (if HasSuffix s p then take (length s - length p) s else s)"

text \<open>Index functions return \<^const>\<open>None\<close> where Go returns \<^verbatim>\<open>-1\<close>.\<close>

fun IndexByte :: "string \<Rightarrow> char \<Rightarrow> nat option" where
  "IndexByte [] c = None"
| "IndexByte (x # xs) c = (if x = c then Some 0 else map_option Suc (IndexByte xs c))"

fun LastIndexByte :: "string \<Rightarrow> char \<Rightarrow> nat option" where
  "LastIndexByte [] c = None"
| "LastIndexByte (x # xs) c =
     (case LastIndexByte xs c of
        Some i \<Rightarrow> Some (Suc i)
      | None \<Rightarrow> if x = c then Some 0 else None)"

fun Index :: "string \<Rightarrow> string \<Rightarrow> nat option" where
  "Index [] p = (if p = [] then Some 0 else None)"
| "Index (x # xs) p = (if HasPrefix (x # xs) p then Some 0 else map_option Suc (Index xs p))"

fun LastIndex :: "string \<Rightarrow> string \<Rightarrow> nat option" where
  "LastIndex [] p = (if p = [] then Some 0 else None)"
| "LastIndex (x # xs) p =
     (case LastIndex xs p of
        Some i \<Rightarrow> Some (Suc i)
      | None \<Rightarrow> if HasPrefix (x # xs) p then Some 0 else None)"

definition Contains :: "string \<Rightarrow> string \<Rightarrow> bool" where
  "Contains s p \<longleftrightarrow> Index s p \<noteq> None"

fun Split :: "string \<Rightarrow> char \<Rightarrow> string list" where
  "Split [] c = [[]]"
| "Split (x # xs) c =
     (if x = c then [] # Split xs c
      else case Split xs c of [] \<Rightarrow> [[x]] | p # ps \<Rightarrow> (x # p) # ps)"

fun Join :: "string list \<Rightarrow> string \<Rightarrow> string" where
  "Join [] sep = []"
| "Join [x] sep = x"
| "Join (x # y # zs) sep = x @ sep @ Join (y # zs) sep"

lemmas [go_simps] = go_space_def TrimSpace_def lower_char_def ToLower_def EqualFold_def
  HasPrefix_def TrimPrefix_def HasSuffix_def TrimSuffix_def Contains_def

lemma Split_nonempty [simp]: "Split s c \<noteq> []"
  by (induction s c rule: Split.induct) (auto split: list.splits)

lemma Split_no_sep: "c \<notin> set s \<Longrightarrow> Split s c = [s]"
  by (induction s) auto

lemma Split_append_sep: "c \<notin> set p \<Longrightarrow> Split (p @ c # s) c = p # Split s c"
  by (induction p) auto

text \<open>Splitting undoes joining when no part holds the separator.\<close>

lemma Split_Join:
  assumes "ps \<noteq> []" and "\<And>p. p \<in> set ps \<Longrightarrow> c \<notin> set p"
  shows "Split (Join ps [c]) c = ps"
  using assms by (induction ps "[c]" rule: Join.induct) (auto simp: Split_no_sep Split_append_sep)

lemma Split_parts_no_sep: "p \<in> set (Split s c) \<Longrightarrow> c \<notin> set p"
proof (induction s arbitrary: p)
  case (Cons x xs)
  then show ?case by (cases "Split xs c") (auto split: if_splits)
qed simp

lemma Join_Split [simp]: "Join (Split s c) [c] = s"
proof (induction s)
  case (Cons x xs)
  then show ?case
  proof (cases "Split xs c")
    case (Cons p ps)
    with \<open>Join (Split xs c) [c] = xs\<close> show ?thesis by (cases ps) auto
  qed simp
qed simp

lemma IndexByte_None_iff: "IndexByte s c = None \<longleftrightarrow> c \<notin> set s"
  by (induction s) auto

lemma IndexByte_Some_split:
  "IndexByte s c = Some i \<Longrightarrow> s = take i s @ c # drop (Suc i) s \<and> c \<notin> set (take i s) \<and> i < length s"
proof (induction s arbitrary: i)
  case (Cons x xs)
  then show ?case by (cases "x = c"; cases i) auto
qed simp

lemma IndexByte_append: "c \<notin> set p \<Longrightarrow> IndexByte (p @ c # s) c = Some (length p)"
  by (induction p) auto

lemma LastIndexByte_None_iff: "LastIndexByte s c = None \<longleftrightarrow> c \<notin> set s"
  by (induction s) (auto split: option.splits)

lemma LastIndexByte_append: "c \<notin> set s \<Longrightarrow> LastIndexByte (p @ c # s) c = Some (length p)"
proof (induction p)
  case Nil
  then have "LastIndexByte s c = None" by (simp add: LastIndexByte_None_iff)
  then show ?case by simp
qed simp

lemma HasPrefix_append [simp]: "HasPrefix (p @ s) p"
  by (simp add: HasPrefix_def)

lemma HasPrefix_iff: "HasPrefix s p \<longleftrightarrow> (\<exists>r. s = p @ r)"
  by (auto simp: HasPrefix_def) (metis append_take_drop_id)

lemma HasSuffix_iff: "HasSuffix s p \<longleftrightarrow> (\<exists>r. s = r @ p)"
  unfolding HasSuffix_def HasPrefix_iff
  by (metis rev_append rev_rev_ident)

lemma TrimPrefix_append [simp]: "TrimPrefix (p @ s) p = s"
  by (simp add: TrimPrefix_def)

lemma TrimSuffix_append [simp]: "TrimSuffix (s @ p) p = s"
  by (simp add: TrimSuffix_def HasSuffix_iff)

lemma Contains_iff: "Contains s p \<longleftrightarrow> (\<exists>a b. s = a @ p @ b)"
proof (induction s)
  case Nil
  then show ?case by (auto simp: Contains_def)
next
  case (Cons x xs)
  have "Contains (x # xs) p \<longleftrightarrow> HasPrefix (x # xs) p \<or> Contains xs p"
    by (auto simp: Contains_def)
  also have "\<dots> \<longleftrightarrow> (\<exists>b. x # xs = p @ b) \<or> (\<exists>a b. xs = a @ p @ b)"
    using Cons by (simp add: HasPrefix_iff)
  also have "\<dots> \<longleftrightarrow> (\<exists>a b. x # xs = a @ p @ b)"
  proof
    assume "\<exists>a b. x # xs = a @ p @ b"
    then obtain a b where "x # xs = a @ p @ b" by blast
    then show "(\<exists>b. x # xs = p @ b) \<or> (\<exists>a b. xs = a @ p @ b)" by (cases a) auto
  qed (metis append_Cons append_Nil)
  finally show ?case .
qed

lemma dropWhile_idem [simp]: "dropWhile P (dropWhile P s) = dropWhile P s"
  by (induction s) auto

lemma lower_char_idem [simp]: "lower_char (lower_char c) = lower_char c"
proof (cases "65 \<le> (of_char c :: nat) \<and> (of_char c :: nat) \<le> 90")
  case True
  then have "(of_char (char_of ((of_char c :: nat) + 32) :: char) :: nat) = of_char c + 32"
    by simp
  with True show ?thesis by (simp add: lower_char_def)
qed (auto simp: lower_char_def)

lemma ToLower_idem [simp]: "ToLower (ToLower s) = ToLower s"
  by (simp add: ToLower_def)

lemma go_space_lower [simp]: "go_space (lower_char c) = go_space c"
proof (cases "65 \<le> (of_char c :: nat) \<and> (of_char c :: nat) \<le> 90")
  case True
  then have n: "(of_char (lower_char c) :: nat) = of_char c + 32" by (simp add: lower_char_def)
  have sp: "go_space d \<Longrightarrow> (of_char d :: nat) \<le> 32" for d by (auto simp: go_space_def)
  show ?thesis using sp [of c] sp [of "lower_char c"] n True by linarith
qed (auto simp: lower_char_def)

lemma dropWhile_go_space_lower: "dropWhile go_space (map lower_char s) = map lower_char (dropWhile go_space s)"
  by (induction s) auto

lemma TrimSpace_map_lower: "TrimSpace (map lower_char s) = map lower_char (TrimSpace s)"
  by (simp add: TrimSpace_def dropWhile_go_space_lower rev_map)

lemma dropWhile_rev_dropWhile_keeps:
  "dropWhile P (rev (dropWhile P (rev (dropWhile P s)))) = rev (dropWhile P (rev (dropWhile P s)))"
proof (cases "dropWhile P s")
  case Nil
  then show ?thesis by (simp only: Nil) simp
next
  case (Cons x xs)
  then have nx: "\<not> P x" by (metis dropWhile_eq_Cons_conv)
  have "dropWhile P (rev xs @ [x]) = dropWhile P (rev xs) @ [x]"
    using nx by (induction xs rule: rev_induct) auto
  then show ?thesis using Cons nx by simp
qed

lemma TrimSpace_idem [simp]: "TrimSpace (TrimSpace s) = TrimSpace s"
  unfolding TrimSpace_def by (simp add: dropWhile_rev_dropWhile_keeps)

text \<open>Two strings glued by a separator that the left part lacks split uniquely.\<close>

lemma append_sep_inject:
  fixes p q :: string
  assumes "c \<notin> set p" and "c \<notin> set q" and "p @ c # s = q @ c # t"
  shows "p = q \<and> s = t"
proof -
  have "IndexByte (p @ c # s) c = Some (length p)"
    by (rule IndexByte_append [OF assms(1)])
  moreover have "IndexByte (q @ c # t) c = Some (length q)"
    by (rule IndexByte_append [OF assms(2)])
  ultimately have "length p = length q" by (simp add: assms(3))
  with assms(3) show ?thesis by simp
qed

section \<open>Formatting\<close>

fun nat_digits :: "nat \<Rightarrow> string" where
  "nat_digits n = (if n < 10 then [char_of (48 + n)] else nat_digits (n div 10) @ [char_of (48 + n mod 10)])"

declare nat_digits.simps [simp del]

text \<open>Decimal formatting of an integer (\<^verbatim>\<open>%d\<close>) and quoting (\<^verbatim>\<open>%q\<close>) of a plain name.\<close>

definition itoa :: "int \<Rightarrow> string" where
  "itoa n = (if n < 0 then ''-'' @ nat_digits (nat (- n)) else nat_digits (nat n))"

definition quote :: "string \<Rightarrow> string" where
  "quote s = CHR 0x22 # s @ [CHR 0x22]"

section \<open>Parsing\<close>

text \<open>\<^verbatim>\<open>strconv.ParseInt(s, 10, 64)\<close>: an optional sign, decimal digits, the range of \<^verbatim>\<open>int64\<close>.\<close>

definition is_digit :: "char \<Rightarrow> bool" where
  "is_digit c \<longleftrightarrow> (let n = (of_char c :: nat) in 48 \<le> n \<and> n \<le> 57)"

definition digits_value :: "string \<Rightarrow> int" where
  "digits_value ds = fold (\<lambda>c n. 10 * n + (int (of_char c) - 48)) ds 0"

definition ParseInt :: "string \<Rightarrow> int option" where
  "ParseInt s =
     (let neg = (s \<noteq> [] \<and> hd s = CHR ''-''); ds = (if s \<noteq> [] \<and> hd s \<in> {CHR ''-'', CHR ''+''} then tl s else s) in
      if ds = [] \<or> \<not> list_all is_digit ds then None
      else
        let n = (if neg then - digits_value ds else digits_value ds) in
        if - (2 ^ 63) \<le> n \<and> n < 2 ^ 63 then Some n else None)"

lemma digit_char: "n < 10 \<Longrightarrow> (of_char (char_of (48 + n) :: char) :: nat) = 48 + n"
  by (simp add: of_char_of)

lemma nat_digits_digits: "list_all is_digit (nat_digits n) \<and> nat_digits n \<noteq> []"
proof (induction n rule: nat_digits.induct)
  case (1 n)
  show ?case
  proof (cases "n < 10")
    case True
    then show ?thesis using digit_char [of n] by (simp add: nat_digits.simps [of n] is_digit_def)
  next
    case False
    have "is_digit (char_of (48 + n mod 10))" using digit_char [of "n mod 10"] by (simp add: is_digit_def Let_def)
    then show ?thesis using 1 False by (simp add: nat_digits.simps [of n])
  qed
qed

lemma digits_value_nat_digits [simp]: "digits_value (nat_digits n) = int n"
proof (induction n rule: nat_digits.induct)
  case (1 n)
  show ?case
  proof (cases "n < 10")
    case True
    then show ?thesis using digit_char [of n] by (subst nat_digits.simps) (simp add: digits_value_def)
  next
    case False
    then have "digits_value (nat_digits n) = 10 * digits_value (nat_digits (n div 10)) + int (n mod 10)"
      using digit_char [of "n mod 10"] by (subst nat_digits.simps) (simp add: digits_value_def)
    also have "\<dots> = int (10 * (n div 10) + n mod 10)" using 1 False by (simp only: of_nat_add of_nat_mult) simp
    also have "10 * (n div 10) + n mod 10 = n" by (rule mult_div_mod_eq)
    finally show ?thesis .
  qed
qed

text \<open>Parsing undoes formatting on the whole range of \<^verbatim>\<open>int64\<close>.\<close>

lemma ParseInt_itoa:
  assumes "- (2 ^ 63) \<le> n" and "n < 2 ^ 63"
  shows "ParseInt (itoa n) = Some n"
proof (cases "n < 0")
  case True
  then show ?thesis
    using assms nat_digits_digits [of "nat (- n)"] by (simp add: itoa_def ParseInt_def)
next
  case False
  obtain d ds where d: "nat_digits (nat n) = d # ds" "is_digit d"
    using nat_digits_digits [of "nat n"] by (cases "nat_digits (nat n)") auto
  then have "d \<noteq> CHR ''-''" "d \<noteq> CHR ''+''" by (auto simp: is_digit_def)
  moreover have "digits_value (d # ds) = n" using digits_value_nat_digits [of "nat n"] False d(1) by simp
  ultimately show ?thesis
    using assms False d nat_digits_digits [of "nat n"] by (simp add: itoa_def ParseInt_def)
qed

lemma nat_digits_inj: "nat_digits m = nat_digits n \<Longrightarrow> m = n"
  by (metis digits_value_nat_digits of_nat_eq_iff)

section \<open>Integers and time\<close>

text \<open>Two's complement reduction to Go's \<^verbatim>\<open>int64\<close>.\<close>

definition i64 :: "int \<Rightarrow> int" where
  "i64 x = (x + 2 ^ 63) mod 2 ^ 64 - 2 ^ 63"

lemma i64_id: "- (2 ^ 63) \<le> x \<Longrightarrow> x < 2 ^ 63 \<Longrightarrow> i64 x = x"
  by (simp add: i64_def)

lemma i64_bounds: "- (2 ^ 63) \<le> i64 x \<and> i64 x < 2 ^ 63"
proof -
  have "0 \<le> (x + 2 ^ 63) mod 2 ^ 64" and "(x + 2 ^ 63) mod 2 ^ 64 < (2::int) ^ 64" by simp_all
  then show ?thesis by (simp add: i64_def)
qed

text \<open>\<^verbatim>\<open>Time.Sub\<close> saturates at the ends of the \<^verbatim>\<open>int64\<close> range.\<close>

definition sat64 :: "int \<Rightarrow> int" where
  "sat64 x = max (- (2 ^ 63)) (min (2 ^ 63 - 1) x)"

text \<open>
  A \<^verbatim>\<open>time.Time\<close> is the number of nanoseconds since the Unix epoch; the zero
  \<^verbatim>\<open>time.Time\<close> is the first instant of year 1. A \<^verbatim>\<open>time.Duration\<close> is an \<^verbatim>\<open>int64\<close>
  count of nanoseconds.
\<close>

type_synonym gotime = int

abbreviation Second :: int where "Second \<equiv> 1000000000"

definition zeroTime :: gotime where
  "zeroTime = - 62135596800 * Second"

abbreviation IsZero :: "gotime \<Rightarrow> bool" where
  "IsZero t \<equiv> t = zeroTime"

definition Unix :: "gotime \<Rightarrow> int" where
  "Unix t = t div Second"

definition timeUnix :: "int \<Rightarrow> gotime" where
  "timeUnix s = s * Second"

lemma Unix_timeUnix [simp]: "Unix (timeUnix s) = s"
  by (simp add: Unix_def timeUnix_def)

section \<open>Faults of input and output\<close>

text \<open>
  A device carries a counter of the operations done so far and a plan that says which of
  them fail, and with which message. A healthy device has a plan with no fault.
\<close>

type_synonym fault_plan = "nat \<Rightarrow> string option"

definition no_faults :: fault_plan where
  "no_faults = (\<lambda>_. None)"

lemma no_faults_apply [simp]: "no_faults n = None"
  by (simp add: no_faults_def)

section \<open>Lists\<close>

lemma sum_list_filter_le:
  fixes f :: "'a \<Rightarrow> int"
  assumes "\<And>x. x \<in> set xs \<Longrightarrow> 0 \<le> f x"
  shows "sum_list (map f (filter P xs)) \<le> sum_list (map f xs)"
  using assms by (induction xs) fastforce+

lemma sum_list_filter_partition:
  fixes f :: "'a \<Rightarrow> int"
  shows "sum_list (map f xs) = sum_list (map f (filter P xs)) + sum_list (map f (filter (\<lambda>x. \<not> P x) xs))"
  by (induction xs) auto

lemma distinct_map_filter: "distinct (map f xs) \<Longrightarrow> distinct (map f (filter P xs))"
  by (induction xs) auto

lemma find_None_iff_all: "find P xs = None \<longleftrightarrow> (\<forall>x \<in> set xs. \<not> P x)"
  by (auto simp: find_None_iff)

lemma find_SomeD: "find P xs = Some x \<Longrightarrow> x \<in> set xs \<and> P x"
  by (induction xs) (auto split: if_splits)

section \<open>Sorting by a comparison\<close>

text \<open>
  Insertion sort by a given comparison: the result of an SQL \<^verbatim>\<open>ORDER BY\<close> and of
  Go's stable sort, for a comparison that is total and transitive.
\<close>

fun insort_by :: "('a \<Rightarrow> 'a \<Rightarrow> bool) \<Rightarrow> 'a \<Rightarrow> 'a list \<Rightarrow> 'a list" where
  "insort_by le x [] = [x]"
| "insort_by le x (y # ys) = (if le x y then x # y # ys else y # insort_by le x ys)"

fun isort :: "('a \<Rightarrow> 'a \<Rightarrow> bool) \<Rightarrow> 'a list \<Rightarrow> 'a list" where
  "isort le [] = []"
| "isort le (x # xs) = insort_by le x (isort le xs)"

lemma set_insort_by [simp]: "set (insort_by le x xs) = insert x (set xs)"
  by (induction xs) auto

lemma set_isort [simp]: "set (isort le xs) = set xs"
  by (induction xs) auto

lemma length_insort_by [simp]: "length (insort_by le x xs) = Suc (length xs)"
  by (induction xs) auto

lemma length_isort [simp]: "length (isort le xs) = length xs"
  by (induction xs) auto

lemma isort_Nil_iff [simp]: "isort le xs = [] \<longleftrightarrow> xs = []"
  by (metis length_0_conv length_isort)

lemma distinct_map_insort_by:
  "distinct (map f (insort_by le x xs)) \<longleftrightarrow> f x \<notin> f ` set xs \<and> distinct (map f xs)"
  by (induction xs) auto

lemma distinct_map_isort [simp]: "distinct (map f (isort le xs)) \<longleftrightarrow> distinct (map f xs)"
  by (induction xs) (auto simp: distinct_map_insort_by)

lemma sorted_insort_by:
  assumes "\<And>a b. le a b \<or> le b a" and "\<And>a b c. le a b \<Longrightarrow> le b c \<Longrightarrow> le a c"
    and "sorted_wrt le xs"
  shows "sorted_wrt le (insort_by le x xs)"
  using assms(3)
proof (induction xs)
  case (Cons y ys)
  show ?case
  proof (cases "le x y")
    case True
    with Cons.prems show ?thesis by (auto intro: assms(2))
  next
    case False
    then have "le y x" using assms(1) by blast
    with Cons show ?thesis using False by auto
  qed
qed simp

lemma sorted_isort:
  assumes "\<And>a b. le a b \<or> le b a" and "\<And>a b c. le a b \<Longrightarrow> le b c \<Longrightarrow> le a c"
  shows "sorted_wrt le (isort le xs)"
proof (induction xs)
  case (Cons x xs)
  then show ?case by (simp add: sorted_insort_by [OF assms])
qed simp

lemma sum_list_insort_by:
  "sum_list (map f (insort_by le x xs)) = f x + sum_list (map (f :: 'a \<Rightarrow> int) xs)"
  by (induction xs) auto

lemma sum_list_isort [simp]: "sum_list (map f (isort le xs)) = sum_list (map (f :: 'a \<Rightarrow> int) xs)"
  by (induction xs) (auto simp: sum_list_insort_by)

lemma filter_insort_by:
  assumes "\<And>a b. le a b \<or> le b a" and "\<And>a b c. le a b \<Longrightarrow> le b c \<Longrightarrow> le a c" and "sorted_wrt le xs"
  shows "filter P (insort_by le x xs) = (if P x then insort_by le x (filter P xs) else filter P xs)"
  using assms(3)
proof (induction xs)
  case (Cons y ys)
  have "insort_by le x (filter P ys) = x # filter P ys" if "le x y"
  proof (cases "filter P ys")
    case (Cons z zs)
    then have "z \<in> set (filter P ys)" by simp
    then have "z \<in> set ys" by simp
    then have "le x z" using that Cons.prems assms(2) by auto
    with Cons show ?thesis by simp
  qed simp
  with Cons show ?case by auto
qed simp

lemma isort_filter:
  assumes "\<And>a b. le a b \<or> le b a" and "\<And>a b c. le a b \<Longrightarrow> le b c \<Longrightarrow> le a c"
  shows "isort le (filter P xs) = filter P (isort le xs)"
  by (induction xs) (simp_all add: filter_insort_by [OF assms sorted_isort [OF assms]])

end
