(* ===== verification/BlobStore.thy ===== *)
theory BlobStore
  imports Prelude
begin

text \<open>
  The content-addressed blob store: the contract of \<^verbatim>\<open>internal/store/blob/blob.go\<close> and the
  local-disk driver (\<^verbatim>\<open>internal/store/local/local.go\<close>). A blob lives under the path built
  from the hex part of its digest; digests are taken to hold no path separator. The file
  system operations of one call fail as the fault plan says. Temporary files are removed on
  every failing path of the code and are not part of the state.

  The package \<^verbatim>\<open>go-digest\<close> is a parameter: which digest strings it accepts, and the hex
  digest its algorithm for a digest string computes from some bytes.
\<close>

record digest_lib =
  dg_valid :: "string \<Rightarrow> bool"
  dg_hex :: "string \<Rightarrow> bytes \<Rightarrow> string"

datatype blob_err =
    BlobNotFound string
  | DigestTooShort string
  | InvalidDigest string
  | SizeMismatch int int
  | DigestMismatch string string
  | DiskErr string

fun blob_err_Error :: "blob_err \<Rightarrow> string" where
  "blob_err_Error (BlobNotFound d) = ''local: blob not found: '' @ d"
| "blob_err_Error (DigestTooShort h) = ''local: digest too short: '' @ quote h"
| "blob_err_Error (InvalidDigest d) = ''local: invalid digest '' @ quote d"
| "blob_err_Error (SizeMismatch a b) = ''local: size mismatch: expected '' @ itoa a @ '' got '' @ itoa b"
| "blob_err_Error (DigestMismatch a b) = ''local: digest mismatch: expected '' @ a @ '' got '' @ b"
| "blob_err_Error (DiskErr e) = e"

record disk =
  disk_root :: string
  blob_files :: "string list \<rightharpoonup> bytes"
  disk_tick :: nat
  disk_fault :: fault_plan

definition disk_healthy :: "disk \<Rightarrow> bool" where
  "disk_healthy d \<longleftrightarrow> disk_fault d = no_faults"

definition disk_io :: "disk \<Rightarrow> string option \<times> disk" where
  "disk_io d = (disk_fault d (disk_tick d), d\<lparr>disk_tick := Suc (disk_tick d)\<rparr>)"

definition disk_try :: "disk \<Rightarrow> (disk \<Rightarrow> (blob_err + 'a) \<times> disk) \<Rightarrow> (blob_err + 'a) \<times> disk" where
  "disk_try d k = (case disk_io d of (Some e, d') \<Rightarrow> (Inl (DiskErr e), d') | (None, d') \<Rightarrow> k d')"

definition hexDigest :: "string \<Rightarrow> blob_err + string" where
  "hexDigest digest =
     (let h = (case IndexByte digest (CHR '':'') of Some i \<Rightarrow> drop (Suc i) digest | None \<Rightarrow> digest)
      in if length h < 2 then Inl (DigestTooShort h) else Inr h)"

definition blobPath :: "disk \<Rightarrow> string \<Rightarrow> blob_err + string list" where
  "blobPath d digest =
     (case hexDigest digest of Inl e \<Rightarrow> Inl e | Inr h \<Rightarrow> Inr [disk_root d, take 2 h, h])"

text \<open>The bytes a reader positioned by \<^verbatim>\<open>Seek\<close> and capped by \<^verbatim>\<open>limitedReadCloser\<close> yields.\<close>

definition range_read :: "bytes \<Rightarrow> int \<Rightarrow> int \<Rightarrow> bytes" where
  "range_read c offset length' =
     (let tail = (if offset > 0 then drop (nat offset) c else c)
      in if length' < 0 then tail else take (nat length') tail)"

definition blob_Get :: "disk \<Rightarrow> string \<Rightarrow> int \<Rightarrow> int \<Rightarrow> (blob_err + (bytes \<times> int)) \<times> disk" where
  "blob_Get d digest offset length' =
     disk_try d (\<lambda>d.
       case blobPath d digest of
         Inl e \<Rightarrow> (Inl e, d)
       | Inr path \<Rightarrow>
           disk_try d (\<lambda>d.
             case blob_files d path of
               None \<Rightarrow> (Inl (BlobNotFound digest), d)
             | Some c \<Rightarrow>
                 disk_try d (\<lambda>d.
                   if offset > 0 then disk_try d (\<lambda>d. (Inr (range_read c offset length', int (length c)), d))
                   else (Inr (range_read c offset length', int (length c)), d))))"

definition commit_blob :: "string list \<Rightarrow> bytes \<Rightarrow> disk \<Rightarrow> disk" where
  "commit_blob path c d = d\<lparr>blob_files := (blob_files d)(path \<mapsto> c)\<rparr>"

text \<open>
  The writing part of \<^verbatim>\<open>Put\<close>: create the shard directory and the temporary file, check
  the digest string, copy and hash, compare the size, sync and close, compare the hash,
  rename.
\<close>

definition put_new :: "digest_lib \<Rightarrow> disk \<Rightarrow> string \<Rightarrow> string list \<Rightarrow> bytes \<Rightarrow> int \<Rightarrow> (blob_err + unit) \<times> disk" where
  "put_new dg d digest path c sz =
     disk_try d (\<lambda>d. disk_try d (\<lambda>d.
       if \<not> dg_valid dg digest then (Inl (InvalidDigest digest), d)
       else disk_try d (\<lambda>d.
         if 0 \<le> sz \<and> int (length c) \<noteq> sz then (Inl (SizeMismatch sz (int (length c))), d)
         else disk_try d (\<lambda>d. disk_try d (\<lambda>d.
           if dg_hex dg digest c \<noteq> last path then (Inl (DigestMismatch (last path) (dg_hex dg digest c)), d)
           else disk_try d (\<lambda>d. (Inr (), commit_blob path c d)))))))"

definition blob_Put :: "digest_lib \<Rightarrow> disk \<Rightarrow> string \<Rightarrow> bytes \<Rightarrow> int \<Rightarrow> (blob_err + unit) \<times> disk" where
  "blob_Put dg d digest c sz =
     disk_try d (\<lambda>d.
       case blobPath d digest of
         Inl e \<Rightarrow> (Inl e, d)
       | Inr path \<Rightarrow>
           (case disk_io d of
              (None, d') \<Rightarrow>
                if blob_files d path \<noteq> None then (Inr (), d') else put_new dg d' digest path c sz
            | (Some _, d') \<Rightarrow> put_new dg d' digest path c sz))"

definition blob_Exists :: "disk \<Rightarrow> string \<Rightarrow> (blob_err + bool) \<times> disk" where
  "blob_Exists d digest =
     disk_try d (\<lambda>d.
       case blobPath d digest of
         Inl e \<Rightarrow> (Inl e, d)
       | Inr path \<Rightarrow> disk_try d (\<lambda>d. (Inr (blob_files d path \<noteq> None), d)))"

definition remove_blob :: "string list \<Rightarrow> disk \<Rightarrow> disk" where
  "remove_blob path d = d\<lparr>blob_files := (blob_files d)(path := None)\<rparr>"

definition blob_Delete :: "disk \<Rightarrow> string \<Rightarrow> (blob_err + unit) \<times> disk" where
  "blob_Delete d digest =
     disk_try d (\<lambda>d.
       case blobPath d digest of
         Inl e \<Rightarrow> (Inl e, d)
       | Inr path \<Rightarrow> disk_try d (\<lambda>d. (Inr (), remove_blob path d)))"

lemmas [store_simps] = blob_Get_def blob_Put_def put_new_def blob_Exists_def blob_Delete_def
  disk_try_def disk_io_def blobPath_def hexDigest_def commit_blob_def remove_blob_def

section \<open>The contract of a content-addressed store\<close>

locale blob_store =
  fixes content :: "'d \<Rightarrow> 'k \<Rightarrow> bytes option"
    and commit :: "'k \<Rightarrow> bytes \<Rightarrow> 'd \<Rightarrow> 'd"
    and remove :: "'k \<Rightarrow> 'd \<Rightarrow> 'd"
    and matches :: "'k \<Rightarrow> bytes \<Rightarrow> bool"
  assumes content_commit: "content (commit k c d) = (content d)(k \<mapsto> c)"
    and content_remove: "content (remove k d) = (content d)(k := None)"
begin

definition intact :: "'d \<Rightarrow> bool" where
  "intact d \<longleftrightarrow> (\<forall>k c. content d k = Some c \<longrightarrow> matches k c)"

lemma intact_commit: "intact d \<Longrightarrow> matches k c \<Longrightarrow> intact (commit k c d)"
  by (auto simp: intact_def content_commit)

lemma intact_remove: "intact d \<Longrightarrow> intact (remove k d)"
  by (auto simp: intact_def content_remove)

lemma read_matches: "intact d \<Longrightarrow> content d k = Some c \<Longrightarrow> matches k c"
  by (simp add: intact_def)

text \<open>A committed blob stays readable, with its bytes, until that key is removed.\<close>

lemma commit_read: "content (commit k c d) k = Some c"
  by (simp add: content_commit)

lemma remove_other: "k' \<noteq> k \<Longrightarrow> content (remove k d) k' = content d k'"
  by (simp add: content_remove)

end

section \<open>The local-disk driver\<close>

text \<open>A path holds bytes that hash, by some digest with that hex part, to its last segment.\<close>

definition path_matches :: "digest_lib \<Rightarrow> string list \<Rightarrow> bytes \<Rightarrow> bool" where
  "path_matches dg path c \<longleftrightarrow>
     (\<exists>digest. dg_valid dg digest \<and> hexDigest digest = Inr (last path) \<and> dg_hex dg digest c = last path)"

interpretation ldisk: blob_store blob_files commit_blob remove_blob "path_matches dg" for dg
  by unfold_locales (simp_all add: commit_blob_def remove_blob_def)

abbreviation cas_intact :: "digest_lib \<Rightarrow> disk \<Rightarrow> bool" where
  "cas_intact dg d \<equiv> ldisk.intact dg d"

lemma disk_try_preserves:
  assumes "\<And>d'. P d' \<Longrightarrow> P (snd (k d'))" and "P (d\<lparr>disk_tick := Suc (disk_tick d)\<rparr>)"
  shows "P (snd (disk_try d k))"
  using assms by (auto simp: disk_try_def disk_io_def split: option.splits)

lemma intact_tick [simp]: "cas_intact dg (d\<lparr>disk_tick := n\<rparr>) \<longleftrightarrow> cas_intact dg d"
  by (simp add: ldisk.intact_def)

lemma blobPath_tick [simp]: "blobPath (d\<lparr>disk_tick := n\<rparr>) digest = blobPath d digest"
  by (simp add: blobPath_def cong: sum.case_cong)

lemma disk_io_simps [simp]:
  "blob_files (snd (disk_io d)) = blob_files d"
  "disk_root (snd (disk_io d)) = disk_root d"
  "disk_fault (snd (disk_io d)) = disk_fault d"
  by (simp_all add: disk_io_def)

lemma blob_Get_state [simp]:
  "blob_files (snd (blob_Get d k a b)) = blob_files d"
  "disk_root (snd (blob_Get d k a b)) = disk_root d"
  "disk_fault (snd (blob_Get d k a b)) = disk_fault d"
  by (simp_all add: store_simps Let_def split: option.splits sum.splits)

lemma blob_Exists_state [simp]:
  "blob_files (snd (blob_Exists d k)) = blob_files d"
  "disk_root (snd (blob_Exists d k)) = disk_root d"
  "disk_fault (snd (blob_Exists d k)) = disk_fault d"
  by (simp_all add: store_simps Let_def split: option.splits sum.splits)

lemma put_new_frame [simp]:
  "disk_root (snd (put_new dg d k path c n)) = disk_root d"
  "disk_fault (snd (put_new dg d k path c n)) = disk_fault d"
  by (simp_all add: store_simps Let_def split: option.splits)

lemma blob_Put_frame [simp]:
  "disk_root (snd (blob_Put dg d k c n)) = disk_root d"
  "disk_fault (snd (blob_Put dg d k c n)) = disk_fault d"
  by (simp_all add: blob_Put_def disk_try_def blobPath_def disk_io_def split: option.splits sum.splits)

lemma blob_Delete_frame [simp]:
  "disk_root (snd (blob_Delete d k)) = disk_root d"
  "disk_fault (snd (blob_Delete d k)) = disk_fault d"
  by (simp_all add: store_simps Let_def split: option.splits sum.splits)

text \<open>The writing part either leaves the files alone or commits bytes that match.\<close>

lemma put_new_files:
  "blob_files (snd (put_new dg d digest path c sz)) = blob_files d \<or>
   blob_files (snd (put_new dg d digest path c sz)) = (blob_files d)(path \<mapsto> c)
     \<and> dg_valid dg digest \<and> dg_hex dg digest c = last path"
  by (auto simp: store_simps split: option.splits)

lemma put_new_ok:
  "fst (put_new dg d digest path c sz) = Inr () \<Longrightarrow>
   blob_files (snd (put_new dg d digest path c sz)) = (blob_files d)(path \<mapsto> c)
     \<and> dg_valid dg digest \<and> dg_hex dg digest c = last path \<and> (0 \<le> sz \<longrightarrow> int (length c) = sz)"
  by (auto simp: store_simps split: option.splits if_splits)

lemma blobPath_hex: "blobPath d digest = Inr path \<Longrightarrow> hexDigest digest = Inr (last path) \<and> disk_root d = hd path"
  by (auto simp: blobPath_def split: sum.splits)

lemma put_new_intact:
  assumes "cas_intact dg d" and "hexDigest digest = Inr (last path)"
  shows "cas_intact dg (snd (put_new dg d digest path c sz))"
  using put_new_files [of dg d digest path c sz] assms
  by (auto simp: ldisk.intact_def path_matches_def split: if_splits)

lemma blob_Put_files:
  "blob_files (snd (blob_Put dg d digest c sz)) = blob_files d \<or>
   (\<exists>path. blobPath d digest = Inr path
      \<and> blob_files (snd (blob_Put dg d digest c sz)) = (blob_files d)(path \<mapsto> c)
      \<and> dg_valid dg digest \<and> dg_hex dg digest c = last path)"
proof (cases "blobPath d digest")
  case (Inr path)
  have "blob_files (snd (put_new dg (d\<lparr>disk_tick := n\<rparr>) digest path c sz)) = blob_files d \<or>
      blob_files (snd (put_new dg (d\<lparr>disk_tick := n\<rparr>) digest path c sz)) = (blob_files d)(path \<mapsto> c)
        \<and> dg_valid dg digest \<and> dg_hex dg digest c = last path" for n
    using put_new_files [of dg "d\<lparr>disk_tick := n\<rparr>" digest path c sz] by simp
  with Inr show ?thesis
    by (simp add: blob_Put_def disk_try_def disk_io_def split: option.splits)
qed (simp add: blob_Put_def disk_try_def disk_io_def split: option.splits)

lemma blob_Put_intact:
  assumes "cas_intact dg d"
  shows "cas_intact dg (snd (blob_Put dg d digest c sz))"
  using blob_Put_files [of dg d digest c sz]
proof
  assume "\<exists>path. blobPath d digest = Inr path
      \<and> blob_files (snd (blob_Put dg d digest c sz)) = (blob_files d)(path \<mapsto> c)
      \<and> dg_valid dg digest \<and> dg_hex dg digest c = last path"
  then show ?thesis
    using assms by (auto simp: ldisk.intact_def path_matches_def dest!: blobPath_hex split: if_splits)
qed (use assms in \<open>simp add: ldisk.intact_def\<close>)

lemma blob_Delete_intact: "cas_intact dg d \<Longrightarrow> cas_intact dg (snd (blob_Delete d digest))"
  by (auto simp: blob_Delete_def disk_try_def disk_io_def ldisk.intact_remove split: option.splits sum.splits)

text \<open>After a successful \<^verbatim>\<open>Put\<close> the blob is there.\<close>

lemma blob_Put_ok:
  assumes "fst (blob_Put dg d digest c sz) = Inr ()"
  shows "\<exists>path. blobPath d digest = Inr path
     \<and> blob_files (snd (blob_Put dg d digest c sz)) path \<noteq> None"
proof -
  from assms obtain path where path: "blobPath d digest = Inr path"
    by (auto simp: blob_Put_def disk_try_def disk_io_def split: option.splits sum.splits)
  with assms put_new_ok [of dg _ digest path c sz] show ?thesis
    by (auto simp: blob_Put_def disk_try_def disk_io_def split: option.splits if_splits)
qed

text \<open>A blob already there survives, with its bytes, unless its own path is rewritten.\<close>

lemma blob_Put_keeps:
  "blob_files d p = Some b \<Longrightarrow> blobPath d digest \<noteq> Inr p \<Longrightarrow>
   blob_files (snd (blob_Put dg d digest c sz)) p = Some b"
  using blob_Put_files [of dg d digest c sz] by (auto simp: fun_upd_def)

lemma blob_Put_dom: "dom (blob_files d) \<subseteq> dom (blob_files (snd (blob_Put dg d digest c sz)))"
  using blob_Put_files [of dg d digest c sz] by auto

lemma blob_Delete_other:
  "blobPath d digest \<noteq> Inr p \<Longrightarrow> blob_files (snd (blob_Delete d digest)) p = blob_files d p"
  by (auto simp: blob_Delete_def disk_try_def disk_io_def remove_blob_def split: option.splits sum.splits)

lemma blob_Get_ok:
  "fst (blob_Get d digest off len) = Inr (b, n) \<Longrightarrow>
   \<exists>path c. blobPath d digest = Inr path \<and> blob_files d path = Some c
     \<and> b = range_read c off len \<and> n = int (length c)"
  by (auto simp: blob_Get_def disk_try_def disk_io_def split: option.splits sum.splits if_splits)

lemma blob_Exists_ok:
  "fst (blob_Exists d digest) = Inr b \<Longrightarrow>
   \<exists>path. blobPath d digest = Inr path \<and> b = (blob_files d path \<noteq> None)"
  by (auto simp: blob_Exists_def disk_try_def disk_io_def split: option.splits sum.splits)

text \<open>On a healthy disk the read operations answer from the files.\<close>

lemma blob_Exists_healthy:
  "disk_healthy d \<Longrightarrow> blobPath d digest = Inr path \<Longrightarrow>
   fst (blob_Exists d digest) = Inr (blob_files d path \<noteq> None)"
  by (simp add: blob_Exists_def disk_try_def disk_io_def disk_healthy_def)

lemma blob_Get_healthy:
  "disk_healthy d \<Longrightarrow> blobPath d digest = Inr path \<Longrightarrow> blob_files d path = Some c \<Longrightarrow>
   fst (blob_Get d digest off len) = Inr (range_read c off len, int (length c))"
  by (simp add: blob_Get_def disk_try_def disk_io_def disk_healthy_def)

lemma blob_Put_healthy:
  assumes "disk_healthy d" and "blobPath d digest = Inr path" and "dg_valid dg digest"
    and "dg_hex dg digest c = last path" and "sz < 0 \<or> sz = int (length c)"
  shows "fst (blob_Put dg d digest c sz) = Inr ()"
  using assms by (auto simp: blob_Put_def put_new_def disk_try_def disk_io_def disk_healthy_def)

section \<open>Properties\<close>

text \<open>the blob store holds only bytes that hash to their name: writing and deleting keep this whatever
  the disk does, and whatever bytes, digest and size the caller passes.\<close>

theorem blob_operations_keep_intact:
  assumes "cas_intact dg d"
  shows "cas_intact dg (snd (blob_Put dg d digest c sz)) \<and> cas_intact dg (snd (blob_Delete d digest))"
  using assms by (simp add: blob_Put_intact blob_Delete_intact)

text \<open>On a healthy disk, storing bytes under the digest they hash to and reading a range gives that
  range of those bytes and the full size, if the digest was not stored before.\<close>

theorem blob_Put_then_Get:
  assumes "disk_healthy d" and "blobPath d digest = Inr path" and "blob_files d path = None"
    and "dg_valid dg digest" and "dg_hex dg digest c = last path" and "sz < 0 \<or> sz = int (length c)"
  shows "fst (blob_Put dg d digest c sz) = Inr ()
    \<and> fst (blob_Get (snd (blob_Put dg d digest c sz)) digest off len) = Inr (range_read c off len, int (length c))"
proof -
  let ?d = "snd (blob_Put dg d digest c sz)"
  have ok: "fst (blob_Put dg d digest c sz) = Inr ()" by (rule blob_Put_healthy [OF assms(1,2,4-6)])
  have path: "blobPath ?d digest = Inr path" using assms(2) by (simp add: blobPath_def split: sum.splits)
  then have "blob_files ?d path = Some c"
    using blob_Put_files [of dg d digest c sz] blob_Put_ok [OF ok] assms(2,3) by auto
  with path assms(1) have "fst (blob_Get ?d digest off len) = Inr (range_read c off len, int (length c))"
    by (intro blob_Get_healthy) (simp_all add: disk_healthy_def)
  with ok show ?thesis by simp
qed

definition blob_demo_disk :: disk where
  "blob_demo_disk = \<lparr>disk_root = ''/cas'', blob_files = Map.empty, disk_tick = 0, disk_fault = no_faults\<rparr>"

definition blob_demo_lib :: digest_lib where
  "blob_demo_lib = \<lparr>dg_valid = (\<lambda>_. True), dg_hex = (\<lambda>_ c. c)\<rparr>"

theorem blob_operations_keep_intact_witness: "cas_intact blob_demo_lib (snd (blob_Put blob_demo_lib blob_demo_disk ''sha256:ab'' ''xy'' (- 1)))"
  using blob_operations_keep_intact [of blob_demo_lib blob_demo_disk] by (simp add: ldisk.intact_def blob_demo_disk_def)

theorem blob_Put_then_Get_witness:
  "fst (blob_Get (snd (blob_Put blob_demo_lib blob_demo_disk ''sha256:abc'' ''abc'' 3)) ''sha256:abc'' 1 1) = Inr (''b'', 3)"
  using blob_Put_then_Get [of blob_demo_disk "''sha256:abc''" "[''/cas'', ''ab'', ''abc'']" blob_demo_lib "''abc''" 3 1 1]
  by (simp add: blob_demo_disk_def blob_demo_lib_def disk_healthy_def blobPath_def hexDigest_def range_read_def)

end
