(* ===== verification/Artifact.thy ===== *)
theory Artifact
  imports Prelude
begin

text \<open>
  The canonical data types of \<^verbatim>\<open>pkg/artifact/types.go\<close>: the ordered trust tiers, the
  verification status, the artifact reference, the quarantined artifact, verification
  results, and the entries of the two cache tiers.
\<close>

section \<open>Trust tiers and status\<close>

datatype Tier = TierChecksum | TierTofu | TierConsensus | TierSigned

text \<open>The \<^verbatim>\<open>iota\<close> values: the order of the tiers is the order of these numbers.\<close>

fun tier_rank :: "Tier \<Rightarrow> nat" where
  "tier_rank TierChecksum = 0"
| "tier_rank TierTofu = 1"
| "tier_rank TierConsensus = 2"
| "tier_rank TierSigned = 3"

lemma tier_rank_inject [simp]: "tier_rank a = tier_rank b \<longleftrightarrow> a = b"
  by (cases a; cases b) simp_all

instantiation Tier :: linorder
begin

definition less_eq_Tier :: "Tier \<Rightarrow> Tier \<Rightarrow> bool" where
  "less_eq_Tier a b \<longleftrightarrow> tier_rank a \<le> tier_rank b"

definition less_Tier :: "Tier \<Rightarrow> Tier \<Rightarrow> bool" where
  "less_Tier a b \<longleftrightarrow> tier_rank a < tier_rank b"

instance
  by standard (auto simp: less_eq_Tier_def less_Tier_def)

end

lemma TierChecksum_least [simp]: "TierChecksum \<le> t"
  by (simp add: less_eq_Tier_def)

lemma TierSigned_greatest [simp]: "t \<le> TierSigned"
  by (cases t) (simp_all add: less_eq_Tier_def)

fun Tier_String :: "Tier \<Rightarrow> string" where
  "Tier_String TierSigned = ''signed''"
| "Tier_String TierConsensus = ''consensus''"
| "Tier_String TierTofu = ''tofu''"
| "Tier_String TierChecksum = ''checksum''"

datatype Status = StatusPass | StatusWarn | StatusFail | StatusSkip

fun Status_String :: "Status \<Rightarrow> string" where
  "Status_String StatusPass = ''pass''"
| "Status_String StatusWarn = ''warn''"
| "Status_String StatusFail = ''fail''"
| "Status_String StatusSkip = ''skip''"

section \<open>References and artifacts\<close>

record ArtifactRef =
  rProtocol :: string
  rName :: string
  rVersion :: string
  rDigest :: string
  rUpstream :: string
  rMutable :: bool

record UpstreamMeta =
  uETag :: string
  uLastModified :: string
  uUpstream :: string
  uContentType :: string
  uStatusCode :: int
  uAttachments :: "bytes list"
  uPublishedAt :: gotime

definition no_meta :: UpstreamMeta where
  "no_meta = \<lparr>uETag = [], uLastModified = [], uUpstream = [], uContentType = [], uStatusCode = 0, uAttachments = [], uPublishedAt = zeroTime\<rparr>"

record Artifact =
  aPath :: string
  aDigest :: string
  aSize :: int
  aMeta :: UpstreamMeta

record Result =
  resStatus :: Status
  resTier :: Tier
  resMessage :: string
  resRetryable :: bool

definition mk_result :: "Status \<Rightarrow> Tier \<Rightarrow> string \<Rightarrow> Result" where
  "mk_result st t msg = \<lparr>resStatus = st, resTier = t, resMessage = msg, resRetryable = False\<rparr>"

lemma mk_result_simps [simp]:
  "resStatus (mk_result st t m) = st"
  "resTier (mk_result st t m) = t"
  "resMessage (mk_result st t m) = m"
  "resRetryable (mk_result st t m) = False"
  by (simp_all add: mk_result_def)

section \<open>Cache entries\<close>

definition OriginCached :: string where "OriginCached = ''cached''"
definition OriginHosted :: string where "OriginHosted = ''hosted''"

definition NormalizeOrigin :: "string \<Rightarrow> string" where
  "NormalizeOrigin o' = (if o' = OriginHosted then OriginHosted else OriginCached)"

lemma NormalizeOrigin_idem [simp]: "NormalizeOrigin (NormalizeOrigin o') = NormalizeOrigin o'"
  by (simp add: NormalizeOrigin_def)

lemma Origin_distinct [simp]: "OriginCached \<noteq> OriginHosted" "OriginHosted \<noteq> OriginCached"
  by (simp_all add: OriginCached_def OriginHosted_def)

lemma Origin_nonempty [simp]: "OriginCached \<noteq> []" "OriginHosted \<noteq> []"
  by (simp_all add: OriginCached_def OriginHosted_def)

lemma NormalizeOrigin_simps [simp]:
  "NormalizeOrigin OriginHosted = OriginHosted"
  "NormalizeOrigin OriginCached = OriginCached"
  "NormalizeOrigin [] = OriginCached"
  by (simp_all add: NormalizeOrigin_def OriginHosted_def OriginCached_def)

lemma NormalizeOrigin_cases: "NormalizeOrigin o' = OriginHosted \<or> NormalizeOrigin o' = OriginCached"
  by (simp add: NormalizeOrigin_def)

record CacheEntry =
  ceRef :: ArtifactRef
  ceDigest :: string
  ceSize :: int
  ceProtocol :: string
  ceTier :: Tier
  ceUpstream :: string
  ceETag :: string
  ceVerifiedAt :: gotime
  ceCreatedAt :: gotime
  ceOrigin :: string
  ceSoftExpired :: bool

record MutableEntry =
  meKey :: string
  meProtocol :: string
  meDigest :: string
  mePayload :: bytes
  meETag :: string
  meLastModified :: string
  meTTLSeconds :: int
  meUpstream :: string
  meFetchedAt :: gotime

record SizeStat =
  ssBytes :: int
  ssObjects :: int
  ssOldest :: gotime
  ssNewest :: gotime
  ssObjectsCountable :: bool

end
