(* ===== verification/EntryId.thy ===== *)
theory EntryId
  imports Artifact
begin

text \<open>
  The opaque identifiers of cache entries (\<^verbatim>\<open>internal/store/meta/id.go\<close>): the primary
  key (protocol, name, version), joined with NUL bytes, in unpadded URL-safe base64. The
  encoder and decoder of Go's \<^verbatim>\<open>base64.RawURLEncoding\<close> are written out below; the
  decoder skips carriage returns and line feeds, and ignores the unused low bits of a last
  partial group, as Go's does.
\<close>

section \<open>Unpadded URL-safe base64\<close>

definition b64_alphabet :: string where
  "b64_alphabet = ''ABCDEFGHIJKLMNOPQRSTUVWXYZabcdefghijklmnopqrstuvwxyz0123456789-_''"

definition b64_digit :: "nat \<Rightarrow> char" where
  "b64_digit n = b64_alphabet ! n"

fun b64_groups :: "nat list \<Rightarrow> nat list" where
  "b64_groups [] = []"
| "b64_groups [a] = [a div 4, a mod 4 * 16]"
| "b64_groups [a, b] = [a div 4, a mod 4 * 16 + b div 16, b mod 16 * 4]"
| "b64_groups (a # b # c # r) =
     a div 4 # (a mod 4 * 16 + b div 16) # (b mod 16 * 4 + c div 64) # c mod 64 # b64_groups r"

fun b64_ungroups :: "nat list \<Rightarrow> nat list option" where
  "b64_ungroups [] = Some []"
| "b64_ungroups [w] = None"
| "b64_ungroups [w, x] = Some [w * 4 + x div 16]"
| "b64_ungroups [w, x, y] = Some [w * 4 + x div 16, x mod 16 * 16 + y div 4]"
| "b64_ungroups (w # x # y # z # r) =
     map_option (\<lambda>bs. (w * 4 + x div 16) # (x mod 16 * 16 + y div 4) # (y mod 4 * 64 + z) # bs)
       (b64_ungroups r)"

definition RawURL_EncodeToString :: "bytes \<Rightarrow> string" where
  "RawURL_EncodeToString bs = map b64_digit (b64_groups (map of_char bs))"

definition RawURL_DecodeString :: "string \<Rightarrow> bytes option" where
  "RawURL_DecodeString s =
     (case those (map (IndexByte b64_alphabet) (filter (\<lambda>c. c \<noteq> CHR 0x0A \<and> c \<noteq> CHR 0x0D) s)) of
        None \<Rightarrow> None
      | Some ds \<Rightarrow> map_option (map char_of) (b64_ungroups ds))"

lemma b64_groups_bound: "\<forall>b \<in> set bs. b < 256 \<Longrightarrow> \<forall>d \<in> set (b64_groups bs). d < 64"
  by (induction bs rule: b64_groups.induct) auto

lemma div16_less: "b < 256 \<Longrightarrow> b div 16 < (16::nat)"
  by (simp add: less_mult_imp_div_less)

lemma div64_less: "c < 256 \<Longrightarrow> c div 64 < (4::nat)"
  by (simp add: less_mult_imp_div_less)

lemma b64_byte: "b < 256 \<Longrightarrow> b div 16 mod 16 * 16 + b mod 16 = (b::nat)"
  by (simp add: div16_less)

lemma b64_triple: "c < 256 \<Longrightarrow> c div 64 mod 4 * 64 + c mod 64 = (c::nat)"
  by (simp add: div64_less)

lemma b64_ungroups_groups: "\<forall>b \<in> set bs. b < 256 \<Longrightarrow> b64_ungroups (b64_groups bs) = Some bs"
  by (induction bs rule: b64_groups.induct)
    (auto simp: div16_less div64_less b64_byte b64_triple)

lemma b64_alphabet_distinct: "distinct b64_alphabet"
  by (simp add: b64_alphabet_def)

lemma b64_alphabet_length [simp]: "length b64_alphabet = 64"
  by (simp add: b64_alphabet_def)

lemma b64_alphabet_no_newline: "CHR 0x0A \<notin> set b64_alphabet" "CHR 0x0D \<notin> set b64_alphabet"
  by (simp_all add: b64_alphabet_def)

lemma IndexByte_nth: "distinct s \<Longrightarrow> i < length s \<Longrightarrow> IndexByte s (s ! i) = Some i"
proof (induction s arbitrary: i)
  case (Cons x xs)
  then show ?case by (cases i) auto
qed simp

lemma IndexByte_b64_digit: "d < 64 \<Longrightarrow> IndexByte b64_alphabet (b64_digit d) = Some d"
  by (simp add: b64_digit_def IndexByte_nth b64_alphabet_distinct)

lemma b64_digit_in: "d < 64 \<Longrightarrow> b64_digit d \<in> set b64_alphabet"
  by (simp add: b64_digit_def)

lemma those_map_digits:
  "\<forall>d \<in> set ds. d < 64 \<Longrightarrow> those (map (\<lambda>d. IndexByte b64_alphabet (b64_digit d)) ds) = Some ds"
  by (induction ds) (auto simp: IndexByte_b64_digit)

lemma filter_digits:
  "\<forall>d \<in> set ds. d < 64 \<Longrightarrow>
   filter (\<lambda>c. c \<noteq> CHR 0x0A \<and> c \<noteq> CHR 0x0D) (map b64_digit ds) = map b64_digit ds"
proof (induction ds)
  case (Cons d ds)
  then have "b64_digit d \<in> set b64_alphabet" by (simp add: b64_digit_in)
  with b64_alphabet_no_newline have "b64_digit d \<noteq> CHR 0x0A" "b64_digit d \<noteq> CHR 0x0D" by metis+
  with Cons show ?case by simp
qed simp

lemma of_char_bound: "(of_char (c::char) :: nat) < 256"
  by simp

theorem RawURL_roundtrip: "RawURL_DecodeString (RawURL_EncodeToString bs) = Some bs"
proof -
  let ?ds = "b64_groups (map of_char bs) :: nat list"
  have b: "\<forall>b \<in> set (map of_char bs). (b::nat) < 256"
    by simp
  then have d: "\<forall>d \<in> set ?ds. d < 64" by (rule b64_groups_bound)
  have "those (map (IndexByte b64_alphabet) (map b64_digit ?ds)) = Some ?ds"
    using those_map_digits [OF d] by (simp add: comp_def)
  then show ?thesis
    unfolding RawURL_DecodeString_def RawURL_EncodeToString_def filter_digits [OF d]
    by (simp add: b64_ungroups_groups [OF b] comp_def)
qed

section \<open>Entry identifiers\<close>

definition entryIDSep :: char where
  "entryIDSep = CHR 0x00"

definition EncodeEntryID :: "ArtifactRef \<Rightarrow> string" where
  "EncodeEntryID ref = RawURL_EncodeToString (Join [rProtocol ref, rName ref, rVersion ref] [entryIDSep])"

text \<open>\<^const>\<open>None\<close> is \<^verbatim>\<open>ErrBadEntryID\<close>.\<close>

definition DecodeEntryID :: "string \<Rightarrow> ArtifactRef option" where
  "DecodeEntryID id' =
     (case RawURL_DecodeString id' of
        None \<Rightarrow> None
      | Some raw \<Rightarrow>
          (case Split raw entryIDSep of
             [p, n, v] \<Rightarrow>
               if p = [] \<or> n = [] then None
               else Some \<lparr>rProtocol = p, rName = n, rVersion = v, rDigest = [], rUpstream = [],
                          rMutable = False\<rparr>
           | _ \<Rightarrow> None))"

text \<open>The primary-key part of a reference, with the other fields at their zero values.\<close>

definition key_ref :: "ArtifactRef \<Rightarrow> ArtifactRef" where
  "key_ref ref = \<lparr>rProtocol = rProtocol ref, rName = rName ref, rVersion = rVersion ref,
                  rDigest = [], rUpstream = [], rMutable = False\<rparr>"

definition no_nul :: "ArtifactRef \<Rightarrow> bool" where
  "no_nul ref \<longleftrightarrow> entryIDSep \<notin> set (rProtocol ref) \<and> entryIDSep \<notin> set (rName ref)
     \<and> entryIDSep \<notin> set (rVersion ref)"

text \<open>entry identifiers round-trip: for a reference whose key fields have no NUL byte, decoding its
  identifier gives back its key, and exactly the references without protocol or name are refused.\<close>

theorem DecodeEntryID_EncodeEntryID:
  assumes "no_nul ref"
  shows "DecodeEntryID (EncodeEntryID ref) =
    (if rProtocol ref = [] \<or> rName ref = [] then None else Some (key_ref ref))"
proof -
  have "Split (Join [rProtocol ref, rName ref, rVersion ref] [entryIDSep]) entryIDSep
      = [rProtocol ref, rName ref, rVersion ref]"
    using assms by (intro Split_Join) (auto simp: no_nul_def)
  then show ?thesis
    by (simp add: DecodeEntryID_def EncodeEntryID_def RawURL_roundtrip key_ref_def)
qed

text \<open>Every accepted identifier names a key with a protocol, a name, and no NUL byte.\<close>

lemma DecodeEntryID_Some:
  assumes "DecodeEntryID i = Some ref"
  shows "no_nul ref \<and> rProtocol ref \<noteq> [] \<and> rName ref \<noteq> [] \<and> key_ref ref = ref"
proof -
  from assms obtain raw p n v where "Split raw entryIDSep = [p, n, v]" and "p \<noteq> []" "n \<noteq> []"
    and ref: "ref = \<lparr>rProtocol = p, rName = n, rVersion = v, rDigest = [], rUpstream = [],
                      rMutable = False\<rparr>"
    by (auto simp: DecodeEntryID_def split: option.splits list.splits if_splits)
  then have "entryIDSep \<notin> set p" "entryIDSep \<notin> set n" "entryIDSep \<notin> set v"
    using Split_parts_no_sep [of _ raw entryIDSep] by auto
  with ref \<open>p \<noteq> []\<close> \<open>n \<noteq> []\<close> show ?thesis by (simp add: no_nul_def key_ref_def)
qed

lemma EncodeEntryID_inject:
  assumes "no_nul a" and "no_nul b" and "EncodeEntryID a = EncodeEntryID b"
  shows "key_ref a = key_ref b"
proof -
  have "Join [rProtocol a, rName a, rVersion a] [entryIDSep]
      = Join [rProtocol b, rName b, rVersion b] [entryIDSep]"
    using assms(3) RawURL_roundtrip unfolding EncodeEntryID_def by (metis option.inject)
  then have "Split (Join [rProtocol a, rName a, rVersion a] [entryIDSep]) entryIDSep
      = Split (Join [rProtocol b, rName b, rVersion b] [entryIDSep]) entryIDSep"
    by simp
  moreover have "Split (Join [rProtocol r, rName r, rVersion r] [entryIDSep]) entryIDSep
      = [rProtocol r, rName r, rVersion r]" if "no_nul r" for r
    using that by (intro Split_Join) (auto simp: no_nul_def)
  ultimately show ?thesis using assms(1,2) by (simp add: key_ref_def)
qed

definition entry_id_demo :: ArtifactRef where
  "entry_id_demo = \<lparr>rProtocol = ''npm'', rName = ''@types/node'', rVersion = ''20.1'', rDigest = ''d'', rUpstream = [], rMutable = False\<rparr>"

theorem DecodeEntryID_EncodeEntryID_witness: "DecodeEntryID (EncodeEntryID entry_id_demo) = Some (key_ref entry_id_demo)"
  using DecodeEntryID_EncodeEntryID [of entry_id_demo] by (simp add: no_nul_def entry_id_demo_def entryIDSep_def)

end
