(* ===== verification/MetaStore.thy ===== *)
theory MetaStore
  imports EntryId
begin

text \<open>
  The metadata store: the contract of \<^verbatim>\<open>internal/store/meta/meta.go\<close> and the SQLite
  driver that implements it (\<^verbatim>\<open>internal/store/sqlite/sqlite.go\<close> and \<^verbatim>\<open>list.go\<close>). The
  table \<^verbatim>\<open>cache_entries\<close> is a list of rows with distinct primary keys, the table
  \<^verbatim>\<open>mutable_entries\<close> a map. Every statement is one operation of the device: it fails as
  the fault plan says, without touching a table, or takes effect.
\<close>

section \<open>Tables\<close>

record row =
  r_protocol :: string
  r_name :: string
  r_version :: string
  r_ref_digest :: string
  r_ref_upstream :: string
  r_mutable :: bool
  r_digest :: string
  r_size :: int
  r_tier :: Tier
  r_upstream :: string
  r_etag :: string
  r_verified_at :: int
  r_created_at :: int
  r_pinned :: bool
  r_origin :: string

record sqlite =
  cache_entries :: "row list"
  mutable_entries :: "string \<rightharpoonup> MutableEntry"
  db_now :: gotime
  db_tick :: nat
  db_fault :: fault_plan

type_synonym pkey = "string \<times> string \<times> string"

definition row_key :: "row \<Rightarrow> pkey" where
  "row_key r = (r_protocol r, r_name r, r_version r)"

definition ref_key :: "ArtifactRef \<Rightarrow> pkey" where
  "ref_key ref = (rProtocol ref, rName ref, rVersion ref)"

definition find_row :: "row list \<Rightarrow> pkey \<Rightarrow> row option" where
  "find_row rows k = find (\<lambda>r. row_key r = k) rows"

definition db_io :: "sqlite \<Rightarrow> string option \<times> sqlite" where
  "db_io s = (db_fault s (db_tick s), s\<lparr>db_tick := Suc (db_tick s)\<rparr>)"

definition db_healthy :: "sqlite \<Rightarrow> bool" where
  "db_healthy s \<longleftrightarrow> db_fault s = no_faults"

section \<open>Immutable entries\<close>

definition row_CacheEntry :: "row \<Rightarrow> CacheEntry" where
  "row_CacheEntry r =
     \<lparr>ceRef = \<lparr>rProtocol = r_protocol r, rName = r_name r, rVersion = r_version r,
               rDigest = r_ref_digest r, rUpstream = r_ref_upstream r, rMutable = r_mutable r\<rparr>,
      ceDigest = r_digest r, ceSize = r_size r, ceProtocol = r_protocol r, ceTier = r_tier r,
      ceUpstream = r_upstream r, ceETag = r_etag r,
      ceVerifiedAt = timeUnix (r_verified_at r), ceCreatedAt = timeUnix (r_created_at r),
      ceOrigin = NormalizeOrigin (r_origin r), ceSoftExpired = False\<rparr>"

definition Get :: "sqlite \<Rightarrow> ArtifactRef \<Rightarrow> (string + CacheEntry option) \<times> sqlite" where
  "Get s ref =
     (case db_io s of
        (Some e, s') \<Rightarrow> (Inl e, s')
      | (None, s') \<Rightarrow> (Inr (map_option row_CacheEntry (find_row (cache_entries s) (ref_key ref))), s'))"

definition entry_row :: "gotime \<Rightarrow> CacheEntry \<Rightarrow> row" where
  "entry_row now e =
     \<lparr>r_protocol = (if ceProtocol e = [] then rProtocol (ceRef e) else ceProtocol e),
      r_name = rName (ceRef e), r_version = rVersion (ceRef e),
      r_ref_digest = rDigest (ceRef e), r_ref_upstream = rUpstream (ceRef e),
      r_mutable = rMutable (ceRef e),
      r_digest = ceDigest e, r_size = ceSize e, r_tier = ceTier e, r_upstream = ceUpstream e,
      r_etag = ceETag e,
      r_verified_at = Unix (if IsZero (ceVerifiedAt e) then now else ceVerifiedAt e),
      r_created_at = Unix (if IsZero (ceCreatedAt e) then now else ceCreatedAt e),
      r_pinned = False, r_origin = NormalizeOrigin (ceOrigin e)\<rparr>"

text \<open>
  \<^verbatim>\<open>ON CONFLICT ... DO UPDATE\<close>: the columns \<^verbatim>\<open>created_at\<close> and \<^verbatim>\<open>pinned\<close> keep their old
  values, and a hosted row stays hosted.
\<close>

definition merge_row :: "row \<Rightarrow> row \<Rightarrow> row" where
  "merge_row old new =
     new\<lparr>r_created_at := r_created_at old, r_pinned := r_pinned old,
         r_origin := (if r_origin old = OriginHosted then OriginHosted else r_origin new)\<rparr>"

fun put_row :: "row \<Rightarrow> row list \<Rightarrow> row list" where
  "put_row r [] = [r]"
| "put_row r (x # xs) = (if row_key x = row_key r then merge_row x r # xs else x # put_row r xs)"

definition Put :: "sqlite \<Rightarrow> CacheEntry \<Rightarrow> (string + unit) \<times> sqlite" where
  "Put s e =
     (case db_io s of
        (Some err, s') \<Rightarrow> (Inl err, s')
      | (None, s') \<Rightarrow>
          (Inr (), s'\<lparr>cache_entries := put_row (entry_row (db_now s) e) (cache_entries s)\<rparr>))"

definition del_row :: "pkey \<Rightarrow> row list \<Rightarrow> row list" where
  "del_row k rows = filter (\<lambda>r. row_key r \<noteq> k) rows"

definition Delete :: "sqlite \<Rightarrow> ArtifactRef \<Rightarrow> (string + unit) \<times> sqlite" where
  "Delete s ref =
     (case db_io s of
        (Some err, s') \<Rightarrow> (Inl err, s')
      | (None, s') \<Rightarrow> (Inr (), s'\<lparr>cache_entries := del_row (ref_key ref) (cache_entries s)\<rparr>))"

definition pin_rows :: "pkey \<Rightarrow> bool \<Rightarrow> row list \<Rightarrow> row list" where
  "pin_rows k b rows = map (\<lambda>r. if row_key r = k then r\<lparr>r_pinned := b\<rparr> else r) rows"

definition SetPinned :: "sqlite \<Rightarrow> ArtifactRef \<Rightarrow> bool \<Rightarrow> (string + unit) \<times> sqlite" where
  "SetPinned s ref b =
     (case db_io s of
        (Some err, s') \<Rightarrow> (Inl err, s')
      | (None, s') \<Rightarrow> (Inr (), s'\<lparr>cache_entries := pin_rows (ref_key ref) b (cache_entries s)\<rparr>))"

section \<open>Mutable entries\<close>

definition GetMutable :: "sqlite \<Rightarrow> string \<Rightarrow> (string + MutableEntry option) \<times> sqlite" where
  "GetMutable s key =
     (case db_io s of
        (Some err, s') \<Rightarrow> (Inl err, s')
      | (None, s') \<Rightarrow> (Inr (mutable_entries s key), s'))"

text \<open>The column \<^verbatim>\<open>fetched_at\<close> holds whole seconds.\<close>

definition stored_mutable :: "gotime \<Rightarrow> MutableEntry \<Rightarrow> MutableEntry" where
  "stored_mutable now e =
     e\<lparr>meFetchedAt := timeUnix (Unix (if IsZero (meFetchedAt e) then now else meFetchedAt e))\<rparr>"

definition PutMutable :: "sqlite \<Rightarrow> MutableEntry \<Rightarrow> (string + unit) \<times> sqlite" where
  "PutMutable s e =
     (case db_io s of
        (Some err, s') \<Rightarrow> (Inl err, s')
      | (None, s') \<Rightarrow>
          (Inr (), s'\<lparr>mutable_entries := (mutable_entries s)(meKey e \<mapsto> stored_mutable (db_now s) e)\<rparr>))"

definition DeleteMutable :: "sqlite \<Rightarrow> string \<Rightarrow> (string + unit) \<times> sqlite" where
  "DeleteMutable s key =
     (case db_io s of
        (Some err, s') \<Rightarrow> (Inl err, s')
      | (None, s') \<Rightarrow> (Inr (), s'\<lparr>mutable_entries := (mutable_entries s)(key := None)\<rparr>))"

section \<open>Capacity aggregates\<close>

definition unix_or_zero :: "int \<Rightarrow> gotime" where
  "unix_or_zero n = (if n = 0 then zeroTime else timeUnix n)"

definition size_stat :: "row list \<Rightarrow> SizeStat" where
  "size_stat g =
     \<lparr>ssBytes = sum_list (map r_size g), ssObjects = int (length g),
      ssOldest = unix_or_zero (fold min (map r_created_at (tl g)) (r_created_at (hd g))),
      ssNewest = unix_or_zero (fold max (map r_created_at (tl g)) (r_created_at (hd g))),
      ssObjectsCountable = False\<rparr>"

definition CacheSizeByProtocol :: "sqlite \<Rightarrow> (string + (string \<rightharpoonup> SizeStat)) \<times> sqlite" where
  "CacheSizeByProtocol s =
     (case db_io s of
        (Some err, s') \<Rightarrow> (Inl err, s')
      | (None, s') \<Rightarrow>
          (Inr (\<lambda>p. case filter (\<lambda>r. r_protocol r = p) (cache_entries s) of
                       [] \<Rightarrow> None | g \<Rightarrow> Some (size_stat g)), s'))"

definition origin_group :: "row \<Rightarrow> string" where
  "origin_group r = (if r_origin r = [] then OriginCached else r_origin r)"

text \<open>The loop over the groups writes under the normalized origin; a later group overwrites.\<close>

definition origin_stats :: "row list \<Rightarrow> string \<rightharpoonup> SizeStat" where
  "origin_stats rows =
     map_of (rev (map (\<lambda>g. (NormalizeOrigin g, size_stat (filter (\<lambda>r. origin_group r = g) rows)))
                    (remdups (map origin_group rows))))"

definition CacheSizeByOrigin :: "sqlite \<Rightarrow> (string + (string \<rightharpoonup> SizeStat)) \<times> sqlite" where
  "CacheSizeByOrigin s =
     (case db_io s of
        (Some err, s') \<Rightarrow> (Inl err, s')
      | (None, s') \<Rightarrow> (Inr (origin_stats (cache_entries s)), s'))"

section \<open>Listing\<close>

record EntryFilter =
  fNameContains :: string
  fTier :: "Tier option"
  fUpstream :: string
  fPinned :: "bool option"
  fOrigin :: string
  fDigest :: string

definition no_filter :: EntryFilter where
  "no_filter = \<lparr>fNameContains = [], fTier = None, fUpstream = [], fPinned = None, fOrigin = [], fDigest = []\<rparr>"

definition SortCreatedAt :: string where "SortCreatedAt = ''created_at''"
definition SortSize :: string where "SortSize = ''size''"
definition SortName :: string where "SortName = ''name''"
definition SortVerifiedAt :: string where "SortVerifiedAt = ''verified_at''"

record Page =
  pLimit :: int
  pOffset :: int
  pSort :: string
  pDesc :: bool

definition DefaultLimit :: int where "DefaultLimit = 50"
definition MaxLimit :: int where "MaxLimit = 500"

definition Normalize :: "Page \<Rightarrow> Page" where
  "Normalize p =
     (let p1 = (if pLimit p \<le> 0 then p\<lparr>pLimit := DefaultLimit\<rparr> else p);
          p2 = (if pLimit p1 > MaxLimit then p1\<lparr>pLimit := MaxLimit\<rparr> else p1);
          p3 = (if pOffset p2 < 0 then p2\<lparr>pOffset := 0\<rparr> else p2)
      in if List.member [SortSize, SortName, SortVerifiedAt, SortCreatedAt] (pSort p3) then p3
         else p3\<lparr>pSort := SortCreatedAt\<rparr>)"

text \<open>
  SQL \<^verbatim>\<open>LIKE\<close> with \<^verbatim>\<open>ESCAPE '\'\<close>, as SQLite defines it: \<^verbatim>\<open>%\<close> matches any string,
  \<^verbatim>\<open>_\<close> one character, an escaped character itself, and letters match without regard to
  (ASCII) case. A pattern that ends in a lone escape matches nothing.
\<close>

datatype like_tok = LAny | LOne | LLit char | LBad

fun like_toks :: "string \<Rightarrow> like_tok list" where
  "like_toks [] = []"
| "like_toks (c # cs) =
     (if c = CHR 0x5C then (case cs of [] \<Rightarrow> [LBad] | d # ds \<Rightarrow> LLit d # like_toks ds)
      else (if c = CHR ''%'' then LAny else if c = CHR ''_'' then LOne else LLit c) # like_toks cs)"

fun like_match :: "like_tok list \<Rightarrow> string \<Rightarrow> bool" where
  "like_match [] s = (s = [])"
| "like_match (LAny # ts) s = (like_match ts s \<or> (case s of [] \<Rightarrow> False | _ # s' \<Rightarrow> like_match (LAny # ts) s'))"
| "like_match (LOne # ts) s = (case s of [] \<Rightarrow> False | _ # s' \<Rightarrow> like_match ts s')"
| "like_match (LLit c # ts) s = (case s of [] \<Rightarrow> False | x # s' \<Rightarrow> lower_char c = lower_char x \<and> like_match ts s')"
| "like_match (LBad # ts) s = False"

definition sql_like :: "string \<Rightarrow> string \<Rightarrow> bool" where
  "sql_like s pat = like_match (like_toks pat) s"

definition escapeLike :: "string \<Rightarrow> string" where
  "escapeLike s = concat (map (\<lambda>c. if List.member [CHR 0x5C, CHR ''%'', CHR ''_''] c then [CHR 0x5C, c] else [c]) s)"

definition listWhere :: "string \<Rightarrow> EntryFilter \<Rightarrow> row \<Rightarrow> bool" where
  "listWhere protocol f r \<longleftrightarrow>
     (protocol = [] \<or> r_protocol r = protocol)
     \<and> (fNameContains f = [] \<or> sql_like (r_name r) (''%'' @ escapeLike (fNameContains f) @ ''%''))
     \<and> (case fTier f of None \<Rightarrow> True | Some t \<Rightarrow> r_tier r = t)
     \<and> (fUpstream f = [] \<or> r_upstream r = fUpstream f)
     \<and> (case fPinned f of None \<Rightarrow> True | Some b \<Rightarrow> r_pinned r = b)
     \<and> (fOrigin f = [] \<or> r_origin r = NormalizeOrigin (fOrigin f))
     \<and> (fDigest f = [] \<or> r_digest r = fDigest f)"

definition col_less :: "string \<Rightarrow> row \<Rightarrow> row \<Rightarrow> bool" where
  "col_less fld a b =
     (if fld = SortSize then r_size a < r_size b
      else if fld = SortName then r_name a < r_name b
      else if fld = SortVerifiedAt then r_verified_at a < r_verified_at b
      else r_created_at a < r_created_at b)"

definition orderClause :: "Page \<Rightarrow> row \<Rightarrow> row \<Rightarrow> bool" where
  "orderClause p a b =
     (let x = (if pDesc p then b else a); y = (if pDesc p then a else b)
      in col_less (pSort p) x y \<or> (\<not> col_less (pSort p) y x \<and> row_key a \<le> row_key b))"

record Entry =
  enEntry :: CacheEntry
  enID :: string
  enPinned :: bool

record EntryPage =
  epEntries :: "Entry list"
  epTotal :: int
  epLimit :: int
  epOffset :: int

definition row_Entry :: "row \<Rightarrow> Entry" where
  "row_Entry r =
     (let e = (row_CacheEntry r)\<lparr>ceVerifiedAt := unix_or_zero (r_verified_at r),
                                 ceCreatedAt := unix_or_zero (r_created_at r)\<rparr>
      in \<lparr>enEntry = e, enID = EncodeEntryID (ceRef e), enPinned = r_pinned r\<rparr>)"

definition list_rows :: "row list \<Rightarrow> string \<Rightarrow> EntryFilter \<Rightarrow> Page \<Rightarrow> row list" where
  "list_rows rows protocol f page =
     take (nat (pLimit page)) (drop (nat (pOffset page))
       (isort (orderClause page) (filter (listWhere protocol f) rows)))"

definition ListEntries ::
  "sqlite \<Rightarrow> string \<Rightarrow> EntryFilter \<Rightarrow> Page \<Rightarrow> (string + EntryPage) \<times> sqlite" where
  "ListEntries s protocol f page0 =
     (let page = Normalize page0 in
      case db_io s of
        (Some err, s1) \<Rightarrow> (Inl err, s1)
      | (None, s1) \<Rightarrow>
          (case db_io s1 of
             (Some err, s2) \<Rightarrow> (Inl err, s2)
           | (None, s2) \<Rightarrow>
               (Inr \<lparr>epEntries = map row_Entry (list_rows (cache_entries s) protocol f page),
                     epTotal = int (length (filter (listWhere protocol f) (cache_entries s))),
                     epLimit = pLimit page, epOffset = pOffset page\<rparr>, s2)))"

lemmas [store_simps] = Get_def Put_def Delete_def SetPinned_def GetMutable_def PutMutable_def
  DeleteMutable_def CacheSizeByProtocol_def CacheSizeByOrigin_def ListEntries_def db_io_def

section \<open>The contract of a keyed metadata store\<close>

text \<open>
  What clients of \<^verbatim>\<open>MetadataStore\<close> rely on: rows are found under their key, an upsert
  merges with the row already there, a delete removes exactly one key.
\<close>

locale metadata_store =
  fixes key :: "'r \<Rightarrow> 'k"
    and lookup :: "'s \<Rightarrow> 'k \<Rightarrow> 'r option"
    and put :: "'r \<Rightarrow> 's \<Rightarrow> 's"
    and delete :: "'k \<Rightarrow> 's \<Rightarrow> 's"
    and merge :: "'r \<Rightarrow> 'r \<Rightarrow> 'r"
    and invar :: "'s \<Rightarrow> bool"
  assumes lookup_put: "invar s \<Longrightarrow> lookup (put r s) =
      (lookup s)(key r \<mapsto> (case lookup s (key r) of None \<Rightarrow> r | Some old \<Rightarrow> merge old r))"
    and lookup_delete: "invar s \<Longrightarrow> lookup (delete k s) = (lookup s)(k := None)"
    and lookup_key: "invar s \<Longrightarrow> lookup s k = Some r \<Longrightarrow> key r = k"
    and invar_put: "invar s \<Longrightarrow> invar (put r s)"
    and invar_delete: "invar s \<Longrightarrow> invar (delete k s)"
begin

lemma put_then_lookup:
  "invar s \<Longrightarrow> lookup s (key r) = None \<Longrightarrow> lookup (put r s) (key r) = Some r"
  by (simp add: lookup_put)

lemma put_other_key:
  "invar s \<Longrightarrow> key r \<noteq> k \<Longrightarrow> lookup (put r s) k = lookup s k"
  by (simp add: lookup_put)

lemma delete_then_lookup: "invar s \<Longrightarrow> lookup (delete k s) k = None"
  by (simp add: lookup_delete)

lemma invar_fold_put: "invar s \<Longrightarrow> invar (fold put rs s)"
  by (induction rs arbitrary: s) (auto intro: invar_put)

text \<open>A property that merging keeps survives every later sequence of upserts.\<close>

lemma sticky:
  assumes "\<And>old new. P old \<Longrightarrow> P (merge old new)"
    and "invar s" and "lookup s k = Some r" and "P r"
  shows "\<exists>r'. lookup (fold put rs s) k = Some r' \<and> P r'"
  using assms(2-)
proof (induction rs arbitrary: s r)
  case (Cons x xs)
  show ?case
  proof (cases "key x = k")
    case True
    with Cons.prems have "lookup (put x s) k = Some (merge r x)" by (simp add: lookup_put)
    then show ?thesis using Cons.IH [of "put x s"] Cons.prems assms(1) by (auto intro: invar_put)
  next
    case False
    with Cons.prems have "lookup (put x s) k = Some r" by (simp add: put_other_key)
    then show ?thesis using Cons.IH [of "put x s"] Cons.prems by (auto intro: invar_put)
  qed
qed simp

end

section \<open>The SQLite driver keeps the contract\<close>

definition rows_inv :: "row list \<Rightarrow> bool" where
  "rows_inv rows \<longleftrightarrow> distinct (map row_key rows)
     \<and> (\<forall>r \<in> set rows. r_origin r = OriginCached \<or> r_origin r = OriginHosted)"

abbreviation db_inv :: "sqlite \<Rightarrow> bool" where
  "db_inv s \<equiv> rows_inv (cache_entries s)"

lemma row_key_merge_row [simp]: "row_key (merge_row old new) = row_key new"
  by (simp add: row_key_def merge_row_def)

lemma find_row_Some: "find_row rows k = Some r \<Longrightarrow> r \<in> set rows \<and> row_key r = k"
  by (auto simp: find_row_def dest: find_SomeD)

lemma find_row_None: "find_row rows k = None \<longleftrightarrow> k \<notin> row_key ` set rows"
  by (auto simp: find_row_def find_None_iff_all)

lemma find_row_member:
  "distinct (map row_key rows) \<Longrightarrow> r \<in> set rows \<Longrightarrow> find_row rows (row_key r) = Some r"
  by (induction rows) (auto simp: find_row_def)

lemma find_row_put_row:
  "find_row (put_row r rows) k =
     (if k = row_key r then Some (case find_row rows k of None \<Rightarrow> r | Some old \<Rightarrow> merge_row old r)
      else find_row rows k)"
  by (induction rows) (auto simp: find_row_def)

lemma find_row_del_row: "find_row (del_row k rows) k' = (if k' = k then None else find_row rows k')"
  by (induction rows) (auto simp: find_row_def del_row_def)

lemma row_key_put_row: "row_key ` set (put_row r rows) = insert (row_key r) (row_key ` set rows)"
  by (induction rows) auto

lemma distinct_put_row: "distinct (map row_key rows) \<Longrightarrow> distinct (map row_key (put_row r rows))"
proof (induction rows)
  case (Cons x xs)
  have "row_key x \<notin> row_key ` set (put_row r xs)" if "row_key x \<noteq> row_key r"
    using that Cons.prems by (simp add: row_key_put_row)
  with Cons show ?case by auto
qed simp

lemma set_put_row:
  "x \<in> set (put_row r rows) \<Longrightarrow> x \<in> set rows \<or> x = r \<or> (\<exists>old \<in> set rows. x = merge_row old r)"
  by (induction rows) (auto split: if_splits)

lemma rows_inv_put_row:
  assumes "rows_inv rows" and "r_origin r = OriginCached \<or> r_origin r = OriginHosted"
  shows "rows_inv (put_row r rows)"
  using assms set_put_row [of _ r rows] distinct_put_row [of rows r]
  by (fastforce simp: rows_inv_def merge_row_def)

lemma rows_inv_filter: "rows_inv rows \<Longrightarrow> rows_inv (filter P rows)"
  by (auto simp: rows_inv_def distinct_map_filter)

lemma rows_inv_del_row: "rows_inv rows \<Longrightarrow> rows_inv (del_row k rows)"
  by (simp add: del_row_def rows_inv_filter)

lemma row_key_pin [simp]: "row_key (r\<lparr>r_pinned := b\<rparr>) = row_key r"
  by (simp add: row_key_def)

lemma map_row_key_pin_rows [simp]: "map row_key (pin_rows k b rows) = map row_key rows"
  by (simp add: pin_rows_def)

lemma rows_inv_pin_rows: "rows_inv rows \<Longrightarrow> rows_inv (pin_rows k b rows)"
  unfolding rows_inv_def map_row_key_pin_rows by (auto simp: pin_rows_def)

lemma entry_row_origin:
  "r_origin (entry_row now e) = OriginCached \<or> r_origin (entry_row now e) = OriginHosted"
  using NormalizeOrigin_cases [of "ceOrigin e"] by (auto simp: entry_row_def)

interpretation sq: metadata_store row_key find_row put_row del_row merge_row
  "\<lambda>rows. distinct (map row_key rows)"
proof unfold_locales
  fix s k r assume "distinct (map row_key s)"
  show "find_row (put_row r s) = (find_row s)(row_key r \<mapsto>
      (case find_row s (row_key r) of None \<Rightarrow> r | Some old \<Rightarrow> merge_row old r))"
    by (auto simp: fun_eq_iff find_row_put_row)
  show "find_row (del_row k s) = (find_row s)(k := None)"
    by (auto simp: fun_eq_iff find_row_del_row)
  show "distinct (map row_key (put_row r s))" by (rule distinct_put_row) fact
  show "distinct (map row_key (del_row k s))"
    unfolding del_row_def by (rule distinct_map_filter) fact
qed (auto dest: find_row_Some)

text \<open>Every operation keeps the table invariant, whether or not it fails.\<close>

lemma db_io_simps [simp]:
  "cache_entries (snd (db_io s)) = cache_entries s"
  "mutable_entries (snd (db_io s)) = mutable_entries s"
  "db_now (snd (db_io s)) = db_now s"
  "db_fault (snd (db_io s)) = db_fault s"
  by (simp_all add: db_io_def)

lemma Get_state [simp]:
  "cache_entries (snd (Get s ref)) = cache_entries s"
  "mutable_entries (snd (Get s ref)) = mutable_entries s"
  "db_now (snd (Get s ref)) = db_now s"
  "db_fault (snd (Get s ref)) = db_fault s"
  by (simp_all add: store_simps split: option.splits)

lemma GetMutable_state [simp]:
  "cache_entries (snd (GetMutable s k)) = cache_entries s"
  "mutable_entries (snd (GetMutable s k)) = mutable_entries s"
  "db_now (snd (GetMutable s k)) = db_now s"
  "db_fault (snd (GetMutable s k)) = db_fault s"
  by (simp_all add: store_simps split: option.splits)

lemma ListEntries_state [simp]:
  "cache_entries (snd (ListEntries s p f pg)) = cache_entries s"
  "mutable_entries (snd (ListEntries s p f pg)) = mutable_entries s"
  "db_now (snd (ListEntries s p f pg)) = db_now s"
  "db_fault (snd (ListEntries s p f pg)) = db_fault s"
  by (simp_all add: store_simps Let_def split: option.splits)

lemma CacheSizeByOrigin_state [simp]:
  "cache_entries (snd (CacheSizeByOrigin s)) = cache_entries s"
  "mutable_entries (snd (CacheSizeByOrigin s)) = mutable_entries s"
  "db_now (snd (CacheSizeByOrigin s)) = db_now s"
  "db_fault (snd (CacheSizeByOrigin s)) = db_fault s"
  by (simp_all add: store_simps split: option.splits)

lemma Put_frame [simp]:
  "mutable_entries (snd (Put s e)) = mutable_entries s"
  "db_now (snd (Put s e)) = db_now s"
  "db_fault (snd (Put s e)) = db_fault s"
  by (simp_all add: store_simps split: option.splits)

lemma PutMutable_frame [simp]:
  "cache_entries (snd (PutMutable s e)) = cache_entries s"
  "db_now (snd (PutMutable s e)) = db_now s"
  "db_fault (snd (PutMutable s e)) = db_fault s"
  by (simp_all add: store_simps split: option.splits)

lemma Delete_frame [simp]:
  "mutable_entries (snd (Delete s ref)) = mutable_entries s"
  "db_now (snd (Delete s ref)) = db_now s"
  "db_fault (snd (Delete s ref)) = db_fault s"
  by (simp_all add: store_simps split: option.splits)

lemma db_inv_Put: "db_inv s \<Longrightarrow> db_inv (snd (Put s e))"
  by (simp add: store_simps rows_inv_put_row entry_row_origin split: option.splits)

lemma db_inv_Delete: "db_inv s \<Longrightarrow> db_inv (snd (Delete s ref))"
  by (simp add: store_simps rows_inv_del_row split: option.splits)

lemma db_inv_SetPinned: "db_inv s \<Longrightarrow> db_inv (snd (SetPinned s ref b))"
  by (simp add: store_simps rows_inv_pin_rows split: option.splits)

section \<open>Listing is correct\<close>

lemma like_toks_escapeLike: "like_toks (escapeLike s @ rest) = map LLit s @ like_toks rest"
  by (induction s) (auto simp: escapeLike_def)

lemma like_match_LAny: "like_match (LAny # ts) s \<longleftrightarrow> (\<exists>a b. s = a @ b \<and> like_match ts b)"
proof (induction s)
  case (Cons x xs)
  have "like_match (LAny # ts) (x # xs) \<longleftrightarrow>
      like_match ts (x # xs) \<or> (\<exists>a b. xs = a @ b \<and> like_match ts b)"
    using Cons by simp
  also have "\<dots> \<longleftrightarrow> (\<exists>a b. x # xs = a @ b \<and> like_match ts b)"
    by (metis append_Cons append_Nil append_eq_Cons_conv)
  finally show ?case .
qed simp

lemma like_match_lits:
  "like_match (map LLit p @ ts) s \<longleftrightarrow>
     (\<exists>a b. s = a @ b \<and> ToLower a = ToLower p \<and> like_match ts b)"
proof (induction p arbitrary: s)
  case (Cons c p)
  show ?case
  proof (cases s)
    case (Cons x s')
    have "like_match (map LLit (c # p) @ ts) s \<longleftrightarrow>
        lower_char c = lower_char x \<and> (\<exists>a b. s' = a @ b \<and> ToLower a = ToLower p \<and> like_match ts b)"
      using Cons.IH Cons by simp
    also have "\<dots> \<longleftrightarrow> (\<exists>a b. s = a @ b \<and> ToLower a = ToLower (c # p) \<and> like_match ts b)"
    proof
      assume "lower_char c = lower_char x \<and> (\<exists>a b. s' = a @ b \<and> ToLower a = ToLower p \<and> like_match ts b)"
      then obtain a b where "s = (x # a) @ b" "ToLower (x # a) = ToLower (c # p)" "like_match ts b"
        unfolding Cons by (auto simp: ToLower_def)
      then show "\<exists>a b. s = a @ b \<and> ToLower a = ToLower (c # p) \<and> like_match ts b" by blast
    qed (auto simp: Cons ToLower_def Cons_eq_append_conv map_eq_Cons_conv)
    finally show ?thesis .
  qed (auto simp: ToLower_def)
qed (simp add: ToLower_def)

lemma ToLower_eq_append:
  "ToLower s = a @ p @ b \<longleftrightarrow> (\<exists>x y z. s = x @ y @ z \<and> ToLower x = a \<and> ToLower y = p \<and> ToLower z = b)"
  by (auto simp: ToLower_def map_eq_append_conv append_eq_map_conv)

text \<open>
  The escaped substring filter matches exactly the names that contain the substring up to
  letter case: no character of the search text acts as a wildcard.
\<close>

text \<open>The substring filter of the listing has no wildcards: an escaped search text matches exactly the
  names that contain it, up to ASCII letter case.\<close>

theorem sql_like_escapeLike:
  "sql_like name (''%'' @ escapeLike sub @ ''%'') \<longleftrightarrow> Contains (ToLower name) (ToLower sub)"
proof -
  have "like_toks (''%'' @ escapeLike sub @ ''%'') = LAny # map LLit sub @ [LAny]"
    using like_toks_escapeLike [of sub "''%''"] by simp
  moreover have "like_match [LAny] b" for b
    unfolding like_match_LAny by (metis append_Nil2 like_match.simps(1))
  ultimately have "sql_like name (''%'' @ escapeLike sub @ ''%'') \<longleftrightarrow>
      (\<exists>a y z. name = a @ y @ z \<and> ToLower y = ToLower sub)"
    by (simp only: sql_like_def like_match_LAny like_match_lits) auto
  also have "\<dots> \<longleftrightarrow> Contains (ToLower name) (ToLower sub)"
    unfolding Contains_iff ToLower_eq_append by auto
  finally show ?thesis .
qed

lemma orderClause_total: "orderClause p a b \<or> orderClause p b a"
  by (auto simp: orderClause_def Let_def)

lemma col_less_trans: "col_less f a b \<Longrightarrow> col_less f b c \<Longrightarrow> col_less f a c"
  by (auto simp: col_less_def split: if_splits)

lemma col_less_not_trans: "\<not> col_less f a b \<Longrightarrow> \<not> col_less f b c \<Longrightarrow> \<not> col_less f a c"
  by (auto simp: col_less_def split: if_splits)

lemma orderClause_trans: "orderClause p a b \<Longrightarrow> orderClause p b c \<Longrightarrow> orderClause p a c"
  unfolding orderClause_def Let_def
  by (cases "pDesc p") (auto dest: col_less_trans col_less_not_trans order_trans)

lemma sorted_list_rows: "sorted_wrt (orderClause page) (list_rows rows protocol f page)"
  unfolding list_rows_def
  by (intro sorted_wrt_take sorted_wrt_drop sorted_isort orderClause_total)
    (rule orderClause_trans)

lemma Normalize_bounds:
  "1 \<le> pLimit (Normalize p) \<and> pLimit (Normalize p) \<le> MaxLimit \<and> 0 \<le> pOffset (Normalize p)"
  by (simp add: Normalize_def Let_def DefaultLimit_def MaxLimit_def)

lemma Normalize_sort:
  "pSort (Normalize p) \<in> {SortSize, SortName, SortVerifiedAt, SortCreatedAt}"
  by (simp add: Normalize_def Let_def)

lemma set_list_rows: "r \<in> set (list_rows rows protocol f page) \<Longrightarrow> r \<in> set rows \<and> listWhere protocol f r"
  unfolding list_rows_def by (auto dest!: in_set_takeD in_set_dropD)

lemma list_rows_prefix:
  "pOffset page = 0 \<Longrightarrow> list_rows rows protocol f page =
     take (nat (pLimit page)) (isort (orderClause page) (filter (listWhere protocol f) rows))"
  by (simp add: list_rows_def)

lemma list_rows_length: "length (list_rows rows protocol f (Normalize p)) \<le> nat MaxLimit"
  using Normalize_bounds [of p] by (auto simp: list_rows_def MaxLimit_def min_le_iff_disj)

section \<open>The pull-through byte count\<close>

definition cached_bytes :: "row list \<Rightarrow> int" where
  "cached_bytes rows = sum_list (map r_size (filter (\<lambda>r. r_origin r = OriginCached) rows))"

lemma map_of_groups:
  assumes "g \<in> set gs" and "\<And>x. x \<in> set gs \<Longrightarrow> h x = h g \<Longrightarrow> x = g"
  shows "map_of (rev (map (\<lambda>g. (h g, F g)) gs)) (h g) = Some (F g)"
proof -
  have "(h g, F g) \<in> set (rev (map (\<lambda>g. (h g, F g)) gs))" using assms(1) by auto
  then obtain v where v: "map_of (rev (map (\<lambda>g. (h g, F g)) gs)) (h g) = Some v"
    by (metis option.exhaust weak_map_of_SomeI)
  then have "(h g, v) \<in> set (rev (map (\<lambda>g. (h g, F g)) gs))" by (rule map_of_SomeD)
  then obtain x where "x \<in> set gs" "h x = h g" "v = F x" by auto
  with assms(2) v show ?thesis by blast
qed

lemma origin_group_inv: "rows_inv rows \<Longrightarrow> r \<in> set rows \<Longrightarrow> origin_group r = r_origin r"
  by (auto simp: rows_inv_def origin_group_def)

text \<open>Under the table invariant the aggregate of the cached origin is the exact sum.\<close>

lemma origin_stats_cached:
  assumes inv: "rows_inv rows"
  shows "(case origin_stats rows OriginCached of None \<Rightarrow> 0 | Some st \<Rightarrow> ssBytes st) = cached_bytes rows"
proof -
  let ?gs = "remdups (map origin_group rows)"
  let ?F = "\<lambda>g. size_stat (filter (\<lambda>r. origin_group r = g) rows)"
  have gs: "x = OriginCached \<or> x = OriginHosted" if "x \<in> set ?gs" for x
    using that inv origin_group_inv [OF inv] by (auto simp: rows_inv_def)
  have flt: "filter (\<lambda>r. origin_group r = OriginCached) rows = filter (\<lambda>r. r_origin r = OriginCached) rows"
    by (rule filter_cong) (simp_all add: origin_group_inv [OF inv])
  show ?thesis
  proof (cases "OriginCached \<in> set ?gs")
    case True
    have "map_of (rev (map (\<lambda>g. (NormalizeOrigin g, ?F g)) ?gs)) (NormalizeOrigin OriginCached)
        = Some (?F OriginCached)"
    proof (rule map_of_groups [OF True])
      fix x assume "x \<in> set ?gs" and eq: "NormalizeOrigin x = NormalizeOrigin OriginCached"
      then consider "x = OriginCached" | "x = OriginHosted" using gs by blast
      then show "x = OriginCached" using eq by cases simp_all
    qed
    then show ?thesis by (simp add: origin_stats_def size_stat_def cached_bytes_def flt)
  next
    case False
    have "OriginCached \<noteq> NormalizeOrigin x" if "x \<in> set ?gs" for x
      using gs [OF that] that False by (auto simp del: set_remdups)
    then have "map_of (rev (map (\<lambda>g. (NormalizeOrigin g, ?F g)) ?gs)) OriginCached = None"
      unfolding map_of_eq_None_iff by force
    moreover have "filter (\<lambda>r. r_origin r = OriginCached) rows = []"
      unfolding flt [symmetric] using False by (force simp: filter_empty_conv)
    ultimately show ?thesis by (simp add: origin_stats_def cached_bytes_def)
  qed
qed

section \<open>Properties\<close>

text \<open>Every operation of the metadata store keeps its table invariant (one row per key, known origins)
  whether or not the database fails.\<close>

theorem db_operations_keep_invariant:
  assumes "db_inv s"
  shows "db_inv (snd (Put s e)) \<and> db_inv (snd (Delete s ref)) \<and> db_inv (snd (SetPinned s ref b))
    \<and> db_inv (snd (PutMutable s me)) \<and> db_inv (snd (Get s ref)) \<and> db_inv (snd (ListEntries s p f pg))"
  using assms by (simp add: db_inv_Put db_inv_Delete db_inv_SetPinned)

text \<open>A pinned row stays pinned and a hosted row stays hosted under every later sequence of upserts, so
  neither becomes a candidate for eviction.\<close>

theorem upserts_keep_pins_and_hosting:
  assumes "distinct (map row_key rows)" and "find_row rows k = Some r"
  shows "\<exists>r'. find_row (fold put_row rs rows) k = Some r' \<and> (r_pinned r' \<or> \<not> r_pinned r)
    \<and> (r_origin r' = OriginHosted \<or> r_origin r \<noteq> OriginHosted)"
  by (rule sq.sticky [OF _ assms]) (auto simp: merge_row_def)

text \<open>a listing answers with at most 500 rows of the table that satisfy the filter, in the requested
  order, and with the exact number of matching rows as its total.\<close>

theorem ListEntries_sound:
  assumes "ListEntries s protocol f pg = (Inr page, s')"
  shows "\<exists>rs. epEntries page = map row_Entry rs \<and> length rs \<le> 500
    \<and> sorted_wrt (orderClause (Normalize pg)) rs \<and> set rs \<subseteq> {r \<in> set (cache_entries s). listWhere protocol f r}
    \<and> epTotal page = int (length (filter (listWhere protocol f) (cache_entries s)))"
proof -
  let ?rs = "list_rows (cache_entries s) protocol f (Normalize pg)"
  have "epEntries page = map row_Entry ?rs"
    and "epTotal page = int (length (filter (listWhere protocol f) (cache_entries s)))"
    using assms by (auto simp: ListEntries_def db_io_def Let_def split: option.splits)
  moreover have "length ?rs \<le> 500" using list_rows_length [of "cache_entries s" protocol f pg] by (simp add: MaxLimit_def)
  ultimately show ?thesis using sorted_list_rows set_list_rows by (intro exI [of _ ?rs]) blast
qed

text \<open>Paging loses and repeats nothing: the pages of one size, put end to end, are the sorted matching
  rows from the first on.\<close>

theorem paging_covers:
  fixes L :: nat
  shows "concat (map (\<lambda>i. list_rows rows protocol f \<lparr>pLimit = int L, pOffset = int (i * L), pSort = srt, pDesc = d\<rparr>) [0..<n])
    = take (n * L) (isort (orderClause \<lparr>pLimit = 0, pOffset = 0, pSort = srt, pDesc = d\<rparr>) (filter (listWhere protocol f) rows))"
proof (induction n)
  case (Suc n)
  have o: "orderClause \<lparr>pLimit = int L, pOffset = int (n * L), pSort = srt, pDesc = d\<rparr>
      = orderClause \<lparr>pLimit = 0, pOffset = 0, pSort = srt, pDesc = d\<rparr>"
    by (simp add: fun_eq_iff orderClause_def)
  have "list_rows rows protocol f \<lparr>pLimit = int L, pOffset = int (n * L), pSort = srt, pDesc = d\<rparr>
     = take L (drop (n * L) (isort (orderClause \<lparr>pLimit = 0, pOffset = 0, pSort = srt, pDesc = d\<rparr>) (filter (listWhere protocol f) rows)))"
    unfolding list_rows_def o by (simp add: nat_mult_distrib)
  with Suc show ?case by (simp add: take_add [symmetric] add.commute)
qed simp

definition meta_demo_row :: "string \<Rightarrow> row" where
  "meta_demo_row n = \<lparr>r_protocol = ''npm'', r_name = n, r_version = ''1'', r_ref_digest = [], r_ref_upstream = [],
     r_mutable = False, r_digest = ''sha256:aa'', r_size = 3, r_tier = TierTofu, r_upstream = [], r_etag = [],
     r_verified_at = 7, r_created_at = 7, r_pinned = True, r_origin = OriginHosted\<rparr>"

definition meta_demo :: sqlite where
  "meta_demo = \<lparr>cache_entries = [meta_demo_row ''x''], mutable_entries = (\<lambda>_. None), db_now = 0, db_tick = 0, db_fault = no_faults\<rparr>"

lemma meta_demo_inv: "db_inv meta_demo"
  by (simp add: meta_demo_def rows_inv_def meta_demo_row_def)

theorem db_operations_keep_invariant_witness: "db_inv (snd (Delete meta_demo (key_ref entry_id_demo)))"
  using db_operations_keep_invariant [OF meta_demo_inv] by blast

theorem upserts_keep_pins_and_hosting_witness:
  "\<exists>r'. find_row (fold put_row [(meta_demo_row ''x'')\<lparr>r_pinned := False, r_origin := OriginCached\<rparr>] [meta_demo_row ''x''])
      (row_key (meta_demo_row ''x'')) = Some r' \<and> r_pinned r' \<and> r_origin r' = OriginHosted"
  using upserts_keep_pins_and_hosting [of "[meta_demo_row ''x'']" "row_key (meta_demo_row ''x'')" "meta_demo_row ''x''"
      "[(meta_demo_row ''x'')\<lparr>r_pinned := False, r_origin := OriginCached\<rparr>]"]
  by (auto simp: meta_demo_row_def find_row_def)

theorem ListEntries_sound_witness:
  "\<exists>page s'. ListEntries meta_demo [] no_filter \<lparr>pLimit = 9000, pOffset = 0, pSort = [], pDesc = True\<rparr> = (Inr page, s')
     \<and> epTotal page = 1"
proof -
  obtain page s' where l: "ListEntries meta_demo [] no_filter \<lparr>pLimit = 9000, pOffset = 0, pSort = [], pDesc = True\<rparr> = (Inr page, s')"
    by (simp add: ListEntries_def db_io_def meta_demo_def Let_def)
  from ListEntries_sound [OF l] have "epTotal page = 1" by (auto simp: meta_demo_def listWhere_def no_filter_def)
  with l show ?thesis by blast
qed

end
