(* ===== verification/Verify.thy ===== *)
theory Verify
  imports MetaStore
begin

text \<open>
  The streaming verification chain (\<^verbatim>\<open>internal/verify/verify.go\<close>) and three of its
  verifiers: transport checksum, trust-on-first-use pinning with its adapter onto the
  metadata store (\<^verbatim>\<open>cmd/specula/main.go\<close>), and the maturity policy gate. A verifier is a
  name, the tier it can attest, and a function from a state, a reference and an artifact to
  a result, an optional Go error and the next state. The chain also yields the metric
  series it emits, in order.
\<close>

section \<open>The chain\<close>

record 'w verifier =
  vName :: string
  vTier :: Tier
  vVerify :: "'w \<Rightarrow> ArtifactRef \<Rightarrow> Artifact \<Rightarrow> (Result \<times> string option) \<times> 'w"

datatype metric = Metric (mProtocol: string) (mCheck: string) (mTier: Tier) (mStatus: Status)

definition CheckChain :: string where "CheckChain = ''chain''"

definition chain_error_result :: "'w verifier \<Rightarrow> string \<Rightarrow> Result" where
  "chain_error_result v err =
     mk_result StatusFail (vTier v) (''chain: verifier '' @ quote (vName v) @ '' error: '' @ err)"

fun chain_loop ::
  "'w verifier list \<Rightarrow> ArtifactRef \<Rightarrow> Artifact \<Rightarrow> 'w \<Rightarrow> Tier \<Rightarrow> bool \<Rightarrow> string list \<Rightarrow> metric list
   \<Rightarrow> (Result \<times> string option) \<times> 'w \<times> metric list" where
  "chain_loop [] ref art w highest warn msgs ms =
     (let status = (if warn then StatusWarn else StatusPass)
      in ((mk_result status highest (Join msgs ''; ''), None), w,
          ms @ [Metric (rProtocol ref) CheckChain highest status]))"
| "chain_loop (v # vs) ref art w highest warn msgs ms =
     (case vVerify v w ref art of
        ((res, Some err), w') \<Rightarrow>
          ((chain_error_result v err, Some (''chain: verifier '' @ quote (vName v) @ '': '' @ err)), w',
           ms @ [Metric (rProtocol ref) (vName v) (vTier v) StatusFail,
                 Metric (rProtocol ref) CheckChain (vTier v) StatusFail])
      | ((res, None), w') \<Rightarrow>
          if resStatus res = StatusFail then
            ((mk_result StatusFail (vTier v) (resMessage res), None), w',
             ms @ [Metric (rProtocol ref) (vName v) (vTier v) StatusFail,
                   Metric (rProtocol ref) CheckChain (vTier v) StatusFail])
          else if resStatus res = StatusSkip then
            chain_loop vs ref art w' highest warn msgs ms
          else
            chain_loop vs ref art w'
              (if highest < resTier res then resTier res else highest)
              (warn \<or> resStatus res = StatusWarn)
              (msgs @ [''['' @ vName v @ ''] '' @ resMessage res])
              (ms @ [Metric (rProtocol ref) (vName v) (resTier res) (resStatus res)]))"

definition chain_Verify ::
  "'w verifier list \<Rightarrow> 'w \<Rightarrow> ArtifactRef \<Rightarrow> Artifact \<Rightarrow> (Result \<times> string option) \<times> 'w \<times> metric list" where
  "chain_Verify vs w ref art =
     (if vs = [] then ((mk_result StatusPass TierChecksum ''chain: no verifiers registered'', None), w, [])
      else chain_loop vs ref art w TierChecksum False [] [])"

section \<open>Checksum\<close>

definition checksum_Verify :: "'w \<Rightarrow> ArtifactRef \<Rightarrow> Artifact \<Rightarrow> (Result \<times> string option) \<times> 'w" where
  "checksum_Verify w ref art =
     ((if aDigest art = [] then
         mk_result StatusFail TierChecksum ''checksum: artifact digest is empty (streaming digest not computed)''
       else if rDigest ref = [] then
         mk_result StatusSkip TierChecksum
           (''checksum: transport digest '' @ aDigest art @ '' (no reference to compare)'')
       else if aDigest art \<noteq> rDigest ref then
         mk_result StatusFail TierChecksum
           (''checksum: digest mismatch: got '' @ aDigest art @ '', expected '' @ rDigest ref)
       else mk_result StatusPass TierChecksum (''checksum: digest verified '' @ aDigest art),
       None), w)"

definition ChecksumVerifier :: "'w verifier" where
  "ChecksumVerifier = \<lparr>vName = ''checksum'', vTier = TierChecksum, vVerify = checksum_Verify\<rparr>"

section \<open>Trust on first use\<close>

definition tofuKey :: "ArtifactRef \<Rightarrow> string" where
  "tofuKey ref = rProtocol ref @ '':'' @ rName ref @ ''@'' @ rVersion ref"

text \<open>The adapter of \<^verbatim>\<open>main.go\<close>: pins are mutable entries that are never revalidated.\<close>

definition pin_key :: "string \<Rightarrow> string" where
  "pin_key key = ''tofu:'' @ key"

definition GetPin :: "sqlite \<Rightarrow> string \<Rightarrow> (string + string) \<times> sqlite" where
  "GetPin s key =
     (case GetMutable s (pin_key key) of
        (Inl err, s') \<Rightarrow> (Inl err, s')
      | (Inr None, s') \<Rightarrow> (Inr [], s')
      | (Inr (Some e), s') \<Rightarrow> (Inr (meDigest e), s'))"

definition pin_entry :: "gotime \<Rightarrow> string \<Rightarrow> string \<Rightarrow> MutableEntry" where
  "pin_entry now key digest =
     \<lparr>meKey = pin_key key, meProtocol = ''tofu'', meDigest = digest, mePayload = [], meETag = [],
      meLastModified = [], meTTLSeconds = -1, meUpstream = [], meFetchedAt = now\<rparr>"

definition SetPin :: "sqlite \<Rightarrow> string \<Rightarrow> string \<Rightarrow> (string + unit) \<times> sqlite" where
  "SetPin s key digest = PutMutable s (pin_entry (db_now s) key digest)"

text \<open>The arrow and dash of the messages are written in ASCII.\<close>

definition tofu_Verify :: "sqlite \<Rightarrow> ArtifactRef \<Rightarrow> Artifact \<Rightarrow> (Result \<times> string option) \<times> sqlite" where
  "tofu_Verify w ref art =
     (if rMutable ref then ((mk_result StatusSkip TierTofu ''tofu: skipped for mutable ref'', None), w)
      else
        let key = tofuKey ref in
        case GetPin w key of
          (Inl err, w1) \<Rightarrow>
            ((mk_result StatusFail TierTofu (''tofu: store read error for '' @ quote key @ '': '' @ err),
              Some (''tofu: store.GetPin('' @ quote key @ ''): '' @ err)), w1)
        | (Inr pinned, w1) \<Rightarrow>
            if pinned = [] then
              (case SetPin w1 key (aDigest art) of
                 (Inl err, w2) \<Rightarrow>
                   ((mk_result StatusFail TierTofu
                       (''tofu: failed to pin digest for '' @ quote key @ '': '' @ err),
                     Some (''tofu: store.SetPin('' @ quote key @ '', '' @ quote (aDigest art) @ ''): '' @ err)), w2)
               | (Inr _, w2) \<Rightarrow>
                   ((mk_result StatusWarn TierTofu
                       (''tofu: first-lock pinned '' @ key @ '' -> '' @ aDigest art), None), w2))
            else if pinned \<noteq> aDigest art then
              ((mk_result StatusFail TierTofu
                  (''tofu: DIGEST CHANGED for '' @ key @ '' - was '' @ pinned @ '', now '' @ aDigest art
                   @ '' - possible tampering, force-push, or version rewrite''), None), w1)
            else
              ((mk_result StatusPass TierTofu
                  (''tofu: digest confirmed '' @ key @ '' -> '' @ aDigest art), None), w1))"

definition TofuVerifier :: "sqlite verifier" where
  "TofuVerifier = \<lparr>vName = ''tofu'', vTier = TierTofu, vVerify = tofu_Verify\<rparr>"

text \<open>The two verifiers every chain starts with, followed by the configured ones.\<close>

definition main_chain :: "sqlite verifier list \<Rightarrow> sqlite verifier list" where
  "main_chain configured = [ChecksumVerifier, TofuVerifier] @ configured"

section \<open>Maturity gate\<close>

text \<open>
  The clock, the parser of HTTP dates and the formatting of durations and times are
  parameters of the gate.
\<close>

record MaturitySpec =
  msMinAge :: int
  msPolicy :: string

definition MaturityWarn :: string where "MaturityWarn = ''warn''"
definition MaturityEnforce :: string where "MaturityEnforce = ''enforce''"

record maturity_env =
  mvSpecs :: "string \<rightharpoonup> MaturitySpec"
  mvNow :: gotime
  mvParseTime :: "string \<Rightarrow> gotime option"
  mvFmtDur :: "int \<Rightarrow> string"
  mvFmtTime :: "gotime \<Rightarrow> string"

definition resolvePublishTime :: "maturity_env \<Rightarrow> Artifact \<Rightarrow> (gotime \<times> string) option" where
  "resolvePublishTime env art =
     (if \<not> IsZero (uPublishedAt (aMeta art)) then Some (uPublishedAt (aMeta art), ''PublishedAt'')
      else
        let lm = TrimSpace (uLastModified (aMeta art)) in
        if lm \<noteq> [] then map_option (\<lambda>t. (t, ''Last-Modified'')) (mvParseTime env lm)
        else None)"

definition maturity_Verify :: "maturity_env \<Rightarrow> 'w \<Rightarrow> ArtifactRef \<Rightarrow> Artifact \<Rightarrow> (Result \<times> string option) \<times> 'w" where
  "maturity_Verify env w ref art =
     ((case mvSpecs env (ToLower (TrimSpace (rProtocol ref))) of
         None \<Rightarrow> mk_result StatusSkip TierChecksum ''maturity: not configured for protocol''
       | Some spec \<Rightarrow>
           if msMinAge spec \<le> 0 then
             mk_result StatusSkip TierChecksum ''maturity: not configured for protocol''
           else if rMutable ref then
             mk_result StatusSkip TierChecksum ''maturity: skipped for mutable ref''
           else
             (case resolvePublishTime env art of
                None \<Rightarrow> mk_result StatusSkip TierChecksum ''maturity: no publish time available - skipped (honest)''
              | Some (published, src) \<Rightarrow>
                  let age = sat64 (mvNow env - published) in
                  if msMinAge spec \<le> age then
                    mk_result StatusPass TierChecksum
                      (''maturity: age '' @ mvFmtDur env age @ '' >= min_age '' @ mvFmtDur env (msMinAge spec)
                       @ '' ('' @ src @ '')'')
                  else
                    mk_result (if msPolicy spec = MaturityEnforce then StatusFail else StatusWarn) TierChecksum
                      (''maturity: version too young - age '' @ mvFmtDur env age @ '' < min_age ''
                       @ mvFmtDur env (msMinAge spec) @ '' (published '' @ mvFmtTime env published @ '' via ''
                       @ src @ ''; policy gate, not cryptographic)'')),
       None), w)"

definition MaturityVerifier :: "maturity_env \<Rightarrow> 'w verifier" where
  "MaturityVerifier env = \<lparr>vName = ''maturity'', vTier = TierChecksum, vVerify = maturity_Verify env\<rparr>"

lemmas [verify_simps] = ChecksumVerifier_def checksum_Verify_def TofuVerifier_def
  MaturityVerifier_def maturity_Verify_def

section \<open>What the chain reports\<close>

text \<open>
  The abstract view of a chain run: the outcomes of the verifiers that ran, in order, up to
  and including the first one that failed.
\<close>

type_synonym 'w outcome = "'w verifier \<times> Result \<times> string option"

definition outcome_fails :: "'w outcome \<Rightarrow> bool" where
  "outcome_fails x \<longleftrightarrow> snd (snd x) \<noteq> None \<or> resStatus (fst (snd x)) = StatusFail"

definition outcome_status :: "'w outcome \<Rightarrow> Status" where
  "outcome_status x = resStatus (fst (snd x))"

fun chain_trace :: "'w verifier list \<Rightarrow> ArtifactRef \<Rightarrow> Artifact \<Rightarrow> 'w \<Rightarrow> 'w outcome list \<times> 'w" where
  "chain_trace [] ref art w = ([], w)"
| "chain_trace (v # vs) ref art w =
     (case vVerify v w ref art of
        ((res, err), w') \<Rightarrow>
          if outcome_fails (v, res, err) then ([(v, res, err)], w')
          else (case chain_trace vs ref art w' of (tr, w'') \<Rightarrow> ((v, res, err) # tr, w'')))"

definition attested_tiers :: "'w outcome list \<Rightarrow> Tier list" where
  "attested_tiers tr = map (\<lambda>x. resTier (fst (snd x))) (filter (\<lambda>x. outcome_status x \<noteq> StatusSkip) tr)"

abbreviation chain_outcomes :: "'w verifier list \<Rightarrow> 'w \<Rightarrow> ArtifactRef \<Rightarrow> Artifact \<Rightarrow> 'w outcome list" where
  "chain_outcomes vs w ref art \<equiv> fst (chain_trace vs ref art w)"

abbreviation chain_result :: "'w verifier list \<Rightarrow> 'w \<Rightarrow> ArtifactRef \<Rightarrow> Artifact \<Rightarrow> Result" where
  "chain_result vs w ref art \<equiv> fst (fst (chain_Verify vs w ref art))"

abbreviation chain_state :: "'w verifier list \<Rightarrow> 'w \<Rightarrow> ArtifactRef \<Rightarrow> Artifact \<Rightarrow> 'w" where
  "chain_state vs w ref art \<equiv> fst (snd (chain_Verify vs w ref art))"

lemma chain_loop_state: "fst (snd (chain_loop vs ref art w h warn msgs ms)) = snd (chain_trace vs ref art w)"
  by (induction vs arbitrary: w h warn msgs ms)
    (auto simp: Let_def outcome_fails_def split: prod.splits option.splits)

lemma chain_state_trace: "chain_state vs w ref art = snd (chain_trace vs ref art w)"
  by (simp add: chain_Verify_def chain_loop_state)

lemma chain_loop_status:
  "resStatus (fst (fst (chain_loop vs ref art w h warn msgs ms))) =
     (if \<exists>x \<in> set (chain_outcomes vs w ref art). outcome_fails x then StatusFail
      else if warn \<or> (\<exists>x \<in> set (chain_outcomes vs w ref art). outcome_status x = StatusWarn) then StatusWarn
      else StatusPass)"
  by (induction vs arbitrary: w h warn msgs ms)
    (auto simp: Let_def outcome_fails_def outcome_status_def chain_error_result_def
      split: prod.splits option.splits)

lemma chain_loop_tier_ok:
  "\<forall>x \<in> set (chain_outcomes vs w ref art). \<not> outcome_fails x \<Longrightarrow>
   resTier (fst (fst (chain_loop vs ref art w h warn msgs ms))) =
     Max (insert h (set (attested_tiers (chain_outcomes vs w ref art))))"
proof (induction vs arbitrary: w h warn msgs ms)
  case (Cons v vs)
  obtain res err w' where v: "vVerify v w ref art = ((res, err), w')"
    by (metis surj_pair)
  obtain tr w'' where tr: "chain_trace vs ref art w' = (tr, w'')" by fastforce
  from Cons.prems v tr have ok: "\<not> outcome_fails (v, res, err)" "\<forall>x \<in> set tr. \<not> outcome_fails x"
    by (auto split: if_splits)
  then have "err = None" by (simp add: outcome_fails_def)
  have IH: "resTier (fst (fst (chain_loop vs ref art w' h' warn' msgs' ms'))) =
      Max (insert h' (set (attested_tiers tr)))" for h' warn' msgs' ms'
    using Cons.IH [of w'] tr ok by simp
  have m: "Max (insert (if h < t then t else h) S) = Max (insert h (insert t S))" if "finite S" for t S
    using that by (cases "S = {}") (auto simp: max_def)
  show ?case
    using v tr ok IH m [of "set (attested_tiers tr)" "resTier res"] \<open>err = None\<close>
    by (simp add: outcome_fails_def attested_tiers_def outcome_status_def)
qed (simp add: attested_tiers_def Let_def)

lemma chain_loop_tier_fail:
  "\<exists>x \<in> set (chain_outcomes vs w ref art). outcome_fails x \<Longrightarrow>
   resTier (fst (fst (chain_loop vs ref art w h warn msgs ms))) =
     vTier (fst (last (chain_outcomes vs w ref art)))"
proof (induction vs arbitrary: w h warn msgs ms)
  case (Cons v vs)
  obtain res err w' where v: "vVerify v w ref art = ((res, err), w')"
    by (metis surj_pair)
  show ?case
  proof (cases "outcome_fails (v, res, err)")
    case True
    with v show ?thesis by (auto simp: outcome_fails_def chain_error_result_def split: option.splits)
  next
    case False
    obtain tr w'' where tr: "chain_trace vs ref art w' = (tr, w'')" by fastforce
    with Cons.prems v False have "\<exists>x \<in> set tr. outcome_fails x" by auto
    then have "tr \<noteq> []" by auto
    with Cons.IH [of w'] v tr False \<open>\<exists>x \<in> set tr. outcome_fails x\<close> show ?thesis
      by (auto simp: outcome_fails_def split: option.splits)
  qed
qed simp

lemma chain_trace_length:
  "\<forall>x \<in> set (chain_outcomes vs w ref art). \<not> outcome_fails x \<Longrightarrow>
   map fst (chain_outcomes vs w ref art) = vs"
proof (induction vs arbitrary: w)
  case (Cons v vs)
  obtain res err w' where v: "vVerify v w ref art = ((res, err), w')"
    by (metis surj_pair)
  obtain tr w'' where tr: "chain_trace vs ref art w' = (tr, w'')" by fastforce
  from Cons.prems v tr have "\<not> outcome_fails (v, res, err)" "\<forall>x \<in> set tr. \<not> outcome_fails x"
    by (auto split: if_splits)
  with Cons.IH [of w'] v tr show ?case by simp
qed simp

lemma chain_trace_prefix_ok:
  "x \<in> set (butlast (chain_outcomes vs w ref art)) \<Longrightarrow> \<not> outcome_fails x"
proof (induction vs arbitrary: w)
  case (Cons v vs)
  obtain res err w' where v: "vVerify v w ref art = ((res, err), w')"
    by (metis surj_pair)
  obtain tr w'' where tr: "chain_trace vs ref art w' = (tr, w'')" by fastforce
  from Cons.IH [of w'] Cons.prems v tr show ?case by (auto split: if_splits)
qed simp

lemma chain_status_iff:
  "vs \<noteq> [] \<Longrightarrow> resStatus (chain_result vs w ref art) = StatusFail \<longleftrightarrow>
     (\<exists>x \<in> set (chain_outcomes vs w ref art). outcome_fails x)"
  by (simp add: chain_Verify_def chain_loop_status)

lemma chain_error_fail:
  "snd (fst (chain_loop vs ref art w h warn msgs ms)) \<noteq> None \<Longrightarrow>
   resStatus (fst (fst (chain_loop vs ref art w h warn msgs ms))) = StatusFail"
  by (induction vs arbitrary: w h warn msgs ms)
    (auto simp: Let_def chain_error_result_def split: prod.splits option.splits if_splits)

lemma chain_result_never_skip: "resStatus (chain_result vs w ref art) \<noteq> StatusSkip"
  by (simp add: chain_Verify_def chain_loop_status)

text \<open>An accepting chain ran the head verifier without failure and then accepted with the rest.\<close>

lemma chain_outcomes_Cons:
  assumes "vVerify v w ref art = ((res, err), w')" and "\<not> outcome_fails (v, res, err)"
  shows "chain_outcomes (v # vs) w ref art = (v, res, err) # chain_outcomes vs w' ref art"
    and "snd (chain_trace (v # vs) ref art w) = snd (chain_trace vs ref art w')"
  using assms by (simp_all split: prod.splits)

section \<open>State changes of a chain\<close>

text \<open>A reflexive and transitive relation that every verifier keeps is kept by the chain.\<close>

locale verifier_frame =
  fixes R :: "'w \<Rightarrow> 'w \<Rightarrow> bool" and vs :: "'w verifier list"
  assumes R_refl: "R w w"
    and R_trans: "R a b \<Longrightarrow> R b c \<Longrightarrow> R a c"
    and R_step: "v \<in> set vs \<Longrightarrow> R w (snd (vVerify v w ref art))"
begin

lemma trace_frame: "set us \<subseteq> set vs \<Longrightarrow> R w (snd (chain_trace us ref art w))"
proof (induction us arbitrary: w)
  case (Cons v us)
  obtain res err w' where v: "vVerify v w ref art = ((res, err), w')"
    by (metis surj_pair)
  with R_step [of v w ref art] Cons.prems have "R w w'" by simp
  with v Cons.IH [of w'] Cons.prems show ?case
    by (auto split: prod.splits intro: R_trans)
qed (simp add: R_refl)

lemma chain_frame: "R w (chain_state vs w ref art)"
  by (simp add: chain_state_trace trace_frame)

end

text \<open>
  What verifiers may do to the metadata store: entries that hold a digest stay, and the
  immutable tier is untouched.
\<close>

definition keeps_pins :: "sqlite \<Rightarrow> sqlite \<Rightarrow> bool" where
  "keeps_pins s s' \<longleftrightarrow>
     cache_entries s' = cache_entries s \<and> db_now s' = db_now s \<and> db_fault s' = db_fault s
     \<and> (\<forall>k e. mutable_entries s k = Some e \<longrightarrow> meDigest e \<noteq> [] \<longrightarrow> mutable_entries s' k = Some e)"

lemma keeps_pins_refl [simp]: "keeps_pins s s"
  by (simp add: keeps_pins_def)

lemma keeps_pins_trans: "keeps_pins a b \<Longrightarrow> keeps_pins b c \<Longrightarrow> keeps_pins a c"
  by (auto simp: keeps_pins_def)

lemma keeps_pins_tick [simp]: "keeps_pins s (s\<lparr>db_tick := n\<rparr>)"
  by (simp add: keeps_pins_def)

lemma tofu_keeps_pins: "keeps_pins w (snd (tofu_Verify w ref art))"
  by (auto simp: tofu_Verify_def GetPin_def SetPin_def store_simps keeps_pins_def pin_entry_def Let_def
      split: option.splits)

lemma main_chain_frames:
  assumes "v \<in> set (main_chain configured)"
    and "\<forall>v \<in> set configured. \<forall>w ref art. keeps_pins w (snd (vVerify v w ref art))"
  shows "keeps_pins w (snd (vVerify v w ref art))"
  using assms by (auto simp: main_chain_def ChecksumVerifier_def checksum_Verify_def TofuVerifier_def tofu_keeps_pins)

interpretation base_frame: verifier_frame keeps_pins "main_chain [MaturityVerifier env]" for env
  by unfold_locales
    (auto simp: main_chain_def verify_simps tofu_keeps_pins intro: keeps_pins_trans)

section \<open>Pins\<close>

definition pin_of :: "sqlite \<Rightarrow> ArtifactRef \<Rightarrow> string" where
  "pin_of s ref = (case mutable_entries s (pin_key (tofuKey ref)) of None \<Rightarrow> [] | Some e \<Rightarrow> meDigest e)"

lemma keeps_pins_pin_of: "keeps_pins s s' \<Longrightarrow> pin_of s ref \<noteq> [] \<Longrightarrow> pin_of s' ref = pin_of s ref"
  by (auto simp: keeps_pins_def pin_of_def split: option.splits)

lemma meDigest_stored [simp]: "meDigest (stored_mutable n (pin_entry m k d)) = d"
  by (simp add: stored_mutable_def pin_entry_def)

text \<open>Acceptance by the pinning verifier leaves the accepted digest pinned.\<close>

lemma tofu_accepts:
  assumes "\<not> rMutable ref" and "tofu_Verify w ref art = ((res, None), w')"
    and "resStatus res \<noteq> StatusFail"
  shows "pin_of w' ref = aDigest art" and "pin_of w ref = [] \<or> pin_of w ref = aDigest art"
  using assms
  by (auto simp: tofu_Verify_def GetPin_def SetPin_def store_simps pin_of_def Let_def pin_entry_def
      stored_mutable_def split: option.splits if_splits)

lemma tofu_rejects_change:
  assumes "\<not> rMutable ref" and "pin_of w ref \<noteq> []" and "pin_of w ref \<noteq> aDigest art"
  shows "resStatus (fst (fst (tofu_Verify w ref art))) = StatusFail"
  using assms
  by (auto simp: tofu_Verify_def GetPin_def store_simps pin_of_def Let_def split: option.splits)

lemma checksum_accepts:
  "resStatus (fst (fst (checksum_Verify w ref art))) \<noteq> StatusFail \<Longrightarrow>
   aDigest art \<noteq> [] \<and> (rDigest ref = [] \<or> rDigest ref = aDigest art)"
  by (auto simp: checksum_Verify_def split: if_splits)

text \<open>What acceptance by a chain that starts with the two base verifiers means.\<close>

lemma main_chain_accepts:
  assumes "resStatus (chain_result (main_chain configured) w ref art) \<noteq> StatusFail"
  shows "aDigest art \<noteq> []" and "rDigest ref = [] \<or> rDigest ref = aDigest art"
    and "\<not> rMutable ref \<Longrightarrow> pin_of w ref = [] \<or> pin_of w ref = aDigest art"
    and "\<not> rMutable ref \<Longrightarrow> \<exists>w'. snd (tofu_Verify w ref art) = w' \<and> pin_of w' ref = aDigest art
          \<and> chain_state (main_chain configured) w ref art = snd (chain_trace configured ref art w')"
proof -
  let ?tofu = "tofu_Verify w ref art"
  have nofail: "\<forall>x \<in> set (chain_outcomes (main_chain configured) w ref art). \<not> outcome_fails x"
    using assms chain_status_iff [of "main_chain configured" w ref art] by (auto simp: main_chain_def)
  obtain cres where c: "checksum_Verify w ref art = ((cres, None), w)"
    by (simp add: checksum_Verify_def)
  obtain res err w' where t: "?tofu = ((res, err), w')" by (metis surj_pair)
  have c_ok: "resStatus cres \<noteq> StatusFail"
    using nofail c
    by (auto simp: main_chain_def ChecksumVerifier_def outcome_fails_def split: prod.splits if_splits)
  then show "aDigest art \<noteq> []" and "rDigest ref = [] \<or> rDigest ref = aDigest art"
    using checksum_accepts [of w ref art] c by simp_all
  have t_ok: "\<not> outcome_fails (TofuVerifier, res, err)"
    using nofail c c_ok t
    by (auto simp: main_chain_def ChecksumVerifier_def TofuVerifier_def outcome_fails_def
        split: prod.splits if_splits)
  then have err: "err = None" "resStatus res \<noteq> StatusFail" by (auto simp: outcome_fails_def)
  show "pin_of w ref = [] \<or> pin_of w ref = aDigest art" if "\<not> rMutable ref"
    using tofu_accepts(2) [OF that, of w art res w'] t err by simp
  show "\<exists>w'. snd ?tofu = w' \<and> pin_of w' ref = aDigest art
      \<and> chain_state (main_chain configured) w ref art = snd (chain_trace configured ref art w')"
    if "\<not> rMutable ref"
  proof -
    have "chain_state (main_chain configured) w ref art = snd (chain_trace configured ref art w')"
      unfolding chain_state_trace main_chain_def using c c_ok t t_ok
      by (simp add: ChecksumVerifier_def TofuVerifier_def outcome_fails_def split: prod.splits)
    with tofu_accepts(1) [OF that, of w art res w'] t err show ?thesis by simp
  qed
qed

section \<open>Properties\<close>

lemma chain_loop_retryable: "\<not> resRetryable (fst (fst (chain_loop vs ref art w h warn msgs ms)))"
  by (induction vs arbitrary: w h warn msgs ms)
    (auto simp: Let_def chain_error_result_def split: prod.splits option.splits)

text \<open>C3: the chain reports what its verifiers did: it fails exactly when a verifier that ran failed or
  erred, and then with that verifier's tier; otherwise every verifier ran, the tier is the highest
  one attested by a verifier that did not skip, and a warning is never lost.\<close>

theorem chain_reports_outcomes:
  assumes "vs \<noteq> []"
  shows "let tr = chain_outcomes vs w ref art; res = chain_result vs w ref art in
    if \<exists>x \<in> set tr. outcome_fails x
    then resStatus res = StatusFail \<and> resTier res = vTier (fst (last tr)) \<and> outcome_fails (last tr)
    else map fst tr = vs \<and> resTier res = Max (insert TierChecksum (set (attested_tiers tr)))
       \<and> resStatus res = (if \<exists>x \<in> set tr. outcome_status x = StatusWarn then StatusWarn else StatusPass)"
proof -
  let ?tr = "chain_outcomes vs w ref art"
  have "outcome_fails (last ?tr)" if ex: "\<exists>x \<in> set ?tr. outcome_fails x"
  proof -
    obtain x where x: "x \<in> set ?tr" "outcome_fails x" using ex by blast
    then have "?tr \<noteq> []" by auto
    with x have "x \<in> set (butlast ?tr) \<or> x = last ?tr" by (metis append_butlast_last_id Un_iff empty_iff insert_iff list.set(1,2) set_append)
    with x(2) chain_trace_prefix_ok [of x vs ref art w] show ?thesis by auto
  qed
  then show ?thesis
    using assms by (auto simp: Let_def chain_Verify_def chain_loop_status chain_loop_tier_fail chain_loop_tier_ok
        chain_trace_length)
qed

text \<open>A verdict of the chain is never marked retryable, even when the verifier that failed marked its
  own verdict so: the chain rebuilds the result from status, tier and message only.\<close>

theorem chain_never_retryable: "\<not> resRetryable (chain_result vs w ref art)"
  by (simp add: chain_Verify_def chain_loop_retryable)

lemma tofu_first_use:
  assumes "db_healthy w" and "\<not> rMutable ref" and "pin_of w ref = []"
  shows "pin_of (snd (tofu_Verify w ref art)) ref = aDigest art"
    and "snd (fst (tofu_Verify w ref art)) = None" and "resStatus (fst (fst (tofu_Verify w ref art))) = StatusWarn"
  using assms
  by (auto simp: tofu_Verify_def GetPin_def SetPin_def store_simps pin_of_def Let_def pin_entry_def
      stored_mutable_def db_healthy_def split: option.splits)

text \<open>First use pins before acceptance: when a verifier later in the chain rejects the first artifact
  seen for an immutable reference, its digest stays pinned and every artifact with another digest,
  the correct one included, is rejected from then on.\<close>

theorem tofu_pins_rejected_artifact:
  assumes "db_healthy w" and "\<not> rMutable ref" and "pin_of w ref = []" and "rDigest ref = []"
    and "aDigest bad \<noteq> []" and "aDigest good \<noteq> aDigest bad"
    and "\<forall>v \<in> set configured. \<forall>w ref art. keeps_pins w (snd (vVerify v w ref art))"
    and "resStatus (chain_result (main_chain configured) w ref bad) = StatusFail"
  shows "resStatus (chain_result (main_chain configured) (chain_state (main_chain configured) w ref bad) ref good) = StatusFail"
proof -
  let ?w = "chain_state (main_chain configured) w ref bad"
  obtain res w1 where t: "tofu_Verify w ref bad = ((res, None), w1)" and "resStatus res = StatusWarn"
    and pin: "pin_of w1 ref = aDigest bad"
    using tofu_first_use [OF assms(1-3), of bad] by (metis prod.collapse)
  moreover have "checksum_Verify w ref bad = ((fst (fst (checksum_Verify w ref bad)), None), w)"
    and "resStatus (fst (fst (checksum_Verify w ref bad))) \<noteq> StatusFail"
    using assms(4,5) by (simp_all add: checksum_Verify_def)
  ultimately have "?w = snd (chain_trace configured ref bad w1)"
    by (auto simp: chain_state_trace main_chain_def ChecksumVerifier_def TofuVerifier_def outcome_fails_def split: prod.splits)
  moreover have "verifier_frame keeps_pins configured" using assms(7) by unfold_locales (auto intro: keeps_pins_trans)
  ultimately have "keeps_pins w1 ?w" using verifier_frame.trace_frame [of keeps_pins configured configured w1 ref bad] by simp
  then have "pin_of ?w ref = aDigest bad" using keeps_pins_pin_of [of w1 ?w ref] pin assms(5) by simp
  then show ?thesis
    using main_chain_accepts(3) [of configured ?w ref good] assms(2,5,6) by auto
qed

text \<open>The maturity gate rejects exactly the immutable artifacts of a protocol under the enforce policy
  whose known publish time is less than the minimum age ago; it never raises an error and never
  touches the state.\<close>

theorem maturity_fails_iff:
  "(resStatus (fst (fst (maturity_Verify env w ref art))) = StatusFail \<longleftrightarrow>
     (\<exists>spec published src. mvSpecs env (ToLower (TrimSpace (rProtocol ref))) = Some spec \<and> 0 < msMinAge spec
        \<and> \<not> rMutable ref \<and> resolvePublishTime env art = Some (published, src)
        \<and> sat64 (mvNow env - published) < msMinAge spec \<and> msPolicy spec = MaturityEnforce))
   \<and> snd (maturity_Verify env w ref art) = w \<and> snd (fst (maturity_Verify env w ref art)) = None"
  by (auto simp: maturity_Verify_def Let_def split: option.splits prod.splits)

section \<open>A concrete rejection\<close>

definition RejectAll :: "'w verifier" where
  "RejectAll = \<lparr>vName = ''signed'', vTier = TierSigned, vVerify = (\<lambda>w ref art. ((mk_result StatusFail TierSigned ''no signature'', None), w))\<rparr>"

definition verify_demo_ref :: ArtifactRef where
  "verify_demo_ref = \<lparr>rProtocol = ''npm'', rName = ''left-pad'', rVersion = ''1.0'', rDigest = [], rUpstream = [], rMutable = False\<rparr>"

definition verify_demo_art :: "string \<Rightarrow> Artifact" where
  "verify_demo_art d = \<lparr>aPath = ''/q/1'', aDigest = d, aSize = 1, aMeta = no_meta\<rparr>"

theorem chain_reports_outcomes_witness:
  "resStatus (chain_result [RejectAll] () verify_demo_ref (verify_demo_art ''sha256:aa'')) = StatusFail"
  using chain_reports_outcomes [of "[RejectAll]" verify_demo_ref "verify_demo_art ''sha256:aa''" "()"]
  by (simp add: RejectAll_def outcome_fails_def Let_def)

lemma verify_demo_rejected:
  "resStatus (chain_result (main_chain [RejectAll]) meta_demo verify_demo_ref (verify_demo_art ''sha256:bad'')) = StatusFail"
  by code_simp

theorem tofu_pins_rejected_artifact_witness:
  "resStatus (chain_result (main_chain [RejectAll])
     (chain_state (main_chain [RejectAll]) meta_demo verify_demo_ref (verify_demo_art ''sha256:bad''))
     verify_demo_ref (verify_demo_art ''sha256:good'')) = StatusFail"
  by (rule tofu_pins_rejected_artifact [OF _ _ _ _ _ _ _ verify_demo_rejected])
    (simp_all add: db_healthy_def meta_demo_def verify_demo_ref_def verify_demo_art_def pin_of_def RejectAll_def)

end
