(* ===== verification/Consensus.thy ===== *)
theory Consensus
  imports Verify "HOL-Library.Multiset"
begin

text \<open>
  Cross-source consensus (\<^verbatim>\<open>internal/verify/consensus.go\<close>) and the binding of a
  quarantined body to an advertised content identity (\<^verbatim>\<open>internal/verify/content_id.go\<close>).

  Parameters: the digest fetcher (a network client), the order in which the parallel polls
  arrive, the contents of quarantine files, and the SHA-2 functions as maps from bytes to
  raw digests.
\<close>

section \<open>Content identities\<close>

record hash_lib =
  h_sha256 :: "bytes \<Rightarrow> bytes"
  h_sha384 :: "bytes \<Rightarrow> bytes"
  h_sha512 :: "bytes \<Rightarrow> bytes"

definition hex_digit :: "nat \<Rightarrow> char" where
  "hex_digit n = ''0123456789abcdef'' ! n"

definition hex_EncodeToString :: "bytes \<Rightarrow> string" where
  "hex_EncodeToString bs = concat (map (\<lambda>c. [hex_digit (of_char c div 16), hex_digit (of_char c mod 16)]) bs)"

definition b64_std_alphabet :: string where
  "b64_std_alphabet = ''ABCDEFGHIJKLMNOPQRSTUVWXYZabcdefghijklmnopqrstuvwxyz0123456789+/''"

text \<open>\<^verbatim>\<open>base64.StdEncoding\<close>: quads of digits, the last one padded with \<^verbatim>\<open>=\<close>.\<close>

fun std_quads :: "string \<Rightarrow> nat list option" where
  "std_quads [] = Some []"
| "std_quads (a # b # c # d # r) =
     (case (IndexByte b64_std_alphabet a, IndexByte b64_std_alphabet b) of
        (Some w, Some x) \<Rightarrow>
          (case (IndexByte b64_std_alphabet c, IndexByte b64_std_alphabet d) of
             (Some y, Some z) \<Rightarrow>
               map_option (\<lambda>bs. (w * 4 + x div 16) # (x mod 16 * 16 + y div 4) # (y mod 4 * 64 + z) # bs) (std_quads r)
           | (Some y, None) \<Rightarrow>
               if d = CHR ''='' \<and> r = [] then Some [w * 4 + x div 16, x mod 16 * 16 + y div 4] else None
           | (None, _) \<Rightarrow>
               if c = CHR ''='' \<and> d = CHR ''='' \<and> r = [] then Some [w * 4 + x div 16] else None)
      | _ \<Rightarrow> None)"
| "std_quads _ = None"

definition Std_DecodeString :: "string \<Rightarrow> bytes option" where
  "Std_DecodeString s = map_option (map char_of) (std_quads (filter (\<lambda>c. c \<noteq> CHR 0x0A \<and> c \<noteq> CHR 0x0D) s))"

definition looksLikeSHA256Hex :: "string \<Rightarrow> bool" where
  "looksLikeSHA256Hex s \<longleftrightarrow> length s = 64 \<and>
     list_all (\<lambda>c. (CHR ''0'' \<le> c \<and> c \<le> CHR ''9'') \<or> (CHR ''a'' \<le> c \<and> c \<le> CHR ''f'')
                  \<or> (CHR ''A'' \<le> c \<and> c \<le> CHR ''F'')) s"

text \<open>The checks return \<^const>\<open>None\<close> for Go's nil error.\<close>

definition verifyHexDigest :: "(bytes \<Rightarrow> bytes) \<Rightarrow> bytes \<Rightarrow> string \<Rightarrow> string \<Rightarrow> string option" where
  "verifyHexDigest h body wantHex algo =
     (let got = hex_EncodeToString (h body) in
      if EqualFold got wantHex then None
      else Some (algo @ '' body mismatch: got '' @ got @ '', want '' @ ToLower wantHex))"

definition verifySSRI :: "hash_lib \<Rightarrow> bytes \<Rightarrow> string \<Rightarrow> string option" where
  "verifySSRI hs body integrity =
     (case IndexByte integrity (CHR ''-'') of
        None \<Rightarrow> Some (''malformed SSRI '' @ quote integrity)
      | Some dash \<Rightarrow>
          if dash = 0 \<or> dash = length integrity - 1 then Some (''malformed SSRI '' @ quote integrity)
          else
            let algo = take dash integrity;
                wantB64 = drop (Suc dash) integrity
            in
            case (case Std_DecodeString wantB64 of Some w \<Rightarrow> Some w | None \<Rightarrow> RawURL_DecodeString wantB64) of
              None \<Rightarrow> Some ''SSRI base64: illegal base64 data''
            | Some want \<Rightarrow>
                (case (if algo = ''sha256'' then Some (h_sha256 hs)
                       else if algo = ''sha384'' then Some (h_sha384 hs)
                       else if algo = ''sha512'' then Some (h_sha512 hs) else None) of
                   None \<Rightarrow> Some (''unsupported SSRI algorithm '' @ quote algo)
                 | Some h \<Rightarrow>
                     let got = h body in
                     if length got \<noteq> length want then Some (''SSRI '' @ algo @ '' length mismatch'')
                     else if got \<noteq> want then Some (''SSRI '' @ algo @ '' body mismatch'')
                     else None))"

definition verifyBodyContentID :: "hash_lib \<Rightarrow> (string \<Rightarrow> string + bytes) \<Rightarrow> string \<Rightarrow> string \<Rightarrow> string option" where
  "verifyBodyContentID hs openf path contentID0 =
     (let contentID = TrimSpace contentID0 in
      if contentID = [] then Some ''empty content id''
      else if path = [] then Some ''quarantine path is empty''
      else
        case openf path of
          Inl err \<Rightarrow> Some (''open quarantine: '' @ err)
        | Inr body \<Rightarrow>
            if Contains contentID ''-'' \<and> \<not> Contains contentID '':'' then verifySSRI hs body contentID
            else if HasPrefix contentID ''sha256:'' then
              verifyHexDigest (h_sha256 hs) body (TrimPrefix contentID ''sha256:'') ''sha256''
            else if looksLikeSHA256Hex contentID then verifyHexDigest (h_sha256 hs) body contentID ''sha256''
            else Some (''unsupported content id form '' @ quote contentID))"

definition contentIDsEqual :: "string \<Rightarrow> string \<Rightarrow> bool" where
  "contentIDsEqual a b \<longleftrightarrow> a \<noteq> [] \<and> b \<noteq> [] \<and> a = b"

definition digestsEqual :: "string \<Rightarrow> string \<Rightarrow> bool" where
  "digestsEqual a b \<longleftrightarrow>
     \<not> (a = [] \<or> b = [])
     \<and> \<not> (Contains a ''-'' \<and> \<not> HasPrefix a ''sha256:'')
     \<and> \<not> (Contains b ''-'' \<and> \<not> HasPrefix b ''sha256:'')
     \<and> TrimPrefix a ''sha256:'' = TrimPrefix b ''sha256:''"

section \<open>Polling\<close>

record ConsensusMirror =
  cmName :: string
  cmBaseURL :: string

definition IdentityCAS :: string where "IdentityCAS = ''cas''"
definition IdentityContentID :: string where "IdentityContentID = ''content_id''"

record ConsensusConfig =
  ccQuorum :: int
  ccMirrors :: "ConsensusMirror list"
  ccOriginURL :: string
  ccIdentityMode :: string

record mirrorFetchResult =
  mfMirror :: ConsensusMirror
  mfDigest :: string
  mfErr :: "string option"
  mfIsOrigin :: bool

type_synonym digest_fetcher = "ConsensusMirror \<Rightarrow> ArtifactRef \<Rightarrow> string + string"

record consensus_env =
  ceCfg :: ConsensusConfig
  ceFetcher :: "digest_fetcher option"
  ceArrive :: "mirrorFetchResult list \<Rightarrow> mirrorFetchResult list"
  ceHash :: hash_lib
  ceOpen :: "string \<Rightarrow> string + bytes"

definition poll :: "digest_fetcher \<Rightarrow> ArtifactRef \<Rightarrow> bool \<Rightarrow> ConsensusMirror \<Rightarrow> mirrorFetchResult" where
  "poll fetch ref isOrigin m =
     (case fetch m ref of
        Inl err \<Rightarrow> \<lparr>mfMirror = m, mfDigest = [], mfErr = Some err, mfIsOrigin = isOrigin\<rparr>
      | Inr d \<Rightarrow> \<lparr>mfMirror = m, mfDigest = d, mfErr = None, mfIsOrigin = isOrigin\<rparr>)"

definition poll_all :: "ConsensusConfig \<Rightarrow> digest_fetcher \<Rightarrow> ArtifactRef \<Rightarrow> mirrorFetchResult list" where
  "poll_all cfg fetch ref =
     (if ccOriginURL cfg \<noteq> []
      then [poll fetch ref True \<lparr>cmName = ''origin'', cmBaseURL = ccOriginURL cfg\<rparr>] else [])
     @ map (poll fetch ref False) (ccMirrors cfg)"

text \<open>
  The gathering loop: the last origin answer that arrived, if any, and the mirrors that
  answered.
\<close>

fun gather :: "mirrorFetchResult list \<Rightarrow> string option \<Rightarrow> mirrorFetchResult list \<Rightarrow> string option \<times> mirrorFetchResult list" where
  "gather [] origin votes = (origin, votes)"
| "gather (r # rs) origin votes =
     (if mfIsOrigin r then gather rs (if mfErr r = None then Some (mfDigest r) else origin) votes
      else if mfErr r \<noteq> None then gather rs origin votes
      else gather rs origin (votes @ [r]))"

section \<open>Quorum decisions\<close>

definition consensus_result :: "Status \<Rightarrow> bool \<Rightarrow> string \<Rightarrow> Result" where
  "consensus_result st retry msg =
     \<lparr>resStatus = st, resTier = TierConsensus, resMessage = msg, resRetryable = retry\<rparr>"

definition refKey :: "ArtifactRef \<Rightarrow> string" where
  "refKey ref = rProtocol ref @ '':'' @ rName ref @ ''@'' @ rVersion ref"

definition unreachable_msg :: "ConsensusConfig \<Rightarrow> ArtifactRef \<Rightarrow> int \<Rightarrow> string \<Rightarrow> string" where
  "unreachable_msg cfg ref quorum what =
     ''consensus: could not reach ANY of '' @ itoa (int (length (ccMirrors cfg))) @ '' configured mirrors for ''
     @ refKey ref @ '' (need '' @ itoa quorum @ '' to agree; 0 responded) - inconclusive infrastructure failure''
     @ '' of the consensus check itself, NOT a '' @ what @ '' disagreement; retry may succeed''"

definition vote_text :: "mirrorFetchResult \<Rightarrow> string" where
  "vote_text r = cmName (mfMirror r) @ ''='' @ mfDigest r"

definition verifyCASQuorum ::
  "ConsensusConfig \<Rightarrow> ArtifactRef \<Rightarrow> Artifact \<Rightarrow> mirrorFetchResult list \<Rightarrow> int \<Rightarrow> bool \<Rightarrow> string option \<Rightarrow> Result" where
  "verifyCASQuorum cfg ref art votes quorum hasOrigin originDigest =
     (let agree = int (length (filter (\<lambda>r. digestsEqual (mfDigest r) (aDigest art)) votes));
          polled = int (length votes);
          disagreements = map vote_text (filter (\<lambda>r. \<not> digestsEqual (mfDigest r) (aDigest art)) votes)
      in
      if hasOrigin \<and> (case originDigest of None \<Rightarrow> False | Some o' \<Rightarrow> \<not> digestsEqual o' (aDigest art)) then
        consensus_result StatusFail False
          (''consensus: OFFICIAL SOURCE disagrees for '' @ refKey ref @ '': origin='' @ the originDigest
           @ '' artifact='' @ aDigest art @ '' - possible mirror poisoning'')
      else if agree < quorum then
        if polled = 0 then
          consensus_result StatusFail True (unreachable_msg cfg ref quorum ''digest'')
        else
          consensus_result StatusFail False
            (''consensus: quorum not met for '' @ refKey ref @ '': '' @ itoa agree @ ''/''
             @ itoa (int (length (ccMirrors cfg))) @ '' mirrors agreed on '' @ aDigest art @ '' (need ''
             @ itoa quorum @ ''; polled '' @ itoa polled @ ''; disagreements: ''
             @ (if Join disagreements '', '' = [] then ''none'' else Join disagreements '', '') @ '')'')
      else
        consensus_result StatusPass False
          (''consensus: '' @ itoa agree @ ''/'' @ itoa (int (length (ccMirrors cfg))) @ '' mirrors agreed on ''
           @ aDigest art @ '' for '' @ refKey ref @ '' (quorum '' @ itoa quorum @ '')''))"

definition vote_count :: "mirrorFetchResult list \<Rightarrow> string \<Rightarrow> int" where
  "vote_count votes i = int (length (filter (\<lambda>r. mfDigest r = i) votes))"

definition candidates :: "mirrorFetchResult list \<Rightarrow> int \<Rightarrow> string list" where
  "candidates votes quorum = filter (\<lambda>i. quorum \<le> vote_count votes i) (remdups (map mfDigest votes))"

definition verifyContentIDQuorum ::
  "hash_lib \<Rightarrow> (string \<Rightarrow> string + bytes) \<Rightarrow> ConsensusConfig \<Rightarrow> ArtifactRef \<Rightarrow> Artifact \<Rightarrow> mirrorFetchResult list
   \<Rightarrow> int \<Rightarrow> bool \<Rightarrow> string option \<Rightarrow> Result" where
  "verifyContentIDQuorum hs openf cfg ref art votes quorum hasOrigin originDigest =
     (case candidates votes quorum of
        [] \<Rightarrow>
          if votes = [] then consensus_result StatusFail True (unreachable_msg cfg ref quorum ''content-id'')
          else
            consensus_result StatusFail False
              (''consensus: content-id quorum not met for '' @ refKey ref @ '': need '' @ itoa quorum
               @ '' agreeing mirrors; polled '' @ itoa (int (length votes)) @ '' (''
               @ Join (map vote_text votes) '', '' @ '')'')
      | [winning] \<Rightarrow>
          if hasOrigin \<and> (case originDigest of None \<Rightarrow> False | Some o' \<Rightarrow> \<not> contentIDsEqual o' winning) then
            consensus_result StatusFail False
              (''consensus: OFFICIAL SOURCE disagrees for '' @ refKey ref @ '': origin='' @ the originDigest
               @ '' content-id='' @ winning @ '' - possible mirror poisoning'')
          else
            (case verifyBodyContentID hs openf (aPath art) winning of
               Some err \<Rightarrow>
                 consensus_result StatusFail False
                   (''consensus: body does not match content-id '' @ winning @ '' for '' @ refKey ref @ '': '' @ err)
             | None \<Rightarrow>
                 consensus_result StatusPass False
                   (''consensus: '' @ itoa (vote_count votes winning) @ ''/'' @ itoa (int (length (ccMirrors cfg)))
                    @ '' mirrors agreed on integrity='' @ winning @ '' for '' @ refKey ref @ '' (voters: ''
                    @ Join (map (\<lambda>r. cmName (mfMirror r)) (filter (\<lambda>r. mfDigest r = winning) votes)) '',''
                    @ ''; quorum '' @ itoa quorum @ ''; cas='' @ aDigest art @ '')''))
      | cs \<Rightarrow>
          consensus_result StatusFail False
            (''consensus: content-id split brain for '' @ refKey ref @ '': multiple IDs met quorum ''
             @ itoa quorum @ '' ('' @ Join cs '', '' @ '')''))"

definition effective_quorum :: "ConsensusConfig \<Rightarrow> int" where
  "effective_quorum cfg = (if ccQuorum cfg < 1 then 1 else ccQuorum cfg)"

definition consensus_Verify :: "consensus_env \<Rightarrow> 'w \<Rightarrow> ArtifactRef \<Rightarrow> Artifact \<Rightarrow> (Result \<times> string option) \<times> 'w" where
  "consensus_Verify env w ref art =
     ((if rMutable ref \<or> aDigest art = [] then
         (mk_result StatusSkip TierChecksum ''consensus: skipped (no resolved digest to cross-check)'', None)
       else
         case ceFetcher env of
           None \<Rightarrow>
             (mk_result StatusFail TierConsensus ''consensus: no MirrorDigestFetcher wired (fail-closed)'',
              Some ''consensus: verify: not implemented (MirrorDigestFetcher is nil)'')
         | Some fetch \<Rightarrow>
             (let cfg = ceCfg env;
                  quorum = effective_quorum cfg;
                  hasOrigin = (ccOriginURL cfg \<noteq> []);
                  gathered = gather (ceArrive env (poll_all cfg fetch ref)) None [];
                  originDigest = fst gathered;
                  votes = snd gathered
              in
              (if ccIdentityMode cfg = IdentityContentID then
                 verifyContentIDQuorum (ceHash env) (ceOpen env) cfg ref art votes quorum hasOrigin originDigest
               else verifyCASQuorum cfg ref art votes quorum hasOrigin originDigest, None))), w)"

definition ConsensusVerifier :: "consensus_env \<Rightarrow> 'w verifier" where
  "ConsensusVerifier env = \<lparr>vName = ''consensus'', vTier = TierConsensus, vVerify = consensus_Verify env\<rparr>"

section \<open>Polling lemmas\<close>

text \<open>What the sources answered, read off the configuration and the fetcher.\<close>

definition origin_answer :: "ConsensusConfig \<Rightarrow> digest_fetcher \<Rightarrow> ArtifactRef \<Rightarrow> string option" where
  "origin_answer cfg fetch ref =
     (if ccOriginURL cfg = [] then None
      else case fetch \<lparr>cmName = ''origin'', cmBaseURL = ccOriginURL cfg\<rparr> ref of Inl _ \<Rightarrow> None | Inr d \<Rightarrow> Some d)"

definition answers :: "ConsensusConfig \<Rightarrow> digest_fetcher \<Rightarrow> ArtifactRef \<Rightarrow> (string \<Rightarrow> bool) \<Rightarrow> nat" where
  "answers cfg fetch ref P =
     length (filter (\<lambda>m. case fetch m ref of Inl _ \<Rightarrow> False | Inr d \<Rightarrow> P d) (ccMirrors cfg))"

definition origin_agrees :: "(string \<Rightarrow> bool) \<Rightarrow> ConsensusConfig \<Rightarrow> digest_fetcher \<Rightarrow> ArtifactRef \<Rightarrow> bool" where
  "origin_agrees P cfg fetch ref \<longleftrightarrow> (case origin_answer cfg fetch ref of None \<Rightarrow> True | Some d \<Rightarrow> P d)"

text \<open>Every issued poll arrives, in some order.\<close>

definition arrives_all :: "consensus_env \<Rightarrow> bool" where
  "arrives_all env \<longleftrightarrow> (\<forall>rs. mset (ceArrive env rs) = mset rs)"

text \<open>The message of a result is not rewritten: no lemma depends on its text.\<close>

lemma consensus_result_cong [cong]:
  "st = st' \<Longrightarrow> b = b' \<Longrightarrow> consensus_result st b m = consensus_result st' b' m"
  by simp

lemma gather_votes:
  "snd (gather rs o' vs) = vs @ filter (\<lambda>r. \<not> mfIsOrigin r \<and> mfErr r = None) rs"
  by (induction rs o' vs rule: gather.induct) auto

lemma gather_no_origin: "\<forall>r \<in> set rs. \<not> (mfIsOrigin r \<and> mfErr r = None) \<Longrightarrow> fst (gather rs o' vs) = o'"
  by (induction rs o' vs rule: gather.induct) auto

lemma gather_origin:
  assumes "\<forall>x \<in> set rs. mfIsOrigin x \<longrightarrow> mfErr x = None \<and> mfDigest x = d"
    and "(\<exists>x \<in> set rs. mfIsOrigin x) \<or> o' = Some d"
  shows "fst (gather rs o' vs) = Some d"
  using assms by (induction rs o' vs rule: gather.induct) auto

lemma poll_simps [simp]:
  "mfIsOrigin (poll fetch ref b m) = b"
  "mfMirror (poll fetch ref b m) = m"
  "mfErr (poll fetch ref b m) = None \<longleftrightarrow> (\<exists>d. fetch m ref = Inr d)"
  "fetch m ref = Inr d \<Longrightarrow> mfDigest (poll fetch ref b m) = d"
  by (auto simp: poll_def split: sum.splits)

lemma gathered_origin:
  assumes "mset rs = mset (poll_all cfg fetch ref)"
  shows "fst (gather rs None []) = origin_answer cfg fetch ref"
proof -
  let ?o = "poll fetch ref True \<lparr>cmName = ''origin'', cmBaseURL = ccOriginURL cfg\<rparr>"
  have set: "set rs = set (poll_all cfg fetch ref)" using assms by (metis set_mset_mset)
  show ?thesis
  proof (cases "ccOriginURL cfg \<noteq> [] \<and> mfErr ?o = None")
    case True
    have "\<forall>x \<in> set rs. mfIsOrigin x \<longrightarrow> mfErr x = None \<and> mfDigest x = mfDigest ?o"
      using True by (auto simp: set poll_all_def)
    moreover have "\<exists>x \<in> set rs. mfIsOrigin x"
      using True by (simp add: set poll_all_def)
    ultimately have "fst (gather rs None []) = Some (mfDigest ?o)" by (simp add: gather_origin)
    with True show ?thesis by (auto simp: origin_answer_def)
  next
    case False
    then have "\<forall>r \<in> set rs. \<not> (mfIsOrigin r \<and> mfErr r = None)"
      by (auto simp: set poll_all_def poll_def split: if_splits sum.splits)
    then have "fst (gather rs None []) = None" by (rule gather_no_origin)
    with False show ?thesis by (auto simp: origin_answer_def split: sum.splits)
  qed
qed

lemma length_filter_mset: "mset xs = mset ys \<Longrightarrow> length (filter P xs) = length (filter P ys)"
  by (metis mset_filter size_mset)

lemma gathered_count:
  assumes "mset rs = mset (poll_all cfg fetch ref)"
  shows "length (filter (\<lambda>r. P (mfDigest r)) (snd (gather rs None []))) = answers cfg fetch ref P"
proof -
  have "length (filter (\<lambda>r. P (mfDigest r)) (snd (gather rs None [])))
      = length (filter (\<lambda>r. (\<not> mfIsOrigin r \<and> mfErr r = None) \<and> P (mfDigest r)) (poll_all cfg fetch ref))"
    by (simp add: gather_votes conj_commute length_filter_mset [OF assms])
  also have "\<dots> = length (filter (\<lambda>m. (\<exists>d. fetch m ref = Inr d) \<and> P (mfDigest (poll fetch ref False m))) (ccMirrors cfg))"
    by (simp add: poll_all_def filter_map comp_def)
  also have "\<dots> = answers cfg fetch ref P"
    unfolding answers_def by (intro arg_cong [where f = length] filter_cong) (auto split: sum.splits)
  finally show ?thesis .
qed

lemma gathered_empty:
  assumes "mset rs = mset (poll_all cfg fetch ref)"
  shows "snd (gather rs None []) = [] \<longleftrightarrow> answers cfg fetch ref (\<lambda>_. True) = 0"
  using gathered_count [OF assms, of "\<lambda>_. True"] by (metis filter_True length_0_conv)

lemma effective_quorum_pos [simp]: "1 \<le> effective_quorum cfg"
  by (simp add: effective_quorum_def)

lemma consensus_result_simps [simp]:
  "resStatus (consensus_result st b m) = st"
  "resTier (consensus_result st b m) = TierConsensus"
  "resRetryable (consensus_result st b m) = b"
  by (simp_all add: consensus_result_def)

section \<open>Decision lemmas\<close>

lemma candidates_iff: "1 \<le> quorum \<Longrightarrow> i \<in> set (candidates votes quorum) \<longleftrightarrow> quorum \<le> vote_count votes i"
proof -
  assume "1 \<le> quorum"
  moreover have "vote_count votes i = 0" if "i \<notin> mfDigest ` set votes"
    using that by (auto simp: vote_count_def filter_empty_conv)
  ultimately show ?thesis by (force simp: candidates_def)
qed

lemma distinct_candidates: "distinct (candidates votes quorum)"
  by (simp add: candidates_def)

lemma distinct_singleton_iff: "distinct xs \<Longrightarrow> (\<exists>x. xs = [x] \<and> P x) \<longleftrightarrow> (\<exists>x. (\<forall>y. y \<in> set xs \<longleftrightarrow> y = x) \<and> P x)"
proof
  assume d: "distinct xs" and "\<exists>x. (\<forall>y. y \<in> set xs \<longleftrightarrow> y = x) \<and> P x"
  then obtain x where "set xs = {x}" "P x" by blast
  with d have "xs = [x]" by (cases xs rule: remdups_adj.cases) auto
  with \<open>P x\<close> show "\<exists>x. xs = [x] \<and> P x" by blast
qed auto

lemma cas_status:
  "resStatus (verifyCASQuorum cfg ref art votes q ho od) =
     (if (ho \<and> (\<exists>d. od = Some d \<and> \<not> digestsEqual d (aDigest art)))
         \<or> int (length (filter (\<lambda>r. digestsEqual (mfDigest r) (aDigest art)) votes)) < q
      then StatusFail else StatusPass)"
  by (auto simp: verifyCASQuorum_def Let_def split: option.splits)

lemma content_status:
  "resStatus (verifyContentIDQuorum hs openf cfg ref art votes q ho od) = StatusPass \<longleftrightarrow>
     (\<exists>i. candidates votes q = [i] \<and> (ho \<longrightarrow> (\<forall>d. od = Some d \<longrightarrow> contentIDsEqual d i))
        \<and> verifyBodyContentID hs openf (aPath art) i = None)"
  by (cases "candidates votes q" rule: remdups_adj.cases)
    (simp_all add: verifyContentIDQuorum_def split: option.splits)

lemma content_status_cases:
  "resStatus (verifyContentIDQuorum hs openf cfg ref art votes q ho od) = StatusPass \<or>
   resStatus (verifyContentIDQuorum hs openf cfg ref art votes q ho od) = StatusFail"
  by (cases "candidates votes q" rule: remdups_adj.cases)
    (simp_all add: verifyContentIDQuorum_def split: option.splits)

lemma digestsEqual_sym: "digestsEqual a b \<longleftrightarrow> digestsEqual b a"
  by (auto simp: digestsEqual_def)

lemma digestsEqual_trans: "digestsEqual a b \<Longrightarrow> digestsEqual b c \<Longrightarrow> digestsEqual a c"
  by (auto simp: digestsEqual_def)

lemma digestsEqual_ssri: "\<not> digestsEqual (''sha512-'' @ x) b"
proof -
  have "Contains (''sha512-'' @ x) ''-''"
    unfolding Contains_iff by (rule exI [of _ "''sha512''"]) simp
  then show ?thesis by (simp add: digestsEqual_def HasPrefix_def)
qed

lemma consensus_state [simp]: "snd (consensus_Verify env w ref art) = w"
  by (simp add: consensus_Verify_def)

lemma cas_tier [simp]: "resTier (verifyCASQuorum cfg ref art votes q ho od) = TierConsensus"
  by (simp add: verifyCASQuorum_def Let_def)

lemma content_tier [simp]: "resTier (verifyContentIDQuorum hs openf cfg ref art votes q ho od) = TierConsensus"
  by (cases "candidates votes q" rule: remdups_adj.cases)
    (simp_all add: verifyContentIDQuorum_def split: option.splits)

lemma consensus_tier_pass:
  assumes "resStatus (fst (fst (consensus_Verify env w ref art))) \<in> {StatusPass, StatusWarn}"
  shows "resTier (fst (fst (consensus_Verify env w ref art))) = TierConsensus
   \<and> \<not> rMutable ref \<and> aDigest art \<noteq> [] \<and> ceFetcher env \<noteq> None"
  using assms by (simp add: consensus_Verify_def Let_def mk_result_def split: option.splits if_splits)


section \<open>The decision in terms of the sources\<close>

definition counted_env :: "consensus_env \<Rightarrow> digest_fetcher \<Rightarrow> ArtifactRef \<Rightarrow> Artifact \<Rightarrow> bool" where
  "counted_env env fetch ref art \<longleftrightarrow>
     arrives_all env \<and> ceFetcher env = Some fetch \<and> \<not> rMutable ref \<and> aDigest art \<noteq> []"

lemma consensus_Verify_counted:
  assumes "counted_env env fetch ref art"
  obtains rs where "mset rs = mset (poll_all (ceCfg env) fetch ref)"
    and "fst (fst (consensus_Verify env w ref art)) =
      (if ccIdentityMode (ceCfg env) = IdentityContentID then
         verifyContentIDQuorum (ceHash env) (ceOpen env) (ceCfg env) ref art (snd (gather rs None []))
           (effective_quorum (ceCfg env)) (ccOriginURL (ceCfg env) \<noteq> []) (fst (gather rs None []))
       else verifyCASQuorum (ceCfg env) ref art (snd (gather rs None []))
           (effective_quorum (ceCfg env)) (ccOriginURL (ceCfg env) \<noteq> []) (fst (gather rs None [])))"
proof
  show "mset (ceArrive env (poll_all (ceCfg env) fetch ref)) = mset (poll_all (ceCfg env) fetch ref)"
    using assms by (simp add: counted_env_def arrives_all_def)
qed (use assms in \<open>simp add: consensus_Verify_def Let_def counted_env_def\<close>)

lemma origin_agrees_iff:
  "origin_agrees P cfg fetch ref \<longleftrightarrow>
     \<not> (ccOriginURL cfg \<noteq> [] \<and> (\<exists>d. origin_answer cfg fetch ref = Some d \<and> \<not> P d))"
  by (auto simp: origin_agrees_def origin_answer_def split: option.splits)

lemma gathered_vote_count:
  "mset rs = mset (poll_all cfg fetch ref) \<Longrightarrow>
   vote_count (snd (gather rs None [])) i = int (answers cfg fetch ref (\<lambda>d. d = i))"
  using gathered_count [of rs cfg fetch ref "\<lambda>d. d = i"] by (simp add: vote_count_def)

text \<open>C6: in the default identity mode an immutable artifact with a digest passes consensus exactly
  when at least the configured quorum of mirrors (never fewer than one) answer with its digest
  and a configured official source, if it answers, agrees. The order of arrival is irrelevant.\<close>

theorem cas_pass_iff:
  assumes "counted_env env fetch ref art" and "ccIdentityMode (ceCfg env) \<noteq> IdentityContentID"
  shows "resStatus (fst (fst (consensus_Verify env w ref art))) = StatusPass \<longleftrightarrow>
      effective_quorum (ceCfg env) \<le> int (answers (ceCfg env) fetch ref (\<lambda>d. digestsEqual d (aDigest art)))
      \<and> origin_agrees (\<lambda>d. digestsEqual d (aDigest art)) (ceCfg env) fetch ref"
proof -
  from assms(1) obtain rs where "mset rs = mset (poll_all (ceCfg env) fetch ref)"
    and "fst (fst (consensus_Verify env w ref art)) = verifyCASQuorum (ceCfg env) ref art (snd (gather rs None []))
           (effective_quorum (ceCfg env)) (ccOriginURL (ceCfg env) \<noteq> []) (fst (gather rs None []))"
    by (rule consensus_Verify_counted [where w = w]) (use assms(2) in auto)
  then show ?thesis
    using gathered_count [of rs "ceCfg env" fetch ref "\<lambda>d. digestsEqual d (aDigest art)"]
    by (auto simp: cas_status gathered_origin origin_agrees_iff)
qed

text \<open>C7: in content-id mode consensus passes exactly when one identity and no other reaches the quorum,
  the official source does not contradict it and the quarantined body hashes to that identity.\<close>

theorem content_pass_iff:
  assumes "counted_env env fetch ref art" and "ccIdentityMode (ceCfg env) = IdentityContentID"
  shows "resStatus (fst (fst (consensus_Verify env w ref art))) = StatusPass \<longleftrightarrow>
      (\<exists>i. (\<forall>j. effective_quorum (ceCfg env) \<le> int (answers (ceCfg env) fetch ref (\<lambda>d. d = j)) \<longleftrightarrow> j = i)
         \<and> origin_agrees (\<lambda>d. contentIDsEqual d i) (ceCfg env) fetch ref
         \<and> verifyBodyContentID (ceHash env) (ceOpen env) (aPath art) i = None)"
proof -
  from assms(1) obtain rs where rs: "mset rs = mset (poll_all (ceCfg env) fetch ref)"
    and v: "fst (fst (consensus_Verify env w ref art)) =
         verifyContentIDQuorum (ceHash env) (ceOpen env) (ceCfg env) ref art (snd (gather rs None []))
           (effective_quorum (ceCfg env)) (ccOriginURL (ceCfg env) \<noteq> []) (fst (gather rs None []))"
    by (rule consensus_Verify_counted [where w = w]) (use assms(2) in auto)
  have "(\<exists>i. candidates (snd (gather rs None [])) (effective_quorum (ceCfg env)) = [i] \<and> Q i) \<longleftrightarrow>
      (\<exists>i. (\<forall>j. effective_quorum (ceCfg env) \<le> int (answers (ceCfg env) fetch ref (\<lambda>d. d = j)) \<longleftrightarrow> j = i) \<and> Q i)" for Q
    by (simp add: distinct_singleton_iff [OF distinct_candidates] candidates_iff gathered_vote_count [OF rs])
  then show ?thesis by (simp add: v content_status gathered_origin [OF rs] origin_agrees_iff) blast
qed

text \<open>A consensus verdict is marked retryable exactly when no mirror answered at all (and, in the
  default mode, the official source did not contradict the artifact): a disagreement is never retryable.\<close>

theorem consensus_retryable_iff:
  assumes "counted_env env fetch ref art"
  shows "resRetryable (fst (fst (consensus_Verify env w ref art))) \<longleftrightarrow>
      answers (ceCfg env) fetch ref (\<lambda>_. True) = 0
      \<and> (ccIdentityMode (ceCfg env) \<noteq> IdentityContentID
         \<longrightarrow> origin_agrees (\<lambda>d. digestsEqual d (aDigest art)) (ceCfg env) fetch ref)"
proof -
  from assms obtain rs where rs: "mset rs = mset (poll_all (ceCfg env) fetch ref)"
    and v: "fst (fst (consensus_Verify env w ref art)) =
      (if ccIdentityMode (ceCfg env) = IdentityContentID then
         verifyContentIDQuorum (ceHash env) (ceOpen env) (ceCfg env) ref art (snd (gather rs None []))
           (effective_quorum (ceCfg env)) (ccOriginURL (ceCfg env) \<noteq> []) (fst (gather rs None []))
       else verifyCASQuorum (ceCfg env) ref art (snd (gather rs None []))
           (effective_quorum (ceCfg env)) (ccOriginURL (ceCfg env) \<noteq> []) (fst (gather rs None [])))"
    by (rule consensus_Verify_counted)
  have cas: "resRetryable (verifyCASQuorum c r a vs q ho od) \<longleftrightarrow>
      \<not> (ho \<and> (\<exists>d. od = Some d \<and> \<not> digestsEqual d (aDigest a))) \<and> vs = []" if "1 \<le> q" for c r a vs q ho od
    using that by (auto simp: verifyCASQuorum_def Let_def split: option.splits)
  have cid: "resRetryable (verifyContentIDQuorum h f c r a vs q ho od) \<longleftrightarrow> vs = []" for h f c r a vs q ho od
    by (cases "candidates vs q" rule: remdups_adj.cases)
      (auto simp: verifyContentIDQuorum_def candidates_def split: option.splits)
  show ?thesis
    by (auto simp: v cas cid gathered_empty [OF rs] gathered_origin [OF rs] origin_agrees_iff)
qed

section \<open>A concrete configuration\<close>

definition mirror_at :: "string \<Rightarrow> ConsensusMirror" where
  "mirror_at n = \<lparr>cmName = n, cmBaseURL = ''https://'' @ n\<rparr>"

definition demo_cfg :: "string \<Rightarrow> ConsensusConfig" where
  "demo_cfg mode = \<lparr>ccQuorum = 2, ccMirrors = [mirror_at ''a'', mirror_at ''b'', mirror_at ''c''], ccOriginURL = ''o'', ccIdentityMode = mode\<rparr>"

text \<open>Mirror c is down, mirrors a and b and the origin answer the same identity.\<close>

definition demo_fetch :: "string \<Rightarrow> digest_fetcher" where
  "demo_fetch d m ref = (if cmName m = ''c'' then Inl ''timeout'' else Inr d)"

definition demo_env :: "string \<Rightarrow> string \<Rightarrow> consensus_env" where
  "demo_env mode d =
     \<lparr>ceCfg = demo_cfg mode, ceFetcher = Some (demo_fetch d), ceArrive = rev,
      ceHash = \<lparr>h_sha256 = (\<lambda>b. b), h_sha384 = (\<lambda>b. b), h_sha512 = (\<lambda>b. b)\<rparr>,
      ceOpen = (\<lambda>p. Inr ''M'')\<rparr>"

definition demo_ref :: ArtifactRef where
  "demo_ref = \<lparr>rProtocol = ''npm'', rName = ''left-pad'', rVersion = ''1.0'', rDigest = [], rUpstream = [], rMutable = False\<rparr>"

definition demo_art :: "string \<Rightarrow> Artifact" where
  "demo_art d = \<lparr>aPath = ''/q/1'', aDigest = d, aSize = 1, aMeta = no_meta\<rparr>"

lemmas demo_defs = demo_env_def demo_cfg_def demo_fetch_def demo_ref_def demo_art_def mirror_at_def

lemma demo_counted: "d \<noteq> [] \<Longrightarrow> counted_env (demo_env mode x) (demo_fetch x) demo_ref (demo_art d)"
  by (simp add: counted_env_def arrives_all_def demo_defs)

theorem cas_pass_iff_witness:
  "resStatus (fst (fst (consensus_Verify (demo_env IdentityCAS ''4d'') () demo_ref (demo_art ''sha256:4d'')))) = StatusPass"
  by (subst cas_pass_iff [OF demo_counted])
    (simp_all add: demo_defs IdentityCAS_def IdentityContentID_def effective_quorum_def answers_def origin_agrees_def
      origin_answer_def digestsEqual_def Contains_def HasPrefix_def TrimPrefix_def, code_simp?)

lemma demo_body: "verifyBodyContentID (ceHash (demo_env m d)) (ceOpen (demo_env m d)) ''/q/1'' ''sha256:4d'' = None"
  unfolding demo_env_def by code_simp

theorem content_pass_iff_witness:
  "resStatus (fst (fst (consensus_Verify (demo_env IdentityContentID ''sha256:4d'') () demo_ref (demo_art ''x'')))) = StatusPass"
  by (subst content_pass_iff [OF demo_counted])
    (use demo_body in \<open>simp_all add: demo_defs effective_quorum_def answers_def origin_agrees_def
      origin_answer_def contentIDsEqual_def\<close>)

theorem consensus_retryable_iff_witness:
  "\<not> resRetryable (fst (fst (consensus_Verify (demo_env IdentityCAS ''4d'') () demo_ref (demo_art ''sha256:4d''))))"
  by (subst consensus_retryable_iff [OF demo_counted]) (simp_all add: demo_defs answers_def)

end
