(* ===== verification/Quarantine.thy ===== *)
theory Quarantine
  imports Consensus
begin

text \<open>
  Streaming an upstream body into a quarantine file (\<^verbatim>\<open>internal/cache/quarantine.go\<close>).

  A reader is the list of what its successive \<^verbatim>\<open>Read\<close> calls return: a chunk and an error,
  \<^const>\<open>None\<close> for nil; an exhausted reader answers end of file. The file system of quarantine
  files has its own fault plan: a failing write stores a prefix of the chunk first. The hash
  state is the list of bytes hashed since the last reset. A reader that never ends is not
  represented: the loop does not return on one.
\<close>

section \<open>The quarantine file system\<close>

datatype read_err = ErrRestartFromBeginning | EOF | ReadErr string

type_synonym read_ev = "bytes \<times> read_err option"

text \<open>A fault is the length of the prefix a write stores and the error, if the call reports one.\<close>

record tmpfs =
  q_files :: "string \<rightharpoonup> bytes"
  q_tick :: nat
  q_fault :: "nat \<Rightarrow> (nat \<times> string option) option"

record quarantine_env =
  qeCreateTemp :: "(string \<rightharpoonup> bytes) \<Rightarrow> string \<Rightarrow> string"
  qeCtx :: "nat \<Rightarrow> string option"
  qeSha256 :: "bytes \<Rightarrow> bytes"

definition q_healthy :: "tmpfs \<Rightarrow> bool" where
  "q_healthy st \<longleftrightarrow> (\<forall>n. q_fault st n = None)"

definition q_io :: "tmpfs \<Rightarrow> (nat \<times> string option) option \<times> tmpfs" where
  "q_io st = (q_fault st (q_tick st), st\<lparr>q_tick := Suc (q_tick st)\<rparr>)"

text \<open>A call other than a write fails with a message.\<close>

definition q_call :: "tmpfs \<Rightarrow> string option \<times> tmpfs" where
  "q_call st =
     (case q_io st of
        (None, st') \<Rightarrow> (None, st')
      | (Some (_, Some e), st') \<Rightarrow> (Some e, st')
      | (Some (_, None), st') \<Rightarrow> (None, st'))"

definition set_file :: "string \<Rightarrow> bytes \<Rightarrow> tmpfs \<Rightarrow> tmpfs" where
  "set_file path c st = st\<lparr>q_files := (q_files st)(path \<mapsto> c)\<rparr>"

definition file_bytes :: "tmpfs \<Rightarrow> string \<Rightarrow> bytes" where
  "file_bytes st path = (case q_files st path of None \<Rightarrow> [] | Some c \<Rightarrow> c)"

text \<open>\<^verbatim>\<open>f.Write\<close> at the end of the open file, with the source's two checks on its result.\<close>

definition q_write :: "string \<Rightarrow> bytes \<Rightarrow> tmpfs \<Rightarrow> string option \<times> tmpfs" where
  "q_write path chunk st =
     (case q_io st of
        (None, st') \<Rightarrow> (None, set_file path (file_bytes st' path @ chunk) st')
      | (Some (k, err), st') \<Rightarrow>
          let st2 = set_file path (file_bytes st' path @ take k chunk) st' in
          (case err of
             Some e \<Rightarrow> (Some e, st2)
           | None \<Rightarrow> if k < length chunk then (Some ''short write'', st2) else (None, st2)))"

text \<open>\<^verbatim>\<open>_ = os.Remove(path)\<close>: a failure is ignored and leaves the file.\<close>

definition os_Remove :: "string \<Rightarrow> tmpfs \<Rightarrow> tmpfs" where
  "os_Remove path st =
     (case q_call st of
        (None, st') \<Rightarrow> st'\<lparr>q_files := (q_files st')(path := None)\<rparr>
      | (Some _, st') \<Rightarrow> st')"

definition resetQuarantine :: "string \<Rightarrow> tmpfs \<Rightarrow> string option \<times> tmpfs" where
  "resetQuarantine path st =
     (case q_call st of
        (Some e, st1) \<Rightarrow> (Some (''cache: quarantine restart seek: '' @ e), st1)
      | (None, st1) \<Rightarrow>
          (case q_call st1 of
             (Some e, st2) \<Rightarrow> (Some (''cache: quarantine restart truncate: '' @ e), st2)
           | (None, st2) \<Rightarrow> (None, set_file path [] st2)))"

section \<open>Streaming\<close>

text \<open>
  The copy loop both entry points share; they differ in what a failure does with the file:
  \<^verbatim>\<open>Quarantine\<close> removes it, \<^verbatim>\<open>QuarantineAt\<close> keeps it for a later resume.
\<close>

definition abandon :: "bool \<Rightarrow> string \<Rightarrow> tmpfs \<Rightarrow> tmpfs" where
  "abandon durable path st = (if durable then st else os_Remove path st)"

fun copy_loop ::
  "quarantine_env \<Rightarrow> bool \<Rightarrow> string \<Rightarrow> read_ev list \<Rightarrow> nat \<Rightarrow> bytes \<Rightarrow> int \<Rightarrow> tmpfs
   \<Rightarrow> (string + bytes \<times> int) \<times> tmpfs" where
  "copy_loop env durable path [] i hashed n st =
     (case qeCtx env i of
        Some e \<Rightarrow> (Inl (''cache: quarantine write: '' @ e), abandon durable path st)
      | None \<Rightarrow> (Inr (hashed, n), st))"
| "copy_loop env durable path ((chunk, readErr) # rs) i hashed n st =
     (case qeCtx env i of
        Some e \<Rightarrow> (Inl (''cache: quarantine write: '' @ e), abandon durable path st)
      | None \<Rightarrow>
          (case (if chunk = [] then (None, st) else q_write path chunk st) of
             (Some e, st1) \<Rightarrow> (Inl (''cache: quarantine write: '' @ e), abandon durable path st1)
           | (None, st1) \<Rightarrow>
               let hashed1 = hashed @ chunk; n1 = n + int (length chunk) in
               (case readErr of
                  None \<Rightarrow> copy_loop env durable path rs (Suc i) hashed1 n1 st1
                | Some ErrRestartFromBeginning \<Rightarrow>
                    (case resetQuarantine path st1 of
                       (Some e, st2) \<Rightarrow> (Inl e, abandon durable path st2)
                     | (None, st2) \<Rightarrow> copy_loop env durable path rs (Suc i) [] 0 st2)
                | Some EOF \<Rightarrow> (Inr (hashed1, n1), st1)
                | Some (ReadErr e) \<Rightarrow>
                    (Inl (''cache: quarantine write: '' @ e), abandon durable path st1))))"

definition quarantine_artifact :: "quarantine_env \<Rightarrow> string \<Rightarrow> bytes \<Rightarrow> int \<Rightarrow> UpstreamMeta \<Rightarrow> Artifact" where
  "quarantine_artifact env path hashed n umeta =
     \<lparr>aPath = path, aDigest = ''sha256:'' @ hex_EncodeToString (qeSha256 env hashed), aSize = n, aMeta = umeta\<rparr>"

text \<open>The copy loop and the final \<^verbatim>\<open>f.Close()\<close>.\<close>

definition stream_into ::
  "quarantine_env \<Rightarrow> bool \<Rightarrow> string \<Rightarrow> read_ev list \<Rightarrow> bytes \<Rightarrow> UpstreamMeta \<Rightarrow> tmpfs \<Rightarrow> (string + Artifact) \<times> tmpfs" where
  "stream_into env durable path rs existing umeta st =
     (case copy_loop env durable path rs 0 existing (int (length existing)) st of
        (Inl e, st1) \<Rightarrow> (Inl e, st1)
      | (Inr (hashed, n), st1) \<Rightarrow>
          (case q_call st1 of
             (Some e, st2) \<Rightarrow> (Inl (''cache: quarantine close: '' @ e), abandon durable path st2)
           | (None, st2) \<Rightarrow> (Inr (quarantine_artifact env path hashed n umeta), st2)))"

text \<open>The temporary file \<^verbatim>\<open>Quarantine\<close> writes to.\<close>

definition with_temp ::
  "quarantine_env \<Rightarrow> string \<Rightarrow> tmpfs \<Rightarrow> (string \<Rightarrow> tmpfs \<Rightarrow> (string + 'a) \<times> tmpfs) \<Rightarrow> (string + 'a) \<times> tmpfs" where
  "with_temp env dir st k =
     (case q_call st of
        (Some e, st1) \<Rightarrow> (Inl (''cache: quarantine create temp: '' @ e), st1)
      | (None, st1) \<Rightarrow> let path = qeCreateTemp env (q_files st1) dir in k path (set_file path [] st1))"

definition Quarantine ::
  "quarantine_env \<Rightarrow> string \<Rightarrow> read_ev list \<Rightarrow> UpstreamMeta \<Rightarrow> tmpfs \<Rightarrow> (string + Artifact) \<times> tmpfs" where
  "Quarantine env dir rs umeta st = with_temp env dir st (\<lambda>path st. stream_into env False path rs [] umeta st)"

text \<open>
  \<^verbatim>\<open>QuarantineAt\<close>: make the directory, open or create the file, stat it; a non-empty file is
  read from its start into the hash and the position moved to its end.
\<close>

definition q_then :: "string \<Rightarrow> tmpfs \<Rightarrow> (tmpfs \<Rightarrow> (string + 'a) \<times> tmpfs) \<Rightarrow> (string + 'a) \<times> tmpfs" where
  "q_then what st k =
     (case q_call st of
        (Some e, st') \<Rightarrow> (Inl (''cache: quarantine '' @ what @ '': '' @ e), st')
      | (None, st') \<Rightarrow> k st')"

definition with_partial ::
  "string \<Rightarrow> tmpfs \<Rightarrow> (bytes \<Rightarrow> tmpfs \<Rightarrow> (string + 'a) \<times> tmpfs) \<Rightarrow> (string + 'a) \<times> tmpfs" where
  "with_partial path st k =
     q_then ''mkdir'' st (\<lambda>st.
     q_then ''open'' st (\<lambda>st.
       let st1 = set_file path (file_bytes st path) st in
       q_then ''stat'' st1 (\<lambda>st.
         let existing = file_bytes st path in
         if existing \<noteq> [] then
           q_then ''seek start'' st (\<lambda>st.
           q_then ''hash existing'' st (\<lambda>st.
           q_then ''seek end'' st (\<lambda>st. k existing st)))
         else k [] st)))"

definition QuarantineAt ::
  "quarantine_env \<Rightarrow> string \<Rightarrow> read_ev list \<Rightarrow> UpstreamMeta \<Rightarrow> tmpfs \<Rightarrow> (string + Artifact) \<times> tmpfs" where
  "QuarantineAt env path rs umeta st = with_partial path st (\<lambda>existing st. stream_into env True path rs existing umeta st)"

definition PartialSize :: "string \<Rightarrow> tmpfs \<Rightarrow> int \<times> tmpfs" where
  "PartialSize path st =
     (case q_call st of
        (Some _, st') \<Rightarrow> (0, st')
      | (None, st') \<Rightarrow> ((case q_files st' path of None \<Rightarrow> 0 | Some c \<Rightarrow> int (length c)), st'))"

definition safe_char :: "char \<Rightarrow> char" where
  "safe_char c =
     (if (CHR ''a'' \<le> c \<and> c \<le> CHR ''z'') \<or> (CHR ''A'' \<le> c \<and> c \<le> CHR ''Z'') \<or> (CHR ''0'' \<le> c \<and> c \<le> CHR ''9'')
         \<or> c = CHR ''-'' \<or> c = CHR ''_''
      then c else CHR ''-'')"

text \<open>The directory and the file name that \<^verbatim>\<open>filepath.Join\<close> puts together.\<close>

definition DurablePartialPath :: "string \<Rightarrow> string \<Rightarrow> string \<Rightarrow> string \<times> string" where
  "DurablePartialPath tempDir dir digest =
     (if dir = [] then tempDir else dir, ''partial-'' @ map safe_char digest)"

lemmas [store_simps] = q_call_def q_io_def q_write_def resetQuarantine_def os_Remove_def


section \<open>What a reader delivers\<close>

text \<open>The abstract view: the bytes after the last restart, or the error that ends the stream.\<close>

fun delivered :: "bytes \<Rightarrow> read_ev list \<Rightarrow> string + bytes" where
  "delivered acc [] = Inr acc"
| "delivered acc ((c, None) # rs) = delivered (acc @ c) rs"
| "delivered acc ((c, Some ErrRestartFromBeginning) # rs) = delivered [] rs"
| "delivered acc ((c, Some EOF) # rs) = Inr (acc @ c)"
| "delivered acc ((c, Some (ReadErr e)) # rs) = Inl e"

definition covers :: "tmpfs \<Rightarrow> string \<Rightarrow> bytes \<Rightarrow> int \<Rightarrow> bool" where
  "covers st path hashed n \<longleftrightarrow> q_files st path = Some hashed \<and> n = int (length hashed)"

lemma set_file_simps [simp]:
  "q_files (set_file path c st) = (q_files st)(path \<mapsto> c)"
  "q_fault (set_file path c st) = q_fault st"
  by (simp_all add: set_file_def)

lemma q_call_frame [simp]:
  "q_files (snd (q_call st)) = q_files st"
  "q_fault (snd (q_call st)) = q_fault st"
  by (simp_all add: q_call_def q_io_def split: option.splits prod.splits)

lemma q_call_files: "q_call st = (r, st') \<Longrightarrow> q_files st' = q_files st"
  using q_call_frame(1) [of st] by simp

lemma q_call_bytes: "q_call st = (r, st') \<Longrightarrow> file_bytes st' path = file_bytes st path"
  by (simp add: file_bytes_def q_call_files)

lemma q_write_frame [simp]: "q_fault (snd (q_write path chunk st)) = q_fault st"
  by (simp add: q_write_def q_io_def Let_def split: option.splits prod.splits)

lemma resetQuarantine_frame [simp]: "q_fault (snd (resetQuarantine path st)) = q_fault st"
  by (simp add: resetQuarantine_def q_call_def q_io_def split: option.splits prod.splits)

lemma q_write_other: "p \<noteq> path \<Longrightarrow> q_files (snd (q_write path chunk st)) p = q_files st p"
  by (simp add: q_write_def q_io_def Let_def split: option.splits prod.splits)

lemma resetQuarantine_other: "p \<noteq> path \<Longrightarrow> q_files (snd (resetQuarantine path st)) p = q_files st p"
  by (simp add: resetQuarantine_def q_call_def q_io_def split: option.splits prod.splits)

lemma abandon_other: "p \<noteq> path \<Longrightarrow> q_files (abandon durable path st) p = q_files st p"
  by (simp add: abandon_def os_Remove_def q_call_def q_io_def split: option.splits prod.splits)

lemma abandon_fault [simp]: "q_fault (abandon durable path st) = q_fault st"
  by (simp add: abandon_def os_Remove_def q_call_def q_io_def split: option.splits prod.splits)

lemma q_healthy_call: "q_healthy st \<Longrightarrow> q_call st = (None, st\<lparr>q_tick := Suc (q_tick st)\<rparr>)"
  by (simp add: q_healthy_def q_call_def q_io_def)

lemma q_healthy_write:
  "q_healthy st \<Longrightarrow> q_write path chunk st =
     (None, set_file path (file_bytes st path @ chunk) (st\<lparr>q_tick := Suc (q_tick st)\<rparr>))"
  by (simp add: q_healthy_def q_write_def q_io_def file_bytes_def)

lemma q_healthy_tick [simp]: "q_healthy (st\<lparr>q_tick := n\<rparr>) = q_healthy st"
  by (simp add: q_healthy_def)

lemma q_healthy_set_file [simp]: "q_healthy (set_file p c st) = q_healthy st"
  by (simp add: q_healthy_def)

lemma covers_tick [simp]: "covers (st\<lparr>q_tick := k\<rparr>) path c n = covers st path c n"
  by (simp add: covers_def)

lemma covers_set_file [simp]: "covers (set_file path c st) path c' n \<longleftrightarrow> c' = c \<and> n = int (length c')"
  by (auto simp: covers_def)

lemma covers_file_bytes: "covers st path c n \<Longrightarrow> file_bytes st path = c"
  by (simp add: covers_def file_bytes_def)

lemma write_covers:
  assumes "covers st path hashed n" and "(if chunk = [] then (None, st) else q_write path chunk st) = (None, st')"
  shows "covers st' path (hashed @ chunk) (n + int (length chunk))"
  using assms
  by (auto simp: covers_def q_write_def q_io_def Let_def file_bytes_def split: if_splits option.splits prod.splits)

lemma reset_covers: "resetQuarantine path st = (None, st') \<Longrightarrow> covers st' path [] 0"
  by (auto simp: resetQuarantine_def q_call_def q_io_def split: option.splits prod.splits)

lemma copy_loop_ok:
  assumes "covers st path hashed n" and "copy_loop env durable path rs i hashed n st = (Inr (h, m), st')"
  shows "covers st' path h m \<and> delivered hashed rs = Inr h"
  using assms
proof (induction env durable path rs i hashed n st rule: copy_loop.induct)
  case (2 env durable path chunk readErr rs i hashed n st)
  obtain w st1 where w: "(if chunk = [] then (None, st) else q_write path chunk st) = (w, st1)"
    by (metis surj_pair)
  have "qeCtx env i = None" and "w = None"
    using "2.prems"(2) w by (auto split: option.splits)
  with w "2.prems"(1) have cov: "covers st1 path (hashed @ chunk) (n + int (length chunk))"
    using write_covers by metis
  consider "readErr = None" | "readErr = Some ErrRestartFromBeginning" | "readErr = Some EOF"
    | e where "readErr = Some (ReadErr e)"
    by (metis option.exhaust read_err.exhaust)
  then show ?case
  proof cases
    case 1
    with "2.IH"(1) [OF \<open>qeCtx env i = None\<close> w [symmetric] \<open>w = None\<close> refl refl] "2.prems" w cov \<open>qeCtx env i = None\<close> \<open>w = None\<close>
    show ?thesis by simp
  next
    case 2
    obtain x st2 where r: "resetQuarantine path st1 = (x, st2)" by (metis surj_pair)
    then have "x = None"
      using "2.prems"(2) w \<open>qeCtx env i = None\<close> \<open>w = None\<close> 2 by (auto split: option.splits)
    with r have "covers st2 path [] 0" using reset_covers by simp
    with "2.IH"(2) [OF \<open>qeCtx env i = None\<close> w [symmetric] \<open>w = None\<close> refl refl 2 refl r [symmetric] \<open>x = None\<close>]
      "2.prems"(2) w r 2 \<open>qeCtx env i = None\<close> \<open>w = None\<close> \<open>x = None\<close>
    show ?thesis by simp
  qed (use "2.prems"(2) w cov \<open>qeCtx env i = None\<close> \<open>w = None\<close> in auto)
qed (auto split: option.splits)

lemma copy_loop_live:
  assumes "q_healthy st" and "\<And>k. qeCtx env k = None" and "covers st path hashed n"
    and "delivered hashed rs = Inr b"
  shows "\<exists>st'. copy_loop env durable path rs i hashed n st = (Inr (b, int (length b)), st') \<and> q_healthy st'"
  using assms(1,3,4)
proof (induction hashed rs arbitrary: i n st rule: delivered.induct)
  case (2 acc c rs)
  then show ?case
    using assms(2)
    by (auto simp: q_healthy_write covers_file_bytes covers_def [symmetric] Let_def)
      (auto simp: covers_def)
next
  case (3 acc c rs)
  have "\<exists>st1. (if c = [] then (None, st) else q_write path c st) = (None, st1) \<and> q_healthy st1"
    using "3.prems"(1) by (auto simp: q_healthy_write)
  then obtain st1 where st1: "(if c = [] then (None, st) else q_write path c st) = (None, st1)" "q_healthy st1" by blast
  have "resetQuarantine path st1 = (None, set_file path [] (st1\<lparr>q_tick := Suc (Suc (q_tick st1))\<rparr>))"
    using st1(2) by (simp add: resetQuarantine_def q_healthy_call)
  with st1 "3.IH" [of "set_file path [] (st1\<lparr>q_tick := Suc (Suc (q_tick st1))\<rparr>)" 0 "Suc i"] "3.prems" assms(2)
  show ?case by simp
qed (use assms(2) in \<open>auto simp: q_healthy_write covers_def\<close>)

lemma copy_loop_other:
  "p \<noteq> path \<Longrightarrow> q_files (snd (copy_loop env durable path rs i hashed n st)) p = q_files st p"
proof (induction env durable path rs i hashed n st rule: copy_loop.induct)
  case (2 env durable path chunk readErr rs i hashed n st)
  obtain w st1 where w: "(if chunk = [] then (None, st) else q_write path chunk st) = (w, st1)"
    by (metis surj_pair)
  then have st1: "q_files st1 p = q_files st p"
    using q_write_other [OF "2.prems", of chunk st] by (metis prod.inject snd_conv)
  obtain x st2 where r: "resetQuarantine path st1 = (x, st2)" by (metis surj_pair)
  then have st2: "q_files st2 p = q_files st p"
    using resetQuarantine_other [OF "2.prems", of st1] st1 by simp
  show ?case
    using "2.IH" "2.prems" w r st1 st2
    by (auto simp: abandon_other Let_def split: option.splits read_err.splits)
qed (simp add: abandon_other split: option.splits)

lemma copy_loop_fault [simp]: "q_fault (snd (copy_loop env durable path rs i hashed n st)) = q_fault st"
proof (induction env durable path rs i hashed n st rule: copy_loop.induct)
  case (2 env durable path chunk readErr rs i hashed n st)
  obtain w st1 where w: "(if chunk = [] then (None, st) else q_write path chunk st) = (w, st1)"
    by (metis surj_pair)
  then have st1: "q_fault st1 = q_fault st"
    using q_write_frame [of path chunk st] by (metis prod.inject snd_conv)
  obtain x st2 where r: "resetQuarantine path st1 = (x, st2)" by (metis surj_pair)
  then have st2: "q_fault st2 = q_fault st"
    using resetQuarantine_frame [of path st1] st1 by simp
  show ?case
    using "2.IH" w r st1 st2
    by (auto simp: Let_def split: option.splits read_err.splits)
qed (simp split: option.splits)

text \<open>On a healthy file system a failed non-durable copy removes its file.\<close>

lemma copy_loop_cleanup:
  assumes "q_healthy st" and "copy_loop env False path rs i hashed n st = (Inl e, st')"
  shows "q_files st' path = None"
  using assms
proof (induction env False path rs i hashed n st rule: copy_loop.induct)
  case (2 env path chunk readErr rs i hashed n st)
  have rm: "q_files (abandon False path s) path = None" if "q_healthy s" for s
    using that by (simp add: abandon_def os_Remove_def q_healthy_call)
  define st1 where "st1 = snd (if chunk = [] then (None, st) else q_write path chunk st)"
  have w: "(if chunk = [] then (None, st) else q_write path chunk st) = (None, st1)" and h1: "q_healthy st1"
    using "2.prems"(1) by (simp_all add: st1_def q_healthy_write)
  have r: "resetQuarantine path st1 = (None, set_file path [] (st1\<lparr>q_tick := Suc (Suc (q_tick st1))\<rparr>))"
    using h1 by (simp add: resetQuarantine_def q_healthy_call)
  show ?case
    using "2.prems" "2.hyps"(1) [OF _ w [symmetric] refl refl refl] "2.hyps"(2) [OF _ w [symmetric] refl refl refl _ refl r [symmetric] refl]
      w r h1 rm [OF h1] rm [OF "2.prems"(1)]
    by (auto simp: Let_def split: option.splits read_err.splits)
qed (auto simp: abandon_def os_Remove_def q_healthy_call split: option.splits)

lemma q_write_grows: "\<exists>x. file_bytes (snd (q_write path chunk st)) path = file_bytes st path @ x"
  by (auto simp: q_write_def q_io_def Let_def file_bytes_def split: option.splits prod.splits)

text \<open>A durable copy of a stream with no restart only ever appends.\<close>

lemma copy_loop_durable:
  assumes "\<forall>ev \<in> set rs. snd ev \<noteq> Some ErrRestartFromBeginning"
  shows "\<exists>x. file_bytes (snd (copy_loop env True path rs i hashed n st)) path = file_bytes st path @ x"
  using assms
proof (induction env True path rs i hashed n st rule: copy_loop.induct)
  case (2 env path chunk readErr rs i hashed n st)
  obtain w st1 where w: "(if chunk = [] then (None, st) else q_write path chunk st) = (w, st1)"
    by (metis surj_pair)
  then obtain x where x: "file_bytes st1 path = file_bytes st path @ x"
    using q_write_grows [of path chunk st] by (metis append_Nil2 prod.inject snd_conv)
  show ?case
  proof (cases "qeCtx env i = None \<and> w = None \<and> readErr = None")
    case True
    then obtain y where "file_bytes (snd (copy_loop env True path rs (Suc i) (hashed @ chunk) (n + int (length chunk)) st1)) path
        = file_bytes st1 path @ y"
      using "2.hyps"(1) [OF _ w [symmetric] _ refl refl] "2.prems" by auto
    with True w x show ?thesis by (auto simp: Let_def)
  next
    case False
    then have "snd (copy_loop env True path ((chunk, readErr) # rs) i hashed n st) = st \<or>
        snd (copy_loop env True path ((chunk, readErr) # rs) i hashed n st) = st1"
      using w "2.prems" by (auto simp: abandon_def Let_def split: option.splits read_err.splits)
    with x show ?thesis by (metis append_Nil2)
  qed
qed (auto simp: abandon_def split: option.splits)

section \<open>Properties\<close>

text \<open>What an artifact handed to \<^verbatim>\<open>Store\<close> says of its file.\<close>

definition describes :: "quarantine_env \<Rightarrow> tmpfs \<Rightarrow> Artifact \<Rightarrow> bytes \<Rightarrow> bool" where
  "describes env st art c \<longleftrightarrow>
     q_files st (aPath art) = Some c \<and> aSize art = int (length c)
     \<and> aDigest art = ''sha256:'' @ hex_EncodeToString (qeSha256 env c)"

lemma sha256_quarantined: "describes env st art c \<Longrightarrow> HasPrefix (aDigest art) ''sha256:''"
  by (simp add: describes_def HasPrefix_def)

lemma stream_into_ok:
  assumes "stream_into env durable path rs existing umeta st = (Inr art, st')" and "q_files st path = Some existing"
  shows "\<exists>c. describes env st' art c \<and> delivered existing rs = Inr c \<and> aPath art = path"
proof -
  obtain h m st1 where c: "copy_loop env durable path rs 0 existing (int (length existing)) st = (Inr (h, m), st1)"
    using assms(1) by (auto simp: stream_into_def split: sum.splits prod.splits)
  have "covers st1 path h m" "delivered existing rs = Inr h"
    using copy_loop_ok [OF _ c] assms(2) by (simp_all add: covers_def)
  moreover have "q_files st' = q_files st1" and "art = quarantine_artifact env path h m umeta"
    using assms(1) c by (auto simp: stream_into_def split: option.splits prod.splits dest: q_call_files)
  ultimately show ?thesis
    by (auto simp: describes_def covers_def quarantine_artifact_def)
qed

lemma q_then_ok:
  "q_then what st k = (Inr x, st') \<longleftrightarrow> (\<exists>st1. q_call st = (None, st1) \<and> k st1 = (Inr x, st'))"
  by (auto simp: q_then_def split: option.splits prod.splits)

text \<open>an artifact that \<^verbatim>\<open>Quarantine\<close> returns names an existing file, and its digest and size are
  those of the file's final bytes, which are exactly what the reader delivered after its last restart.\<close>

theorem Quarantine_describes_file:
  assumes "Quarantine env dir rs umeta st = (Inr art, st')"
  shows "\<exists>c. describes env st' art c \<and> delivered [] rs = Inr c"
  using assms
  by (auto simp: Quarantine_def with_temp_def Let_def split: option.splits prod.splits dest!: stream_into_ok)

lemma QuarantineAt_file:
  assumes "QuarantineAt env path rs umeta st = (Inr art, st')"
  shows "\<exists>c. describes env st' art c \<and> delivered (file_bytes st path) rs = Inr c \<and> aPath art = path"
proof -
  have "\<exists>s. stream_into env True path rs (file_bytes st path) umeta s = (Inr art, st')
      \<and> q_files s path = Some (file_bytes st path)"
    using assms
    by (auto simp: QuarantineAt_def with_partial_def q_then_ok Let_def file_bytes_def split: if_splits dest!: q_call_files)
  then show ?thesis using stream_into_ok by blast
qed

text \<open>after a resumed fill by \<^verbatim>\<open>QuarantineAt\<close> the digest and the size cover the whole object: the bytes
  already on disk followed by what the reader delivered, or only the latter after a restart.\<close>

theorem QuarantineAt_describes_file:
  assumes "QuarantineAt env path rs umeta st = (Inr art, st')"
  shows "\<exists>c. describes env st' art c \<and> delivered (file_bytes st path) rs = Inr c \<and> aPath art = path"
  using assms by (rule QuarantineAt_file)

text \<open>On a healthy file system with no cancellation, \<^verbatim>\<open>Quarantine\<close> succeeds on every reader that reaches
  the end of its stream, whatever restarts it makes.\<close>

theorem Quarantine_succeeds:
  assumes "q_healthy st" and "\<And>k. qeCtx env k = None" and "delivered [] rs = Inr c"
  shows "\<exists>art st'. Quarantine env dir rs umeta st = (Inr art, st') \<and> describes env st' art c"
proof -
  define path where "path = qeCreateTemp env (q_files st) dir"
  define st1 where "st1 = set_file path [] (st\<lparr>q_tick := Suc (q_tick st)\<rparr>)"
  have st1: "q_healthy st1" "covers st1 path [] 0" using assms(1) by (simp_all add: st1_def)
  then obtain st2 where c: "copy_loop env False path rs 0 [] 0 st1 = (Inr (c, int (length c)), st2)"
    and h: "q_healthy st2"
    using copy_loop_live [OF st1(1) assms(2) st1(2) assms(3)] by blast
  have "q_files st2 path = Some c" using copy_loop_ok [OF st1(2) c] by (simp add: covers_def)
  then show ?thesis
    using assms(1) c h
    by (simp add: Quarantine_def with_temp_def q_healthy_call path_def [symmetric] st1_def [symmetric] stream_into_def
        Let_def describes_def quarantine_artifact_def)
qed

text \<open>A failed \<^verbatim>\<open>Quarantine\<close> leaves no file behind on a healthy file system.\<close>

theorem Quarantine_no_residue:
  assumes "q_healthy st" and "qeCreateTemp env (q_files st) dir \<notin> dom (q_files st)"
    and "Quarantine env dir rs umeta st = (Inl e, st')"
  shows "q_files st' = q_files st"
proof -
  define path where "path = qeCreateTemp env (q_files st) dir"
  define st1 where "st1 = set_file path [] (st\<lparr>q_tick := Suc (q_tick st)\<rparr>)"
  have h: "q_healthy st1" using assms(1) by (simp add: st1_def)
  have "\<exists>st2. copy_loop env False path rs 0 [] 0 st1 = (Inl e, st') \<or>
     (\<exists>x. copy_loop env False path rs 0 [] 0 st1 = (Inr x, st2) \<and> fst (q_call st2) \<noteq> None)"
    using assms(1,3)
    by (auto simp: Quarantine_def with_temp_def q_healthy_call path_def [symmetric] st1_def [symmetric] stream_into_def
        Let_def split: sum.splits option.splits prod.splits)
  moreover have "fst (q_call st2) = None" if "copy_loop env False path rs 0 [] 0 st1 = (x, st2)" for x st2
    using that h copy_loop_fault [of env False path rs 0 "[]" 0 st1]
    by (simp add: q_healthy_def q_call_def q_io_def)
  ultimately have loop: "copy_loop env False path rs 0 [] 0 st1 = (Inl e, st')" by metis
  have "q_files st' p = q_files st p" for p
    using copy_loop_cleanup [OF h loop] copy_loop_other [of p path env False rs 0 "[]" 0 st1] loop assms(2)
    by (cases "p = path") (auto simp: st1_def path_def dom_def)
  then show ?thesis by blast
qed

text \<open>A failed \<^verbatim>\<open>QuarantineAt\<close> keeps the progress: unless the stream restarted, the bytes already on
  disk stay a prefix of the file.\<close>

theorem QuarantineAt_keeps_progress:
  assumes "\<forall>ev \<in> set rs. snd ev \<noteq> Some ErrRestartFromBeginning"
    and "QuarantineAt env path rs umeta st = (Inl e, st')"
  shows "\<exists>x. file_bytes st' path = file_bytes st path @ x"
proof -
  have si: "\<exists>x. file_bytes (snd (stream_into env True path rs ex umeta s)) path = file_bytes s path @ x" for ex s
    using copy_loop_durable [OF assms(1), of env path 0 ex "int (length ex)" s]
    by (auto simp: stream_into_def abandon_def split: sum.splits option.splits prod.splits
        dest: q_call_bytes) (metis q_call_bytes)+
  have qt: "\<exists>x. file_bytes (snd (q_then w s k)) path = file_bytes s path @ x"
    if "\<And>s1. \<exists>x. file_bytes (snd (k s1)) path = file_bytes s1 path @ x" for w s and k :: "tmpfs \<Rightarrow> (string + Artifact) \<times> tmpfs"
    using that by (auto simp: q_then_def split: option.splits prod.splits dest: q_call_bytes)
      (metis q_call_bytes snd_conv, metis q_call_bytes append_Nil2)
  have fb: "file_bytes (set_file path (file_bytes s path) s) path = file_bytes s path" for s
    by (simp add: file_bytes_def)
  have step: "\<exists>x. file_bytes (snd (q_then w (set_file path (file_bytes s path) s) k)) path = file_bytes s path @ x"
    if "\<And>s1. \<exists>x. file_bytes (snd (k s1)) path = file_bytes s1 path @ x" for w s and k :: "tmpfs \<Rightarrow> (string + Artifact) \<times> tmpfs"
    using qt [OF that, of w "set_file path (file_bytes s path) s"] by (simp add: fb)
  have "\<exists>x. file_bytes (snd (QuarantineAt env path rs umeta st)) path = file_bytes st path @ x"
    unfolding QuarantineAt_def with_partial_def Let_def by (intro qt step) (auto intro!: qt si)
  with assms(2) show ?thesis by simp
qed

section \<open>Concrete runs\<close>

definition demo_q :: quarantine_env where
  "demo_q = \<lparr>qeCreateTemp = (\<lambda>fs dir. dir @ ''/t1''), qeCtx = (\<lambda>_. None), qeSha256 = (\<lambda>b. b)\<rparr>"

definition demo_fs :: tmpfs where
  "demo_fs = \<lparr>q_files = (\<lambda>p. if p = ''/q/p'' then Some ''ab'' else None), q_tick = 0, q_fault = (\<lambda>_. None)\<rparr>"

definition demo_rs :: "read_ev list" where
  "demo_rs = [(''ab'', None), (''c'', Some ErrRestartFromBeginning), (''xy'', Some EOF)]"

definition demo_broken :: "read_ev list" where
  "demo_broken = [(''cd'', None), ([], Some (ReadErr ''reset''))]"

lemmas demo_q_defs = demo_q_def demo_fs_def demo_rs_def demo_broken_def

lemma demo_healthy: "q_healthy demo_fs"
  by (simp add: q_healthy_def demo_fs_def)

lemma demo_ctx: "qeCtx demo_q k = None"
  by (simp add: demo_q_def)

lemma demo_delivered: "delivered [] demo_rs = Inr ''xy''" "delivered ''ab'' demo_broken = Inl ''reset''"
  by (simp_all add: demo_q_defs)

theorem Quarantine_succeeds_witness:
  "\<exists>art st'. Quarantine demo_q ''/q'' demo_rs no_meta demo_fs = (Inr art, st') \<and> describes demo_q st' art ''xy''"
  by (rule Quarantine_succeeds [OF demo_healthy demo_ctx demo_delivered(1)])

lemmas run_simps = demo_q_defs Quarantine_def with_temp_def QuarantineAt_def with_partial_def q_then_def stream_into_def store_simps
  set_file_def file_bytes_def Let_def abandon_def

theorem Quarantine_describes_file_witness:
  "\<exists>c. describes demo_q (snd (Quarantine demo_q ''/q'' demo_rs no_meta demo_fs))
        (quarantine_artifact demo_q ''/q/t1'' ''xy'' 2 no_meta) c \<and> delivered [] demo_rs = Inr c"
  by (rule Quarantine_describes_file [of _ "''/q''" _ no_meta demo_fs]) (simp add: run_simps)

theorem QuarantineAt_describes_file_witness:
  "\<exists>c. describes demo_q (snd (QuarantineAt demo_q ''/q/p'' [(''cd'', Some EOF)] no_meta demo_fs))
        (quarantine_artifact demo_q ''/q/p'' ''abcd'' 4 no_meta) c
     \<and> delivered (file_bytes demo_fs ''/q/p'') [(''cd'', Some EOF)] = Inr c
     \<and> aPath (quarantine_artifact demo_q ''/q/p'' ''abcd'' 4 no_meta) = ''/q/p''"
  by (rule QuarantineAt_describes_file [of _ _ _ no_meta demo_fs]) (simp add: run_simps)

theorem Quarantine_no_residue_witness:
  "q_files (snd (Quarantine demo_q ''/q'' demo_broken no_meta demo_fs)) = q_files demo_fs"
  by (rule Quarantine_no_residue [OF demo_healthy, of demo_q "''/q''" demo_broken no_meta
        "''cache: quarantine write: reset''"]) (simp_all add: run_simps dom_def)

theorem QuarantineAt_keeps_progress_witness:
  "\<exists>x. file_bytes (snd (QuarantineAt demo_q ''/q/p'' demo_broken no_meta demo_fs)) ''/q/p''
      = file_bytes demo_fs ''/q/p'' @ x"
  by (rule QuarantineAt_keeps_progress [of demo_broken demo_q _ no_meta _ "''cache: quarantine write: reset''"])
    (simp_all add: run_simps)

end
