(* ===== verification/Freshness.thy ===== *)
theory Freshness
  imports Artifact
begin

text \<open>
  Freshness of mutable entries (\<^verbatim>\<open>internal/cache/xfetch.go\<close>): the two time-to-live
  sentinels, the hard expiry and the probabilistic early refresh. Durations are \<^verbatim>\<open>int64\<close>
  nanoseconds and wrap; the floating-point product of the early-refresh window is taken over
  the reals and converted back by truncation towards zero. The uniform draw is a parameter.
\<close>

section \<open>Definitions\<close>

definition ttlNeverRevalidate :: int where "ttlNeverRevalidate = -1"
definition ttlAlwaysRevalidate :: int where "ttlAlwaysRevalidate = 0"

text \<open>\<^verbatim>\<open>time.Duration(ttlSec) * time.Second\<close> in 64 bits.\<close>

definition ttl_duration :: "int \<Rightarrow> int" where
  "ttl_duration ttlSec = i64 (ttlSec * Second)"

text \<open>Integer division and float-to-integer conversion of Go truncate towards zero.\<close>

definition go_quot :: "int \<Rightarrow> int \<Rightarrow> int" where
  "go_quot a b = sgn a * sgn b * (\<bar>a\<bar> div \<bar>b\<bar>)"

definition go_trunc :: "real \<Rightarrow> int" where
  "go_trunc x = (if 0 \<le> x then \<lfloor>x\<rfloor> else \<lceil>x\<rceil>)"

definition xfetchBeta :: real where "xfetchBeta = 1"

definition xfetchDelta :: "int \<Rightarrow> int" where
  "xfetchDelta ttlSec =
     (let d = go_quot (ttl_duration ttlSec) 100;
          min_d = 100000000
      in if d < min_d then min_d else d)"

definition clamp_uniform :: "real \<Rightarrow> real" where
  "clamp_uniform u = (let u1 = (if u \<le> 0 then 1 / 10 ^ 9 else u) in if 1 \<le> u1 then 1 - 1 / 10 ^ 9 else u1)"

definition xfetchShouldRefresh :: "gotime \<Rightarrow> int \<Rightarrow> gotime \<Rightarrow> real \<Rightarrow> bool" where
  "xfetchShouldRefresh fetchedAt ttlSec now u =
     (if ttlSec \<le> 0 then True
      else
        let expiry = fetchedAt + ttl_duration ttlSec in
        if \<not> now < expiry then True
        else
          let threshold = expiry + go_trunc (real_of_int (xfetchDelta ttlSec) * xfetchBeta * ln (clamp_uniform u))
          in \<not> now < threshold)"

definition isMutableFreshAt :: "MutableEntry \<Rightarrow> gotime \<Rightarrow> real \<Rightarrow> bool" where
  "isMutableFreshAt e now u =
     (if meTTLSeconds e = ttlNeverRevalidate then True
      else if meTTLSeconds e = ttlAlwaysRevalidate then False
      else \<not> xfetchShouldRefresh (meFetchedAt e) (meTTLSeconds e) now u)"

definition isHardExpiredAt :: "MutableEntry \<Rightarrow> gotime \<Rightarrow> bool" where
  "isHardExpiredAt e now =
     (if meTTLSeconds e = ttlNeverRevalidate then False
      else if meTTLSeconds e = ttlAlwaysRevalidate then True
      else \<not> now < meFetchedAt e + ttl_duration (meTTLSeconds e))"

lemmas ttl_sentinels = ttlNeverRevalidate_def ttlAlwaysRevalidate_def

section \<open>The early-refresh window\<close>

definition ttl_fits :: "int \<Rightarrow> bool" where
  "ttl_fits ttlSec \<longleftrightarrow> 0 < ttlSec \<and> ttlSec \<le> 9223372036"

lemma ttl_duration_fits: "ttl_fits ttl \<Longrightarrow> ttl_duration ttl = ttl * Second"
  unfolding ttl_duration_def ttl_fits_def by (rule i64_id) auto

lemma xfetchDelta_pos: "0 < xfetchDelta ttl"
  by (simp add: xfetchDelta_def Let_def)

text \<open>The values \<^verbatim>\<open>rand.Float64\<close> draws are multiples of 1 / 2 ^ 53 in the unit interval.\<close>

definition float64_draw :: "real \<Rightarrow> bool" where
  "float64_draw u \<longleftrightarrow> u = 0 \<or> (1 / 2 ^ 53 \<le> u \<and> u < 1)"

lemma clamp_uniform_bounds: "float64_draw u \<Longrightarrow> 1 / 2 ^ 53 \<le> clamp_uniform u"
  by (auto simp: clamp_uniform_def Let_def float64_draw_def)

lemma clamp_uniform_pos: "0 < clamp_uniform u \<and> clamp_uniform u < 1"
  by (auto simp: clamp_uniform_def Let_def)

lemma clamp_uniform_mono: "0 < u \<Longrightarrow> u \<le> v \<Longrightarrow> v < 1 \<Longrightarrow> clamp_uniform u \<le> clamp_uniform v"
  by (auto simp: clamp_uniform_def Let_def)

lemma go_trunc_mono: "x \<le> y \<Longrightarrow> y \<le> 0 \<Longrightarrow> go_trunc x \<le> go_trunc y"
  by (auto simp: go_trunc_def ceiling_mono)

lemma go_trunc_nonpos: "x \<le> 0 \<Longrightarrow> go_trunc x \<le> 0"
  by (auto simp: go_trunc_def ceiling_le_iff)

lemma go_trunc_lower: "real_of_int n \<le> x \<Longrightarrow> n \<le> go_trunc x"
  by (auto simp: go_trunc_def le_floor_iff) (meson le_of_int_ceiling of_int_le_iff order_trans)

lemma ln_clamp_neg: "ln (clamp_uniform u) < 0"
  using clamp_uniform_pos [of u] by simp

lemma ln_smallest: "- 41 \<le> ln (1 / 2 ^ 53 :: real)"
proof -
  have "(2::real) ^ 53 \<le> (5 / 2) ^ 41" by (simp add: power_divide)
  also have "(5 / 2 :: real) \<le> exp 1"
    using exp_lower_Taylor_quadratic [of 1] by simp
  then have "(5 / 2 :: real) ^ 41 \<le> exp 1 ^ 41" by (intro power_mono) auto
  also have "exp 1 ^ 41 = exp (41::real)" by (simp flip: exp_of_nat_mult)
  finally have "ln (2 ^ 53 :: real) \<le> ln (exp 41)" by (subst ln_le_cancel_iff) auto
  then show ?thesis by (simp add: ln_div)
qed

lemma ln_clamp_lower: "float64_draw u \<Longrightarrow> - 41 \<le> ln (clamp_uniform u)"
  using ln_smallest clamp_uniform_bounds [of u] clamp_uniform_pos [of u]
  by (meson ln_le_cancel_iff order_trans zero_less_divide_1_iff zero_less_numeral zero_less_power)

lemma window_nonpos: "go_trunc (real_of_int (xfetchDelta ttl) * ln (clamp_uniform u)) \<le> 0"
  using xfetchDelta_pos [of ttl] ln_clamp_neg [of u]
  by (intro go_trunc_nonpos) (simp add: mult_le_0_iff)

lemma refresh_iff:
  assumes "0 < ttl"
  shows "xfetchShouldRefresh f ttl now u \<longleftrightarrow>
      f + ttl_duration ttl + go_trunc (real_of_int (xfetchDelta ttl) * ln (clamp_uniform u)) \<le> now"
  using assms window_nonpos [of ttl u] by (auto simp: xfetchShouldRefresh_def Let_def xfetchBeta_def)

lemma window_lower:
  assumes "float64_draw u"
  shows "- 41 * xfetchDelta ttl \<le> go_trunc (real_of_int (xfetchDelta ttl) * ln (clamp_uniform u))"
proof (rule go_trunc_lower)
  have "real_of_int (xfetchDelta ttl) * - 41 \<le> real_of_int (xfetchDelta ttl) * ln (clamp_uniform u)"
    using xfetchDelta_pos [of ttl] ln_clamp_lower [OF assms] by (intro mult_left_mono) auto
  then show "real_of_int (- 41 * xfetchDelta ttl) \<le> real_of_int (xfetchDelta ttl) * ln (clamp_uniform u)"
    by simp
qed

section \<open>Properties\<close>

text \<open>An entry that counts as fresh is never past its hard expiry, for any time-to-live
  value (sentinels, negative and wrapping ones included) and any draw.\<close>

theorem fresh_not_hard_expired: "isMutableFreshAt e now u \<longrightarrow> \<not> isHardExpiredAt e now"
  by (auto simp: isMutableFreshAt_def isHardExpiredAt_def xfetchShouldRefresh_def ttl_sentinels Let_def
      split: if_splits)

definition demo_mutable :: "int \<Rightarrow> MutableEntry" where
  "demo_mutable ttl = \<lparr>meKey = ''npm:x:index'', meProtocol = ''npm'', meDigest = [], mePayload = ''{}'', meETag = [],
     meLastModified = [], meTTLSeconds = ttl, meUpstream = [], meFetchedAt = 0\<rparr>"

theorem fresh_not_hard_expired_witness:
  "isMutableFreshAt (demo_mutable (- 1)) 5 0 \<and> \<not> isHardExpiredAt (demo_mutable (- 1)) 5"
  using fresh_not_hard_expired [of "demo_mutable (- 1)" 5 0]
  by (simp add: isMutableFreshAt_def demo_mutable_def ttl_sentinels)

text \<open>For a positive time-to-live below the 64-bit overflow bound, the early-refresh window is
  bounded: at or after the expiry every request refreshes, and more than 41 times the
  recomputation estimate before it no draw of the generator does.\<close>

theorem xfetch_window:
  assumes "ttl_fits ttl" and "float64_draw u"
  shows "(f + ttl * Second \<le> now \<longrightarrow> xfetchShouldRefresh f ttl now u)
    \<and> (now < f + ttl * Second - 41 * xfetchDelta ttl \<longrightarrow> \<not> xfetchShouldRefresh f ttl now u)"
proof -
  have "0 < ttl" using assms(1) by (simp add: ttl_fits_def)
  then show ?thesis
    using window_lower [OF assms(2), of ttl] window_nonpos [of ttl u] ttl_duration_fits [OF assms(1)]
    by (auto simp: refresh_iff)
qed

theorem xfetch_window_witness:
  "xfetchShouldRefresh 0 3600 (3600 * Second) (1 / 2) \<and> \<not> xfetchShouldRefresh 0 3600 Second (1 / 2)"
  using xfetch_window [of 3600 "1 / 2" 0 "3600 * Second"] xfetch_window [of 3600 "1 / 2" 0 Second]
  by (simp add: ttl_fits_def float64_draw_def xfetchDelta_def go_quot_def ttl_duration_def i64_def)

text \<open>The early-refresh decision is monotone: a request that refreshes still refreshes at any
  later time and with any smaller draw.\<close>

theorem xfetch_monotone:
  assumes "xfetchShouldRefresh f ttl now u" and "now \<le> now'" and "0 < u'" and "u' \<le> u" and "u < 1"
  shows "xfetchShouldRefresh f ttl now' u'"
proof (cases "0 < ttl")
  case True
  have "ln (clamp_uniform u') \<le> ln (clamp_uniform u)"
    using clamp_uniform_mono [of u' u] clamp_uniform_pos assms(3-5) by (subst ln_le_cancel_iff) auto
  then have "go_trunc (real_of_int (xfetchDelta ttl) * ln (clamp_uniform u'))
      \<le> go_trunc (real_of_int (xfetchDelta ttl) * ln (clamp_uniform u))"
    using xfetchDelta_pos [of ttl] ln_clamp_neg [of u]
    by (intro go_trunc_mono mult_left_mono) (auto simp: mult_le_0_iff)
  with True assms(1,2) show ?thesis by (simp add: refresh_iff)
qed (simp add: xfetchShouldRefresh_def)

theorem xfetch_monotone_witness: "xfetchShouldRefresh 0 60 (61 * Second) (1 / 4)"
  using xfetch_monotone [of 0 60 "60 * Second" "1 / 2" "61 * Second" "1 / 4"]
  by (simp add: xfetchShouldRefresh_def ttl_duration_def i64_def)

end
