(* ===== verification/Manager.thy ===== *)
theory Manager
  imports BlobStore Quarantine Freshness
begin

text \<open>
  The two-tier cache manager (\<^verbatim>\<open>internal/cache/cache.go\<close>, \<^verbatim>\<open>errors.go\<close>): its state, the
  lookups and the serving of bytes. The state joins the metadata store, the blob store and
  the quarantine files with the capacity ceiling, the pending uniform draw of the
  early-refresh rule and the logs of the three observers (metrics, verification hook,
  eviction hook). The clock is the one of the metadata store and stands still during an
  operation.
\<close>

section \<open>State and errors\<close>

record cache_state =
  c_db :: sqlite
  c_disk :: disk
  c_tmp :: tmpfs
  c_maxBytes :: int
  c_uniform :: real
  c_metrics :: "metric list"
  c_verified :: "(ArtifactRef \<times> string \<times> Result) list"
  c_evicted :: "(string \<times> int) list"

text \<open>
  The fixed parts of the manager: the digest library of the blob store, and the chain, whose
  verifiers may open quarantine files.
\<close>

record cache_env =
  cvDigest :: digest_lib
  cvChain :: "(string \<Rightarrow> string + bytes) \<Rightarrow> sqlite verifier list"

datatype cache_err =
    ErrCacheMiss
  | VerifyError ArtifactRef Result
  | PinMismatchError ArtifactRef string string
  | CacheErr string
  | CacheWrap string cache_err

fun cache_err_Error :: "cache_err \<Rightarrow> string" where
  "cache_err_Error ErrCacheMiss = ''cache: miss''"
| "cache_err_Error (VerifyError ref res) =
     ''cache: verify '' @ rProtocol ref @ ''/'' @ rName ref @ ''@'' @ rVersion ref @ '' failed: tier=''
     @ Tier_String (resTier res) @ '' status='' @ Status_String (resStatus res) @ '': '' @ resMessage res"
| "cache_err_Error (PinMismatchError ref want got) =
     ''cache: digest pin mismatch for '' @ rProtocol ref @ ''/'' @ rName ref @ ''@'' @ rVersion ref
     @ '': caller pinned '' @ want @ '', cache holds '' @ got"
| "cache_err_Error (CacheErr m) = m"
| "cache_err_Error (CacheWrap m e) = m @ cache_err_Error e"

text \<open>\<^verbatim>\<open>errors.As\<close> walks the chain of wrapped errors.\<close>

fun AsPinMismatchError :: "cache_err \<Rightarrow> (ArtifactRef \<times> string \<times> string) option" where
  "AsPinMismatchError (PinMismatchError ref want got) = Some (ref, want, got)"
| "AsPinMismatchError (CacheWrap _ e) = AsPinMismatchError e"
| "AsPinMismatchError _ = None"

fun AsVerifyError :: "cache_err \<Rightarrow> (ArtifactRef \<times> Result) option" where
  "AsVerifyError (VerifyError ref res) = Some (ref, res)"
| "AsVerifyError (CacheWrap _ e) = AsVerifyError e"
| "AsVerifyError _ = None"

definition with_db :: "(sqlite \<Rightarrow> 'a \<times> sqlite) \<Rightarrow> cache_state \<Rightarrow> 'a \<times> cache_state" where
  "with_db f s = (case f (c_db s) of (r, d) \<Rightarrow> (r, s\<lparr>c_db := d\<rparr>))"

definition with_disk :: "(disk \<Rightarrow> 'a \<times> disk) \<Rightarrow> cache_state \<Rightarrow> 'a \<times> cache_state" where
  "with_disk f s = (case f (c_disk s) of (r, d) \<Rightarrow> (r, s\<lparr>c_disk := d\<rparr>))"

definition with_tmp :: "(tmpfs \<Rightarrow> 'a \<times> tmpfs) \<Rightarrow> cache_state \<Rightarrow> 'a \<times> cache_state" where
  "with_tmp f s = (case f (c_tmp s) of (r, d) \<Rightarrow> (r, s\<lparr>c_tmp := d\<rparr>))"

definition time_Now :: "cache_state \<Rightarrow> gotime" where
  "time_Now s = db_now (c_db s)"

section \<open>The capacity setting\<close>

definition SetMaxBytes :: "int \<Rightarrow> cache_state \<Rightarrow> cache_state" where
  "SetMaxBytes n s = s\<lparr>c_maxBytes := (if n < 0 then 0 else n)\<rparr>"

definition MaxBytes :: "cache_state \<Rightarrow> int" where
  "MaxBytes s = c_maxBytes s"

section \<open>Lookups\<close>

definition mutableKey :: "ArtifactRef \<Rightarrow> string" where
  "mutableKey ref = rProtocol ref @ '':'' @ rName ref @ '':'' @ rVersion ref"

definition checkDigestPin :: "ArtifactRef \<Rightarrow> string \<Rightarrow> cache_err option" where
  "checkDigestPin ref got =
     (if rDigest ref = [] \<or> rDigest ref = got then None
      else Some (PinMismatchError ref (rDigest ref) got))"

definition lookupImmutable :: "cache_state \<Rightarrow> ArtifactRef \<Rightarrow> (cache_err + CacheEntry option) \<times> cache_state" where
  "lookupImmutable s ref =
     (case with_db (\<lambda>d. Get d ref) s of
        (Inl e, s1) \<Rightarrow> (Inl (CacheErr (''cache: meta get: '' @ e)), s1)
      | (Inr None, s1) \<Rightarrow> (Inr None, s1)
      | (Inr (Some entry), s1) \<Rightarrow>
          (case with_disk (\<lambda>d. blob_Exists d (ceDigest entry)) s1 of
             (Inl e, s2) \<Rightarrow> (Inl (CacheErr (''cache: blob exists: '' @ blob_err_Error e)), s2)
           | (Inr ok, s2) \<Rightarrow>
               if \<not> ok then (Inr None, s2)
               else
                 (case checkDigestPin ref (ceDigest entry) of
                    Some e \<Rightarrow> (Inl e, s2)
                  | None \<Rightarrow> (Inr (Some entry), s2))))"

text \<open>The entry that \<^verbatim>\<open>lookupMutable\<close> makes up from a mutable record.\<close>

definition mutable_CacheEntry :: "ArtifactRef \<Rightarrow> MutableEntry \<Rightarrow> bool \<Rightarrow> CacheEntry" where
  "mutable_CacheEntry ref me soft =
     \<lparr>ceRef = ref, ceDigest = meDigest me, ceSize = 0, ceProtocol = meProtocol me, ceTier = TierChecksum,
      ceUpstream = meUpstream me, ceETag = meETag me, ceVerifiedAt = meFetchedAt me,
      ceCreatedAt = meFetchedAt me, ceOrigin = [], ceSoftExpired = soft\<rparr>"

definition lookupMutable ::
  "cache_state \<Rightarrow> ArtifactRef \<Rightarrow> bool \<Rightarrow> (cache_err + CacheEntry option) \<times> cache_state" where
  "lookupMutable s ref allowStale =
     (case with_db (\<lambda>d. GetMutable d (mutableKey ref)) s of
        (Inl e, s1) \<Rightarrow> (Inl (CacheErr (''cache: mutable meta get: '' @ e)), s1)
      | (Inr None, s1) \<Rightarrow> (Inr None, s1)
      | (Inr (Some me), s1) \<Rightarrow>
          if \<not> allowStale \<and> isHardExpiredAt me (time_Now s1) then (Inr None, s1)
          else
            let softExpired = (\<not> allowStale \<and> \<not> isMutableFreshAt me (time_Now s1) (c_uniform s1)) in
            (case (if meDigest me \<noteq> [] then with_disk (\<lambda>d. blob_Exists d (meDigest me)) s1 else (Inr True, s1)) of
               (Inl e, s2) \<Rightarrow> (Inl (CacheErr (''cache: mutable blob exists: '' @ blob_err_Error e)), s2)
             | (Inr ok, s2) \<Rightarrow>
                 if \<not> ok then (Inr None, s2)
                 else
                   (case checkDigestPin ref (meDigest me) of
                      Some e \<Rightarrow> (Inl e, s2)
                    | None \<Rightarrow> (Inr (Some (mutable_CacheEntry ref me softExpired)), s2))))"

definition Lookup :: "cache_state \<Rightarrow> ArtifactRef \<Rightarrow> (cache_err + CacheEntry option) \<times> cache_state" where
  "Lookup s ref = (if rMutable ref then lookupMutable s ref False else lookupImmutable s ref)"

definition LookupStale :: "cache_state \<Rightarrow> ArtifactRef \<Rightarrow> (cache_err + CacheEntry option) \<times> cache_state" where
  "LookupStale s ref = lookupMutable s ref True"

section \<open>Serving\<close>

definition isBlobMissing :: "blob_err \<Rightarrow> bool" where
  "isBlobMissing err =
     (let msg = ToLower (blob_err_Error err) in
      Contains msg ''no such key'' \<or> Contains msg ''nosuchkey'' \<or> Contains msg ''not found''
      \<or> Contains msg ''notfound'' \<or> Contains msg ''no such file'')"

definition payload_range :: "bytes \<Rightarrow> int \<Rightarrow> int \<Rightarrow> bytes" where
  "payload_range payload offset len =
     (let total = int (length payload);
          o1 = (if offset < 0 then 0 else offset);
          o2 = (if o1 > total then total else o1);
          data = drop (nat o2) payload
      in if 0 \<le> len \<and> len < int (length data) then take (nat len) data else data)"

definition serveMutablePayload ::
  "cache_state \<Rightarrow> ArtifactRef \<Rightarrow> int \<Rightarrow> int \<Rightarrow> (cache_err + bytes) \<times> cache_state" where
  "serveMutablePayload s ref offset len =
     (case with_db (\<lambda>d. GetMutable d (mutableKey ref)) s of
        (Inl e, s1) \<Rightarrow> (Inl (CacheErr (''cache: mutable get for payload serve: '' @ e)), s1)
      | (Inr None, s1) \<Rightarrow> (Inl ErrCacheMiss, s1)
      | (Inr (Some me), s1) \<Rightarrow>
          if mePayload me = [] then (Inl ErrCacheMiss, s1)
          else (Inr (payload_range (mePayload me) offset len), s1))"

definition ServeEntry ::
  "cache_state \<Rightarrow> CacheEntry option \<Rightarrow> int \<Rightarrow> int \<Rightarrow> (cache_err + bytes) \<times> cache_state" where
  "ServeEntry s entry offset len =
     (case entry of
        None \<Rightarrow> (Inl ErrCacheMiss, s)
      | Some e \<Rightarrow>
          if ceDigest e = [] then serveMutablePayload s (ceRef e) offset len
          else
            (case with_disk (\<lambda>d. blob_Get d (ceDigest e) offset len) s of
               (Inr (rc, _), s1) \<Rightarrow> (Inr rc, s1)
             | (Inl err, s1) \<Rightarrow>
                 if isBlobMissing err then (Inl ErrCacheMiss, s1)
                 else (Inl (CacheErr (''cache: blob get: '' @ blob_err_Error err)), s1)))"

definition Serve ::
  "cache_state \<Rightarrow> ArtifactRef \<Rightarrow> int \<Rightarrow> int \<Rightarrow> (cache_err + bytes \<times> CacheEntry option) \<times> cache_state" where
  "Serve s ref offset len =
     (case Lookup s ref of
        (Inl e, s1) \<Rightarrow> (Inl (CacheWrap ''cache: serve lookup: '' e), s1)
      | (Inr entry, s1) \<Rightarrow>
          (case ServeEntry s1 entry offset len of
             (Inl e, s2) \<Rightarrow> (Inl e, s2)
           | (Inr rc, s2) \<Rightarrow> (Inr (rc, entry), s2)))"

section \<open>Frames and inversion\<close>

lemma with_db_simps [simp]:
  "with_db f s = (r, s') \<longleftrightarrow> (\<exists>d. f (c_db s) = (r, d) \<and> s' = s\<lparr>c_db := d\<rparr>)"
  by (auto simp: with_db_def split: prod.splits)

lemma with_disk_simps [simp]:
  "with_disk f s = (r, s') \<longleftrightarrow> (\<exists>d. f (c_disk s) = (r, d) \<and> s' = s\<lparr>c_disk := d\<rparr>)"
  by (auto simp: with_disk_def split: prod.splits)

lemma with_tmp_simps [simp]:
  "with_tmp f s = (r, s') \<longleftrightarrow> (\<exists>d. f (c_tmp s) = (r, d) \<and> s' = s\<lparr>c_tmp := d\<rparr>)"
  by (auto simp: with_tmp_def split: prod.splits)

lemma checkDigestPin_None [simp]: "checkDigestPin ref got = None \<longleftrightarrow> rDigest ref = [] \<or> rDigest ref = got"
  by (simp add: checkDigestPin_def)

lemma range_read_payload_range: "payload_range c off len = range_read c off len"
  by (auto simp: payload_range_def range_read_def Let_def nat_eq_iff)

definition blob_present :: "disk \<Rightarrow> string \<Rightarrow> bytes \<Rightarrow> bool" where
  "blob_present d digest c \<longleftrightarrow> (\<exists>p. blobPath d digest = Inr p \<and> blob_files d p = Some c)"

lemma Exists_present: "blob_Exists d digest = (Inr True, d') \<Longrightarrow> \<exists>c. blob_present d digest c"
  using blob_Exists_ok [of d digest True] by (auto simp: blob_present_def)

lemma Get_present: "blob_Get d digest off len = (Inr (b, n), d') \<Longrightarrow> \<exists>c. blob_present d digest c \<and> b = range_read c off len"
  using blob_Get_ok [of d digest off len b n] by (auto simp: blob_present_def)

lemma blob_present_cong:
  "blob_files d' = blob_files d \<Longrightarrow> disk_root d' = disk_root d \<Longrightarrow> blob_present d' digest c = blob_present d digest c"
  by (simp add: blob_present_def blobPath_def split: sum.splits)

lemma Get_find: "Get d ref = (Inr x, d') \<Longrightarrow> map_option row_CacheEntry (find_row (cache_entries d) (ref_key ref)) = x"
  by (auto simp: Get_def db_io_def split: option.splits)

lemma GetMutable_find: "GetMutable d k = (Inr x, d') \<Longrightarrow> mutable_entries d k = x"
  by (auto simp: GetMutable_def db_io_def split: option.splits)

lemma lookupImmutable_hit:
  assumes "lookupImmutable s ref = (Inr (Some e), s')"
  shows "map_option row_CacheEntry (find_row (cache_entries (c_db s)) (ref_key ref)) = Some e
    \<and> (\<exists>c. blob_present (c_disk s) (ceDigest e) c) \<and> (rDigest ref = [] \<or> rDigest ref = ceDigest e)"
  using assms
  by (auto simp: lookupImmutable_def split: sum.splits option.splits prod.splits if_splits
      dest!: Get_find dest: Exists_present)

lemma lookupMutable_hit:
  assumes "lookupMutable s ref allowStale = (Inr (Some e), s')"
  shows "\<exists>me soft. mutable_entries (c_db s) (mutableKey ref) = Some me \<and> e = mutable_CacheEntry ref me soft
    \<and> (allowStale \<or> \<not> isHardExpiredAt me (time_Now s))
    \<and> (meDigest me \<noteq> [] \<longrightarrow> (\<exists>c. blob_present (c_disk s) (meDigest me) c))
    \<and> (rDigest ref = [] \<or> rDigest ref = meDigest me)"
proof -
  obtain d me where g: "GetMutable (c_db s) (mutableKey ref) = (Inr (Some me), d)"
    using assms by (auto simp: lookupMutable_def split: sum.splits option.splits prod.splits)
  have now: "time_Now (s\<lparr>c_db := d\<rparr>) = time_Now s"
    using GetMutable_state(3) [of "c_db s" "mutableKey ref"] g by (simp add: time_Now_def)
  show ?thesis
    using assms g now GetMutable_find [OF g]
    by (auto simp: lookupMutable_def with_db_def Let_def split: sum.splits option.splits prod.splits if_splits
        dest!: Exists_present)
qed

text \<open>Reading operations leave rows, blobs and files as they are.\<close>

definition same_data :: "cache_state \<Rightarrow> cache_state \<Rightarrow> bool" where
  "same_data s s' \<longleftrightarrow>
     cache_entries (c_db s') = cache_entries (c_db s) \<and> mutable_entries (c_db s') = mutable_entries (c_db s)
     \<and> blob_files (c_disk s') = blob_files (c_disk s) \<and> disk_root (c_disk s') = disk_root (c_disk s)
     \<and> c_tmp s' = c_tmp s \<and> c_maxBytes s' = c_maxBytes s \<and> c_evicted s' = c_evicted s"

lemma same_data_refl [simp]: "same_data s s"
  by (simp add: same_data_def)

lemma same_data_trans: "same_data a b \<Longrightarrow> same_data b c \<Longrightarrow> same_data a c"
  by (simp add: same_data_def)

lemma same_data_Get: "same_data s (snd (with_db (\<lambda>d. Get d ref) s))"
  by (simp add: same_data_def with_db_def split: prod.splits) (metis Get_state snd_conv)

lemma same_data_GetMutable: "same_data s (snd (with_db (\<lambda>d. GetMutable d k) s))"
  by (simp add: same_data_def with_db_def split: prod.splits) (metis GetMutable_state snd_conv)

lemma same_data_Exists: "same_data s (snd (with_disk (\<lambda>d. blob_Exists d k) s))"
  by (simp add: same_data_def with_disk_def split: prod.splits) (metis blob_Exists_state snd_conv)

lemma same_data_blob_Get: "same_data s (snd (with_disk (\<lambda>d. blob_Get d k a b) s))"
  by (simp add: same_data_def with_disk_def split: prod.splits) (metis blob_Get_state snd_conv)

lemma ServeEntry_bytes:
  assumes "ServeEntry s entry off len = (Inr b, s')"
  shows "\<exists>e. entry = Some e \<and>
     (if ceDigest e = []
      then \<exists>me. mutable_entries (c_db s) (mutableKey (ceRef e)) = Some me \<and> mePayload me \<noteq> []
           \<and> b = range_read (mePayload me) off len
      else \<exists>c. blob_present (c_disk s) (ceDigest e) c \<and> b = range_read c off len)"
proof (cases entry)
  case (Some e)
  with assms show ?thesis
  proof (cases "ceDigest e = []")
    case True
    with assms Some show ?thesis
      by (auto simp: ServeEntry_def serveMutablePayload_def range_read_payload_range
          split: option.splits sum.splits prod.splits if_splits dest!: GetMutable_find intro!: exI [of _ e])
  next
    case False
    with assms Some show ?thesis
      by (auto simp: ServeEntry_def split: sum.splits prod.splits if_splits dest!: Get_present)
  qed
qed (use assms in \<open>simp add: ServeEntry_def\<close>)

lemma same_data_lookupImmutable: "same_data s (snd (lookupImmutable s ref))"
proof -
  obtain r s1 where g: "with_db (\<lambda>d. Get d ref) s = (r, s1)" by fastforce
  then have s1: "same_data s s1" using same_data_Get [of s ref] by (metis snd_conv)
  have "same_data s s2" if "with_disk (\<lambda>d. blob_Exists d k) s1 = (r2, s2)" for k r2 s2
    using same_data_Exists [of s1 k] s1 that by (metis same_data_trans snd_conv)
  then show ?thesis
    unfolding lookupImmutable_def g using s1
    by (auto simp del: with_disk_simps split: sum.splits option.splits prod.splits)
qed

lemma same_data_lookupMutable: "same_data s (snd (lookupMutable s ref st))"
proof -
  obtain r s1 where g: "with_db (\<lambda>d. GetMutable d (mutableKey ref)) s = (r, s1)" by fastforce
  then have s1: "same_data s s1" using same_data_GetMutable [of s] by (metis snd_conv)
  show ?thesis
  proof (cases "\<exists>me. r = Inr (Some me)")
    case True
    then obtain me where r: "r = Inr (Some me)" by blast
    obtain r2 s2 where x: "(if meDigest me \<noteq> [] then with_disk (\<lambda>d. blob_Exists d (meDigest me)) s1 else (Inr True, s1)) = (r2, s2)"
      by (metis surj_pair)
    then have s2: "same_data s s2"
      using same_data_Exists [of s1 "meDigest me"] s1
      by (metis prod.inject same_data_trans snd_conv)
    show ?thesis
      unfolding lookupMutable_def g r using s1 s2
      by (simp add: x Let_def del: with_disk_simps split: sum.splits option.splits)
  qed (use g s1 in \<open>auto simp: lookupMutable_def simp del: with_db_simps split: sum.splits option.splits\<close>)
qed

lemma same_data_Lookup: "same_data s (snd (Lookup s ref))"
  by (simp add: Lookup_def same_data_lookupImmutable same_data_lookupMutable)

lemma same_data_ServeEntry: "same_data s (snd (ServeEntry s e off len))"
proof -
  have "same_data s s1" if "with_disk (\<lambda>d. blob_Get d k off len) s = (r, s1)" for k r s1
    using same_data_blob_Get [of s k off len] that by (metis snd_conv)
  moreover have "same_data s s1" if "with_db (\<lambda>d. GetMutable d k) s = (r, s1)" for k r s1
    using same_data_GetMutable [of s k] that by (metis snd_conv)
  ultimately show ?thesis
    by (auto simp del: with_disk_simps with_db_simps simp: ServeEntry_def serveMutablePayload_def
        split: option.splits sum.splits prod.splits)
qed

text \<open>On healthy stores a row with a blob is found and served.\<close>

lemma lookupImmutable_healthy:
  assumes "db_healthy (c_db s)" and "disk_healthy (c_disk s)" and "find_row (cache_entries (c_db s)) (ref_key ref) = Some r"
    and "blob_present (c_disk s) (r_digest r) c" and "rDigest ref = [] \<or> rDigest ref = r_digest r"
  shows "\<exists>s1. lookupImmutable s ref = (Inr (Some (row_CacheEntry r)), s1) \<and> disk_healthy (c_disk s1)"
proof -
  obtain d where d: "blob_Exists (c_disk s) (r_digest r) = (Inr True, d)"
    using assms(2,4) blob_Exists_healthy [of "c_disk s" "r_digest r"] by (auto simp: blob_present_def prod_eq_iff)
  have "disk_healthy d" using assms(2) d blob_Exists_state(3) [of "c_disk s" "r_digest r"] by (simp add: disk_healthy_def)
  moreover have "Get (c_db s) ref = (Inr (Some (row_CacheEntry r)), (c_db s)\<lparr>db_tick := Suc (db_tick (c_db s))\<rparr>)"
    using assms(1,3) by (simp add: Get_def db_io_def db_healthy_def)
  moreover have "checkDigestPin ref (r_digest r) = None" using assms(5) by simp
  moreover have "ceDigest (row_CacheEntry r) = r_digest r" by (simp add: row_CacheEntry_def)
  ultimately show ?thesis using d by (simp add: lookupImmutable_def with_db_def with_disk_def del: checkDigestPin_None)
qed

lemma ServeEntry_healthy:
  assumes "disk_healthy (c_disk s)" and "blob_present (c_disk s) (ceDigest e) c" and "ceDigest e \<noteq> []"
  shows "\<exists>s'. ServeEntry s (Some e) off len = (Inr (range_read c off len), s')"
proof -
  obtain d where "blob_Get (c_disk s) (ceDigest e) off len = (Inr (range_read c off len, int (length c)), d)"
    using assms(1,2) blob_Get_healthy [of "c_disk s" "ceDigest e"] by (auto simp: blob_present_def prod_eq_iff)
  with assms(3) show ?thesis by (simp add: ServeEntry_def with_disk_def)
qed

lemma Serve_verified:
  assumes "cas_intact dg (c_disk s)" and "Serve s ref off len = (Inr (b, Some e), s')" and "ceDigest e \<noteq> []"
  shows "\<exists>p c. blobPath (c_disk s) (ceDigest e) = Inr p \<and> path_matches dg p c \<and> b = range_read c off len"
proof -
  obtain s1 where l: "Lookup s ref = (Inr (Some e), s1)" and sv: "ServeEntry s1 (Some e) off len = (Inr b, s')"
    using assms(2) by (auto simp: Serve_def split: sum.splits prod.splits)
  obtain c where "blob_present (c_disk s1) (ceDigest e) c" and b: "b = range_read c off len"
    using ServeEntry_bytes [OF sv] assms(3) by auto
  then have "blob_present (c_disk s) (ceDigest e) c"
    using same_data_Lookup [of s ref] l by (simp add: same_data_def blob_present_cong [of "c_disk s1" "c_disk s"])
  then show ?thesis
    using assms(1) b by (auto simp: blob_present_def dest: ldisk.read_matches)
qed

section \<open>Properties\<close>

text \<open>A lookup never answers with an artifact that contradicts the caller's digest pin, never with a
  row whose blob is missing, and never with a mutable entry past its hard expiry; an immutable
  hit is the stored row of that key.\<close>

theorem Lookup_sound:
  assumes "Lookup s ref = (Inr (Some e), s')"
  shows "(rDigest ref = [] \<or> rDigest ref = ceDigest e)
    \<and> (ceDigest e = [] \<or> (\<exists>c. blob_present (c_disk s) (ceDigest e) c))
    \<and> (if rMutable ref
       then \<exists>me. mutable_entries (c_db s) (mutableKey ref) = Some me \<and> \<not> isHardExpiredAt me (time_Now s)
            \<and> ceDigest e = meDigest me
       else \<exists>r. find_row (cache_entries (c_db s)) (ref_key ref) = Some r \<and> e = row_CacheEntry r)"
  using assms
  by (auto simp: Lookup_def mutable_CacheEntry_def split: if_splits
      dest!: lookupMutable_hit lookupImmutable_hit)

text \<open>when every stored blob hashes to its name, the bytes served for an entry with a digest are
  the requested range of a blob stored under that digest, whose content hashes to it.\<close>

theorem Serve_serves_verified_bytes:
  assumes "cas_intact dg (c_disk s)" and "Serve s ref off len = (Inr (b, Some e), s')" and "ceDigest e \<noteq> []"
  shows "\<exists>p c. blobPath (c_disk s) (ceDigest e) = Inr p \<and> path_matches dg p c \<and> b = range_read c off len"
  using assms by (rule Serve_verified)

text \<open>Reading is free of side effects on the data: a lookup or a serve, whatever its outcome,
  changes no row, no blob, no quarantine file and not the capacity setting.\<close>

theorem reading_keeps_data: "same_data s (snd (Serve s ref off len)) \<and> same_data s (snd (Lookup s ref))
    \<and> same_data s (snd (LookupStale s ref))"
proof -
  obtain r s1 where l: "Lookup s ref = (r, s1)" by fastforce
  then have "same_data s s1" using same_data_Lookup [of s ref] by simp
  then have "same_data s (snd (ServeEntry s1 x off len))" for x
    using same_data_ServeEntry same_data_trans by blast
  then have "same_data s (snd (Serve s ref off len))"
    using l \<open>same_data s s1\<close> by (auto simp: Serve_def split: sum.splits prod.splits) (metis snd_conv)+
  then show ?thesis by (simp add: LookupStale_def same_data_Lookup same_data_lookupMutable)
qed

section \<open>A concrete cache\<close>

text \<open>One verified npm tarball whose content is its own digest, and one inline index page.\<close>

definition demo_dg :: digest_lib where
  "demo_dg = \<lparr>dg_valid = (\<lambda>_. True), dg_hex = (\<lambda>_ c. c)\<rparr>"

definition demo_row :: row where
  "demo_row = entry_row 0 \<lparr>ceRef = demo_ref, ceDigest = ''sha256:4d4e'', ceSize = 4, ceProtocol = ''npm'',
     ceTier = TierTofu, ceUpstream = [], ceETag = [], ceVerifiedAt = 1, ceCreatedAt = 1, ceOrigin = [], ceSoftExpired = False\<rparr>"

definition demo_db :: sqlite where
  "demo_db = \<lparr>cache_entries = [demo_row], mutable_entries = (\<lambda>_. None), db_now = 5 * Second, db_tick = 0, db_fault = no_faults\<rparr>"

definition demo_disk :: disk where
  "demo_disk = \<lparr>disk_root = ''/cas'', blob_files = [[''/cas'', ''4d'', ''4d4e''] \<mapsto> ''4d4e''], disk_tick = 0, disk_fault = no_faults\<rparr>"

definition demo_cache :: cache_state where
  "demo_cache = \<lparr>c_db = demo_db, c_disk = demo_disk, c_tmp = demo_fs, c_maxBytes = 0, c_uniform = 1 / 2,
     c_metrics = [], c_verified = [], c_evicted = []\<rparr>"

lemmas demo_cache_defs = demo_dg_def demo_row_def demo_db_def demo_disk_def demo_cache_def demo_ref_def entry_row_def

lemma demo_blobPath: "blobPath demo_disk ''sha256:4d4e'' = Inr [''/cas'', ''4d'', ''4d4e'']"
  by (simp add: blobPath_def hexDigest_def demo_disk_def)

lemma demo_lookup: "\<exists>s'. Lookup demo_cache demo_ref = (Inr (Some (row_CacheEntry demo_row)), s')"
  by (simp add: Lookup_def lookupImmutable_def with_db_def with_disk_def store_simps find_row_def row_key_def ref_key_def
      row_CacheEntry_def checkDigestPin_def demo_cache_defs)

lemma demo_intact: "cas_intact demo_dg (c_disk demo_cache)"
  by (auto simp: ldisk.intact_def path_matches_def demo_cache_defs hexDigest_def intro!: exI [of _ "''4d4e''"])

theorem Lookup_sound_witness:
  "ceDigest (row_CacheEntry demo_row) = ''sha256:4d4e'' \<and>
   (\<exists>r. find_row (cache_entries (c_db demo_cache)) (ref_key demo_ref) = Some r \<and> row_CacheEntry demo_row = row_CacheEntry r)"
proof -
  obtain s' where "Lookup demo_cache demo_ref = (Inr (Some (row_CacheEntry demo_row)), s')" using demo_lookup by blast
  from Lookup_sound [OF this] show ?thesis by (simp add: demo_ref_def row_CacheEntry_def demo_row_def entry_row_def)
qed

theorem Serve_serves_verified_bytes_witness:
  "\<exists>p c. blobPath (c_disk demo_cache) ''sha256:4d4e'' = Inr p \<and> path_matches demo_dg p c \<and> ''d4'' = range_read c 1 2"
proof -
  have "\<exists>s'. Serve demo_cache demo_ref 1 2 = (Inr (''d4'', Some (row_CacheEntry demo_row)), s')"
    by (simp add: Serve_def Lookup_def lookupImmutable_def ServeEntry_def with_db_def with_disk_def store_simps
        find_row_def row_key_def ref_key_def row_CacheEntry_def checkDigestPin_def range_read_def demo_cache_defs)
  then obtain s' where "Serve demo_cache demo_ref 1 2 = (Inr (''d4'', Some (row_CacheEntry demo_row)), s')" ..
  from Serve_serves_verified_bytes [OF demo_intact this] show ?thesis
    by (simp add: row_CacheEntry_def demo_row_def entry_row_def)
qed

end
