(* ===== verification/Evict.thy ===== *)
theory Evict
  imports Manager
begin

text \<open>
  Capacity enforcement (\<^verbatim>\<open>internal/cache/evict.go\<close>). The candidates are re-listed in batches,
  oldest first; the loop ends because every round that makes progress removes a row. The
  metadata store is the SQLite driver, which reports sizes by origin, so the fall-back of
  \<^verbatim>\<open>totalCachedBytes\<close> for other stores is not part of the model. The abstract view at the
  end is the shortest prefix of the sorted candidates that frees enough bytes.
\<close>

section \<open>Definitions\<close>

definition evictBatch :: int where "evictBatch = 64"

definition sameRef :: "ArtifactRef \<Rightarrow> ArtifactRef \<Rightarrow> bool" where
  "sameRef a b \<longleftrightarrow> rProtocol a = rProtocol b \<and> rName a = rName b \<and> rVersion a = rVersion b"

definition totalCachedBytes :: "cache_state \<Rightarrow> (string + int) \<times> cache_state" where
  "totalCachedBytes s =
     (case with_db CacheSizeByOrigin s of
        (Inl e, s1) \<Rightarrow> (Inl (''cache size by origin: '' @ e), s1)
      | (Inr byOrigin, s1) \<Rightarrow>
          (Inr (case byOrigin OriginCached of None \<Rightarrow> 0 | Some st \<Rightarrow> ssBytes st), s1))"

definition blobIsUnreferenced :: "cache_state \<Rightarrow> string \<Rightarrow> bool \<times> cache_state" where
  "blobIsUnreferenced s digest =
     (case with_db (\<lambda>d. ListEntries d [] (no_filter\<lparr>fDigest := digest\<rparr>)
                            \<lparr>pLimit = 1, pOffset = 0, pSort = [], pDesc = False\<rparr>) s of
        (Inl _, s1) \<Rightarrow> (False, s1)
      | (Inr page, s1) \<Rightarrow> (\<not> epTotal page > 0, s1))"

text \<open>Deleting the blob of an evicted row, if nothing else refers to it; failures are logged only.\<close>

definition drop_blob :: "string \<Rightarrow> cache_state \<Rightarrow> cache_state" where
  "drop_blob digest s =
     (if digest = [] then s
      else case blobIsUnreferenced s digest of
        (True, s1) \<Rightarrow> snd (with_disk (\<lambda>d. blob_Delete d digest) s1)
      | (False, s1) \<Rightarrow> s1)"

fun evict_page ::
  "ArtifactRef \<Rightarrow> Entry list \<Rightarrow> int \<Rightarrow> bool \<Rightarrow> cache_state \<Rightarrow> (string + int \<times> bool) \<times> cache_state" where
  "evict_page protect [] need progress s = (Inr (need, progress), s)"
| "evict_page protect (e # es) need progress s =
     (if need \<le> 0 then (Inr (need, progress), s)
      else if sameRef (ceRef (enEntry e)) protect then evict_page protect es need progress s
      else
        let ref = ceRef (enEntry e); size' = ceSize (enEntry e);
            digest = ceDigest (enEntry e); proto = ceProtocol (enEntry e)
        in
        case with_db (\<lambda>d. Delete d ref) s of
          (Inl err, s1) \<Rightarrow>
            (Inl (''evict meta '' @ rProtocol ref @ ''/'' @ rName ref @ ''@'' @ rVersion ref @ '': '' @ err), s1)
        | (Inr _, s1) \<Rightarrow>
            let s2 = drop_blob digest s1;
                s3 = s2\<lparr>c_evicted := c_evicted s2 @ [(proto, size')]\<rparr>
            in evict_page protect es (need - size') True s3)"

definition evict_filter :: EntryFilter where
  "evict_filter = no_filter\<lparr>fPinned := Some False, fOrigin := OriginCached\<rparr>"

definition evict_Page :: Page where
  "evict_Page = \<lparr>pLimit = evictBatch, pOffset = 0, pSort = SortCreatedAt, pDesc = False\<rparr>"

abbreviation rows_of :: "cache_state \<Rightarrow> row list" where
  "rows_of s \<equiv> cache_entries (c_db s)"

text \<open>What the termination argument needs of one round.\<close>

lemma ListEntries_rows:
  "ListEntries d p f pg = (Inr page, d') \<Longrightarrow>
     epEntries page = map row_Entry (list_rows (cache_entries d) p f (Normalize pg))
     \<and> epTotal page = int (length (filter (listWhere p f) (cache_entries d)))"
  by (auto simp: ListEntries_def db_io_def Let_def split: option.splits)

lemma ListEntries_stateD:
  "ListEntries d p f pg = (r, d') \<Longrightarrow> cache_entries d' = cache_entries d \<and> mutable_entries d' = mutable_entries d
     \<and> db_fault d' = db_fault d \<and> db_now d' = db_now d"
  using ListEntries_state [of d p f pg] by (metis snd_conv)

text \<open>What the reference count leaves alone.\<close>

definition only_ticks :: "cache_state \<Rightarrow> cache_state \<Rightarrow> bool" where
  "only_ticks s s' \<longleftrightarrow> (\<exists>n. s' = s\<lparr>c_db := (c_db s)\<lparr>db_tick := n\<rparr>\<rparr>)"

lemma ListEntries_ticks: "with_db (\<lambda>d. ListEntries d p f pg) s = (r, s') \<Longrightarrow> only_ticks s s'"
  by (auto simp: only_ticks_def ListEntries_def db_io_def Let_def split: option.splits)

lemma blobIsUnreferenced_ticks: "blobIsUnreferenced s digest = (b, s') \<Longrightarrow> only_ticks s s'"
  unfolding blobIsUnreferenced_def
  by (auto split: sum.splits prod.splits simp del: with_db_simps dest: ListEntries_ticks)

lemma drop_blob_cases:
  obtains (kept) s1 where "drop_blob digest s = s1" "only_ticks s s1"
  | (dropped) s1 where "blobIsUnreferenced s digest = (True, s1)" "only_ticks s s1"
      "drop_blob digest s = s1\<lparr>c_disk := snd (blob_Delete (c_disk s1) digest)\<rparr>"
proof (cases "digest = []")
  case True
  then have "drop_blob digest s = s" "only_ticks s s" by (simp_all add: drop_blob_def only_ticks_def exI [of _ "db_tick (c_db s)"])
  then show ?thesis by (rule kept)
next
  case False
  obtain b s1 where u: "blobIsUnreferenced s digest = (b, s1)" by fastforce
  note t = blobIsUnreferenced_ticks [OF u]
  show ?thesis
  proof (cases b)
    case True
    with u t False show ?thesis by (intro dropped) (simp_all add: drop_blob_def with_disk_def prod.case_eq_if)
  next
    case b: False
    with u t False show ?thesis by (intro kept [of s1]) (simp_all add: drop_blob_def)
  qed
qed

lemma drop_blob_rows [simp]:
  "rows_of (drop_blob digest s) = rows_of s" "db_fault (c_db (drop_blob digest s)) = db_fault (c_db s)"
  "c_evicted (drop_blob digest s) = c_evicted s" "c_tmp (drop_blob digest s) = c_tmp s"
  "mutable_entries (c_db (drop_blob digest s)) = mutable_entries (c_db s)"
  "db_now (c_db (drop_blob digest s)) = db_now (c_db s)"
  by (cases rule: drop_blob_cases [of digest s]; force simp: only_ticks_def)+

lemma row_Entry_simps [simp]:
  "ref_key (ceRef (enEntry (row_Entry r))) = row_key r"
  "ceSize (enEntry (row_Entry r)) = r_size r"
  "ceDigest (enEntry (row_Entry r)) = r_digest r"
  "ceProtocol (enEntry (row_Entry r)) = r_protocol r"
  by (simp_all add: row_Entry_def row_CacheEntry_def ref_key_def row_key_def Let_def)

lemma Delete_ok: "Delete d ref = (Inr x, d') \<Longrightarrow> cache_entries d' = del_row (ref_key ref) (cache_entries d)"
  by (auto simp: Delete_def db_io_def split: option.splits)

lemma del_row_length: "length (del_row k rows) \<le> length rows"
  by (simp add: del_row_def)

lemma del_row_shrinks: "k \<in> row_key ` set rows \<Longrightarrow> length (del_row k rows) < length rows"
  unfolding del_row_def by (auto intro!: length_filter_less)

text \<open>The state after the eviction of one listed entry.\<close>

definition evict_one :: "Entry \<Rightarrow> cache_state \<Rightarrow> cache_state" where
  "evict_one e s =
     (let s2 = drop_blob (ceDigest (enEntry e)) s
      in s2\<lparr>c_evicted := c_evicted s2 @ [(ceProtocol (enEntry e), ceSize (enEntry e))]\<rparr>)"

lemma evict_one_simps [simp]:
  "rows_of (evict_one e s) = rows_of s" "db_fault (c_db (evict_one e s)) = db_fault (c_db s)"
  "c_evicted (evict_one e s) = c_evicted s @ [(ceProtocol (enEntry e), ceSize (enEntry e))]"
  by (simp_all add: evict_one_def Let_def)

lemma evict_page_step:
  assumes "0 < need" and "\<not> sameRef (ceRef (enEntry e)) protect"
  shows "evict_page protect (e # es) need b s =
    (case Delete (c_db s) (ceRef (enEntry e)) of
       (Inl err, d) \<Rightarrow> (Inl (''evict meta '' @ rProtocol (ceRef (enEntry e)) @ ''/'' @ rName (ceRef (enEntry e)) @ ''@''
            @ rVersion (ceRef (enEntry e)) @ '': '' @ err), s\<lparr>c_db := d\<rparr>)
     | (Inr _, d) \<Rightarrow> evict_page protect es (need - ceSize (enEntry e)) True (evict_one e (s\<lparr>c_db := d\<rparr>)))"
  using assms by (auto simp: Let_def evict_one_def with_db_def split: sum.splits prod.splits)

lemmas evict_page_skip = evict_page.simps(2)

lemma evict_page_induct [case_names Nil Done Skip Fail Step]:
  assumes "\<And>need b s. P [] need b s"
    and "\<And>e es need b s. need \<le> 0 \<Longrightarrow> P (e # es) need b s"
    and "\<And>e es need b s. 0 < need \<Longrightarrow> sameRef (ceRef (enEntry e)) protect \<Longrightarrow> P es need b s \<Longrightarrow> P (e # es) need b s"
    and "\<And>e es need b s err d. 0 < need \<Longrightarrow> \<not> sameRef (ceRef (enEntry e)) protect
      \<Longrightarrow> Delete (c_db s) (ceRef (enEntry e)) = (Inl err, d) \<Longrightarrow> P (e # es) need b s"
    and "\<And>e es need b s u d. 0 < need \<Longrightarrow> \<not> sameRef (ceRef (enEntry e)) protect
      \<Longrightarrow> Delete (c_db s) (ceRef (enEntry e)) = (Inr u, d)
      \<Longrightarrow> P es (need - ceSize (enEntry e)) True (evict_one e (s\<lparr>c_db := d\<rparr>)) \<Longrightarrow> P (e # es) need b s"
  shows "P es need b (s :: cache_state)"
proof (induction es arbitrary: need b s)
  case (Cons e es need b s)
  consider "need \<le> 0" | "0 < need" "sameRef (ceRef (enEntry e)) protect"
    | "0 < need" "\<not> sameRef (ceRef (enEntry e)) protect" by linarith
  then show ?case
  proof cases
    case 3
    obtain r d where "Delete (c_db s) (ceRef (enEntry e)) = (r, d)" by fastforce
    with 3 Cons.IH assms(4,5) show ?thesis by (cases r) blast+
  qed (use Cons.IH assms in blast)+
qed (rule assms)

lemma evict_page_length: "length (rows_of (snd (evict_page protect es need b s))) \<le> length (rows_of s)"
proof (induction es need b s rule: evict_page_induct [where protect = protect])
  case (Step e es need b s u d)
  then show ?case
    using del_row_length [of "ref_key (ceRef (enEntry e))" "rows_of s"]
    by (simp add: evict_page_step Delete_ok del: evict_page.simps(2))
next
  case (Fail e es need b s err d)
  then show ?case using Delete_def by (auto simp: evict_page_step db_io_def Delete_def simp del: evict_page.simps(2) split: option.splits)
qed auto

lemma evict_page_progress:
  assumes "evict_page protect es need False s = (Inr (need', True), s')"
    and "\<forall>e \<in> set es. ref_key (ceRef (enEntry e)) \<in> row_key ` set (rows_of s)"
  shows "length (rows_of s') < length (rows_of s)"
proof -
  define b where "b = False"
  have "evict_page protect es need b s = (Inr (need', True), s') \<longrightarrow> \<not> b \<longrightarrow>
    (\<forall>e \<in> set es. ref_key (ceRef (enEntry e)) \<in> row_key ` set (rows_of s)) \<longrightarrow> length (rows_of s') < length (rows_of s)"
  proof (induction es need b s rule: evict_page_induct [where protect = protect])
    case (Step e es need b s u d)
    show ?case
    proof (intro impI)
      assume a: "evict_page protect (e # es) need b s = (Inr (need', True), s')"
        and k: "\<forall>e \<in> set (e # es). ref_key (ceRef (enEntry e)) \<in> row_key ` set (rows_of s)"
      have "length (rows_of s') \<le> length (rows_of (evict_one e (s\<lparr>c_db := d\<rparr>)))"
        using a Step(1-3) evict_page_length [of protect es "need - ceSize (enEntry e)" True "evict_one e (s\<lparr>c_db := d\<rparr>)"]
        by (simp add: evict_page_step del: evict_page.simps(2))
      also have "\<dots> < length (rows_of s)"
        using Step(3) k by (simp add: Delete_ok del_row_shrinks)
      finally show "length (rows_of s') < length (rows_of s)" .
    qed
  qed (auto simp: evict_page_step simp del: evict_page.simps(2), auto)
  with assms show ?thesis by (simp add: b_def)
qed


lemma page_keys:
  assumes "with_db (\<lambda>d. ListEntries d p f pg) s = (Inr page, s1)" and "e \<in> set (epEntries page)"
  shows "\<exists>r \<in> set (rows_of s1). e = row_Entry r \<and> listWhere p f r"
proof -
  obtain d where d: "ListEntries (c_db s) p f pg = (Inr page, d)" and "s1 = s\<lparr>c_db := d\<rparr>" using assms(1) by auto
  then show ?thesis
    using assms(2) ListEntries_rows [OF d] ListEntries_stateD [OF d] by (auto dest: set_list_rows)
qed

function enforce_loop :: "ArtifactRef \<Rightarrow> int \<Rightarrow> cache_state \<Rightarrow> (string + unit) \<times> cache_state" where
  "enforce_loop protect need s =
     (if need \<le> 0 then (Inr (), s)
      else case with_db (\<lambda>d. ListEntries d [] evict_filter evict_Page) s of
        (Inl e, s1) \<Rightarrow> (Inl (''list eviction candidates: '' @ e), s1)
      | (Inr page, s1) \<Rightarrow>
          if epEntries page = [] then (Inr (), s1)
          else
            (case evict_page protect (epEntries page) need False s1 of
               (Inl e, s2) \<Rightarrow> (Inl e, s2)
             | (Inr (need', progress), s2) \<Rightarrow>
                 if \<not> progress then (Inr (), s2) else enforce_loop protect need' s2))"
  by pat_completeness auto

termination
proof (relation "measure (\<lambda>(protect, need, s). length (rows_of s))", goal_cases)
  case (2 protect need s r s1 page ev s2 pr need' progress)
  then have p: "with_db (\<lambda>d. ListEntries d [] evict_filter evict_Page) s = (Inr page, s1)"
    and e: "evict_page protect (epEntries page) need False s1 = (Inr (need', True), s2)" by simp_all
  have "length (rows_of s2) < length (rows_of s1)"
    using evict_page_progress [OF e] page_keys [OF p] by fastforce
  moreover have "rows_of s1 = rows_of s" using p by (auto dest!: ListEntries_stateD)
  ultimately show ?case by simp
qed simp

declare enforce_loop.simps [simp del]

definition enforceCapacity :: "cache_state \<Rightarrow> ArtifactRef \<Rightarrow> (string + unit) \<times> cache_state" where
  "enforceCapacity s protect =
     (let maxBytes = MaxBytes s in
      if maxBytes \<le> 0 then (Inr (), s)
      else case totalCachedBytes s of
        (Inl e, s1) \<Rightarrow> (Inl e, s1)
      | (Inr total', s1) \<Rightarrow>
          if total' \<le> maxBytes then (Inr (), s1) else enforce_loop protect (total' - maxBytes) s1)"

section \<open>Safety of eviction\<close>

definition evictable :: "row \<Rightarrow> bool" where
  "evictable r \<longleftrightarrow> \<not> r_pinned r \<and> r_origin r = OriginCached"

lemma listWhere_evict [simp]: "listWhere [] evict_filter r \<longleftrightarrow> evictable r"
  by (auto simp: listWhere_def evict_filter_def no_filter_def evictable_def)

text \<open>Rows whose digests share a file have the same digest.\<close>

definition digests_canonical :: "row list \<Rightarrow> bool" where
  "digests_canonical rows \<longleftrightarrow>
     (\<forall>r \<in> set rows. \<forall>r' \<in> set rows. \<forall>h. hexDigest (r_digest r) = Inr h \<longrightarrow> hexDigest (r_digest r') = Inr h
        \<longrightarrow> r_digest r = r_digest r')"

text \<open>
  What eviction may do: drop evictable rows other than the protected one, and drop blobs that
  no remaining row refers to. It holds whatever input and output fail.
\<close>

definition evict_frame :: "cache_state \<Rightarrow> cache_state \<Rightarrow> bool" where
  "evict_frame s s' \<longleftrightarrow>
     mutable_entries (c_db s') = mutable_entries (c_db s) \<and> db_now (c_db s') = db_now (c_db s)
     \<and> db_fault (c_db s') = db_fault (c_db s) \<and> disk_root (c_disk s') = disk_root (c_disk s)
     \<and> disk_fault (c_disk s') = disk_fault (c_disk s) \<and> c_tmp s' = c_tmp s \<and> c_maxBytes s' = c_maxBytes s"

definition evict_safe :: "ArtifactRef \<Rightarrow> cache_state \<Rightarrow> cache_state \<Rightarrow> bool" where
  "evict_safe protect s s' \<longleftrightarrow>
     (\<exists>keep. rows_of s' = filter keep (rows_of s))
     \<and> (\<forall>r \<in> set (rows_of s). r \<in> set (rows_of s') \<or> (evictable r \<and> row_key r \<noteq> ref_key protect))
     \<and> evict_frame s s' \<and> blob_files (c_disk s') \<subseteq>\<^sub>m blob_files (c_disk s)
     \<and> (\<forall>r \<in> set (rows_of s'). \<forall>c. blob_present (c_disk s) (r_digest r) c \<longrightarrow> blob_present (c_disk s') (r_digest r) c)"

lemma evict_frame_refl [simp]: "evict_frame s s"
  by (simp add: evict_frame_def)

lemma evict_frame_trans: "evict_frame a b \<Longrightarrow> evict_frame b c \<Longrightarrow> evict_frame a c"
  by (simp add: evict_frame_def)

lemma evict_safe_refl [simp]: "evict_safe protect s s"
  by (auto simp: evict_safe_def intro: exI [of _ "\<lambda>_. True"])

lemma evict_safe_trans:
  assumes "evict_safe p a b" and "evict_safe p b c"
  shows "evict_safe p a c"
proof -
  have sub: "set (rows_of c) \<subseteq> set (rows_of b)" using assms(2) by (auto simp: evict_safe_def)
  obtain k1 k2 where "rows_of b = filter k1 (rows_of a)" "rows_of c = filter k2 (rows_of b)"
    using assms by (auto simp: evict_safe_def)
  then have "rows_of c = filter (\<lambda>r. k1 r \<and> k2 r) (rows_of a)" by (simp add: conj_commute)
  moreover have "\<forall>r \<in> set (rows_of a). r \<in> set (rows_of c) \<or> (evictable r \<and> row_key r \<noteq> ref_key p)"
    using assms unfolding evict_safe_def by blast
  moreover have "evict_frame a c" using assms evict_frame_trans unfolding evict_safe_def by blast
  moreover have "blob_files (c_disk c) \<subseteq>\<^sub>m blob_files (c_disk a)" using assms map_le_trans unfolding evict_safe_def by blast
  moreover have "\<forall>r \<in> set (rows_of c). \<forall>x. blob_present (c_disk a) (r_digest r) x \<longrightarrow> blob_present (c_disk c) (r_digest r) x"
    using assms sub unfolding evict_safe_def by blast
  ultimately show ?thesis unfolding evict_safe_def by blast
qed

lemma evict_safe_ticks: "only_ticks s s' \<Longrightarrow> evict_safe p s s'"
  by (auto simp: evict_safe_def evict_frame_def only_ticks_def intro: exI [of _ "\<lambda>_. True"])

lemma sameRef_key: "sameRef a b \<longleftrightarrow> ref_key a = ref_key b"
  by (simp add: sameRef_def ref_key_def)

lemma unreferenced_rows:
  assumes "blobIsUnreferenced s digest = (True, s1)" and "digest \<noteq> []"
  shows "\<forall>r \<in> set (rows_of s). r_digest r \<noteq> digest"
  using assms
  by (auto simp: blobIsUnreferenced_def listWhere_def no_filter_def filter_empty_conv
      split: sum.splits prod.splits dest!: ListEntries_rows)

lemma blob_present_Delete:
  assumes "blob_present d k c" and "\<And>h. hexDigest k = Inr h \<Longrightarrow> hexDigest digest \<noteq> Inr h"
  shows "blob_present (snd (blob_Delete d digest)) k c"
proof -
  obtain p where p: "blobPath d k = Inr p" "blob_files d p = Some c" using assms(1) by (auto simp: blob_present_def)
  have "blobPath d digest \<noteq> Inr p"
    using blobPath_hex p(1) assms(2) by blast
  moreover have "blobPath (snd (blob_Delete d digest)) k = blobPath d k" by (simp add: blobPath_def split: sum.splits)
  ultimately show ?thesis using p blob_Delete_other [of d digest p] by (simp add: blob_present_def)
qed

lemma evict_one_safe:
  assumes "Delete (c_db s) (ceRef (enEntry (row_Entry r))) = (Inr u, d)" and "r \<in> set rows0" and "evictable r"
    and "distinct (map row_key rows0)" and "set (rows_of s) \<subseteq> set rows0" and "digests_canonical rows0"
    and "row_key r \<noteq> ref_key protect"
  shows "evict_safe protect s (evict_one (row_Entry r) (s\<lparr>c_db := d\<rparr>))"
proof -
  let ?s1 = "s\<lparr>c_db := d\<rparr>" and ?s2 = "evict_one (row_Entry r) (s\<lparr>c_db := d\<rparr>)"
  have rows: "rows_of ?s1 = del_row (row_key r) (rows_of s)" using Delete_ok [OF assms(1)] by simp
  have "r' = r" if "r' \<in> set (rows_of s)" "row_key r' = row_key r" for r'
    using that assms(2,4,5) by (metis distinct_map inj_on_eq_iff subsetD)
  then have kept: "r' \<in> set (rows_of ?s2) \<or> r' = r" if "r' \<in> set (rows_of s)" for r'
    using that rows by (auto simp: del_row_def)
  have blobs: "blob_present (c_disk ?s2) (r_digest r') c"
    if r': "r' \<in> set (rows_of ?s2)" and c: "blob_present (c_disk s) (r_digest r') c" for r' c
  proof (cases rule: drop_blob_cases [of "r_digest r" ?s1])
    case (kept s1)
    with c show ?thesis by (auto simp: evict_one_def Let_def only_ticks_def)
  next
    case (dropped s1)
    show ?thesis
    proof (cases "r_digest r = []")
      case True
      with c show ?thesis by (simp add: evict_one_def Let_def drop_blob_def)
    next
      case False
      have "r_digest r' \<noteq> r_digest r"
        using unreferenced_rows [OF dropped(1) False] r' by simp
      then have "hexDigest (r_digest r') = Inr h \<Longrightarrow> hexDigest (r_digest r) \<noteq> Inr h" for h
        using assms(2,5,6) r' rows unfolding digests_canonical_def by (auto simp: del_row_def)
      with dropped c show ?thesis
        by (auto simp: evict_one_def Let_def only_ticks_def intro: blob_present_Delete)
    qed
  qed
  have "evict_frame s ?s1" using assms(1) by (auto simp: evict_frame_def Delete_def db_io_def split: option.splits)
  then have root: "evict_frame s ?s2"
    by (cases rule: drop_blob_cases [of "r_digest r" ?s1]) (auto simp: evict_one_def Let_def only_ticks_def evict_frame_def)
  have "blob_files (snd (blob_Delete d' k)) \<subseteq>\<^sub>m blob_files d'" for d' k
    by (auto simp: map_le_def store_simps split: option.splits sum.splits)
  then have "blob_files (c_disk ?s2) \<subseteq>\<^sub>m blob_files (c_disk s)"
    by (cases rule: drop_blob_cases [of "r_digest r" ?s1]) (auto simp: evict_one_def Let_def only_ticks_def)
  then show ?thesis
    unfolding evict_safe_def using kept blobs root assms(3,7) rows by (auto simp: del_row_def)
qed

lemma evict_safe_rows_subset: "evict_safe p s s' \<Longrightarrow> set (rows_of s') \<subseteq> set (rows_of s)"
  by (auto simp: evict_safe_def)

lemma evict_page_safe:
  assumes "distinct (map row_key rows0)" and "digests_canonical rows0"
    and "set (rows_of s) \<subseteq> set rows0" and "\<forall>e \<in> set es. \<exists>r \<in> set rows0. e = row_Entry r \<and> evictable r"
  shows "evict_safe protect s (snd (evict_page protect es need b s))"
  using assms(3,4)
proof (induction es need b s rule: evict_page_induct [where protect = protect])
  case (Fail e es need b s err d)
  have "d = (c_db s)\<lparr>db_tick := Suc (db_tick (c_db s))\<rparr>"
    using Fail(3) by (auto simp: Delete_def db_io_def split: option.splits)
  then have "only_ticks s (s\<lparr>c_db := d\<rparr>)" by (auto simp: only_ticks_def)
  with Fail(1-3) show ?case
    by (simp add: evict_page_step evict_safe_ticks del: evict_page.simps(2))
next
  case (Step e es need b s u d)
  obtain r where r: "r \<in> set rows0" "e = row_Entry r" "evictable r" using Step.prems(2) by auto
  then have one: "evict_safe protect s (evict_one e (s\<lparr>c_db := d\<rparr>))"
    using evict_one_safe [of s r u d rows0 protect] Step(2,3) Step.prems(1) assms(1,2) by (simp add: sameRef_key)
  then have "set (rows_of (evict_one e (s\<lparr>c_db := d\<rparr>))) \<subseteq> set rows0"
    using evict_safe_rows_subset Step.prems(1) by blast
  then have "evict_safe protect (evict_one e (s\<lparr>c_db := d\<rparr>))
      (snd (evict_page protect es (need - ceSize (enEntry e)) True (evict_one e (s\<lparr>c_db := d\<rparr>))))"
    using Step.IH Step.prems(2) by simp
  with one Step(1-3) show ?case
    by (simp add: evict_page_step evict_safe_trans del: evict_page.simps(2))
qed simp_all

lemma digests_canonical_mono: "digests_canonical rows \<Longrightarrow> set rows' \<subseteq> set rows \<Longrightarrow> digests_canonical rows'"
  by (meson digests_canonical_def subsetD)

lemma evict_safe_distinct:
  "evict_safe p s s' \<Longrightarrow> distinct (map row_key (rows_of s)) \<Longrightarrow> distinct (map row_key (rows_of s'))"
  by (auto simp: evict_safe_def distinct_map_filter)

lemma round_safe:
  assumes "distinct (map row_key (rows_of s))" and "digests_canonical (rows_of s)"
    and "with_db (\<lambda>d. ListEntries d [] evict_filter evict_Page) s = (Inr page, s1)"
  shows "evict_safe protect s (snd (evict_page protect (epEntries page) need b s1))"
proof -
  have t: "only_ticks s s1" using ListEntries_ticks [OF assms(3)] .
  then have "rows_of s1 = rows_of s" by (auto simp: only_ticks_def)
  then have "evict_safe protect s1 (snd (evict_page protect (epEntries page) need b s1))"
    using evict_page_safe [of "rows_of s" s1 "epEntries page"] page_keys [OF assms(3)] assms(1,2) by auto
  with evict_safe_ticks [OF t] show ?thesis by (rule evict_safe_trans)
qed

lemma enforce_loop_safe:
  assumes "distinct (map row_key (rows_of s))" and "digests_canonical (rows_of s)"
  shows "evict_safe protect s (snd (enforce_loop protect need s))"
  using assms
proof (induction protect need s rule: enforce_loop.induct)
  case (1 protect need s)
  obtain r s1 where l: "with_db (\<lambda>d. ListEntries d [] evict_filter evict_Page) s = (r, s1)" by fastforce
  note t = evict_safe_ticks [OF ListEntries_ticks [OF l]]
  show ?case
  proof (cases "need \<le> 0 \<or> (\<exists>e. r = Inl e) \<or> (\<exists>page. r = Inr page \<and> epEntries page = [])")
    case True
    with l t show ?thesis by (subst enforce_loop.simps) (auto simp del: with_db_simps)
  next
    case False
    then obtain page where r: "r = Inr page" "epEntries page \<noteq> []" "0 < need" by (cases r) auto
    obtain x s2 where p: "evict_page protect (epEntries page) need False s1 = (x, s2)" by fastforce
    with round_safe [OF "1.prems" l [unfolded r(1)], of protect need False] have safe: "evict_safe protect s s2" by simp
    show ?thesis
    proof (cases "\<exists>need'. x = Inr (need', True)")
      case True
      then obtain need' where x: "x = Inr (need', True)" by blast
      have "evict_safe protect s2 (snd (enforce_loop protect need' s2))"
        using "1.IH" [of r s1 page x s2 "(need', True)" need' True]
          r l p x evict_safe_distinct [OF safe] digests_canonical_mono [OF _ evict_safe_rows_subset [OF safe]] "1.prems"
        by (simp del: with_db_simps)
      with safe have "evict_safe protect s (snd (enforce_loop protect need' s2))" by (rule evict_safe_trans)
      with r l p x show ?thesis by (subst enforce_loop.simps) (simp del: with_db_simps)
    next
      case False
      with r l p safe show ?thesis
        by (subst enforce_loop.simps) (auto simp del: with_db_simps split: sum.splits prod.splits)
    qed
  qed
qed

lemma totalCachedBytes_ticks: "totalCachedBytes s = (r, s1) \<Longrightarrow> only_ticks s s1"
  by (auto simp: totalCachedBytes_def only_ticks_def CacheSizeByOrigin_def db_io_def
      split: sum.splits prod.splits option.splits)

section \<open>Eviction refines the shortest-prefix specification\<close>

fun free_prefix :: "int \<Rightarrow> row list \<Rightarrow> row list" where
  "free_prefix need [] = []"
| "free_prefix need (r # rs) = (if need \<le> 0 then [] else r # free_prefix (need - r_size r) rs)"

abbreviation bytes_of :: "row list \<Rightarrow> int" where
  "bytes_of rs \<equiv> sum_list (map r_size rs)"

definition candidate_rows :: "ArtifactRef \<Rightarrow> row list \<Rightarrow> row list" where
  "candidate_rows protect rows =
     filter (\<lambda>r. row_key r \<noteq> ref_key protect) (isort (orderClause evict_Page) (filter evictable rows))"

definition evicted_rows :: "ArtifactRef \<Rightarrow> int \<Rightarrow> row list \<Rightarrow> row list" where
  "evicted_rows protect need rows = free_prefix need (candidate_rows protect rows)"

abbreviation without :: "row list \<Rightarrow> row list \<Rightarrow> row list" where
  "without ps rows \<equiv> filter (\<lambda>r. r \<notin> set ps) rows"

lemma free_prefix_prefix: "\<exists>ys. xs = free_prefix need xs @ ys"
  by (induction need xs rule: free_prefix.induct) auto

lemma set_free_prefix: "set (free_prefix need xs) \<subseteq> set xs"
  using free_prefix_prefix [of xs need] by (metis Un_upper1 set_append)

lemma free_prefix_nonpos [simp]: "need \<le> 0 \<Longrightarrow> free_prefix need xs = []"
  by (cases xs) auto

lemma free_prefix_empty: "0 < need \<Longrightarrow> free_prefix need xs = [] \<longleftrightarrow> xs = []"
  by (cases xs) auto

lemma free_prefix_enough: "need \<le> bytes_of (free_prefix need xs) \<or> free_prefix need xs = xs"
  by (induction need xs rule: free_prefix.induct) auto

lemma free_prefix_minimal: "free_prefix need xs \<noteq> [] \<Longrightarrow> bytes_of (butlast (free_prefix need xs)) < need"
proof (induction need xs rule: free_prefix.induct)
  case (2 need r rs)
  then show ?case by (cases "free_prefix (need - r_size r) rs = []") (auto split: if_splits)
qed simp

lemma free_prefix_split:
  "distinct (A @ B) \<Longrightarrow> free_prefix need (A @ B) =
     free_prefix need A @ free_prefix (need - bytes_of (free_prefix need A)) (without (free_prefix need A) (A @ B))"
proof (induction A arbitrary: need)
  case (Cons a A)
  show ?case
  proof (cases "need \<le> 0")
    case False
    let ?P = "free_prefix (need - r_size a) A"
    have "without (a # ?P) (A @ B) = without ?P (A @ B)"
      using Cons.prems by (intro filter_cong) auto
    then have "without (free_prefix need (a # A)) ((a # A) @ B) = without ?P (A @ B)"
      using False by simp
    then show ?thesis using Cons False by (simp add: diff_diff_eq del: filter_append)
  qed simp
qed simp

lemma Normalize_evict_Page [simp]: "Normalize evict_Page = evict_Page"
  by (simp add: Normalize_def evict_Page_def evictBatch_def MaxLimit_def Let_def)

lemma evict_Page_limit: "nat (pLimit evict_Page) = 64" "nat (pOffset evict_Page) = 0"
  by (simp_all add: evict_Page_def evictBatch_def)

lemma isort_order_filter:
  "isort (orderClause pg) (filter P xs) = filter P (isort (orderClause pg) xs)"
  by (rule isort_filter, rule orderClause_total, rule orderClause_trans)

lemma candidate_rows_without: "candidate_rows protect (without ps rows) = without ps (candidate_rows protect rows)"
  unfolding candidate_rows_def by (simp add: isort_order_filter conj_ac cong: filter_cong)

lemma distinct_map_key: "distinct (map row_key rows) \<Longrightarrow> distinct rows"
  by (simp add: distinct_map)

lemma Delete_healthy:
  "db_healthy d \<Longrightarrow> Delete d ref = (Inr (), d\<lparr>db_tick := Suc (db_tick d), cache_entries := del_row (ref_key ref) (cache_entries d)\<rparr>)"
  by (simp add: Delete_def db_io_def db_healthy_def)

lemma del_row_without:
  "distinct (map row_key rows) \<Longrightarrow> r \<in> set rows \<Longrightarrow> del_row (row_key r) rows = without [r] rows"
  unfolding del_row_def by (intro filter_cong) (auto simp: distinct_map inj_on_eq_iff)


lemma evict_page_healthy:
  fixes protect :: ArtifactRef and need :: int
  assumes "db_healthy (c_db s)" and "distinct (map row_key (rows_of s))" and "set rs \<subseteq> set (rows_of s)" and "distinct rs"
  defines "P \<equiv> free_prefix need (filter (\<lambda>r. row_key r \<noteq> ref_key protect) rs)"
  shows "\<exists>s'. evict_page protect (map row_Entry rs) need b s = (Inr (need - bytes_of P, b \<or> P \<noteq> []), s')
    \<and> rows_of s' = without P (rows_of s) \<and> db_healthy (c_db s')
    \<and> c_evicted s' = c_evicted s @ map (\<lambda>r. (r_protocol r, r_size r)) P"
  using assms(1-4) unfolding P_def
proof (induction rs arbitrary: need b s)
  case (Cons r rs need b s)
  consider "need \<le> 0" | "0 < need" "row_key r = ref_key protect" | "0 < need" "row_key r \<noteq> ref_key protect"
    by linarith
  then show ?case
  proof cases
    case 2
    then have "sameRef (ceRef (enEntry (row_Entry r))) protect" by (simp add: sameRef_key)
    with 2 Cons.IH [of s need b] Cons.prems show ?thesis by auto
  next
    case 3
    then have nref: "\<not> sameRef (ceRef (enEntry (row_Entry r))) protect" by (simp add: sameRef_key)
    define s1 where "s1 = evict_one (row_Entry r) (s\<lparr>c_db := (c_db s)\<lparr>db_tick := Suc (db_tick (c_db s)),
       cache_entries := del_row (row_key r) (rows_of s)\<rparr>\<rparr>)"
    have rows1: "rows_of s1 = without [r] (rows_of s)"
      using Cons.prems by (simp add: s1_def del_row_without)
    have evicted1: "c_evicted s1 = c_evicted s @ [(r_protocol r, r_size r)]" by (simp add: s1_def)
    have h1: "db_healthy (c_db s1)" using Cons.prems(1) by (simp add: s1_def db_healthy_def)
    have step: "evict_page protect (map row_Entry (r # rs)) need b s =
        evict_page protect (map row_Entry rs) (need - r_size r) True s1"
      unfolding list.map(2) evict_page_step [OF 3(1) nref] Delete_healthy [OF Cons.prems(1)]
      by (simp add: s1_def)
    have "distinct (map row_key (rows_of s1))" "set rs \<subseteq> set (rows_of s1)" "distinct rs"
      using Cons.prems by (auto simp: rows1 distinct_map_filter)
    from Cons.IH [OF h1 this, of "need - r_size r" True] 3 show ?thesis
      unfolding step rows1 by (auto simp: evicted1 diff_diff_eq conj_commute)
  qed (use Cons.prems in simp)
qed simp

lemma ListEntries_healthy:
  assumes "db_healthy (c_db s)"
  shows "\<exists>page s1. with_db (\<lambda>d. ListEntries d p f pg) s = (Inr page, s1)
    \<and> epEntries page = map row_Entry (list_rows (rows_of s) p f (Normalize pg))
    \<and> rows_of s1 = rows_of s \<and> db_healthy (c_db s1) \<and> c_evicted s1 = c_evicted s"
  using assms by (auto simp: with_db_def ListEntries_def db_io_def db_healthy_def Let_def)

lemma batch_protect_only:
  assumes "distinct (map row_key L)" and "filter (\<lambda>r. row_key r \<noteq> k) (take 64 L) = []"
  shows "filter (\<lambda>r. row_key r \<noteq> k) L = []"
proof -
  have "length (take 64 L) \<le> 1"
  proof (rule ccontr)
    assume "\<not> length (take 64 L) \<le> 1"
    then have "1 < length L" by simp
    moreover from this have "L ! 0 \<in> set (take 64 L)" "L ! 1 \<in> set (take 64 L)"
      using nth_mem [of 0 "take 64 L"] nth_mem [of 1 "take 64 L"] by (cases L; simp)+
    moreover from this assms(2) have "row_key (L ! 0) = row_key (L ! 1)" by (auto simp: filter_empty_conv)
    ultimately show False using assms(1) nth_eq_iff_index_eq [of "map row_key L" 0 1] by (cases L) auto
  qed
  then have "take 64 L = L" by simp
  with assms(2) show ?thesis by simp
qed

lemma enforce_loop_refines:
  fixes protect :: ArtifactRef and need :: int
  assumes "db_healthy (c_db s)" and "distinct (map row_key (rows_of s))"
  defines "P \<equiv> evicted_rows protect need (rows_of s)"
  shows "\<exists>s'. enforce_loop protect need s = (Inr (), s') \<and> rows_of s' = without P (rows_of s)
    \<and> c_evicted s' = c_evicted s @ map (\<lambda>r. (r_protocol r, r_size r)) P"
  using assms(1,2) unfolding P_def
proof (induction "length (rows_of s)" arbitrary: need s rule: less_induct)
  case less
  define L where "L = isort (orderClause evict_Page) (filter evictable (rows_of s))"
  define np where "np = (\<lambda>r. row_key r \<noteq> ref_key protect)"
  have C: "candidate_rows protect (rows_of s) = filter np L" by (simp add: candidate_rows_def L_def np_def)
  have dL: "distinct (map row_key L)" using less.prems(2) by (simp add: L_def distinct_map_filter)
  obtain page s1 where l: "with_db (\<lambda>d. ListEntries d [] evict_filter evict_Page) s = (Inr page, s1)"
    and page: "epEntries page = map row_Entry (take 64 L)"
    and s1: "rows_of s1 = rows_of s" "db_healthy (c_db s1)" "c_evicted s1 = c_evicted s"
    using ListEntries_healthy [OF less.prems(1), of "[]" evict_filter evict_Page]
    by (auto simp: list_rows_def L_def evict_Page_limit simp del: with_db_simps cong: filter_cong)
  define P1 where "P1 = free_prefix need (filter np (take 64 L))"
  have sub: "set (take 64 L) \<subseteq> set (rows_of s1)" by (auto simp: s1 L_def dest: in_set_takeD)
  obtain s2 where ev: "evict_page protect (epEntries page) need False s1 = (Inr (need - bytes_of P1, P1 \<noteq> []), s2)"
    and s2: "rows_of s2 = without P1 (rows_of s)" "db_healthy (c_db s2)"
      "c_evicted s2 = c_evicted s @ map (\<lambda>r. (r_protocol r, r_size r)) P1"
    using evict_page_healthy [OF s1(2) _ sub, of protect need False] less.prems(2) dL
    by (auto simp: s1 page P1_def np_def distinct_map)
  show ?case
  proof (cases "0 < need \<and> P1 \<noteq> []")
    case True
    have "P1 \<noteq> []" "set P1 \<subseteq> set (rows_of s)"
      using True set_free_prefix [of need "filter np (take 64 L)"] sub by (auto simp: P1_def s1)
    then have "length (rows_of s2) < length (rows_of s)"
      unfolding s2 by (intro length_filter_less [of "hd P1"]) auto
    from less.hyps [OF this s2(2), of "need - bytes_of P1"] obtain s' where
      s': "enforce_loop protect (need - bytes_of P1) s2 = (Inr (), s')"
      "rows_of s' = without (evicted_rows protect (need - bytes_of P1) (rows_of s2)) (rows_of s2)"
      "c_evicted s' = c_evicted s2 @ map (\<lambda>r. (r_protocol r, r_size r)) (evicted_rows protect (need - bytes_of P1) (rows_of s2))"
      using less.prems(2) by (auto simp: s2 distinct_map_filter)
    have "distinct (filter np (take 64 L) @ filter np (drop 64 L))"
      using dL by (metis append_take_drop_id distinct_filter distinct_map filter_append)
    from free_prefix_split [OF this, of need] have "evicted_rows protect need (rows_of s)
        = P1 @ evicted_rows protect (need - bytes_of P1) (rows_of s2)"
      unfolding evicted_rows_def s2(1) candidate_rows_without C P1_def [symmetric]
      by (metis append_take_drop_id filter_append)
    moreover have "enforce_loop protect need s = enforce_loop protect (need - bytes_of P1) s2"
      using True l ev by (subst enforce_loop.simps) (auto simp: page P1_def simp del: with_db_simps)
    ultimately show ?thesis using s' s2 by (auto simp: conj_commute)
  next
    case False
    have "evicted_rows protect need (rows_of s) = []"
      using False batch_protect_only [OF dL, of "ref_key protect"]
      by (cases "0 < need") (auto simp: evicted_rows_def C P1_def free_prefix_empty np_def)
    moreover have "\<exists>s'. enforce_loop protect need s = (Inr (), s') \<and> rows_of s' = rows_of s \<and> c_evicted s' = c_evicted s"
      using False l ev s1 s2 by (subst enforce_loop.simps) (auto simp del: with_db_simps)
    ultimately show ?thesis by simp
  qed
qed

section \<open>Properties\<close>

lemma total_healthy:
  assumes "db_healthy (c_db s)" and "db_inv (c_db s)"
  shows "\<exists>s1. totalCachedBytes s = (Inr (cached_bytes (rows_of s)), s1) \<and> rows_of s1 = rows_of s
    \<and> db_healthy (c_db s1) \<and> c_evicted s1 = c_evicted s"
  using assms origin_stats_cached [of "rows_of s"]
  by (simp add: totalCachedBytes_def with_db_def CacheSizeByOrigin_def db_io_def db_healthy_def)

definition over_capacity :: "cache_state \<Rightarrow> int" where
  "over_capacity s = (if c_maxBytes s \<le> 0 then 0 else cached_bytes (rows_of s) - c_maxBytes s)"

lemma enforceCapacity_spec:
  assumes "db_healthy (c_db s)" and "db_inv (c_db s)"
  shows "\<exists>s'. enforceCapacity s protect = (Inr (), s')
    \<and> rows_of s' = without (evicted_rows protect (over_capacity s) (rows_of s)) (rows_of s)
    \<and> c_evicted s' = c_evicted s @ map (\<lambda>r. (r_protocol r, r_size r)) (evicted_rows protect (over_capacity s) (rows_of s))"
proof (cases "0 < over_capacity s")
  case True
  obtain s1 where t: "totalCachedBytes s = (Inr (cached_bytes (rows_of s)), s1)"
    and s1: "rows_of s1 = rows_of s" "db_healthy (c_db s1)" "c_evicted s1 = c_evicted s"
    using total_healthy [OF assms] by blast
  have "enforceCapacity s protect = enforce_loop protect (over_capacity s) s1"
    using True t by (simp add: enforceCapacity_def over_capacity_def MaxBytes_def split: if_splits)
  then show ?thesis
    using enforce_loop_refines [OF s1(2), of protect "over_capacity s"] assms(2) by (simp add: s1 rows_inv_def)
next
  case False
  then have "evicted_rows protect (over_capacity s) (rows_of s) = []" by (simp add: evicted_rows_def)
  moreover have "\<exists>s'. enforceCapacity s protect = (Inr (), s') \<and> rows_of s' = rows_of s \<and> c_evicted s' = c_evicted s"
    using False total_healthy [OF assms]
    by (auto simp: enforceCapacity_def over_capacity_def MaxBytes_def split: if_splits)
  ultimately show ?thesis by simp
qed

lemma set_candidate_rows:
  "r \<in> set (candidate_rows protect rows) \<longleftrightarrow> r \<in> set rows \<and> evictable r \<and> row_key r \<noteq> ref_key protect"
  by (auto simp: candidate_rows_def)

lemma distinct_candidate_rows: "distinct (map row_key rows) \<Longrightarrow> distinct (candidate_rows protect rows)"
  unfolding candidate_rows_def by (metis distinct_filter distinct_map distinct_map_filter distinct_map_isort)

lemma bytes_without:
  "distinct rows \<Longrightarrow> distinct ps \<Longrightarrow> set ps \<subseteq> set rows \<Longrightarrow> bytes_of (without ps rows) = bytes_of rows - bytes_of ps"
proof -
  assume d: "distinct rows" "distinct ps" "set ps \<subseteq> set rows"
  have "set (filter (\<lambda>r. r \<in> set ps) rows) = set ps" using d(3) by auto
  then have "bytes_of (filter (\<lambda>r. r \<in> set ps) rows) = bytes_of ps"
    using d by (simp add: sum_list_distinct_conv_sum_set del: set_filter)
  with sum_list_filter_partition [of r_size rows "\<lambda>r. r \<in> set ps"] show ?thesis by simp
qed

lemma cached_bytes_without:
  assumes "distinct (map row_key rows)" and "distinct ps" and "set ps \<subseteq> set rows" and "\<forall>r \<in> set ps. r_origin r = OriginCached"
  shows "cached_bytes (without ps rows) = cached_bytes rows - bytes_of ps"
proof -
  have "filter (\<lambda>r. r_origin r = OriginCached) (without ps rows) = without ps (filter (\<lambda>r. r_origin r = OriginCached) rows)"
    by (simp add: conj_commute)
  then show ?thesis
    unfolding cached_bytes_def using assms(2-4) distinct_map_key [OF assms(1)]
    by (simp only:) (rule bytes_without; auto)
qed

text \<open>C5: capacity enforcement is safe whatever input and output fail: it removes only unpinned
  pull-through rows other than the entry just stored, and never a blob that a remaining row
  refers to.\<close>

theorem enforceCapacity_safe:
  assumes "distinct (map row_key (rows_of s))" and "digests_canonical (rows_of s)"
  shows "evict_safe protect s (snd (enforceCapacity s protect))"
proof -
  obtain r s1 where t: "totalCachedBytes s = (r, s1)" by fastforce
  note tick = totalCachedBytes_ticks [OF t]
  then have "rows_of s1 = rows_of s" by (auto simp: only_ticks_def)
  then have "evict_safe protect s (snd (enforce_loop protect need s1))" for need
    using enforce_loop_safe [of s1] assms evict_safe_trans [OF evict_safe_ticks [OF tick]] by simp
  then show ?thesis
    using t evict_safe_ticks [OF tick] by (auto simp: enforceCapacity_def Let_def split: sum.splits)
qed

text \<open>C4: on a healthy store with a positive ceiling, enforcement ends without error, and afterwards the
  pull-through bytes are within the ceiling or nothing evictable is left but the protected entry.\<close>

theorem enforceCapacity_reaches_capacity:
  assumes "db_healthy (c_db s)" and "db_inv (c_db s)" and "0 < c_maxBytes s"
  shows "\<exists>s'. enforceCapacity s protect = (Inr (), s') \<and>
    (cached_bytes (rows_of s') \<le> c_maxBytes s \<or> (\<forall>r \<in> set (rows_of s'). evictable r \<longrightarrow> row_key r = ref_key protect))"
proof -
  define P where "P = evicted_rows protect (over_capacity s) (rows_of s)"
  obtain s' where s': "enforceCapacity s protect = (Inr (), s')" "rows_of s' = without P (rows_of s)"
    using enforceCapacity_spec [OF assms(1,2), of protect] unfolding P_def by blast
  have keys: "distinct (map row_key (rows_of s))" using assms(2) by (simp add: rows_inv_def)
  have "set P \<subseteq> set (candidate_rows protect (rows_of s))" "distinct P"
    using set_free_prefix distinct_candidate_rows [OF keys, of protect]
      free_prefix_prefix [of "candidate_rows protect (rows_of s)" "over_capacity s"]
    by (auto simp: P_def evicted_rows_def) (metis distinct_append)
  then have bytes: "cached_bytes (rows_of s') = cached_bytes (rows_of s) - bytes_of P"
    unfolding s'(2) by (intro cached_bytes_without [OF keys]) (auto simp: set_candidate_rows evictable_def)
  consider "over_capacity s \<le> bytes_of P" | "P = candidate_rows protect (rows_of s)"
    unfolding P_def evicted_rows_def using free_prefix_enough by blast
  then show ?thesis
  proof cases
    case 1
    with bytes assms(3) s'(1) show ?thesis by (auto simp: over_capacity_def)
  next
    case 2
    with s' show ?thesis by (auto simp: set_candidate_rows)
  qed
qed

text \<open>Eviction is oldest first and stops as soon as it can: no evictable survivor was created before
  an evicted row, and before the last eviction the cache was still over its ceiling.\<close>

theorem enforceCapacity_oldest_first:
  assumes "db_healthy (c_db s)" and "db_inv (c_db s)" and "enforceCapacity s protect = (r, s')"
  shows "(\<forall>x \<in> set (rows_of s) - set (rows_of s'). \<forall>y \<in> set (rows_of s').
            evictable y \<and> row_key y \<noteq> ref_key protect \<longrightarrow> r_created_at x \<le> r_created_at y)
    \<and> (let gone = drop (length (c_evicted s)) (c_evicted s') in
         gone \<noteq> [] \<longrightarrow> c_maxBytes s < cached_bytes (rows_of s) - sum_list (map snd (butlast gone)))"
proof -
  let ?C = "candidate_rows protect (rows_of s)"
  define P where "P = evicted_rows protect (over_capacity s) (rows_of s)"
  have s': "rows_of s' = without P (rows_of s)" "c_evicted s' = c_evicted s @ map (\<lambda>r. (r_protocol r, r_size r)) P"
    using enforceCapacity_spec [OF assms(1,2), of protect] assms(3) unfolding P_def by auto
  obtain ys where ys: "?C = P @ ys" using free_prefix_prefix unfolding P_def evicted_rows_def by blast
  have "sorted_wrt (orderClause evict_Page) ?C"
    unfolding candidate_rows_def by (intro sorted_wrt_filter sorted_isort orderClause_total) (rule orderClause_trans)
  then have order: "r_created_at x \<le> r_created_at y" if "x \<in> set P" "y \<in> set ys" for x y
    using that by (fastforce simp: ys sorted_wrt_append orderClause_def evict_Page_def col_less_def SortCreatedAt_def
        SortSize_def SortName_def SortVerifiedAt_def)
  have "y \<in> set ys" if "y \<in> set (rows_of s')" "evictable y" "row_key y \<noteq> ref_key protect" for y
    using that set_candidate_rows [of y protect "rows_of s"] by (auto simp: s' ys)
  with order have 1: "\<forall>x \<in> set (rows_of s) - set (rows_of s'). \<forall>y \<in> set (rows_of s').
      evictable y \<and> row_key y \<noteq> ref_key protect \<longrightarrow> r_created_at x \<le> r_created_at y"
    by (auto simp: s')
  have "c_maxBytes s < cached_bytes (rows_of s) - bytes_of (butlast P)" if "P \<noteq> []"
  proof -
    have "bytes_of (butlast P) < over_capacity s" using that free_prefix_minimal unfolding P_def evicted_rows_def by blast
    moreover have "\<not> c_maxBytes s \<le> 0" using that by (auto simp: P_def evicted_rows_def over_capacity_def split: if_splits)
    ultimately show ?thesis by (simp add: over_capacity_def)
  qed
  then show ?thesis using 1 by (simp add: s' map_butlast [symmetric] comp_def)
qed

section \<open>A cache over its ceiling\<close>

definition demo_over :: cache_state where
  "demo_over = demo_cache\<lparr>c_maxBytes := 3\<rparr>"

definition demo_other :: ArtifactRef where
  "demo_other = demo_ref\<lparr>rName := ''other''\<rparr>"

lemma demo_over_inv: "db_healthy (c_db demo_over)" "db_inv (c_db demo_over)" "0 < c_maxBytes demo_over"
    "digests_canonical (rows_of demo_over)" "distinct (map row_key (rows_of demo_over))"
  by (simp_all add: demo_over_def demo_cache_def demo_db_def db_healthy_def rows_inv_def demo_row_def entry_row_def
      digests_canonical_def)

theorem enforceCapacity_safe_witness: "evict_safe demo_other demo_over (snd (enforceCapacity demo_over demo_other))"
  by (rule enforceCapacity_safe [OF demo_over_inv(5,4)])

lemma demo_over_run:
  "\<exists>s'. enforceCapacity demo_over demo_other = (Inr (), s') \<and> rows_of s' = [] \<and> c_evicted s' = [(''npm'', 4)]"
  using enforceCapacity_spec [OF demo_over_inv(1,2), of demo_other]
  by (simp add: evicted_rows_def candidate_rows_def over_capacity_def cached_bytes_def evictable_def demo_over_def
      demo_cache_defs demo_other_def row_key_def ref_key_def)

theorem enforceCapacity_reaches_capacity_witness:
  "\<exists>s'. enforceCapacity demo_over demo_other = (Inr (), s') \<and> cached_bytes (rows_of s') \<le> c_maxBytes demo_over"
  using enforceCapacity_reaches_capacity [OF demo_over_inv(1-3), of demo_other] demo_over_run
  by (auto simp: cached_bytes_def demo_over_def)

theorem enforceCapacity_oldest_first_witness:
  "c_maxBytes demo_over <
     cached_bytes (rows_of demo_over) - sum_list (map snd (butlast (c_evicted (snd (enforceCapacity demo_over demo_other)))))"
proof -
  obtain s' where s': "enforceCapacity demo_over demo_other = (Inr (), s')" "c_evicted s' = [(''npm'', 4)]"
    using demo_over_run by blast
  from enforceCapacity_oldest_first [OF demo_over_inv(1,2) s'(1)] s' show ?thesis
    by (simp add: demo_over_def demo_cache_def)
qed

end
