(* ===== verification/Store.thy ===== *)
theory Store
  imports Evict
begin

text \<open>
  Verify-on-write promotion (\<^verbatim>\<open>Store\<close> and \<^verbatim>\<open>storeOnce\<close> of \<^verbatim>\<open>internal/cache/cache.go\<close>): run
  the chain over the quarantined file, then commit the blob, then the metadata row, then the
  mutable record, then enforce the capacity. The single-flight library that coalesces
  concurrent callers runs the first caller's function once and hands its result to all.
\<close>

section \<open>Promotion\<close>

text \<open>\<^verbatim>\<open>os.Open\<close> of a quarantine file; opening and reading share one fault point.\<close>

definition os_Open :: "string \<Rightarrow> tmpfs \<Rightarrow> (string + bytes) \<times> tmpfs" where
  "os_Open path st =
     (case q_call st of
        (Some e, st') \<Rightarrow> (Inl e, st')
      | (None, st') \<Rightarrow>
          ((case q_files st' path of None \<Rightarrow> Inl (''open '' @ path @ '': no such file or directory'') | Some c \<Rightarrow> Inr c), st'))"

definition open_quarantine :: "cache_state \<Rightarrow> string \<Rightarrow> string + bytes" where
  "open_quarantine s path =
     (case q_files (c_tmp s) path of None \<Rightarrow> Inl (''open '' @ path @ '': no such file or directory'') | Some c \<Rightarrow> Inr c)"

definition discard :: "Artifact \<Rightarrow> cache_state \<Rightarrow> cache_state" where
  "discard art s = s\<lparr>c_tmp := os_Remove (aPath art) (c_tmp s)\<rparr>"

definition store_entry :: "ArtifactRef \<Rightarrow> Artifact \<Rightarrow> Tier \<Rightarrow> gotime \<Rightarrow> CacheEntry" where
  "store_entry ref art tier now =
     \<lparr>ceRef = ref, ceDigest = aDigest art, ceSize = aSize art, ceProtocol = rProtocol ref, ceTier = tier,
      ceUpstream = uUpstream (aMeta art), ceETag = uETag (aMeta art), ceVerifiedAt = now, ceCreatedAt = now,
      ceOrigin = [], ceSoftExpired = False\<rparr>"

definition store_mutable :: "ArtifactRef \<Rightarrow> Artifact \<Rightarrow> gotime \<Rightarrow> MutableEntry" where
  "store_mutable ref art now =
     \<lparr>meKey = mutableKey ref, meProtocol = rProtocol ref, meDigest = aDigest art, mePayload = [],
      meETag = uETag (aMeta art), meLastModified = uLastModified (aMeta art),
      meTTLSeconds = ttlAlwaysRevalidate, meUpstream = uUpstream (aMeta art), meFetchedAt = now\<rparr>"

text \<open>Step 1 of \<^verbatim>\<open>storeOnce\<close>: the chain, the verification hook, and the two rejections.\<close>

definition verify_stage ::
  "cache_env \<Rightarrow> cache_state \<Rightarrow> ArtifactRef \<Rightarrow> Artifact \<Rightarrow> (cache_err + Result) \<times> cache_state" where
  "verify_stage env s ref art =
     (case chain_Verify (cvChain env (open_quarantine s)) (c_db s) ref art of
        ((result, err), db1, ms) \<Rightarrow>
          let s1 = s\<lparr>c_db := db1, c_metrics := c_metrics s @ ms\<rparr> in
          (case err of
             Some e \<Rightarrow> (Inl (CacheErr (''cache: verify chain: '' @ e)), discard art s1)
           | None \<Rightarrow>
               let s2 = s1\<lparr>c_verified := c_verified s1 @ [(ref, aDigest art, result)]\<rparr> in
               if resStatus result = StatusFail then (Inl (VerifyError ref result), discard art s2)
               else (Inr result, s2)))"

text \<open>Step 2: blob first, metadata after; the quarantine file goes in every case.\<close>

definition promote_stage ::
  "cache_env \<Rightarrow> cache_state \<Rightarrow> ArtifactRef \<Rightarrow> Artifact \<Rightarrow> Result \<Rightarrow> (cache_err + CacheEntry) \<times> cache_state" where
  "promote_stage env s ref art result =
     (case with_tmp (os_Open (aPath art)) s of
        (Inl e, s1) \<Rightarrow> (Inl (CacheErr (''cache: open quarantine for promotion: '' @ e)), discard art s1)
      | (Inr content, s1) \<Rightarrow>
          (case with_disk (\<lambda>d. blob_Put (cvDigest env) d (aDigest art) content (aSize art)) s1 of
             (Inl e, s2) \<Rightarrow> (Inl (CacheErr (''cache: blob put: '' @ blob_err_Error e)), discard art s2)
           | (Inr _, s2) \<Rightarrow>
               let entry = store_entry ref art (resTier result) (time_Now s2) in
               (case with_db (\<lambda>d. Put d entry) s2 of
                  (Inl e, s3) \<Rightarrow> (Inl (CacheErr (''cache: meta put: '' @ e)), discard art s3)
                | (Inr _, s3) \<Rightarrow> (Inr entry, discard art s3))))"

definition storeOnce ::
  "cache_env \<Rightarrow> cache_state \<Rightarrow> ArtifactRef \<Rightarrow> Artifact \<Rightarrow> (cache_err + CacheEntry) \<times> cache_state" where
  "storeOnce env s ref art =
     (case verify_stage env s ref art of
        (Inl e, s1) \<Rightarrow> (Inl e, s1)
      | (Inr result, s1) \<Rightarrow>
          (case promote_stage env s1 ref art result of
             (Inl e, s2) \<Rightarrow> (Inl e, s2)
           | (Inr entry, s2) \<Rightarrow>
               (case (if rMutable ref
                      then with_db (\<lambda>d. PutMutable d (store_mutable ref art (ceVerifiedAt entry))) s2
                      else (Inr (), s2)) of
                  (Inl e, s3) \<Rightarrow> (Inl (CacheErr (''cache: mutable meta put: '' @ e)), s3)
                | (Inr _, s3) \<Rightarrow> (Inr entry, snd (enforceCapacity s3 (ceRef entry))))))"

text \<open>
  One flight of the coalescer: the callers that joined the key \<^verbatim>\<open>store:<digest>\<close> while the
  first of them was running, in order of arrival. Each receives the leader's result.
\<close>

definition store_key :: "Artifact \<Rightarrow> string" where
  "store_key art = ''store:'' @ aDigest art"

definition Store_flight ::
  "cache_env \<Rightarrow> cache_state \<Rightarrow> (ArtifactRef \<times> Artifact) \<Rightarrow> (ArtifactRef \<times> Artifact) list
   \<Rightarrow> (cache_err + CacheEntry) list \<times> cache_state" where
  "Store_flight env s leader joined =
     (case storeOnce env s (fst leader) (snd leader) of
        (r, s') \<Rightarrow> (r # map (\<lambda>_. r) (filter (\<lambda>c. store_key (snd c) = store_key (snd leader)) joined), s'))"

definition Store ::
  "cache_env \<Rightarrow> cache_state \<Rightarrow> ArtifactRef \<Rightarrow> Artifact \<Rightarrow> (cache_err + CacheEntry) \<times> cache_state" where
  "Store env s ref art = (case Store_flight env s (ref, art) [] of (rs, s') \<Rightarrow> (hd rs, s'))"

lemma Store_storeOnce: "Store env s ref art = storeOnce env s ref art"
  by (simp add: Store_def Store_flight_def split: prod.splits)

section \<open>The invariant\<close>

text \<open>
  Keys are unique, every blob hashes to its name, and every row names a SHA-256 digest whose
  blob is stored.
\<close>

definition row_backed :: "disk \<Rightarrow> row \<Rightarrow> bool" where
  "row_backed d r \<longleftrightarrow> HasPrefix (r_digest r) ''sha256:'' \<and> (\<exists>c. blob_present d (r_digest r) c)"

definition cache_inv :: "digest_lib \<Rightarrow> cache_state \<Rightarrow> bool" where
  "cache_inv dg s \<longleftrightarrow> db_inv (c_db s) \<and> cas_intact dg (c_disk s) \<and> (\<forall>r \<in> set (rows_of s). row_backed (c_disk s) r)"

text \<open>The verifiers of a chain leave the rows and the pins of the metadata store alone.\<close>

definition chain_frames :: "cache_env \<Rightarrow> bool" where
  "chain_frames env \<longleftrightarrow> (\<forall>op. \<forall>v \<in> set (cvChain env op). \<forall>w ref art. keeps_pins w (snd (vVerify v w ref art)))"

lemma chain_keeps_pins:
  assumes "chain_frames env" and "chain_Verify (cvChain env op) w ref art = (x, w', ms)"
  shows "keeps_pins w w'"
proof -
  have "verifier_frame keeps_pins (cvChain env op)"
    using assms(1) by unfold_locales (auto simp: chain_frames_def intro: keeps_pins_trans)
  from verifier_frame.chain_frame [OF this, of w ref art] assms(2) show ?thesis by simp
qed

lemma sha256_hexDigest: "HasPrefix d ''sha256:'' \<Longrightarrow> hexDigest d = Inr h \<Longrightarrow> d = ''sha256:'' @ h"
  by (auto simp: HasPrefix_iff hexDigest_def Let_def split: if_splits option.splits)

lemma canonical_sha256: "\<forall>r \<in> set rows. HasPrefix (r_digest r) ''sha256:'' \<Longrightarrow> digests_canonical rows"
  unfolding digests_canonical_def using sha256_hexDigest by metis

lemma cache_inv_evict:
  assumes "cache_inv dg s" and "evict_safe p s s'"
  shows "cache_inv dg s'"
proof -
  obtain keep where "rows_of s' = filter keep (rows_of s)" using assms(2) by (auto simp: evict_safe_def)
  moreover have "cas_intact dg (c_disk s')"
    using assms by (auto simp: cache_inv_def evict_safe_def ldisk.intact_def map_le_def) (metis domI)
  ultimately show ?thesis
    using assms by (auto simp: cache_inv_def evict_safe_def rows_inv_filter row_backed_def) blast
qed

lemma cache_inv_cong:
  "rows_of s' = rows_of s \<Longrightarrow> c_disk s' = c_disk s \<Longrightarrow> cache_inv dg s' = cache_inv dg s"
  by (simp add: cache_inv_def)

lemma cache_inv_same_data: "same_data c c' \<Longrightarrow> cache_inv dg c \<Longrightarrow> cache_inv dg c'"
proof -
  assume a: "same_data c c'" "cache_inv dg c"
  have "blob_present (c_disk c') k x = blob_present (c_disk c) k x" for k x
    using a(1) by (intro blob_present_cong) (simp_all add: same_data_def)
  with a show "cache_inv dg c'" by (auto simp: cache_inv_def same_data_def row_backed_def ldisk.intact_def)
qed

lemma enforceCapacity_evict_safe:
  assumes "cache_inv dg s"
  shows "evict_safe p s (snd (enforceCapacity s p))"
proof -
  obtain r s1 where t: "totalCachedBytes s = (r, s1)" by fastforce
  note tick = totalCachedBytes_ticks [OF t]
  then have "rows_of s1 = rows_of s" by (auto simp: only_ticks_def)
  moreover have "distinct (map row_key (rows_of s))" "digests_canonical (rows_of s)"
    using assms canonical_sha256 by (auto simp: cache_inv_def rows_inv_def row_backed_def)
  ultimately have "evict_safe p s (snd (enforce_loop p need s1))" for need
    using enforce_loop_safe [of s1] evict_safe_trans [OF evict_safe_ticks [OF tick]] by simp
  then show ?thesis
    using t evict_safe_ticks [OF tick] by (auto simp: enforceCapacity_def Let_def split: sum.splits)
qed

lemma discard_simps [simp]:
  "c_db (discard art s) = c_db s" "c_disk (discard art s) = c_disk s"
  "c_verified (discard art s) = c_verified s" "c_evicted (discard art s) = c_evicted s"
  by (simp_all add: discard_def)

lemma verify_stage_state:
  assumes "chain_frames env" and "verify_stage env s ref art = (r, s1)"
  shows "keeps_pins (c_db s) (c_db s1) \<and> c_disk s1 = c_disk s"
proof -
  obtain result err db1 ms where c: "chain_Verify (cvChain env (open_quarantine s)) (c_db s) ref art = ((result, err), db1, ms)"
    by (metis surj_pair)
  from chain_keeps_pins [OF assms(1) c] assms(2) c show ?thesis
    by (auto simp: verify_stage_def Let_def split: option.splits if_splits)
qed

lemma verify_stage_ok:
  assumes "verify_stage env s ref art = (Inr result, s1)"
  shows "result = chain_result (cvChain env (open_quarantine s)) (c_db s) ref art
    \<and> resStatus result \<noteq> StatusFail \<and> c_tmp s1 = c_tmp s \<and> c_maxBytes s1 = c_maxBytes s
    \<and> c_db s1 = chain_state (cvChain env (open_quarantine s)) (c_db s) ref art"
  using assms by (auto simp: verify_stage_def Let_def split: option.splits if_splits prod.splits)

lemma row_backed_Put:
  assumes "row_backed d r"
  shows "row_backed (snd (blob_Put dg d k c n)) r"
proof -
  have "blobPath (snd (blob_Put dg d k c n)) x = blobPath d x" for x
    by (simp add: blobPath_def split: sum.splits)
  with assms blob_Put_dom [of d dg k c n] show ?thesis
    by (auto simp: row_backed_def blob_present_def dom_def subset_iff)
qed

lemma blob_Put_present:
  assumes "blob_Put dg d k c n = (Inr u, d')"
  shows "\<exists>c'. blob_present d' k c'"
proof -
  have "blobPath d' k = blobPath d k"
    using blob_Put_frame(1) [of dg d k c n] assms by (simp add: blobPath_def split: sum.splits)
  with blob_Put_ok [of dg d k c n] assms show ?thesis by (auto simp: blob_present_def)
qed

lemma promote_stage_inv:
  assumes "cache_inv (cvDigest env) s" and "HasPrefix (aDigest art) ''sha256:''"
    and "promote_stage env s ref art result = (r, s')"
  shows "cache_inv (cvDigest env) s'"
proof -
  let ?dg = "cvDigest env"
  obtain o1 s1 where o1: "with_tmp (os_Open (aPath art)) s = (o1, s1)" by fastforce
  have i1: "cache_inv ?dg s1" using assms(1) o1 by (auto simp: cache_inv_def)
  show ?thesis
  proof (cases o1)
    case (Inl e)
    with o1 assms(3) i1 show ?thesis by (auto simp: promote_stage_def cache_inv_def simp del: with_tmp_simps)
  next
    case (Inr content)
    obtain o2 d2 where o2: "blob_Put ?dg (c_disk s1) (aDigest art) content (aSize art) = (o2, d2)" by fastforce
    define s2 where "s2 = s1\<lparr>c_disk := d2\<rparr>"
    have i2: "cache_inv ?dg s2"
      using i1 o2 blob_Put_intact [of ?dg "c_disk s1" "aDigest art" content "aSize art"]
        row_backed_Put [of "c_disk s1" _ ?dg "aDigest art" content "aSize art"]
      by (simp add: cache_inv_def s2_def)
    show ?thesis
    proof (cases o2)
      case (Inl e)
      with o1 o2 \<open>o1 = Inr content\<close> assms(3) i2 show ?thesis
        by (auto simp: promote_stage_def with_disk_def s2_def cache_inv_def simp del: with_tmp_simps with_disk_simps)
    next
      case (Inr u)
      then obtain c where "blob_present d2 (aDigest art) c" using blob_Put_present o2 by blast
      then have new: "row_backed d2 x" if "r_digest x = aDigest art" for x
        using that assms(2) by (auto simp: row_backed_def)
      define e where "e = store_entry ref art (resTier result) (time_Now s2)"
      obtain o3 d3 where o3: "Put (c_db s2) e = (o3, d3)" by fastforce
      have "cache_entries d3 = cache_entries (c_db s2) \<or> cache_entries d3 = put_row (entry_row (db_now (c_db s2)) e) (cache_entries (c_db s2))"
        using o3 by (auto simp: Put_def db_io_def split: option.splits)
      then have "\<forall>x \<in> set (cache_entries d3). row_backed d2 x"
        using i2 new set_put_row [of _ "entry_row (db_now (c_db s2)) e"]
        by (fastforce simp: cache_inv_def s2_def entry_row_def e_def store_entry_def merge_row_def)
      moreover have "db_inv d3" using db_inv_Put [of "c_db s2" e] o3 i2 by (simp add: cache_inv_def)
      ultimately have "cache_inv ?dg (discard art (s2\<lparr>c_db := d3\<rparr>))"
        using i2 by (simp add: cache_inv_def s2_def)
      moreover have "s' = discard art (s2\<lparr>c_db := d3\<rparr>)"
        using assms(3) o1 o2 o3 Inr \<open>o1 = Inr content\<close>
        by (auto simp: promote_stage_def with_disk_def with_db_def s2_def e_def Let_def
            simp del: with_tmp_simps with_disk_simps with_db_simps split: sum.splits)
      ultimately show ?thesis by simp
    qed
  qed
qed

section \<open>The outcome of a promotion\<close>

lemma mutable_stage_state:
  assumes "(if rMutable ref then with_db (\<lambda>d. PutMutable d e) s2 else (Inr (), s2)) = (r, s3)"
  shows "rows_of s3 = rows_of s2 \<and> c_disk s3 = c_disk s2 \<and> db_fault (c_db s3) = db_fault (c_db s2) \<and> c_tmp s3 = c_tmp s2"
  using assms by (auto simp: PutMutable_def db_io_def split: if_splits option.splits)

lemma promote_stage_ok:
  assumes "promote_stage env s ref art result = (Inr entry, s')"
  shows "entry = store_entry ref art (resTier result) (time_Now s)
    \<and> rows_of s' = put_row (entry_row (db_now (c_db s)) entry) (rows_of s)
    \<and> db_fault (c_db s') = db_fault (c_db s)
    \<and> (\<exists>c u. q_files (c_tmp s) (aPath art) = Some c
         \<and> blob_Put (cvDigest env) (c_disk s) (aDigest art) c (aSize art) = (Inr u, c_disk s'))"
proof -
  have op: "q_files st p = Some c \<and> q_files st' = q_files st" if "os_Open p st = (Inr c, st')" for p st c st'
    using that by (auto simp: os_Open_def split: option.splits prod.splits dest!: q_call_files)
  show ?thesis
    using assms
    by (auto simp: promote_stage_def Let_def time_Now_def Put_def db_io_def split: sum.splits prod.splits option.splits
        dest!: op)
qed

lemma storeOnce_ok:
  assumes "storeOnce env s ref art = (Inr entry, s')"
  obtains result s1 s2 s3 where "verify_stage env s ref art = (Inr result, s1)"
    and "promote_stage env s1 ref art result = (Inr entry, s2)"
    and "rows_of s3 = rows_of s2" and "c_disk s3 = c_disk s2" and "db_fault (c_db s3) = db_fault (c_db s2)"
    and "s' = snd (enforceCapacity s3 ref)"
proof -
  obtain r1 s1 where v: "verify_stage env s ref art = (r1, s1)" by fastforce
  with assms obtain result where r1: "r1 = Inr result" by (cases r1) (auto simp: storeOnce_def)
  obtain r2 s2 where p: "promote_stage env s1 ref art result = (r2, s2)" by fastforce
  with assms v r1 have r2: "r2 = Inr entry" by (auto simp: storeOnce_def split: sum.splits prod.splits)
  obtain r3 s3 where m: "(if rMutable ref then with_db (\<lambda>d. PutMutable d (store_mutable ref art (ceVerifiedAt entry))) s2
      else (Inr (), s2)) = (r3, s3)" by fastforce
  have "ceRef entry = ref" using promote_stage_ok [of env s1 ref art result entry s2] p r2 by (simp add: store_entry_def)
  then have "s' = snd (enforceCapacity s3 ref)"
    using assms v r1 p r2 m by (auto simp: storeOnce_def simp del: with_db_simps split: sum.splits)
  with that v r1 p r2 mutable_stage_state [OF m] show ?thesis by blast
qed

lemma storeOnce_inv:
  assumes "cache_inv (cvDigest env) s" and "chain_frames env" and "HasPrefix (aDigest art) ''sha256:''"
  shows "cache_inv (cvDigest env) (snd (storeOnce env s ref art))"
proof -
  obtain r1 s1 where v: "verify_stage env s ref art = (r1, s1)" by fastforce
  have i1: "cache_inv (cvDigest env) s1"
    using verify_stage_state [OF assms(2) v] assms(1) by (simp add: cache_inv_def keeps_pins_def)
  show ?thesis
  proof (cases r1)
    case (Inl e)
    with v i1 show ?thesis by (simp add: storeOnce_def)
  next
    case (Inr result)
    obtain r2 s2 where p: "promote_stage env s1 ref art result = (r2, s2)" by fastforce
    have i2: "cache_inv (cvDigest env) s2" using promote_stage_inv [OF i1 assms(3) p] .
    show ?thesis
    proof (cases r2)
      case (Inl e)
      with v \<open>r1 = Inr result\<close> p i2 show ?thesis by (simp add: storeOnce_def)
    next
      case (Inr entry)
      obtain r3 s3 where m: "(if rMutable ref then with_db (\<lambda>d. PutMutable d (store_mutable ref art (ceVerifiedAt entry))) s2
          else (Inr (), s2)) = (r3, s3)" by fastforce
      have "cache_inv (cvDigest env) s3"
        using i2 mutable_stage_state [OF m] by (simp add: cache_inv_def)
      then have "cache_inv (cvDigest env) s3" "cache_inv (cvDigest env) (snd (enforceCapacity s3 x))" for x
        using cache_inv_evict enforceCapacity_evict_safe by blast+
      then show ?thesis
        using v \<open>r1 = Inr result\<close> p Inr m
        by (auto simp: storeOnce_def simp del: with_db_simps split: sum.splits)
    qed
  qed
qed

lemma find_row_evict_safe:
  assumes "evict_safe ref s s'" and "distinct (map row_key (rows_of s))" and "find_row (rows_of s) (ref_key ref) = Some r"
  shows "find_row (rows_of s') (ref_key ref) = Some r"
proof -
  have "r \<in> set (rows_of s')" using assms(1,3) by (auto simp: evict_safe_def dest: find_row_Some)
  then show ?thesis
    using find_row_member [OF evict_safe_distinct [OF assms(1,2)]] find_row_Some [OF assms(3)] by fastforce
qed

lemma store_row:
  "r_digest (merge_row old (entry_row now e)) = ceDigest e" "r_tier (merge_row old (entry_row now e)) = ceTier e"
  "r_digest (entry_row now e) = ceDigest e" "r_tier (entry_row now e) = ceTier e"
  by (simp_all add: merge_row_def entry_row_def)

lemma Store_row:
  assumes "cache_inv (cvDigest env) s" and "chain_frames env" and "HasPrefix (aDigest art) ''sha256:''"
    and "storeOnce env s ref art = (Inr entry, s')"
  shows "\<exists>r. find_row (rows_of s') (ref_key ref) = Some r \<and> r_digest r = aDigest art \<and> r_tier r = ceTier entry"
proof -
  from assms(4) obtain result s1 s2 s3 where v: "verify_stage env s ref art = (Inr result, s1)"
    and p: "promote_stage env s1 ref art result = (Inr entry, s2)"
    and s3: "rows_of s3 = rows_of s2" "c_disk s3 = c_disk s2" and s': "s' = snd (enforceCapacity s3 ref)"
    by (rule storeOnce_ok)
  have i1: "cache_inv (cvDigest env) s1"
    using verify_stage_state [OF assms(2) v] assms(1) by (simp add: cache_inv_def keeps_pins_def)
  have i3: "cache_inv (cvDigest env) s3"
    using promote_stage_inv [OF i1 assms(3) p] s3 by (simp add: cache_inv_def)
  have e: "entry = store_entry ref art (resTier result) (time_Now s1)"
    and rows: "rows_of s3 = put_row (entry_row (db_now (c_db s1)) entry) (rows_of s1)"
    using promote_stage_ok [OF p] s3 by simp_all
  have key: "row_key (entry_row (db_now (c_db s1)) entry) = ref_key ref"
    by (simp add: e row_key_def ref_key_def entry_row_def store_entry_def)
  have "\<exists>r. find_row (rows_of s3) (ref_key ref) = Some r \<and> r_digest r = aDigest art \<and> r_tier r = ceTier entry"
    unfolding rows find_row_put_row key by (auto simp: store_row e store_entry_def split: option.splits)
  then show ?thesis
    using find_row_evict_safe [OF enforceCapacity_evict_safe [OF i3]] i3 s' by (auto simp: cache_inv_def rows_inv_def)
qed

section \<open>Pins across stores\<close>

fun Store_history :: "cache_env \<Rightarrow> cache_state \<Rightarrow> (ArtifactRef \<times> Artifact) list \<Rightarrow> cache_state" where
  "Store_history env s [] = s"
| "Store_history env s ((ref, art) # h) = Store_history env (snd (Store env s ref art)) h"

definition pins_kept :: "cache_state \<Rightarrow> cache_state \<Rightarrow> bool" where
  "pins_kept s s' \<longleftrightarrow> (\<forall>ref. pin_of (c_db s) ref \<noteq> [] \<longrightarrow> pin_of (c_db s') ref = pin_of (c_db s) ref)"

lemma pins_kept_refl [simp]: "pins_kept s s"
  by (simp add: pins_kept_def)

lemma pins_kept_trans: "pins_kept a b \<Longrightarrow> pins_kept b c \<Longrightarrow> pins_kept a c"
  by (simp add: pins_kept_def)

lemma pins_kept_mutable:
  "mutable_entries (c_db s') = mutable_entries (c_db s) \<Longrightarrow> pins_kept s s'"
  by (simp add: pins_kept_def pin_of_def)

text \<open>Protocol names have no colon and are not the name space of the pins.\<close>

definition plain_protocol :: "ArtifactRef \<Rightarrow> bool" where
  "plain_protocol ref \<longleftrightarrow> CHR '':'' \<notin> set (rProtocol ref) \<and> rProtocol ref \<noteq> ''tofu''"

lemma mutableKey_not_pin:
  assumes "plain_protocol ref"
  shows "mutableKey ref \<noteq> pin_key k"
proof
  assume "mutableKey ref = pin_key k"
  then have "rProtocol ref @ CHR '':'' # (rName ref @ '':'' @ rVersion ref) = ''tofu'' @ CHR '':'' # k"
    by (simp add: mutableKey_def pin_key_def)
  then have "rProtocol ref = ''tofu''"
    using append_sep_inject [of "CHR '':''" "rProtocol ref" "''tofu''"] assms by (auto simp: plain_protocol_def)
  with assms show False by (simp add: plain_protocol_def)
qed

lemma promote_stage_mutable:
  "promote_stage env s ref art result = (r, s') \<Longrightarrow> mutable_entries (c_db s') = mutable_entries (c_db s)"
  by (auto simp: promote_stage_def Let_def Put_def db_io_def split: sum.splits prod.splits option.splits)

lemma mutable_stage_pins:
  assumes "plain_protocol ref"
    and "(if rMutable ref then with_db (\<lambda>d. PutMutable d (store_mutable ref art t)) s2 else (Inr (), s2)) = (r, s3)"
  shows "pins_kept s2 s3"
  using assms(2) mutableKey_not_pin [OF assms(1), symmetric]
  by (auto simp: PutMutable_def db_io_def store_mutable_def pins_kept_def pin_of_def split: if_splits option.splits)

lemma storeOnce_after_verify:
  assumes "verify_stage env s ref art = (Inr result, s1)" and "storeOnce env s ref art = (r, s')"
    and "chain_frames env" and "plain_protocol ref" and "cache_inv (cvDigest env) s" and "HasPrefix (aDigest art) ''sha256:''"
  shows "pins_kept s1 s'"
proof -
  have i1: "cache_inv (cvDigest env) s1"
    using verify_stage_state [OF assms(3,1)] assms(5) by (simp add: cache_inv_def keeps_pins_def)
  obtain r2 s2 where p: "promote_stage env s1 ref art result = (r2, s2)" by fastforce
  have k2: "pins_kept s1 s2" using pins_kept_mutable [OF promote_stage_mutable [OF p]] .
  have i2: "cache_inv (cvDigest env) s2" using promote_stage_inv [OF i1 assms(6) p] .
  show ?thesis
  proof (cases r2)
    case (Inr entry)
    obtain r3 s3 where m: "(if rMutable ref then with_db (\<lambda>d. PutMutable d (store_mutable ref art (ceVerifiedAt entry))) s2
        else (Inr (), s2)) = (r3, s3)" by fastforce
    have k3: "pins_kept s1 s3" using pins_kept_trans [OF k2 mutable_stage_pins [OF assms(4) m]] .
    have "evict_safe x s3 (snd (enforceCapacity s3 x))" for x
      using i2 mutable_stage_state [OF m] by (intro enforceCapacity_evict_safe [of "cvDigest env"]) (simp add: cache_inv_def)
    then have "pins_kept s1 (snd (enforceCapacity s3 x))" for x
      using pins_kept_trans [OF k3 pins_kept_mutable] by (simp add: evict_safe_def evict_frame_def)
    then show ?thesis
      using assms(1,2) p Inr m k3
      by (auto simp: storeOnce_def simp del: with_db_simps split: sum.splits)
  qed (use assms(1,2) p k2 in \<open>simp add: storeOnce_def\<close>)
qed

lemma storeOnce_pins:
  assumes "chain_frames env" and "plain_protocol ref" and "cache_inv dg s" and "HasPrefix (aDigest art) ''sha256:''"
    and "dg = cvDigest env"
  shows "pins_kept s (snd (storeOnce env s ref art))"
proof -
  obtain r1 s1 where v: "verify_stage env s ref art = (r1, s1)" by fastforce
  have k1: "pins_kept s s1"
    using verify_stage_state [OF assms(1) v] keeps_pins_pin_of by (auto simp: pins_kept_def)
  show ?thesis
  proof (cases r1)
    case (Inr result)
    obtain r s' where st: "storeOnce env s ref art = (r, s')" by fastforce
    with v Inr assms have "pins_kept s1 s'" by (intro storeOnce_after_verify [of env s ref art result]) simp_all
    with pins_kept_trans [OF k1] st show ?thesis by simp
  qed (use v k1 in \<open>simp add: storeOnce_def\<close>)
qed

lemma pin_of_cong: "tofuKey ref = tofuKey ref' \<Longrightarrow> pin_of d ref = pin_of d ref'"
  by (simp add: pin_of_def)

text \<open>The verifiers of a chain that starts as \<^verbatim>\<open>main.go\<close> builds it.\<close>

definition base_chain :: "cache_env \<Rightarrow> bool" where
  "base_chain env \<longleftrightarrow> (\<forall>op. \<exists>configured. cvChain env op = main_chain configured
     \<and> (\<forall>v \<in> set configured. \<forall>w ref art. keeps_pins w (snd (vVerify v w ref art))))"

lemma base_chain_frames: "base_chain env \<Longrightarrow> chain_frames env"
  unfolding base_chain_def chain_frames_def
  by (metis (no_types, lifting) main_chain_frames)

lemma Store_facts:
  assumes inv: "cache_inv (cvDigest env) s" "chain_frames env" "HasPrefix (aDigest art) ''sha256:''"
    and healthy: "db_healthy (c_db s)" "disk_healthy (c_disk s)"
    and new: "\<And>c. \<not> blob_present (c_disk s) (aDigest art) c"
    and store: "Store env s ref art = (Inr entry, s')"
  shows "\<exists>c r. q_files (c_tmp s) (aPath art) = Some c \<and> find_row (rows_of s') (ref_key ref) = Some r \<and> r_digest r = aDigest art
    \<and> blob_present (c_disk s') (aDigest art) c \<and> db_healthy (c_db s') \<and> disk_healthy (c_disk s')"
proof -
  have st: "storeOnce env s ref art = (Inr entry, s')" using store by (simp add: Store_storeOnce)
  from this obtain result s1 s2 s3 where v: "verify_stage env s ref art = (Inr result, s1)"
    and p: "promote_stage env s1 ref art result = (Inr entry, s2)"
    and s3: "rows_of s3 = rows_of s2" "c_disk s3 = c_disk s2" "db_fault (c_db s3) = db_fault (c_db s2)"
    and s': "s' = snd (enforceCapacity s3 ref)" by (rule storeOnce_ok)
  note vs = verify_stage_state [OF inv(2) v] verify_stage_ok [OF v]
  have i1: "cache_inv (cvDigest env) s1" using vs(1) inv(1) by (simp add: cache_inv_def keeps_pins_def)
  have i3: "cache_inv (cvDigest env) s3" using promote_stage_inv [OF i1 inv(3) p] s3 by (simp add: cache_inv_def)
  obtain c u where c: "q_files (c_tmp s) (aPath art) = Some c"
    and put: "blob_Put (cvDigest env) (c_disk s) (aDigest art) c (aSize art) = (Inr u, c_disk s3)"
    using promote_stage_ok [OF p] vs s3 by auto
  have root: "blobPath (c_disk s3) x = blobPath (c_disk s) x" for x
    using blob_Put_frame(1) [of "cvDigest env" "c_disk s" "aDigest art" c "aSize art"] put
    by (simp add: blobPath_def split: sum.splits)
  obtain c3 where c3: "blob_present (c_disk s3) (aDigest art) c3" using blob_Put_present [OF put] by blast
  then have c3c: "c3 = c"
    using blob_Put_files [of "cvDigest env" "c_disk s" "aDigest art" c "aSize art"] put new
    by (auto simp: blob_present_def root split: if_splits)
  have safe: "evict_safe ref s3 s'" using enforceCapacity_evict_safe [OF i3] s' by simp
  obtain r where r: "find_row (rows_of s') (ref_key ref) = Some r" "r_digest r = aDigest art"
    using Store_row [OF inv st] by blast
  then have "r \<in> set (rows_of s')" by (auto dest: find_row_Some)
  then have present: "blob_present (c_disk s') (aDigest art) c"
    using safe c3 c3c r(2) unfolding evict_safe_def by metis
  have h: "db_healthy (c_db s')" "disk_healthy (c_disk s')"
    using healthy safe s3 vs(1) promote_stage_ok [OF p] put blob_Put_frame(2) [of "cvDigest env" "c_disk s" "aDigest art" c "aSize art"]
    by (auto simp: evict_safe_def evict_frame_def db_healthy_def disk_healthy_def keeps_pins_def)
  show ?thesis using c r present h by blast
qed

lemma Serve_row:
  assumes h: "db_healthy (c_db s)" "disk_healthy (c_disk s)"
    and r: "find_row (rows_of s) (ref_key ref) = Some r" "r_digest r = digest" "digest \<noteq> []"
    and present: "blob_present (c_disk s) digest c" and ref: "\<not> rMutable ref" "rDigest ref = [] \<or> rDigest ref = digest"
  shows "\<exists>s'. Serve s ref off len = (Inr (range_read c off len, Some (row_CacheEntry r)), s')"
proof -
  let ?e = "row_CacheEntry r"
  obtain t where t: "Lookup s ref = (Inr (Some ?e), t)" "disk_healthy (c_disk t)"
    using lookupImmutable_healthy [OF h r(1)] present ref r(2) by (auto simp: Lookup_def)
  have "ceDigest ?e = digest" by (simp add: row_CacheEntry_def r)
  moreover have "blob_present (c_disk t) digest c"
    using same_data_Lookup [of s ref] t(1) present by (simp add: same_data_def blob_present_cong [of "c_disk t" "c_disk s"])
  ultimately obtain s' where "ServeEntry t (Some ?e) off len = (Inr (range_read c off len), s')"
    using ServeEntry_healthy [OF t(2), of ?e c] r(3) by auto
  then show ?thesis using t by (simp add: Serve_def)
qed

lemma Store_Serve:
  assumes inv: "cache_inv (cvDigest env) s" "chain_frames env" "HasPrefix (aDigest art) ''sha256:''"
    and healthy: "db_healthy (c_db s)" "disk_healthy (c_disk s)"
    and new: "\<And>c. \<not> blob_present (c_disk s) (aDigest art) c"
    and ref: "\<not> rMutable ref" "rDigest ref = [] \<or> rDigest ref = aDigest art"
    and store: "Store env s ref art = (Inr entry, s')"
  shows "\<exists>c e s''. q_files (c_tmp s) (aPath art) = Some c \<and> Serve s' ref off len = (Inr (range_read c off len, Some e), s'')"
proof -
  obtain c r where f: "q_files (c_tmp s) (aPath art) = Some c" "find_row (rows_of s') (ref_key ref) = Some r" "r_digest r = aDigest art"
    "blob_present (c_disk s') (aDigest art) c" "db_healthy (c_db s')" "disk_healthy (c_disk s')"
    using Store_facts [OF inv healthy new store] by blast
  moreover have "aDigest art \<noteq> []" using inv(3) by (auto simp: HasPrefix_def)
  ultimately show ?thesis using Serve_row [OF f(5,6,2,3) _ f(4) ref] by blast
qed

section \<open>Properties\<close>

text \<open>C1: storing keeps the cache invariant, on every path and whatever input and output fail: keys stay
  unique, every blob hashes to its name, and every metadata row has its blob (blob first,
  metadata after, eviction of unreferenced blobs only).\<close>

theorem Store_keeps_invariant:
  assumes "cache_inv (cvDigest env) s" and "chain_frames env" and "HasPrefix (aDigest art) ''sha256:''"
  shows "cache_inv (cvDigest env) (snd (Store env s ref art))"
  unfolding Store_storeOnce by (rule storeOnce_inv [OF assms])

text \<open>C2: an artifact enters the cache only after the chain accepted it, and the tier it is recorded with
  is the one the chain reached; its row is present afterwards even when the store had to evict.\<close>

theorem Store_accepts_only_verified:
  assumes "cache_inv (cvDigest env) s" and "chain_frames env" and "HasPrefix (aDigest art) ''sha256:''"
    and "Store env s ref art = (Inr entry, s')"
  shows "resStatus (chain_result (cvChain env (open_quarantine s)) (c_db s) ref art) \<in> {StatusPass, StatusWarn}
    \<and> (\<exists>r. find_row (rows_of s') (ref_key ref) = Some r \<and> r_digest r = aDigest art
          \<and> r_tier r = resTier (chain_result (cvChain env (open_quarantine s)) (c_db s) ref art)
          \<and> row_backed (c_disk s') r)"
proof -
  have st: "storeOnce env s ref art = (Inr entry, s')" using assms(4) by (simp add: Store_storeOnce)
  from this obtain result s1 s2 where v: "verify_stage env s ref art = (Inr result, s1)"
    and p: "promote_stage env s1 ref art result = (Inr entry, s2)" by (rule storeOnce_ok)
  note res = verify_stage_ok [OF v]
  have tier: "ceTier entry = resTier result" using promote_stage_ok [OF p] by (simp add: store_entry_def)
  have "resStatus result \<in> {StatusPass, StatusWarn}"
    using res chain_result_never_skip [of "cvChain env (open_quarantine s)" "c_db s" ref art]
    by (cases "resStatus result") auto
  moreover obtain r where "find_row (rows_of s') (ref_key ref) = Some r" "r_digest r = aDigest art" "r_tier r = ceTier entry"
    using Store_row [OF assms(1-3) st] by blast
  moreover from this have "row_backed (c_disk s') r"
    using storeOnce_inv [OF assms(1-3), of ref] st by (auto simp: cache_inv_def dest: find_row_Some)
  ultimately show ?thesis using res tier by auto
qed

text \<open>C20: an artifact the chain rejects leaves no trace in the cache: no row and no blob changes, and on a
  healthy file system its quarantine file is gone.\<close>

theorem Store_rejects_cleanly:
  assumes "chain_frames env"
    and "resStatus (chain_result (cvChain env (open_quarantine s)) (c_db s) ref art) = StatusFail"
  shows "\<exists>e s'. Store env s ref art = (Inl e, s') \<and> rows_of s' = rows_of s \<and> c_disk s' = c_disk s
    \<and> (\<not> q_healthy (c_tmp s) \<or> q_files (c_tmp s') (aPath art) = None)"
proof -
  obtain r s1 where v: "verify_stage env s ref art = (r, s1)" by fastforce
  then obtain e where r: "r = Inl e" using assms(2) verify_stage_ok by (cases r) auto
  have "c_tmp s1 = os_Remove (aPath art) (c_tmp s)"
    using v r by (auto simp: verify_stage_def discard_def Let_def split: option.splits if_splits prod.splits)
  then have "\<not> q_healthy (c_tmp s) \<or> q_files (c_tmp s1) (aPath art) = None"
    by (auto simp: os_Remove_def q_healthy_call)
  then show ?thesis
    using v r verify_stage_state [OF assms(1) v] by (auto simp: Store_storeOnce storeOnce_def keeps_pins_def)
qed

text \<open>C9: storing and then serving an immutable artifact gives back the requested range of the
  quarantined bytes, on healthy stores and for a digest not stored before.\<close>

theorem Store_then_Serve:
  assumes inv: "cache_inv (cvDigest env) s" "chain_frames env" "HasPrefix (aDigest art) ''sha256:''"
    and healthy: "db_healthy (c_db s)" "disk_healthy (c_disk s)"
    and new: "\<And>c. \<not> blob_present (c_disk s) (aDigest art) c"
    and ref: "\<not> rMutable ref" "rDigest ref = [] \<or> rDigest ref = aDigest art"
    and store: "Store env s ref art = (Inr entry, s')"
  shows "\<exists>c e s''. q_files (c_tmp s) (aPath art) = Some c \<and> Serve s' ref off len = (Inr (range_read c off len, Some e), s'')"
  using assms by (rule Store_Serve)

text \<open>The coalescer joins callers by digest alone: a caller that joins the flight of another reference
  with the same digest receives the leader's entry, and no row is written for its own reference.\<close>

theorem Store_flight_drops_joined_ref:
  assumes "cache_inv (cvDigest env) s" "chain_frames env" "HasPrefix (aDigest (snd leader)) ''sha256:''"
    and "aDigest (snd joiner) = aDigest (snd leader)" and "ref_key (fst joiner) \<noteq> ref_key (fst leader)"
    and "find_row (rows_of s) (ref_key (fst joiner)) = None"
    and "Store env s (fst leader) (snd leader) = (Inr entry, s')"
  shows "Store_flight env s leader [joiner] = ([Inr entry, Inr entry], s')
    \<and> ceRef entry = fst leader \<and> find_row (rows_of s') (ref_key (fst joiner)) = None"
proof -
  have st: "storeOnce env s (fst leader) (snd leader) = (Inr entry, s')" using assms(7) by (simp add: Store_storeOnce)
  from this obtain result s1 s2 s3 where v: "verify_stage env s (fst leader) (snd leader) = (Inr result, s1)"
    and p: "promote_stage env s1 (fst leader) (snd leader) result = (Inr entry, s2)"
    and s3: "rows_of s3 = rows_of s2" "c_disk s3 = c_disk s2"
    and s': "s' = snd (enforceCapacity s3 (fst leader))" by (rule storeOnce_ok)
  have r1: "rows_of s1 = rows_of s" using verify_stage_state [OF assms(2) v] by (simp add: keeps_pins_def)
  have i1: "cache_inv (cvDigest env) s1"
    using verify_stage_state [OF assms(2) v] assms(1) by (simp add: cache_inv_def keeps_pins_def)
  have i3: "cache_inv (cvDigest env) s3" using promote_stage_inv [OF i1 assms(3) p] s3 by (simp add: cache_inv_def)
  have e: "entry = store_entry (fst leader) (snd leader) (resTier result) (time_Now s1)"
    and rows: "rows_of s3 = put_row (entry_row (db_now (c_db s1)) entry) (rows_of s)"
    using promote_stage_ok [OF p] s3 r1 by simp_all
  have "row_key (entry_row (db_now (c_db s1)) entry) = ref_key (fst leader)"
    by (simp add: e row_key_def ref_key_def entry_row_def store_entry_def)
  then have "find_row (rows_of s3) (ref_key (fst joiner)) = None"
    using assms(5,6) by (simp add: rows find_row_put_row)
  then have "find_row (rows_of s') (ref_key (fst joiner)) = None"
    using evict_safe_rows_subset [OF enforceCapacity_evict_safe [OF i3, of "fst leader"]] s'
    by (auto simp: find_row_None)
  then show ?thesis using st assms(4) e by (simp add: Store_flight_def store_key_def store_entry_def)
qed

lemma Store_history_kept:
  assumes "chain_frames env" and "cache_inv (cvDigest env) s"
    and "\<forall>x \<in> set h. plain_protocol (fst x) \<and> HasPrefix (aDigest (snd x)) ''sha256:''"
  shows "pins_kept s (Store_history env s h) \<and> cache_inv (cvDigest env) (Store_history env s h)"
  using assms
proof (induction env s h rule: Store_history.induct)
  case (2 env s ref art h)
  let ?s = "snd (Store env s ref art)"
  have "pins_kept s ?s" "cache_inv (cvDigest env) ?s"
    using "2.prems" storeOnce_pins [of env ref "cvDigest env" s art] storeOnce_inv [of env s art ref]
    by (simp_all add: Store_storeOnce)
  with "2.IH" "2.prems" show ?case by (auto intro: pins_kept_trans)
qed simp


section \<open>A concrete history\<close>

definition demo_cenv :: cache_env where
  "demo_cenv = \<lparr>cvDigest = demo_dg, cvChain = (\<lambda>_. main_chain [])\<rparr>"

definition demo_store :: cache_state where
  "demo_store = demo_cache\<lparr>c_tmp := \<lparr>q_files = (\<lambda>p. if p = ''/q/p'' \<or> p = ''/q/r'' then Some ''ab'' else None),
     q_tick = 0, q_fault = (\<lambda>_. None)\<rparr>\<rparr>"

definition demo_new :: "string \<Rightarrow> Artifact" where
  "demo_new path = \<lparr>aPath = path, aDigest = ''sha256:ab'', aSize = 2, aMeta = no_meta\<rparr>"

definition is_Inr :: "'a + 'b \<Rightarrow> bool" where
  "is_Inr x = (case x of Inl _ \<Rightarrow> False | Inr _ \<Rightarrow> True)"

lemma is_Inr_pair: "is_Inr (fst x) \<Longrightarrow> \<exists>e. x = (Inr e, snd x)"
  by (cases x; cases "fst x") (auto simp: is_Inr_def)

lemma demo_run: "is_Inr (fst (Store demo_cenv demo_store demo_other (demo_new ''/q/p'')))"
  by code_simp

lemma demo_run2: "is_Inr (fst (Store demo_cenv (snd (Store demo_cenv demo_store demo_other (demo_new ''/q/p''))) demo_other (demo_new ''/q/r'')))"
  by code_simp

lemma demo_base: "base_chain demo_cenv"
  by (auto simp: base_chain_def demo_cenv_def intro: exI [of _ "[]"])

lemma demo_store_inv: "cache_inv (cvDigest demo_cenv) demo_store"
proof -
  have "cas_intact demo_dg (c_disk demo_store)" using demo_intact by (simp add: demo_store_def)
  moreover have "row_backed demo_disk demo_row"
    using demo_blobPath by (auto simp: row_backed_def blob_present_def demo_row_def entry_row_def HasPrefix_def demo_disk_def)
  moreover have "db_inv demo_db" using demo_over_inv(2) by (simp add: demo_over_def demo_cache_def)
  ultimately show ?thesis
    by (simp add: cache_inv_def demo_cenv_def demo_store_def demo_cache_def demo_db_def)
qed

lemma demo_new_prefix: "HasPrefix (aDigest (demo_new p)) ''sha256:''"
  by (simp add: demo_new_def HasPrefix_def)

lemma demo_other_facts: "\<not> rMutable demo_other" "rDigest demo_other = []" "plain_protocol demo_other"
  by (simp_all add: demo_other_def demo_ref_def plain_protocol_def)

theorem Store_keeps_invariant_witness:
  "cache_inv (cvDigest demo_cenv) (snd (Store demo_cenv demo_store demo_other (demo_new ''/q/p'')))"
  by (rule Store_keeps_invariant [OF demo_store_inv base_chain_frames [OF demo_base] demo_new_prefix])

theorem Store_accepts_only_verified_witness:
  "\<exists>r. find_row (rows_of (snd (Store demo_cenv demo_store demo_other (demo_new ''/q/p'')))) (ref_key demo_other) = Some r
     \<and> r_digest r = ''sha256:ab''"
proof -
  obtain e where e: "Store demo_cenv demo_store demo_other (demo_new ''/q/p'') =
      (Inr e, snd (Store demo_cenv demo_store demo_other (demo_new ''/q/p'')))" using is_Inr_pair [OF demo_run] by blast
  show ?thesis
    using Store_accepts_only_verified [OF demo_store_inv base_chain_frames [OF demo_base] demo_new_prefix e]
    by (auto simp: demo_new_def)
qed

lemma demo_pinned_rejected:
  "resStatus (chain_result (cvChain demo_cenv (open_quarantine demo_store)) (c_db demo_store)
     (demo_other\<lparr>rDigest := ''sha256:cd''\<rparr>) (demo_new ''/q/p'')) = StatusFail"
  by (simp add: demo_cenv_def main_chain_def chain_Verify_def ChecksumVerifier_def checksum_Verify_def demo_new_def)

theorem Store_rejects_cleanly_witness:
  "\<exists>e s'. Store demo_cenv demo_store (demo_other\<lparr>rDigest := ''sha256:cd''\<rparr>) (demo_new ''/q/p'') = (Inl e, s')
     \<and> rows_of s' = rows_of demo_store \<and> c_disk s' = c_disk demo_store \<and> q_files (c_tmp s') ''/q/p'' = None"
  using Store_rejects_cleanly [OF base_chain_frames [OF demo_base] demo_pinned_rejected]
  by (auto simp: demo_store_def q_healthy_def demo_new_def)

theorem Store_then_Serve_witness:
  "\<exists>c e s''. q_files (c_tmp demo_store) ''/q/p'' = Some c
     \<and> Serve (snd (Store demo_cenv demo_store demo_other (demo_new ''/q/p''))) demo_other 1 1 = (Inr (range_read c 1 1, Some e), s'')"
proof -
  obtain e where e: "Store demo_cenv demo_store demo_other (demo_new ''/q/p'') =
      (Inr e, snd (Store demo_cenv demo_store demo_other (demo_new ''/q/p'')))" using is_Inr_pair [OF demo_run] by blast
  have "db_healthy (c_db demo_store)" "disk_healthy (c_disk demo_store)"
    "\<not> blob_present (c_disk demo_store) (aDigest (demo_new ''/q/p'')) c" for c
    by (simp_all add: demo_store_def demo_cache_defs db_healthy_def disk_healthy_def blob_present_def blobPath_def
        hexDigest_def demo_new_def)
  from Store_then_Serve [OF demo_store_inv base_chain_frames [OF demo_base] demo_new_prefix this demo_other_facts(1) _ e, of 1 1]
  show ?thesis by (simp add: demo_other_facts demo_new_def)
qed

theorem Store_flight_drops_joined_ref_witness:
  "\<exists>entry. Store_flight demo_cenv demo_store (demo_other, demo_new ''/q/p'') [(demo_other\<lparr>rName := ''third''\<rparr>, demo_new ''/q/r'')]
      = ([Inr entry, Inr entry], snd (Store demo_cenv demo_store demo_other (demo_new ''/q/p''))) \<and> ceRef entry = demo_other"
proof -
  obtain e where e: "Store demo_cenv demo_store demo_other (demo_new ''/q/p'') =
      (Inr e, snd (Store demo_cenv demo_store demo_other (demo_new ''/q/p'')))" using is_Inr_pair [OF demo_run] by blast
  show ?thesis
    using Store_flight_drops_joined_ref [of demo_cenv demo_store "(demo_other, demo_new ''/q/p'')"
        "(demo_other\<lparr>rName := ''third''\<rparr>, demo_new ''/q/r'')" e, OF demo_store_inv base_chain_frames [OF demo_base]]
      demo_new_prefix e
    by (simp add: demo_new_def ref_key_def demo_other_def demo_store_def find_row_def row_key_def demo_cache_defs HasPrefix_def)
qed


end
