(* ===== verification/DepConfusion.thy ===== *)
theory DepConfusion
  imports Prelude
begin

text \<open>
  The dependency-confusion guard (\<^verbatim>\<open>internal/verify/depconfusion.go\<close>): which names are
  private, and what a handler must do with the private upstream's answer. \<^verbatim>\<open>path.Match\<close> of
  the Go library is given by its documented pattern language; a malformed pattern matches
  nothing, since the caller ignores the error it returns.
\<close>

section \<open>path.Match\<close>

datatype glob_tok = GStar | GAny | GLit char | GClass bool "(char \<times> char) list"

text \<open>One character of a class, perhaps escaped; \<^const>\<open>None\<close> is \<^verbatim>\<open>ErrBadPattern\<close>.\<close>

fun getEsc :: "string \<Rightarrow> (char \<times> string) option" where
  "getEsc [] = None"
| "getEsc (c # cs) =
     (if c = CHR ''-'' \<or> c = CHR '']'' then None
      else if c = CHR 0x5C then (case cs of [] \<Rightarrow> None | d # ds \<Rightarrow> if ds = [] then None else Some (d, ds))
      else if cs = [] then None else Some (c, cs))"

lemma getEsc_length: "getEsc s = Some (c, r) \<Longrightarrow> length r < length s"
  by (cases s) (auto split: if_splits list.splits)

text \<open>The ranges of a class up to its closing bracket; at least one range is needed.\<close>

function glob_ranges :: "string \<Rightarrow> (char \<times> char) list \<Rightarrow> ((char \<times> char) list \<times> string) option" where
  "glob_ranges s acc =
     (case s of
        [] \<Rightarrow> None
      | c # cs \<Rightarrow>
          if c = CHR '']'' \<and> acc \<noteq> [] then Some (rev acc, cs)
          else
            (case getEsc s of
               None \<Rightarrow> None
             | Some (lo, r) \<Rightarrow>
                 (case r of
                    [] \<Rightarrow> None
                  | d # ds \<Rightarrow>
                      if d = CHR ''-'' then
                        (case getEsc ds of None \<Rightarrow> None | Some (hi, r2) \<Rightarrow> glob_ranges r2 ((lo, hi) # acc))
                      else glob_ranges r ((lo, lo) # acc))))"
  by pat_completeness auto
termination
proof (relation "measure (\<lambda>(s, acc). length s)", goal_cases)
  case (2 s acc c cs x lo r d ds y hi r2)
  then show ?case using getEsc_length [of "c # cs" lo "d # ds"] getEsc_length [of ds hi r2] by simp
next
  case (3 s acc c cs x lo r d ds)
  then show ?case using getEsc_length [of "c # cs" lo "d # ds"] by simp
qed simp

declare glob_ranges.simps [simp del]

lemma glob_ranges_length: "glob_ranges s acc = Some (rs, r) \<Longrightarrow> length r < length s"
proof (induction "length s" arbitrary: s acc rule: less_induct)
  case less
  obtain c cs where s: "s = c # cs" using less.prems by (cases s) (auto simp: glob_ranges.simps)
  show ?case
  proof (cases "c = CHR '']'' \<and> acc \<noteq> []")
    case True
    with less.prems s show ?thesis by (simp add: glob_ranges.simps)
  next
    case False
    then obtain lo d ds where e: "getEsc (c # cs) = Some (lo, d # ds)"
      using less.prems s by (subst (asm) glob_ranges.simps) (auto split: option.splits list.splits)
    note l = getEsc_length [OF e]
    show ?thesis
    proof (cases "d = CHR ''-''")
      case True
      then obtain hi r2 where h: "getEsc ds = Some (hi, r2)" and "glob_ranges r2 ((lo, hi) # acc) = Some (rs, r)"
        using less.prems s False e by (subst (asm) glob_ranges.simps) (auto split: option.splits)
      with less.hyps [of r2 "(lo, hi) # acc"] getEsc_length [OF h] l s show ?thesis by simp
    next
      case nd: False
      then have "glob_ranges (d # ds) ((lo, lo) # acc) = Some (rs, r)"
        using less.prems s False e by (subst (asm) glob_ranges.simps) auto
      with less.hyps [of "d # ds" "(lo, lo) # acc"] l s show ?thesis by simp
    qed
  qed
qed

function glob_parse :: "string \<Rightarrow> glob_tok list option" where
  "glob_parse [] = Some []"
| "glob_parse (c # cs) =
     (if c = CHR ''*'' then map_option (Cons GStar) (glob_parse cs)
      else if c = CHR ''?'' then map_option (Cons GAny) (glob_parse cs)
      else if c = CHR 0x5C then
        (case cs of [] \<Rightarrow> None | d # ds \<Rightarrow> map_option (Cons (GLit d)) (glob_parse ds))
      else if c = CHR ''['' then
        (let neg = (cs \<noteq> [] \<and> hd cs = CHR ''^'') in
         case glob_ranges (if neg then tl cs else cs) [] of
           None \<Rightarrow> None
         | Some (rs, r) \<Rightarrow> map_option (Cons (GClass neg rs)) (glob_parse r))
      else map_option (Cons (GLit c)) (glob_parse cs))"
  by pat_completeness auto
termination
proof (relation "measure length", goal_cases)
  case (5 c cs neg x rs r)
  then have "length r < length (if neg then tl cs else cs)" using glob_ranges_length by metis
  then show ?case by (auto split: if_splits)
qed auto

text \<open>A star matches any characters but the slash, a question mark one such character.\<close>

fun glob_match :: "glob_tok list \<Rightarrow> string \<Rightarrow> bool" where
  "glob_match [] s = (s = [])"
| "glob_match (GStar # ts) s =
     (glob_match ts s \<or> (case s of [] \<Rightarrow> False | x # s' \<Rightarrow> x \<noteq> CHR ''/'' \<and> glob_match (GStar # ts) s'))"
| "glob_match (GAny # ts) s = (case s of [] \<Rightarrow> False | x # s' \<Rightarrow> x \<noteq> CHR ''/'' \<and> glob_match ts s')"
| "glob_match (GLit c # ts) s = (case s of [] \<Rightarrow> False | x # s' \<Rightarrow> x = c \<and> glob_match ts s')"
| "glob_match (GClass neg rs # ts) s =
     (case s of [] \<Rightarrow> False | x # s' \<Rightarrow> (list_ex (\<lambda>(lo, hi). lo \<le> x \<and> x \<le> hi) rs \<noteq> neg) \<and> glob_match ts s')"

definition path_Match :: "string \<Rightarrow> string \<Rightarrow> bool" where
  "path_Match pattern name = (case glob_parse pattern of None \<Rightarrow> False | Some ts \<Rightarrow> glob_match ts name)"

section \<open>The guard\<close>

record DepConfusionConfig =
  dcProtocol :: string
  dcPrivateNames :: "string list"
  dcPrivateScopes :: "string list"
  dcPrivateUnscoped :: "string list"
  dcFailClosed :: bool

definition npmScope :: "string \<Rightarrow> string option" where
  "npmScope pkg =
     (if \<not> HasPrefix pkg ''@'' then None
      else case IndexByte pkg (CHR ''/'') of
        Some i \<Rightarrow> if 0 < i then Some (take i pkg) else Some pkg
      | None \<Rightarrow> Some pkg)"

definition normalizeScope :: "string \<Rightarrow> string" where
  "normalizeScope s0 =
     (let s = ToLower (TrimSpace s0) in if \<not> HasPrefix s ''@'' then ''@'' @ s else s)"

definition pep_sep :: "char \<Rightarrow> bool" where
  "pep_sep r \<longleftrightarrow> r = CHR ''-'' \<or> r = CHR ''_'' \<or> r = CHR ''.''"

fun pep_collapse :: "bool \<Rightarrow> string \<Rightarrow> string" where
  "pep_collapse prevSep [] = []"
| "pep_collapse prevSep (r # rs) =
     (if pep_sep r then (if \<not> prevSep then CHR ''-'' # pep_collapse True rs else pep_collapse True rs)
      else r # pep_collapse False rs)"

definition trim_dash :: "string \<Rightarrow> string" where
  "trim_dash s = rev (dropWhile (\<lambda>c. c = CHR ''-'') (rev (dropWhile (\<lambda>c. c = CHR ''-'') s)))"

definition normalizePEP503 :: "string \<Rightarrow> string" where
  "normalizePEP503 name = trim_dash (pep_collapse False (ToLower (TrimSpace name)))"

fun matchAny :: "string \<Rightarrow> string list \<Rightarrow> bool \<Rightarrow> bool" where
  "matchAny name [] norml = False"
| "matchAny name (p0 # ps) norml =
     (let p1 = TrimSpace p0 in
      if p1 = [] then matchAny name ps norml
      else
        let p = (if norml then normalizePEP503 p1 else p1) in
        if p = name then True
        else if list_ex (\<lambda>c. c = CHR ''*'' \<or> c = CHR ''?'' \<or> c = CHR ''['') p \<and> path_Match p name then True
        else matchAny name ps norml)"

definition in_scopes :: "DepConfusionConfig \<Rightarrow> string \<Rightarrow> bool" where
  "in_scopes cfg scope = list_ex (\<lambda>s. EqualFold scope (normalizeScope s)) (dcPrivateScopes cfg)"

definition IsPrivate :: "DepConfusionConfig \<Rightarrow> string \<Rightarrow> bool" where
  "IsPrivate cfg pkg0 =
     (let pkg = TrimSpace pkg0 in
      if pkg = [] then False
      else if dcProtocol cfg = ''npm'' then
        (case npmScope pkg of
           Some scope \<Rightarrow> in_scopes cfg scope
         | None \<Rightarrow> matchAny pkg (dcPrivateUnscoped cfg) False)
      else if dcProtocol cfg = ''pypi'' then matchAny (normalizePEP503 pkg) (dcPrivateNames cfg) True
      else if matchAny pkg (dcPrivateNames cfg) False \<or> matchAny pkg (dcPrivateUnscoped cfg) False then True
      else (case npmScope pkg of Some scope \<Rightarrow> in_scopes cfg scope | None \<Rightarrow> False))"

datatype UpstreamOutcome = OutcomeOK | OutcomeNotFound | OutcomeDown
datatype Action = ActionServe | ActionNotFound | ActionFailClosed | ActionServeStale

definition ResolvePrivate :: "DepConfusionConfig \<Rightarrow> UpstreamOutcome \<Rightarrow> Action" where
  "ResolvePrivate cfg outcome =
     (case outcome of
        OutcomeOK \<Rightarrow> ActionServe
      | OutcomeNotFound \<Rightarrow> ActionNotFound
      | OutcomeDown \<Rightarrow> if dcFailClosed cfg then ActionFailClosed else ActionServeStale)"

section \<open>Normalisation\<close>

fun no_dashes :: "string \<Rightarrow> bool" where
  "no_dashes (a # b # s) \<longleftrightarrow> \<not> (a = CHR ''-'' \<and> b = CHR ''-'') \<and> no_dashes (b # s)"
| "no_dashes _ \<longleftrightarrow> True"

text \<open>A normal form has no separator but single dashes inside it, and no upper-case letter.\<close>

definition pep_normal :: "string \<Rightarrow> bool" where
  "pep_normal s \<longleftrightarrow> (\<forall>c \<in> set s. c \<noteq> CHR ''_'' \<and> c \<noteq> CHR ''.'' \<and> lower_char c = c) \<and> no_dashes s
     \<and> (s = [] \<or> hd s \<noteq> CHR ''-'' \<and> last s \<noteq> CHR ''-'')"

lemma lower_char_sep [simp]: "lower_char (CHR ''-'') = CHR ''-''"
  by (simp add: lower_char_def)

lemma no_dashes_append: "no_dashes (xs @ ys) \<Longrightarrow> no_dashes xs \<and> no_dashes ys"
  by (induction xs rule: no_dashes.induct; cases ys) auto

lemma no_dashes_collapse:
  "no_dashes (pep_collapse b s) \<and> (b \<longrightarrow> pep_collapse b s = [] \<or> hd (pep_collapse b s) \<noteq> CHR ''-'')"
proof (induction b s rule: pep_collapse.induct)
  case (2 b r rs)
  have "no_dashes (x # ys)" if "no_dashes ys" "x \<noteq> CHR ''-'' \<or> ys = [] \<or> hd ys \<noteq> CHR ''-''" for x ys
    using that by (cases ys) auto
  with 2 show ?case by (auto simp: pep_sep_def)
qed simp

lemma set_collapse: "c \<in> set (pep_collapse b s) \<Longrightarrow> c = CHR ''-'' \<or> (c \<in> set s \<and> \<not> pep_sep c)"
  by (induction b s rule: pep_collapse.induct) (auto split: if_splits)

lemma collapse_id:
  assumes "\<forall>c \<in> set s. pep_sep c \<longrightarrow> c = CHR ''-''" and "no_dashes s" and "\<not> b \<or> s = [] \<or> hd s \<noteq> CHR ''-''"
  shows "pep_collapse b s = s"
  using assms
proof (induction s arbitrary: b)
  case (Cons r rs)
  have "no_dashes rs \<and> (r \<noteq> CHR ''-'' \<or> rs = [] \<or> hd rs \<noteq> CHR ''-'')" using Cons.prems(2) by (cases rs) auto
  then have nd: "no_dashes rs" "r \<noteq> CHR ''-'' \<or> rs = [] \<or> hd rs \<noteq> CHR ''-''" by blast+
  have sep: "pep_sep r \<longleftrightarrow> r = CHR ''-''" using Cons.prems(1) by (auto simp: pep_sep_def)
  have "\<forall>c \<in> set rs. pep_sep c \<longrightarrow> c = CHR ''-''" using Cons.prems(1) by (meson list.set_intros(2))
  with nd have IH: "pep_collapse (r = CHR ''-'') rs = rs" using Cons.IH by blast
  show ?case using IH sep Cons.prems(3) by (cases "r = CHR ''-''") simp_all
qed simp

lemma dropWhile_split: "\<exists>a. s = a @ dropWhile P s"
  by (metis takeWhile_dropWhile_id)

lemma trim_dash_split: "\<exists>a b. s = a @ trim_dash s @ b"
proof -
  let ?d = "dropWhile (\<lambda>c. c = CHR ''-'')"
  obtain a where a: "s = a @ ?d s" using dropWhile_split by blast
  obtain b where "rev (?d s) = b @ ?d (rev (?d s))" using dropWhile_split by blast
  then have "?d s = trim_dash s @ rev b" unfolding trim_dash_def by (metis rev_append rev_rev_ident)
  with a show ?thesis by metis
qed

lemma trim_dash_ends: "trim_dash s = [] \<or> hd (trim_dash s) \<noteq> CHR ''-'' \<and> last (trim_dash s) \<noteq> CHR ''-''"
proof (cases "trim_dash s = []")
  case False
  let ?d = "dropWhile (\<lambda>c. c = CHR ''-'')"
  have l: "last (trim_dash s) \<noteq> CHR ''-''"
    using False hd_dropWhile [of "\<lambda>c. c = CHR ''-''" "rev (?d s)"] by (simp add: trim_dash_def last_rev)
  obtain b where b: "?d s = trim_dash s @ b"
    using dropWhile_split [of "rev (?d s)" "\<lambda>c. c = CHR ''-''"] unfolding trim_dash_def by (metis rev_append rev_rev_ident)
  with False have "hd (trim_dash s) = hd (?d s)" "?d s \<noteq> []" by auto
  with hd_dropWhile [of "\<lambda>c. c = CHR ''-''" s] l show ?thesis by simp
qed simp

lemma trim_dash_id: "s = [] \<or> hd s \<noteq> CHR ''-'' \<and> last s \<noteq> CHR ''-'' \<Longrightarrow> trim_dash s = s"
proof (cases "s = []")
  case False
  moreover assume "s = [] \<or> hd s \<noteq> CHR ''-'' \<and> last s \<noteq> CHR ''-''"
  ultimately have "dropWhile (\<lambda>c. c = CHR ''-'') s = s" "dropWhile (\<lambda>c. c = CHR ''-'') (rev s) = rev s"
    by (simp_all add: dropWhile_eq_self_iff hd_rev)
  then show ?thesis by (simp add: trim_dash_def)
qed (simp add: trim_dash_def)

lemma set_TrimSpace: "set (TrimSpace s) \<subseteq> set s"
  by (auto simp: TrimSpace_def dest!: set_dropWhileD)

lemma TrimSpace_id: "\<forall>c \<in> set s. \<not> go_space c \<Longrightarrow> TrimSpace s = s"
proof -
  assume "\<forall>c \<in> set s. \<not> go_space c"
  then have "dropWhile go_space s = s" "dropWhile go_space (rev s) = rev s"
    by (auto simp: dropWhile_eq_self_iff hd_rev)
  then show ?thesis by (simp add: TrimSpace_def)
qed

lemma go_space_le: "go_space c \<Longrightarrow> (of_char c :: nat) \<le> 32"
  by (auto simp: go_space_def)

lemma go_space_dash [simp]: "\<not> go_space (CHR ''-'')"
  by (simp add: go_space_def)

lemma normal_PEP503: "pep_normal (normalizePEP503 name)"
proof -
  let ?c = "pep_collapse False (ToLower (TrimSpace name))"
  obtain a b where s: "?c = a @ normalizePEP503 name @ b" using trim_dash_split unfolding normalizePEP503_def by blast
  have "no_dashes (normalizePEP503 name)"
    using no_dashes_collapse [of False "ToLower (TrimSpace name)"] no_dashes_append s by metis
  moreover have "c \<noteq> CHR ''_'' \<and> c \<noteq> CHR ''.'' \<and> lower_char c = c" if "c \<in> set (normalizePEP503 name)" for c
  proof -
    have "c \<in> set ?c" using that s by auto
    from set_collapse [OF this] show ?thesis by (auto simp: pep_sep_def ToLower_def)
  qed
  ultimately show ?thesis using trim_dash_ends by (auto simp: pep_normal_def normalizePEP503_def)
qed

lemma PEP503_id:
  assumes "pep_normal s" and "\<forall>c \<in> set s. \<not> go_space c"
  shows "normalizePEP503 s = s"
proof -
  have "ToLower s = s" using assms(1) by (auto simp: pep_normal_def ToLower_def intro: map_idI)
  moreover have "pep_collapse False s = s" using assms(1) by (intro collapse_id) (auto simp: pep_normal_def pep_sep_def)
  ultimately show ?thesis
    using assms by (simp add: normalizePEP503_def TrimSpace_id trim_dash_id pep_normal_def)
qed

lemma PEP503_no_space: "\<forall>c \<in> set name. \<not> go_space c \<Longrightarrow> \<forall>c \<in> set (normalizePEP503 name). \<not> go_space c"
proof
  fix c assume n: "\<forall>c \<in> set name. \<not> go_space c" and "c \<in> set (normalizePEP503 name)"
  then have "c \<in> set (pep_collapse False (ToLower (TrimSpace name)))"
    using trim_dash_split [of "pep_collapse False (ToLower (TrimSpace name))"] by (metis UnCI normalizePEP503_def set_append)
  from set_collapse [OF this] show "\<not> go_space c"
    using n set_TrimSpace [of name] by (auto simp: ToLower_def)
qed

section \<open>Properties\<close>

text \<open>PEP 503 normalisation is canonical: its result is always in normal form (lower case, single
  dashes, none at the ends), and on names without white space it changes a normal form no more.\<close>

theorem PEP503_canonical:
  "pep_normal (normalizePEP503 name) \<and>
   (list_ex go_space name \<or> normalizePEP503 (normalizePEP503 name) = normalizePEP503 name)"
  using normal_PEP503 [of name] PEP503_id [OF normal_PEP503, of name] PEP503_no_space [of name] by (auto simp: list_ex_iff)

lemma matchAny_member:
  "p \<in> set ps \<Longrightarrow> TrimSpace p \<noteq> [] \<Longrightarrow> (if norml then normalizePEP503 (TrimSpace p) else TrimSpace p) = name \<Longrightarrow> matchAny name ps norml"
  by (induction ps) (auto simp: Let_def)

text \<open>No spelling variant of an owned Python package escapes the guard: a name whose PEP 503 form
  equals that of a listed name is private.\<close>

theorem pypi_variants_private:
  assumes "dcProtocol cfg = ''pypi''" and "p \<in> set (dcPrivateNames cfg)" and "TrimSpace p \<noteq> []" and "TrimSpace pkg \<noteq> []"
    and "normalizePEP503 (TrimSpace pkg) = normalizePEP503 (TrimSpace p)"
  shows "IsPrivate cfg pkg"
  using assms by (simp add: IsPrivate_def Let_def matchAny_member)

text \<open>A scoped npm package is private exactly when its scope is configured, up to letter case and an
  optional leading at-sign of the configuration.\<close>

theorem npm_scope_private_iff:
  assumes "dcProtocol cfg = ''npm''" and "TrimSpace pkg = ''@'' @ sc @ ''/'' @ rest" and "CHR ''/'' \<notin> set sc"
  shows "IsPrivate cfg pkg \<longleftrightarrow> (\<exists>s \<in> set (dcPrivateScopes cfg). ToLower (''@'' @ sc) = normalizeScope s)"
proof -
  have "IndexByte (''@'' @ sc @ ''/'' @ rest) (CHR ''/'') = Some (length (''@'' @ sc))"
    using IndexByte_append [of "CHR ''/''" "''@'' @ sc" rest] assms(3) by simp
  then have "npmScope (TrimSpace pkg) = Some (''@'' @ sc)"
    by (simp add: npmScope_def assms(2) HasPrefix_def)
  moreover have "ToLower (normalizeScope s) = normalizeScope s" for s
    by (auto simp: normalizeScope_def Let_def ToLower_def lower_char_def)
  ultimately show ?thesis
    using assms(1,2) by (auto simp: IsPrivate_def Let_def in_scopes_def list_ex_iff EqualFold_def)
qed

definition demo_guard :: "string \<Rightarrow> DepConfusionConfig" where
  "demo_guard proto = \<lparr>dcProtocol = proto, dcPrivateNames = [''Acme_Core'', ''acme-*''], dcPrivateScopes = [''Acme''],
     dcPrivateUnscoped = [], dcFailClosed = True\<rparr>"

theorem pypi_variants_private_witness: "IsPrivate (demo_guard ''pypi'') ''acme.core''"
  by (rule pypi_variants_private [of _ "''Acme_Core''"]) (simp add: demo_guard_def, simp add: demo_guard_def, code_simp+)

theorem npm_scope_private_iff_witness: "IsPrivate (demo_guard ''npm'') ''@acme/core''"
proof -
  have t: "TrimSpace ''@acme/core'' = ''@'' @ ''acme'' @ ''/'' @ ''core''" by code_simp
  have "ToLower (''@'' @ ''acme'') = normalizeScope ''Acme''" by code_simp
  then show ?thesis
    using npm_scope_private_iff [of "demo_guard ''npm''", OF _ t] by (simp add: demo_guard_def)
qed

end
