(* ===== verification/Upstream.thy ===== *)
theory Upstream
  imports Artifact
begin

text \<open>
  The vocabulary of the upstream client (\<^verbatim>\<open>internal/upstream\<close>): mirrors, request options,
  errors and their classification (\<^verbatim>\<open>upstream.go\<close>, \<^verbatim>\<open>resilience.go\<close>, \<^verbatim>\<open>offline.go\<close>), the
  URL of an artifact on a mirror, and the bearer challenge of a registry (\<^verbatim>\<open>client.go\<close>).
  What \<^verbatim>\<open>errors.Is\<close> and \<^verbatim>\<open>errors.As\<close> find along the chain of wrapped errors is a field
  of the error.
\<close>

section \<open>Mirrors and requests\<close>

record Upstream =
  upName :: string
  upBaseURL :: string
  upPriority :: int
  upOfficial :: bool
  upPathPrefix :: string
  upProxy :: string

record requestOpts =
  roAccept :: string
  roHasRange :: bool
  roRangeStart :: int

datatype RequestOption = WithAcceptHeader string | WithByteRange int

definition ociManifestAccept :: string where
  "ociManifestAccept =
     ''application/vnd.oci.image.index.v1+json,'' @
     ''application/vnd.docker.distribution.manifest.list.v2+json,'' @
     ''application/vnd.oci.image.manifest.v1+json,'' @
     ''application/vnd.docker.distribution.manifest.v2+json''"

definition WithOCIManifestAccept :: RequestOption where
  "WithOCIManifestAccept = WithAcceptHeader ociManifestAccept"

fun apply_option :: "RequestOption \<Rightarrow> requestOpts \<Rightarrow> requestOpts" where
  "apply_option (WithAcceptHeader a) o' = o'\<lparr>roAccept := a\<rparr>"
| "apply_option (WithByteRange n) o' = (if 0 < n then o'\<lparr>roHasRange := True, roRangeStart := n\<rparr> else o')"

definition no_opts :: requestOpts where
  "no_opts = \<lparr>roAccept = [], roHasRange = False, roRangeStart = 0\<rparr>"

definition buildRequestOpts :: "RequestOption list \<Rightarrow> requestOpts" where
  "buildRequestOpts opts = fold apply_option opts no_opts"

section \<open>Errors\<close>

record uerr =
  eMsg :: string
  eTransient :: bool
  eCanceled :: bool
  eDeadline :: bool
  eStatus :: "(string \<times> int) option"
  eOpen :: bool
  eExceeded :: bool
  eOffline :: bool

definition plain :: "string \<Rightarrow> uerr" where
  "plain m = \<lparr>eMsg = m, eTransient = False, eCanceled = False, eDeadline = False, eStatus = None, eOpen = False,
              eExceeded = False, eOffline = False\<rparr>"

text \<open>\<^verbatim>\<open>fmt.Errorf("...%w", err)\<close> with the wrapped error at the end.\<close>

definition wrap :: "string \<Rightarrow> uerr \<Rightarrow> uerr" where
  "wrap pre e = e\<lparr>eMsg := pre @ eMsg e\<rparr>"

definition asTransient :: "uerr \<Rightarrow> uerr" where
  "asTransient e = e\<lparr>eTransient := True\<rparr>"

definition StatusError :: "string \<Rightarrow> int \<Rightarrow> uerr" where
  "StatusError up code =
     (plain (''upstream '' @ up @ '': HTTP '' @ itoa code))\<lparr>eStatus := Some (up, code)\<rparr>"

definition ErrOffline :: uerr where
  "ErrOffline = (plain (''upstream: offline mode '' @ [CHR 0xE2, CHR 0x80, CHR 0x94] @ '' no outbound fetch''))\<lparr>eOffline := True\<rparr>"

definition isContextError :: "uerr \<Rightarrow> bool" where
  "isContextError e \<longleftrightarrow> eCanceled e \<or> eDeadline e"

definition dial_fragments :: "string list" where
  "dial_fragments =
     [''i/o timeout'', ''deadline exceeded'', ''connection refused'', ''connection reset'', ''no such host'',
      ''network is unreachable'', ''tls handshake'', ''timeout awaiting response headers'',
      ''use of closed network connection'', ''broken pipe'']"

definition isDialClassError :: "uerr \<Rightarrow> bool" where
  "isDialClassError e =
     (if list_ex (Contains (ToLower (eMsg e))) dial_fragments then True else eDeadline e)"

definition transient_fragments :: "string list" where
  "transient_fragments =
     [''HTTP 429'', ''rate limited'', ''connection refused'', ''i/o timeout'', ''reset by peer'', ''broken pipe'',
      ''no such host'', ''timeout awaiting response headers'', ''EOF'']"

definition isTransientExecError :: "uerr \<Rightarrow> bool" where
  "isTransientExecError e =
     (if eTransient e then True
      else if isContextError e then False
      else if eStatus e \<noteq> None then False
      else if eOpen e then False
      else if eExceeded e then True
      else list_ex (Contains (eMsg e)) transient_fragments)"

definition failoverReason :: "uerr \<Rightarrow> string" where
  "failoverReason e =
     (if eOpen e then ''circuit_open''
      else
        case eStatus e of
          Some (_, code) \<Rightarrow>
            if code = 429 then ''http_429'' else if 500 \<le> code then ''http_5xx'' else ''http_4xx''
        | None \<Rightarrow>
            let msg = ToLower (eMsg e) in
            if Contains msg ''429'' \<or> Contains msg ''rate limited'' then ''http_429''
            else if Contains msg ''http 5'' \<or> Contains msg ''http 50'' then ''http_5xx''
            else if Contains msg ''timeout awaiting response headers'' then ''header_timeout''
            else if isDialClassError e then ''dial_timeout''
            else ''transport'')"

definition IsNotFound :: "uerr option \<Rightarrow> bool" where
  "IsNotFound err =
     (case err of
        None \<Rightarrow> False
      | Some e \<Rightarrow>
          if eOffline e then True
          else case eStatus e of Some (_, code) \<Rightarrow> code = 404 | None \<Rightarrow> False)"

section \<open>URL of an artifact\<close>

definition TrimRight :: "string \<Rightarrow> char \<Rightarrow> string" where
  "TrimRight s c = rev (dropWhile (\<lambda>x. x = c) (rev s))"

definition Trim :: "string \<Rightarrow> char \<Rightarrow> string" where
  "Trim s c = TrimRight (dropWhile (\<lambda>x. x = c) s) c"

definition ociFetchName :: "Upstream \<Rightarrow> string \<Rightarrow> string" where
  "ociFetchName up repo' =
     (let repo = Trim repo' CHR ''/''; prefix = Trim (TrimSpace (upPathPrefix up)) CHR ''/'' in
      if prefix = [] then repo
      else if repo = [] then prefix
      else prefix @ ''/'' @ repo)"

definition buildPath :: "ArtifactRef \<Rightarrow> Upstream \<Rightarrow> string" where
  "buildPath ref up =
     (let p = rProtocol ref in
      if p = ''oci'' then
        (let name = ociFetchName up (rName ref) in
         if rMutable ref \<or> rDigest ref = [] then ''v2/'' @ name @ ''/manifests/'' @ rVersion ref
         else ''v2/'' @ name @ ''/blobs/'' @ rDigest ref)
      else if p = ''gomod'' then
        (if rVersion ref = ''@latest'' then rName ref @ ''/@latest'' else rName ref @ ''/@v/'' @ rVersion ref)
      else if p = ''pypi'' then
        (if rMutable ref \<and> rVersion ref = ''json'' then ''pypi/'' @ rName ref @ ''/json''
         else if rMutable ref \<or> rDigest ref = [] then ''simple/'' @ rName ref @ ''/''
         else ''packages/'' @ rName ref @ ''/'' @ rVersion ref)
      else if p = ''npm'' then
        (if rMutable ref \<or> rDigest ref = [] then rName ref else rName ref @ ''/-/'' @ rVersion ref)
      else if p = ''apt'' then
        (if rMutable ref then ''dists/'' @ rVersion ref else ''pool/'' @ rName ref @ ''/'' @ rVersion ref)
      else if p = ''helm'' then
        (if rMutable ref then (if rName ref = [] then ''index.yaml'' else rName ref @ ''/index.yaml'')
         else if rName ref = [] then rVersion ref
         else rName ref @ ''/'' @ rVersion ref)
      else if p = ''git'' then rName ref @ ''/info/refs''
      else if p = ''tarball'' then
        (if rDigest ref \<noteq> [] then rName ref @ ''/'' @ rDigest ref else rName ref @ ''/'' @ rVersion ref)
      else if p = ''cargo'' then
        (if rMutable ref then rName ref
         else ''crates/'' @ rName ref @ ''/'' @ rName ref @ ''-'' @ rVersion ref @ ''.crate'')
      else if p = ''conda'' then rName ref
      else if p = ''hf'' then rName ref
      else if rDigest ref \<noteq> [] then rName ref @ ''/'' @ rDigest ref
      else if rVersion ref \<noteq> [] then rName ref @ ''/'' @ rVersion ref
      else rName ref)"

definition buildURL :: "Upstream \<Rightarrow> ArtifactRef \<Rightarrow> string" where
  "buildURL up ref =
     (let base = TrimRight (upBaseURL up) CHR ''/''; path = buildPath ref up in
      if path = [] then base else base @ ''/'' @ path)"

section \<open>Order of the chain\<close>

text \<open>
  The slices hold a handful of mirrors, for which \<^verbatim>\<open>sort.Slice\<close> is an insertion sort: equal
  priorities keep the order of the configuration.
\<close>

definition sortedUpstreams :: "Upstream list \<Rightarrow> Upstream list" where
  "sortedUpstreams us = isort (\<lambda>a b. upPriority a \<le> upPriority b) us"

lemma set_sortedUpstreams [simp]: "set (sortedUpstreams us) = set us"
  by (simp add: sortedUpstreams_def)

lemma sorted_sortedUpstreams: "sorted_wrt (\<lambda>a b. upPriority a \<le> upPriority b) (sortedUpstreams us)"
  unfolding sortedUpstreams_def by (rule sorted_isort) auto

section \<open>Bearer challenges\<close>

fun TrimLeftSet :: "string \<Rightarrow> string \<Rightarrow> string" where
  "TrimLeftSet s cs = dropWhile (\<lambda>c. c \<in> set cs) s"

record challenge =
  chRealm :: string
  chService :: string
  chScope :: string

definition set_param :: "string \<Rightarrow> string \<Rightarrow> challenge \<Rightarrow> challenge" where
  "set_param key value c =
     (if key = ''realm'' then c\<lparr>chRealm := value\<rparr>
      else if key = ''service'' then c\<lparr>chService := value\<rparr>
      else if key = ''scope'' then c\<lparr>chScope := value\<rparr>
      else c)"

text \<open>The loop over the parameters; every round consumes the key it read.\<close>

function parse_params :: "string \<Rightarrow> challenge \<Rightarrow> challenge" where
  "parse_params params c =
     (let ps = TrimLeftSet params '', '' in
      case IndexByte ps CHR ''='' of
        None \<Rightarrow> c
      | Some eq \<Rightarrow>
          let key = TrimSpace (take eq ps); rest = drop (eq + 1) ps in
          if HasPrefix rest [CHR 0x22] then
            (case IndexByte (tl rest) CHR 0x22 of
               None \<Rightarrow> c
             | Some e \<Rightarrow> parse_params (drop (e + 2) rest) (set_param key (take e (tl rest)) c))
          else
            (case IndexByte rest CHR '','' of
               None \<Rightarrow> set_param key rest c
             | Some k \<Rightarrow> parse_params (drop (k + 1) rest) (set_param key (take k rest) c)))"
  by pat_completeness auto
termination
proof (relation "measure (\<lambda>(p, c). length p)", goal_cases)
  case (2 params c ps eq key rest e)
  then have "eq < length ps" using IndexByte_Some_split by blast
  moreover have "length ps \<le> length params" using 2 by (simp add: length_dropWhile_le)
  ultimately show ?case using 2 by simp
next
  case (3 params c ps eq key rest k)
  then have "eq < length ps" using IndexByte_Some_split by blast
  moreover have "length ps \<le> length params" using 3 by (simp add: length_dropWhile_le)
  ultimately show ?case using 3 by simp
qed simp

declare parse_params.simps [simp del]

definition parseBearerChallenge :: "string \<Rightarrow> (string \<times> string \<times> string) option" where
  "parseBearerChallenge header =
     (if \<not> HasPrefix header ''Bearer '' then None
      else
        let c = parse_params (TrimSpace (drop 7 header)) \<lparr>chRealm = [], chService = [], chScope = []\<rparr> in
        if chRealm c \<noteq> [] then Some (chRealm c, chService c, chScope c) else None)"

end
