(* ===== verification/Breaker.thy ===== *)
theory Breaker
  imports Upstream
begin

text \<open>
  Auto-blocking of mirrors (\<^verbatim>\<open>internal/upstream/resilience.go\<close>, \<^verbatim>\<open>block.go\<close>) over the
  block table the replicas share (\<^verbatim>\<open>internal/store/runtimestate\<close>). The circuit breaker of
  the library \<^verbatim>\<open>failsafe-go\<close> is a parameter: a record of its operations on a state of any
  type. It calls the listener \<^verbatim>\<open>OnStateChanged\<close> when an operation changes its state.
\<close>

section \<open>The library breaker\<close>

datatype cb_state = ClosedState | OpenState | HalfOpenState

record 'b breaker_lib =
  cbNew :: "nat \<Rightarrow> int \<Rightarrow> 'b"
  cbState :: "'b \<Rightarrow> cb_state"
  cbOpen :: "gotime \<Rightarrow> 'b \<Rightarrow> 'b"
  cbClose :: "'b \<Rightarrow> 'b"
  cbRecordFailure :: "gotime \<Rightarrow> 'b \<Rightarrow> 'b"
  cbRemainingDelay :: "gotime \<Rightarrow> 'b \<Rightarrow> int"

text \<open>What the documentation of the library promises.\<close>

definition documented_breaker :: "'b breaker_lib \<Rightarrow> bool" where
  "documented_breaker lib \<longleftrightarrow>
     (\<forall>n d. cbState lib (cbNew lib n d) = ClosedState) \<and>
     (\<forall>t b. cbState lib (cbOpen lib t b) = OpenState) \<and>
     (\<forall>b. cbState lib (cbClose lib b) = ClosedState) \<and>
     (\<forall>t b. cbState lib b = ClosedState \<longrightarrow> cbState lib (cbRecordFailure lib t b) \<in> {ClosedState, OpenState})"

section \<open>State\<close>

record BlockState =
  bsFailures :: int
  bsBlockedUntil :: gotime

definition noBlock :: BlockState where
  "noBlock = \<lparr>bsFailures = 0, bsBlockedUntil = zeroTime\<rparr>"

record 'b hub =
  hBreakers :: "string \<rightharpoonup> 'b"
  hConsecutive :: "string \<Rightarrow> int"
  hMaxFails :: nat
  hBlockDur :: int
  hNow :: gotime
  hPersister :: "(string \<rightharpoonup> BlockState) option"
  hTick :: nat
  hFault :: fault_plan

definition defaultMaxFailures :: int where "defaultMaxFailures = 5"
definition defaultBlockDuration :: int where "defaultBlockDuration = 30 * Second"

definition newBreakerHubWithPersister ::
  "(string \<rightharpoonup> BlockState) option \<Rightarrow> int \<Rightarrow> int \<Rightarrow> gotime \<Rightarrow> fault_plan \<Rightarrow> 'b hub" where
  "newBreakerHubWithPersister pers maxFails blockDur now fault =
     \<lparr>hBreakers = Map.empty, hConsecutive = (\<lambda>_. 0),
      hMaxFails = nat (if maxFails \<le> 0 then defaultMaxFailures else maxFails),
      hBlockDur = (if blockDur \<le> 0 then defaultBlockDuration else blockDur),
      hNow = now, hPersister = pers, hTick = 0, hFault = fault\<rparr>"

section \<open>The block table\<close>

definition p_io :: "'b hub \<Rightarrow> string option \<times> 'b hub" where
  "p_io h = (hFault h (hTick h), h\<lparr>hTick := Suc (hTick h)\<rparr>)"

definition p_Load :: "'b hub \<Rightarrow> (string \<rightharpoonup> BlockState) \<Rightarrow> string \<Rightarrow> (string + BlockState) \<times> 'b hub" where
  "p_Load h tbl name =
     (case p_io h of
        (Some e, h') \<Rightarrow> (Inl e, h')
      | (None, h') \<Rightarrow> (Inr (case tbl name of None \<Rightarrow> noBlock | Some st \<Rightarrow> st), h'))"

definition p_Save :: "'b hub \<Rightarrow> string \<Rightarrow> BlockState \<Rightarrow> 'b hub" where
  "p_Save h name st =
     (case p_io h of
        (Some _, h') \<Rightarrow> h'
      | (None, h') \<Rightarrow> h'\<lparr>hPersister := map_option (\<lambda>tbl. tbl(name \<mapsto> st)) (hPersister h')\<rparr>)"

definition p_Delete :: "'b hub \<Rightarrow> string \<Rightarrow> 'b hub" where
  "p_Delete h name =
     (case p_io h of
        (Some _, h') \<Rightarrow> h'
      | (None, h') \<Rightarrow> h'\<lparr>hPersister := map_option (\<lambda>tbl. tbl(name := None)) (hPersister h')\<rparr>)"

section \<open>The hub\<close>

definition persistState :: "'b breaker_lib \<Rightarrow> 'b hub \<Rightarrow> string \<Rightarrow> cb_state \<Rightarrow> 'b hub" where
  "persistState lib h name new =
     (if hPersister h = None then h
      else
        case new of
          OpenState \<Rightarrow>
            (let delay = (case hBreakers h name of
                            None \<Rightarrow> hBlockDur h
                          | Some b \<Rightarrow> let d = cbRemainingDelay lib (hNow h) b in if 0 < d then d else hBlockDur h)
             in p_Save h name \<lparr>bsFailures = int (hMaxFails h), bsBlockedUntil = hNow h + delay\<rparr>)
        | ClosedState \<Rightarrow> p_Delete h name
        | HalfOpenState \<Rightarrow> h)"

text \<open>An operation of the library on a breaker of the hub, with its listener.\<close>

definition breaker_op :: "'b breaker_lib \<Rightarrow> string \<Rightarrow> ('b \<Rightarrow> 'b) \<Rightarrow> 'b \<Rightarrow> 'b hub \<Rightarrow> 'b hub" where
  "breaker_op lib name f b h =
     (let h1 = h\<lparr>hBreakers := (hBreakers h)(name \<mapsto> f b)\<rparr> in
      if cbState lib (f b) \<noteq> cbState lib b then persistState lib h1 name (cbState lib (f b)) else h1)"

definition hydrate :: "'b breaker_lib \<Rightarrow> string \<Rightarrow> 'b \<Rightarrow> 'b hub \<Rightarrow> 'b hub" where
  "hydrate lib name b h =
     (case hPersister h of
        None \<Rightarrow> h
      | Some tbl \<Rightarrow>
          (case p_Load h tbl name of
             (Inl _, h1) \<Rightarrow> h1
           | (Inr st, h1) \<Rightarrow>
               if IsZero (bsBlockedUntil st) then h1
               else if hNow h1 < bsBlockedUntil st then breaker_op lib name (cbOpen lib (hNow h1)) b h1
               else p_Delete h1 name))"

definition get_breaker :: "'b hub \<Rightarrow> string \<Rightarrow> 'b breaker_lib \<Rightarrow> 'b" where
  "get_breaker h name lib =
     (case hBreakers h name of Some b \<Rightarrow> b | None \<Rightarrow> cbNew lib (hMaxFails h) (hBlockDur h))"

definition breaker :: "'b breaker_lib \<Rightarrow> 'b hub \<Rightarrow> string \<Rightarrow> 'b \<times> 'b hub" where
  "breaker lib h name =
     (case hBreakers h name of
        Some b \<Rightarrow> (b, h)
      | None \<Rightarrow>
          (let b = cbNew lib (hMaxFails h) (hBlockDur h);
               h1 = hydrate lib name b (h\<lparr>hBreakers := (hBreakers h)(name \<mapsto> b)\<rparr>)
           in (get_breaker h1 name lib, h1)))"

definition reset_streak :: "string \<Rightarrow> 'b hub \<Rightarrow> 'b hub" where
  "reset_streak name h = h\<lparr>hConsecutive := (hConsecutive h)(name := 0)\<rparr>"

definition local_isOpen :: "'b breaker_lib \<Rightarrow> string \<Rightarrow> 'b \<Rightarrow> 'b hub \<Rightarrow> bool \<times> 'b hub" where
  "local_isOpen lib name b h =
     (if cbState lib b \<noteq> OpenState then (False, h)
      else if cbRemainingDelay lib (hNow h) b \<le> 0 then (False, reset_streak name h)
      else (True, h))"

definition hub_isOpen :: "'b breaker_lib \<Rightarrow> 'b hub \<Rightarrow> string \<Rightarrow> bool \<times> 'b hub" where
  "hub_isOpen lib h name =
     (case breaker lib h name of
        (b, h1) \<Rightarrow>
          (case hPersister h1 of
             None \<Rightarrow> local_isOpen lib name b h1
           | Some tbl \<Rightarrow>
               (case p_Load h1 tbl name of
                  (Inl _, h2) \<Rightarrow> local_isOpen lib name b h2
                | (Inr st, h2) \<Rightarrow>
                    if IsZero (bsBlockedUntil st) \<or> \<not> hNow h2 < bsBlockedUntil st then
                      (let h3 = (if cbState lib b = OpenState then breaker_op lib name (cbClose lib) b h2 else h2);
                           h4 = reset_streak name h3
                       in (False, if IsZero (bsBlockedUntil st) then h4 else p_Delete h4 name))
                    else
                      (True, if cbState lib b \<noteq> OpenState then breaker_op lib name (cbOpen lib (hNow h2)) b h2 else h2))))"

definition closeBreaker :: "'b breaker_lib \<Rightarrow> 'b hub \<Rightarrow> string \<Rightarrow> 'b hub" where
  "closeBreaker lib h name =
     (case breaker lib (reset_streak name h) name of
        (b, h1) \<Rightarrow>
          (let h2 = breaker_op lib name (cbClose lib) b h1 in
           if hPersister h2 = None then h2 else p_Delete h2 name))"

definition hub_recordFailure :: "'b breaker_lib \<Rightarrow> 'b hub \<Rightarrow> string \<Rightarrow> bool \<times> 'b hub" where
  "hub_recordFailure lib h name =
     (case breaker lib (h\<lparr>hConsecutive := (hConsecutive h)(name := hConsecutive h name + 1)\<rparr>) name of
        (b, h1) \<Rightarrow>
          (let h2 = breaker_op lib name (cbRecordFailure lib (hNow h1)) b h1 in
           (cbState lib b \<noteq> OpenState \<and> cbState lib (get_breaker h2 name lib) = OpenState, h2)))"

definition hub_recordSuccess :: "'b breaker_lib \<Rightarrow> 'b hub \<Rightarrow> string \<Rightarrow> 'b hub" where
  "hub_recordSuccess lib h name =
     (case breaker lib (reset_streak name h) name of (b, h1) \<Rightarrow> breaker_op lib name (cbClose lib) b h1)"

definition hub_failureCount :: "'b breaker_lib \<Rightarrow> 'b hub \<Rightarrow> string \<Rightarrow> int \<times> 'b hub" where
  "hub_failureCount lib h name = (case breaker lib h name of (_, h1) \<Rightarrow> (hConsecutive h1 name, h1))"

definition hub_blockedUntil :: "'b breaker_lib \<Rightarrow> 'b hub \<Rightarrow> string \<Rightarrow> gotime \<times> 'b hub" where
  "hub_blockedUntil lib h name =
     (case breaker lib h name of
        (b, h1) \<Rightarrow>
          if cbState lib b \<noteq> OpenState then (zeroTime, h1)
          else
            let d = cbRemainingDelay lib (hNow h1) b in
            if d \<le> 0 then (zeroTime, h1) else (hNow h1 + d, h1))"

section \<open>Properties\<close>

text \<open>What the shared table says about a mirror.\<close>

definition blocked_in :: "(string \<rightharpoonup> BlockState) \<Rightarrow> gotime \<Rightarrow> string \<Rightarrow> bool" where
  "blocked_in tbl now name =
     (case tbl name of
        None \<Rightarrow> False
      | Some st \<Rightarrow> \<not> IsZero (bsBlockedUntil st) \<and> now < bsBlockedUntil st)"

lemma p_io_healthy: "hFault h = no_faults \<Longrightarrow> p_io h = (None, h\<lparr>hTick := Suc (hTick h)\<rparr>)"
  by (simp add: p_io_def)

lemmas persister_simps = p_Load_def p_Save_def p_Delete_def p_io_healthy

lemma persistState_frame [simp]:
  "hNow (persistState lib h name new) = hNow h" "hFault (persistState lib h name new) = hFault h"
  "hBlockDur (persistState lib h name new) = hBlockDur h" "hBreakers (persistState lib h name new) = hBreakers h"
  "hConsecutive (persistState lib h name new) = hConsecutive h"
  "hPersister (persistState lib h name new) = None \<longleftrightarrow> hPersister h = None"
  by (auto simp: persistState_def p_Save_def p_Delete_def p_io_def Let_def split: cb_state.splits option.splits)

lemma breaker_op_frame [simp]:
  "hNow (breaker_op lib name f b h) = hNow h" "hFault (breaker_op lib name f b h) = hFault h"
  "hBlockDur (breaker_op lib name f b h) = hBlockDur h"
  "hBreakers (breaker_op lib name f b h) = (hBreakers h)(name \<mapsto> f b)"
  "hConsecutive (breaker_op lib name f b h) = hConsecutive h"
  "hPersister (breaker_op lib name f b h) = None \<longleftrightarrow> hPersister h = None"
  by (auto simp: breaker_op_def Let_def)

lemma persistState_opens:
  assumes "hFault h = no_faults" and "hPersister h = Some tbl" and "0 < hBlockDur h" and "zeroTime < hNow h"
  shows "\<exists>tbl'. hPersister (persistState lib h name OpenState) = Some tbl' \<and> blocked_in tbl' (hNow h) name"
proof -
  define delay where "delay = (case hBreakers h name of
                            None \<Rightarrow> hBlockDur h
                          | Some b \<Rightarrow> let d = cbRemainingDelay lib (hNow h) b in if 0 < d then d else hBlockDur h)"
  have "0 < delay" using assms(3) by (simp add: delay_def Let_def split: option.splits)
  then have "blocked_in (tbl(name \<mapsto> \<lparr>bsFailures = int (hMaxFails h), bsBlockedUntil = hNow h + delay\<rparr>)) (hNow h) name"
    using assms(4) by (simp add: blocked_in_def)
  moreover have "hPersister (persistState lib h name OpenState) =
      Some (tbl(name \<mapsto> \<lparr>bsFailures = int (hMaxFails h), bsBlockedUntil = hNow h + delay\<rparr>))"
    using assms(1,2) by (simp add: persistState_def p_Save_def p_io_healthy delay_def Let_def)
  ultimately show ?thesis by blast
qed

text \<open>Creating the breaker from the table keeps what the table says.\<close>

lemma breaker_keeps_table:
  assumes "documented_breaker lib" and "hFault h = no_faults" and "hPersister h = Some tbl" and "0 < hBlockDur h"
    and "zeroTime < hNow h" and "breaker lib h name = (b, h1)"
  shows "\<exists>tbl1. hPersister h1 = Some tbl1 \<and> blocked_in tbl1 (hNow h) name = blocked_in tbl (hNow h) name
           \<and> hNow h1 = hNow h \<and> hFault h1 = no_faults \<and> hBlockDur h1 = hBlockDur h \<and> hBreakers h1 name = Some b"
proof (cases "hBreakers h name")
  case (Some b0)
  with assms show ?thesis by (simp add: breaker_def)
next
  case None
  define nb where "nb = cbNew lib (hMaxFails h) (hBlockDur h)"
  define h0 where "h0 = h\<lparr>hBreakers := (hBreakers h)(name \<mapsto> nb), hTick := Suc (hTick h)\<rparr>"
  define st where "st = (case tbl name of None \<Rightarrow> noBlock | Some st \<Rightarrow> st)"
  have h0: "hFault h0 = no_faults" "hPersister h0 = Some tbl" "0 < hBlockDur h0" "zeroTime < hNow h0" "hNow h0 = hNow h"
    "hBreakers h0 name = Some nb" "hBlockDur h0 = hBlockDur h"
    using assms by (simp_all add: h0_def)
  have ne: "cbState lib (cbOpen lib t nb) \<noteq> cbState lib nb" for t
    using assms(1) by (simp add: documented_breaker_def nb_def)
  have b: "b = get_breaker h1 name lib" and h1: "h1 = hydrate lib name nb (h\<lparr>hBreakers := (hBreakers h)(name \<mapsto> nb)\<rparr>)"
    using assms(6) None by (auto simp: breaker_def Let_def nb_def)
  have hy: "h1 = (if IsZero (bsBlockedUntil st) then h0
               else if hNow h < bsBlockedUntil st then breaker_op lib name (cbOpen lib (hNow h)) nb h0
               else p_Delete h0 name)"
    unfolding h1 using assms(2,3)
    by (auto simp: hydrate_def p_Load_def p_io_def h0_def st_def)
  consider (zero) "IsZero (bsBlockedUntil st)" | (open') "\<not> IsZero (bsBlockedUntil st)" "hNow h < bsBlockedUntil st"
    | (expired) "\<not> IsZero (bsBlockedUntil st)" "\<not> hNow h < bsBlockedUntil st" by blast
  then show ?thesis
  proof cases
    case zero
    with hy h0 show ?thesis by (simp add: b get_breaker_def)
  next
    case open'
    define hx where "hx = h0\<lparr>hBreakers := (hBreakers h0)(name \<mapsto> cbOpen lib (hNow h) nb)\<rparr>"
    have "\<exists>tbl'. hPersister (persistState lib hx name OpenState) = Some tbl' \<and> blocked_in tbl' (hNow hx) name"
      by (rule persistState_opens) (use h0 in \<open>simp_all add: hx_def\<close>)
    moreover have "h1 = persistState lib hx name OpenState"
      using hy open' ne assms(1) by (simp add: breaker_op_def Let_def hx_def documented_breaker_def)
    moreover have "blocked_in tbl (hNow h) name"
      using open' by (auto simp: blocked_in_def st_def noBlock_def split: option.splits)
    ultimately show ?thesis using h0 by (auto simp: hx_def b get_breaker_def)
  next
    case expired
    have "\<not> blocked_in tbl (hNow h) name" using expired by (auto simp: blocked_in_def st_def split: option.splits)
    moreover have "hPersister h1 = Some (tbl(name := None)) \<and> hNow h1 = hNow h \<and> hFault h1 = no_faults \<and>
        hBlockDur h1 = hBlockDur h \<and> hBreakers h1 name = Some nb"
      using hy expired h0 by (simp add: p_Delete_def p_io_healthy)
    ultimately show ?thesis by (simp add: b get_breaker_def blocked_in_def)
  qed
qed

text \<open>replicas that share the block table agree: with a database that answers, a mirror counts
  as blocked exactly when the table holds a block of it that has not expired, whatever state
  the replica's own circuit breaker is in.\<close>

theorem isOpen_follows_table:
  assumes "documented_breaker lib" and "hFault h = no_faults" and "hPersister h = Some tbl" and "0 < hBlockDur h"
    and "zeroTime < hNow h"
  shows "fst (hub_isOpen lib h name) = blocked_in tbl (hNow h) name"
proof -
  obtain b h1 where b: "breaker lib h name = (b, h1)" by force
  from breaker_keeps_table [OF assms b] obtain tbl1 where t: "hPersister h1 = Some tbl1"
    "blocked_in tbl1 (hNow h) name = blocked_in tbl (hNow h) name" "hNow h1 = hNow h" "hFault h1 = no_faults" by blast
  show ?thesis
    unfolding hub_isOpen_def b using t
    by (auto simp: p_Load_def p_io_healthy blocked_in_def noBlock_def Let_def split: option.splits)
qed

section \<open>A breaker that opens after a number of failures\<close>

record simple_cb =
  scState :: cb_state
  scUntil :: gotime
  scFails :: nat
  scThreshold :: nat
  scDelay :: int

definition simple_open :: "gotime \<Rightarrow> simple_cb \<Rightarrow> simple_cb" where
  "simple_open t b = b\<lparr>scState := OpenState, scUntil := t + scDelay b\<rparr>"

definition simple_lib :: "simple_cb breaker_lib" where
  "simple_lib =
     \<lparr>cbNew = (\<lambda>n d. \<lparr>scState = ClosedState, scUntil = 0, scFails = 0, scThreshold = n, scDelay = d\<rparr>),
      cbState = scState, cbOpen = simple_open,
      cbClose = (\<lambda>b. b\<lparr>scState := ClosedState, scFails := 0\<rparr>),
      cbRecordFailure = (\<lambda>t b. if scThreshold b \<le> Suc (scFails b) then simple_open t b else b\<lparr>scFails := Suc (scFails b)\<rparr>),
      cbRemainingDelay = (\<lambda>t b. scUntil b - t)\<rparr>"

lemma simple_documented: "documented_breaker simple_lib"
  by (simp add: documented_breaker_def simple_lib_def simple_open_def)

definition shared_hub :: "gotime \<Rightarrow> gotime \<Rightarrow> simple_cb hub" where
  "shared_hub until now =
     newBreakerHubWithPersister (Some [''daocloud'' \<mapsto> \<lparr>bsFailures = 5, bsBlockedUntil = until\<rparr>]) 5 0 now no_faults"

theorem isOpen_follows_table_witness:
  "fst (hub_isOpen simple_lib (shared_hub (40 * Second) (39 * Second)) ''daocloud'')"
proof -
  have "fst (hub_isOpen simple_lib (shared_hub (40 * Second) (39 * Second)) ''daocloud'') =
      blocked_in [''daocloud'' \<mapsto> \<lparr>bsFailures = 5, bsBlockedUntil = 40 * Second\<rparr>] (39 * Second) ''daocloud''"
    using isOpen_follows_table [OF simple_documented, of "shared_hub (40 * Second) (39 * Second)" _ "''daocloud''"]
    by (simp add: shared_hub_def newBreakerHubWithPersister_def defaultBlockDuration_def zeroTime_def)
  then show ?thesis by (simp add: blocked_in_def zeroTime_def)
qed

text \<open>A replica that merely observes a block one second before its end extends it by the full window.\<close>

lemma observer_extends_block:
  "hPersister (snd (hub_isOpen simple_lib (shared_hub (40 * Second) (39 * Second)) ''daocloud'')) =
     Some [''daocloud'' \<mapsto> \<lparr>bsFailures = 5, bsBlockedUntil = 69 * Second\<rparr>]"
  by (simp add: hub_isOpen_def breaker_def hydrate_def p_Load_def p_io_def breaker_op_def persistState_def p_Save_def
      shared_hub_def newBreakerHubWithPersister_def simple_lib_def simple_open_def get_breaker_def Let_def
      defaultBlockDuration_def defaultMaxFailures_def zeroTime_def)

text \<open>Unblocking a mirror re-admits it: on a hub whose database answers, or that keeps its blocks
  in memory, the mirror is not blocked after the operator cleared it, and its failure streak is
  zero.\<close>

theorem unblock_readmits:
  assumes "documented_breaker lib" and "hFault h = no_faults" and "0 < hBlockDur h" and "zeroTime < hNow h"
  shows "\<not> fst (hub_isOpen lib (closeBreaker lib h name) name)
     \<and> hConsecutive (closeBreaker lib h name) name = 0"
proof -
  obtain b h1 where b: "breaker lib (reset_streak name h) name = (b, h1)" by force
  have closed: "cbState lib (cbClose lib b) = ClosedState" using assms(1) by (simp add: documented_breaker_def)
  have streak: "hConsecutive h1 name = 0"
    using b by (auto simp: breaker_def reset_streak_def hydrate_def p_Load_def p_Delete_def p_io_def Let_def
        split: option.splits sum.splits prod.splits if_splits)
  show ?thesis
  proof (cases "hPersister h")
    case None
    then have h1: "hPersister h1 = None"
      using b by (auto simp: breaker_def reset_streak_def hydrate_def Let_def split: option.splits)
    define h2 where "h2 = breaker_op lib name (cbClose lib) b h1"
    have h2: "hPersister h2 = None" "hBreakers h2 name = Some (cbClose lib b)" "hConsecutive h2 name = 0"
      using h1 streak by (simp_all add: h2_def)
    have "closeBreaker lib h name = h2" using b h2 by (simp add: closeBreaker_def h2_def Let_def)
    then show ?thesis using h2 closed by (simp add: hub_isOpen_def breaker_def local_isOpen_def)
  next
    case (Some tbl)
    have r: "hFault (reset_streak name h) = no_faults" "hPersister (reset_streak name h) = Some tbl"
      "0 < hBlockDur (reset_streak name h)" "zeroTime < hNow (reset_streak name h)"
      using assms Some by (simp_all add: reset_streak_def)
    from breaker_keeps_table [OF assms(1) r b] obtain tbl1 where t: "hPersister h1 = Some tbl1" "hFault h1 = no_faults"
      "hNow h1 = hNow h" "hBlockDur h1 = hBlockDur h" by (auto simp: reset_streak_def)
    define h2 where "h2 = breaker_op lib name (cbClose lib) b h1"
    obtain tbl2 where t2: "hPersister h2 = Some tbl2" using t by (metis breaker_op_frame(6) h2_def option.exhaust)
    have f2: "hFault h2 = no_faults" "hNow h2 = hNow h" "hBlockDur h2 = hBlockDur h" "hConsecutive h2 name = 0"
      using t streak by (simp_all add: h2_def)
    have c: "closeBreaker lib h name = p_Delete h2 name" using b t2 t(1) by (simp add: closeBreaker_def h2_def Let_def)
    have d: "hPersister (p_Delete h2 name) = Some (tbl2(name := None))" "hFault (p_Delete h2 name) = no_faults"
      "hNow (p_Delete h2 name) = hNow h" "hBlockDur (p_Delete h2 name) = hBlockDur h" "hConsecutive (p_Delete h2 name) name = 0"
      using t2 f2 by (simp_all add: p_Delete_def p_io_healthy)
    obtain b3 h3 where b3: "breaker lib (p_Delete h2 name) name = (b3, h3)" by force
    from breaker_keeps_table [OF assms(1) d(2,1) _ _ b3] d assms obtain tbl3 where t3: "hPersister h3 = Some tbl3"
      "blocked_in tbl3 (hNow h) name = blocked_in (tbl2(name := None)) (hNow h) name" "hNow h3 = hNow h" "hFault h3 = no_faults"
      by auto
    have "\<not> blocked_in tbl3 (hNow h) name" using t3 by (simp add: blocked_in_def)
    then have "\<not> fst (hub_isOpen lib (p_Delete h2 name) name)"
      unfolding hub_isOpen_def b3 using t3
      by (auto simp: p_Load_def p_io_healthy blocked_in_def noBlock_def Let_def split: option.splits)
    then show ?thesis using c d by simp
  qed
qed

theorem unblock_readmits_witness:
  "\<not> fst (hub_isOpen simple_lib (closeBreaker simple_lib (shared_hub (40 * Second) (39 * Second)) ''daocloud'') ''daocloud'')"
  using unblock_readmits [OF simple_documented, of "shared_hub (40 * Second) (39 * Second)" "''daocloud''"]
  by (simp add: shared_hub_def newBreakerHubWithPersister_def defaultBlockDuration_def zeroTime_def)

end
