(* ===== verification/Runtime.thy ===== *)
theory Runtime
  imports Breaker
begin

text \<open>
  The live state of one protocol's mirrors (\<^verbatim>\<open>internal/upstream/runtime.go\<close>): measurements,
  the operator's overrides of the configured chain, and the views built from them.
\<close>

section \<open>State\<close>

record mirrorStat =
  msServedCount :: int
  msLastServedAt :: gotime
  msLastLatency :: int
  msHasLatency :: bool
  msLastErr :: string

record override =
  ovDisabled :: bool
  ovPriority :: int
  ovHasPriority :: bool

record 'b Runtime =
  rtProtocol :: string
  rtBlocker :: "'b hub"
  rtStats :: "string \<rightharpoonup> mirrorStat"
  rtOverrides :: "string \<rightharpoonup> override"

definition NewRuntime :: "string \<Rightarrow> 'b hub \<Rightarrow> 'b Runtime" where
  "NewRuntime protocol hub = \<lparr>rtProtocol = protocol, rtBlocker = hub, rtStats = Map.empty, rtOverrides = Map.empty\<rparr>"

definition statLocked :: "'b Runtime \<Rightarrow> string \<Rightarrow> mirrorStat" where
  "statLocked r name =
     (case rtStats r name of
        Some s \<Rightarrow> s
      | None \<Rightarrow> \<lparr>msServedCount = 0, msLastServedAt = zeroTime, msLastLatency = 0, msHasLatency = False, msLastErr = []\<rparr>)"

definition overrideLocked :: "'b Runtime \<Rightarrow> string \<Rightarrow> override" where
  "overrideLocked r name =
     (case rtOverrides r name of Some o' \<Rightarrow> o' | None \<Rightarrow> \<lparr>ovDisabled = False, ovPriority = 0, ovHasPriority = False\<rparr>)"

section \<open>Measurements\<close>

definition recordServeStats :: "'b Runtime \<Rightarrow> string \<Rightarrow> int \<Rightarrow> 'b Runtime" where
  "recordServeStats r name latency =
     (let s = statLocked r name in
      r\<lparr>rtStats := (rtStats r)(name \<mapsto>
          s\<lparr>msServedCount := msServedCount s + 1, msLastServedAt := hNow (rtBlocker r), msLastLatency := latency,
            msHasLatency := True, msLastErr := []\<rparr>)\<rparr>)"

definition RecordServe :: "'b breaker_lib \<Rightarrow> 'b Runtime \<Rightarrow> string \<Rightarrow> int \<Rightarrow> 'b Runtime" where
  "RecordServe lib r name latency =
     recordServeStats (r\<lparr>rtBlocker := hub_recordSuccess lib (rtBlocker r) name\<rparr>) name latency"

definition setLastErr :: "'b Runtime \<Rightarrow> string \<Rightarrow> uerr option \<Rightarrow> 'b Runtime" where
  "setLastErr r name err =
     (case err of
        None \<Rightarrow> r
      | Some e \<Rightarrow> r\<lparr>rtStats := (rtStats r)(name \<mapsto> (statLocked r name)\<lparr>msLastErr := eMsg e\<rparr>)\<rparr>)"

definition RecordFailure :: "'b breaker_lib \<Rightarrow> 'b Runtime \<Rightarrow> string \<Rightarrow> uerr option \<Rightarrow> bool \<Rightarrow> bool \<times> 'b Runtime" where
  "RecordFailure lib r name err transient =
     (let r1 = setLastErr r name err in
      if \<not> transient then (False, r1)
      else case hub_recordFailure lib (rtBlocker r1) name of (t, h) \<Rightarrow> (t, r1\<lparr>rtBlocker := h\<rparr>))"

section \<open>Overrides\<close>

definition SetEnabled :: "'b Runtime \<Rightarrow> string \<Rightarrow> bool \<Rightarrow> 'b Runtime" where
  "SetEnabled r name enabled =
     r\<lparr>rtOverrides := (rtOverrides r)(name \<mapsto> (overrideLocked r name)\<lparr>ovDisabled := \<not> enabled\<rparr>)\<rparr>"

definition Unblock :: "'b breaker_lib \<Rightarrow> 'b Runtime \<Rightarrow> string \<Rightarrow> 'b Runtime" where
  "Unblock lib r name =
     (let r1 = r\<lparr>rtBlocker := closeBreaker lib (rtBlocker r) name\<rparr> in
      r1\<lparr>rtStats := (rtStats r1)(name \<mapsto> (statLocked r1 name)\<lparr>msLastErr := []\<rparr>)\<rparr>)"

fun first_dup :: "string set \<Rightarrow> string list \<Rightarrow> string option" where
  "first_dup seen [] = None"
| "first_dup seen (x # xs) = (if x \<in> seen then Some x else first_dup (insert x seen) xs)"

fun assign_priorities :: "int \<Rightarrow> string list \<Rightarrow> 'b Runtime \<Rightarrow> 'b Runtime" where
  "assign_priorities i [] r = r"
| "assign_priorities i (name # ns) r =
     assign_priorities (i + 1) ns
       (r\<lparr>rtOverrides := (rtOverrides r)(name \<mapsto> (overrideLocked r name)\<lparr>ovPriority := i, ovHasPriority := True\<rparr>)\<rparr>)"

definition Reorder :: "'b Runtime \<Rightarrow> string list \<Rightarrow> string option \<times> 'b Runtime" where
  "Reorder r order =
     (case first_dup {} order of
        Some name \<Rightarrow> (Some (''upstream: duplicate mirror '' @ quote name @ '' in reorder request''), r)
      | None \<Rightarrow> (None, assign_priorities 0 order r))"

definition ClearOverrides :: "'b Runtime \<Rightarrow> 'b Runtime" where
  "ClearOverrides r = r\<lparr>rtOverrides := Map.empty\<rparr>"

fun apply_overrides :: "'b Runtime \<Rightarrow> Upstream list \<Rightarrow> Upstream list" where
  "apply_overrides r [] = []"
| "apply_overrides r (u # us) =
     (case rtOverrides r (upName u) of
        None \<Rightarrow> u # apply_overrides r us
      | Some o' \<Rightarrow>
          if ovDisabled o' then apply_overrides r us
          else (if ovHasPriority o' then u\<lparr>upPriority := ovPriority o'\<rparr> else u) # apply_overrides r us)"

definition effective :: "'b Runtime \<Rightarrow> Upstream list \<Rightarrow> Upstream list" where
  "effective r ups = sortedUpstreams (apply_overrides r ups)"

section \<open>The operator view\<close>

datatype Health = HealthUp | HealthBlocked | HealthProbing | HealthUnknown

record MirrorState =
  mtProtocol :: string
  mtName :: string
  mtBaseURL :: string
  mtOfficial :: bool
  mtConfigPriority :: int
  mtPriority :: int
  mtOverridden :: bool
  mtEnabled :: bool
  mtHealth :: Health
  mtBlocked :: bool
  mtBlockedUntil :: gotime
  mtConsecutiveFailures :: int
  mtLastErr :: string
  mtLastLatency :: int
  mtLastLatencyValid :: bool
  mtServedCount :: int
  mtLastServedAt :: gotime

definition deriveHealth :: "MirrorState \<Rightarrow> Health" where
  "deriveHealth s =
     (if mtBlocked s then HealthBlocked
      else if 0 < mtConsecutiveFailures s then HealthProbing
      else if 0 < mtServedCount s then HealthUp
      else HealthUnknown)"

definition mirror_base :: "'b Runtime \<Rightarrow> Upstream \<Rightarrow> MirrorState" where
  "mirror_base r u =
     (let s = statLocked r (upName u); o' = overrideLocked r (upName u) in
      \<lparr>mtProtocol = rtProtocol r, mtName = upName u, mtBaseURL = upBaseURL u, mtOfficial = upOfficial u,
       mtConfigPriority = upPriority u,
       mtPriority = (if ovHasPriority o' then ovPriority o' else upPriority u),
       mtOverridden = ovHasPriority o', mtEnabled = (\<not> ovDisabled o'),
       mtHealth = HealthUnknown, mtBlocked = False, mtBlockedUntil = zeroTime, mtConsecutiveFailures = 0,
       mtLastErr = msLastErr s, mtLastLatency = msLastLatency s, mtLastLatencyValid = msHasLatency s,
       mtServedCount = msServedCount s, mtLastServedAt = msLastServedAt s\<rparr>)"

fun mirror_blocks :: "'b breaker_lib \<Rightarrow> MirrorState list \<Rightarrow> 'b hub \<Rightarrow> MirrorState list \<times> 'b hub" where
  "mirror_blocks lib [] h = ([], h)"
| "mirror_blocks lib (m # ms) h =
     (case hub_isOpen lib h (mtName m) of
        (blocked, h1) \<Rightarrow>
          (case hub_blockedUntil lib h1 (mtName m) of
             (until, h2) \<Rightarrow>
               (case hub_failureCount lib h2 (mtName m) of
                  (fails, h3) \<Rightarrow>
                    (let m1 = m\<lparr>mtBlocked := blocked, mtBlockedUntil := until, mtConsecutiveFailures := fails\<rparr> in
                     case mirror_blocks lib ms h3 of
                       (out, h4) \<Rightarrow> (m1\<lparr>mtHealth := deriveHealth m1\<rparr> # out, h4)))))"

definition snapshot_le :: "MirrorState \<Rightarrow> MirrorState \<Rightarrow> bool" where
  "snapshot_le a b \<longleftrightarrow> (mtPriority a, mtName a) \<le> (mtPriority b, mtName b)"

definition Snapshot :: "'b breaker_lib \<Rightarrow> 'b Runtime \<Rightarrow> Upstream list \<Rightarrow> MirrorState list \<times> 'b Runtime" where
  "Snapshot lib r configured =
     (case mirror_blocks lib (map (mirror_base r) configured) (rtBlocker r) of
        (out, h) \<Rightarrow> (isort snapshot_le out, r\<lparr>rtBlocker := h\<rparr>))"

section \<open>The registry of runtimes\<close>

record 'b Registry =
  regByProto :: "string \<rightharpoonup> 'b Runtime"
  regOrder :: "string list"

definition reg_Runtime :: "(string \<Rightarrow> 'b hub) \<Rightarrow> 'b Registry \<Rightarrow> string \<Rightarrow> 'b Runtime \<times> 'b Registry" where
  "reg_Runtime mk reg protocol =
     (case regByProto reg protocol of
        Some rt \<Rightarrow> (rt, reg)
      | None \<Rightarrow>
          (let rt = NewRuntime protocol (mk protocol) in
           (rt, reg\<lparr>regByProto := (regByProto reg)(protocol \<mapsto> rt), regOrder := regOrder reg @ [protocol]\<rparr>)))"

definition reg_Lookup :: "'b Registry \<Rightarrow> string \<Rightarrow> 'b Runtime option" where
  "reg_Lookup reg protocol = regByProto reg protocol"

definition Protocols :: "'b Registry \<Rightarrow> string list" where
  "Protocols reg = isort (\<le>) (regOrder reg)"

section \<open>Properties\<close>

lemma first_dup_None: "first_dup seen xs = None \<longleftrightarrow> distinct xs \<and> set xs \<inter> seen = {}"
  by (induction xs arbitrary: seen) auto

fun position :: "'a \<Rightarrow> 'a list \<Rightarrow> nat option" where
  "position x [] = None"
| "position x (y # ys) = (if x = y then Some 0 else map_option Suc (position x ys))"

lemma position_None_iff: "position x xs = None \<longleftrightarrow> x \<notin> set xs"
  by (induction xs) auto

lemma position_nth: "position x xs = Some k \<Longrightarrow> k < length xs \<and> xs ! k = x"
  by (induction xs arbitrary: k) (auto split: if_splits)

lemma position_inj: "position x xs = Some k \<Longrightarrow> position y xs = Some k \<Longrightarrow> x = y"
  by (metis position_nth)

lemma position_nth_distinct: "distinct xs \<Longrightarrow> k < length xs \<Longrightarrow> position (xs ! k) xs = Some k"
  by (metis nth_eq_iff_index_eq nth_mem option.exhaust position_None_iff position_nth)

lemma sorted_positions: "distinct xs \<Longrightarrow> sorted_wrt (<) (map (\<lambda>x. the (position x xs)) xs)"
  by (simp add: sorted_wrt_iff_nth_less position_nth_distinct)

lemma assign_priorities_overrides:
  assumes "distinct ns"
  shows "rtOverrides (assign_priorities i ns r) name =
     (case position name ns of
        None \<Rightarrow> rtOverrides r name
      | Some k \<Rightarrow> Some ((overrideLocked r name)\<lparr>ovPriority := i + int k, ovHasPriority := True\<rparr>))"
  using assms
proof (induction ns arbitrary: i r)
  case (Cons n ns)
  let ?r = "r\<lparr>rtOverrides := (rtOverrides r)(n \<mapsto> (overrideLocked r n)\<lparr>ovPriority := i, ovHasPriority := True\<rparr>)\<rparr>"
  show ?case
  proof (cases "n = name")
    case True
    with Cons.prems have "position name ns = None" by (simp add: position_None_iff)
    with Cons True show ?thesis by simp
  next
    case False
    then have "overrideLocked ?r name = overrideLocked r name" by (simp add: overrideLocked_def)
    with Cons False show ?thesis by (auto split: option.splits)
  qed
qed simp

definition disabled :: "'b Runtime \<Rightarrow> string \<Rightarrow> bool" where
  "disabled r name = ovDisabled (overrideLocked r name)"

definition priority_of :: "'b Runtime \<Rightarrow> Upstream \<Rightarrow> int" where
  "priority_of r u =
     (let o' = overrideLocked r (upName u) in if ovHasPriority o' then ovPriority o' else upPriority u)"

lemma apply_overrides_eq:
  "apply_overrides r us = map (\<lambda>u. u\<lparr>upPriority := priority_of r u\<rparr>) (filter (\<lambda>u. \<not> disabled r (upName u)) us)"
  by (induction us) (auto simp: disabled_def priority_of_def overrideLocked_def Let_def split: option.splits)

lemma distinct_map_sortedUpstreams [simp]: "distinct (map upName (sortedUpstreams us)) \<longleftrightarrow> distinct (map upName us)"
  by (simp add: sortedUpstreams_def)

lemma effective_chain_set:
  "set (effective r ups) = (\<lambda>u. u\<lparr>upPriority := priority_of r u\<rparr>) ` {u \<in> set ups. \<not> disabled r (upName u)}"
  by (auto simp: effective_def apply_overrides_eq)

text \<open>the chain that is tried is the configured one without the mirrors an operator disabled, each
  with its overridden priority where there is one, in ascending priority; mirrors are neither
  invented nor duplicated, and without overrides it is the configured chain in priority order.\<close>

theorem effective_chain:
  "set (effective r ups) =
     (\<lambda>u. u\<lparr>upPriority := priority_of r u\<rparr>) ` {u \<in> set ups. \<not> disabled r (upName u)}
   \<and> length (effective r ups) = length (filter (\<lambda>u. \<not> disabled r (upName u)) ups)
   \<and> sorted_wrt (\<lambda>a b. upPriority a \<le> upPriority b) (effective r ups)
   \<and> effective (ClearOverrides r) ups = sortedUpstreams ups"
proof (intro conjI)
  have "apply_overrides (ClearOverrides r) ups = ups"
    by (induction ups) (simp_all add: ClearOverrides_def)
  then show "effective (ClearOverrides r) ups = sortedUpstreams ups" by (simp add: effective_def)
  show "length (effective r ups) = length (filter (\<lambda>u. \<not> disabled r (upName u)) ups)"
    by (simp add: effective_def sortedUpstreams_def apply_overrides_eq)
qed (auto simp: effective_def apply_overrides_eq sorted_sortedUpstreams)

lemma Reorder_ok: "distinct order \<Longrightarrow> Reorder r order = (None, assign_priorities 0 order r)"
  using first_dup_None [of "{}" order] by (simp add: Reorder_def)

lemma reordered_override:
  assumes "distinct order" and "position name order = Some k"
  shows "overrideLocked (assign_priorities 0 order r) name = (overrideLocked r name)\<lparr>ovPriority := int k, ovHasPriority := True\<rparr>"
  using assms assign_priorities_overrides [of order 0 r name] by (simp add: overrideLocked_def)

text \<open>Reordering with a list that names every configured mirror once makes exactly that list, less
  the disabled mirrors, the order in which mirrors are tried; a list with a repeated name is
  refused and changes nothing.\<close>

theorem Reorder_sets_order:
  assumes "distinct (map upName ups)" and "set order = upName ` set ups"
  shows "if distinct order
         then fst (Reorder r order) = None
              \<and> map upName (effective (snd (Reorder r order)) ups) = filter (\<lambda>n. \<not> disabled r n) order
         else fst (Reorder r order) \<noteq> None \<and> snd (Reorder r order) = r"
proof (cases "distinct order")
  case False
  then have "first_dup {} order \<noteq> None" by (simp add: first_dup_None)
  with False show ?thesis by (auto simp: Reorder_def)
next
  case True
  define r' where "r' = assign_priorities 0 order r"
  define pos where "pos = (\<lambda>n. the (position n order))"
  have at: "\<exists>k. position n order = Some k" if "n \<in> set order" for n using that position_None_iff by fastforce
  have ov: "overrideLocked r' n = (overrideLocked r n)\<lparr>ovPriority := int (pos n), ovHasPriority := True\<rparr>" if "n \<in> set order" for n
    using reordered_override [OF True] at [OF that] by (auto simp: r'_def pos_def)
  have dis: "disabled r' n = disabled r n" if "n \<in> set order" for n using ov [OF that] by (simp add: disabled_def)
  let ?L = "map upName (effective r' ups)" and ?R = "filter (\<lambda>n. \<not> disabled r n) order"
  have "set ?L = upName ` {u \<in> set ups. \<not> disabled r' (upName u)}"
    by (simp add: effective_chain_set image_image)
  also have "\<dots> = set ?R" using dis assms(2) by auto
  finally have setL: "set ?L = set ?R" .
  have sub: "set ?L \<subseteq> set order" using setL by auto
  have "distinct (map upName (apply_overrides r' ups))"
    using assms(1) by (simp add: apply_overrides_eq comp_def distinct_map_filter)
  then have dL: "distinct ?L" by (simp add: effective_def)
  have prio: "upPriority u = int (pos (upName u))" if "u \<in> set (effective r' ups)" for u
    using that ov assms(2) by (auto simp: effective_def apply_overrides_eq priority_of_def Let_def)
  have inj: "inj_on pos (set order)"
    by (intro inj_onI) (metis at position_inj pos_def option.sel)
  have "sorted_wrt (\<lambda>a b. pos (upName a) \<le> pos (upName b)) (effective r' ups)"
    using sorted_sortedUpstreams [of "apply_overrides r' ups"] prio
    by (auto simp: effective_def [symmetric] elim!: sorted_wrt_mono_rel [rotated])
  then have "sorted (map pos ?L)" by (simp add: sorted_wrt_map)
  moreover have "distinct (map pos ?L)" using dL inj_on_subset [OF inj sub] by (simp add: distinct_map comp_inj_on)
  moreover have "sorted (map pos ?R)"
    using sorted_positions [OF True] by (auto simp: pos_def sorted_wrt_map strict_sorted_iff sorted_wrt_filter
        intro!: sorted_wrt_filter elim!: sorted_wrt_mono_rel [rotated])
  moreover have "distinct (map pos ?R)" using True inj by (auto simp: distinct_map intro: inj_on_subset)
  moreover have "set (map pos ?L) = set (map pos ?R)" using setL by (metis set_map)
  ultimately have "map pos ?L = map pos ?R" by (intro sorted_distinct_set_unique)
  then have "?L = ?R"
    by (rule map_inj_on) (use setL in \<open>auto intro: inj_on_subset [OF inj]\<close>)
  with True Reorder_ok [OF True, of r] show ?thesis by (simp add: r'_def)
qed

definition mirror :: "string \<Rightarrow> int \<Rightarrow> Upstream" where
  "mirror name prio = \<lparr>upName = name, upBaseURL = ''https://'' @ name, upPriority = prio, upOfficial = False,
                       upPathPrefix = [], upProxy = []\<rparr>"

theorem Reorder_sets_order_witness:
  "map upName (effective (snd (Reorder (SetEnabled (NewRuntime ''oci'' (shared_hub 0 0)) ''b'' False) [''c'', ''b'', ''a'']))
     [mirror ''a'' 0, mirror ''b'' 1, mirror ''c'' 2]) = [''c'', ''a'']"
proof -
  let ?r = "SetEnabled (NewRuntime ''oci'' (shared_hub 0 0)) ''b'' False"
  have d: "disabled ?r n \<longleftrightarrow> n = ''b''" for n
    by (auto simp: disabled_def overrideLocked_def SetEnabled_def NewRuntime_def)
  show ?thesis
    using Reorder_sets_order [of "[mirror ''a'' 0, mirror ''b'' 1, mirror ''c'' 2]" "[''c'', ''b'', ''a'']" ?r]
    by (auto simp: mirror_def d)
qed

text \<open>
  Mirrors of equal priority are tried in the order of the configuration, while the operator
  view lists them by name.
\<close>

lemma snapshot_order_differs:
  "map upName (effective (NewRuntime ''oci'' (shared_hub 0 0)) [mirror ''z'' 1, mirror ''a'' 1]) = [''z'', ''a'']
   \<and> map mtName (fst (Snapshot simple_lib (NewRuntime ''oci'' (shared_hub 0 0)) [mirror ''z'' 1, mirror ''a'' 1])) = [''a'', ''z'']"
  by code_simp

text \<open>A mirror is reported up only when it served and neither fails nor is blocked.\<close>

lemma deriveHealth_up_iff:
  "deriveHealth s = HealthUp \<longleftrightarrow> \<not> mtBlocked s \<and> mtConsecutiveFailures s \<le> 0 \<and> 0 < mtServedCount s"
  by (simp add: deriveHealth_def not_le)

end
