(* ===== verification/Fetch.thy ===== *)
theory Fetch
  imports Runtime
begin

text \<open>
  The fallback chain (\<^verbatim>\<open>internal/upstream/client.go\<close>, \<^verbatim>\<open>hedge.go\<close>, the attempt runner of
  \<^verbatim>\<open>resilience.go\<close>). Parameters: the answers of the network to the requests of this client,
  numbered in the order they are made; whether a URL can be made a request; the token endpoints; the state of the caller's context;
  which of two racing attempts arrives first; and \<^verbatim>\<open>failsafe.With(retry, breaker).Get\<close> of the
  library. Metrics are left out, but not the look-ups of the block state they cause.
\<close>

section \<open>Requests and answers\<close>

record request =
  rqURL :: string
  rqIfNoneMatch :: string
  rqIfModifiedSince :: string
  rqAccept :: string
  rqRange :: string
  rqAuthorization :: string

datatype body_err = BodyEOF | BodyErr uerr bool

text \<open>
  A body is the script of its reads: the bytes a read delivers and the error it ends with. The
  flag of an error says that it is a network error (\<^verbatim>\<open>net.Error\<close>) or a premature end.
\<close>

type_synonym body = "(bytes \<times> body_err option) list"

record response =
  rsStatus :: int
  rsETag :: string
  rsLastModified :: string
  rsContentType :: string
  rsWWWAuth :: string
  rsLatency :: int
  rsBody :: body

record fetchAttempt =
  faBody :: "body option"
  faMeta :: UpstreamMeta
  faLatency :: int

record retrySpec =
  rtyMaxRetries :: int
  rtyFailFastDial :: bool

datatype hedge_sched = PrimaryFirst | NextFirst | CtxDone uerr

record 'b fetch_world =
  fwRuntime :: "'b Runtime"
  fwTokens :: "string \<rightharpoonup> string \<times> gotime"
  fwTick :: nat
  fwLog :: "string list"

record 'b fetch_env =
  feLib :: "'b breaker_lib"
  feGet :: "retrySpec \<Rightarrow> string \<Rightarrow> ('b fetch_world \<Rightarrow> (uerr + fetchAttempt) \<times> 'b fetch_world)
              \<Rightarrow> 'b fetch_world \<Rightarrow> (uerr + fetchAttempt) \<times> 'b fetch_world"
  feNewRequest :: "string \<Rightarrow> uerr option"
  feDo :: "nat \<Rightarrow> bool \<Rightarrow> Upstream \<Rightarrow> request \<Rightarrow> uerr + response"
  feToken :: "nat \<Rightarrow> string \<Rightarrow> string \<Rightarrow> string \<Rightarrow> uerr + string \<times> int"
  feCtx :: "nat \<Rightarrow> uerr option"
  feSched :: "nat \<Rightarrow> hedge_sched"
  feMaxAttempts :: int
  feMaxResumes :: int

abbreviation fw_hub :: "'b fetch_world \<Rightarrow> 'b hub" where
  "fw_hub w \<equiv> rtBlocker (fwRuntime w)"

definition with_hub :: "'b hub \<Rightarrow> 'b fetch_world \<Rightarrow> 'b fetch_world" where
  "with_hub h w = w\<lparr>fwRuntime := (fwRuntime w)\<lparr>rtBlocker := h\<rparr>\<rparr>"

definition isBlocked :: "'b fetch_env \<Rightarrow> 'b fetch_world \<Rightarrow> string \<Rightarrow> bool \<times> 'b fetch_world" where
  "isBlocked env w name =
     (case hub_isOpen (feLib env) (fw_hub w) name of (b, h) \<Rightarrow> (b, with_hub h w))"

definition syncBlocked :: "'b fetch_env \<Rightarrow> string \<Rightarrow> 'b fetch_world \<Rightarrow> 'b fetch_world" where
  "syncBlocked env name w = snd (isBlocked env w name)"

section \<open>Bearer tokens\<close>

definition tokenExpiryBuffer :: int where "tokenExpiryBuffer = 30 * Second"
definition defaultTokenTTL :: int where "defaultTokenTTL = 300 * Second"

definition getCachedToken :: "'b fetch_world \<Rightarrow> string \<Rightarrow> string \<Rightarrow> string" where
  "getCachedToken w up scope =
     (case fwTokens w (up @ '':'' @ scope) of
        None \<Rightarrow> []
      | Some (tok, expires) \<Rightarrow> if hNow (fw_hub w) < expires then tok else [])"

definition setCachedToken :: "'b fetch_world \<Rightarrow> string \<Rightarrow> string \<Rightarrow> string \<Rightarrow> gotime \<Rightarrow> 'b fetch_world" where
  "setCachedToken w up scope token expires =
     w\<lparr>fwTokens := (fwTokens w)(up @ '':'' @ scope \<mapsto> (token, expires))\<rparr>"

definition fetchBearerToken ::
  "'b fetch_env \<Rightarrow> 'b fetch_world \<Rightarrow> string \<Rightarrow> string \<Rightarrow> string \<Rightarrow> (uerr + string \<times> gotime) \<times> 'b fetch_world" where
  "fetchBearerToken env w realm service scope =
     (let w1 = w\<lparr>fwTick := Suc (fwTick w)\<rparr> in
      case feToken env (fwTick w) realm service scope of
        Inl e \<Rightarrow> (Inl e, w1)
      | Inr (tok, expiresIn) \<Rightarrow>
          if tok = [] then (Inl (plain ''bearer: empty token in response''), w1)
          else
            let ttl = (if 0 < expiresIn then max 0 (expiresIn * Second - tokenExpiryBuffer) else defaultTokenTTL) in
            (Inr (tok, hNow (fw_hub w) + ttl), w1))"

definition getOrFetchToken ::
  "'b fetch_env \<Rightarrow> 'b fetch_world \<Rightarrow> string \<Rightarrow> Upstream \<Rightarrow> (uerr + string) \<times> 'b fetch_world" where
  "getOrFetchToken env w wwwAuth up =
     (case parseBearerChallenge wwwAuth of
        None \<Rightarrow>
          (Inl (plain (''upstream '' @ upName up @ '': no parseable Bearer challenge in WWW-Authenticate: '' @ quote wwwAuth)), w)
      | Some (realm, service, scope) \<Rightarrow>
          (let tok = getCachedToken w (upName up) scope in
           if tok \<noteq> [] then (Inr tok, w)
           else
             case fetchBearerToken env w realm service scope of
               (Inl e, w1) \<Rightarrow> (Inl (wrap (''upstream '' @ upName up @ '': '') e), w1)
             | (Inr (tok2, expires), w1) \<Rightarrow> (Inr tok2, setCachedToken w1 (upName up) scope tok2 expires)))"

section \<open>One attempt\<close>

definition extractMeta :: "response \<Rightarrow> string \<Rightarrow> UpstreamMeta" where
  "extractMeta r up =
     \<lparr>uETag = rsETag r, uLastModified = rsLastModified r, uUpstream = up, uContentType = rsContentType r,
      uStatusCode = rsStatus r, uAttachments = [], uPublishedAt = zeroTime\<rparr>"

definition build_request :: "string \<Rightarrow> UpstreamMeta option \<Rightarrow> requestOpts \<Rightarrow> string \<Rightarrow> request" where
  "build_request url prev opts authToken =
     \<lparr>rqURL = url,
      rqIfNoneMatch = (case prev of None \<Rightarrow> [] | Some p \<Rightarrow> uETag p),
      rqIfModifiedSince = (case prev of None \<Rightarrow> [] | Some p \<Rightarrow> uLastModified p),
      rqAccept = roAccept opts,
      rqRange = (if roHasRange opts then ''bytes='' @ itoa (roRangeStart opts) @ ''-'' else []),
      rqAuthorization = (if authToken \<noteq> [] then ''Bearer '' @ authToken else [])\<rparr>"

datatype once = OErr uerr | OOk fetchAttempt | OAuth string

definition request_once ::
  "'b fetch_env \<Rightarrow> 'b fetch_world \<Rightarrow> bool \<Rightarrow> ArtifactRef \<Rightarrow> Upstream \<Rightarrow> UpstreamMeta option \<Rightarrow> requestOpts
   \<Rightarrow> string \<Rightarrow> once \<times> 'b fetch_world" where
  "request_once env w fast ref up prev opts authToken =
     (case feCtx env (fwTick w) of
        Some e \<Rightarrow> (OErr e, w)
      | None \<Rightarrow>
      case feNewRequest env (buildURL up ref) of
        Some e \<Rightarrow> (OErr (wrap (''upstream '' @ upName up @ '': build request: '') e), w)
      | None \<Rightarrow>
          (let w1 = w\<lparr>fwTick := Suc (fwTick w), fwLog := fwLog w @ [upName up]\<rparr> in
           case feDo env (fwTick w) fast up (build_request (buildURL up ref) prev opts authToken) of
             Inl e \<Rightarrow>
               if isContextError e \<and> feCtx env (fwTick w1) \<noteq> None then (OErr e, w1)
               else (OErr (asTransient (wrap (''upstream '' @ upName up @ '': '') e)), w1)
           | Inr resp \<Rightarrow>
               let meta = extractMeta resp (upName up); code = rsStatus resp in
               if code = 304 then (OOk \<lparr>faBody = None, faMeta = meta, faLatency = rsLatency resp\<rparr>, w1)
               else if 200 \<le> code \<and> code < 300 then
                 (OOk \<lparr>faBody = Some (rsBody resp), faMeta = meta, faLatency = rsLatency resp\<rparr>, w1)
               else if code = 401 then (OAuth (rsWWWAuth resp), w1)
               else if code = 429 then
                 (OErr (asTransient (plain (''upstream '' @ upName up @ '': HTTP 429 (rate limited)''))), w1)
               else if 500 \<le> code then
                 (OErr (asTransient (plain (''upstream '' @ upName up @ '': HTTP '' @ itoa code))), w1)
               else (OErr (StatusError (upName up) code), w1)))"

text \<open>A first \<^verbatim>\<open>401\<close> is answered with a token and one more request; a second one is definitive.\<close>

definition tryOnce ::
  "'b fetch_env \<Rightarrow> bool \<Rightarrow> ArtifactRef \<Rightarrow> Upstream \<Rightarrow> UpstreamMeta option \<Rightarrow> requestOpts
   \<Rightarrow> 'b fetch_world \<Rightarrow> (uerr + fetchAttempt) \<times> 'b fetch_world" where
  "tryOnce env fast ref up prev opts w =
     (let tok = (if rProtocol ref = ''oci''
                 then getCachedToken w (upName up) (''repository:'' @ ociFetchName up (rName ref) @ '':pull'') else []) in
      case request_once env w fast ref up prev opts tok of
        (OErr e, w1) \<Rightarrow> (Inl e, w1)
      | (OOk a, w1) \<Rightarrow> (Inr a, w1)
      | (OAuth wwwAuth, w1) \<Rightarrow>
          (case getOrFetchToken env w1 wwwAuth up of
             (Inl e, w2) \<Rightarrow> (Inl (wrap (''upstream '' @ upName up @ '': HTTP 401 unauthorized: '') e), w2)
           | (Inr tok2, w2) \<Rightarrow>
               (case request_once env w2 fast ref up prev opts tok2 of
                  (OErr e, w3) \<Rightarrow> (Inl e, w3)
                | (OOk a, w3) \<Rightarrow> (Inr a, w3)
                | (OAuth _, w3) \<Rightarrow> (Inl (StatusError (upName up) 401), w3))))"

section \<open>Attempts under retry and circuit breaker\<close>

definition bump_streak :: "string \<Rightarrow> (int \<Rightarrow> int) \<Rightarrow> 'b fetch_world \<Rightarrow> 'b fetch_world" where
  "bump_streak name f w =
     with_hub ((fw_hub w)\<lparr>hConsecutive := (hConsecutive (fw_hub w))(name := f (hConsecutive (fw_hub w) name))\<rparr>) w"

definition runFetchAttempt ::
  "'b fetch_env \<Rightarrow> string \<Rightarrow> int \<Rightarrow> bool \<Rightarrow> ('b fetch_world \<Rightarrow> (uerr + fetchAttempt) \<times> 'b fetch_world)
   \<Rightarrow> 'b fetch_world \<Rightarrow> (uerr \<times> bool + fetchAttempt) \<times> 'b fetch_world" where
  "runFetchAttempt env name maxAttempts failFastDial fn w =
     (let attempts = (if maxAttempts \<le> 0 then 1 else maxAttempts);
          w0 = with_hub (snd (breaker (feLib env) (fw_hub w) name)) w
      in
      case feGet env \<lparr>rtyMaxRetries = attempts - 1, rtyFailFastDial = failFastDial\<rparr> name fn w0 of
        (Inl e, w1) \<Rightarrow>
          (Inl (e, isTransientExecError e \<or> eOpen e \<or> eExceeded e),
           if isTransientExecError e then bump_streak name (\<lambda>n. n + 1) w1 else w1)
      | (Inr a, w1) \<Rightarrow> (Inr a, bump_streak name (\<lambda>_. 0) w1))"

definition tryFetch ::
  "'b fetch_env \<Rightarrow> ArtifactRef \<Rightarrow> Upstream \<Rightarrow> UpstreamMeta option \<Rightarrow> requestOpts \<Rightarrow> int \<Rightarrow> int
   \<Rightarrow> 'b fetch_world \<Rightarrow> (uerr \<times> bool + fetchAttempt) \<times> 'b fetch_world" where
  "tryFetch env ref up prev opts maxAttempts remainingAfter w =
     runFetchAttempt env (upName up) maxAttempts (0 < remainingAfter)
       (tryOnce env (0 < remainingAfter) ref up prev opts) w"

definition attemptBudget :: "'b fetch_env \<Rightarrow> (string \<times> int) option \<Rightarrow> int \<Rightarrow> Upstream \<Rightarrow> bool \<Rightarrow> int" where
  "attemptBudget env statusErr remainingAfter up priorTransportFail =
     (if statusErr \<noteq> None then 1
      else if 0 < remainingAfter then (if feMaxAttempts env < 2 then 1 else 2)
      else if upOfficial up \<and> priorTransportFail then 1
      else feMaxAttempts env)"

section \<open>Hedging\<close>

definition hedgeEligible ::
  "'b fetch_env \<Rightarrow> ArtifactRef \<Rightarrow> int \<Rightarrow> Upstream list \<Rightarrow> 'b fetch_world \<Rightarrow> bool \<times> 'b fetch_world" where
  "hedgeEligible env ref remainingAfter rest w =
     (if \<not> rMutable ref \<or> remainingAfter \<le> 0 then (False, w)
      else
        case rest of
          [] \<Rightarrow> (False, w)
        | next # _ \<Rightarrow> (case isBlocked env w (upName next) of (b, w1) \<Rightarrow> (\<not> b, w1)))"

text \<open>
  The race: the first attempt to bring headers wins and the other is cancelled; when both fail,
  the outcome of the primary is reported (the later one when both carry the name of the primary).
\<close>

definition tryFetchHedged ::
  "'b fetch_env \<Rightarrow> ArtifactRef \<Rightarrow> Upstream \<Rightarrow> Upstream \<Rightarrow> requestOpts \<Rightarrow> int \<Rightarrow> int \<Rightarrow> 'b fetch_world
   \<Rightarrow> ((uerr \<times> bool + fetchAttempt) \<times> Upstream) \<times> 'b fetch_world" where
  "tryFetchHedged env ref primary next opts budget remainingAfter w =
     (let p = tryFetch env ref primary None opts budget remainingAfter;
          n = tryFetch env ref next None opts 1 1 in
      case feSched env (fwTick w) of
        CtxDone e \<Rightarrow> ((Inl (e, False), primary), w)
      | PrimaryFirst \<Rightarrow>
          (case p w of
             (Inr a, w1) \<Rightarrow> ((Inr a, primary), w1)
           | (Inl pe, w1) \<Rightarrow>
               (case n w1 of
                  (Inr a, w2) \<Rightarrow> ((Inr a, next), w2)
                | (Inl ne, w2) \<Rightarrow> ((Inl (if upName next = upName primary then ne else pe), primary), w2)))
      | NextFirst \<Rightarrow>
          (case n w of
             (Inr a, w1) \<Rightarrow> ((Inr a, next), w1)
           | (Inl _, w1) \<Rightarrow> (case p w1 of (r, w2) \<Rightarrow> ((r, primary), w2))))"

section \<open>The chain\<close>

type_synonym attemptNote = "string \<times> uerr"

definition errCircuitOpen :: uerr where
  "errCircuitOpen = plain ''skipped: circuit breaker open''"

definition summariseAttempts :: "attemptNote list \<Rightarrow> string" where
  "summariseAttempts attempts =
     (if attempts = [] then []
      else '' [tried '' @ Join (map (\<lambda>(u, e). u @ '': '' @ eMsg e) attempts) ''; '' @ '']'')"

definition rememberStatusErr :: "uerr option \<Rightarrow> uerr \<Rightarrow> uerr option" where
  "rememberStatusErr dst e = (if dst \<noteq> None then dst else if eStatus e \<noteq> None then Some e else None)"

text \<open>The definitive answer is rebuilt from the status; a transport failure is wrapped as it is.\<close>

definition resolveFetchError :: "uerr option \<Rightarrow> uerr \<Rightarrow> attemptNote list \<Rightarrow> uerr" where
  "resolveFetchError statusErr lastErr attempts =
     wrap (''upstream: all upstreams failed:'' @ summariseAttempts attempts @ '' '')
       (case statusErr of
          Some e \<Rightarrow> (case eStatus e of Some (u, code) \<Rightarrow> StatusError u code | None \<Rightarrow> e)
        | None \<Rightarrow> lastErr)"

record resumingReader =
  rrRef :: ArtifactRef
  rrUp :: Upstream
  rrChain :: "Upstream list"
  rrOpts :: requestOpts
  rrBody :: "body option"
  rrOffset :: int
  rrResumes :: int
  rrAnnounceRestart :: bool
  rrMaxResumes :: int
  rrClosed :: bool

definition defaultMaxResumeAttempts :: int where "defaultMaxResumeAttempts = 16"

definition wrapResuming ::
  "'b fetch_env \<Rightarrow> ArtifactRef \<Rightarrow> Upstream \<Rightarrow> Upstream list \<Rightarrow> requestOpts \<Rightarrow> body \<Rightarrow> resumingReader" where
  "wrapResuming env ref up chain opts b =
     \<lparr>rrRef = ref, rrUp = up, rrChain = (if chain = [] then [up] else chain), rrOpts = opts, rrBody = Some b,
      rrOffset = 0, rrResumes = 0, rrAnnounceRestart = False,
      rrMaxResumes = (if feMaxResumes env \<le> 0 then defaultMaxResumeAttempts else feMaxResumes env), rrClosed = False\<rparr>"

text \<open>The state the loop over the chain carries.\<close>

record walk_state =
  csLastErr :: "uerr option"
  csStatusErr :: "uerr option"
  csAttempts :: "attemptNote list"
  csTried :: nat
  csPriorTransportFail :: bool

definition chain_start :: walk_state where
  "chain_start = \<lparr>csLastErr = None, csStatusErr = None, csAttempts = [], csTried = 0, csPriorTransportFail = False\<rparr>"

definition skip_blocked :: "string \<Rightarrow> walk_state \<Rightarrow> walk_state" where
  "skip_blocked name st = st\<lparr>csAttempts := csAttempts st @ [(name, errCircuitOpen)]\<rparr>"

definition note_failed :: "string \<Rightarrow> uerr \<Rightarrow> walk_state \<Rightarrow> walk_state" where
  "note_failed name e st =
     (let s = rememberStatusErr (csStatusErr st) e in
      st\<lparr>csLastErr := Some e, csStatusErr := s, csAttempts := csAttempts st @ [(name, e)],
         csTried := Suc (csTried st), csPriorTransportFail := csPriorTransportFail st \<or> s = None\<rparr>)"

definition budget_for :: "'b fetch_env \<Rightarrow> walk_state \<Rightarrow> int \<Rightarrow> Upstream \<Rightarrow> int" where
  "budget_for env st remainingAfter up =
     attemptBudget env (case csStatusErr st of None \<Rightarrow> None | Some e \<Rightarrow> eStatus e) remainingAfter up (csPriorTransportFail st)"

definition after_failure :: "'b fetch_env \<Rightarrow> string \<Rightarrow> uerr \<Rightarrow> 'b fetch_world \<Rightarrow> 'b fetch_world" where
  "after_failure env name e w =
     (let w1 = w\<lparr>fwRuntime := setLastErr (fwRuntime w) name (Some e)\<rparr>;
          w2 = (if isDialClassError e then with_hub (snd (hub_recordFailure (feLib env) (fw_hub w1) name)) w1 else w1)
      in syncBlocked env name w2)"

definition after_success :: "'b fetch_env \<Rightarrow> string \<Rightarrow> int \<Rightarrow> 'b fetch_world \<Rightarrow> 'b fetch_world" where
  "after_success env name latency w =
     syncBlocked env name (w\<lparr>fwRuntime := recordServeStats (fwRuntime w) name latency\<rparr>)"

datatype 'a walk_result = Served 'a | Aborted uerr | Exhausted walk_state

text \<open>
  One pass over the chain. The parameter says how a mirror is tried: it gets the mirrors that
  follow, the number of them and the budget.
\<close>

fun chain_walk ::
  "'b fetch_env \<Rightarrow> (Upstream \<Rightarrow> Upstream list \<Rightarrow> int \<Rightarrow> int \<Rightarrow> 'b fetch_world
        \<Rightarrow> ((uerr \<times> bool + fetchAttempt) \<times> Upstream) \<times> 'b fetch_world)
   \<Rightarrow> Upstream list \<Rightarrow> walk_state \<Rightarrow> 'b fetch_world \<Rightarrow> (fetchAttempt \<times> Upstream) walk_result \<times> 'b fetch_world" where
  "chain_walk env try_up [] st w = (Exhausted st, w)"
| "chain_walk env try_up (up # rest) st w =
     (case isBlocked env w (upName up) of
        (True, w1) \<Rightarrow> chain_walk env try_up rest (skip_blocked (upName up) st) (syncBlocked env (upName up) w1)
      | (False, w1) \<Rightarrow>
          (let remainingAfter = int (length rest) in
           case try_up up rest remainingAfter (budget_for env st remainingAfter up) w1 of
             ((Inr a, winner), w2) \<Rightarrow> (Served (a, winner), after_success env (upName winner) (faLatency a) w2)
           | ((Inl (e, transient), winner), w2) \<Rightarrow>
               if isContextError e \<and> feCtx env (fwTick w2) \<noteq> None then (Aborted e, w2)
               else chain_walk env try_up rest (note_failed (upName up) e st) (after_failure env (upName up) e w2)))"

definition chain_failure :: "walk_state \<Rightarrow> uerr" where
  "chain_failure st =
     (if csTried st = 0 then plain ''upstream: all upstreams are blocked''
      else resolveFetchError (csStatusErr st) (the (csLastErr st)) (csAttempts st))"

definition fetch_try ::
  "'b fetch_env \<Rightarrow> ArtifactRef \<Rightarrow> requestOpts \<Rightarrow> Upstream \<Rightarrow> Upstream list \<Rightarrow> int \<Rightarrow> int \<Rightarrow> 'b fetch_world
   \<Rightarrow> ((uerr \<times> bool + fetchAttempt) \<times> Upstream) \<times> 'b fetch_world" where
  "fetch_try env ref opts up rest remainingAfter budget w =
     (case hedgeEligible env ref remainingAfter rest w of
        (True, w1) \<Rightarrow> tryFetchHedged env ref up (hd rest) opts budget remainingAfter w1
      | (False, w1) \<Rightarrow>
          (case tryFetch env ref up None opts budget remainingAfter w1 of (r, w2) \<Rightarrow> ((r, up), w2)))"

definition Fetch ::
  "'b fetch_env \<Rightarrow> ArtifactRef \<Rightarrow> Upstream list \<Rightarrow> RequestOption list \<Rightarrow> 'b fetch_world
   \<Rightarrow> (uerr + resumingReader option \<times> UpstreamMeta) \<times> 'b fetch_world" where
  "Fetch env ref upstreams options w =
     (let opts = buildRequestOpts options; sorted' = effective (fwRuntime w) upstreams in
      case chain_walk env (fetch_try env ref opts) sorted' chain_start w of
        (Served (a, winner), w1) \<Rightarrow>
          (Inr (map_option (wrapResuming env ref winner sorted' opts) (faBody a), faMeta a), w1)
      | (Aborted e, w1) \<Rightarrow> (Inl e, w1)
      | (Exhausted st, w1) \<Rightarrow> (Inl (chain_failure st), w1))"

definition revalidate_try ::
  "'b fetch_env \<Rightarrow> ArtifactRef \<Rightarrow> UpstreamMeta \<Rightarrow> requestOpts \<Rightarrow> Upstream \<Rightarrow> Upstream list \<Rightarrow> int \<Rightarrow> int \<Rightarrow> 'b fetch_world
   \<Rightarrow> ((uerr \<times> bool + fetchAttempt) \<times> Upstream) \<times> 'b fetch_world" where
  "revalidate_try env ref prev opts up rest remainingAfter budget w =
     (case tryFetch env ref up (Some prev) opts budget remainingAfter w of (r, w1) \<Rightarrow> ((r, up), w1))"

definition Revalidate ::
  "'b fetch_env \<Rightarrow> ArtifactRef \<Rightarrow> UpstreamMeta \<Rightarrow> Upstream list \<Rightarrow> RequestOption list \<Rightarrow> 'b fetch_world
   \<Rightarrow> (uerr + resumingReader option \<times> UpstreamMeta \<times> bool) \<times> 'b fetch_world" where
  "Revalidate env ref prev upstreams options w =
     (let opts = buildRequestOpts options; sorted' = effective (fwRuntime w) upstreams in
      case chain_walk env (revalidate_try env ref prev opts) sorted' chain_start w of
        (Served (a, winner), w1) \<Rightarrow>
          (if uStatusCode (faMeta a) = 304 then (Inr (None, faMeta a, True), w1)
           else (Inr (map_option (wrapResuming env ref winner sorted' opts) (faBody a), faMeta a, False), w1))
      | (Aborted e, w1) \<Rightarrow> (Inl e, w1)
      | (Exhausted st, w1) \<Rightarrow> (Inl (chain_failure st), w1))"

text \<open>The client of the offline mode.\<close>

definition OfflineFetch :: "uerr + resumingReader option \<times> UpstreamMeta" where
  "OfflineFetch = Inl ErrOffline"

definition MaybeOffline ::
  "bool \<Rightarrow> 'b fetch_env \<Rightarrow> ArtifactRef \<Rightarrow> Upstream list \<Rightarrow> RequestOption list \<Rightarrow> 'b fetch_world
   \<Rightarrow> (uerr + resumingReader option \<times> UpstreamMeta) \<times> 'b fetch_world" where
  "MaybeOffline offline env ref upstreams options w =
     (if offline then (OfflineFetch, w) else Fetch env ref upstreams options w)"

section \<open>What a failed fetch reports\<close>

definition first_definitive :: "attemptNote list \<Rightarrow> (string \<times> int) option" where
  "first_definitive attempts = (case List.find (\<lambda>(_, e). eStatus e \<noteq> None) attempts of None \<Rightarrow> None | Some (_, e) \<Rightarrow> eStatus e)"

lemma first_definitive_simps [simp]:
  "first_definitive [] = None"
  "first_definitive ((u, e) # xs) = (if eStatus e \<noteq> None then eStatus e else first_definitive xs)"
  by (simp_all add: first_definitive_def)

lemma first_definitive_append:
  "first_definitive (xs @ ys) = (if first_definitive xs \<noteq> None then first_definitive xs else first_definitive ys)"
  by (induction xs) (auto split: prod.splits)

text \<open>What the state of the loop says of the attempts it made.\<close>

definition chain_record :: "walk_state \<Rightarrow> bool" where
  "chain_record st \<longleftrightarrow>
     (case csStatusErr st of None \<Rightarrow> first_definitive (csAttempts st) = None
                           | Some e \<Rightarrow> eStatus e \<noteq> None \<and> first_definitive (csAttempts st) = eStatus e)
     \<and> (csTried st = 0 \<longleftrightarrow> csLastErr st = None)
     \<and> (csTried st = 0 \<longrightarrow> (\<forall>a \<in> set (csAttempts st). snd a = errCircuitOpen))
     \<and> (\<forall>e. csLastErr st = Some e \<longrightarrow> csStatusErr st = None \<longrightarrow> eStatus e = None)"

lemma errCircuitOpen_eStatus [simp]: "eStatus errCircuitOpen = None"
  by (simp add: errCircuitOpen_def plain_def)

lemma chain_record_start: "chain_record chain_start"
  by (simp add: chain_record_def chain_start_def)

lemma chain_record_skip: "chain_record st \<Longrightarrow> chain_record (skip_blocked n st)"
  by (auto simp: chain_record_def skip_blocked_def first_definitive_append split: option.splits)

lemma chain_record_note: "chain_record st \<Longrightarrow> chain_record (note_failed n e st)"
  by (cases "eStatus e")
    (auto simp: chain_record_def note_failed_def rememberStatusErr_def first_definitive_append Let_def
      split: option.splits)

lemma chain_walk_Exhausted:
  assumes "chain_walk env try_up ups st w = (Exhausted st', w')" and "chain_record st"
  shows "chain_record st' \<and> map fst (csAttempts st') = map fst (csAttempts st) @ map upName ups"
  using assms
proof (induction env try_up ups st w rule: chain_walk.induct)
  case (2 env try_up up rest st w)
  then show ?case
    by (auto simp: skip_blocked_def note_failed_def Let_def chain_record_skip [unfolded skip_blocked_def]
        chain_record_note [unfolded note_failed_def Let_def]
        split: prod.splits bool.splits sum.splits if_splits)
qed simp

lemma chain_walk_Aborted:
  assumes "chain_walk env try_up ups st w = (Aborted e, w')"
  shows "isContextError e \<and> feCtx env (fwTick w') \<noteq> None"
  using assms
  by (induction env try_up ups st w rule: chain_walk.induct)
    (auto simp: Let_def split: prod.splits bool.splits sum.splits if_splits)

lemma chain_failure_record:
  assumes "chain_record st" and "csTried st \<noteq> 0"
  shows "eStatus (chain_failure st) = first_definitive (csAttempts st)"
    and "\<exists>tail'. eMsg (chain_failure st) = ''upstream: all upstreams failed:'' @ summariseAttempts (csAttempts st) @ '' '' @ tail'"
  using assms
  by (auto simp: chain_failure_def chain_record_def resolveFetchError_def wrap_def StatusError_def split: option.splits)

text \<open>
  The outcome of a walk over the chain as the caller sees it when nothing was served: the context
  ended; or every mirror was skipped by its breaker; or every mirror of the chain is accounted for
  in order in the message, and the status of the error is the first definitive answer.
\<close>

definition reports_chain :: "string list \<Rightarrow> uerr \<Rightarrow> bool" where
  "reports_chain names e \<longleftrightarrow>
     e = plain ''upstream: all upstreams are blocked''
     \<or> (\<exists>attempts tail'. attempts \<noteq> [] \<and> map fst attempts = names \<and> eStatus e = first_definitive attempts
          \<and> eMsg e = ''upstream: all upstreams failed:'' @ summariseAttempts attempts @ '' '' @ tail')"

lemma chain_walk_reports:
  assumes "chain_walk env try_up ups chain_start w = (Exhausted st, w')"
  shows "reports_chain (map upName ups) (chain_failure st)"
proof (cases "csTried st = 0")
  case True
  then show ?thesis by (simp add: reports_chain_def chain_failure_def)
next
  case False
  have rec: "chain_record st" "map fst (csAttempts st) = map upName ups"
    using chain_walk_Exhausted [OF assms chain_record_start] by (auto simp: chain_start_def)
  with False have "csLastErr st \<noteq> None" by (simp add: chain_record_def)
  have "csAttempts st \<noteq> []" if "ups = []" using that assms False by (auto simp: chain_start_def)
  then have "csAttempts st \<noteq> []" using rec(2) by fastforce
  then show ?thesis
    unfolding reports_chain_def using chain_failure_record [OF rec(1) False] rec(2) by blast
qed

text \<open>A fetch that fails because no mirror served reports the whole chain: unless the caller's
  context ended or every mirror was skipped, the message names every mirror of the effective chain
  in the order it was considered, and the status the error carries (which decides between ``not
  found'' and ``bad gateway'') is that of the first mirror that gave a definitive answer, if one
  did, however many transport failures came before or after it.\<close>

theorem Fetch_error_precedence:
  assumes "Fetch env ref ups options w = (Inl e, w')"
  shows "(isContextError e \<and> feCtx env (fwTick w') \<noteq> None)
         \<or> reports_chain (map upName (effective (fwRuntime w) ups)) e"
  using assms chain_walk_reports chain_walk_Aborted
  by (auto simp: Fetch_def Let_def split: prod.splits walk_result.splits) blast+

section \<open>What a fetch serves and how often it asks\<close>

text \<open>
  The documented behaviour of the retry and breaker policies: the function is called at most once
  more than the retries allowed, between calls nothing changes but the breakers, and a success is
  the answer of a call.
\<close>

inductive calls :: "('b fetch_world \<Rightarrow> 'r \<times> 'b fetch_world) \<Rightarrow> nat \<Rightarrow> 'b fetch_world \<Rightarrow> 'b fetch_world \<Rightarrow> bool"
  for fn where
  calls_none: "calls fn 0 w w"
| calls_hub: "calls fn n w w' \<Longrightarrow> calls fn n w (with_hub h w')"
| calls_fn: "calls fn n w w' \<Longrightarrow> calls fn (Suc n) w (snd (fn w'))"

definition documented_failsafe :: "'b fetch_env \<Rightarrow> bool" where
  "documented_failsafe env \<longleftrightarrow>
     (\<forall>spec name fn w r w'. feGet env spec name fn w = (r, w') \<longrightarrow>
        (\<exists>n. int n \<le> max 0 (rtyMaxRetries spec) + 1 \<and> calls fn n w w')
        \<and> (\<forall>a. r = Inr a \<longrightarrow> (\<exists>w1. fst (fn w1) = Inr a)))"

text \<open>What was asked of the network: how often, and of whom.\<close>

definition asks :: "nat \<Rightarrow> string set \<Rightarrow> 'b fetch_world \<Rightarrow> 'b fetch_world \<Rightarrow> bool" where
  "asks n names w w' \<longleftrightarrow> (\<exists>l. fwLog w' = fwLog w @ l \<and> length l \<le> n \<and> set l \<subseteq> names)"

lemma asks_refl: "fwLog w' = fwLog w \<Longrightarrow> asks n names w w'"
  by (simp add: asks_def)

lemma asks_one: "fwLog w' = fwLog w @ [u] \<Longrightarrow> asks (Suc 0) {u} w w'"
  by (simp add: asks_def)

lemma asks_trans: "asks m A w w1 \<Longrightarrow> asks n A w1 w2 \<Longrightarrow> asks (m + n) A w w2"
  by (auto simp: asks_def)

lemma asks_mono: "asks m A w w' \<Longrightarrow> m \<le> n \<Longrightarrow> A \<subseteq> B \<Longrightarrow> asks n B w w'"
  by (auto simp: asks_def)

lemma asks_log [simp]:
  "fwLog (with_hub h w) = fwLog w" "fwLog (bump_streak n f w) = fwLog w" "fwLog (syncBlocked env n w) = fwLog w"
  "fwLog (after_failure env n e w) = fwLog w" "fwLog (after_success env n t w) = fwLog w"
  by (simp_all add: with_hub_def bump_streak_def syncBlocked_def isBlocked_def after_failure_def after_success_def
      Let_def split: prod.split)

lemma isBlocked_log: "isBlocked env w n = (b, w') \<Longrightarrow> fwLog w' = fwLog w"
  by (auto simp: isBlocked_def split: prod.splits)

lemma asks_weaken: "asks m A v w' \<Longrightarrow> fwLog v = fwLog w \<Longrightarrow> m \<le> n \<Longrightarrow> A \<subseteq> B \<Longrightarrow> asks n B w w'"
  by (auto simp: asks_def)

lemma asks_cong: "asks n A w w' \<Longrightarrow> fwLog v = fwLog w \<Longrightarrow> fwLog v' = fwLog w' \<Longrightarrow> asks n A v v'"
  by (simp add: asks_def)

lemma getOrFetchToken_log: "getOrFetchToken env w www up = (r, w') \<Longrightarrow> fwLog w' = fwLog w"
  by (auto simp: getOrFetchToken_def fetchBearerToken_def setCachedToken_def Let_def
      split: option.splits sum.splits if_splits)

lemma request_once_asks: "request_once env w fast ref up prev opts tok = (r, w') \<Longrightarrow> asks 1 {upName up} w w'"
  by (auto simp: request_once_def Let_def asks_def split: option.splits sum.splits if_splits)

lemma tryOnce_asks: "asks 2 {upName up} w (snd (tryOnce env fast ref up prev opts w))"
  by (auto simp: tryOnce_def Let_def asks_def dest!: request_once_asks getOrFetchToken_log
      split: prod.splits once.splits sum.splits)

lemma calls_asks:
  assumes "calls fn n w w'" and "\<And>v. asks k A v (snd (fn v))"
  shows "asks (k * n) A w w'"
  using assms
proof (induction)
  case (calls_fn n w w')
  then show ?case using asks_trans [of "k * n" A w w' k] by (simp add: add.commute)
qed (auto intro: asks_refl asks_cong)

text \<open>An attempt is the answer of the mirror to a request for the artifact.\<close>

definition answered ::
  "'b fetch_env \<Rightarrow> ArtifactRef \<Rightarrow> UpstreamMeta option \<Rightarrow> requestOpts \<Rightarrow> Upstream \<Rightarrow> fetchAttempt \<Rightarrow> bool" where
  "answered env ref prev opts up a \<longleftrightarrow>
     (\<exists>tick fast tok resp.
        feDo env tick fast up (build_request (buildURL up ref) prev opts tok) = Inr resp
        \<and> faMeta a = extractMeta resp (upName up)
        \<and> (if rsStatus resp = 304 then faBody a = None
           else 200 \<le> rsStatus resp \<and> rsStatus resp < 300 \<and> faBody a = Some (rsBody resp)))"

lemma request_once_answered:
  "request_once env w fast ref up prev opts tok = (OOk a, w') \<Longrightarrow> answered env ref prev opts up a"
  unfolding answered_def request_once_def
  by (force simp: Let_def split: option.splits sum.splits if_splits)

lemma tryOnce_answered: "fst (tryOnce env fast ref up prev opts w) = Inr a \<Longrightarrow> answered env ref prev opts up a"
  by (auto simp: tryOnce_def Let_def dest: request_once_answered split: prod.splits once.splits sum.splits)

lemma tryFetch_sound:
  assumes "documented_failsafe env" and "tryFetch env ref up prev opts budget rem' w = (r, w')"
  shows "asks (2 * nat (max 1 budget)) {upName up} w w'"
    and "r = Inr a \<Longrightarrow> answered env ref prev opts up a"
proof -
  define fn where "fn = tryOnce env (0 < rem') ref up prev opts"
  define spec where "spec = \<lparr>rtyMaxRetries = (if budget \<le> 0 then 1 else budget) - 1, rtyFailFastDial = (0 < rem')\<rparr>"
  define w0 where "w0 = with_hub (snd (breaker (feLib env) (fw_hub w) (upName up))) w"
  obtain q w1 where get: "feGet env spec (upName up) fn w0 = (q, w1)" by fastforce
  obtain n where n: "int n \<le> max 0 (rtyMaxRetries spec) + 1" "calls fn n w0 w1"
    using assms(1) get unfolding documented_failsafe_def by blast
  have ans: "\<exists>v. fst (fn v) = Inr b" if "q = Inr b" for b
    using assms(1) get that unfolding documented_failsafe_def by blast
  have out: "(r, w') = (case q of
        Inl e \<Rightarrow> (Inl (e, isTransientExecError e \<or> eOpen e \<or> eExceeded e),
                   if isTransientExecError e then bump_streak (upName up) (\<lambda>n. n + 1) w1 else w1)
      | Inr b \<Rightarrow> (Inr b, bump_streak (upName up) (\<lambda>_. 0) w1))"
    using assms(2) get by (simp add: tryFetch_def runFetchAttempt_def Let_def fn_def spec_def w0_def split: sum.splits)
  have "asks (2 * n) {upName up} w0 w1"
    by (rule calls_asks [OF n(2)]) (simp add: fn_def tryOnce_asks)
  then have "asks (2 * nat (max 1 budget)) {upName up} w0 w1"
    by (rule asks_mono) (use n(1) in \<open>auto simp: spec_def split: if_splits\<close>)
  then show "asks (2 * nat (max 1 budget)) {upName up} w w'"
    by (rule asks_cong) (use out in \<open>auto simp: w0_def split: sum.splits if_splits\<close>)
  show "answered env ref prev opts up a" if "r = Inr a"
    using that out ans tryOnce_answered by (fastforce simp: fn_def split: sum.splits)
qed

definition walk_bound :: "'b fetch_env \<Rightarrow> nat \<Rightarrow> Upstream list \<Rightarrow> nat" where
  "walk_bound env race ups = (if ups = [] then 0 else (4 + race) * (length ups - 1) + 2 * nat (max 1 (feMaxAttempts env)))"

text \<open>
  What the loop over the chain needs of the way a mirror is tried: with a budget it makes at most
  two requests per attempt, plus those of the race where there is one, all of them to mirrors of
  the chain, and what it brings is the answer of the mirror it names.
\<close>

locale mirror_try =
  fixes env :: "'b fetch_env"
    and try_up :: "Upstream \<Rightarrow> Upstream list \<Rightarrow> int \<Rightarrow> int \<Rightarrow> 'b fetch_world
                    \<Rightarrow> ((uerr \<times> bool + fetchAttempt) \<times> Upstream) \<times> 'b fetch_world"
    and race :: nat
    and brings :: "Upstream \<Rightarrow> fetchAttempt \<Rightarrow> bool"
  assumes try_asks: "documented_failsafe env \<Longrightarrow> try_up up rest (int (length rest)) budget w = ((r, winner), w') \<Longrightarrow>
            asks (2 * nat (max 1 budget) + (if rest = [] then 0 else race)) (upName ` set (up # rest)) w w'"
    and try_brings: "documented_failsafe env \<Longrightarrow> try_up up rest (int (length rest)) budget w = ((Inr a, winner), w') \<Longrightarrow>
            winner \<in> set (up # rest) \<and> brings winner a"
begin

lemma budget_for_cost:
  "2 * nat (max 1 (budget_for env st (int (length rest)) up)) + (if rest = [] then 0 else race) + walk_bound env race rest
     \<le> walk_bound env race (up # rest)"
  by (cases rest) (auto simp: walk_bound_def budget_for_def attemptBudget_def split: option.splits)

lemma walk_asks:
  assumes "documented_failsafe env" and "chain_walk env try_up ups st w = (res, w')"
  shows "asks (walk_bound env race ups) (upName ` set ups) w w'"
  using assms(2)
proof (induction ups arbitrary: st w)
  case Nil
  then show ?case by (simp add: asks_refl)
next
  case (Cons up rest)
  obtain b w1 where blk: "isBlocked env w (upName up) = (b, w1)" by fastforce
  note w1 = isBlocked_log [OF blk]
  have mono: "walk_bound env race rest \<le> walk_bound env race (up # rest)" using budget_for_cost by (meson add_leD2)
  show ?case
  proof (cases b)
    case True
    then have "asks (walk_bound env race rest) (upName ` set rest) (syncBlocked env (upName up) w1) w'"
      using Cons blk by simp
    then show ?thesis by (rule asks_weaken) (use w1 mono in auto)
  next
    case False
    let ?bud = "budget_for env st (int (length rest)) up"
    obtain r winner w2 where try': "try_up up rest (int (length rest)) ?bud w1 = ((r, winner), w2)"
      by (metis surj_pair)
    have here: "asks (2 * nat (max 1 ?bud) + (if rest = [] then 0 else race)) (upName ` set (up # rest)) w w2"
      using try_asks [OF assms(1) try'] w1 by (auto intro: asks_cong)
    have later: "asks (walk_bound env race rest) (upName ` set (up # rest)) w2 w'"
    proof (cases r)
      case (Inr a)
      then show ?thesis using Cons.prems blk False try' by (auto simp: Let_def intro: asks_refl)
    next
      case (Inl et)
      obtain e tr where et: "et = (e, tr)" by fastforce
      show ?thesis
      proof (cases "isContextError e \<and> feCtx env (fwTick w2) \<noteq> None")
        case True
        then show ?thesis using Cons.prems blk False try' Inl et by (simp add: asks_refl)
      next
        case ctx: False
        then have "chain_walk env try_up rest (note_failed (upName up) e st) (after_failure env (upName up) e w2) = (res, w')"
          using Cons.prems blk False try' Inl et by auto
        from Cons.IH [OF this] show ?thesis by (rule asks_weaken) auto
      qed
    qed
    show ?thesis using asks_trans [OF here later] budget_for_cost by (rule asks_mono) simp
  qed
qed

lemma walk_brings:
  assumes "documented_failsafe env" and "chain_walk env try_up ups st w = (Served (a, winner), w')"
  shows "winner \<in> set ups \<and> brings winner a"
  using assms(2)
proof (induction ups arbitrary: st w)
  case (Cons up rest)
  obtain b w1 where blk: "isBlocked env w (upName up) = (b, w1)" by fastforce
  obtain r v w2 where "try_up up rest (int (length rest)) (budget_for env st (int (length rest)) up) w1 = ((r, v), w2)"
    by (metis surj_pair)
  then show ?case
    using Cons blk try_brings [OF assms(1)] by (fastforce simp: Let_def split: bool.splits sum.splits prod.splits if_splits)
qed simp

end

lemma tryFetchHedged_sound:
  assumes "documented_failsafe env"
    and "tryFetchHedged env ref primary next opts budget rem' w = ((r, winner), w')"
  shows "asks (2 * nat (max 1 budget) + 2) {upName primary, upName next} w w'"
    and "r = Inr a \<Longrightarrow> winner \<in> {primary, next} \<and> answered env ref None opts winner a"
proof -
  let ?A = "{upName primary, upName next}"
  have p: "asks (2 * nat (max 1 budget)) ?A v v'" if "tryFetch env ref primary None opts budget rem' v = (q, v')" for q v v'
    using tryFetch_sound(1) [OF assms(1) that] by (rule asks_mono) auto
  have n: "asks 2 ?A v v'" if "tryFetch env ref next None opts 1 1 v = (q, v')" for q v v'
    using tryFetch_sound(1) [OF assms(1) that] by (rule asks_mono) auto
  obtain rp wp where P: "tryFetch env ref primary None opts budget rem' w = (rp, wp)" by fastforce
  obtain rn wn where N: "tryFetch env ref next None opts 1 1 w = (rn, wn)" by fastforce
  obtain rpn wpn where PN: "tryFetch env ref next None opts 1 1 wp = (rpn, wpn)" by fastforce
  obtain rnp wnp where NP: "tryFetch env ref primary None opts budget rem' wn = (rnp, wnp)" by fastforce
  have "w' \<in> {w, wp, wn, wpn, wnp}"
    using assms(2) P N PN NP
    by (auto simp: tryFetchHedged_def Let_def split: hedge_sched.splits prod.splits sum.splits)
  moreover have "asks (2 * nat (max 1 budget) + 2) ?A w wpn" using p [OF P] n [OF PN] by (rule asks_trans)
  moreover have "asks (2 * nat (max 1 budget) + 2) ?A w wnp"
    using asks_trans [OF n [OF N] p [OF NP]] by (simp add: add.commute)
  moreover have "asks (2 * nat (max 1 budget) + 2) ?A w wp" using p [OF P] by (rule asks_mono) auto
  moreover have "asks (2 * nat (max 1 budget) + 2) ?A w wn" using n [OF N] by (rule asks_mono) auto
  ultimately show "asks (2 * nat (max 1 budget) + 2) ?A w w'" by (auto intro: asks_refl)
  show "winner \<in> {primary, next} \<and> answered env ref None opts winner a" if "r = Inr a"
    using assms(2) that tryFetch_sound(2) [OF assms(1)]
    by (auto simp: tryFetchHedged_def Let_def split: hedge_sched.splits prod.splits sum.splits if_splits)
qed

lemma hedgeEligible_log: "hedgeEligible env ref rem' rest w = (b, w') \<Longrightarrow> fwLog w' = fwLog w"
  by (auto simp: hedgeEligible_def dest: isBlocked_log split: list.splits prod.splits if_splits)

lemma hedgeEligible_only:
  "hedgeEligible env ref rem' rest w = (b, w') \<Longrightarrow> b \<Longrightarrow> rMutable ref \<and> rest \<noteq> []"
  by (auto simp: hedgeEligible_def split: list.splits if_splits)

interpretation fetching: mirror_try env "fetch_try env ref opts" "if rMutable ref then 2 else 0" "answered env ref None opts"
  for env ref opts
proof (unfold_locales, goal_cases)
  case (1 up rest budget w r winner w')
  obtain b w1 where h: "hedgeEligible env ref (int (length rest)) rest w = (b, w1)" by fastforce
  note w1 = hedgeEligible_log [OF h]
  show ?case
  proof (cases b)
    case True
    have m: "rMutable ref \<and> rest \<noteq> []" using hedgeEligible_only [OF h True] .
    have "tryFetchHedged env ref up (hd rest) opts budget (int (length rest)) w1 = ((r, winner), w')"
      using 1 h True by (simp add: fetch_try_def)
    from tryFetchHedged_sound(1) [OF 1(1) this] show ?thesis by (rule asks_weaken) (use m w1 in auto)
  next
    case False
    then have "asks (2 * nat (max 1 budget)) {upName up} w1 w'"
      using 1 h by (auto simp: fetch_try_def split: prod.splits intro: tryFetch_sound(1))
    then show ?thesis by (rule asks_weaken) (use w1 in auto)
  qed
next
  case (2 up rest budget w a winner w')
  obtain b w1 where h: "hedgeEligible env ref (int (length rest)) rest w = (b, w1)" by fastforce
  show ?case
  proof (cases b)
    case True
    have "rest \<noteq> []" using hedgeEligible_only [OF h True] by simp
    moreover have "winner \<in> {up, hd rest} \<and> answered env ref None opts winner a"
      using 2 h True tryFetchHedged_sound(2) [OF 2(1)] by (fastforce simp: fetch_try_def)
    ultimately show ?thesis by auto
  next
    case False
    then show ?thesis using 2 h tryFetch_sound(2) by (fastforce simp: fetch_try_def split: prod.splits)
  qed
qed

interpretation revalidating: mirror_try env "revalidate_try env ref prev opts" 0 "answered env ref (Some prev) opts"
  for env ref prev opts
proof (unfold_locales, goal_cases)
  case (1 up rest budget w r winner w')
  then have "asks (2 * nat (max 1 budget)) {upName up} w w'"
    by (auto simp: revalidate_try_def split: prod.splits intro: tryFetch_sound(1))
  then show ?case by (rule asks_mono) auto
next
  case (2 up rest budget w a winner w')
  then show ?case using tryFetch_sound(2) by (fastforce simp: revalidate_try_def split: prod.splits)
qed

lemma Fetch_serves:
  assumes "documented_failsafe env" and "Fetch env ref ups options w = (Inr (rd, meta), w')"
  shows "\<exists>up a. up \<in> set (effective (fwRuntime w) ups) \<and> \<not> disabled (fwRuntime w) (upName up)
           \<and> answered env ref None (buildRequestOpts options) up a \<and> meta = faMeta a
           \<and> rd = map_option (wrapResuming env ref up (effective (fwRuntime w) ups) (buildRequestOpts options)) (faBody a)
           \<and> uUpstream meta = upName up
           \<and> (uStatusCode meta = 304 \<and> rd = None \<or> 200 \<le> uStatusCode meta \<and> uStatusCode meta < 300 \<and> rd \<noteq> None)"
proof -
  obtain a up where walk:
      "chain_walk env (fetch_try env ref (buildRequestOpts options)) (effective (fwRuntime w) ups) chain_start w
         = (Served (a, up), w')"
    and out: "rd = map_option (wrapResuming env ref up (effective (fwRuntime w) ups) (buildRequestOpts options)) (faBody a)"
      "meta = faMeta a"
    using assms(2) by (auto simp: Fetch_def Let_def split: prod.splits walk_result.splits)
  have b: "up \<in> set (effective (fwRuntime w) ups)" "answered env ref None (buildRequestOpts options) up a"
    using fetching.walk_brings [OF assms(1) walk] by auto
  moreover have "\<not> disabled (fwRuntime w) (upName up)" using b(1) by (auto simp: effective_chain_set)
  moreover have "uUpstream meta = upName up"
    "uStatusCode meta = 304 \<and> rd = None \<or> 200 \<le> uStatusCode meta \<and> uStatusCode meta < 300 \<and> rd \<noteq> None"
    using b(2) out by (auto simp: answered_def extractMeta_def split: if_splits)
  ultimately show ?thesis using out by blast
qed

text \<open>What a fetch returns is what a mirror answered. With the documented retry policy, a
  fetch that succeeds names a mirror of the effective chain, configured and not disabled, and
  returns the headers and the body that this mirror gave to a request for the URL of the artifact;
  the answer had status 304 (and there is no body) or a 2xx status. An error page is never served.\<close>

theorem Fetch_serves_answer:
  assumes "documented_failsafe env" and "Fetch env ref ups options w = (Inr (rd, meta), w')"
  shows "\<exists>up a. up \<in> set (effective (fwRuntime w) ups) \<and> \<not> disabled (fwRuntime w) (upName up)
           \<and> answered env ref None (buildRequestOpts options) up a \<and> meta = faMeta a
           \<and> rd = map_option (wrapResuming env ref up (effective (fwRuntime w) ups) (buildRequestOpts options)) (faBody a)
           \<and> uUpstream meta = upName up
           \<and> (uStatusCode meta = 304 \<and> rd = None \<or> 200 \<le> uStatusCode meta \<and> uStatusCode meta < 300 \<and> rd \<noteq> None)"
  using assms by (rule Fetch_serves)


text \<open>The same bound and the same origin hold for a revalidation, which is never hedged; a
  mirror that answers 304 is reported as such without a body.\<close>

theorem Revalidate_sound:
  assumes "documented_failsafe env" and "Revalidate env ref prev ups options w = (r, w')"
  shows "asks (let n = length (effective (fwRuntime w) ups) in
               if n = 0 then 0 else 4 * (n - 1) + 2 * nat (max 1 (feMaxAttempts env)))
           (upName ` set (effective (fwRuntime w) ups)) w w'
         \<and> (case r of Inl e \<Rightarrow> True
            | Inr (rd, meta, notModified) \<Rightarrow>
                (notModified \<longleftrightarrow> uStatusCode meta = 304) \<and> (notModified \<longleftrightarrow> rd = None)
                \<and> (\<exists>up a. up \<in> set (effective (fwRuntime w) ups) \<and> meta = faMeta a
                      \<and> answered env ref (Some prev) (buildRequestOpts options) up a))"
proof (rule conjI)
  obtain res where walk:
    "chain_walk env (revalidate_try env ref prev (buildRequestOpts options)) (effective (fwRuntime w) ups) chain_start w
       = (res, w')"
    using assms(2) by (auto simp: Revalidate_def Let_def split: prod.splits walk_result.splits if_splits)
  from revalidating.walk_asks [OF assms(1) this] show
    "asks (let n = length (effective (fwRuntime w) ups) in
               if n = 0 then 0 else 4 * (n - 1) + 2 * nat (max 1 (feMaxAttempts env)))
           (upName ` set (effective (fwRuntime w) ups)) w w'"
    by (auto simp: walk_bound_def Let_def split: if_splits)
  show "case r of Inl e \<Rightarrow> True
            | Inr (rd, meta, notModified) \<Rightarrow>
                (notModified \<longleftrightarrow> uStatusCode meta = 304) \<and> (notModified \<longleftrightarrow> rd = None)
                \<and> (\<exists>up a. up \<in> set (effective (fwRuntime w) ups) \<and> meta = faMeta a
                      \<and> answered env ref (Some prev) (buildRequestOpts options) up a)"
  proof (cases res)
    case (Served s)
    obtain a up where s: "s = (a, up)" by fastforce
    have b: "up \<in> set (effective (fwRuntime w) ups)" "answered env ref (Some prev) (buildRequestOpts options) up a"
      using revalidating.walk_brings [OF assms(1)] walk Served s by blast+
    then have "uStatusCode (faMeta a) = 304 \<longleftrightarrow> faBody a = None"
      by (auto simp: answered_def extractMeta_def split: if_splits)
    with b assms(2) walk Served s show ?thesis
      by (fastforce simp: Revalidate_def Let_def split: if_splits)
  qed (use assms(2) walk in \<open>auto simp: Revalidate_def Let_def\<close>)
qed

section \<open>A small network\<close>

text \<open>
  A retry policy that calls the function again after a transient error, and mirrors that refuse the
  connection, do not have the artifact, or have it.
\<close>

primrec retry_loop :: "nat \<Rightarrow> bool \<Rightarrow> ('b fetch_world \<Rightarrow> (uerr + fetchAttempt) \<times> 'b fetch_world)
    \<Rightarrow> 'b fetch_world \<Rightarrow> (uerr + fetchAttempt) \<times> 'b fetch_world" where
  "retry_loop 0 failFast fn w = fn w"
| "retry_loop (Suc n) failFast fn w =
     (case fn w of
        (Inl e, w1) \<Rightarrow>
          if isTransientExecError e \<and> \<not> (failFast \<and> isDialClassError e) then retry_loop n failFast fn w1 else (Inl e, w1)
      | (Inr a, w1) \<Rightarrow> (Inr a, w1))"

lemma calls_trans: "calls fn m w w1 \<Longrightarrow> calls fn n w1 w2 \<Longrightarrow> calls fn (m + n) w w2"
  by (rotate_tac, induction rule: calls.induct) (auto intro: calls.intros)

lemma calls_one: "calls fn (Suc 0) w (snd (fn w))"
  by (intro calls_fn calls_none)

lemma retry_loop_calls:
  "retry_loop n ff fn w = (r, w') \<Longrightarrow>
     (\<exists>k\<le>Suc n. calls fn k w w') \<and> (\<forall>a. r = Inr a \<longrightarrow> (\<exists>v. fst (fn v) = Inr a))"
proof (induction n arbitrary: w)
  case 0
  then show ?case using calls_one [of fn w] by (auto intro!: exI [of _ "Suc 0"]) (metis fst_conv)
next
  case (Suc n)
  obtain q w1 where q: "fn w = (q, w1)" by fastforce
  have one: "calls fn (Suc 0) w w1" using calls_one [of fn w] q by simp
  show ?case
  proof (cases "\<exists>e. q = Inl e \<and> isTransientExecError e \<and> \<not> (ff \<and> isDialClassError e)")
    case True
    then have "retry_loop n ff fn w1 = (r, w')" using Suc.prems q by auto
    from Suc.IH [OF this] show ?thesis using calls_trans [OF one] by fastforce
  next
    case False
    then have "r = q \<and> w' = w1" using Suc.prems q by (auto split: sum.splits)
    then show ?thesis using one q by (metis fst_conv le_SucI le_numeral_extra(4) One_nat_def Suc_le_mono le0)
  qed
qed

definition demo_response :: "int \<Rightarrow> response" where
  "demo_response code =
     \<lparr>rsStatus = code, rsETag = ''v1'', rsLastModified = [], rsContentType = [], rsWWWAuth = [], rsLatency = 7,
      rsBody = [(''layer'', Some BodyEOF)]\<rparr>"

definition demo_env :: "simple_cb fetch_env" where
  "demo_env =
     \<lparr>feLib = simple_lib,
      feGet = (\<lambda>spec _. retry_loop (nat (rtyMaxRetries spec)) (rtyFailFastDial spec)),
      feNewRequest = (\<lambda>_. None),
      feDo = (\<lambda>_ _ up _. if upName up = ''down'' then Inl (plain ''connection refused'')
                         else if upName up = ''empty'' then Inr (demo_response 404) else Inr (demo_response 200)),
      feToken = (\<lambda>_ _ _ _. Inl (plain ''no token'')), feCtx = (\<lambda>_. None), feSched = (\<lambda>_. PrimaryFirst),
      feMaxAttempts = 3, feMaxResumes = 0\<rparr>"

lemma demo_failsafe: "documented_failsafe demo_env"
  unfolding documented_failsafe_def
proof (intro allI impI)
  fix spec name fn r and w w' :: "simple_cb fetch_world"
  assume "feGet demo_env spec name fn w = (r, w')"
  then have "retry_loop (nat (rtyMaxRetries spec)) (rtyFailFastDial spec) fn w = (r, w')" by (simp add: demo_env_def)
  from retry_loop_calls [OF this] obtain k where k: "k \<le> Suc (nat (rtyMaxRetries spec))" "calls fn k w w'"
    and ok: "\<forall>a. r = Inr a \<longrightarrow> (\<exists>v. fst (fn v) = Inr a)" by blast
  have "int k \<le> max 0 (rtyMaxRetries spec) + 1" using k(1) by linarith
  with k(2) ok show "(\<exists>n. int n \<le> max 0 (rtyMaxRetries spec) + 1 \<and> calls fn n w w') \<and> (\<forall>a. r = Inr a \<longrightarrow> (\<exists>w1. fst (fn w1) = Inr a))"
    by blast
qed

definition demo_world :: "simple_cb fetch_world" where
  "demo_world =
     \<lparr>fwRuntime = NewRuntime ''oci'' (newBreakerHubWithPersister None 5 0 (1000 * Second) no_faults),
      fwTokens = Map.empty, fwTick = 0, fwLog = []\<rparr>"

definition demo_ref :: ArtifactRef where
  "demo_ref = \<lparr>rProtocol = ''oci'', rName = ''lib/a'', rVersion = [], rDigest = ''sha256:00'', rUpstream = [], rMutable = False\<rparr>"

definition demo_chain :: "Upstream list" where
  "demo_chain = [mirror ''empty'' 0, mirror ''docker'' 1]"

text \<open>A client that keeps its breakers in memory, with none of them open, and holds no tokens.\<close>

definition calm :: "simple_cb fetch_world \<Rightarrow> bool" where
  "calm w \<longleftrightarrow> hPersister (fw_hub w) = None \<and> fwTokens w = Map.empty
     \<and> (\<forall>n b. hBreakers (fw_hub w) n = Some b \<longrightarrow> scState b = ClosedState)"

lemma calm_demo_world: "calm demo_world"
  by (simp add: calm_def demo_world_def NewRuntime_def newBreakerHubWithPersister_def)

lemma calm_breaker:
  "calm w \<Longrightarrow> \<exists>b h. breaker simple_lib (fw_hub w) n = (b, h) \<and> calm (with_hub h w) \<and> scState b = ClosedState
     \<and> hPersister h = None"
  by (auto simp: calm_def breaker_def hydrate_def get_breaker_def simple_lib_def with_hub_def Let_def split: option.splits)

lemma calm_isBlocked: "calm w \<Longrightarrow> \<exists>w1. isBlocked demo_env w n = (False, w1) \<and> calm w1 \<and> fwTick w1 = fwTick w"
  using calm_breaker [of w n]
  by (auto simp: isBlocked_def hub_isOpen_def local_isOpen_def demo_env_def with_hub_def) (auto simp: simple_lib_def)

lemma calm_bump: "calm w \<Longrightarrow> calm (bump_streak n f w)"
  by (simp add: calm_def bump_streak_def with_hub_def)

lemma demo_StatusError: "\<not> isTransientExecError (StatusError u c)" "\<not> isDialClassError (StatusError ''empty'' 404)"
  "\<not> isContextError (StatusError u c)" "\<not> eOpen (StatusError u c)" "\<not> eExceeded (StatusError u c)"
  subgoal by (simp add: isTransientExecError_def StatusError_def plain_def isContextError_def)
  subgoal by code_simp
  by (simp_all add: StatusError_def plain_def isContextError_def)

lemma retry_loop_settled:
  "fn w = (r, w') \<Longrightarrow> (\<And>e. r = Inl e \<Longrightarrow> \<not> isTransientExecError e) \<Longrightarrow> retry_loop n ff fn w = (r, w')"
  by (cases n) (auto split: sum.splits)

definition demo_answer :: "string \<Rightarrow> uerr + fetchAttempt" where
  "demo_answer name =
     (if name = ''empty'' then Inl (StatusError name 404)
      else Inr \<lparr>faBody = Some (rsBody (demo_response 200)), faMeta = extractMeta (demo_response 200) name, faLatency = 7\<rparr>)"

lemma demo_tryOnce:
  assumes "calm w" and "n \<noteq> ''down''"
  shows "\<exists>w'. tryOnce demo_env fast ref (mirror n p) prev opts w = (demo_answer n, w') \<and> calm w'"
  using assms
  by (auto simp: tryOnce_def request_once_def demo_env_def mirror_def demo_answer_def demo_response_def getCachedToken_def
      extractMeta_def calm_def Let_def)

lemma demo_tryFetch:
  assumes "calm w" and "n \<noteq> ''down''"
  shows "\<exists>w'. tryFetch demo_env ref (mirror n p) prev opts k r w = (map_sum (\<lambda>e. (e, False)) id (demo_answer n), w') \<and> calm w'"
proof -
  obtain b h where b: "breaker simple_lib (fw_hub w) n = (b, h)" "calm (with_hub h w)" using calm_breaker [OF assms(1)] by blast
  obtain w1 where w1: "tryOnce demo_env (0 < r) ref (mirror n p) prev opts (with_hub h w) = (demo_answer n, w1)" "calm w1"
    using demo_tryOnce [OF b(2) assms(2)] by blast
  have "retry_loop m ff (tryOnce demo_env (0 < r) ref (mirror n p) prev opts) (with_hub h w) = (demo_answer n, w1)" for m ff
    using w1(1) by (rule retry_loop_settled) (auto simp: demo_answer_def demo_StatusError split: if_splits)
  then have "feGet demo_env spec nm (tryOnce demo_env (0 < r) ref (mirror n p) prev opts) (with_hub h w) = (demo_answer n, w1)"
    for spec nm by (simp add: demo_env_def)
  then show ?thesis
    using b(1) w1(2)
    by (auto simp: tryFetch_def runFetchAttempt_def mirror_def Let_def demo_answer_def demo_StatusError calm_bump
        demo_env_def [THEN arg_cong [of _ _ feLib], simplified])
qed

lemma demo_fetch_try:
  assumes "calm w" and "n \<noteq> ''down''"
  shows "\<exists>w'. fetch_try demo_env demo_ref opts (mirror n p) rest r k w
           = ((map_sum (\<lambda>e. (e, False)) id (demo_answer n), mirror n p), w') \<and> calm w'"
  using demo_tryFetch [OF assms, of demo_ref p None opts k r]
  by (auto simp: fetch_try_def hedgeEligible_def demo_ref_def)

lemma demo_revalidate_try:
  assumes "calm w" and "n \<noteq> ''down''"
  shows "\<exists>w'. revalidate_try demo_env demo_ref prev opts (mirror n p) rest r k w
           = ((map_sum (\<lambda>e. (e, False)) id (demo_answer n), mirror n p), w') \<and> calm w'"
  using demo_tryFetch [OF assms, of demo_ref p "Some prev" opts k r] by (auto simp: revalidate_try_def)

lemma calm_after_failure: "calm w \<Longrightarrow> calm (after_failure demo_env n (StatusError ''empty'' 404) w)"
  using calm_isBlocked [of "w\<lparr>fwRuntime := setLastErr (fwRuntime w) n (Some (StatusError ''empty'' 404))\<rparr>" n]
  by (auto simp: after_failure_def demo_StatusError syncBlocked_def setLastErr_def calm_def Let_def)

lemma demo_walk:
  assumes try': "\<And>n p rest r k w. calm w \<Longrightarrow> n \<noteq> ''down'' \<Longrightarrow>
     \<exists>w'. try_up (mirror n p) rest r k w = ((map_sum (\<lambda>e. (e, False)) id (demo_answer n), mirror n p), w') \<and> calm w'"
    and "calm w"
  shows "\<exists>a w'. chain_walk demo_env try_up [mirror ''empty'' 0, mirror ''docker'' 1] st w = (Served (a, mirror ''docker'' 1), w')
           \<and> Inr a = demo_answer ''docker''"
    and "\<exists>w'. chain_walk demo_env try_up [mirror ''empty'' 0] st w
           = (Exhausted (note_failed ''empty'' (StatusError ''empty'' 404) st), w')"
proof -
  obtain w1 where w1: "isBlocked demo_env w ''empty'' = (False, w1)" "calm w1" using calm_isBlocked [OF assms(2)] by blast
  have gone: "chain_walk demo_env try_up (mirror ''empty'' 0 # rest) st w =
      chain_walk demo_env try_up rest (note_failed ''empty'' (StatusError ''empty'' 404) st) (after_failure demo_env ''empty'' (StatusError ''empty'' 404) w2)"
    if "try_up (mirror ''empty'' 0) rest (int (length rest)) (budget_for demo_env st (int (length rest)) (mirror ''empty'' 0)) w1
        = ((map_sum (\<lambda>e. (e, False)) id (demo_answer ''empty''), mirror ''empty'' 0), w2)" for rest w2
    using w1(1) that by (simp add: demo_answer_def demo_StatusError mirror_def)
  show "\<exists>w'. chain_walk demo_env try_up [mirror ''empty'' 0] st w
           = (Exhausted (note_failed ''empty'' (StatusError ''empty'' 404) st), w')"
    using try' [OF w1(2), of "''empty''" 0 "[]" 0 "budget_for demo_env st 0 (mirror ''empty'' 0)"] gone [of "[]"] by auto
  let ?rest = "[mirror ''docker'' 1]" and ?st = "note_failed ''empty'' (StatusError ''empty'' 404) st"
  obtain w2 where w2: "try_up (mirror ''empty'' 0) ?rest 1 (budget_for demo_env st 1 (mirror ''empty'' 0)) w1
        = ((map_sum (\<lambda>e. (e, False)) id (demo_answer ''empty''), mirror ''empty'' 0), w2)" "calm w2"
    using try' [OF w1(2), of "''empty''"] by blast
  obtain w3 where w3: "isBlocked demo_env (after_failure demo_env ''empty'' (StatusError ''empty'' 404) w2) ''docker'' = (False, w3)" "calm w3"
    using calm_isBlocked [OF calm_after_failure [OF w2(2)]] by blast
  obtain w4 where "try_up (mirror ''docker'' 1) [] 0 (budget_for demo_env ?st 0 (mirror ''docker'' 1)) w3
        = ((map_sum (\<lambda>e. (e, False)) id (demo_answer ''docker''), mirror ''docker'' 1), w4)"
    using try' [OF w3(2), of "''docker''"] by blast
  then show "\<exists>a w'. chain_walk demo_env try_up [mirror ''empty'' 0, mirror ''docker'' 1] st w = (Served (a, mirror ''docker'' 1), w')
           \<and> Inr a = demo_answer ''docker''"
    using gone [of ?rest w2] w2(1) w3(1) by (auto simp: demo_answer_def mirror_def)
qed

lemma demo_effective:
  "effective (fwRuntime demo_world) demo_chain = demo_chain"
  "effective (fwRuntime demo_world) (take (Suc 0) demo_chain) = take (Suc 0) demo_chain"
  by (simp_all add: demo_chain_def demo_world_def NewRuntime_def mirror_def effective_def sortedUpstreams_def)

lemma demo_fetch_walk:
  "\<exists>a w'. chain_walk demo_env (fetch_try demo_env demo_ref opts) demo_chain st demo_world = (Served (a, mirror ''docker'' 1), w')
       \<and> Inr a = demo_answer ''docker''"
  "\<exists>w'. chain_walk demo_env (fetch_try demo_env demo_ref opts) (take (Suc 0) demo_chain) st demo_world
       = (Exhausted (note_failed ''empty'' (StatusError ''empty'' 404) st), w')"
  using demo_walk [of "fetch_try demo_env demo_ref opts", OF _ calm_demo_world] demo_fetch_try
  by (simp_all add: demo_chain_def)

lemma demo_revalidate_walk:
  "\<exists>a w'. chain_walk demo_env (revalidate_try demo_env demo_ref prev opts) demo_chain st demo_world
       = (Served (a, mirror ''docker'' 1), w') \<and> Inr a = demo_answer ''docker''"
  using demo_walk(1) [of "revalidate_try demo_env demo_ref prev opts", OF _ calm_demo_world] demo_revalidate_try
  by (simp add: demo_chain_def)

theorem Fetch_serves_answer_witness:
  "\<exists>rd meta w'. Fetch demo_env demo_ref demo_chain [] demo_world = (Inr (rd, meta), w')
     \<and> (\<exists>up \<in> set demo_chain. uUpstream meta = upName up) \<and> rd \<noteq> None"
proof -
  obtain rd meta w' where run: "Fetch demo_env demo_ref demo_chain [] demo_world = (Inr (rd, meta), w')"
    and meta: "uStatusCode meta = 200"
    using demo_fetch_walk(1) [of "buildRequestOpts []" chain_start]
    by (auto simp: Fetch_def demo_effective Let_def demo_answer_def extractMeta_def demo_response_def)
  from Fetch_serves_answer [OF demo_failsafe run] run meta show ?thesis by (auto simp: demo_effective)
qed


theorem Fetch_error_precedence_witness:
  "\<exists>e w'. Fetch demo_env demo_ref (take (Suc 0) demo_chain) [] demo_world = (Inl e, w') \<and> reports_chain [''empty''] e"
proof -
  obtain e w' where run: "Fetch demo_env demo_ref (take (Suc 0) demo_chain) [] demo_world = (Inl e, w')"
    using demo_fetch_walk(2) [of "buildRequestOpts []" chain_start]
    by (auto simp: Fetch_def demo_effective Let_def)
  have "map upName (take (Suc 0) demo_chain) = [''empty'']" by (simp add: demo_chain_def mirror_def)
  with Fetch_error_precedence [OF run] run show ?thesis by (auto simp: demo_env_def demo_effective)
qed

theorem Revalidate_sound_witness:
  "\<exists>rd meta. fst (Revalidate demo_env demo_ref (extractMeta (demo_response 200) ''docker'') demo_chain [] demo_world)
      = Inr (rd, meta, False) \<and> rd \<noteq> None \<and> uStatusCode meta \<noteq> 304"
proof -
  let ?prev = "extractMeta (demo_response 200) ''docker''"
  obtain rd meta w' where run: "Revalidate demo_env demo_ref ?prev demo_chain [] demo_world = (Inr (rd, meta, False), w')"
    using demo_revalidate_walk [of ?prev "buildRequestOpts []" chain_start]
    by (auto simp: Revalidate_def demo_effective Let_def demo_answer_def extractMeta_def demo_response_def)
  from Revalidate_sound [OF demo_failsafe run] run show ?thesis by auto
qed

end
