(* ===== verification/Resume.thy ===== *)
theory Resume
  imports Fetch "HOL-Library.Sublist"
begin

text \<open>
  The body a fetch hands out (\<^verbatim>\<open>internal/upstream/resume.go\<close>): a reader that resumes a broken
  transfer with a range request, first on its own mirror and then on the others of the chain. A
  read that blocks too long is a read of the script that fails with the idle error. Reading takes
  a tick of the clock the caller's context is looked up at.
\<close>

section \<open>The reader\<close>

datatype read_fail = RdEOF | RdRestart | RdClosed | RdErr uerr | RdPanic

definition ErrClosed :: uerr where
  "ErrClosed = plain ''use of closed network connection''"

definition resumable_fragments :: "string list" where
  "resumable_fragments =
     [''connection reset'', ''broken pipe'', ''use of closed network connection'', ''unexpected eof'', ''i/o timeout'',
      ''idle body timeout'']"

definition isResumableReadError :: "uerr \<Rightarrow> bool \<Rightarrow> bool" where
  "isResumableReadError e network \<longleftrightarrow>
     network \<or> eDeadline e \<or> list_ex (Contains (ToLower (eMsg e))) resumable_fragments"

text \<open>The pinned mirror first, then every other name of the chain once.\<close>

fun other_mirrors :: "string set \<Rightarrow> Upstream list \<Rightarrow> Upstream list" where
  "other_mirrors seen [] = []"
| "other_mirrors seen (up # ups) =
     (if upName up \<in> seen then other_mirrors seen ups else up # other_mirrors (insert (upName up) seen) ups)"

definition resumeCandidates :: "resumingReader \<Rightarrow> Upstream list" where
  "resumeCandidates r = rrUp r # other_mirrors {upName (rrUp r)} (rrChain r)"

definition resume_opts :: "requestOpts \<Rightarrow> int \<Rightarrow> requestOpts" where
  "resume_opts opts from' =
     (if 0 < from' then opts\<lparr>roRangeStart := from', roHasRange := True\<rparr>
      else opts\<lparr>roHasRange := False, roRangeStart := 0\<rparr>)"

definition fetchFrom ::
  "'b fetch_env \<Rightarrow> resumingReader \<Rightarrow> Upstream \<Rightarrow> int \<Rightarrow> int \<Rightarrow> 'b fetch_world \<Rightarrow> (uerr + fetchAttempt) \<times> 'b fetch_world" where
  "fetchFrom env r up from' remainingAfter w =
     (let budget = attemptBudget env None remainingAfter up (remainingAfter = 0 \<and> 1 < length (rrChain r)) in
      case tryFetch env (rrRef r) up None (resume_opts (rrOpts r) from') budget remainingAfter w of
        (Inl (e, _), w1) \<Rightarrow> (Inl (wrap (''upstream '' @ upName up @ '': resume at offset '' @ itoa from' @ '': '') e), w1)
      | (Inr a, w1) \<Rightarrow> (Inr a, w1))"

text \<open>
  The loop over the candidates. An answer that is neither usable nor an error is closed and passed
  over; closing the body of an answer that has none (status 304) is a nil dereference.
\<close>

datatype resumed = Resumed resumingReader | NotResumed uerr | ResumePanic

definition unexpected_status :: "Upstream \<Rightarrow> int \<Rightarrow> int \<Rightarrow> uerr" where
  "unexpected_status up code from' =
     plain (''upstream '' @ upName up @ '': resume unexpected status '' @ itoa code @ '' at offset '' @ itoa from')"

fun resume_loop ::
  "'b fetch_env \<Rightarrow> resumingReader \<Rightarrow> int \<Rightarrow> Upstream list \<Rightarrow> uerr option \<Rightarrow> 'b fetch_world \<Rightarrow> resumed \<times> 'b fetch_world" where
  "resume_loop env r from' [] lastErr w =
     (NotResumed
        (case lastErr of
           Some e \<Rightarrow> e
         | None \<Rightarrow> plain (''upstream: resume at offset '' @ itoa from' @ '': no healthy upstream'')), w)"
| "resume_loop env r from' (up # rest) lastErr w =
     (case isBlocked env w (upName up) of
        (True, w1) \<Rightarrow> resume_loop env r from' rest lastErr w1
      | (False, w1) \<Rightarrow>
          (case fetchFrom env r up from' (int (length rest)) w1 of
             (Inl e, w2) \<Rightarrow> resume_loop env r from' rest (Some e) w2
           | (Inr a, w2) \<Rightarrow>
               let code = uStatusCode (faMeta a) in
               if code = 206 \<and> 0 < from' then (Resumed (r\<lparr>rrUp := up, rrBody := faBody a\<rparr>), w2)
               else if code = 200 \<and> 0 < from' then
                 (Resumed (r\<lparr>rrUp := up, rrBody := faBody a, rrAnnounceRestart := True\<rparr>), w2)
               else if 200 \<le> code \<and> code < 300 \<and> from' = 0 then (Resumed (r\<lparr>rrUp := up, rrBody := faBody a\<rparr>), w2)
               else if faBody a = None then (ResumePanic, w2)
               else
resume_loop env r from' rest (Some (unexpected_status up code from')) w2))"

text \<open>Returns the reader as well: the counter, and the body that was given up, change on every path.\<close>

definition resume :: "'b fetch_env \<Rightarrow> resumingReader \<Rightarrow> 'b fetch_world \<Rightarrow> (resumed \<times> resumingReader) \<times> 'b fetch_world" where
  "resume env r w =
     (if rrMaxResumes r \<le> rrResumes r then
        ((NotResumed (plain (''upstream '' @ upName (rrUp r) @ '': exceeded '' @ itoa (rrMaxResumes r) @
            '' resume attempts at offset '' @ itoa (rrOffset r))), r), w)
      else
        case feCtx env (fwTick w) of
          Some e \<Rightarrow> ((NotResumed e, r), w)
        | None \<Rightarrow>
            (let r1 = r\<lparr>rrResumes := rrResumes r + 1, rrBody := None\<rparr> in
             case resume_loop env r1 (rrOffset r1) (resumeCandidates r1) None w of
               (Resumed r2, w1) \<Rightarrow> ((Resumed r2, r2), w1)
             | (res, w1) \<Rightarrow> ((res, r1), w1)))"

lemma resume_loop_Resumed:
  "resume_loop env r from' ups le w = (Resumed r', w') \<Longrightarrow>
     rrResumes r' = rrResumes r \<and> rrMaxResumes r' = rrMaxResumes r"
  by (induction env r from' ups le w rule: resume_loop.induct)
    (auto simp: Let_def split: prod.splits bool.splits sum.splits if_splits)

lemma resume_counts:
  assumes "resume env r w = ((Resumed r', r''), w')"
  shows "r'' = r'" and "rrResumes r < rrMaxResumes r" and "rrResumes r' = rrResumes r + 1" and "rrMaxResumes r' = rrMaxResumes r"
  using assms by (auto simp: resume_def Let_def dest: resume_loop_Resumed split: if_splits option.splits prod.splits resumed.splits)

lemma resume_decreases:
  "((Resumed x, r2), w2) = resume env r w \<Longrightarrow> nat (rrMaxResumes r2 - rrResumes r2) < nat (rrMaxResumes r - rrResumes r)"
  using resume_counts [of env r w x r2 w2] by auto

text \<open>The body of a response repeats the error it ended with.\<close>

fun read_body :: "body \<Rightarrow> (bytes \<times> body_err option) \<times> body" where
  "read_body [] = (([], Some BodyEOF), [])"
| "read_body ((d, None) # xs) = ((d, None), xs)"
| "read_body ((d, Some e) # xs) = ((d, Some e), [([], Some e)])"

function reader_Read ::
  "'b fetch_env \<Rightarrow> resumingReader \<Rightarrow> 'b fetch_world \<Rightarrow> ((bytes \<times> read_fail option) \<times> resumingReader) \<times> 'b fetch_world" where
  "reader_Read env r w =
     (if rrClosed r then ((([], Some RdClosed), r), w)
      else if rrAnnounceRestart r then ((([], Some RdRestart), r\<lparr>rrAnnounceRestart := False, rrOffset := 0\<rparr>), w)
      else
        case feCtx env (fwTick w) of
          Some e \<Rightarrow> ((([], Some (RdErr e)), r), w)
        | None \<Rightarrow>
            (case rrBody r of
               None \<Rightarrow> ((([], Some RdEOF), r), w)
             | Some b \<Rightarrow>
                 (case read_body b of
                    ((d, err), b') \<Rightarrow>
                      (let r1 = r\<lparr>rrBody := Some b', rrOffset := rrOffset r + int (length d)\<rparr>;
                           w1 = w\<lparr>fwTick := Suc (fwTick w)\<rparr>
                       in
                       case err of
                         None \<Rightarrow> (((d, None), r1), w1)
                       | Some BodyEOF \<Rightarrow> (((d, Some RdEOF), r1), w1)
                       | Some (BodyErr e network) \<Rightarrow>
                           (case feCtx env (fwTick w1) of
                              Some ce \<Rightarrow> (((d, Some (RdErr ce)), r1), w1)
                            | None \<Rightarrow>
                                if \<not> isResumableReadError e network then (((d, Some (RdErr e)), r1), w1)
                                else
                                  (case resume env r1 w1 of
                                     ((NotResumed e2, r2), w2) \<Rightarrow>
                                       if d \<noteq> [] then (((d, None), r2), w2) else ((([], Some (RdErr e2)), r2), w2)
                                   | ((ResumePanic, r2), w2) \<Rightarrow> (((d, Some RdPanic), r2), w2)
                                   | ((Resumed _, r2), w2) \<Rightarrow>
                                       if d \<noteq> [] then (((d, None), r2), w2) else reader_Read env r2 w2))))))"
  by pat_completeness auto
termination
  by (relation "measure (\<lambda>(env, r, w). nat (rrMaxResumes r - rrResumes r))") (auto dest!: resume_decreases)

declare reader_Read.simps [simp del]

definition reader_Close :: "resumingReader \<Rightarrow> resumingReader" where
  "reader_Close r = r\<lparr>rrClosed := True, rrBody := None\<rparr>"

section \<open>What a reader delivers\<close>

text \<open>
  A body that is honest about some content delivers a prefix of it, and all of it when it ends: a
  connection that breaks early is reported as an error, not as the end of the body.
\<close>

fun honest_body :: "body \<Rightarrow> bytes \<Rightarrow> bool" where
  "honest_body [] c \<longleftrightarrow> c = []"
| "honest_body ((d, None) # xs) c \<longleftrightarrow> prefix d c \<and> honest_body xs (drop (length d) c)"
| "honest_body ((d, Some BodyEOF) # xs) c \<longleftrightarrow> d = c"
| "honest_body ((d, Some (BodyErr e network)) # xs) c \<longleftrightarrow> prefix d c"

lemma read_body_honest:
  assumes "honest_body b c" and "read_body b = ((d, err), b')"
  shows "prefix d c \<and> honest_body b' (drop (length d) c) \<and> (err = Some BodyEOF \<longrightarrow> d = c)"
  using assms by (cases "(b, c)" rule: honest_body.cases) auto

text \<open>
  Mirrors that hold the content of a reference: a 206 answers a range request with the rest of the
  content, any other 2xx with all of it.
\<close>

definition honest_mirrors :: "'b fetch_env \<Rightarrow> ArtifactRef \<Rightarrow> bytes \<Rightarrow> bool" where
  "honest_mirrors env ref content \<longleftrightarrow>
     (\<forall>tick fast up tok opts resp.
        feDo env tick fast up (build_request (buildURL up ref) None opts tok) = Inr resp \<and> 200 \<le> rsStatus resp \<and> rsStatus resp < 300
        \<longrightarrow> (if rsStatus resp = 206
            then roHasRange opts \<and> honest_body (rsBody resp) (drop (nat (roRangeStart opts)) content)
            else honest_body (rsBody resp) content))"

definition follows :: "bytes \<Rightarrow> resumingReader \<Rightarrow> bool" where
  "follows content r \<longleftrightarrow>
     0 \<le> rrOffset r \<and> rrOffset r \<le> int (length content)
     \<and> (case rrBody r of
          None \<Rightarrow> \<not> rrAnnounceRestart r
        | Some b \<Rightarrow> honest_body b (if rrAnnounceRestart r then content else drop (nat (rrOffset r)) content))"

lemma honest_answer:
  assumes "honest_mirrors env ref content" and "answered env ref None opts up a"
    and "200 \<le> uStatusCode (faMeta a)" and "uStatusCode (faMeta a) < 300"
  shows "\<exists>b. faBody a = Some b \<and>
     (if uStatusCode (faMeta a) = 206 then roHasRange opts \<and> honest_body b (drop (nat (roRangeStart opts)) content)
      else honest_body b content)"
  using assms unfolding answered_def honest_mirrors_def by (fastforce simp: extractMeta_def split: if_splits)

lemma fetchFrom_answered:
  "documented_failsafe env \<Longrightarrow> fetchFrom env r up from' n w = (Inr a, w') \<Longrightarrow>
     answered env (rrRef r) None (resume_opts (rrOpts r) from') up a"
  by (auto simp: fetchFrom_def Let_def dest: tryFetch_sound(2) split: prod.splits sum.splits)

lemma resume_loop_follows:
  assumes "documented_failsafe env" and "honest_mirrors env (rrRef r) content"
    and "0 \<le> rrOffset r" and "rrOffset r \<le> int (length content)" and "\<not> rrAnnounceRestart r"
  shows "resume_loop env r (rrOffset r) ups le w = (Resumed r', w') \<Longrightarrow>
     follows content r' \<and> rrBody r' \<noteq> None \<and> rrOffset r' = rrOffset r \<and> rrRef r' = rrRef r \<and> rrClosed r' = rrClosed r"
proof (induction ups arbitrary: le w)
  case (Cons up rest)
  obtain b w1 where blk: "isBlocked env w (upName up) = (b, w1)" by fastforce
  show ?case
  proof (cases b)
    case True
    then show ?thesis using Cons blk by auto
  next
    case False
    obtain q w2 where q: "fetchFrom env r up (rrOffset r) (int (length rest)) w1 = (q, w2)" by fastforce
    show ?thesis
    proof (cases q)
      case (Inl e)
      then show ?thesis using Cons blk False q by auto
    next
      case (Inr a)
      note ans = fetchFrom_answered [OF assms(1) q [unfolded Inr]]
      note body = honest_answer [OF assms(2) ans]
      let ?code = "uStatusCode (faMeta a)"
      consider (rest) le' w2 where "resume_loop env r (rrOffset r) rest le' w2 = (Resumed r', w')"
        | (part) "?code = 206" "0 < rrOffset r" "r' = r\<lparr>rrUp := up, rrBody := faBody a\<rparr>"
        | (again) "?code = 200" "0 < rrOffset r" "r' = r\<lparr>rrUp := up, rrBody := faBody a, rrAnnounceRestart := True\<rparr>"
        | (begin') "200 \<le> ?code" "?code < 300" "rrOffset r = 0" "r' = r\<lparr>rrUp := up, rrBody := faBody a\<rparr>"
        using Cons.prems blk False q Inr by (auto simp: Let_def split: if_splits)
      then show ?thesis
      proof cases
        case rest
        then show ?thesis by (rule Cons.IH)
      next
        case begin'
        then show ?thesis using body assms(3-5) by (auto simp: follows_def resume_opts_def split: if_splits)
      qed (use body assms(3-5) in \<open>auto simp: follows_def resume_opts_def\<close>)
    qed
  qed
qed simp

text \<open>What one read says: more of the content, that the transfer starts over, or its end.\<close>

definition read_says :: "bytes \<Rightarrow> resumingReader \<Rightarrow> bytes \<Rightarrow> read_fail option \<Rightarrow> resumingReader \<Rightarrow> bool" where
  "read_says content r d err r' \<longleftrightarrow>
     follows content r' \<and> rrRef r' = rrRef r
     \<and> (case err of
          None \<Rightarrow> rrOffset r' = rrOffset r + int (length d) \<and> prefix d (drop (nat (rrOffset r)) content)
        | Some RdEOF \<Rightarrow> rrBody r \<noteq> None \<longrightarrow> d = drop (nat (rrOffset r)) content
        | Some RdRestart \<Rightarrow> rrOffset r' = 0
        | _ \<Rightarrow> True)"

lemma resume_follows:
  assumes "documented_failsafe env" and "honest_mirrors env (rrRef r) content" and "follows content r" and "\<not> rrAnnounceRestart r"
    and "resume env r w = ((res, r'), w')"
  shows "follows content r' \<and> rrOffset r' = rrOffset r \<and> rrRef r' = rrRef r \<and> (\<forall>x. res = Resumed x \<longrightarrow> x = r' \<and> rrBody r' \<noteq> None)"
proof (cases "rrMaxResumes r \<le> rrResumes r \<or> feCtx env (fwTick w) \<noteq> None")
  case True
  then show ?thesis using assms(3,5) by (auto simp: resume_def split: if_splits)
next
  case False
  define r1 where "r1 = r\<lparr>rrResumes := rrResumes r + 1, rrBody := None\<rparr>"
  obtain q w1 where q: "resume_loop env r1 (rrOffset r1) (resumeCandidates r1) None w = (q, w1)" by fastforce
  have r1: "follows content r1" "rrOffset r1 = rrOffset r" "rrRef r1 = rrRef r" "\<not> rrAnnounceRestart r1"
    using assms(3,4) by (simp_all add: r1_def follows_def)
  have "(res, r') = (case q of Resumed r2 \<Rightarrow> (Resumed r2, r2) | _ \<Rightarrow> (q, r1))"
    using assms(5) q False by (auto simp: resume_def Let_def r1_def [symmetric] split: resumed.splits)
  moreover have "follows content r2 \<and> rrBody r2 \<noteq> None \<and> rrOffset r2 = rrOffset r1 \<and> rrRef r2 = rrRef r1" if "q = Resumed r2" for r2
    using resume_loop_follows [OF assms(1), of r1 content _ None w r2 w1] q that r1 assms(2) by (simp add: follows_def)
  ultimately show ?thesis using r1 by (auto split: resumed.splits)
qed

lemma reader_Read_says:
  assumes "documented_failsafe env" and "honest_mirrors env (rrRef r) content" and "follows content r"
    and "reader_Read env r w = (((d, err), r'), w')"
  shows "read_says content r d err r'"
  using assms
proof (induction env r w arbitrary: d err r' w' rule: reader_Read.induct)
  case (1 env r w)
  show ?case
  proof (cases "rrClosed r \<or> rrAnnounceRestart r \<or> feCtx env (fwTick w) \<noteq> None \<or> rrBody r = None")
    case True
    then show ?thesis
      using 1(4,5) by (auto simp: reader_Read.simps [of env r w] read_says_def follows_def split: if_splits option.splits)
  next
    case False
    then obtain b where open': "\<not> rrClosed r" "\<not> rrAnnounceRestart r" "feCtx env (fwTick w) = None" "rrBody r = Some b" by auto
    obtain x er b' where rb: "read_body b = ((x, er), b')" by (metis surj_pair)
    define r1 where "r1 = r\<lparr>rrBody := Some b', rrOffset := rrOffset r + int (length x)\<rparr>"
    define w1 where "w1 = w\<lparr>fwTick := Suc (fwTick w)\<rparr>"
    have hb: "honest_body b (drop (nat (rrOffset r)) content)" using 1(4) open' by (simp add: follows_def)
    note part = read_body_honest [OF hb rb]
    then have len: "length x \<le> length content - nat (rrOffset r)" using prefix_length_le by fastforce
    have f1: "follows content r1"
      using part len 1(4) open' by (auto simp: follows_def r1_def nat_add_distrib add.commute drop_drop)
    have plain': "read_says content r x None r1" "er = Some BodyEOF \<Longrightarrow> read_says content r x (Some RdEOF) r1"
      "read_says content r x (Some (RdErr ce)) r1" for ce
      using f1 part by (auto simp: read_says_def r1_def)
    consider (none) "er = None" "((d, err), r') = ((x, None), r1)"
      | (eof) "er = Some BodyEOF" "((d, err), r') = ((x, Some RdEOF), r1)"
      | (fail) ce where "((d, err), r') = ((x, Some (RdErr ce)), r1)"
      | (res) e network where "er = Some (BodyErr e network)" "feCtx env (fwTick w1) = None" "isResumableReadError e network"
      using 1(5) open' rb
      by (auto simp: reader_Read.simps [of env r w] Let_def r1_def w1_def split: option.splits body_err.splits if_splits)
    then show ?thesis
    proof cases
      case (res e network)
      obtain q r2 w2 where q: "resume env r1 w1 = ((q, r2), w2)" by (metis surj_pair)
      have r1: "rrRef r1 = rrRef r" "\<not> rrAnnounceRestart r1" "rrOffset r1 = rrOffset r + int (length x)" using open' by (simp_all add: r1_def)
      have f2: "follows content r2" "rrOffset r2 = rrOffset r1" "rrRef r2 = rrRef r"
        and q': "\<And>y. q = Resumed y \<Longrightarrow> rrBody r2 \<noteq> None"
        using resume_follows [OF 1(2) _ f1 r1(2) q] 1(3) r1(1) by auto
      have out: "((d, err), r') = ((x, None), r2) \<or> (\<exists>z. z \<notin> {RdEOF, RdRestart} \<and> ((d, err), r') = ((x, Some z), r2))
          \<or> (x = [] \<and> (\<exists>y. q = Resumed y) \<and> reader_Read env r2 w2 = (((d, err), r'), w'))"
        using 1(5) open' rb res q
        by (auto simp: reader_Read.simps [of env r w] Let_def r1_def w1_def split: resumed.splits if_splits)
      then consider (data) "((d, err), r') = ((x, None), r2)"
        | (bad) z where "z \<notin> {RdEOF, RdRestart}" "((d, err), r') = ((x, Some z), r2)"
        | (rec) y where "x = []" "q = Resumed y" "reader_Read env r2 w2 = (((d, err), r'), w')" by blast
      then show ?thesis
      proof cases
        case rec
        have "read_says content r2 d err r'"
          using 1(1) open' rb res q rec f2 1(2,3) by (auto simp: r1_def w1_def)
        then show ?thesis using f2 r1 rec q' open' by (auto simp: read_says_def split: option.splits read_fail.splits)
      qed (use f2 r1 part in \<open>auto simp: read_says_def split: read_fail.splits\<close>)
    qed (use plain' in auto)
  qed
qed

text \<open>
  The reads of a caller that goes on as long as there is no error, with the bytes it has received
  since the transfer last started over (what the quarantine keeps).
\<close>

inductive reading :: "'b fetch_env \<Rightarrow> resumingReader \<Rightarrow> 'b fetch_world \<Rightarrow> bytes \<Rightarrow> resumingReader \<Rightarrow> 'b fetch_world \<Rightarrow> bool"
  for env r0 w0 where
  reading_start: "reading env r0 w0 [] r0 w0"
| reading_data: "reading env r0 w0 acc r w \<Longrightarrow> reader_Read env r w = (((d, None), r'), w') \<Longrightarrow>
     reading env r0 w0 (acc @ d) r' w'"
| reading_restart: "reading env r0 w0 acc r w \<Longrightarrow> reader_Read env r w = (((d, Some RdRestart), r'), w') \<Longrightarrow>
     reading env r0 w0 [] r' w'"

lemma reading_follows:
  assumes "reading env r0 w0 acc r w" and "documented_failsafe env" and "honest_mirrors env (rrRef r0) content"
    and "follows content r0" and "rrOffset r0 = 0"
  shows "follows content r \<and> rrRef r = rrRef r0 \<and> acc = take (nat (rrOffset r)) content"
  using assms
proof (induction rule: reading.induct)
  case (reading_data acc r w d r' w')
  then have s: "read_says content r d None r'" by (metis reader_Read_says)
  have "0 \<le> rrOffset r" using reading_data by (simp add: follows_def)
  then have "take (nat (rrOffset r')) content = take (nat (rrOffset r)) content @ take (length d) (drop (nat (rrOffset r)) content)"
    using s by (simp add: read_says_def nat_add_distrib take_add)
  also have "take (length d) (drop (nat (rrOffset r)) content) = d"
    using s by (auto simp: read_says_def prefix_def)
  finally show ?case using reading_data s by (simp add: read_says_def)
next
  case (reading_restart acc r w d r' w')
  then have "read_says content r d (Some RdRestart) r'" by (metis reader_Read_says)
  then show ?case using reading_restart by (simp add: read_says_def)
qed simp

lemma Fetch_follows:
  assumes "documented_failsafe env" and "honest_mirrors env ref content"
    and "Fetch env ref ups options w = (Inr (Some rd, meta), w')" and "\<not> roHasRange (buildRequestOpts options)"
  shows "follows content rd \<and> rrOffset rd = 0 \<and> rrRef rd = ref"
proof -
  obtain up a where a: "answered env ref None (buildRequestOpts options) up a" "meta = faMeta a"
    "Some rd = map_option (wrapResuming env ref up (effective (fwRuntime w) ups) (buildRequestOpts options)) (faBody a)"
    "uStatusCode meta = 304 \<and> Some rd = None \<or> 200 \<le> uStatusCode meta \<and> uStatusCode meta < 300 \<and> Some rd \<noteq> None"
    using Fetch_serves [OF assms(1,3)] by blast
  then obtain b where "faBody a = Some b" "honest_body b content"
    using honest_answer [OF assms(2) a(1)] assms(4) by (auto split: if_splits)
  with a(3) show ?thesis by (auto simp: wrapResuming_def follows_def)
qed


lemma demo_honest: "honest_mirrors demo_env demo_ref ''layer''"
  by (auto simp: honest_mirrors_def demo_env_def demo_response_def)

lemma demo_ctx_live [simp]: "feCtx demo_env t = None"
  by (simp add: demo_env_def)


section \<open>The cost of resuming\<close>

lemma other_mirrors_set: "set (other_mirrors seen ups) \<subseteq> set ups"
  by (induction seen ups rule: other_mirrors.induct) auto

lemma other_mirrors_length: "length (other_mirrors seen ups) \<le> length (filter (\<lambda>u. upName u \<notin> seen) ups)"
proof (induction seen ups rule: other_mirrors.induct)
  case (2 seen up ups)
  have "length (filter (\<lambda>u. upName u \<notin> insert (upName up) seen) ups) \<le> length (filter (\<lambda>u. upName u \<notin> seen) ups)"
    by (induction ups) auto
  with 2 show ?case by (auto simp: le_SucI intro: order_trans)
qed simp

lemma resumeCandidates_chain:
  assumes "rrUp r \<in> set (rrChain r)"
  shows "set (resumeCandidates r) \<subseteq> set (rrChain r) \<and> length (resumeCandidates r) \<le> length (rrChain r)"
proof -
  have "length (filter (\<lambda>u. upName u \<notin> {upName (rrUp r)}) (rrChain r)) < length (rrChain r)"
    using assms length_filter_less [of "rrUp r" "rrChain r"] by auto
  with assms other_mirrors_set [of "{upName (rrUp r)}" "rrChain r"] other_mirrors_length [of "{upName (rrUp r)}" "rrChain r"]
  show ?thesis by (auto simp: resumeCandidates_def)
qed

lemma walk_bound_step:
  "2 * nat (max 1 (attemptBudget env None (int (length rest)) up prior)) + walk_bound env 0 rest \<le> walk_bound env 0 (up # rest)"
  by (cases rest) (auto simp: walk_bound_def attemptBudget_def)

lemma walk_bound_mono: "length xs \<le> length ys \<Longrightarrow> walk_bound env k xs \<le> walk_bound env k ys"
  by (auto simp: walk_bound_def)

lemma fetchFrom_asks:
  assumes "documented_failsafe env" and "fetchFrom env r up from' n w = (q, w')"
  shows "asks (2 * nat (max 1 (attemptBudget env None n up (n = 0 \<and> 1 < length (rrChain r))))) {upName up} w w'"
  using assms(2) tryFetch_sound(1) [OF assms(1)]
  by (auto simp: fetchFrom_def Let_def split: prod.splits sum.splits)

lemma resume_loop_asks:
  assumes "documented_failsafe env"
  shows "resume_loop env r from' ups le w = (res, w') \<Longrightarrow> asks (walk_bound env 0 ups) (upName ` set ups) w w'"
proof (induction ups arbitrary: le w)
  case Nil
  then show ?case by (simp add: asks_refl)
next
  case (Cons up rest)
  obtain b w1 where blk: "isBlocked env w (upName up) = (b, w1)" by fastforce
  note w1 = isBlocked_log [OF blk]
  have less: "walk_bound env 0 rest \<le> walk_bound env 0 (up # rest)" by (rule walk_bound_mono) simp
  show ?case
  proof (cases b)
    case True
    then have "resume_loop env r from' rest le w1 = (res, w')" using Cons.prems blk by simp
    from Cons.IH [OF this] show ?thesis by (rule asks_weaken) (use w1 less in auto)
  next
    case False
    obtain q w2 where q: "fetchFrom env r up from' (int (length rest)) w1 = (q, w2)" by fastforce
    have "asks (2 * nat (max 1 (attemptBudget env None (int (length rest)) up (int (length rest) = 0 \<and> 1 < length (rrChain r)))))
        (upName ` set (up # rest)) w w2"
      using fetchFrom_asks [OF assms q] by (rule asks_weaken) (use w1 in auto)
    moreover have "asks (walk_bound env 0 rest) (upName ` set (up # rest)) w2 w'"
    proof (cases "w' = w2")
      case True
      then show ?thesis by (simp add: asks_refl)
    next
      case moved: False
      then obtain le' where "resume_loop env r from' rest le' w2 = (res, w')"
        using Cons.prems blk False q by (auto simp: Let_def split: sum.splits if_splits)
      from Cons.IH [OF this] show ?thesis by (rule asks_mono) auto
    qed
    ultimately have "asks (2 * nat (max 1 (attemptBudget env None (int (length rest)) up (int (length rest) = 0 \<and> 1 < length (rrChain r))))
        + walk_bound env 0 rest) (upName ` set (up # rest)) w w'" by (rule asks_trans)
    then show ?thesis by (rule asks_mono) (use walk_bound_step in auto)
  qed
qed

text \<open>What the rounds of resuming between two states of a reader cost.\<close>

definition resumed_within :: "'b fetch_env \<Rightarrow> resumingReader \<Rightarrow> 'b fetch_world \<Rightarrow> resumingReader \<Rightarrow> 'b fetch_world \<Rightarrow> bool" where
  "resumed_within env r w r' w' \<longleftrightarrow>
     rrChain r' = rrChain r \<and> rrMaxResumes r' = rrMaxResumes r \<and> rrUp r' \<in> set (rrChain r)
     \<and> rrResumes r \<le> rrResumes r' \<and> (rrResumes r' = rrResumes r \<or> rrResumes r' \<le> rrMaxResumes r)
     \<and> asks (nat (rrResumes r' - rrResumes r) * walk_bound env 0 (rrChain r)) (upName ` set (rrChain r)) w w'"

lemma resumed_within_refl:
  "rrUp r \<in> set (rrChain r) \<Longrightarrow> rrChain r' = rrChain r \<Longrightarrow> rrUp r' = rrUp r \<Longrightarrow> rrMaxResumes r' = rrMaxResumes r \<Longrightarrow>
     rrResumes r' = rrResumes r \<Longrightarrow> fwLog w' = fwLog w \<Longrightarrow> resumed_within env r w r' w'"
  by (simp add: resumed_within_def asks_refl)

lemma resumed_within_trans:
  assumes "resumed_within env r w r1 w1" and "resumed_within env r1 w1 r2 w2"
  shows "resumed_within env r w r2 w2"
proof -
  let ?k = "walk_bound env 0 (rrChain r)"
  have "asks (nat (rrResumes r1 - rrResumes r) * ?k + nat (rrResumes r2 - rrResumes r1) * ?k) (upName ` set (rrChain r)) w w2"
    using assms asks_trans by (fastforce simp: resumed_within_def)
  moreover have "nat (rrResumes r2 - rrResumes r) = nat (rrResumes r1 - rrResumes r) + nat (rrResumes r2 - rrResumes r1)"
    using assms by (auto simp: resumed_within_def)
  ultimately show ?thesis using assms by (auto simp: resumed_within_def add_mult_distrib)
qed

lemma resume_loop_frame:
  "resume_loop env r from' ups le w = (Resumed r', w') \<Longrightarrow> rrChain r' = rrChain r \<and> rrUp r' \<in> set ups"
  by (induction env r from' ups le w rule: resume_loop.induct)
    (auto simp: Let_def split: prod.splits bool.splits sum.splits if_splits)

lemma resume_within:
  assumes "documented_failsafe env" and "rrUp r \<in> set (rrChain r)" and "resume env r w = ((res, r'), w')"
  shows "resumed_within env r w r' w'"
proof (cases "rrMaxResumes r \<le> rrResumes r \<or> feCtx env (fwTick w) \<noteq> None")
  case True
  then show ?thesis using assms(2,3) by (auto simp: resume_def split: if_splits intro: resumed_within_refl)
next
  case False
  define r1 where "r1 = r\<lparr>rrResumes := rrResumes r + 1, rrBody := None\<rparr>"
  obtain q w1 where q: "resume_loop env r1 (rrOffset r1) (resumeCandidates r1) None w = (q, w1)" by fastforce
  have r1: "rrChain r1 = rrChain r" "rrUp r1 = rrUp r" "rrMaxResumes r1 = rrMaxResumes r" "rrResumes r1 = rrResumes r + 1"
    by (simp_all add: r1_def)
  have cand: "set (resumeCandidates r1) \<subseteq> set (rrChain r)" "length (resumeCandidates r1) \<le> length (rrChain r)"
    using resumeCandidates_chain [of r1] assms(2) r1 by auto
  have out: "(res, r', w') = (case q of Resumed r2 \<Rightarrow> (Resumed r2, r2, w1) | _ \<Rightarrow> (q, r1, w1))"
    using assms(3) q False by (auto simp: resume_def Let_def r1_def [symmetric] split: resumed.splits)
  have "asks (walk_bound env 0 (rrChain r)) (upName ` set (rrChain r)) w w1"
    using resume_loop_asks [OF assms(1) q] by (rule asks_mono) (use cand walk_bound_mono in auto)
  moreover have "rrChain r2 = rrChain r \<and> rrUp r2 \<in> set (rrChain r) \<and> rrMaxResumes r2 = rrMaxResumes r \<and> rrResumes r2 = rrResumes r + 1"
    if "q = Resumed r2" for r2
    using resume_loop_frame [of env r1] resume_loop_Resumed [of env r1] q that r1 cand by fastforce
  ultimately show ?thesis
    using out r1 assms(2) False by (cases q) (auto simp: resumed_within_def)
qed

lemma reader_Read_within:
  assumes "documented_failsafe env" and "rrUp r \<in> set (rrChain r)" and "reader_Read env r w = ((ev, r'), w')"
  shows "resumed_within env r w r' w'"
  using assms
proof (induction env r w arbitrary: ev r' w' rule: reader_Read.induct)
  case (1 env r w)
  show ?case
  proof (cases "rrClosed r \<or> rrAnnounceRestart r \<or> feCtx env (fwTick w) \<noteq> None \<or> rrBody r = None")
    case True
    then show ?thesis
      using 1(3,4) by (auto simp: reader_Read.simps [of env r w] split: if_splits option.splits intro!: resumed_within_refl)
  next
    case False
    then obtain b where open': "\<not> rrClosed r" "\<not> rrAnnounceRestart r" "feCtx env (fwTick w) = None" "rrBody r = Some b" by auto
    obtain x er b' where rb: "read_body b = ((x, er), b')" by (metis surj_pair)
    define r1 where "r1 = r\<lparr>rrBody := Some b', rrOffset := rrOffset r + int (length x)\<rparr>"
    define w1 where "w1 = w\<lparr>fwTick := Suc (fwTick w)\<rparr>"
    have r1: "resumed_within env r w r1 w1" using 1(3) by (auto simp: r1_def w1_def intro!: resumed_within_refl)
    consider (done') "r' = r1" "w' = w1"
      | (res) e network where "er = Some (BodyErr e network)" "feCtx env (fwTick w1) = None" "isResumableReadError e network"
      using 1(4) open' rb
      by (auto simp: reader_Read.simps [of env r w] Let_def r1_def w1_def split: option.splits body_err.splits if_splits)
    then show ?thesis
    proof cases
      case (res e network)
      obtain q r2 w2 where q: "resume env r1 w1 = ((q, r2), w2)" by (metis surj_pair)
      have two: "resumed_within env r1 w1 r2 w2" by (rule resume_within [OF 1(2) _ q]) (use 1(3) in \<open>simp add: r1_def\<close>)
      have up: "rrUp r2 \<in> set (rrChain r2)" using r1 two by (simp add: resumed_within_def)
      have "r' = r2 \<and> w' = w2 \<or> x = [] \<and> (\<exists>y. q = Resumed y) \<and> reader_Read env r2 w2 = ((ev, r'), w')"
        using 1(4) open' rb res q
        by (auto simp: reader_Read.simps [of env r w] Let_def r1_def w1_def split: resumed.splits if_splits)
      then show ?thesis
      proof (elim disjE conjE exE)
        fix y
        assume rec: "x = []" "q = Resumed y" "reader_Read env r2 w2 = ((ev, r'), w')"
        have "resumed_within env r2 w2 r' w'"
          using 1(1) open' rb res q rec up 1(2) by (auto simp: r1_def w1_def)
        then show ?thesis using r1 two resumed_within_trans by blast
      qed (use r1 two resumed_within_trans in blast)
    qed (use r1 in simp)
  qed
qed

lemma reading_within:
  "reading env r0 w0 acc r w \<Longrightarrow> documented_failsafe env \<Longrightarrow> rrUp r0 \<in> set (rrChain r0) \<Longrightarrow> resumed_within env r0 w0 r w"
proof (induction rule: reading.induct)
  case reading_start
  then show ?case by (intro resumed_within_refl) auto
next
  case (reading_data acc r w d r' w')
  then have "rrUp r \<in> set (rrChain r)" by (auto simp: resumed_within_def)
  with reading_data show ?case by (meson reader_Read_within resumed_within_trans)
next
  case (reading_restart acc r w d r' w')
  then have "rrUp r \<in> set (rrChain r)" by (auto simp: resumed_within_def)
  with reading_restart show ?case by (meson reader_Read_within resumed_within_trans)
qed

definition resume_limit :: "'b fetch_env \<Rightarrow> int" where
  "resume_limit env = (if feMaxResumes env \<le> 0 then defaultMaxResumeAttempts else feMaxResumes env)"


lemma demo_reader:
  "\<exists>rd meta w1. Fetch demo_env demo_ref demo_chain [] demo_world = (Inr (Some rd, meta), w1)"
  using demo_fetch_walk(1) [of "buildRequestOpts []" chain_start]
  by (auto simp: Fetch_def demo_effective Let_def demo_answer_def demo_response_def)


section \<open>Where a reader goes wrong\<close>

lemma resume_loop_dead:
  assumes "\<And>spec name fn w. \<exists>e w'. feGet env spec name fn w = (Inl e, w')"
  shows "\<exists>e w'. resume_loop env r from' ups le w = (NotResumed e, w')"
proof (induction ups arbitrary: le w)
  case (Cons up rest)
  have "\<exists>e w'. runFetchAttempt env name k ff fn v = (Inl e, w')" for name k ff fn v
  proof -
    obtain e w' where "feGet env \<lparr>rtyMaxRetries = (if k \<le> 0 then 1 else k) - 1, rtyFailFastDial = ff\<rparr> name fn
        (with_hub (snd (breaker (feLib env) (fw_hub v) name)) v) = (Inl e, w')"
      using assms by blast
    then show ?thesis by (simp add: runFetchAttempt_def Let_def)
  qed
  then have dead: "\<exists>e w'. fetchFrom env r up from' n v = (Inl e, w')" for n v
    by (simp add: fetchFrom_def tryFetch_def Let_def split: prod.splits sum.splits) (metis Inl_Inr_False prod.inject)
  obtain b w1 where blk: "isBlocked env w (upName up) = (b, w1)" by fastforce
  obtain e w2 where "fetchFrom env r up from' (int (length rest)) w1 = (Inl e, w2)" using dead by blast
  with Cons blk show ?case by (cases b) auto
qed simp

text \<open>A transfer that breaks after some bytes of a read and cannot be resumed ends like a
  complete one: when no mirror answers any more, the read that saw the connection break returns its
  bytes without an error, and the next read reports the end of the body.\<close>

theorem failed_resume_looks_complete:
  assumes "\<And>spec name fn w. \<exists>e w'. feGet env spec name fn w = (Inl e, w')" and "\<And>t. feCtx env t = None"
    and "rrBody r = Some ((d, Some (BodyErr e network)) # rest)" and "d \<noteq> []" and "isResumableReadError e network"
    and "\<not> rrClosed r" and "\<not> rrAnnounceRestart r" and "rrResumes r < rrMaxResumes r"
  shows "\<exists>r' w'. reader_Read env r w = (((d, None), r'), w') \<and> reader_Read env r' w' = ((([], Some RdEOF), r'), w')"
proof -
  define r1 where "r1 = r\<lparr>rrBody := Some [([], Some (BodyErr e network))], rrOffset := rrOffset r + int (length d)\<rparr>"
  define w1 where "w1 = w\<lparr>fwTick := Suc (fwTick w)\<rparr>"
  define r2 where "r2 = r1\<lparr>rrResumes := rrResumes r1 + 1, rrBody := None\<rparr>"
  obtain e2 w2 where "resume_loop env r2 (rrOffset r2) (resumeCandidates r2) None w1 = (NotResumed e2, w2)"
    using resume_loop_dead [OF assms(1)] by blast
  then have res: "resume env r1 w1 = ((NotResumed e2, r2), w2)"
    using assms(2,8) by (simp add: resume_def Let_def r2_def [symmetric]) (simp add: r1_def)
  have "reader_Read env r w = (((d, None), r2), w2)"
    using assms(2-7) res by (simp add: reader_Read.simps [of env r w] Let_def r1_def [symmetric] w1_def [symmetric])
  moreover have "reader_Read env r2 w2 = ((([], Some RdEOF), r2), w2)"
  proof -
    have "\<not> rrClosed r2" "\<not> rrAnnounceRestart r2" "rrBody r2 = None" using assms(6,7) by (simp_all add: r2_def r1_def)
    then show ?thesis using assms(2) by (simp add: reader_Read.simps [of env r2 w2])
  qed
  ultimately show ?thesis by blast
qed

definition dead_env :: "simple_cb fetch_env" where
  "dead_env = demo_env\<lparr>feGet := (\<lambda>_ _ _ w. (Inl (plain ''connection refused''), w))\<rparr>"

definition broken_reader :: resumingReader where
  "broken_reader =
     wrapResuming dead_env demo_ref (mirror ''docker'' 1) demo_chain no_opts
       [(''lay'', Some (BodyErr (plain ''read: connection reset by peer'') True))]"

theorem failed_resume_looks_complete_witness:
  "\<exists>r' w'. reader_Read dead_env broken_reader demo_world = (((''lay'', None), r'), w')
     \<and> reader_Read dead_env r' w' = ((([], Some RdEOF), r'), w')"
  by (rule failed_resume_looks_complete [where e = "plain ''read: connection reset by peer''" and network = True and rest = "[]"])
    (simp_all add: dead_env_def broken_reader_def wrapResuming_def demo_env_def isResumableReadError_def
      defaultMaxResumeAttempts_def)

text \<open>
  A fetch that asked for the artifact from an offset on resumes at the number of bytes it has
  delivered, not at that many bytes after the offset: what follows is not what the caller expects.
\<close>

lemma ranged_body_resumes_from_delivered:
  "resume_opts (buildRequestOpts [WithByteRange k]) n = resume_opts (buildRequestOpts []) n"
  by (simp add: resume_opts_def buildRequestOpts_def no_opts_def)

text \<open>An answer 304 to the range request of a resumption is closed although it has no body.\<close>

lemma resume_304_panics:
  assumes "isBlocked env w (upName up) = (False, w1)" and "fetchFrom env r up from' (int (length rest)) w1 = (Inr a, w2)"
    and "uStatusCode (faMeta a) = 304" and "faBody a = None"
  shows "resume_loop env r from' (up # rest) le w = (ResumePanic, w2)"
  using assms by simp

end
