(* ===== verification/Control.thy ===== *)
theory Control
  imports Prelude
begin

text \<open>
  The control-plane database shared by the organization, grant and repository stores: the
  tables \<^verbatim>\<open>orgs\<close>, \<^verbatim>\<open>org_members\<close>, \<^verbatim>\<open>org_invitations\<close>, \<^verbatim>\<open>resource_grants\<close>,
  \<^verbatim>\<open>repos\<close> and \<^verbatim>\<open>repo_tags\<close> as lists of rows. Each statement is one operation of the
  device and fails as the fault plan says, without effect. Random identifiers come from a
  supply, one per call. Timestamps are columns of text in the format \<^verbatim>\<open>RFC3339Nano\<close>; a row
  keeps the instant, and an \<^verbatim>\<open>ORDER BY\<close> compares the text.
\<close>

section \<open>RFC 3339 timestamps\<close>

text \<open>The last \<open>n\<close> decimal digits; every field of a date before the year 10000 has a fixed width.\<close>

primrec pad :: "nat \<Rightarrow> int \<Rightarrow> string" where
  "pad 0 x = []"
| "pad (Suc n) x = pad n (x div 10) @ [char_of (48 + nat (x mod 10))]"

text \<open>The civil date of a day count from the Unix epoch (proleptic Gregorian calendar).\<close>

definition civil :: "int \<Rightarrow> int \<times> int \<times> int" where
  "civil days =
     (let z = days + 719468; era = z div 146097; doe = z mod 146097;
          yoe = (doe - doe div 1460 + doe div 36524 - doe div 146096) div 365;
          doy = doe - (365 * yoe + yoe div 4 - yoe div 100);
          mp = (5 * doy + 2) div 153;
          m = (if mp < 10 then mp + 3 else mp - 9)
      in ((if m \<le> 2 then yoe + era * 400 + 1 else yoe + era * 400), m, doy - (153 * mp + 2) div 5 + 1))"

definition frac_text :: "int \<Rightarrow> string" where
  "frac_text ns =
     (if ns = 0 then []
      else CHR ''.'' # rev (dropWhile (\<lambda>c. c = CHR ''0'') (rev (pad 9 ns))))"

definition formatTS :: "gotime \<Rightarrow> string" where
  "formatTS t =
     (let secs = t div Second; ns = t mod Second; (y, m, d) = civil (secs div 86400); s = secs mod 86400 in
      pad 4 y @ ''-'' @ pad 2 m @ ''-'' @ pad 2 d @ ''T'' @ pad 2 (s div 3600) @ '':'' @
      pad 2 (s div 60 mod 60) @ '':'' @ pad 2 (s mod 60) @ frac_text ns @ ''Z'')"

text \<open>The text order is not the order of time: a whole second sorts after its fractions.\<close>

lemma formatTS_not_monotone:
  "formatTS 1700000000500000000 = ''2023-11-14T22:13:20.5Z''
   \<and> formatTS 1700000000000000000 = ''2023-11-14T22:13:20Z''
   \<and> formatTS 1700000000500000000 < formatTS 1700000000000000000"
proof -
  have a: "formatTS 1700000000500000000 = ''2023-11-14T22:13:20.5Z''" by code_simp
  have b: "formatTS 1700000000000000000 = ''2023-11-14T22:13:20Z''" by code_simp
  have "''2023-11-14T22:13:20.5Z'' < ''2023-11-14T22:13:20Z''" by code_simp
  with a b show ?thesis by simp
qed

section \<open>Rows\<close>

record Org =
  oID :: string
  oName :: string
  oSlug :: string
  oStatus :: string
  oCreatedBy :: string
  oCreatedAt :: gotime
  oRole :: string
  oSystemAccess :: bool

record Member =
  mID :: string
  mOrgID :: string
  mEmail :: string
  mRole :: string
  mInvitedBy :: string
  mCreatedAt :: gotime

record Invitation =
  iID :: string
  iOrgID :: string
  iEmail :: string
  iRole :: string
  iInvitedBy :: string
  iToken :: string
  iStatus :: string
  iExpiresAt :: gotime
  iCreatedAt :: gotime

record Grant =
  gResourceType :: string
  gResourceID :: string
  gSubjectType :: string
  gSubjectID :: string
  gAccess :: string
  gGrantedBy :: string
  gCreatedAt :: gotime

record Repo =
  rpID :: string
  rpOrgID :: string
  rpName :: string
  rpVisibility :: string
  rpOwnerUserID :: string
  rpCreatedAt :: gotime

record Tag =
  tgRepoID :: string
  tgTag :: string
  tgDigest :: string
  tgUpdatedAt :: gotime

record control =
  t_orgs :: "Org list"
  t_members :: "Member list"
  t_invitations :: "Invitation list"
  t_grants :: "Grant list"
  t_repos :: "Repo list"
  t_tags :: "Tag list"
  c_now :: gotime
  c_ids :: nat
  c_rand :: "nat \<Rightarrow> string"
  c_tick :: nat
  c_fault :: fault_plan

datatype store_err = NotFound | SqlErr string

section \<open>Statements\<close>

definition sql :: "control \<Rightarrow> string option \<times> control" where
  "sql db = (c_fault db (c_tick db), db\<lparr>c_tick := Suc (c_tick db)\<rparr>)"

definition query :: "control \<Rightarrow> (control \<Rightarrow> store_err + 'a) \<Rightarrow> (store_err + 'a) \<times> control" where
  "query db f =
     (case sql db of
        (Some e, db') \<Rightarrow> (Inl (SqlErr e), db')
      | (None, db') \<Rightarrow> (f db, db'))"

definition exec :: "control \<Rightarrow> (control \<Rightarrow> control) \<Rightarrow> (store_err + unit) \<times> control" where
  "exec db f =
     (case sql db of
        (Some e, db') \<Rightarrow> (Inl (SqlErr e), db')
      | (None, db') \<Rightarrow> (Inr (), f db'))"

text \<open>An \<^verbatim>\<open>INSERT\<close> into a table with unique indexes: a row that collides is refused.\<close>

definition insert_row :: "control \<Rightarrow> bool \<Rightarrow> (control \<Rightarrow> control) \<Rightarrow> (store_err + unit) \<times> control" where
  "insert_row db collides f =
     (case sql db of
        (Some e, db') \<Rightarrow> (Inl (SqlErr e), db')
      | (None, db') \<Rightarrow> if collides then (Inl (SqlErr ''UNIQUE constraint failed''), db') else (Inr (), f db'))"

text \<open>The statements of a transaction; one that fails rolls everything back.\<close>

fun statements :: "nat \<Rightarrow> control \<Rightarrow> string option \<times> control" where
  "statements 0 db = (None, db)"
| "statements (Suc n) db =
     (case sql db of (Some e, db') \<Rightarrow> (Some e, db') | (None, db') \<Rightarrow> statements n db')"

definition row_option :: "'a option \<Rightarrow> store_err + 'a" where
  "row_option r = (case r of None \<Rightarrow> Inl NotFound | Some x \<Rightarrow> Inr x)"

definition newest_first :: "('a \<Rightarrow> gotime) \<Rightarrow> 'a list \<Rightarrow> 'a list" where
  "newest_first created xs = isort (\<lambda>a b. formatTS (created b) \<le> formatTS (created a)) xs"

definition newID :: "string \<Rightarrow> control \<Rightarrow> string \<times> control" where
  "newID prefix db = (prefix @ c_rand db (c_ids db), db\<lparr>c_ids := Suc (c_ids db)\<rparr>)"

lemmas [store_simps] = sql_def query_def exec_def insert_row_def row_option_def newID_def

definition ctl_healthy :: "control \<Rightarrow> bool" where
  "ctl_healthy db \<longleftrightarrow> c_fault db = no_faults"

text \<open>Reading advances the statement counter and leaves the rest alone.\<close>

definition same_tables :: "control \<Rightarrow> control \<Rightarrow> bool" where
  "same_tables a b \<longleftrightarrow> b = a\<lparr>c_tick := c_tick b\<rparr>"

lemma same_tables_refl [simp]: "same_tables a a"
  by (simp add: same_tables_def)

lemma same_tables_trans [trans]: "same_tables a b \<Longrightarrow> same_tables b c \<Longrightarrow> same_tables a c"
  unfolding same_tables_def by (metis control.surjective control.update_convs(10))

lemma same_tablesD:
  assumes "same_tables a b"
  shows "t_orgs b = t_orgs a" "t_members b = t_members a" "t_grants b = t_grants a" "t_repos b = t_repos a"
    "t_tags b = t_tags a" "t_invitations b = t_invitations a" "c_fault b = c_fault a" "c_rand b = c_rand a"
    "c_ids b = c_ids a" "c_now b = c_now a" "ctl_healthy b = ctl_healthy a"
  using arg_cong [OF assms [unfolded same_tables_def], of t_orgs] arg_cong [OF assms [unfolded same_tables_def], of t_members]
    arg_cong [OF assms [unfolded same_tables_def], of t_grants] arg_cong [OF assms [unfolded same_tables_def], of t_repos]
    arg_cong [OF assms [unfolded same_tables_def], of t_tags] arg_cong [OF assms [unfolded same_tables_def], of t_invitations]
    arg_cong [OF assms [unfolded same_tables_def], of c_fault] arg_cong [OF assms [unfolded same_tables_def], of c_rand]
    arg_cong [OF assms [unfolded same_tables_def], of c_ids] arg_cong [OF assms [unfolded same_tables_def], of c_now]
  by (simp_all add: ctl_healthy_def)

lemma same_tables_tick [simp]: "same_tables a (a\<lparr>c_tick := n\<rparr>)"
  by (simp add: same_tables_def)

lemma query_same_tables: "query db f = (r, db') \<Longrightarrow> same_tables db db'"
  by (auto simp: query_def sql_def split: option.splits)

lemma query_healthy [simp]: "ctl_healthy db \<Longrightarrow> query db f = (f db, db\<lparr>c_tick := Suc (c_tick db)\<rparr>)"
  by (simp add: query_def sql_def ctl_healthy_def)

lemma query_answer: "query db f = (Inr x, db') \<Longrightarrow> f db = Inr x"
  by (auto simp: query_def sql_def split: option.splits)

lemma query_NotFound: "query db f = (Inl NotFound, db') \<Longrightarrow> f db = Inl NotFound"
  by (auto simp: query_def sql_def split: option.splits)

lemma row_option_Inr [simp]: "row_option r = Inr x \<longleftrightarrow> r = Some x"
  by (simp add: row_option_def split: option.splits)

lemma row_option_Inl [simp]: "row_option r = Inl e \<longleftrightarrow> r = None \<and> e = NotFound"
  by (auto simp: row_option_def split: option.splits)

end
