(* ===== verification/Sessions.thy ===== *)
theory Sessions
  imports Manager Control
begin

text \<open>
  Upload sessions of the hosted registry (\<^verbatim>\<open>internal/handler/registry/session.go\<close> and
  \<^verbatim>\<open>shared_session.go\<close>): the interface \<^verbatim>\<open>UploadSessionStore\<close>, the store in the memory and
  temporary files of one process, and the store shared by replicas, which keeps a session as a
  mutable metadata entry and stages its chunks in the blob store.

  Parameters: the digest library of the blob store, SHA-256, the random source, the names of new
  temporary files, and \<^verbatim>\<open>encoding/json\<close> for the state of a shared session. A request body is the
  bytes that arrive and the error that cuts them short, if one does.
\<close>

section \<open>State\<close>

record UploadSession =
  usID :: string
  usRepo :: string
  usPath :: string
  usOffset :: int
  usStartedAt :: gotime

record sharedChunk =
  scKey :: string
  scSize :: int
  scPreExisted :: bool

record sharedState =
  shRepo :: string
  shOffset :: int
  shStartedAt :: gotime
  shUpdatedAt :: gotime
  shChunks :: "sharedChunk list"

text \<open>
  What a request of the registry works on: the stores of the cache, the control database, and the
  sessions and temporary files of the process.
\<close>

record push_state =
  psCache :: cache_state
  psControl :: control
  psMem :: "string \<rightharpoonup> UploadSession"
  psFiles :: "string \<rightharpoonup> bytes"
  psIds :: nat
  psTick :: nat

record push_env =
  peDigest :: digest_lib
  peSha256 :: "bytes \<Rightarrow> bytes"
  peRand :: "nat \<Rightarrow> string"
  peTemp :: "nat \<Rightarrow> string"
  peFault :: fault_plan
  peMarshal :: "sharedState \<Rightarrow> bytes"
  peUnmarshal :: "bytes \<Rightarrow> sharedState option"
  peIdle :: int

type_synonym upload_body = "bytes \<times> string option"

datatype sess_err = SessionNotFound | SessErr string

abbreviation ps_db :: "push_state \<Rightarrow> sqlite" where "ps_db s \<equiv> c_db (psCache s)"
abbreviation ps_disk :: "push_state \<Rightarrow> disk" where "ps_disk s \<equiv> c_disk (psCache s)"

definition on_db :: "(sqlite \<Rightarrow> 'a \<times> sqlite) \<Rightarrow> push_state \<Rightarrow> 'a \<times> push_state" where
  "on_db f s = (case f (ps_db s) of (r, d) \<Rightarrow> (r, s\<lparr>psCache := (psCache s)\<lparr>c_db := d\<rparr>\<rparr>))"

definition on_disk :: "(disk \<Rightarrow> 'a \<times> disk) \<Rightarrow> push_state \<Rightarrow> 'a \<times> push_state" where
  "on_disk f s = (case f (ps_disk s) of (r, d) \<Rightarrow> (r, s\<lparr>psCache := (psCache s)\<lparr>c_disk := d\<rparr>\<rparr>))"

definition os_io :: "push_env \<Rightarrow> push_state \<Rightarrow> string option \<times> push_state" where
  "os_io env s = (peFault env (psTick s), s\<lparr>psTick := Suc (psTick s)\<rparr>)"

definition newUploadID :: "push_env \<Rightarrow> push_state \<Rightarrow> string \<times> push_state" where
  "newUploadID env s = (peRand env (psIds s), s\<lparr>psIds := Suc (psIds s)\<rparr>)"

text \<open>The interface. Reading is \<^verbatim>\<open>Open\<close> and the copy of the stream it returns.\<close>

record sess_ops =
  soCreate :: "string \<Rightarrow> push_state \<Rightarrow> (sess_err + UploadSession) \<times> push_state"
  soGet :: "string \<Rightarrow> push_state \<Rightarrow> (sess_err + UploadSession) \<times> push_state"
  soAppend :: "string \<Rightarrow> upload_body \<Rightarrow> push_state \<Rightarrow> (sess_err + int) \<times> push_state"
  soRead :: "string \<Rightarrow> push_state \<Rightarrow> (sess_err + string + bytes) \<times> push_state"
  soDelete :: "string \<Rightarrow> push_state \<Rightarrow> string option \<times> push_state"
  soComplete :: "string \<Rightarrow> string \<Rightarrow> push_state \<Rightarrow> string option \<times> push_state"

section \<open>The store of one process\<close>

definition mem_Create :: "push_env \<Rightarrow> string \<Rightarrow> push_state \<Rightarrow> (sess_err + UploadSession) \<times> push_state" where
  "mem_Create env repoName s =
     (case os_io env s of
        (Some e, s1) \<Rightarrow> (Inl (SessErr (''registry: create upload temp: '' @ e)), s1)
      | (None, s1) \<Rightarrow>
          (let path = peTemp env (psIds s1) in
           case newUploadID env s1 of
             (i, s2) \<Rightarrow>
               let u = \<lparr>usID = i, usRepo = repoName, usPath = path, usOffset = 0, usStartedAt = db_now (ps_db s)\<rparr> in
               (Inr u, s2\<lparr>psFiles := (psFiles s2)(path \<mapsto> []), psMem := (psMem s2)(i \<mapsto> u)\<rparr>)))"

definition mem_Get :: "string \<Rightarrow> push_state \<Rightarrow> (sess_err + UploadSession) \<times> push_state" where
  "mem_Get i s = (case psMem s i of None \<Rightarrow> (Inl SessionNotFound, s) | Some u \<Rightarrow> (Inr u, s))"

definition mem_Append :: "push_env \<Rightarrow> string \<Rightarrow> upload_body \<Rightarrow> push_state \<Rightarrow> (sess_err + int) \<times> push_state" where
  "mem_Append env i b s =
     (case psMem s i of
        None \<Rightarrow> (Inl SessionNotFound, s)
      | Some u \<Rightarrow>
          (case os_io env s of
             (Some e, s1) \<Rightarrow> (Inl (SessErr (''registry: open upload chunk file: '' @ e)), s1)
           | (None, s1) \<Rightarrow>
               (case psFiles s1 (usPath u) of
                  None \<Rightarrow> (Inl (SessErr ''registry: open upload chunk file: no such file or directory''), s1)
                | Some c \<Rightarrow>
                    (let s2 = s1\<lparr>psFiles := (psFiles s1)(usPath u \<mapsto> c @ fst b)\<rparr> in
                     case snd b of
                       Some e \<Rightarrow> (Inl (SessErr (''registry: append upload chunk: '' @ e)), s2)
                     | None \<Rightarrow>
                         let n = usOffset u + int (length (fst b)) in
                         (Inr n, s2\<lparr>psMem := (psMem s2)(i \<mapsto> u\<lparr>usOffset := n\<rparr>)\<rparr>)))))"

definition mem_Read :: "push_env \<Rightarrow> string \<Rightarrow> push_state \<Rightarrow> (sess_err + string + bytes) \<times> push_state" where
  "mem_Read env i s =
     (case psMem s i of
        None \<Rightarrow> (Inl SessionNotFound, s)
      | Some u \<Rightarrow>
          (case os_io env s of
             (Some e, s1) \<Rightarrow> (Inl (SessErr (''registry: open upload chunk file: '' @ e)), s1)
           | (None, s1) \<Rightarrow>
               (case psFiles s1 (usPath u) of
                  None \<Rightarrow> (Inl (SessErr ''registry: open upload chunk file: no such file or directory''), s1)
                | Some c \<Rightarrow> (case os_io env s1 of (Some e, s2) \<Rightarrow> (Inr (Inl e), s2) | (None, s2) \<Rightarrow> (Inr (Inr c), s2)))))"

definition mem_Delete :: "string \<Rightarrow> push_state \<Rightarrow> string option \<times> push_state" where
  "mem_Delete i s =
     (case psMem s i of
        None \<Rightarrow> (None, s)
      | Some u \<Rightarrow> (None, s\<lparr>psMem := (psMem s)(i := None), psFiles := (psFiles s)(usPath u := None)\<rparr>))"

definition memory_ops :: "push_env \<Rightarrow> sess_ops" where
  "memory_ops env =
     \<lparr>soCreate = mem_Create env, soGet = mem_Get, soAppend = mem_Append env, soRead = mem_Read env,
      soDelete = mem_Delete, soComplete = (\<lambda>i _. mem_Delete i)\<rparr>"

section \<open>The store shared by replicas\<close>

definition uploadStateKey :: "string \<Rightarrow> string" where
  "uploadStateKey i = ''oci-upload:'' @ i"

definition upload_entry :: "push_env \<Rightarrow> string \<Rightarrow> sharedState \<Rightarrow> gotime \<Rightarrow> MutableEntry" where
  "upload_entry env i st now =
     \<lparr>meKey = uploadStateKey i, meProtocol = ''oci'', meDigest = [], mePayload = peMarshal env st, meETag = [],
      meLastModified = [], meTTLSeconds = peIdle env div Second, meUpstream = [], meFetchedAt = now\<rparr>"

definition shared_save :: "push_env \<Rightarrow> string \<Rightarrow> sharedState \<Rightarrow> push_state \<Rightarrow> string option \<times> push_state" where
  "shared_save env i st s =
     (case on_db (\<lambda>d. PutMutable d (upload_entry env i st (db_now d))) s of
        (Inl e, s1) \<Rightarrow> (Some (''registry: save upload session '' @ i @ '': '' @ e), s1)
      | (Inr _, s1) \<Rightarrow> (None, s1))"

definition shared_load :: "push_env \<Rightarrow> string \<Rightarrow> push_state \<Rightarrow> (sess_err + sharedState) \<times> push_state" where
  "shared_load env i s =
     (case on_db (\<lambda>d. GetMutable d (uploadStateKey i)) s of
        (Inl e, s1) \<Rightarrow> (Inl (SessErr (''registry: read upload session '' @ i @ '': '' @ e)), s1)
      | (Inr None, s1) \<Rightarrow> (Inl SessionNotFound, s1)
      | (Inr (Some me), s1) \<Rightarrow>
          (case peUnmarshal env (mePayload me) of
             None \<Rightarrow> (Inl SessionNotFound, s1)
           | Some st \<Rightarrow>
               if 0 < peIdle env \<and> \<not> IsZero (shUpdatedAt st) \<and> peIdle env < db_now (ps_db s1) - shUpdatedAt st
               then (Inl SessionNotFound, s1) else (Inr st, s1)))"

definition shared_Create :: "push_env \<Rightarrow> string \<Rightarrow> push_state \<Rightarrow> (sess_err + UploadSession) \<times> push_state" where
  "shared_Create env repoName s =
     (case newUploadID env s of
        (i, s1) \<Rightarrow>
          let now = db_now (ps_db s1);
              st = \<lparr>shRepo = repoName, shOffset = 0, shStartedAt = now, shUpdatedAt = now, shChunks = []\<rparr> in
          (case shared_save env i st s1 of
             (Some e, s2) \<Rightarrow> (Inl (SessErr e), s2)
           | (None, s2) \<Rightarrow>
               (Inr \<lparr>usID = i, usRepo = repoName, usPath = [], usOffset = 0, usStartedAt = now\<rparr>, s2)))"

definition shared_Get :: "push_env \<Rightarrow> string \<Rightarrow> push_state \<Rightarrow> (sess_err + UploadSession) \<times> push_state" where
  "shared_Get env i s =
     (case shared_load env i s of
        (Inl e, s1) \<Rightarrow> (Inl e, s1)
      | (Inr st, s1) \<Rightarrow>
          (Inr \<lparr>usID = i, usRepo = shRepo st, usPath = [], usOffset = shOffset st, usStartedAt = shStartedAt st\<rparr>, s1))"

definition chunk_key :: "push_env \<Rightarrow> bytes \<Rightarrow> string" where
  "chunk_key env b = ''sha256:'' @ hex_EncodeToString (peSha256 env b)"

text \<open>
  The chunk is spooled to a temporary file (create, copy, rewind), staged under its own digest, and
  only then recorded in the session. A chunk whose presence cannot be told counts as foreign.
\<close>

definition stage_chunk :: "push_env \<Rightarrow> string \<Rightarrow> sharedState \<Rightarrow> bytes \<Rightarrow> push_state \<Rightarrow> (sess_err + int) \<times> push_state" where
  "stage_chunk env i st b s =
     (let key = chunk_key env b in
      case on_disk (\<lambda>d. blob_Exists d key) s of
        (ex, s1) \<Rightarrow>
          let pre = (case ex of Inl _ \<Rightarrow> True | Inr x \<Rightarrow> x) in
          (case on_disk (\<lambda>d. blob_Put (peDigest env) d key b (int (length b))) s1 of
             (Inl e, s2) \<Rightarrow> (Inl (SessErr (''registry: stage chunk '' @ key @ '': '' @ blob_err_Error e)), s2)
           | (Inr _, s2) \<Rightarrow>
               let st2 = st\<lparr>shChunks := shChunks st @ [\<lparr>scKey = key, scSize = int (length b), scPreExisted = pre\<rparr>],
                            shOffset := shOffset st + int (length b), shUpdatedAt := db_now (ps_db s2)\<rparr> in
               (case shared_save env i st2 s2 of
                  (Some e, s3) \<Rightarrow> (Inl (SessErr e), s3)
                | (None, s3) \<Rightarrow> (Inr (shOffset st2), s3))))"

definition shared_Append :: "push_env \<Rightarrow> string \<Rightarrow> upload_body \<Rightarrow> push_state \<Rightarrow> (sess_err + int) \<times> push_state" where
  "shared_Append env i b s =
     (case shared_load env i s of
        (Inl e, s1) \<Rightarrow> (Inl e, s1)
      | (Inr st, s1) \<Rightarrow>
          (case os_io env s1 of
             (Some e, s2) \<Rightarrow> (Inl (SessErr (''registry: create chunk spool: '' @ e)), s2)
           | (None, s2) \<Rightarrow>
               (case (case snd b of Some e \<Rightarrow> (Some e, s2) | None \<Rightarrow> os_io env s2) of
                  (Some e, s3) \<Rightarrow> (Inl (SessErr (''registry: spool chunk: '' @ e)), s3)
                | (None, s3) \<Rightarrow>
                    if fst b = [] then (Inr (shOffset st), s3)
                    else
                      (case os_io env s3 of
                         (Some e, s4) \<Rightarrow> (Inl (SessErr (''registry: rewind chunk spool: '' @ e)), s4)
                       | (None, s4) \<Rightarrow> stage_chunk env i st (fst b) s4))))"

text \<open>The chunk reader opens one chunk after the other.\<close>

fun read_chunks :: "string list \<Rightarrow> push_state \<Rightarrow> (string + bytes) \<times> push_state" where
  "read_chunks [] s = (Inr [], s)"
| "read_chunks (k # ks) s =
     (case on_disk (\<lambda>d. blob_Get d k 0 (-1)) s of
        (Inl e, s1) \<Rightarrow> (Inl (''registry: read staged chunk '' @ k @ '': '' @ blob_err_Error e), s1)
      | (Inr (c, _), s1) \<Rightarrow>
          (case read_chunks ks s1 of (Inl e, s2) \<Rightarrow> (Inl e, s2) | (Inr cs, s2) \<Rightarrow> (Inr (c @ cs), s2)))"

definition shared_Read :: "push_env \<Rightarrow> string \<Rightarrow> push_state \<Rightarrow> (sess_err + string + bytes) \<times> push_state" where
  "shared_Read env i s =
     (case shared_load env i s of
        (Inl e, s1) \<Rightarrow> (Inl e, s1)
      | (Inr st, s1) \<Rightarrow> (case read_chunks (map scKey (shChunks st)) s1 of (r, s2) \<Rightarrow> (Inr r, s2)))"

fun drop_chunks :: "string \<Rightarrow> sharedChunk list \<Rightarrow> push_state \<Rightarrow> push_state" where
  "drop_chunks keep [] s = s"
| "drop_chunks keep (c # cs) s =
     drop_chunks keep cs
       (if scKey c = keep \<or> scPreExisted c then s else snd (on_disk (\<lambda>d. blob_Delete d (scKey c)) s))"

definition discard :: "push_env \<Rightarrow> string \<Rightarrow> string \<Rightarrow> push_state \<Rightarrow> string option \<times> push_state" where
  "discard env i keepDigest s =
     (case shared_load env i s of
        (Inl SessionNotFound, s1) \<Rightarrow> (None, s1)
      | (Inl (SessErr e), s1) \<Rightarrow> (Some e, s1)
      | (Inr st, s1) \<Rightarrow>
          (case on_db (\<lambda>d. DeleteMutable d (uploadStateKey i)) (drop_chunks keepDigest (shChunks st) s1) of
             (Inl e, s2) \<Rightarrow> (Some (''registry: delete upload session '' @ i @ '': '' @ e), s2)
           | (Inr _, s2) \<Rightarrow> (None, s2)))"

definition shared_ops :: "push_env \<Rightarrow> sess_ops" where
  "shared_ops env =
     \<lparr>soCreate = shared_Create env, soGet = shared_Get env, soAppend = shared_Append env, soRead = shared_Read env,
      soDelete = (\<lambda>i. discard env i []), soComplete = (\<lambda>i. discard env i)\<rparr>"

section \<open>What a client of the sessions relies on\<close>

definition keeps :: "push_state \<Rightarrow> push_state \<Rightarrow> bool" where
  "keeps s s' \<longleftrightarrow> psControl s' = psControl s \<and> cache_entries (ps_db s') = cache_entries (ps_db s)"

lemma keeps_refl [simp]: "keeps s s"
  by (simp add: keeps_def)

lemma keeps_trans: "keeps a b \<Longrightarrow> keeps b c \<Longrightarrow> keeps a c"
  by (simp add: keeps_def)

text \<open>The chunks of an upload, in order.\<close>

fun append_all :: "sess_ops \<Rightarrow> string \<Rightarrow> bytes list \<Rightarrow> push_state \<Rightarrow> push_state" where
  "append_all ops i [] s = s"
| "append_all ops i (b # bs) s = append_all ops i bs (snd (soAppend ops i (b, None) s))"

text \<open>
  A session is the repository it was opened for and the bytes received so far. Discarding one is
  guaranteed to leave the others alone only where the store says that they do not clash.
\<close>

locale upload_sessions =
  fixes ops :: sess_ops
    and ok :: "push_state \<Rightarrow> bool"
    and view :: "push_state \<Rightarrow> string \<Rightarrow> (string \<times> bytes) option"
    and clash :: "push_state \<Rightarrow> string \<Rightarrow> string \<Rightarrow> bool"
  assumes create: "ok s \<Longrightarrow> soCreate ops repo s = (r, s') \<Longrightarrow>
      \<exists>u. r = Inr u \<and> usRepo u = repo \<and> usOffset u = 0 \<and> ok s' \<and> view s' = (view s)(usID u \<mapsto> (repo, [])) \<and> keeps s s'"
    and get: "ok s \<Longrightarrow> soGet ops i s = (r, s') \<Longrightarrow> ok s' \<and> view s' = view s \<and> keeps s s' \<and>
      (case view s i of None \<Rightarrow> r = Inl SessionNotFound
       | Some (repo, c) \<Rightarrow> \<exists>u. r = Inr u \<and> usRepo u = repo \<and> usOffset u = int (length c))"
    and append: "ok s \<Longrightarrow> view s i = Some (repo, c) \<Longrightarrow> soAppend ops i (b, None) s = (n, s') \<Longrightarrow>
      n = Inr (int (length (c @ b))) \<and> ok s' \<and> view s' = (view s)(i \<mapsto> (repo, c @ b)) \<and> keeps s s'"
    and read: "ok s \<Longrightarrow> view s i = Some (repo, c) \<Longrightarrow> soRead ops i s = (q, s') \<Longrightarrow>
      q = Inr (Inr c) \<and> ok s' \<and> view s' = view s \<and> keeps s s'"
    and delete: "ok s \<Longrightarrow> (\<And>j. j \<noteq> i \<Longrightarrow> view s j \<noteq> None \<Longrightarrow> \<not> clash s i j) \<Longrightarrow> soDelete ops i s = (e, s') \<Longrightarrow>
      e = None \<and> ok s' \<and> view s' = (view s)(i := None) \<and> keeps s s'"
begin

lemma append_all_view:
  assumes "ok s" and "view s i = Some (repo, c)"
  shows "ok (append_all ops i bs s) \<and> view (append_all ops i bs s) = (view s)(i \<mapsto> (repo, c @ concat bs)) \<and> keeps s (append_all ops i bs s)"
  using assms
proof (induction bs arbitrary: s c)
  case (Cons b bs)
  obtain r s1 where a: "soAppend ops i (b, None) s = (r, s1)" by fastforce
  from append [OF Cons.prems a] have "ok s1" "view s1 = (view s)(i \<mapsto> (repo, c @ b))" "keeps s s1" by auto
  with Cons.IH [of s1 "c @ b"] a show ?case by (auto intro: keeps_trans)
qed (simp add: map_upd_triv)

text \<open>Whatever chunks an upload arrives in, what is read back is their concatenation.\<close>

lemma upload_content:
  assumes "ok s" and "soCreate ops repo s = (r, s1)"
  shows "\<exists>u. r = Inr u \<and> fst (soRead ops (usID u) (append_all ops (usID u) bs s1)) = Inr (Inr (concat bs))"
proof -
  obtain u where u: "r = Inr u" "ok s1" "view s1 (usID u) = Some (repo, [])" using create [OF assms] by auto
  with append_all_view [OF u(2,3)] have "ok (append_all ops (usID u) bs s1)"
    "view (append_all ops (usID u) bs s1) (usID u) = Some (repo, concat bs)" by auto
  then show ?thesis using read u(1) by (metis fst_conv prod.collapse)
qed

end

section \<open>The store of one process keeps the contract\<close>

definition mem_view :: "push_state \<Rightarrow> string \<Rightarrow> (string \<times> bytes) option" where
  "mem_view s i = map_option (\<lambda>u. (usRepo u, the (psFiles s (usPath u)))) (psMem s i)"

definition mem_ok :: "push_env \<Rightarrow> push_state \<Rightarrow> bool" where
  "mem_ok env s \<longleftrightarrow>
     peFault env = no_faults \<and> inj (peTemp env) \<and> (\<forall>n \<ge> psIds s. psFiles s (peTemp env n) = None)
     \<and> (\<forall>i u. psMem s i = Some u \<longrightarrow> (\<exists>c. psFiles s (usPath u) = Some c \<and> usOffset u = int (length c)))
     \<and> (\<forall>i j u v. psMem s i = Some u \<longrightarrow> psMem s j = Some v \<longrightarrow> usPath u = usPath v \<longrightarrow> i = j)"

lemma mem_okD:
  assumes "mem_ok env s"
  shows "os_io env s = (None, s\<lparr>psTick := Suc (psTick s)\<rparr>)" and "psFiles s (peTemp env (psIds s)) = None"
    and "psMem s i = Some u \<Longrightarrow> \<exists>c. psFiles s (usPath u) = Some c \<and> usOffset u = int (length c)"
    and "psMem s i = Some u \<Longrightarrow> psMem s j = Some v \<Longrightarrow> usPath u = usPath v \<Longrightarrow> i = j"
  using assms by (auto simp: mem_ok_def os_io_def no_faults_def)

lemma mem_view_Some:
  assumes "mem_ok env s" and "mem_view s i = Some (repo, c)"
  shows "\<exists>u. psMem s i = Some u \<and> usRepo u = repo \<and> psFiles s (usPath u) = Some c \<and> usOffset u = int (length c)"
  using assms mem_okD(3) [OF assms(1), of i] by (auto simp: mem_view_def)

interpretation mem: upload_sessions "memory_ops env" "mem_ok env" mem_view "\<lambda>_ _ _. False" for env
proof (unfold_locales, goal_cases)
  case (1 s repo r s')
  let ?p = "peTemp env (psIds s)" and ?i = "peRand env (psIds s)"
  have other: "usPath u \<noteq> ?p" if "psMem s j = Some u" for j u
    using mem_okD(2) [OF 1(1)] mem_okD(3) [OF 1(1) that] by auto
  define u where "u = \<lparr>usID = ?i, usRepo = repo, usPath = ?p, usOffset = 0, usStartedAt = db_now (ps_db s)\<rparr>"
  define t where "t = s\<lparr>psTick := Suc (psTick s), psIds := Suc (psIds s), psFiles := (psFiles s)(?p \<mapsto> []), psMem := (psMem s)(?i \<mapsto> u)\<rparr>"
  have out: "r = Inr u" "s' = t"
    using 1(2) mem_okD(1) [OF 1(1)] by (simp_all add: memory_ops_def mem_Create_def newUploadID_def Let_def u_def t_def)
  have new: "peTemp env n \<noteq> ?p" if "psIds s < n" for n
    using 1(1) that injD [of "peTemp env" n "psIds s"] by (auto simp: mem_ok_def)
  have "mem_ok env t"
    unfolding mem_ok_def
  proof (intro conjI allI impI)
    fix j k v w assume "psMem t j = Some v" "psMem t k = Some w" "usPath v = usPath w"
    then show "j = k"
      using other mem_okD(4) [OF 1(1), of j v k w] by (auto simp: t_def u_def split: if_splits) force+
  next
    fix j v assume "psMem t j = Some v"
    then show "\<exists>c. psFiles t (usPath v) = Some c \<and> usOffset v = int (length c)"
      using other [of j v] mem_okD(3) [OF 1(1), of j v] by (auto simp: t_def u_def split: if_splits)
  qed (use 1(1) new in \<open>auto simp: mem_ok_def t_def\<close>)
  moreover have "mem_view t = (mem_view s)(?i \<mapsto> (repo, []))"
    using other by (auto simp: mem_view_def t_def u_def fun_eq_iff intro!: option.map_cong)
  ultimately show ?case using out by (auto simp: u_def t_def keeps_def)
next
  case (2 s i r s')
  then show ?case
    using mem_okD(3) [OF 2(1)] by (auto simp: memory_ops_def mem_Get_def mem_view_def split: option.splits) force
next
  case (3 s i repo c b r s')
  then obtain u where u: "psMem s i = Some u" "usRepo u = repo" "psFiles s (usPath u) = Some c" "usOffset u = int (length c)"
    using mem_view_Some [OF 3(1,2)] by blast
  have other: "usPath v \<noteq> usPath u" if "psMem s j = Some v" "j \<noteq> i" for j v
    using mem_okD(4) [OF 3(1) that(1) u(1)] that(2) by auto
  define v where "v = u\<lparr>usOffset := int (length (c @ b))\<rparr>"
  define t where "t = s\<lparr>psTick := Suc (psTick s), psFiles := (psFiles s)(usPath u \<mapsto> c @ b), psMem := (psMem s)(i \<mapsto> v)\<rparr>"
  have out: "r = Inr (int (length (c @ b)))" "s' = t"
    using 3(3) mem_okD(1) [OF 3(1)] u by (auto simp: memory_ops_def mem_Append_def Let_def v_def t_def)
  have "mem_ok env t"
    unfolding mem_ok_def
  proof (intro conjI allI impI)
    fix j k x y assume "psMem t j = Some x" "psMem t k = Some y" "usPath x = usPath y"
    then show "j = k"
      using other mem_okD(4) [OF 3(1), of j x k y] u(1) by (auto simp: t_def v_def split: if_splits) force+
  next
    fix j x assume "psMem t j = Some x"
    then show "\<exists>c. psFiles t (usPath x) = Some c \<and> usOffset x = int (length c)"
      using other [of j x] mem_okD(3) [OF 3(1), of j x] by (auto simp: t_def v_def split: if_splits)
  next
    fix n assume "psIds t \<le> n"
    then show "psFiles t (peTemp env n) = None" using 3(1) u(3) by (auto simp: t_def mem_ok_def)
  qed (use 3(1) in \<open>auto simp: mem_ok_def\<close>)
  moreover have "mem_view t = (mem_view s)(i \<mapsto> (repo, c @ b))"
    using other u(2) by (auto simp: mem_view_def t_def v_def fun_eq_iff intro!: option.map_cong)
  ultimately show ?case using out by (auto simp: t_def keeps_def)
next
  case (4 s i repo c r s')
  then obtain u where u: "psMem s i = Some u" "usRepo u = repo" "psFiles s (usPath u) = Some c"
    using mem_view_Some [OF 4(1,2)] by blast
  then show ?case
    using 4 by (auto simp: memory_ops_def mem_Read_def mem_ok_def mem_view_def keeps_def os_io_def no_faults_def fun_eq_iff)
next
  case (5 s i r s')
  have other: "usPath v \<noteq> usPath u" if "psMem s j = Some v" "psMem s i = Some u" "j \<noteq> i" for j v u
    using mem_okD(4) [OF 5(1) that(1,2)] that(3) by auto
  show ?case
    using 5 other
    by (auto simp: memory_ops_def mem_Delete_def mem_ok_def mem_view_def keeps_def fun_eq_iff
        split: option.splits if_splits intro!: option.map_cong)
qed

text \<open>
  A chunk that breaks off stays in the file while the session keeps its old offset, so what the
  client sends again from there lies behind it.
\<close>

lemma broken_chunk_stays:
  assumes "mem_ok env s" and "psMem s i = Some u" and "psFiles s (usPath u) = Some c"
  shows "\<exists>s1 s2. soAppend (memory_ops env) i (b, Some e) s = (Inl (SessErr (''registry: append upload chunk: '' @ e)), s1)
     \<and> fst (soGet (memory_ops env) i s1) = Inr u
     \<and> soAppend (memory_ops env) i (b, None) s1 = (Inr (usOffset u + int (length b)), s2) \<and> psFiles s2 (usPath u) = Some (c @ b @ b)"
  using assms by (simp add: memory_ops_def mem_Append_def mem_Get_def os_io_def mem_ok_def no_faults_def Let_def)

section \<open>The shared store keeps the contract\<close>

definition chunk_at :: "push_state \<Rightarrow> string \<Rightarrow> bytes option" where
  "chunk_at s key = (case blobPath (ps_disk s) key of Inl _ \<Rightarrow> None | Inr p \<Rightarrow> blob_files (ps_disk s) p)"

definition shared_state :: "push_env \<Rightarrow> push_state \<Rightarrow> string \<Rightarrow> sharedState option" where
  "shared_state env s i =
     (case mutable_entries (ps_db s) (uploadStateKey i) of
        None \<Rightarrow> None
      | Some me \<Rightarrow>
          (case peUnmarshal env (mePayload me) of
             None \<Rightarrow> None
           | Some st \<Rightarrow>
               if 0 < peIdle env \<and> \<not> IsZero (shUpdatedAt st) \<and> peIdle env < db_now (ps_db s) - shUpdatedAt st
               then None else Some st))"

definition shared_content :: "push_state \<Rightarrow> sharedState \<Rightarrow> bytes" where
  "shared_content s st = concat (map (\<lambda>c. the (chunk_at s (scKey c))) (shChunks st))"

definition shared_view :: "push_env \<Rightarrow> push_state \<Rightarrow> string \<Rightarrow> (string \<times> bytes) option" where
  "shared_view env s i = map_option (\<lambda>st. (shRepo st, shared_content s st)) (shared_state env s i)"

text \<open>
  The libraries as documented: JSON reads back what it wrote, and the digest library hashes a
  \<^verbatim>\<open>sha256:\<close> digest with SHA-256, which is taken to be free of collisions.
\<close>

definition documented_libs :: "push_env \<Rightarrow> bool" where
  "documented_libs env \<longleftrightarrow>
     (\<forall>st. peUnmarshal env (peMarshal env st) = Some st)
     \<and> inj (peSha256 env) \<and> (\<forall>b. peSha256 env b \<noteq> [])
     \<and> (\<forall>b. dg_valid (peDigest env) (chunk_key env b))
     \<and> (\<forall>b c. dg_hex (peDigest env) (chunk_key env b) c = hex_EncodeToString (peSha256 env c))"

text \<open>Healthy stores in which a staged blob is what its key says.\<close>

definition stores_ok :: "push_env \<Rightarrow> push_state \<Rightarrow> bool" where
  "stores_ok env s \<longleftrightarrow>
     documented_libs env \<and> db_healthy (ps_db s) \<and> disk_healthy (ps_disk s)
     \<and> (\<forall>b c. chunk_at s (chunk_key env b) = Some c \<longrightarrow> c = b)"

definition staged_keys :: "push_env \<Rightarrow> sharedState \<Rightarrow> bool" where
  "staged_keys env st \<longleftrightarrow> (\<forall>c \<in> set (shChunks st). \<exists>b. scKey c = chunk_key env b)"

text \<open>The sessions are made of staged chunks and know how long they are.\<close>

definition shared_ok :: "push_env \<Rightarrow> push_state \<Rightarrow> bool" where
  "shared_ok env s \<longleftrightarrow>
     documented_libs env \<and> peFault env = no_faults \<and> db_healthy (ps_db s) \<and> disk_healthy (ps_disk s) \<and> 0 \<le> peIdle env
     \<and> (\<forall>b c. chunk_at s (chunk_key env b) = Some c \<longrightarrow> c = b)
     \<and> (\<forall>i st. shared_state env s i = Some st \<longrightarrow> staged_keys env st \<and>
          (\<forall>c \<in> set (shChunks st). chunk_at s (scKey c) \<noteq> None) \<and> shOffset st = int (length (shared_content s st)))"

text \<open>Two sessions clash when one of them would remove a chunk the other one is made of.\<close>

definition shared_clash :: "push_env \<Rightarrow> push_state \<Rightarrow> string \<Rightarrow> string \<Rightarrow> bool" where
  "shared_clash env s i j \<longleftrightarrow>
     (case (shared_state env s i, shared_state env s j) of
        (Some a, Some b) \<Rightarrow>
          list_ex (\<lambda>c. \<not> scPreExisted c \<and> list_ex (\<lambda>d. blobPath (ps_disk s) (scKey c) = blobPath (ps_disk s) (scKey d)) (shChunks b))
            (shChunks a)
      | _ \<Rightarrow> False)"

lemma hex_digit_inj: "i < 16 \<Longrightarrow> j < 16 \<Longrightarrow> hex_digit i = hex_digit j \<Longrightarrow> i = j"
proof -
  have "\<forall>i \<in> {..<16::nat}. \<forall>j \<in> {..<16}. hex_digit i = hex_digit j \<longrightarrow> i = j" by code_simp
  then show "i < 16 \<Longrightarrow> j < 16 \<Longrightarrow> hex_digit i = hex_digit j \<Longrightarrow> i = j" by blast
qed

lemma hex_inj: "hex_EncodeToString a = hex_EncodeToString b \<Longrightarrow> a = b"
proof (induction a arbitrary: b)
  case Nil
  then show ?case by (cases b) (auto simp: hex_EncodeToString_def)
next
  case (Cons x a)
  then obtain y b' where b: "b = y # b'" by (cases b) (auto simp: hex_EncodeToString_def)
  have "(of_char x :: nat) < 256" "(of_char y :: nat) < 256" by (rule of_char_bound)+
  then have lt: "(of_char x :: nat) div 16 < 16" "(of_char y :: nat) div 16 < 16" by (simp_all add: div16_less)
  have "hex_digit (of_char x div 16) = hex_digit (of_char y div 16)" "hex_digit (of_char x mod 16) = hex_digit (of_char y mod 16)"
    and rest: "hex_EncodeToString a = hex_EncodeToString b'"
    using Cons.prems b by (auto simp: hex_EncodeToString_def)
  then have "(of_char x :: nat) div 16 = of_char y div 16" "(of_char x :: nat) mod 16 = of_char y mod 16"
    using lt hex_digit_inj [of "of_char x mod 16" "of_char y mod 16"] by (auto dest: hex_digit_inj)
  then have "(of_char x :: nat) = of_char y" by (metis div_mult_mod_eq)
  then have "x = y" by (simp add: of_char_eq_iff)
  with Cons.IH [OF rest] b show ?case by simp
qed

lemma chunk_path:
  assumes "documented_libs env"
  shows "\<exists>p. blobPath d (chunk_key env b) = Inr p \<and> last p = hex_EncodeToString (peSha256 env b)"
proof -
  have "2 \<le> length (hex_EncodeToString (peSha256 env b))"
    using assms by (cases "peSha256 env b") (auto simp: documented_libs_def hex_EncodeToString_def)
  then show ?thesis by (simp add: blobPath_def hexDigest_def chunk_key_def Let_def)
qed

lemma chunk_path_inj:
  assumes "documented_libs env" and "blobPath d (chunk_key env a) = blobPath d (chunk_key env b)"
  shows "a = b"
proof -
  have "peSha256 env a = peSha256 env b"
    using chunk_path [OF assms(1), of d a] chunk_path [OF assms(1), of d b] assms(2) by (auto intro: hex_inj)
  then show ?thesis using assms(1) by (auto simp: documented_libs_def dest: injD)
qed

text \<open>States that differ in clocks and counters only.\<close>

definition same_stores :: "push_state \<Rightarrow> push_state \<Rightarrow> bool" where
  "same_stores s s' \<longleftrightarrow>
     mutable_entries (ps_db s') = mutable_entries (ps_db s) \<and> cache_entries (ps_db s') = cache_entries (ps_db s)
     \<and> db_now (ps_db s') = db_now (ps_db s) \<and> db_fault (ps_db s') = db_fault (ps_db s)
     \<and> blob_files (ps_disk s') = blob_files (ps_disk s) \<and> disk_root (ps_disk s') = disk_root (ps_disk s)
     \<and> disk_fault (ps_disk s') = disk_fault (ps_disk s) \<and> psControl s' = psControl s"

lemma same_stores_refl [simp]: "same_stores s s"
  by (simp add: same_stores_def)

lemma same_stores_trans: "same_stores a b \<Longrightarrow> same_stores b c \<Longrightarrow> same_stores a c"
  by (simp add: same_stores_def)

lemma same_stores_frame:
  assumes "same_stores s s'"
  shows "shared_state env s' = shared_state env s" and "chunk_at s' = chunk_at s" and "shared_view env s' = shared_view env s"
    and "shared_ok env s' \<longleftrightarrow> shared_ok env s" and "keeps s s'"
proof -
  have p: "blobPath (ps_disk s') k = blobPath (ps_disk s) k" for k
    using assms by (simp add: same_stores_def blobPath_def split: sum.splits)
  show st: "shared_state env s' = shared_state env s" for env
    using assms by (intro ext) (simp add: same_stores_def shared_state_def cong: option.case_cong)
  show ch: "chunk_at s' = chunk_at s" using assms p by (intro ext) (simp add: same_stores_def chunk_at_def split: sum.splits)
  have c: "shared_content s' = shared_content s" by (simp add: shared_content_def ch fun_eq_iff)
  show "shared_view env s' = shared_view env s" by (simp add: shared_view_def st c fun_eq_iff)
  show "shared_ok env s' \<longleftrightarrow> shared_ok env s"
    using assms by (simp add: shared_ok_def st ch c db_healthy_def disk_healthy_def same_stores_def)
  show "keeps s s'" using assms by (simp add: keeps_def same_stores_def)
qed

lemma os_io_same: "os_io env s = (r, s') \<Longrightarrow> same_stores s s'"
  by (auto simp: os_io_def same_stores_def)

lemma on_disk_same:
  "(\<And>d. blob_files (snd (f d)) = blob_files d \<and> disk_root (snd (f d)) = disk_root d \<and> disk_fault (snd (f d)) = disk_fault d) \<Longrightarrow>
     on_disk f s = (r, s') \<Longrightarrow> same_stores s s'"
  by (auto simp: on_disk_def same_stores_def split: prod.splits) (metis snd_conv)+

lemma shared_load_ok:
  assumes "shared_ok env s"
  shows "\<exists>s'. shared_load env i s = (case shared_state env s i of None \<Rightarrow> Inl SessionNotFound | Some st \<Rightarrow> Inr st, s') \<and> same_stores s s'"
  using assms
  by (auto simp: shared_load_def shared_state_def on_db_def GetMutable_def db_io_def shared_ok_def db_healthy_def no_faults_def
      same_stores_def split: option.splits)

lemma read_chunks_ok:
  assumes "disk_healthy (ps_disk s)" and "\<forall>k \<in> set ks. chunk_at s k \<noteq> None"
  shows "\<exists>s'. read_chunks ks s = (Inr (concat (map (\<lambda>k. the (chunk_at s k)) ks)), s') \<and> same_stores s s'"
  using assms
proof (induction ks arbitrary: s)
  case (Cons k ks)
  then obtain p c where p: "blobPath (ps_disk s) k = Inr p" "blob_files (ps_disk s) p = Some c"
    by (auto simp: chunk_at_def split: sum.splits)
  obtain q s1 where q: "on_disk (\<lambda>d. blob_Get d k 0 (-1)) s = (q, s1)" by fastforce
  have "fst (blob_Get (ps_disk s) k 0 (-1)) = Inr (range_read c 0 (-1), int (length c))"
    using blob_Get_healthy [OF Cons.prems(1) p] .
  then have q1: "q = Inr (c, int (length c))" using q by (auto simp: on_disk_def range_read_def split: prod.splits)
  have same: "same_stores s s1" by (rule on_disk_same [OF _ q]) simp
  then have "disk_healthy (ps_disk s1)" "\<forall>k \<in> set ks. chunk_at s1 k \<noteq> None"
    using Cons.prems same_stores_frame(2) [OF same] by (auto simp: disk_healthy_def same_stores_def)
  from Cons.IH [OF this] obtain s2 where
    "read_chunks ks s1 = (Inr (concat (map (\<lambda>k. the (chunk_at s1 k)) ks)), s2)" "same_stores s1 s2" by blast
  then show ?case
    using q q1 p same same_stores_frame(2) [OF same] same_stores_trans by (auto simp: chunk_at_def)
qed simp

lemma chunk_at_cong: "ps_disk s' = ps_disk s \<Longrightarrow> chunk_at s' = chunk_at s"
  by (intro ext) (simp add: chunk_at_def split: sum.splits)

lemma shared_state_cong: "ps_db s' = ps_db s \<Longrightarrow> shared_state env s' = shared_state env s"
  by (intro ext) (simp add: shared_state_def cong: option.case_cong)

lemma shared_save_ok:
  assumes "shared_ok env s" and "shUpdatedAt st = db_now (ps_db s)" and "staged_keys env st"
    and "\<forall>c \<in> set (shChunks st). chunk_at s (scKey c) \<noteq> None" and "shOffset st = int (length (shared_content s st))"
  shows "\<exists>s'. shared_save env i st s = (None, s') \<and> shared_ok env s' \<and> keeps s s'
     \<and> shared_view env s' = (shared_view env s)(i \<mapsto> (shRepo st, shared_content s st))"
proof -
  obtain r s' where save: "shared_save env i st s = (r, s')" by fastforce
  define me where "me = stored_mutable (db_now (ps_db s)) (upload_entry env i st (db_now (ps_db s)))"
  have me: "mePayload me = peMarshal env st" by (simp add: me_def stored_mutable_def upload_entry_def)
  have out: "r = None" "s' = s\<lparr>psCache := (psCache s)\<lparr>c_db := (ps_db s)\<lparr>db_tick := Suc (db_tick (ps_db s)),
      mutable_entries := (mutable_entries (ps_db s))(uploadStateKey i \<mapsto> me)\<rparr>\<rparr>\<rparr>"
    using save assms(1)
    by (auto simp: shared_save_def on_db_def PutMutable_def db_io_def shared_ok_def db_healthy_def no_faults_def me_def
        upload_entry_def)
  then have r: "r = None" and disk: "ps_disk s' = ps_disk s" and k: "keeps s s'" and now: "db_now (ps_db s') = db_now (ps_db s)"
    and h: "db_healthy (ps_db s')" and m: "mutable_entries (ps_db s') = (mutable_entries (ps_db s))(uploadStateKey i \<mapsto> me)"
    using assms(1) by (simp_all add: keeps_def shared_ok_def db_healthy_def)
  have ch: "chunk_at s' = chunk_at s" using disk by (rule chunk_at_cong)
  have c: "shared_content s' = shared_content s" by (simp add: shared_content_def ch fun_eq_iff)
  have st: "shared_state env s' = (shared_state env s)(i \<mapsto> st)"
    using assms(1,2) now
    by (auto simp: shared_state_def m me fun_eq_iff uploadStateKey_def shared_ok_def documented_libs_def cong: option.case_cong)
  have "shared_ok env s'"
    using assms h by (auto simp: shared_ok_def disk ch c st split: if_splits)
  moreover have "shared_view env s' = (shared_view env s)(i \<mapsto> (shRepo st, shared_content s st))"
    by (simp add: shared_view_def st c fun_eq_iff)
  ultimately show ?thesis using save r k by blast
qed

lemma shared_stores: "shared_ok env s \<Longrightarrow> stores_ok env s"
  by (simp add: shared_ok_def stores_ok_def)

lemma put_blob_ok:
  assumes "stores_ok env s"
  shows "\<exists>s'. on_disk (\<lambda>d. blob_Put (peDigest env) d (chunk_key env b) b (int (length b))) s = (Inr (), s')
     \<and> stores_ok env s' \<and> ps_db s' = ps_db s \<and> psControl s' = psControl s
     \<and> chunk_at s' (chunk_key env b) = Some b \<and> chunk_at s \<subseteq>\<^sub>m chunk_at s'
     \<and> (\<exists>d. s' = s\<lparr>psCache := (psCache s)\<lparr>c_disk := d\<rparr>\<rparr>)"
proof -
  obtain r s' where put: "on_disk (\<lambda>d. blob_Put (peDigest env) d (chunk_key env b) b (int (length b))) s = (r, s')" by fastforce
  define d' where "d' = snd (blob_Put (peDigest env) (ps_disk s) (chunk_key env b) b (int (length b)))"
  have libs: "documented_libs env" and healthy: "disk_healthy (ps_disk s)" using assms by (auto simp: stores_ok_def)
  obtain p where p: "blobPath (ps_disk s) (chunk_key env b) = Inr p" "last p = hex_EncodeToString (peSha256 env b)"
    using chunk_path [OF libs] by blast
  have ok: "fst (blob_Put (peDigest env) (ps_disk s) (chunk_key env b) b (int (length b))) = Inr ()"
    using libs p by (intro blob_Put_healthy [OF healthy p(1)]) (auto simp: documented_libs_def)
  have s': "r = Inr ()" "ps_disk s' = d'" "ps_db s' = ps_db s" "psControl s' = psControl s"
    "s' = s\<lparr>psCache := (psCache s)\<lparr>c_disk := d'\<rparr>\<rparr>"
    using put ok by (auto simp: on_disk_def d'_def split: prod.splits)
  have path: "blobPath d' k = blobPath (ps_disk s) k" for k by (simp add: blobPath_def d'_def split: sum.splits)
  have old: "c = b" if "blob_files (ps_disk s) p = Some c" for c
    using assms p(1) that by (auto simp: stores_ok_def chunk_at_def)
  have "blob_files d' p \<noteq> None" using blob_Put_ok [OF ok] p(1) by (auto simp: d'_def)
  then have files: "blob_files d' = (blob_files (ps_disk s))(p \<mapsto> b)"
    using blob_Put_files [of "peDigest env" "ps_disk s" "chunk_key env b" b "int (length b)"] p(1) old
    by (auto simp: d'_def fun_upd_idem)
  have here: "chunk_at s' (chunk_key env b) = Some b" using p(1) by (simp add: chunk_at_def s'(2) path files)
  have mono: "chunk_at s \<subseteq>\<^sub>m chunk_at s'"
    using old by (auto simp: map_le_def chunk_at_def s'(2) path files dom_def split: sum.splits)
  have coll: "c = b2" if "chunk_at s' (chunk_key env b2) = Some c" for b2 c
  proof (cases "blobPath (ps_disk s) (chunk_key env b2) = Inr p")
    case True
    then have "b2 = b" using chunk_path_inj [OF libs] p(1) by metis
    with here that show ?thesis by simp
  next
    case False
    then have "chunk_at s (chunk_key env b2) = Some c"
      using that by (auto simp: chunk_at_def s'(2) path files split: sum.splits if_splits)
    then show ?thesis using assms by (auto simp: stores_ok_def)
  qed
  have "disk_healthy d'" using healthy by (simp add: d'_def disk_healthy_def)
  then have "stores_ok env s'" using assms coll s'(2,3) by (auto simp: stores_ok_def)
  then show ?thesis using put s' here mono by blast
qed

lemma put_chunk_ok:
  assumes "shared_ok env s"
  shows "\<exists>s'. on_disk (\<lambda>d. blob_Put (peDigest env) d (chunk_key env b) b (int (length b))) s = (Inr (), s')
     \<and> shared_ok env s' \<and> keeps s s' \<and> ps_db s' = ps_db s \<and> chunk_at s' (chunk_key env b) = Some b
     \<and> chunk_at s \<subseteq>\<^sub>m chunk_at s' \<and> shared_state env s' = shared_state env s"
proof -
  obtain s' where put: "on_disk (\<lambda>d. blob_Put (peDigest env) d (chunk_key env b) b (int (length b))) s = (Inr (), s')"
    and s': "stores_ok env s'" "ps_db s' = ps_db s" "psControl s' = psControl s" "chunk_at s' (chunk_key env b) = Some b"
    and mono: "chunk_at s \<subseteq>\<^sub>m chunk_at s'"
    using put_blob_ok [OF shared_stores [OF assms], of b] by blast
  have st: "shared_state env s' = shared_state env s" using s'(2) by (rule shared_state_cong)
  have keep: "chunk_at s' k = chunk_at s k" if "chunk_at s k \<noteq> None" for k using mono that by (auto simp: map_le_def dom_def)
  have content: "shared_content s' x = shared_content s x" if "\<forall>c \<in> set (shChunks x). chunk_at s (scKey c) \<noteq> None" for x
    unfolding shared_content_def using that keep by (intro arg_cong [of _ _ concat] map_cong) auto
  have "shared_ok env s'"
    using assms s'(1) keep content by (auto simp: shared_ok_def stores_ok_def st)
  then show ?thesis using put s' mono st by (auto simp: keeps_def)
qed

lemma shared_view_mono:
  assumes "shared_ok env s" and "chunk_at s \<subseteq>\<^sub>m chunk_at s'" and "shared_state env s' = shared_state env s"
  shows "shared_view env s' = shared_view env s"
proof (intro ext)
  fix i
  have "chunk_at s' k = chunk_at s k" if "chunk_at s k \<noteq> None" for k using assms(2) that by (auto simp: map_le_def dom_def)
  then have "shared_content s' x = shared_content s x" if "shared_state env s i = Some x" for x
    using assms(1) that unfolding shared_content_def shared_ok_def
    by (intro arg_cong [of _ _ concat] map_cong) auto
  then show "shared_view env s' i = shared_view env s i"
    by (cases "shared_state env s i") (simp_all add: shared_view_def assms(3))
qed

lemma stage_chunk_ok:
  assumes "shared_ok env s" and "shared_state env s i = Some st"
  shows "\<exists>s'. stage_chunk env i st b s = (Inr (int (length (shared_content s st @ b))), s') \<and> shared_ok env s' \<and> keeps s s'
     \<and> shared_view env s' = (shared_view env s)(i \<mapsto> (shRepo st, shared_content s st @ b))"
proof -
  obtain ex s1 where ex: "on_disk (\<lambda>d. blob_Exists d (chunk_key env b)) s = (ex, s1)" by fastforce
  define pre where "pre = (case ex of Inl _ \<Rightarrow> True | Inr x \<Rightarrow> x)"
  have same: "same_stores s s1" by (rule on_disk_same [OF _ ex]) simp
  note f1 = same_stores_frame [OF same]
  obtain s2 where put: "on_disk (\<lambda>d. blob_Put (peDigest env) d (chunk_key env b) b (int (length b))) s1 = (Inr (), s2)"
    and s2: "shared_ok env s2" "keeps s1 s2" "chunk_at s2 (chunk_key env b) = Some b"
      "chunk_at s1 \<subseteq>\<^sub>m chunk_at s2" "shared_state env s2 = shared_state env s1"
    using put_chunk_ok [of env s1 b] assms(1) f1(4) by blast
  have view2: "shared_view env s2 = shared_view env s"
    using shared_view_mono [OF _ s2(4,5)] f1 assms(1) by simp
  define st2 where "st2 = st\<lparr>shChunks := shChunks st @ [\<lparr>scKey = chunk_key env b, scSize = int (length b), scPreExisted = pre\<rparr>],
      shOffset := shOffset st + int (length b), shUpdatedAt := db_now (ps_db s2)\<rparr>"
  have st: "shared_state env s2 i = Some st" using s2(5) f1(1) assms(2) by simp
  have "shared_content s2 st = shared_content s st"
    using fun_cong [OF view2, of i] st assms(2) by (simp add: shared_view_def)
  then have content: "shared_content s2 st2 = shared_content s st @ b" using s2(3) by (simp add: shared_content_def st2_def)
  have keys: "staged_keys env st2"
    using s2(1) st by (auto simp: shared_ok_def staged_keys_def st2_def)
  have ok: "\<forall>c \<in> set (shChunks st). chunk_at s2 (scKey c) \<noteq> None" "shOffset st = int (length (shared_content s2 st))"
    using s2(1) st by (auto simp: shared_ok_def)
  obtain s3 where save: "shared_save env i st2 s2 = (None, s3)" "shared_ok env s3" "keeps s2 s3"
      "shared_view env s3 = (shared_view env s2)(i \<mapsto> (shRepo st2, shared_content s2 st2))"
    using shared_save_ok [OF s2(1), of st2 i] keys ok s2(3) content \<open>shared_content s2 st = shared_content s st\<close>
    by (auto simp: st2_def)
  have "shOffset st2 = int (length (shared_content s st @ b))"
    using ok(2) \<open>shared_content s2 st = shared_content s st\<close> by (simp add: st2_def)
  then have "stage_chunk env i st b s = (Inr (int (length (shared_content s st @ b))), s3)"
    using save(1) by (simp add: stage_chunk_def ex put Let_def pre_def [symmetric] st2_def [symmetric])
  moreover have "keeps s s3" using f1(5) s2(2) save(3) keeps_trans by blast
  ultimately show ?thesis using save view2 content by (auto simp: st2_def)
qed

lemma blob_Delete_pair: "blob_Delete d k = (r, d') \<Longrightarrow> disk_root d' = disk_root d \<and> disk_fault d' = disk_fault d"
  by (metis blob_Delete_frame snd_conv)

lemma drop_chunks_frame:
  "ps_db (drop_chunks keep cs s) = ps_db s \<and> psControl (drop_chunks keep cs s) = psControl s
   \<and> disk_root (ps_disk (drop_chunks keep cs s)) = disk_root (ps_disk s)
   \<and> disk_fault (ps_disk (drop_chunks keep cs s)) = disk_fault (ps_disk s)"
  by (induction keep cs s rule: drop_chunks.induct) (auto simp: on_disk_def split: prod.split dest: blob_Delete_pair)

lemma drop_chunks_files:
  "blob_files (ps_disk (drop_chunks keep cs s)) q \<in> {blob_files (ps_disk s) q, None}
   \<and> ((\<forall>c \<in> set cs. scKey c = keep \<or> scPreExisted c \<or> blobPath (ps_disk s) (scKey c) \<noteq> Inr q) \<longrightarrow>
        blob_files (ps_disk (drop_chunks keep cs s)) q = blob_files (ps_disk s) q)"
proof (induction keep cs s rule: drop_chunks.induct)
  case (2 keep c cs s)
  let ?s1 = "if scKey c = keep \<or> scPreExisted c then s else snd (on_disk (\<lambda>d. blob_Delete d (scKey c)) s)"
  have one: "blob_files (ps_disk ?s1) q \<in> {blob_files (ps_disk s) q, None}"
    by (auto simp: on_disk_def blob_Delete_def disk_try_def disk_io_def remove_blob_def split: prod.splits option.splits sum.splits)
  have path: "blobPath (ps_disk ?s1) k = blobPath (ps_disk s) k" for k
    by (auto simp: on_disk_def blobPath_def split: prod.split sum.splits dest: blob_Delete_pair)
  have same: "blob_files (ps_disk ?s1) q = blob_files (ps_disk s) q"
    if "scKey c = keep \<or> scPreExisted c \<or> blobPath (ps_disk s) (scKey c) \<noteq> Inr q"
    using that blob_Delete_other [of "ps_disk s" "scKey c" q] by (auto simp: on_disk_def split: prod.split)
  show ?case using 2 one same by (auto simp: path)
qed simp

lemma discard_ok:
  assumes "shared_ok env s" and "\<And>j. j \<noteq> i \<Longrightarrow> shared_view env s j \<noteq> None \<Longrightarrow> \<not> shared_clash env s i j"
  shows "\<exists>s'. discard env i keep s = (None, s') \<and> shared_ok env s' \<and> shared_view env s' = (shared_view env s)(i := None) \<and> keeps s s'"
proof -
  obtain s1 where load: "shared_load env i s = (case shared_state env s i of None \<Rightarrow> Inl SessionNotFound | Some st \<Rightarrow> Inr st, s1)"
    and same: "same_stores s s1" using shared_load_ok [OF assms(1)] by blast
  note f1 = same_stores_frame [OF same]
  show ?thesis
  proof (cases "shared_state env s i")
    case None
    then show ?thesis using load f1 assms(1) by (auto simp: discard_def shared_view_def fun_eq_iff)
  next
    case (Some st)
    define s2 where "s2 = drop_chunks keep (shChunks st) s1"
    note d2 = drop_chunks_frame [of keep "shChunks st" s1, folded s2_def]
    obtain r s3 where del: "on_db (\<lambda>d. DeleteMutable d (uploadStateKey i)) s2 = (r, s3)" by fastforce
    have healthy: "db_healthy (ps_db s2)" using assms(1) d2 same by (simp add: shared_ok_def db_healthy_def same_stores_def)
    have s3: "r = Inr ()" "ps_disk s3 = ps_disk s2" "psControl s3 = psControl s2" "cache_entries (ps_db s3) = cache_entries (ps_db s2)"
      "db_now (ps_db s3) = db_now (ps_db s2)" "db_healthy (ps_db s3)"
      "mutable_entries (ps_db s3) = (mutable_entries (ps_db s2))(uploadStateKey i := None)"
      using del healthy by (auto simp: on_db_def DeleteMutable_def db_io_def db_healthy_def no_faults_def)
    have state: "shared_state env s3 = (shared_state env s)(i := None)"
      using s3 d2 same by (auto simp: shared_state_def fun_eq_iff uploadStateKey_def same_stores_def cong: option.case_cong)
    have path: "blobPath (ps_disk s3) k = blobPath (ps_disk s) k" "blobPath (ps_disk s1) k = blobPath (ps_disk s) k"
      "blobPath (ps_disk s2) k = blobPath (ps_disk s) k" for k
      using d2 s3(2) same by (simp_all add: blobPath_def same_stores_def split: sum.splits)
    have sub: "chunk_at s3 k \<in> {chunk_at s k, None}" for k
      using drop_chunks_files [of keep "shChunks st" s1] same s3(2)
      by (auto simp: chunk_at_def path s2_def [symmetric] same_stores_def split: sum.splits)
    have kept: "chunk_at s3 (scKey x) = chunk_at s (scKey x)"
      if "j \<noteq> i" "shared_state env s j = Some y" "x \<in> set (shChunks y)" for j x y
    proof -
      have "\<not> shared_clash env s i j" using assms(2) that by (auto simp: shared_view_def)
      then have apart: "scPreExisted c \<or> blobPath (ps_disk s) (scKey c) \<noteq> blobPath (ps_disk s) (scKey x)" if "c \<in> set (shChunks st)" for c
        using that Some \<open>shared_state env s j = Some y\<close> \<open>x \<in> set (shChunks y)\<close> by (auto simp: shared_clash_def list_ex_iff)
      show ?thesis
      proof (cases "blobPath (ps_disk s) (scKey x)")
        case (Inr q)
        then have "blob_files (ps_disk s2) q = blob_files (ps_disk s1) q"
          using drop_chunks_files [of keep "shChunks st" s1 q] apart path(2) by (auto simp: s2_def)
        then show ?thesis using Inr same s3(2) by (simp add: chunk_at_def path same_stores_def)
      qed (simp add: chunk_at_def path)
    qed
    have content: "shared_content s3 y = shared_content s y" if "j \<noteq> i" "shared_state env s j = Some y" for j y
      unfolding shared_content_def using kept [OF that] by (intro arg_cong [of _ _ concat] map_cong) auto
    have "shared_view env s3 = (shared_view env s)(i := None)"
    proof (intro ext)
      fix j show "shared_view env s3 j = ((shared_view env s)(i := None)) j"
        using content [of j] by (cases "shared_state env s j") (auto simp: shared_view_def state)
    qed
    moreover have "shared_ok env s3"
      unfolding shared_ok_def
    proof (intro conjI allI impI)
      fix b c assume "chunk_at s3 (chunk_key env b) = Some c"
      then have "chunk_at s (chunk_key env b) = Some c" using sub [of "chunk_key env b"] by auto
      then show "c = b" using assms(1) by (auto simp: shared_ok_def)
    next
      fix j y assume "shared_state env s3 j = Some y"
      then have "j \<noteq> i" "shared_state env s j = Some y" by (auto simp: state split: if_splits)
      then show "\<forall>c \<in> set (shChunks y). chunk_at s3 (scKey c) \<noteq> None" "shOffset y = int (length (shared_content s3 y))"
        using kept content assms(1) by (auto simp: shared_ok_def)
      show "staged_keys env y" using assms(1) \<open>shared_state env s j = Some y\<close> by (simp add: shared_ok_def)
    next
      show "disk_healthy (ps_disk s3)" using assms(1) d2 s3(2) same by (simp add: shared_ok_def disk_healthy_def same_stores_def)
    qed (use assms(1) s3(6) in \<open>simp_all add: shared_ok_def\<close>)
    moreover have "keeps s s3" using f1(5) d2 s3 by (simp add: keeps_def)
    moreover have "discard env i keep s = (None, s3)" using load Some del s3(1) by (simp add: discard_def s2_def)
    ultimately show ?thesis by blast
  qed
qed

text \<open>
  What discarding does when other sessions may clash. Of the chunks, only one that is the whole
  upload has the key of the upload, and that one is kept.
\<close>

lemma discard_frame:
  assumes "shared_ok env s" and "discard env i keep s = (r, s')"
  shows "stores_ok env s'" and "keeps s s'" and "shared_view env s' i = None"
    and "keep = chunk_key env b \<Longrightarrow> chunk_at s' keep = chunk_at s keep"
proof -
  obtain s1 where load: "shared_load env i s = (case shared_state env s i of None \<Rightarrow> Inl SessionNotFound | Some st \<Rightarrow> Inr st, s1)"
    and same: "same_stores s s1" using shared_load_ok [OF assms(1)] by blast
  note f1 = same_stores_frame [OF same]
  have "stores_ok env s' \<and> keeps s s' \<and> shared_view env s' i = None \<and> (keep = chunk_key env b \<longrightarrow> chunk_at s' keep = chunk_at s keep)"
  proof (cases "shared_state env s i")
    case None
    then have "s' = s1" using load assms(2) by (auto simp: discard_def)
    then show ?thesis using None assms(1) f1 shared_stores by (auto simp: shared_view_def)
  next
    case (Some st)
    let ?s2 = "drop_chunks keep (shChunks st) s1"
    note d2 = drop_chunks_frame [of keep "shChunks st" s1]
    have h2: "db_healthy (ps_db ?s2)" "disk_healthy (ps_disk ?s2)"
      using assms(1) d2 same by (auto simp: shared_ok_def db_healthy_def disk_healthy_def same_stores_def)
    have s': "ps_disk s' = ps_disk ?s2" "psControl s' = psControl ?s2" "db_healthy (ps_db s')"
      "cache_entries (ps_db s') = cache_entries (ps_db ?s2)" "mutable_entries (ps_db s') (uploadStateKey i) = None"
      using assms(2) load Some h2
      by (auto simp: discard_def on_db_def DeleteMutable_def db_io_def db_healthy_def no_faults_def split: prod.splits sum.splits)
    have path: "blobPath (ps_disk ?s2) k = blobPath (ps_disk s1) k" for k
      using d2 by (simp add: blobPath_def split: sum.splits)
    have at1: "chunk_at s1 = chunk_at s" by (rule f1(2))
    have sub: "chunk_at s' k \<in> {chunk_at s k, None}" for k
      using drop_chunks_files [of keep "shChunks st" s1]
      unfolding at1 [symmetric] by (auto simp: chunk_at_def path s'(1) split: sum.splits)
    have "stores_ok env s'"
      unfolding stores_ok_def
    proof (intro conjI allI impI)
      fix b c assume "chunk_at s' (chunk_key env b) = Some c"
      then have "chunk_at s (chunk_key env b) = Some c" using sub [of "chunk_key env b"] by auto
      then show "c = b" using assms(1) by (auto simp: shared_ok_def)
    qed (use assms(1) h2 s' in \<open>simp_all add: shared_ok_def\<close>)
    moreover have "chunk_at s' keep = chunk_at s keep" if k: "keep = chunk_key env b"
    proof -
      obtain q where q: "blobPath (ps_disk s1) keep = Inr q"
        using chunk_path [of env "ps_disk s1" b] assms(1) k unfolding shared_ok_def by blast
      have "staged_keys env st" using assms(1) Some by (simp add: shared_ok_def)
      then have "scKey c = keep \<or> blobPath (ps_disk s1) (scKey c) \<noteq> Inr q" if "c \<in> set (shChunks st)" for c
        using that q k chunk_path_inj assms(1) unfolding staged_keys_def shared_ok_def by metis
      then have "blob_files (ps_disk ?s2) q = blob_files (ps_disk s1) q"
        using drop_chunks_files [of keep "shChunks st" s1 q] by blast
      then show ?thesis unfolding at1 [symmetric] by (simp add: chunk_at_def path q s'(1))
    qed
    moreover have "keeps s s'" using f1(5) d2 s' by (simp add: keeps_def)
    ultimately show ?thesis using s'(5) by (simp add: shared_view_def shared_state_def)
  qed
  then show "stores_ok env s'" "keeps s s'" "shared_view env s' i = None" "keep = chunk_key env b \<Longrightarrow> chunk_at s' keep = chunk_at s keep"
    by blast+
qed

interpretation shared: upload_sessions "shared_ops env" "shared_ok env" "shared_view env" "shared_clash env" for env
proof (unfold_locales, goal_cases)
  case (1 s repo r s')
  let ?i = "peRand env (psIds s)" and ?now = "db_now (ps_db s)"
  define st where "st = \<lparr>shRepo = repo, shOffset = 0, shStartedAt = ?now, shUpdatedAt = ?now, shChunks = []\<rparr>"
  have same: "same_stores s (s\<lparr>psIds := Suc (psIds s)\<rparr>)" by (simp add: same_stores_def)
  note f = same_stores_frame [OF same]
  have "shared_ok env (s\<lparr>psIds := Suc (psIds s)\<rparr>)" using f(4) 1(1) by simp
  from shared_save_ok [OF this, of st ?i] obtain s2 where
    save: "shared_save env ?i st (s\<lparr>psIds := Suc (psIds s)\<rparr>) = (None, s2)" "shared_ok env s2" "keeps (s\<lparr>psIds := Suc (psIds s)\<rparr>) s2"
      "shared_view env s2 = (shared_view env s)(?i \<mapsto> (repo, []))"
    using f by (auto simp: st_def shared_content_def staged_keys_def)
  then show ?case
    using 1(2) f(5) keeps_trans
    by (auto simp: shared_ops_def shared_Create_def newUploadID_def Let_def st_def [symmetric])
next
  case (2 s i r s')
  obtain s1 where load: "shared_load env i s = (case shared_state env s i of None \<Rightarrow> Inl SessionNotFound | Some st \<Rightarrow> Inr st, s1)"
    and same: "same_stores s s1" using shared_load_ok [OF 2(1)] by blast
  have "shOffset st = int (length (shared_content s st))" if "shared_state env s i = Some st" for st
    using 2(1) that by (simp add: shared_ok_def)
  then show ?case
    using 2 load same_stores_frame [OF same]
    by (cases "shared_state env s i") (auto simp: shared_ops_def shared_Get_def shared_view_def)
next
  case (3 s i repo c b n s')
  then obtain st where st: "shared_state env s i = Some st" "repo = shRepo st" "c = shared_content s st"
    by (auto simp: shared_view_def)
  obtain s1 where load: "shared_load env i s = (Inr st, s1)" and same: "same_stores s s1"
    using shared_load_ok [OF 3(1), of i] st(1) by auto
  define s2 where "s2 = s1\<lparr>psTick := Suc (psTick s1)\<rparr>"
  define s3 where "s3 = s2\<lparr>psTick := Suc (psTick s2)\<rparr>"
  define s4 where "s4 = s3\<lparr>psTick := Suc (psTick s3)\<rparr>"
  have os: "os_io env s1 = (None, s2)" "os_io env s2 = (None, s3)" "os_io env s3 = (None, s4)"
    using 3(1) by (simp_all add: os_io_def shared_ok_def no_faults_def s2_def s3_def s4_def)
  have t: "same_stores s s3" "same_stores s s4"
    using same by (simp_all add: same_stores_def s2_def s3_def s4_def)
  note f3 = same_stores_frame [OF t(1)] and f4 = same_stores_frame [OF t(2)]
  have content: "shared_content s4 st = shared_content s st" by (simp add: shared_content_def f4(2))
  show ?case
  proof (cases "b = []")
    case True
    then have "n = Inr (shOffset st)" "s' = s3" using 3(3) load os by (auto simp: shared_ops_def shared_Append_def)
    moreover have "shOffset st = int (length c)" using 3(1) st by (simp add: shared_ok_def)
    moreover have "(shared_view env s)(i \<mapsto> (repo, c)) = shared_view env s" using 3(2) by (simp add: map_upd_triv)
    ultimately show ?thesis using f3 3(1) True by simp
  next
    case False
    obtain s5 where "stage_chunk env i st b s4 = (Inr (int (length (shared_content s4 st @ b))), s5)" "shared_ok env s5" "keeps s4 s5"
      "shared_view env s5 = (shared_view env s4)(i \<mapsto> (shRepo st, shared_content s4 st @ b))"
      using stage_chunk_ok [of env s4 i st b] f4 3(1) st(1) by auto
    then show ?thesis
      using 3(3) load os False st f4 content keeps_trans by (auto simp: shared_ops_def shared_Append_def)
  qed
next
  case (4 s i repo c q s')
  then obtain st where st: "shared_state env s i = Some st" "c = shared_content s st" by (auto simp: shared_view_def)
  obtain s1 where load: "shared_load env i s = (Inr st, s1)" and same: "same_stores s s1"
    using shared_load_ok [OF 4(1), of i] st(1) by auto
  note f1 = same_stores_frame [OF same]
  have "disk_healthy (ps_disk s1)" "\<forall>k \<in> set (map scKey (shChunks st)). chunk_at s1 k \<noteq> None"
    using 4(1) st(1) f1(2) same by (auto simp: shared_ok_def disk_healthy_def same_stores_def)
  from read_chunks_ok [OF this] obtain s2 where read: "read_chunks (map scKey (shChunks st)) s1 = (Inr (shared_content s st), s2)"
      "same_stores s1 s2" by (auto simp: shared_content_def f1(2) comp_def)
  then show ?case
    using 4 load st same_stores_frame [OF same_stores_trans [OF same read(2)]] by (auto simp: shared_ops_def shared_Read_def)
next
  case (5 s i e s')
  then show ?case using discard_ok [OF 5(1), of i "[]"] by (auto simp: shared_ops_def)
qed

section \<open>Properties\<close>

text \<open>The two session stores are interchangeable: where each works on a state that satisfies its
  invariant, without faults, opening a session and sending any sequence of chunks (empty ones
  included) succeeds in both, and what is read back is the concatenation of the chunks in the order
  they were sent, whether it lies in one file or in staged blobs received by several replicas.\<close>

theorem upload_stores_agree:
  assumes "mem_ok env s" and "shared_ok env s"
  shows "\<exists>u v sm ss. soCreate (memory_ops env) repo s = (Inr u, sm) \<and> soCreate (shared_ops env) repo s = (Inr v, ss)
     \<and> fst (soRead (memory_ops env) (usID u) (append_all (memory_ops env) (usID u) bs sm)) = Inr (Inr (concat bs))
     \<and> fst (soRead (shared_ops env) (usID v) (append_all (shared_ops env) (usID v) bs ss)) = Inr (Inr (concat bs))"
proof -
  obtain r sm where m: "soCreate (memory_ops env) repo s = (r, sm)" by fastforce
  obtain q ss where h: "soCreate (shared_ops env) repo s = (q, ss)" by fastforce
  from mem.upload_content [OF assms(1) m, of bs] shared.upload_content [OF assms(2) h, of bs] m h show ?thesis by blast
qed

lemma drop_chunks_gone:
  assumes "disk_healthy (ps_disk s)" and "blobPath (ps_disk s) (scKey c) = Inr q" and "c \<in> set cs" and "\<not> scPreExisted c"
    and "scKey c \<noteq> keep"
  shows "blob_files (ps_disk (drop_chunks keep cs s)) q = None"
  using assms
proof (induction keep cs s rule: drop_chunks.induct)
  case (2 keep x cs s)
  let ?s1 = "if scKey x = keep \<or> scPreExisted x then s else snd (on_disk (\<lambda>d. blob_Delete d (scKey x)) s)"
  have fr: "disk_root (ps_disk ?s1) = disk_root (ps_disk s)" "disk_fault (ps_disk ?s1) = disk_fault (ps_disk s)"
    by (auto simp: on_disk_def split: prod.split dest: blob_Delete_pair)
  then have path: "blobPath (ps_disk ?s1) k = blobPath (ps_disk s) k" for k unfolding blobPath_def by (metis (no_types, lifting))
  show ?case
  proof (cases "c = x")
    case True
    then have "blob_files (ps_disk ?s1) q = None"
      using 2(2-6) by (simp add: on_disk_def blob_Delete_def disk_try_def disk_io_def disk_healthy_def no_faults_def remove_blob_def)
    then show ?thesis using drop_chunks_files [of keep cs ?s1 q] by auto
  next
    case False
    then show ?thesis using 2 path fr by (simp add: disk_healthy_def)
  qed
qed simp

text \<open>Abandoning an upload can take away a blob that belongs to somebody else. A chunk that was not
  in the store when the session staged it is removed with the session, whatever has happened since:
  a hosted entry that meanwhile records the same digest (an identical layer pushed by another
  client) stays, but its bytes are gone and looking it up misses.\<close>

theorem abandoned_upload_evicts_blob:
  assumes "shared_ok env s" and "shared_state env s i = Some st" and "c \<in> set (shChunks st)" and "\<not> scPreExisted c"
    and "find_row (cache_entries (ps_db s)) (ref_key ref) = Some row" and "r_digest row = scKey c" and "\<not> rMutable ref"
    and "scKey c \<noteq> []"
  shows "let s' = snd (soDelete (shared_ops env) i s) in
     find_row (cache_entries (ps_db s')) (ref_key ref) = Some row \<and> fst (Lookup (psCache s') ref) = Inr None"
proof -
  obtain s1 where load: "shared_load env i s = (Inr st, s1)" and same: "same_stores s s1"
    using shared_load_ok [OF assms(1), of i] assms(2) by auto
  define s2 where "s2 = drop_chunks [] (shChunks st) s1"
  note d2 = drop_chunks_frame [of "[]" "shChunks st" s1, folded s2_def]
  obtain r s3 where del: "on_db (\<lambda>d. DeleteMutable d (uploadStateKey i)) s2 = (r, s3)" by fastforce
  have s': "snd (soDelete (shared_ops env) i s) = s3"
    using load del by (simp add: shared_ops_def discard_def s2_def [symmetric] split: sum.splits)
  have h: "disk_healthy (ps_disk s1)" "db_fault (ps_db s2) = no_faults"
    using assms(1) same d2 by (auto simp: shared_ok_def disk_healthy_def db_healthy_def same_stores_def)
  have s3: "ps_disk s3 = ps_disk s2" "cache_entries (ps_db s3) = cache_entries (ps_db s)" "db_fault (ps_db s3) = no_faults"
    using del same d2 h by (auto simp: on_db_def DeleteMutable_def db_io_def same_stores_def no_faults_def)
  have "chunk_at s (scKey c) \<noteq> None" using assms(1-3) unfolding shared_ok_def by blast
  then obtain q where q: "blobPath (ps_disk s) (scKey c) = Inr q" by (auto simp: chunk_at_def split: sum.splits)
  then have q1: "blobPath (ps_disk s1) (scKey c) = Inr q" "blobPath (ps_disk s2) (scKey c) = Inr q"
    using same d2 by (auto simp: blobPath_def same_stores_def split: sum.splits)
  have "blob_files (ps_disk s2) q = None"
    using drop_chunks_gone [OF h(1) q1(1) assms(3,4)] assms(8) by (simp add: s2_def)
  moreover have "disk_healthy (ps_disk s2)" using h(1) d2 by (simp add: disk_healthy_def)
  ultimately have "fst (blob_Exists (ps_disk s2) (scKey c)) = Inr False" using q1(2) by (simp add: blob_Exists_healthy)
  then have "fst (Lookup (psCache s3) ref) = Inr None"
    using assms(5-7) s3
    by (auto simp: Lookup_def lookupImmutable_def with_db_def with_disk_def Get_def db_io_def no_faults_def row_CacheEntry_def
        split: prod.split)
  then show ?thesis using s' s3(2) assms(5) by (simp add: Let_def)
qed

section \<open>A concrete serialization\<close>

text \<open>Numbers in unary, everything else behind its length.\<close>

definition put_nat :: "nat \<Rightarrow> bytes" where
  "put_nat n = replicate n CHR ''1'' @ ''0''"

definition get_nat :: "bytes \<Rightarrow> nat \<times> bytes" where
  "get_nat s = (length (takeWhile (\<lambda>c. c = CHR ''1'') s), drop 1 (dropWhile (\<lambda>c. c = CHR ''1'') s))"

lemma get_put_nat [simp]: "get_nat (put_nat n @ r) = (n, r)"
  by (induction n) (auto simp: get_nat_def put_nat_def)

definition put_int :: "int \<Rightarrow> bytes" where
  "put_int i = put_nat (if i < 0 then 1 else 0) @ put_nat (nat \<bar>i\<bar>)"

definition get_int :: "bytes \<Rightarrow> int \<times> bytes" where
  "get_int s = (case get_nat s of (sg, r) \<Rightarrow> case get_nat r of (n, r2) \<Rightarrow> (if sg = 1 then - int n else int n, r2))"

lemma get_put_int [simp]: "get_int (put_int i @ r) = (i, r)"
  by (simp add: get_int_def put_int_def)

definition put_str :: "string \<Rightarrow> bytes" where
  "put_str s = put_nat (length s) @ s"

definition get_str :: "bytes \<Rightarrow> string \<times> bytes" where
  "get_str s = (case get_nat s of (n, r) \<Rightarrow> (take n r, drop n r))"

lemma get_put_str [simp]: "get_str (put_str x @ r) = (x, r)"
  by (simp add: get_str_def put_str_def)

definition put_chunk :: "sharedChunk \<Rightarrow> bytes" where
  "put_chunk c = put_str (scKey c) @ put_int (scSize c) @ put_nat (if scPreExisted c then 1 else 0)"

definition get_chunk :: "bytes \<Rightarrow> sharedChunk \<times> bytes" where
  "get_chunk s =
     (case get_str s of (k, r) \<Rightarrow> case get_int r of (n, r2) \<Rightarrow> case get_nat r2 of (p, r3) \<Rightarrow>
        (\<lparr>scKey = k, scSize = n, scPreExisted = (p = 1)\<rparr>, r3))"

lemma get_put_chunk [simp]: "get_chunk (put_chunk c @ r) = (c, r)"
  by (simp add: get_chunk_def put_chunk_def)

fun get_chunks :: "nat \<Rightarrow> bytes \<Rightarrow> sharedChunk list" where
  "get_chunks 0 s = []"
| "get_chunks (Suc n) s = (case get_chunk s of (c, r) \<Rightarrow> c # get_chunks n r)"

lemma get_put_chunks: "get_chunks (length cs) (concat (map put_chunk cs)) = cs"
  by (induction cs) simp_all

definition put_session :: "sharedState \<Rightarrow> bytes" where
  "put_session st =
     put_str (shRepo st) @ put_int (shOffset st) @ put_int (shStartedAt st) @ put_int (shUpdatedAt st) @
     put_nat (length (shChunks st)) @ concat (map put_chunk (shChunks st))"

definition get_session :: "bytes \<Rightarrow> sharedState option" where
  "get_session s =
     (case get_str s of (repo, r1) \<Rightarrow> case get_int r1 of (off, r2) \<Rightarrow> case get_int r2 of (a, r3) \<Rightarrow>
      case get_int r3 of (b, r4) \<Rightarrow> case get_nat r4 of (n, r5) \<Rightarrow>
        Some \<lparr>shRepo = repo, shOffset = off, shStartedAt = a, shUpdatedAt = b, shChunks = get_chunks n r5\<rparr>)"

lemma get_put_session: "get_session (put_session st) = Some st"
  by (simp add: get_session_def put_session_def get_put_chunks)

definition push_demo_env :: push_env where
  "push_demo_env =
     \<lparr>peDigest = \<lparr>dg_valid = (\<lambda>_. True), dg_hex = (\<lambda>_ c. hex_EncodeToString (''#'' @ c))\<rparr>,
      peSha256 = (\<lambda>c. ''#'' @ c), peRand = (\<lambda>n. ''u'' @ itoa (int n)), peTemp = put_nat,
      peFault = no_faults, peMarshal = put_session, peUnmarshal = get_session, peIdle = 21600 * Second\<rparr>"

lemma put_nat_inj: "inj put_nat"
  by (rule injI) (metis append_Nil2 fst_conv get_put_nat)

lemma push_demo_libs: "documented_libs push_demo_env"
  by (auto simp: documented_libs_def push_demo_env_def get_put_session inj_def chunk_key_def)

definition push_demo_state :: push_state where
  "push_demo_state =
     \<lparr>psCache = \<lparr>c_db = \<lparr>cache_entries = [], mutable_entries = Map.empty, db_now = 5, db_tick = 0, db_fault = no_faults\<rparr>,
                 c_disk = \<lparr>disk_root = ''/blobs'', blob_files = Map.empty, disk_tick = 0, disk_fault = no_faults\<rparr>,
                 c_tmp = demo_fs, c_maxBytes = 0, c_uniform = 1 / 2, c_metrics = [], c_verified = [], c_evicted = []\<rparr>,
      psControl = \<lparr>t_orgs = [], t_members = [], t_invitations = [], t_grants = [], t_repos = [], t_tags = [], c_now = 0, c_ids = 0,
                   c_rand = (\<lambda>_. []), c_tick = 0, c_fault = no_faults\<rparr>,
      psMem = Map.empty, psFiles = Map.empty, psIds = 0, psTick = 0\<rparr>"

lemma push_demo_chunk: "chunk_at push_demo_state k = None"
  by (simp add: chunk_at_def push_demo_state_def split: sum.splits)

lemma push_demo_shared: "shared_ok push_demo_env push_demo_state"
proof -
  have "shared_state push_demo_env push_demo_state i = None" for i by (simp add: shared_state_def push_demo_state_def)
  then show ?thesis
    using push_demo_libs push_demo_chunk
    by (simp add: shared_ok_def push_demo_state_def db_healthy_def disk_healthy_def) (simp add: push_demo_env_def)
qed

lemma push_demo_mem: "mem_ok push_demo_env push_demo_state"
  by (simp add: mem_ok_def push_demo_state_def push_demo_env_def put_nat_inj)

theorem upload_stores_agree_witness:
  "\<exists>v ss. soCreate (shared_ops push_demo_env) ''acme/app'' push_demo_state = (Inr v, ss)
     \<and> fst (soRead (shared_ops push_demo_env) (usID v)
          (append_all (shared_ops push_demo_env) (usID v) [''la'', [], ''yer''] ss)) = Inr (Inr ''layer'')"
  using upload_stores_agree [OF push_demo_mem push_demo_shared, of "''acme/app''" "[''la'', [], ''yer'']"] by auto

text \<open>Two clients push the same layer: one has staged it, the other has recorded it.\<close>

definition staged :: sharedState where
  "staged = \<lparr>shRepo = ''acme/app'', shOffset = 5, shStartedAt = 5, shUpdatedAt = 5,
             shChunks = [\<lparr>scKey = chunk_key push_demo_env ''layer'', scSize = 5, scPreExisted = False\<rparr>]\<rparr>"

definition layer_entry :: CacheEntry where
  "layer_entry =
     \<lparr>ceRef = \<lparr>rProtocol = ''oci'', rName = ''beta/app'', rVersion = ''v'', rDigest = [], rUpstream = [], rMutable = False\<rparr>,
      ceDigest = chunk_key push_demo_env ''layer'', ceSize = 5, ceProtocol = ''oci'', ceTier = TierChecksum, ceUpstream = [],
      ceETag = [], ceVerifiedAt = 5, ceCreatedAt = 5, ceOrigin = OriginHosted, ceSoftExpired = False\<rparr>"

definition layer_path :: "string list" where
  "layer_path = [''/blobs'', ''23'', hex_EncodeToString ''#layer'']"

definition staged_state :: push_state where
  "staged_state = push_demo_state\<lparr>psCache := (psCache push_demo_state)\<lparr>
     c_db := (ps_db push_demo_state)\<lparr>cache_entries := [entry_row 5 layer_entry],
       mutable_entries := [uploadStateKey ''u0'' \<mapsto> upload_entry push_demo_env ''u0'' staged 5]\<rparr>,
     c_disk := (ps_disk push_demo_state)\<lparr>blob_files := [layer_path \<mapsto> ''layer'']\<rparr>\<rparr>\<rparr>"

lemma layer_path_eq: "blobPath (ps_disk staged_state) (chunk_key push_demo_env ''layer'') = Inr layer_path"
proof -
  have "take 2 (hex_EncodeToString ''#layer'') = ''23''" "2 \<le> length (hex_EncodeToString ''#layer'')" by code_simp+
  then show ?thesis
    by (simp add: blobPath_def hexDigest_def chunk_key_def Let_def staged_state_def push_demo_state_def push_demo_env_def layer_path_def)
qed

lemma staged_chunk: "chunk_at staged_state (chunk_key push_demo_env b) = Some c \<Longrightarrow> c = b"
proof -
  assume c: "chunk_at staged_state (chunk_key push_demo_env b) = Some c"
  then obtain p where p: "blobPath (ps_disk staged_state) (chunk_key push_demo_env b) = Inr p" "blob_files (ps_disk staged_state) p = Some c"
    by (auto simp: chunk_at_def split: sum.splits)
  then have "p = layer_path" "c = ''layer''" by (auto simp: staged_state_def split: if_splits)
  with p layer_path_eq have "b = ''layer''" using chunk_path_inj [OF push_demo_libs] by metis
  with \<open>c = ''layer''\<close> show "c = b" by simp
qed

lemma staged_shared_state: "shared_state push_demo_env staged_state i = (if i = ''u0'' then Some staged else None)"
  by (auto simp: shared_state_def staged_state_def push_demo_state_def uploadStateKey_def upload_entry_def)
    (simp_all add: push_demo_env_def get_put_session staged_def)

lemma staged_ok: "shared_ok push_demo_env staged_state"
proof -
  have at: "chunk_at staged_state (chunk_key push_demo_env ''layer'') = Some ''layer''"
    by (simp add: chunk_at_def layer_path_eq) (simp add: staged_state_def)
  have "db_healthy (ps_db staged_state)" "disk_healthy (ps_disk staged_state)" "peFault push_demo_env = no_faults" "0 \<le> peIdle push_demo_env"
    by (simp_all add: staged_state_def push_demo_state_def push_demo_env_def db_healthy_def disk_healthy_def)
  then show ?thesis
    using push_demo_libs staged_chunk at
    by (auto simp: shared_ok_def staged_shared_state shared_content_def staged_def staged_keys_def)
qed

theorem abandoned_upload_evicts_blob_witness:
  "fst (Lookup (psCache (snd (soDelete (shared_ops push_demo_env) ''u0'' staged_state))) (ceRef layer_entry)) = Inr None"
  using abandoned_upload_evicts_blob [OF staged_ok, of "''u0''" staged
      "\<lparr>scKey = chunk_key push_demo_env ''layer'', scSize = 5, scPreExisted = False\<rparr>" "ceRef layer_entry" "entry_row 5 layer_entry"]
  by (simp add: staged_shared_state Let_def) (simp add: staged_def staged_state_def layer_entry_def entry_row_def find_row_def row_key_def
      ref_key_def chunk_key_def)

end
