(* ===== verification/Acl.thy ===== *)
theory Acl
  imports Prelude
begin

text \<open>
  The resource authorization decision (\<^verbatim>\<open>internal/acl/acl.go\<close>): pure logic over a
  subject, a resource profile and the organizations the resource is shared with.
  Visibility and access levels are strings in the source, so unknown values occur and are
  normalized. \<^verbatim>\<open>nil\<close> is \<^const>\<open>None\<close>.
\<close>

definition Private :: string where "Private = ''private''"
definition OrgVis :: string where "OrgVis = ''org''"
definition Public :: string where "Public = ''public''"
definition ReadAccess :: string where "ReadAccess = ''read''"
definition WriteAccess :: string where "WriteAccess = ''write''"

datatype acl_err = ErrForbidden | ErrReadOnly

record Subject =
  sUserID :: string
  sOrgID :: string
  sAdmin :: bool

record Resource =
  resOwnerUserID :: string
  resOrgID :: string
  resVisibility :: string
  resAccess :: string

definition acl_NormalizeVisibility :: "string \<Rightarrow> string" where
  "acl_NormalizeVisibility v = (if v = OrgVis \<or> v = Public then v else Private)"

definition acl_NormalizeAccess :: "string \<Rightarrow> string" where
  "acl_NormalizeAccess a = (if a = WriteAccess then WriteAccess else ReadAccess)"

definition isOwner :: "Resource \<Rightarrow> Subject \<Rightarrow> bool" where
  "isOwner r s \<longleftrightarrow> resOwnerUserID r \<noteq> [] \<and> resOwnerUserID r = sUserID s"

definition sameOrg :: "Resource \<Rightarrow> Subject \<Rightarrow> string list \<Rightarrow> bool" where
  "sameOrg r s grantedOrgs =
     (if resOrgID r = sOrgID s then True
      else if sOrgID s = [] then False
      else list_ex (\<lambda>g. g = sOrgID s) grantedOrgs)"

definition canRead :: "Resource \<Rightarrow> Subject \<Rightarrow> string list \<Rightarrow> bool" where
  "canRead r s grantedOrgs =
     (if sAdmin s then True
      else if acl_NormalizeVisibility (resVisibility r) = Public then True
      else if sUserID s = [] then False
      else if isOwner r s then True
      else sameOrg r s grantedOrgs \<and> acl_NormalizeVisibility (resVisibility r) \<noteq> Private)"

definition canWrite :: "Resource \<Rightarrow> Subject \<Rightarrow> string list \<Rightarrow> bool" where
  "canWrite r s grantedOrgs =
     (if sUserID s = [] then False
      else if sAdmin s then True
      else if isOwner r s then True
      else sameOrg r s grantedOrgs \<and> acl_NormalizeVisibility (resVisibility r) = OrgVis
           \<and> acl_NormalizeAccess (resAccess r) = WriteAccess)"

definition CanAccessGranted :: "Resource \<Rightarrow> Subject \<Rightarrow> bool \<Rightarrow> string list \<Rightarrow> acl_err option" where
  "CanAccessGranted r s needWrite grantedOrgs =
     (if needWrite then
        (if canWrite r s grantedOrgs then None
         else if canRead r s grantedOrgs then Some ErrReadOnly
         else Some ErrForbidden)
      else if canRead r s grantedOrgs then None
      else Some ErrForbidden)"

definition CanAccess :: "Resource \<Rightarrow> Subject \<Rightarrow> bool \<Rightarrow> acl_err option" where
  "CanAccess r s needWrite = CanAccessGranted r s needWrite []"

section \<open>Properties\<close>

named_theorems acl_simps \<open>definitions of the access decision\<close>

lemmas [acl_simps] = Private_def OrgVis_def Public_def ReadAccess_def WriteAccess_def
  acl_NormalizeVisibility_def acl_NormalizeAccess_def isOwner_def sameOrg_def canRead_def canWrite_def
  CanAccessGranted_def CanAccess_def

lemma visibility_distinct [simp]:
  "Private \<noteq> OrgVis" "Private \<noteq> Public" "OrgVis \<noteq> Public" "OrgVis \<noteq> Private" "Public \<noteq> Private"
  "Public \<noteq> OrgVis" "ReadAccess \<noteq> WriteAccess" "WriteAccess \<noteq> ReadAccess"
  by (simp_all add: acl_simps)

lemma acl_NormalizeVisibility_simps [simp]:
  "acl_NormalizeVisibility OrgVis = OrgVis" "acl_NormalizeVisibility Public = Public"
  "acl_NormalizeVisibility Private = Private"
  by (simp_all add: acl_NormalizeVisibility_def)

lemma acl_NormalizeAccess_simps [simp]:
  "acl_NormalizeAccess WriteAccess = WriteAccess" "acl_NormalizeAccess ReadAccess = ReadAccess"
  by (simp_all add: acl_NormalizeAccess_def)

lemma canWrite_canRead: "canWrite r s g \<Longrightarrow> canRead r s g"
  by (auto simp: canWrite_def canRead_def)

lemma CanAccessGranted_None_iff:
  "CanAccessGranted r s w g = None \<longleftrightarrow> (if w then canWrite r s g else canRead r s g)"
  by (simp add: CanAccessGranted_def)

text \<open>
  What a caller who is not a platform administrator needs: for a write an identity and
  ownership, or membership of an organization the resource is open to for writing; for a
  read also a public resource.
\<close>

text \<open>The access decision, for every subject, resource and list of granted organizations:
  whoever may write may also read; without an identity nothing is written, and nothing but a
  public resource is read unless the subject is a platform administrator; a private
  resource, which includes every unknown visibility, opens to its owner and to
  administrators only, whatever organizations it is shared with; and
  \<^verbatim>\<open>ErrReadOnly\<close> is answered exactly to a writer who may read and may not write.\<close>

theorem acl_decision:
  "(CanAccessGranted r s True g = None \<longrightarrow> CanAccessGranted r s False g = None)
   \<and> CanAccessGranted r \<lparr>sUserID = [], sOrgID = o', sAdmin = adm\<rparr> True g \<noteq> None
   \<and> (CanAccessGranted r \<lparr>sUserID = [], sOrgID = o', sAdmin = False\<rparr> False g = None
        \<longleftrightarrow> resVisibility r = Public)
   \<and> (resVisibility r \<noteq> OrgVis \<and> resVisibility r \<noteq> Public \<and> \<not> sAdmin s \<longrightarrow>
        (CanAccessGranted r s w g = None \<longleftrightarrow> sUserID s \<noteq> [] \<and> resOwnerUserID r = sUserID s))
   \<and> (CanAccessGranted r s w g = Some ErrReadOnly \<longleftrightarrow> w \<and> canRead r s g \<and> \<not> canWrite r s g)"
proof (intro conjI)
  show "CanAccessGranted r s True g = None \<longrightarrow> CanAccessGranted r s False g = None"
    by (simp add: CanAccessGranted_None_iff canWrite_canRead)
  show "CanAccessGranted r \<lparr>sUserID = [], sOrgID = o', sAdmin = adm\<rparr> True g \<noteq> None"
    by (simp add: CanAccessGranted_None_iff canWrite_def)
  show "CanAccessGranted r \<lparr>sUserID = [], sOrgID = o', sAdmin = False\<rparr> False g = None
        \<longleftrightarrow> resVisibility r = Public"
    by (simp add: CanAccessGranted_None_iff canRead_def acl_NormalizeVisibility_def)
  show "resVisibility r \<noteq> OrgVis \<and> resVisibility r \<noteq> Public \<and> \<not> sAdmin s \<longrightarrow>
        (CanAccessGranted r s w g = None \<longleftrightarrow> sUserID s \<noteq> [] \<and> resOwnerUserID r = sUserID s)"
    by (auto simp: CanAccessGranted_None_iff canRead_def canWrite_def acl_NormalizeVisibility_def isOwner_def)
  show "CanAccessGranted r s w g = Some ErrReadOnly \<longleftrightarrow> w \<and> canRead r s g \<and> \<not> canWrite r s g"
    by (simp add: CanAccessGranted_def)
qed

theorem acl_decision_witness:
  "CanAccessGranted \<lparr>resOwnerUserID = ''user:1'', resOrgID = ''acme'', resVisibility = ''secret'', resAccess = ''write''\<rparr>
     \<lparr>sUserID = ''user:2'', sOrgID = ''acme'', sAdmin = False\<rparr> False [''acme''] \<noteq> None
   \<and> CanAccessGranted \<lparr>resOwnerUserID = ''user:1'', resOrgID = ''acme'', resVisibility = ''secret'', resAccess = ''write''\<rparr>
     \<lparr>sUserID = ''user:1'', sOrgID = [], sAdmin = False\<rparr> True [] = None"
  using acl_decision [of "\<lparr>resOwnerUserID = ''user:1'', resOrgID = ''acme'', resVisibility = ''secret'', resAccess = ''write''\<rparr>"
        "\<lparr>sUserID = ''user:2'', sOrgID = ''acme'', sAdmin = False\<rparr>" "[''acme'']" _ _ False]
    acl_decision [of "\<lparr>resOwnerUserID = ''user:1'', resOrgID = ''acme'', resVisibility = ''secret'', resAccess = ''write''\<rparr>"
        "\<lparr>sUserID = ''user:1'', sOrgID = [], sAdmin = False\<rparr>" "[]" _ _ True]
  by (simp add: OrgVis_def Public_def)

end
