(* ===== verification/Orgs.thy ===== *)
theory Orgs
  imports Control
begin

text \<open>
  Organizations, members and invitations (\<^verbatim>\<open>internal/org/org.go\<close>, \<^verbatim>\<open>sql.go\<close>): the role
  ladder and the operations of the SQL store on the tables \<^verbatim>\<open>orgs\<close>, \<^verbatim>\<open>org_members\<close> and
  \<^verbatim>\<open>org_invitations\<close>.
\<close>

section \<open>Roles\<close>

definition RoleViewer :: string where "RoleViewer = ''viewer''"
definition RoleEditor :: string where "RoleEditor = ''editor''"
definition RoleAdmin :: string where "RoleAdmin = ''admin''"
definition RoleOwner :: string where "RoleOwner = ''owner''"

definition roleRank :: "string \<Rightarrow> nat" where
  "roleRank role =
     (if role = RoleOwner then 4 else if role = RoleAdmin then 3
      else if role = RoleEditor then 2 else if role = RoleViewer then 1 else 0)"

definition NormalizeLegacyRole :: "string \<Rightarrow> string" where
  "NormalizeLegacyRole role =
     (let r = ToLower (TrimSpace role) in
      if r = RoleOwner then RoleOwner
      else if r = RoleAdmin \<or> r = ''org_admin'' then RoleAdmin
      else if r = RoleEditor \<or> r = ''member'' then RoleEditor
      else if r = RoleViewer then RoleViewer
      else [])"

definition NormalizeRole :: "string \<Rightarrow> string" where
  "NormalizeRole role = (let r = NormalizeLegacyRole role in if r \<noteq> [] then r else RoleViewer)"

definition NormalizeSystemRole :: "string \<Rightarrow> string" where
  "NormalizeSystemRole role =
     (let r = ToLower (TrimSpace role) in
      if r = RoleViewer \<or> r = RoleEditor \<or> r = RoleAdmin then r else [])"

definition AtLeast :: "string \<Rightarrow> string \<Rightarrow> bool" where
  "AtLeast have' want \<longleftrightarrow> roleRank want \<le> roleRank have'"

definition UserSubjectID :: "int \<Rightarrow> string" where
  "UserSubjectID userID = ''user:'' @ itoa userID"

lemmas role_defs = RoleViewer_def RoleEditor_def RoleAdmin_def RoleOwner_def

section \<open>Organizations\<close>

definition StatusActive :: string where "StatusActive = ''active''"
definition StatusFrozen :: string where "StatusFrozen = ''frozen''"

definition Frozen :: "Org option \<Rightarrow> bool" where
  "Frozen o' = (case o' of None \<Rightarrow> False | Some x \<Rightarrow> oStatus x = StatusFrozen)"

definition normEmail :: "string \<Rightarrow> string" where
  "normEmail email = ToLower (TrimSpace email)"

text \<open>
  The caller's value is completed in place (status and identifier); the row also gets its
  creation time. The primary key and the slug are unique.
\<close>

definition complete_org :: "control \<Rightarrow> Org \<Rightarrow> Org \<times> control" where
  "complete_org db o' =
     (let o1 = (if oStatus o' = [] then o'\<lparr>oStatus := StatusActive\<rparr> else o') in
      if oID o1 = [] then (let (i, d) = newID ''org_'' db in (o1\<lparr>oID := i\<rparr>, d)) else (o1, db))"

definition org_row :: "gotime \<Rightarrow> Org \<Rightarrow> Org" where
  "org_row now x =
     x\<lparr>oCreatedAt := (if IsZero (oCreatedAt x) then now else oCreatedAt x), oRole := [], oSystemAccess := False\<rparr>"

definition CreateOrg :: "control \<Rightarrow> Org \<Rightarrow> (store_err + unit) \<times> Org \<times> control" where
  "CreateOrg db o' =
     (case complete_org db o' of
        (o2, db1) \<Rightarrow>
          (case insert_row db1 (list_ex (\<lambda>x. oID x = oID o2 \<or> oSlug x = oSlug o2) (t_orgs db1))
                  (\<lambda>d. d\<lparr>t_orgs := t_orgs d @ [org_row (c_now db) o2]\<rparr>) of
             (r, db2) \<Rightarrow> (r, o2, db2)))"

definition GetOrg :: "control \<Rightarrow> string \<Rightarrow> (store_err + Org) \<times> control" where
  "GetOrg db i = query db (\<lambda>d. row_option (find (\<lambda>x. oID x = i) (t_orgs d)))"

definition GetOrgBySlug :: "control \<Rightarrow> string \<Rightarrow> (store_err + Org) \<times> control" where
  "GetOrgBySlug db slug = query db (\<lambda>d. row_option (find (\<lambda>x. oSlug x = slug) (t_orgs d)))"

definition ListOrgs :: "control \<Rightarrow> (store_err + Org list) \<times> control" where
  "ListOrgs db = query db (\<lambda>d. Inr (newest_first oCreatedAt (t_orgs d)))"

definition UpdateOrg :: "control \<Rightarrow> Org \<Rightarrow> (store_err + unit) \<times> control" where
  "UpdateOrg db o' =
     exec db (\<lambda>d. d\<lparr>t_orgs := map (\<lambda>x. if oID x = oID o' then x\<lparr>oName := oName o'\<rparr> else x) (t_orgs d)\<rparr>)"

definition SetOrgStatus :: "control \<Rightarrow> string \<Rightarrow> string \<Rightarrow> (store_err + unit) \<times> control" where
  "SetOrgStatus db i status =
     exec db (\<lambda>d. d\<lparr>t_orgs := map (\<lambda>x. if oID x = i then x\<lparr>oStatus := status\<rparr> else x) (t_orgs d)\<rparr>)"

text \<open>One transaction: begin, three deletions and the commit.\<close>

definition DeleteOrg :: "control \<Rightarrow> string \<Rightarrow> (store_err + unit) \<times> control" where
  "DeleteOrg db i =
     (case statements 5 db of
        (Some e, db') \<Rightarrow> (Inl (SqlErr e), db')
      | (None, db') \<Rightarrow>
          (Inr (), db'\<lparr>t_invitations := filter (\<lambda>v. iOrgID v \<noteq> i) (t_invitations db'),
                       t_members := filter (\<lambda>m. mOrgID m \<noteq> i) (t_members db'),
                       t_orgs := filter (\<lambda>x. oID x \<noteq> i) (t_orgs db')\<rparr>))"

definition orgs_of_email :: "control \<Rightarrow> string \<Rightarrow> Org list" where
  "orgs_of_email d email =
     concat (map (\<lambda>x. map (\<lambda>m. x\<lparr>oRole := mRole m\<rparr>)
                        (filter (\<lambda>m. mOrgID m = oID x \<and> mEmail m = normEmail email) (t_members d)))
               (t_orgs d))"

definition ListOrgsForEmail :: "control \<Rightarrow> string \<Rightarrow> (store_err + Org list) \<times> control" where
  "ListOrgsForEmail db email = query db (\<lambda>d. Inr (newest_first oCreatedAt (orgs_of_email d email)))"

definition CountOrgAdmins :: "control \<Rightarrow> string \<Rightarrow> (store_err + nat) \<times> control" where
  "CountOrgAdmins db i =
     query db (\<lambda>d. Inr (length (filter (\<lambda>m. mOrgID m = i \<and> (mRole m = RoleAdmin \<or> mRole m = ''org_admin'')) (t_members d))))"

definition CountOrgOwners :: "control \<Rightarrow> string \<Rightarrow> (store_err + nat) \<times> control" where
  "CountOrgOwners db i =
     query db (\<lambda>d. Inr (length (filter (\<lambda>m. mOrgID m = i \<and> mRole m = RoleOwner) (t_members d))))"

definition CountOrgs :: "control \<Rightarrow> (store_err + nat) \<times> control" where
  "CountOrgs db = query db (\<lambda>d. Inr (length (t_orgs d)))"

definition CountOrgsByCreator :: "control \<Rightarrow> string \<Rightarrow> (store_err + nat) \<times> control" where
  "CountOrgsByCreator db u = query db (\<lambda>d. Inr (length (filter (\<lambda>x. oCreatedBy x = u) (t_orgs d))))"

section \<open>Members\<close>

definition find_member :: "Member list \<Rightarrow> string \<Rightarrow> string \<Rightarrow> Member option" where
  "find_member ms org email = find (\<lambda>m. mOrgID m = org \<and> mEmail m = email) ms"

definition GetOrgMember :: "control \<Rightarrow> string \<Rightarrow> string \<Rightarrow> (store_err + Member) \<times> control" where
  "GetOrgMember db org email = query db (\<lambda>d. row_option (find_member (t_members d) org (normEmail email)))"

definition member_row :: "gotime \<Rightarrow> Member \<Rightarrow> Member" where
  "member_row now m = m\<lparr>mCreatedAt := (if IsZero (mCreatedAt m) then now else mCreatedAt m)\<rparr>"

text \<open>Look up, then update the role of the row found or insert a new row.\<close>

definition AddOrgMember :: "control \<Rightarrow> Member \<Rightarrow> (store_err + unit) \<times> control" where
  "AddOrgMember db m =
     (let m1 = m\<lparr>mEmail := normEmail (mEmail m), mRole := (if mRole m = [] then RoleEditor else mRole m)\<rparr> in
      case GetOrgMember db (mOrgID m1) (mEmail m1) of
        (Inr existing, db1) \<Rightarrow>
          exec db1 (\<lambda>d. d\<lparr>t_members := map (\<lambda>x. if mID x = mID existing then x\<lparr>mRole := mRole m1\<rparr> else x) (t_members d)\<rparr>)
      | (Inl (SqlErr e), db1) \<Rightarrow> (Inl (SqlErr e), db1)
      | (Inl NotFound, db1) \<Rightarrow>
          (let (m2, db2) = (if mID m1 = [] then (let (i, d) = newID ''mem_'' db1 in (m1\<lparr>mID := i\<rparr>, d)) else (m1, db1)) in
           insert_row db2
             (list_ex (\<lambda>x. mID x = mID m2 \<or> mOrgID x = mOrgID m2 \<and> mEmail x = mEmail m2) (t_members db2))
             (\<lambda>d. d\<lparr>t_members := t_members d @ [member_row (c_now db) m2]\<rparr>)))"

definition ListOrgMembers :: "control \<Rightarrow> string \<Rightarrow> (store_err + Member list) \<times> control" where
  "ListOrgMembers db org =
     query db (\<lambda>d. Inr (newest_first mCreatedAt (filter (\<lambda>m. mOrgID m = org) (t_members d))))"

definition RemoveOrgMember :: "control \<Rightarrow> string \<Rightarrow> string \<Rightarrow> (store_err + unit) \<times> control" where
  "RemoveOrgMember db org email =
     exec db (\<lambda>d. d\<lparr>t_members := filter (\<lambda>m. \<not> (mOrgID m = org \<and> mEmail m = normEmail email)) (t_members d)\<rparr>)"

section \<open>Invitations\<close>

definition InviteStatusPending :: string where "InviteStatusPending = ''pending''"

definition Expired :: "gotime \<Rightarrow> Invitation option \<Rightarrow> bool" where
  "Expired now v = (case v of None \<Rightarrow> False | Some x \<Rightarrow> \<not> IsZero (iExpiresAt x) \<and> iExpiresAt x < now)"

definition CreateInvitation :: "control \<Rightarrow> Invitation \<Rightarrow> (store_err + unit) \<times> Invitation \<times> control" where
  "CreateInvitation db v =
     (let v1 = v\<lparr>iEmail := normEmail (iEmail v), iRole := (if iRole v = [] then RoleViewer else iRole v),
                 iStatus := (if iStatus v = [] then InviteStatusPending else iStatus v)\<rparr>;
          (v2, db1) = (if iID v1 = [] then (let (i, d) = newID ''inv_'' db in (v1\<lparr>iID := i\<rparr>, d)) else (v1, db));
          row = v2\<lparr>iCreatedAt := (if IsZero (iCreatedAt v2) then c_now db else iCreatedAt v2)\<rparr>;
          (r, db2) = insert_row db1 (list_ex (\<lambda>x. iID x = iID row \<or> iToken x = iToken row) (t_invitations db1))
                       (\<lambda>d. d\<lparr>t_invitations := t_invitations d @ [row]\<rparr>)
      in (r, v2, db2))"

definition GetInvitationByToken :: "control \<Rightarrow> string \<Rightarrow> (store_err + Invitation) \<times> control" where
  "GetInvitationByToken db token = query db (\<lambda>d. row_option (find (\<lambda>v. iToken v = token) (t_invitations d)))"

definition ListInvitations :: "control \<Rightarrow> string \<Rightarrow> (store_err + Invitation list) \<times> control" where
  "ListInvitations db org =
     query db (\<lambda>d. Inr (newest_first iCreatedAt (filter (\<lambda>v. iOrgID v = org) (t_invitations d))))"

definition SetInvitationStatus :: "control \<Rightarrow> string \<Rightarrow> string \<Rightarrow> (store_err + unit) \<times> control" where
  "SetInvitationStatus db i status =
     exec db (\<lambda>d. d\<lparr>t_invitations := map (\<lambda>v. if iID v = i then v\<lparr>iStatus := status\<rparr> else v) (t_invitations d)\<rparr>)"

section \<open>The ladder\<close>

lemma NormalizeLegacyRole_cases:
  "NormalizeLegacyRole r \<in> {[], RoleViewer, RoleEditor, RoleAdmin, RoleOwner}"
  by (simp add: NormalizeLegacyRole_def Let_def)

lemma NormalizeLegacyRole_known [simp]:
  "NormalizeLegacyRole RoleViewer = RoleViewer" "NormalizeLegacyRole RoleEditor = RoleEditor"
  "NormalizeLegacyRole RoleAdmin = RoleAdmin" "NormalizeLegacyRole RoleOwner = RoleOwner"
  "NormalizeLegacyRole [] = []"
  by code_simp+

lemma NormalizeLegacyRole_idem [simp]: "NormalizeLegacyRole (NormalizeLegacyRole r) = NormalizeLegacyRole r"
  using NormalizeLegacyRole_cases [of r] by auto

lemma NormalizeRole_cases: "NormalizeRole r \<in> {RoleViewer, RoleEditor, RoleAdmin, RoleOwner}"
  using NormalizeLegacyRole_cases [of r] by (auto simp: NormalizeRole_def Let_def)

lemma roleRank_simps [simp]:
  "roleRank RoleViewer = 1" "roleRank RoleEditor = 2" "roleRank RoleAdmin = 3" "roleRank RoleOwner = 4"
  "roleRank [] = 0"
  by (simp_all add: roleRank_def role_defs)

lemma role_nonempty [simp]: "RoleViewer \<noteq> []" "RoleEditor \<noteq> []" "RoleAdmin \<noteq> []" "RoleOwner \<noteq> []"
  by (simp_all add: role_defs)

lemma NormalizeLegacyRole_NormalizeRole [simp]: "NormalizeLegacyRole (NormalizeRole r) = NormalizeRole r"
  using NormalizeRole_cases [of r] by auto

lemma NormalizeRole_rank: "1 \<le> roleRank (NormalizeRole r)"
  using NormalizeRole_cases [of r] by auto

section \<open>Invariant of the organization tables\<close>

definition orgs_ok :: "control \<Rightarrow> bool" where
  "orgs_ok db \<longleftrightarrow>
     distinct (map oID (t_orgs db)) \<and> distinct (map oSlug (t_orgs db)) \<and>
     list_all (\<lambda>x. oID x \<noteq> []) (t_orgs db) \<and>
     distinct (map mID (t_members db)) \<and>
     distinct (map (\<lambda>m. (mOrgID m, mEmail m)) (t_members db)) \<and>
     list_all (\<lambda>m. mEmail m = normEmail (mEmail m)) (t_members db)"

lemma orgs_ok_tables:
  "t_orgs b = t_orgs a \<Longrightarrow> t_members b = t_members a \<Longrightarrow> orgs_ok b = orgs_ok a"
  by (simp add: orgs_ok_def)

lemma orgs_ok_tick [simp]: "orgs_ok (db\<lparr>c_tick := n\<rparr>) = orgs_ok db" "orgs_ok (db\<lparr>c_ids := n\<rparr>) = orgs_ok db"
  by (simp_all add: orgs_ok_def)

lemma normEmail_idem [simp]: "normEmail (normEmail e) = normEmail e"
  by (simp add: normEmail_def ToLower_def TrimSpace_map_lower comp_def)

lemma distinct_map_upd:
  assumes "\<And>x. f (g x) = f x"
  shows "map f (map (\<lambda>x. if P x then g x else x) xs) = map f xs"
  using assms by simp

lemma list_ex_image: "\<not> list_ex (\<lambda>x. f x = a) xs \<longleftrightarrow> a \<notin> f ` set xs"
  by (auto simp: list_ex_iff)

lemma insert_row_cases:
  assumes "insert_row db c f = (r, db')"
  obtains "db' = db\<lparr>c_tick := Suc (c_tick db)\<rparr>" "r \<noteq> Inr ()"
  | "\<not> c" "r = Inr ()" "db' = f (db\<lparr>c_tick := Suc (c_tick db)\<rparr>)"
  using assms by (auto simp: insert_row_def sql_def split: option.splits if_splits)

lemma exec_cases:
  assumes "exec db f = (r, db')"
  obtains "db' = db\<lparr>c_tick := Suc (c_tick db)\<rparr>" "r \<noteq> Inr ()"
  | "r = Inr ()" "db' = f (db\<lparr>c_tick := Suc (c_tick db)\<rparr>)"
  using assms by (auto simp: exec_def sql_def split: option.splits)

lemma statements_same_tables: "statements n db = (r, db') \<Longrightarrow> same_tables db db'"
proof (induction n arbitrary: db)
  case (Suc n)
  show ?case
  proof (cases "c_fault db (c_tick db)")
    case None
    with Suc.prems have "statements n (db\<lparr>c_tick := Suc (c_tick db)\<rparr>) = (r, db')" by (simp add: sql_def)
    from Suc.IH [OF this] show ?thesis by (rule same_tables_trans [OF same_tables_tick])
  qed (use Suc.prems in \<open>auto simp: sql_def\<close>)
qed simp

lemma orgs_ok_add_org:
  assumes "orgs_ok db" and "oID row \<noteq> []"
    and "\<not> list_ex (\<lambda>x. oID x = oID row \<or> oSlug x = oSlug row) (t_orgs db)"
  shows "orgs_ok (db\<lparr>t_orgs := t_orgs db @ [row]\<rparr>)"
  using assms by (auto simp: orgs_ok_def list_ex_iff)

lemma orgs_ok_add_member:
  assumes "orgs_ok db" and "mEmail row = normEmail (mEmail row)"
    and "\<not> list_ex (\<lambda>x. mID x = mID row \<or> mOrgID x = mOrgID row \<and> mEmail x = mEmail row) (t_members db)"
  shows "orgs_ok (db\<lparr>t_members := t_members db @ [row]\<rparr>)"
  using assms by (auto simp: orgs_ok_def list_ex_iff)

lemma orgs_ok_upd_orgs:
  assumes "orgs_ok db" and "\<And>x. oID (g x) = oID x" and "\<And>x. oSlug (g x) = oSlug x"
  shows "orgs_ok (db\<lparr>t_orgs := map (\<lambda>x. if P x then g x else x) (t_orgs db)\<rparr>)"
  using assms by (auto simp: orgs_ok_def distinct_map_upd list_all_iff simp del: map_map)

lemma orgs_ok_upd_members:
  assumes "orgs_ok db" and "\<And>x. mID (g x) = mID x" and "\<And>x. mOrgID (g x) = mOrgID x" and "\<And>x. mEmail (g x) = mEmail x"
  shows "orgs_ok (db\<lparr>t_members := map (\<lambda>x. if P x then g x else x) (t_members db)\<rparr>)"
  using assms by (auto simp: orgs_ok_def distinct_map_upd list_all_iff simp del: map_map)

lemma orgs_ok_filter:
  assumes "orgs_ok db"
  shows "orgs_ok (db\<lparr>t_members := filter P (t_members db)\<rparr>)" "orgs_ok (db\<lparr>t_orgs := filter Q (t_orgs db)\<rparr>)"
  using assms by (auto simp: orgs_ok_def distinct_map_filter list_all_iff)

lemma CreateOrg_ok:
  assumes "orgs_ok db" and "CreateOrg db o' = (r, o2, db')"
  shows "orgs_ok db'"
proof -
  obtain db1 where c: "complete_org db o' = (o2, db1)"
    and ins: "insert_row db1 (list_ex (\<lambda>x. oID x = oID o2 \<or> oSlug x = oSlug o2) (t_orgs db1))
               (\<lambda>d. d\<lparr>t_orgs := t_orgs d @ [org_row (c_now db) o2]\<rparr>) = (r, db')"
    using assms(2) by (auto simp: CreateOrg_def split: prod.splits)
  have ok: "orgs_ok db1" and ne: "oID (org_row (c_now db) o2) \<noteq> []"
    using c assms(1) by (auto simp: complete_org_def org_row_def newID_def Let_def split: if_splits)
  from ins show ?thesis
  proof (cases rule: insert_row_cases)
    case 1
    with ok show ?thesis by simp
  next
    case 2
    have "orgs_ok (db1\<lparr>t_orgs := t_orgs db1 @ [org_row (c_now db) o2]\<rparr>)"
      by (rule orgs_ok_add_org [OF ok ne]) (use 2(1) in \<open>simp add: org_row_def\<close>)
    with 2(3) show ?thesis by (simp add: orgs_ok_def)
  qed
qed

lemma AddOrgMember_ok:
  assumes "orgs_ok db" and "AddOrgMember db m = (r, db')"
  shows "orgs_ok db'"
proof -
  define m1 where "m1 = m\<lparr>mEmail := normEmail (mEmail m), mRole := (if mRole m = [] then RoleEditor else mRole m)\<rparr>"
  obtain q db1 where q: "GetOrgMember db (mOrgID m1) (mEmail m1) = (q, db1)" by force
  have st: "same_tables db db1" using q query_same_tables by (metis GetOrgMember_def)
  then have ok1: "orgs_ok db1" using assms(1) orgs_ok_tables same_tablesD(1,2) by metis
  note eq = assms(2) [unfolded AddOrgMember_def Let_def m1_def [symmetric] q, simplified]
  show ?thesis
  proof (cases q)
    case (Inr existing)
    with eq have "exec db1 (\<lambda>d. d\<lparr>t_members := map (\<lambda>x. if mID x = mID existing then x\<lparr>mRole := mRole m1\<rparr> else x) (t_members d)\<rparr>) = (r, db')"
      by simp
    then show ?thesis
      by (cases rule: exec_cases)
        (use ok1 orgs_ok_upd_members [OF ok1, of "mRole_update (\<lambda>_. mRole m1)" "\<lambda>x. mID x = mID existing"]
         in \<open>simp_all add: orgs_ok_def\<close>)
  next
    case (Inl e)
    show ?thesis
    proof (cases e)
      case (SqlErr x)
      with Inl eq ok1 show ?thesis by auto
    next
      case NotFound
      define p where "p = (if mID m1 = [] then (let (i, d) = newID ''mem_'' db1 in (m1\<lparr>mID := i\<rparr>, d)) else (m1, db1))"
      have ins: "insert_row (snd p) (list_ex (\<lambda>x. mID x = mID (fst p) \<or> mOrgID x = mOrgID (fst p) \<and> mEmail x = mEmail (fst p)) (t_members (snd p)))
             (\<lambda>d. d\<lparr>t_members := t_members d @ [member_row (c_now db) (fst p)]\<rparr>) = (r, db')"
        using eq Inl NotFound by (auto simp: p_def Let_def split: prod.splits if_splits)
      have ok: "orgs_ok (snd p)" and em: "mEmail (fst p) = normEmail (mEmail (fst p))"
        using ok1 by (auto simp: p_def newID_def m1_def)
      from ins show ?thesis
      proof (cases rule: insert_row_cases)
        case 1
        with ok show ?thesis by simp
      next
        case 2
        have "orgs_ok ((snd p)\<lparr>t_members := t_members (snd p) @ [member_row (c_now db) (fst p)]\<rparr>)"
          by (rule orgs_ok_add_member [OF ok]) (use em 2(1) in \<open>auto simp: member_row_def\<close>)
        with 2(3) show ?thesis by (simp add: orgs_ok_def)
      qed
    qed
  qed
qed

lemma exec_orgs_ok:
  assumes "exec db f = (r, db')" and "orgs_ok db"
    and "\<And>d. t_orgs d = t_orgs db \<Longrightarrow> t_members d = t_members db \<Longrightarrow> orgs_ok d \<Longrightarrow> orgs_ok (f d)"
  shows "orgs_ok db'"
  using assms(1) by (cases rule: exec_cases) (use assms(2,3) in auto)

lemma DeleteOrg_ok:
  assumes "orgs_ok db" and "DeleteOrg db i = (r, db')"
  shows "orgs_ok db'"
proof -
  obtain e db1 where st: "statements 5 db = (e, db1)" by force
  have "orgs_ok db1" using statements_same_tables [OF st] assms(1) orgs_ok_tables same_tablesD(1,2) by metis
  then show ?thesis
    using assms(2) st by (cases e) (auto simp: DeleteOrg_def orgs_ok_def distinct_map_filter list_all_iff)
qed

lemma CreateInvitation_tables:
  assumes "CreateInvitation db v = (r, v2, db')"
  shows "t_orgs db' = t_orgs db \<and> t_members db' = t_members db"
  using assms
  by (auto simp: CreateInvitation_def Let_def newID_def insert_row_def sql_def split: prod.splits option.splits if_splits)

text \<open>Every operation of the organization store that writes keeps the tables well formed
  under every fault plan: identifiers, slugs and the pairs of organization and member address
  stay unique, identifiers non-empty and addresses in normal form.\<close>

theorem org_operations_keep_invariant:
  assumes "orgs_ok db"
  shows "orgs_ok (snd (snd (CreateOrg db o')))" and "orgs_ok (snd (UpdateOrg db o'))"
    and "orgs_ok (snd (SetOrgStatus db i status))" and "orgs_ok (snd (DeleteOrg db i))"
    and "orgs_ok (snd (AddOrgMember db m))" and "orgs_ok (snd (RemoveOrgMember db i email))"
    and "orgs_ok (snd (snd (CreateInvitation db v)))" and "orgs_ok (snd (SetInvitationStatus db i status))"
proof -
  show "orgs_ok (snd (snd (CreateOrg db o')))" using CreateOrg_ok [OF assms] by (metis prod.collapse)
  show "orgs_ok (snd (DeleteOrg db i))" using DeleteOrg_ok [OF assms] by (metis prod.collapse)
  show "orgs_ok (snd (AddOrgMember db m))" using AddOrgMember_ok [OF assms] by (metis prod.collapse)
  show "orgs_ok (snd (UpdateOrg db o'))"
    unfolding UpdateOrg_def by (rule exec_orgs_ok [OF prod.collapse [symmetric] assms]) (rule orgs_ok_upd_orgs, auto)
  show "orgs_ok (snd (SetOrgStatus db i status))"
    unfolding SetOrgStatus_def by (rule exec_orgs_ok [OF prod.collapse [symmetric] assms]) (rule orgs_ok_upd_orgs, auto)
  show "orgs_ok (snd (RemoveOrgMember db i email))"
    unfolding RemoveOrgMember_def by (rule exec_orgs_ok [OF prod.collapse [symmetric] assms]) (rule orgs_ok_filter)
  show "orgs_ok (snd (SetInvitationStatus db i status))"
    unfolding SetInvitationStatus_def by (rule exec_orgs_ok [OF prod.collapse [symmetric] assms]) (simp add: orgs_ok_def)
  show "orgs_ok (snd (snd (CreateInvitation db v)))"
    using CreateInvitation_tables [of db v] assms orgs_ok_tables by (metis prod.collapse)
qed

definition empty_control :: control where
  "empty_control =
     \<lparr>t_orgs = [], t_members = [], t_invitations = [], t_grants = [], t_repos = [], t_tags = [],
      c_now = 0, c_ids = 0, c_rand = (\<lambda>n. nat_digits n), c_tick = 0, c_fault = no_faults\<rparr>"

theorem org_operations_keep_invariant_witness:
  "orgs_ok (snd (snd (CreateOrg empty_control \<lparr>oID = ''org1'', oName = ''Acme'', oSlug = ''acme'', oStatus = [],
     oCreatedBy = ''user:1'', oCreatedAt = zeroTime, oRole = [], oSystemAccess = False\<rparr>)))"
proof -
  have "orgs_ok empty_control" by (simp add: orgs_ok_def empty_control_def)
  from org_operations_keep_invariant(1) [OF this] show ?thesis .
qed

section \<open>Membership\<close>

lemma find_map_role:
  assumes "find (\<lambda>m. mOrgID m = i \<and> mEmail m = e) ms = Some x" and "distinct (map mID ms)"
  shows "find (\<lambda>m. mOrgID m = i \<and> mEmail m = e) (map (\<lambda>y. if mID y = mID x then y\<lparr>mRole := r\<rparr> else y) ms) = Some (x\<lparr>mRole := r\<rparr>)"
  using assms
proof (induction ms)
  case (Cons y ys)
  show ?case
  proof (cases "mOrgID y = i \<and> mEmail y = e")
    case True
    with Cons.prems show ?thesis by auto
  next
    case False
    with Cons.prems have f: "find (\<lambda>m. mOrgID m = i \<and> mEmail m = e) ys = Some x" by auto
    with Cons.prems have "mID y \<noteq> mID x" using find_SomeD [OF f] by auto
    with False Cons.IH [OF f] Cons.prems show ?thesis by auto
  qed
qed simp

lemma find_append_None: "find P xs = None \<Longrightarrow> find P (xs @ ys) = find P ys"
  by (induction xs) auto

text \<open>On a healthy database a membership that was added is found again under any spelling of
  the address that normalizes to the same one, with the role given (editor when none was), and
  an existing member keeps their row and changes only their role.\<close>

theorem AddOrgMember_then_GetOrgMember:
  assumes "ctl_healthy db" and "orgs_ok db" and "AddOrgMember db m = (Inr (), db')"
    and "normEmail e = normEmail (mEmail m)"
  shows "\<exists>x. fst (GetOrgMember db' (mOrgID m) e) = Inr x
           \<and> mRole x = (if mRole m = [] then RoleEditor else mRole m)
           \<and> (\<forall>y. find_member (t_members db) (mOrgID m) (normEmail e) = Some y \<longrightarrow> x = y\<lparr>mRole := mRole x\<rparr>)"
proof -
  define m1 where "m1 = m\<lparr>mEmail := normEmail (mEmail m), mRole := (if mRole m = [] then RoleEditor else mRole m)\<rparr>"
  define db1 where "db1 = db\<lparr>c_tick := Suc (c_tick db)\<rparr>"
  have h1: "ctl_healthy db1" using assms(1) by (simp add: db1_def ctl_healthy_def)
  have q: "GetOrgMember db (mOrgID m1) (mEmail m1) = (row_option (find_member (t_members db) (mOrgID m) (normEmail e)), db1)"
    using assms(1,4) by (simp add: GetOrgMember_def m1_def db1_def)
  note eq = assms(3) [unfolded AddOrgMember_def Let_def m1_def [symmetric] q, simplified]
  show ?thesis
  proof (cases "find_member (t_members db) (mOrgID m) (normEmail e)")
    case (Some y)
    with eq have db': "t_members db' = map (\<lambda>x. if mID x = mID y then x\<lparr>mRole := mRole m1\<rparr> else x) (t_members db)"
      and h': "ctl_healthy db'"
      using h1 by (auto simp: row_option_def exec_def sql_def ctl_healthy_def db1_def)
    have "find_member (t_members db') (mOrgID m) (normEmail e) = Some (y\<lparr>mRole := mRole m1\<rparr>)"
      using find_map_role [OF Some [unfolded find_member_def]] assms(2) by (simp add: db' find_member_def orgs_ok_def)
    with h' Some show ?thesis by (simp add: GetOrgMember_def m1_def row_option_def)
  next
    case None
    define p where "p = (if mID m1 = [] then (let (i, d) = newID ''mem_'' db1 in (m1\<lparr>mID := i\<rparr>, d)) else (m1, db1))"
    have t: "t_members (snd p) = t_members db" "c_fault (snd p) = no_faults"
      "mOrgID (fst p) = mOrgID m" "mEmail (fst p) = normEmail e" "mRole (fst p) = mRole m1"
      using h1 assms(4) by (auto simp: p_def newID_def db1_def ctl_healthy_def m1_def)
    have ins: "insert_row (snd p) (list_ex (\<lambda>x. mID x = mID (fst p) \<or> mOrgID x = mOrgID (fst p) \<and> mEmail x = mEmail (fst p)) (t_members (snd p)))
             (\<lambda>d. d\<lparr>t_members := t_members d @ [member_row (c_now db) (fst p)]\<rparr>) = (Inr (), db')"
      using eq None by (auto simp: row_option_def p_def Let_def split: prod.splits if_splits)
    then have db': "t_members db' = t_members db @ [member_row (c_now db) (fst p)]" "c_fault db' = no_faults"
      using t by (auto simp: insert_row_def sql_def split: if_splits)
    have "find_member (t_members db') (mOrgID m) (normEmail e) = Some (member_row (c_now db) (fst p))"
      using None t by (simp add: find_member_def db' find_append_None member_row_def)
    with db' None t show ?thesis by (simp add: GetOrgMember_def ctl_healthy_def member_row_def m1_def row_option_def)
  qed
qed

theorem AddOrgMember_then_GetOrgMember_witness:
  "\<exists>x. fst (GetOrgMember (snd (AddOrgMember empty_control
         \<lparr>mID = ''m1'', mOrgID = ''org1'', mEmail = ''Ann@X.org'', mRole = [], mInvitedBy = [], mCreatedAt = zeroTime\<rparr>))
       ''org1'' '' ann@x.ORG '') = Inr x \<and> mRole x = RoleEditor"
proof -
  define m where "m = \<lparr>mID = ''m1'', mOrgID = ''org1'', mEmail = ''Ann@X.org'', mRole = [], mInvitedBy = [], mCreatedAt = zeroTime\<rparr>"
  have h: "ctl_healthy empty_control" "orgs_ok empty_control"
    by (simp_all add: ctl_healthy_def orgs_ok_def empty_control_def)
  have n: "normEmail '' ann@x.ORG '' = normEmail (mEmail m)" unfolding m_def by code_simp
  have "fst (AddOrgMember empty_control m) = Inr ()"
    unfolding m_def by code_simp
  then have "AddOrgMember empty_control m = (Inr (), snd (AddOrgMember empty_control m))" by (metis prod.collapse)
  from AddOrgMember_then_GetOrgMember [OF h this n] show ?thesis by (auto simp: m_def)
qed

end
