(* ===== verification/Repos.thy ===== *)
theory Repos
  imports Acl Orgs
begin

text \<open>
  Hosted repositories (\<^verbatim>\<open>internal/repo\<close>): the authorization decision that adds the role
  ladder of the owning organization to the access decision (\<^verbatim>\<open>authz.go\<close>), and the SQL store
  of the tables \<^verbatim>\<open>repos\<close> and \<^verbatim>\<open>repo_tags\<close> (\<^verbatim>\<open>repo.go\<close>, \<^verbatim>\<open>sql.go\<close>).
\<close>

section \<open>Authorization\<close>

record OrgRoleGrant =
  orgOrgID :: string
  orgHave :: string
  orgNeed :: string

definition role_allows :: "OrgRoleGrant \<Rightarrow> string \<Rightarrow> bool" where
  "role_allows g resourceOrgID =
     (if orgOrgID g = [] \<or> orgOrgID g \<noteq> resourceOrgID then False
      else let have' = NormalizeLegacyRole (orgHave g) in
           if have' = [] \<or> orgNeed g = [] then False else AtLeast have' (orgNeed g))"

definition repo_Authorize ::
  "Resource \<Rightarrow> Subject \<Rightarrow> bool \<Rightarrow> string list \<Rightarrow> OrgRoleGrant \<Rightarrow> acl_err option" where
  "repo_Authorize res s needWrite grantedOrgs role =
     (case CanAccessGranted res s needWrite grantedOrgs of
        None \<Rightarrow> None
      | Some err \<Rightarrow>
          if sUserID s = [] then Some err
          else if role_allows role (resOrgID res) then None
          else Some err)"

section \<open>Repositories\<close>

definition VisibilityPrivate :: string where "VisibilityPrivate = ''private''"
definition VisibilityPublic :: string where "VisibilityPublic = ''public''"

definition NormalizeVisibility :: "string \<Rightarrow> string" where
  "NormalizeVisibility v = (if v = VisibilityPublic then VisibilityPublic else VisibilityPrivate)"

definition ToACLResource :: "Repo \<Rightarrow> Resource" where
  "ToACLResource r =
     \<lparr>resOwnerUserID = rpOwnerUserID r, resOrgID = rpOrgID r,
      resVisibility = (if NormalizeVisibility (rpVisibility r) = VisibilityPublic then Public else Private),
      resAccess = ReadAccess\<rparr>"

definition find_repo :: "Repo list \<Rightarrow> string \<Rightarrow> string \<Rightarrow> Repo option" where
  "find_repo rs org name = find (\<lambda>r. rpOrgID r = org \<and> rpName r = name) rs"

definition CreateRepo :: "control \<Rightarrow> string \<Rightarrow> string \<Rightarrow> string \<Rightarrow> string \<Rightarrow> (store_err + Repo) \<times> control" where
  "CreateRepo db org name visibility owner =
     (case newID ''repo_'' db of
        (i, db1) \<Rightarrow>
          (let r = \<lparr>rpID = i, rpOrgID = org, rpName = TrimSpace name, rpVisibility = NormalizeVisibility visibility,
                    rpOwnerUserID = owner, rpCreatedAt = c_now db\<rparr> in
           case insert_row db1 (list_ex (\<lambda>x. rpID x = rpID r \<or> rpOrgID x = rpOrgID r \<and> rpName x = rpName r) (t_repos db1))
                  (\<lambda>d. d\<lparr>t_repos := t_repos d @ [r]\<rparr>) of
             (Inl e, db2) \<Rightarrow> (Inl e, db2)
           | (Inr _, db2) \<Rightarrow> (Inr r, db2)))"

definition GetRepo :: "control \<Rightarrow> string \<Rightarrow> string \<Rightarrow> (store_err + Repo) \<times> control" where
  "GetRepo db org name = query db (\<lambda>d. row_option (find_repo (t_repos d) org (TrimSpace name)))"

definition ListRepos :: "control \<Rightarrow> string \<Rightarrow> (store_err + Repo list) \<times> control" where
  "ListRepos db org =
     query db (\<lambda>d. Inr (newest_first rpCreatedAt (filter (\<lambda>r. rpOrgID r = org) (t_repos d))))"

definition SetVisibility :: "control \<Rightarrow> string \<Rightarrow> string \<Rightarrow> string \<Rightarrow> (store_err + unit) \<times> control" where
  "SetVisibility db org name visibility =
     exec db (\<lambda>d. d\<lparr>t_repos := map (\<lambda>r. if rpOrgID r = org \<and> rpName r = TrimSpace name
                                        then r\<lparr>rpVisibility := NormalizeVisibility visibility\<rparr> else r) (t_repos d)\<rparr>)"

text \<open>One transaction: begin and look up, then the two deletions and the commit.\<close>

definition DeleteRepo :: "control \<Rightarrow> string \<Rightarrow> string \<Rightarrow> (store_err + unit) \<times> control" where
  "DeleteRepo db org name =
     (case statements 2 db of
        (Some e, db1) \<Rightarrow> (Inl (SqlErr e), db1)
      | (None, db1) \<Rightarrow>
          (case find_repo (t_repos db1) org (TrimSpace name) of
             None \<Rightarrow> (Inl NotFound, db1)
           | Some r \<Rightarrow>
               (case statements 3 db1 of
                  (Some e, db2) \<Rightarrow> (Inl (SqlErr e), db2)
                | (None, db2) \<Rightarrow>
                    (Inr (), db2\<lparr>t_tags := filter (\<lambda>t. tgRepoID t \<noteq> rpID r) (t_tags db2),
                                 t_repos := filter (\<lambda>x. rpID x \<noteq> rpID r) (t_repos db2)\<rparr>))))"

section \<open>Tags\<close>

fun put_tag :: "Tag \<Rightarrow> Tag list \<Rightarrow> Tag list" where
  "put_tag t [] = [t]"
| "put_tag t (x # xs) =
     (if tgRepoID x = tgRepoID t \<and> tgTag x = tgTag t
      then x\<lparr>tgDigest := tgDigest t, tgUpdatedAt := tgUpdatedAt t\<rparr> # xs else x # put_tag t xs)"

definition PutTag :: "control \<Rightarrow> string \<Rightarrow> string \<Rightarrow> string \<Rightarrow> (store_err + unit) \<times> control" where
  "PutTag db repoID tag digest =
     exec db (\<lambda>d. d\<lparr>t_tags := put_tag \<lparr>tgRepoID = repoID, tgTag = tag, tgDigest = digest, tgUpdatedAt = c_now db\<rparr> (t_tags d)\<rparr>)"

definition find_tag :: "Tag list \<Rightarrow> string \<Rightarrow> string \<Rightarrow> Tag option" where
  "find_tag ts repoID tag = find (\<lambda>t. tgRepoID t = repoID \<and> tgTag t = tag) ts"

definition GetTag :: "control \<Rightarrow> string \<Rightarrow> string \<Rightarrow> (store_err + Tag) \<times> control" where
  "GetTag db repoID tag = query db (\<lambda>d. row_option (find_tag (t_tags d) repoID tag))"

definition ListTags :: "control \<Rightarrow> string \<Rightarrow> (store_err + Tag list) \<times> control" where
  "ListTags db repoID =
     query db (\<lambda>d. Inr (isort (\<lambda>a b. tgTag a \<le> tgTag b) (filter (\<lambda>t. tgRepoID t = repoID) (t_tags d))))"

definition DeleteTag :: "control \<Rightarrow> string \<Rightarrow> string \<Rightarrow> (store_err + unit) \<times> control" where
  "DeleteTag db repoID tag =
     exec db (\<lambda>d. d\<lparr>t_tags := filter (\<lambda>t. \<not> (tgRepoID t = repoID \<and> tgTag t = tag)) (t_tags d)\<rparr>)"

section \<open>Properties\<close>

text \<open>Every repository row is unique by identifier and by organization and name.\<close>

definition repos_ok :: "control \<Rightarrow> bool" where
  "repos_ok db \<longleftrightarrow> distinct (map rpID (t_repos db))
     \<and> distinct (map (\<lambda>r. (rpOrgID r, rpName r)) (t_repos db))
     \<and> distinct (map (\<lambda>t. (tgRepoID t, tgTag t)) (t_tags db))"

lemma NormalizeVisibility_idem [simp]: "NormalizeVisibility (NormalizeVisibility v) = NormalizeVisibility v"
  by (simp add: NormalizeVisibility_def)

lemma ToACLResource_simps [simp]:
  "resOwnerUserID (ToACLResource r) = rpOwnerUserID r" "resOrgID (ToACLResource r) = rpOrgID r"
  "resAccess (ToACLResource r) = ReadAccess"
  by (simp_all add: ToACLResource_def)

lemma ToACLResource_visibility:
  "resVisibility (ToACLResource r) = (if rpVisibility r = VisibilityPublic then Public else Private)"
  by (simp add: ToACLResource_def NormalizeVisibility_def VisibilityPublic_def VisibilityPrivate_def)

lemma role_allows_iff:
  "role_allows g i \<longleftrightarrow> i \<noteq> [] \<and> orgOrgID g = i \<and> orgNeed g \<noteq> [] \<and> NormalizeLegacyRole (orgHave g) \<noteq> []
     \<and> roleRank (orgNeed g) \<le> roleRank (NormalizeLegacyRole (orgHave g))"
  by (auto simp: role_allows_def Let_def AtLeast_def)

lemma repo_Authorize_None_iff:
  "repo_Authorize res s w gs role = None \<longleftrightarrow>
     CanAccessGranted res s w gs = None \<or> sUserID s \<noteq> [] \<and> role_allows role (resOrgID res)"
  by (simp add: repo_Authorize_def split: option.splits)

lemma GetRepo_same_tables: "GetRepo db i n = (r, db') \<Longrightarrow> same_tables db db'"
  unfolding GetRepo_def by (rule query_same_tables)

lemma GetRepo_found: "GetRepo db i n = (Inr r, db') \<Longrightarrow> find_repo (t_repos db) i (TrimSpace n) = Some r"
  using query_answer [of db _ r db'] by (force simp: GetRepo_def)

lemma find_repoD: "find_repo rs i n = Some r \<Longrightarrow> r \<in> set rs \<and> rpOrgID r = i \<and> rpName r = n"
  unfolding find_repo_def by (drule find_SomeD) auto

text \<open>On the repositories of a store (which are private or public, never shared inside the
  organization by an access column) the decision of \<^verbatim>\<open>repo.Authorize\<close> for a caller who is not a
  platform administrator is exactly: the owner; or a public repository for reading; or an
  authenticated caller whose role, resolved in the organization of the repository and one of
  the known rungs, is at least the rung needed. A role resolved in another organization or an
  unknown role grants nothing, and an anonymous caller reads public repositories only.\<close>

theorem repo_Authorize_iff:
  assumes "\<not> sAdmin s"
  shows "repo_Authorize (ToACLResource r) s w gs role = None \<longleftrightarrow>
     (rpOwnerUserID r \<noteq> [] \<and> rpOwnerUserID r = sUserID s)
     \<or> (\<not> w \<and> rpVisibility r = VisibilityPublic)
     \<or> (sUserID s \<noteq> [] \<and> rpOrgID r \<noteq> [] \<and> orgOrgID role = rpOrgID r \<and> orgNeed role \<noteq> []
        \<and> NormalizeLegacyRole (orgHave role) \<noteq> []
        \<and> roleRank (orgNeed role) \<le> roleRank (NormalizeLegacyRole (orgHave role)))"
  using assms
  by (auto simp: repo_Authorize_None_iff role_allows_iff CanAccessGranted_None_iff canRead_def canWrite_def isOwner_def
      ToACLResource_visibility)

theorem repo_Authorize_iff_witness:
  "repo_Authorize (ToACLResource \<lparr>rpID = ''repo_1'', rpOrgID = ''org1'', rpName = ''acme/app'', rpVisibility = ''private'',
       rpOwnerUserID = ''apikey:1'', rpCreatedAt = 0\<rparr>) \<lparr>sUserID = ''user:2'', sOrgID = ''org1'', sAdmin = False\<rparr> True []
     \<lparr>orgOrgID = ''org1'', orgHave = ''Member'', orgNeed = RoleEditor\<rparr> = None"
proof -
  have "NormalizeLegacyRole ''Member'' = RoleEditor" by code_simp
  then show ?thesis
    using repo_Authorize_iff [of "\<lparr>sUserID = ''user:2'', sOrgID = ''org1'', sAdmin = False\<rparr>"
        "\<lparr>rpID = ''repo_1'', rpOrgID = ''org1'', rpName = ''acme/app'', rpVisibility = ''private'',
       rpOwnerUserID = ''apikey:1'', rpCreatedAt = 0\<rparr>" True "[]" "\<lparr>orgOrgID = ''org1'', orgHave = ''Member'', orgNeed = RoleEditor\<rparr>"]
    by simp
qed

lemma put_tag_key [simp]:
  "(\<lambda>t. (tgRepoID t, tgTag t)) ` set (put_tag t ts) = insert (tgRepoID t, tgTag t) ((\<lambda>t. (tgRepoID t, tgTag t)) ` set ts)"
  by (induction ts) auto

lemma distinct_put_tag:
  "distinct (map (\<lambda>t. (tgRepoID t, tgTag t)) ts) \<Longrightarrow> distinct (map (\<lambda>t. (tgRepoID t, tgTag t)) (put_tag t ts))"
proof (induction ts)
  case (Cons x xs)
  then show ?case using put_tag_key [of t xs] by (auto simp del: put_tag_key)
qed simp

lemma CreateRepo_cases:
  assumes "CreateRepo db org name vis owner = (q, db')"
  obtains e where "q = Inl e" "t_repos db' = t_repos db" "t_tags db' = t_tags db"
  | r where "q = Inr r" "t_repos db' = t_repos db @ [r]" "t_tags db' = t_tags db"
    "r = \<lparr>rpID = ''repo_'' @ c_rand db (c_ids db), rpOrgID = org, rpName = TrimSpace name,
          rpVisibility = NormalizeVisibility vis, rpOwnerUserID = owner, rpCreatedAt = c_now db\<rparr>"
    "\<not> list_ex (\<lambda>x. rpID x = rpID r \<or> rpOrgID x = org \<and> rpName x = TrimSpace name) (t_repos db)"
  using assms
  by (auto simp: CreateRepo_def newID_def insert_row_def sql_def Let_def split: option.splits if_splits sum.splits)

lemma CreateRepo_ok:
  assumes "repos_ok db" and "CreateRepo db org name vis owner = (q, db')"
  shows "repos_ok db'"
  using assms(2) by (cases rule: CreateRepo_cases) (use assms(1) in \<open>auto simp: repos_ok_def list_ex_iff\<close>)

lemma DeleteRepo_ok:
  assumes "repos_ok db" and "DeleteRepo db org name = (q, db')"
  shows "repos_ok db'"
proof -
  obtain e1 db1 where s1: "statements 2 db = (e1, db1)" by force
  note t1 = same_tablesD(4,5) [OF statements_same_tables [OF s1]]
  obtain e2 db2 where s2: "statements 3 db1 = (e2, db2)" by force
  note t2 = same_tablesD(4,5) [OF statements_same_tables [OF s2]]
  show ?thesis
    using assms s1 s2 t1 t2
    by (cases e1; cases e2) (auto simp: DeleteRepo_def repos_ok_def distinct_map_filter split: option.splits)
qed

end
