(* ===== verification/Grants.thy ===== *)
theory Grants
  imports Control
begin

text \<open>
  Cross-organization sharing (\<^verbatim>\<open>internal/grant/grant.go\<close>): the table
  \<^verbatim>\<open>resource_grants\<close> with the primary key of resource and subject.
\<close>

definition SubjectOrg :: string where "SubjectOrg = ''org''"
definition SubjectUser :: string where "SubjectUser = ''user''"
definition AccessRead :: string where "AccessRead = ''read''"
definition AccessWrite :: string where "AccessWrite = ''write''"

definition Allows :: "string \<Rightarrow> bool \<Rightarrow> bool" where
  "Allows access needWrite =
     (if access \<noteq> AccessRead \<and> access \<noteq> AccessWrite then False
      else if needWrite then access = AccessWrite
      else True)"

definition normAccess :: "string \<Rightarrow> string" where
  "normAccess a = (if a = AccessWrite then AccessWrite else AccessRead)"

definition grant_key :: "Grant \<Rightarrow> string \<times> string \<times> string \<times> string" where
  "grant_key g = (gResourceType g, gResourceID g, gSubjectType g, gSubjectID g)"

definition grant_le :: "Grant \<Rightarrow> Grant \<Rightarrow> bool" where
  "grant_le a b \<longleftrightarrow> (gSubjectType a, gSubjectID a) \<le> (gSubjectType b, gSubjectID b)"

definition GrantsOf :: "control \<Rightarrow> string \<Rightarrow> string \<Rightarrow> (store_err + Grant list) \<times> control" where
  "GrantsOf db rt ri =
     query db (\<lambda>d. Inr (isort grant_le (filter (\<lambda>g. gResourceType g = rt \<and> gResourceID g = ri) (t_grants d))))"

fun upsert_grant :: "Grant \<Rightarrow> Grant list \<Rightarrow> Grant list" where
  "upsert_grant g [] = [g]"
| "upsert_grant g (x # xs) =
     (if grant_key x = grant_key g
      then x\<lparr>gAccess := gAccess g, gGrantedBy := gGrantedBy g, gCreatedAt := gCreatedAt g\<rparr> # xs
      else x # upsert_grant g xs)"

definition grant_Upsert :: "control \<Rightarrow> Grant \<Rightarrow> (store_err + unit) \<times> control" where
  "grant_Upsert db g =
     (let g1 = g\<lparr>gCreatedAt := (if IsZero (gCreatedAt g) then c_now db else gCreatedAt g),
                 gAccess := normAccess (gAccess g)\<rparr> in
      exec db (\<lambda>d. d\<lparr>t_grants := upsert_grant g1 (t_grants d)\<rparr>))"

definition grant_Delete :: "control \<Rightarrow> string \<Rightarrow> string \<Rightarrow> string \<Rightarrow> string \<Rightarrow> (store_err + unit) \<times> control" where
  "grant_Delete db rt ri st si =
     exec db (\<lambda>d. d\<lparr>t_grants := filter (\<lambda>g. grant_key g \<noteq> (rt, ri, st, si)) (t_grants d)\<rparr>)"

text \<open>A failing query counts as no grant.\<close>

definition GrantedOrgs :: "control \<Rightarrow> string \<Rightarrow> string \<Rightarrow> string list \<times> control" where
  "GrantedOrgs db rt ri =
     (case sql db of
        (Some e, db') \<Rightarrow> ([], db')
      | (None, db') \<Rightarrow>
          (map gSubjectID (filter (\<lambda>g. gResourceType g = rt \<and> gResourceID g = ri \<and> gSubjectType g = SubjectOrg) (t_grants db)), db'))"

definition OrgAccess :: "control \<Rightarrow> string \<Rightarrow> string \<Rightarrow> string \<Rightarrow> string \<times> control" where
  "OrgAccess db rt ri org =
     (if org = [] then ([], db)
      else
        case sql db of
          (Some e, db') \<Rightarrow> ([], db')
        | (None, db') \<Rightarrow>
            (case find (\<lambda>g. grant_key g = (rt, ri, SubjectOrg, org)) (t_grants db) of
               None \<Rightarrow> ([], db')
             | Some g \<Rightarrow> (normAccess (gAccess g), db')))"

definition PurgeSubject :: "control \<Rightarrow> string \<Rightarrow> string \<Rightarrow> (store_err + unit) \<times> control" where
  "PurgeSubject db st si =
     exec db (\<lambda>d. d\<lparr>t_grants := filter (\<lambda>g. \<not> (gSubjectType g = st \<and> gSubjectID g = si)) (t_grants d)\<rparr>)"

section \<open>Properties\<close>

lemma access_distinct [simp]: "AccessRead \<noteq> AccessWrite" "AccessWrite \<noteq> AccessRead" "AccessRead \<noteq> []" "AccessWrite \<noteq> []"
  by (simp_all add: AccessRead_def AccessWrite_def)

lemma normAccess_cases: "normAccess a = AccessRead \<or> normAccess a = AccessWrite"
  by (simp add: normAccess_def)

lemma normAccess_idem [simp]: "normAccess (normAccess a) = normAccess a"
  by (simp add: normAccess_def)

lemma Allows_empty [simp]: "\<not> Allows [] w"
  by (simp add: Allows_def AccessRead_def AccessWrite_def)

lemma Allows_mono: "Allows a True \<Longrightarrow> Allows a w"
  by (auto simp: Allows_def split: if_splits)

definition grants_ok :: "control \<Rightarrow> bool" where
  "grants_ok db \<longleftrightarrow> distinct (map grant_key (t_grants db))
     \<and> list_all (\<lambda>g. gAccess g = AccessRead \<or> gAccess g = AccessWrite) (t_grants db)"

lemma grant_key_upd [simp]:
  "grant_key (g\<lparr>gGrantedBy := b\<rparr>) = grant_key g" "grant_key (g\<lparr>gAccess := a\<rparr>) = grant_key g" "grant_key (g\<lparr>gCreatedAt := c\<rparr>) = grant_key g"
  by (simp_all add: grant_key_def)

lemma upsert_grant_keys: "grant_key ` set (upsert_grant g gs) = insert (grant_key g) (grant_key ` set gs)"
  by (induction gs) auto

lemma distinct_upsert_grant: "distinct (map grant_key gs) \<Longrightarrow> distinct (map grant_key (upsert_grant g gs))"
proof (induction gs)
  case (Cons x xs)
  have "grant_key x \<notin> grant_key ` set (upsert_grant g xs)" if "grant_key x \<noteq> grant_key g"
    using that Cons.prems by (simp add: upsert_grant_keys)
  with Cons show ?case by auto
qed simp

lemma find_upsert_grant:
  "find (\<lambda>x. grant_key x = k) (upsert_grant g gs) =
     (if k = grant_key g
      then Some (case find (\<lambda>x. grant_key x = k) gs of
                   None \<Rightarrow> g | Some x \<Rightarrow> x\<lparr>gAccess := gAccess g, gGrantedBy := gGrantedBy g, gCreatedAt := gCreatedAt g\<rparr>)
      else find (\<lambda>x. grant_key x = k) gs)"
  by (induction gs) auto

lemma upsert_grant_access:
  assumes "\<forall>x \<in> set gs. gAccess x = AccessRead \<or> gAccess x = AccessWrite"
    and "gAccess g = AccessRead \<or> gAccess g = AccessWrite"
  shows "\<forall>x \<in> set (upsert_grant g gs). gAccess x = AccessRead \<or> gAccess x = AccessWrite"
  using assms by (induction gs) auto

lemma GrantedOrgs_same_tables: "GrantedOrgs db rt ri = (gs, db') \<Longrightarrow> same_tables db db'"
  by (auto simp: GrantedOrgs_def sql_def split: option.splits)

lemma OrgAccess_same_tables: "OrgAccess db rt ri i = (a, db') \<Longrightarrow> same_tables db db'"
  by (auto simp: OrgAccess_def sql_def split: option.splits if_splits)

text \<open>The organizations a resource is shared with, read off the table.\<close>

definition shared_with :: "control \<Rightarrow> string \<Rightarrow> string \<Rightarrow> string \<Rightarrow> bool" where
  "shared_with db rt ri org \<longleftrightarrow> (\<exists>g \<in> set (t_grants db). grant_key g = (rt, ri, SubjectOrg, org))"

lemma GrantedOrgs_shared: "GrantedOrgs db rt ri = (gs, db') \<Longrightarrow> i \<in> set gs \<Longrightarrow> shared_with db rt ri i"
  by (auto simp: GrantedOrgs_def sql_def shared_with_def grant_key_def split: option.splits)

lemma OrgAccess_shared: "OrgAccess db rt ri i = (a, db') \<Longrightarrow> a \<noteq> [] \<Longrightarrow> shared_with db rt ri i"
  by (auto simp: OrgAccess_def sql_def shared_with_def split: option.splits if_splits dest: find_SomeD) 

text \<open>On a healthy database the share just written is the one found: the granted
  organization gets write access exactly when \<^verbatim>\<open>write\<close> was granted and read access for every
  other word, the access of every other organization on the resource is untouched, and the
  table keeps one row per resource and subject with a known access level. Deleting the share
  takes the access away.\<close>

theorem grant_Upsert_then_OrgAccess:
  assumes "ctl_healthy db" and "grants_ok db" and "org \<noteq> []"
    and "g = \<lparr>gResourceType = rt, gResourceID = ri, gSubjectType = SubjectOrg, gSubjectID = org,
              gAccess = a, gGrantedBy = by', gCreatedAt = c\<rparr>"
    and "db' = snd (grant_Upsert db g)"
  shows "fst (grant_Upsert db g) = Inr () \<and> grants_ok db'
     \<and> (\<forall>w. Allows (fst (OrgAccess db' rt ri org)) w \<longleftrightarrow> \<not> w \<or> a = AccessWrite)
     \<and> (\<forall>i. i \<noteq> org \<longrightarrow> fst (OrgAccess db' rt ri i) = fst (OrgAccess db rt ri i))
     \<and> fst (OrgAccess (snd (grant_Delete db' rt ri SubjectOrg org)) rt ri org) = []"
proof -
  define g1 where "g1 = g\<lparr>gCreatedAt := (if IsZero (gCreatedAt g) then c_now db else gCreatedAt g), gAccess := normAccess (gAccess g)\<rparr>"
  have k: "grant_key g1 = (rt, ri, SubjectOrg, org)" and ga: "gAccess g1 = normAccess a"
    by (simp_all add: g1_def assms(4) grant_key_def)
  have up: "grant_Upsert db g = (Inr (), db\<lparr>c_tick := Suc (c_tick db), t_grants := upsert_grant g1 (t_grants db)\<rparr>)"
    using assms(1) by (simp add: grant_Upsert_def Let_def g1_def exec_def sql_def ctl_healthy_def)
  then have db': "t_grants db' = upsert_grant g1 (t_grants db)" "c_fault db' = no_faults"
    using assms(1,5) by (simp_all add: ctl_healthy_def)
  have ok: "grants_ok db'"
    using assms(2) upsert_grant_access [of "t_grants db" g1] ga normAccess_cases [of a]
    by (simp add: grants_ok_def db' distinct_upsert_grant list_all_iff)
  have mine: "fst (OrgAccess db' rt ri org) = normAccess a"
    using assms(3) by (simp add: OrgAccess_def sql_def db' find_upsert_grant k ga split: option.splits)
  have other: "fst (OrgAccess db' rt ri i) = fst (OrgAccess db rt ri i)" if "i \<noteq> org" for i
    using that assms(1) by (simp add: OrgAccess_def sql_def db' find_upsert_grant k ctl_healthy_def split: option.splits)
  have "find (\<lambda>x. grant_key x = (rt, ri, SubjectOrg, org)) (filter (\<lambda>x. grant_key x \<noteq> (rt, ri, SubjectOrg, org)) gs) = None" for gs
    by (simp add: find_None_iff)
  then have del: "fst (OrgAccess (snd (grant_Delete db' rt ri SubjectOrg org)) rt ri org) = []"
    using assms(3) by (simp add: OrgAccess_def grant_Delete_def exec_def sql_def db')
  show ?thesis
    using ok mine other del by (auto simp: up Allows_def normAccess_def)
qed

theorem grant_Upsert_then_OrgAccess_witness:
  "Allows (fst (OrgAccess (snd (grant_Upsert
      \<lparr>t_orgs = [], t_members = [], t_invitations = [], t_grants = [], t_repos = [], t_tags = [],
       c_now = 0, c_ids = 0, c_rand = (\<lambda>n. []), c_tick = 0, c_fault = no_faults\<rparr>
      \<lparr>gResourceType = ''repo'', gResourceID = ''repo_1'', gSubjectType = SubjectOrg, gSubjectID = ''org2'',
       gAccess = ''WRITE'', gGrantedBy = ''user:1'', gCreatedAt = zeroTime\<rparr>)) ''repo'' ''repo_1'' ''org2'')) True = False"
proof -
  define db where "db = \<lparr>t_orgs = [], t_members = [], t_invitations = [], t_grants = [], t_repos = [], t_tags = [],
       c_now = 0, c_ids = 0, c_rand = (\<lambda>n. []), c_tick = 0, c_fault = no_faults\<rparr>"
  have "ctl_healthy db" "grants_ok db" by (simp_all add: ctl_healthy_def grants_ok_def db_def)
  from grant_Upsert_then_OrgAccess [OF this, of "''org2''", OF _ refl refl, of "''repo''" "''repo_1''" "''WRITE''"]
  have "Allows (fst (OrgAccess (snd (grant_Upsert db \<lparr>gResourceType = ''repo'', gResourceID = ''repo_1'', gSubjectType = SubjectOrg,
       gSubjectID = ''org2'', gAccess = ''WRITE'', gGrantedBy = ''user:1'', gCreatedAt = zeroTime\<rparr>)) ''repo'' ''repo_1'' ''org2'')) True
     \<longleftrightarrow> ''WRITE'' = AccessWrite"
    by simp
  then show ?thesis by (simp add: db_def AccessWrite_def)
qed

end
