(* ===== verification/RegistryAuthz.thy ===== *)
theory RegistryAuthz
  imports Repos Grants
begin

text \<open>
  The registry authorization seams: API-key scopes (\<^verbatim>\<open>internal/apikey/scopes.go\<close>), scopes
  and claims of the token flow (\<^verbatim>\<open>internal/registrytoken\<close>), and the glue that decides which
  actions a principal gets on a repository name (\<^verbatim>\<open>internal/registryauthz/authz.go\<close>).
  Signing and verifying the token is a library's work; the claims a verified token carries
  are the ones that were minted.
\<close>

section \<open>Actions and key scopes\<close>

definition ActionPull :: string where "ActionPull = ''pull''"
definition ActionPush :: string where "ActionPush = ''push''"
definition ActionDelete :: string where "ActionDelete = ''delete''"

definition ScopePull :: string where "ScopePull = ''pull''"
definition ScopePush :: string where "ScopePush = ''push''"

definition DefaultScopes :: "string list" where
  "DefaultScopes = [ScopePull, ScopePush]"

definition NormalizeScopes :: "string list \<Rightarrow> string list" where
  "NormalizeScopes scopes =
     (if scopes = [] then DefaultScopes
      else
        let wantPull = list_ex (\<lambda>s. ToLower (TrimSpace s) = ScopePull) scopes;
            wantPush = list_ex (\<lambda>s. ToLower (TrimSpace s) = ScopePush) scopes in
        if \<not> wantPull \<and> \<not> wantPush then DefaultScopes
        else (if wantPull then [ScopePull] else []) @ (if wantPush then [ScopePush] else []))"

definition AllowsAction :: "string list \<Rightarrow> string \<Rightarrow> bool" where
  "AllowsAction scopes action =
     (let has = NormalizeScopes scopes in
      if action = ''pull'' then List.member has ScopePull
      else if action = ''push'' \<or> action = ''delete'' then List.member has ScopePush
      else False)"

section \<open>Token scopes\<close>

record Scope =
  scType :: string
  scName :: string
  scActions :: "string list"

record Access =
  acType :: string
  acName :: string
  acActions :: "string list"

record AccessClaims =
  clSubject :: string
  clAccess :: "Access list"

definition claims_Allows :: "AccessClaims \<Rightarrow> string \<Rightarrow> string \<Rightarrow> bool" where
  "claims_Allows c repoName action =
     list_ex (\<lambda>a. acType a = ''repository'' \<and> acName a = repoName \<and> list_ex (\<lambda>x. x = action) (acActions a)) (clAccess c)"

definition parse_scope :: "string \<Rightarrow> Scope option" where
  "parse_scope raw =
     (let s = TrimSpace raw in
      if s = [] then None
      else
        case (IndexByte s CHR '':'', LastIndexByte s CHR '':'') of
          (Some first, Some last') \<Rightarrow>
            if last' \<le> first then None
            else
              (let typ = take first s; name = drop (first + 1) (take last' s); actionsRaw = drop (last' + 1) s in
               if typ = [] \<or> name = [] \<or> actionsRaw = [] then None
               else
                 let actions = filter (\<lambda>a. a \<noteq> []) (map TrimSpace (Split actionsRaw CHR '','')) in
                 if actions = [] then None else Some \<lparr>scType = typ, scName = name, scActions = actions\<rparr>)
        | _ \<Rightarrow> None)"

definition ParseScopes :: "string list \<Rightarrow> Scope list" where
  "ParseScopes raw = List.map_filter parse_scope raw"

text \<open>\<^verbatim>\<open>strings.Fields\<close>, and the flattening of the scope parameters of a token request.\<close>

fun Fields_from :: "string \<Rightarrow> string \<Rightarrow> string list" where
  "Fields_from w [] = (if w = [] then [] else [rev w])"
| "Fields_from w (c # cs) =
     (if go_space c then (if w = [] then [] else [rev w]) @ Fields_from [] cs else Fields_from (c # w) cs)"

definition scopeValues :: "string list \<Rightarrow> string list" where
  "scopeValues raw = concat (map (Fields_from []) raw)"

definition actionForMethod :: "string \<Rightarrow> string" where
  "actionForMethod method =
     (if method = ''GET'' \<or> method = ''HEAD'' then ActionPull
      else if method = ''DELETE'' then ActionDelete
      else ActionPush)"

definition ParseResourceScope :: "string \<Rightarrow> string \<Rightarrow> (string \<times> string) option" where
  "ParseResourceScope method path =
     (if path = ''/v2'' \<or> path = ''/v2/'' then None
      else if \<not> HasPrefix path ''/v2/'' then None
      else
        let rest = TrimPrefix path ''/v2/'';
            named = (\<lambda>name. if name = [] then None else Some (name, actionForMethod method)) in
        if Contains rest ''/blobs/uploads'' then
          (let name = take (the (Index rest ''/blobs/uploads'')) rest in
           if name = [] then None else Some (name, ActionPush))
        else if Contains rest ''/manifests/'' then named (take (the (LastIndex rest ''/manifests/'')) rest)
        else if Contains rest ''/blobs/'' then named (take (the (LastIndex rest ''/blobs/'')) rest)
        else if HasSuffix rest ''/tags/list'' then named (TrimSuffix rest ''/tags/list'')
        else if Contains rest ''/referrers/'' then named (take (the (LastIndex rest ''/referrers/'')) rest)
        else None)"

section \<open>Principals and the organization of a name\<close>

record Principal =
  pSubject :: string
  pOrgID :: string
  pEmail :: string
  pAnonymous :: bool
  pKeyScopes :: "string list"

definition namespaceOf :: "string \<Rightarrow> string" where
  "namespaceOf repoName =
     (case IndexByte repoName CHR ''/'' of
        Some i \<Rightarrow> if 0 < i then take i repoName else []
      | None \<Rightarrow> [])"

definition resolveOrgID :: "control \<Rightarrow> string \<Rightarrow> string option \<times> control" where
  "resolveOrgID db namespace =
     (if namespace = [] then (None, db)
      else
        case GetOrgBySlug db namespace of
          (Inr o1, db1) \<Rightarrow> (Some (oID o1), db1)
        | (Inl _, db1) \<Rightarrow>
            (case GetOrg db1 namespace of
               (Inr o2, db2) \<Rightarrow> (Some (oID o2), db2)
             | (Inl _, db2) \<Rightarrow> (None, db2)))"

definition subjectForOrg :: "control \<Rightarrow> Principal \<Rightarrow> string \<Rightarrow> Subject \<times> control" where
  "subjectForOrg db p org =
     (if pAnonymous p \<or> pSubject p = [] then (\<lparr>sUserID = [], sOrgID = [], sAdmin = False\<rparr>, db)
      else if pOrgID p \<noteq> [] then (\<lparr>sUserID = pSubject p, sOrgID = pOrgID p, sAdmin = False\<rparr>, db)
      else if pEmail p \<noteq> [] then
        (case GetOrgMember db org (pEmail p) of
           (Inr m, db1) \<Rightarrow> (\<lparr>sUserID = pSubject p, sOrgID = org, sAdmin = False\<rparr>, db1)
         | (Inl _, db1) \<Rightarrow> (\<lparr>sUserID = pSubject p, sOrgID = [], sAdmin = False\<rparr>, db1))
      else (\<lparr>sUserID = pSubject p, sOrgID = [], sAdmin = False\<rparr>, db))"

definition orgRoleOf :: "control \<Rightarrow> Principal \<Rightarrow> string \<Rightarrow> string \<times> control" where
  "orgRoleOf db p org =
     (if pAnonymous p \<or> pSubject p = [] \<or> org = [] then ([], db)
      else if pOrgID p \<noteq> [] then (if pOrgID p \<noteq> org then ([], db) else (RoleAdmin, db))
      else if pEmail p = [] then ([], db)
      else
        case GetOrgMember db org (pEmail p) of
          (Inl _, db1) \<Rightarrow> ([], db1)
        | (Inr m, db1) \<Rightarrow> (NormalizeRole (mRole m), db1))"

definition roleNeededFor :: "bool \<Rightarrow> string" where
  "roleNeededFor needWrite = (if needWrite then RoleEditor else RoleViewer)"

text \<open>A repository that cannot be read counts as one that does not exist yet.\<close>

definition resourceFor :: "control \<Rightarrow> string \<Rightarrow> string \<Rightarrow> Resource \<times> control" where
  "resourceFor db org repoName =
     (case GetRepo db org repoName of
        (Inr r, db1) \<Rightarrow> (ToACLResource r, db1)
      | (Inl _, db1) \<Rightarrow>
          (\<lparr>resOwnerUserID = [], resOrgID = org, resVisibility = OrgVis, resAccess = WriteAccess\<rparr>, db1))"

definition callerOrgIDs :: "control \<Rightarrow> Principal \<Rightarrow> string list \<times> control" where
  "callerOrgIDs db p =
     (if pOrgID p \<noteq> [] then ([pOrgID p], db)
      else if pEmail p = [] then ([], db)
      else
        case ListOrgsForEmail db (pEmail p) of
          (Inl _, db1) \<Rightarrow> ([], db1)
        | (Inr os, db1) \<Rightarrow> (filter (\<lambda>i. i \<noteq> []) (map oID os), db1))"

fun grant_loop :: "control \<Rightarrow> string \<Rightarrow> bool \<Rightarrow> string list \<Rightarrow> bool \<times> control" where
  "grant_loop db ri w [] = (False, db)"
| "grant_loop db ri w (i # is) =
     (case OrgAccess db ''repo'' ri i of
        (a, db1) \<Rightarrow> if Allows a w then (True, db1) else grant_loop db1 ri w is)"

definition grantAllows :: "bool \<Rightarrow> control \<Rightarrow> Principal \<Rightarrow> Repo option \<Rightarrow> bool \<Rightarrow> bool \<times> control" where
  "grantAllows grants db p rp needWrite =
     (case rp of
        None \<Rightarrow> (False, db)
      | Some r \<Rightarrow>
          if \<not> grants then (False, db)
          else case callerOrgIDs db p of (is, db1) \<Rightarrow> grant_loop db1 (rpID r) needWrite is)"

definition pullOnly :: "string list \<Rightarrow> string list" where
  "pullOnly requested = filter (\<lambda>a. a = ActionPull) requested"

section \<open>GrantedActions\<close>

record decision =
  dResource :: Resource
  dSubject :: Subject
  dOrg :: string
  dRole :: string
  dGrantedOrgs :: "string list"
  dRepo :: "Repo option"

text \<open>The statement \<^verbatim>\<open>grants\<close> says whether a grant store is attached (\<^verbatim>\<open>WithGrants\<close>).\<close>

fun action_loop :: "bool \<Rightarrow> control \<Rightarrow> Principal \<Rightarrow> decision \<Rightarrow> string list \<Rightarrow> string list \<times> control" where
  "action_loop grants db p d [] = ([], db)"
| "action_loop grants db p d (action # rest) =
     (if pKeyScopes p \<noteq> [] \<and> \<not> AllowsAction (pKeyScopes p) action then action_loop grants db p d rest
      else
        let needWrite = (action \<noteq> ActionPull) in
        if repo_Authorize (dResource d) (dSubject d) needWrite (dGrantedOrgs d)
             \<lparr>orgOrgID = dOrg d, orgHave = dRole d, orgNeed = roleNeededFor needWrite\<rparr> = None
        then (case action_loop grants db p d rest of (as, db1) \<Rightarrow> (action # as, db1))
        else
          case grantAllows grants db p (dRepo d) needWrite of
            (ok, db1) \<Rightarrow>
              (case action_loop grants db1 p d rest of
                 (as, db2) \<Rightarrow> (if ok then action # as else as, db2)))"

definition shared_repo :: "bool \<Rightarrow> control \<Rightarrow> string \<Rightarrow> string \<Rightarrow> (Repo option \<times> string list) \<times> control" where
  "shared_repo grants db org repoName =
     (if \<not> grants then ((None, []), db)
      else
        case GetRepo db org repoName of
          (Inl _, db1) \<Rightarrow> ((None, []), db1)
        | (Inr r, db1) \<Rightarrow> (case GrantedOrgs db1 ''repo'' (rpID r) of (gs, db2) \<Rightarrow> ((Some r, gs), db2)))"

definition GrantedActions :: "bool \<Rightarrow> control \<Rightarrow> Principal \<Rightarrow> string \<Rightarrow> string list \<Rightarrow> string list \<times> control" where
  "GrantedActions grants db p repoName requested =
     (case resolveOrgID db (namespaceOf repoName) of
        (None, db1) \<Rightarrow> (pullOnly requested, db1)
      | (Some org, db1) \<Rightarrow>
          (case resourceFor db1 org repoName of
             (res, db2) \<Rightarrow>
               (case subjectForOrg db2 p org of
                  (subj, db3) \<Rightarrow>
                    (case orgRoleOf db3 p org of
                       (role, db4) \<Rightarrow>
                         (case shared_repo grants db4 org repoName of
                            ((rp, gs), db5) \<Rightarrow>
                              action_loop grants db5 p
                                \<lparr>dResource = res, dSubject = subj, dOrg = org, dRole = role,
                                 dGrantedOrgs = gs, dRepo = rp\<rparr> requested)))))"

section \<open>The token endpoint and the data plane\<close>

fun token_access :: "bool \<Rightarrow> control \<Rightarrow> Principal \<Rightarrow> Scope list \<Rightarrow> Access list \<times> control" where
  "token_access grants db p [] = ([], db)"
| "token_access grants db p (sc # scs) =
     (case GrantedActions grants db p (scName sc) (scActions sc) of
        (actions, db1) \<Rightarrow>
          (case token_access grants db1 p scs of
             (acs, db2) \<Rightarrow>
               (if actions = [] then acs
                else \<lparr>acType = ''repository'', acName = scName sc, acActions = actions\<rparr> # acs, db2)))"

definition token_claims :: "bool \<Rightarrow> control \<Rightarrow> Principal \<Rightarrow> string list \<Rightarrow> AccessClaims \<times> control" where
  "token_claims grants db p raw =
     (case token_access grants db p (ParseScopes (scopeValues raw)) of
        (acs, db1) \<Rightarrow> (\<lparr>clSubject = pSubject p, clAccess = acs\<rparr>, db1))"

datatype authz_err = AclErr acl_err | StoreErr store_err | Unauthorized

definition first_push :: "control \<Rightarrow> string \<Rightarrow> string \<Rightarrow> string \<Rightarrow> (authz_err + Repo) \<times> control" where
  "first_push db org repoName subject =
     (case CreateRepo db org repoName VisibilityPrivate subject of
        (Inr created, db1) \<Rightarrow> (Inr created, db1)
      | (Inl cerr, db1) \<Rightarrow>
          (case GetRepo db1 org repoName of
             (Inr r2, db2) \<Rightarrow> (Inr r2, db2)
           | (Inl _, db2) \<Rightarrow> (Inl (StoreErr cerr), db2)))"

text \<open>
  The data-plane check. The step that creates a missing repository is \<^const>\<open>first_push\<close>:
  between the look-up and it other requests may run.
\<close>

definition authz_Authorize ::
  "control \<Rightarrow> AccessClaims option \<Rightarrow> string \<Rightarrow> string \<Rightarrow> (control \<Rightarrow> control) \<Rightarrow> (authz_err + Repo) \<times> control" where
  "authz_Authorize db claims repoName action others =
     (case claims of
        None \<Rightarrow> (Inl (AclErr ErrForbidden), db)
      | Some c \<Rightarrow>
          if \<not> claims_Allows c repoName action then (Inl (AclErr ErrForbidden), db)
          else
            case resolveOrgID db (namespaceOf repoName) of
              (None, db1) \<Rightarrow> (Inl (StoreErr NotFound), db1)
            | (Some org, db1) \<Rightarrow>
                (case GetRepo db1 org repoName of
                   (Inr r, db2) \<Rightarrow> (Inr r, db2)
                 | (Inl (SqlErr e), db2) \<Rightarrow> (Inl (StoreErr (SqlErr e)), db2)
                 | (Inl NotFound, db2) \<Rightarrow>
                     if action \<noteq> ActionPush then (Inl (StoreErr NotFound), db2)
                     else first_push (others db2) org repoName (clSubject c)))"

definition ResolveHosted :: "control \<Rightarrow> string \<Rightarrow> (store_err + bool) \<times> control" where
  "ResolveHosted db name =
     (case resolveOrgID db (namespaceOf name) of
        (None, db1) \<Rightarrow> (Inr False, db1)
      | (Some org, db1) \<Rightarrow>
          (case GetRepo db1 org name of
             (Inr r, db2) \<Rightarrow> (Inr True, db2)
           | (Inl NotFound, db2) \<Rightarrow> (Inr False, db2)
           | (Inl (SqlErr e), db2) \<Rightarrow> (Inl (SqlErr e), db2)))"

definition IsOwnedNamespace :: "control \<Rightarrow> string \<Rightarrow> bool \<times> control" where
  "IsOwnedNamespace db name =
     (case resolveOrgID db (namespaceOf name) of (r, db1) \<Rightarrow> (r \<noteq> None, db1))"

definition AuthorizeRead :: "control \<Rightarrow> AccessClaims option \<Rightarrow> string \<Rightarrow> authz_err option \<times> control" where
  "AuthorizeRead db claims repoName =
     (if (case claims of Some c \<Rightarrow> claims_Allows c repoName ActionPull | None \<Rightarrow> False) then (None, db)
      else
        let denied = (case claims of None \<Rightarrow> Some Unauthorized | Some _ \<Rightarrow> Some (AclErr ErrForbidden)) in
        case resolveOrgID db (namespaceOf repoName) of
          (None, db1) \<Rightarrow> (denied, db1)
        | (Some org, db1) \<Rightarrow>
            (case GetRepo db1 org repoName of
               (Inr r, db2) \<Rightarrow> (if NormalizeVisibility (rpVisibility r) = VisibilityPublic then None else denied, db2)
             | (Inl _, db2) \<Rightarrow> (denied, db2)))"

section \<open>Reading leaves the tables alone\<close>

lemma resolveOrgID_same_tables: "resolveOrgID db n = (r, db') \<Longrightarrow> same_tables db db'"
  by (auto simp: resolveOrgID_def GetOrgBySlug_def GetOrg_def split: if_splits prod.splits sum.splits
      dest!: query_same_tables intro: same_tables_trans)

lemma subjectForOrg_same_tables: "subjectForOrg db p i = (r, db') \<Longrightarrow> same_tables db db'"
  by (auto simp: subjectForOrg_def GetOrgMember_def split: if_splits prod.splits sum.splits dest!: query_same_tables)

lemma orgRoleOf_same_tables: "orgRoleOf db p i = (r, db') \<Longrightarrow> same_tables db db'"
  by (auto simp: orgRoleOf_def GetOrgMember_def split: if_splits prod.splits sum.splits dest!: query_same_tables)

lemma resourceFor_same_tables: "resourceFor db i n = (r, db') \<Longrightarrow> same_tables db db'"
  by (auto simp: resourceFor_def split: prod.splits sum.splits dest!: GetRepo_same_tables)

lemma callerOrgIDs_same_tables: "callerOrgIDs db p = (r, db') \<Longrightarrow> same_tables db db'"
  by (auto simp: callerOrgIDs_def ListOrgsForEmail_def split: if_splits prod.splits sum.splits dest!: query_same_tables)

lemma shared_repo_same_tables: "shared_repo g db i n = (r, db') \<Longrightarrow> same_tables db db'"
  by (auto simp: shared_repo_def split: if_splits prod.splits sum.splits
      dest!: GetRepo_same_tables GrantedOrgs_same_tables intro: same_tables_trans)

lemma grant_loop_same_tables: "grant_loop db ri w is = (r, db') \<Longrightarrow> same_tables db db'"
proof (induction "is" arbitrary: db)
  case (Cons i "is")
  obtain a db1 where a: "OrgAccess db ''repo'' ri i = (a, db1)" by force
  from OrgAccess_same_tables [OF a] Cons a show ?case
    by (auto split: if_splits intro: same_tables_trans)
qed simp

lemma grantAllows_same_tables: "grantAllows g db p rp w = (r, db') \<Longrightarrow> same_tables db db'"
  by (auto simp: grantAllows_def split: option.splits if_splits prod.splits
      dest!: callerOrgIDs_same_tables grant_loop_same_tables intro: same_tables_trans)

lemma action_loop_same_tables: "action_loop g db p d as = (r, db') \<Longrightarrow> same_tables db db'"
proof (induction "as" arbitrary: db r)
  case (Cons a "as")
  show ?case
  proof (cases "pKeyScopes p \<noteq> [] \<and> \<not> AllowsAction (pKeyScopes p) a")
    case True
    with Cons.prems have "action_loop g db p d as = (r, db')" by simp
    then show ?thesis by (rule Cons.IH)
  next
    case False
    obtain ok db1 where ga: "grantAllows g db p (dRepo d) (a \<noteq> ActionPull) = (ok, db1)" by force
    note st = grantAllows_same_tables [OF ga]
    from False Cons.prems ga have "(\<exists>r'. action_loop g db p d as = (r', db')) \<or> (\<exists>r'. action_loop g db1 p d as = (r', db'))"
      by (auto simp: Let_def split: if_splits prod.splits)
    then show ?thesis using Cons.IH st same_tables_trans by blast
  qed
qed simp

lemma GrantedActions_same_tables: "GrantedActions g db p n req = (r, db') \<Longrightarrow> same_tables db db'"
  by (auto simp: GrantedActions_def split: prod.splits option.splits
      dest!: resolveOrgID_same_tables resourceFor_same_tables subjectForOrg_same_tables orgRoleOf_same_tables
        shared_repo_same_tables action_loop_same_tables intro: same_tables_trans) (meson same_tables_trans)+

section \<open>Tenant isolation\<close>

text \<open>
  What a principal is in the tables: the role it holds in an organization, the
  organizations it acts as, and the access these were granted on a repository.
\<close>

definition effective_role :: "control \<Rightarrow> Principal \<Rightarrow> string \<Rightarrow> string" where
  "effective_role db p org =
     (if pAnonymous p \<or> pSubject p = [] \<or> org = [] then []
      else if pOrgID p \<noteq> [] then (if pOrgID p = org then RoleAdmin else [])
      else if pEmail p = [] then []
      else case find_member (t_members db) org (normEmail (pEmail p)) of
             None \<Rightarrow> [] | Some m \<Rightarrow> NormalizeRole (mRole m))"

definition acts_as :: "control \<Rightarrow> Principal \<Rightarrow> string list" where
  "acts_as db p =
     (if pOrgID p \<noteq> [] then [pOrgID p]
      else if pEmail p = [] then []
      else filter (\<lambda>i. i \<noteq> []) (map oID (newest_first oCreatedAt (orgs_of_email db (pEmail p)))))"

definition access_of :: "control \<Rightarrow> string \<Rightarrow> string \<Rightarrow> string" where
  "access_of db ri org =
     (if org = [] then []
      else case find (\<lambda>g. grant_key g = (''repo'', ri, SubjectOrg, org)) (t_grants db) of
             None \<Rightarrow> [] | Some g \<Rightarrow> normAccess (gAccess g))"

lemma acts_as_tables: "same_tables db db' \<Longrightarrow> acts_as db' p = acts_as db p"
  by (simp add: acts_as_def orgs_of_email_def same_tablesD)

lemma shared_with_tables: "same_tables db db' \<Longrightarrow> shared_with db' rt ri i = shared_with db rt ri i"
  by (simp add: shared_with_def same_tablesD)

lemma effective_role_tables: "same_tables db db' \<Longrightarrow> effective_role db' p i = effective_role db p i"
  by (simp add: effective_role_def same_tablesD)

lemma find_repo_tables: "same_tables db db' \<Longrightarrow> find_repo (t_repos db') i n = find_repo (t_repos db) i n"
  by (simp add: same_tablesD)

lemma resolveOrgID_found:
  assumes "resolveOrgID db n = (Some org, db')"
  shows "\<exists>x \<in> set (t_orgs db). oID x = org \<and> (oSlug x = n \<or> oID x = n)"
proof -
  have "n \<noteq> []" using assms by (auto simp: resolveOrgID_def)
  obtain q db1 where q: "GetOrgBySlug db n = (q, db1)" by force
  show ?thesis
  proof (cases q)
    case (Inr x)
    then have "find (\<lambda>x. oSlug x = n) (t_orgs db) = Some x"
      using q query_answer [of db _ x db1] by (force simp: GetOrgBySlug_def)
    moreover have "org = oID x" using assms q Inr \<open>n \<noteq> []\<close> by (simp add: resolveOrgID_def)
    ultimately show ?thesis by (auto dest: find_SomeD)
  next
    case (Inl e)
    obtain x where x: "GetOrg db1 n = (Inr x, db')" "org = oID x"
      using assms q Inl \<open>n \<noteq> []\<close> by (auto simp: resolveOrgID_def split: prod.splits sum.splits)
    then have "find (\<lambda>x. oID x = n) (t_orgs db1) = Some x"
      using query_answer [of db1 _ x db'] by (force simp: GetOrg_def)
    moreover have "t_orgs db1 = t_orgs db"
      using q query_same_tables same_tablesD(1) by (metis GetOrgBySlug_def)
    ultimately show ?thesis using x by (auto dest: find_SomeD)
  qed
qed

lemma resolveOrgID_nonempty: "orgs_ok db \<Longrightarrow> resolveOrgID db n = (Some org, db') \<Longrightarrow> org \<noteq> []"
  by (drule resolveOrgID_found) (auto simp: orgs_ok_def list_all_iff)

text \<open>An outsider of an organization neither holds a key pinned to it nor is a member.\<close>

definition outsider :: "control \<Rightarrow> Principal \<Rightarrow> string \<Rightarrow> bool" where
  "outsider db p org \<longleftrightarrow> pOrgID p \<noteq> org \<and>
     (pOrgID p = [] \<longrightarrow> find_member (t_members db) org (normEmail (pEmail p)) = None)"

lemma outsider_tables: "same_tables db db' \<Longrightarrow> outsider db' p i = outsider db p i"
  by (simp add: outsider_def same_tablesD)

lemma GetOrgMember_found:
  "GetOrgMember db i e = (Inr m, db') \<Longrightarrow> find_member (t_members db) i (normEmail e) = Some m"
  using query_answer [of db _ m db'] by (force simp: GetOrgMember_def)

lemma subjectForOrg_outsider:
  assumes "outsider db p org" and "subjectForOrg db p org = (s, db')"
  shows "\<not> sAdmin s" "sUserID s = [] \<or> sUserID s = pSubject p" "sOrgID s = [] \<or> sOrgID s = pOrgID p"
  using assms by (auto simp: subjectForOrg_def outsider_def split: if_splits prod.splits sum.splits dest: GetOrgMember_found)

lemma orgRoleOf_outsider:
  assumes "outsider db p org" and "orgRoleOf db p org = (r, db')"
  shows "r = []"
  using assms by (auto simp: orgRoleOf_def outsider_def split: if_splits prod.splits sum.splits dest: GetOrgMember_found)

lemma grant_loop_shared:
  "grant_loop db ri w is = (True, db') \<Longrightarrow> \<exists>i \<in> set is. shared_with db ''repo'' ri i"
proof (induction "is" arbitrary: db)
  case (Cons i "is")
  obtain a db1 where a: "OrgAccess db ''repo'' ri i = (a, db1)" by force
  show ?case
  proof (cases "Allows a w")
    case True
    then have "a \<noteq> []" by auto
    with OrgAccess_shared [OF a] show ?thesis by simp
  next
    case False
    with a Cons.prems have "grant_loop db1 ri w is = (True, db')" by simp
    from Cons.IH [OF this] show ?thesis using shared_with_tables [OF OrgAccess_same_tables [OF a]] by auto
  qed
qed simp

lemma callerOrgIDs_acts_as: "callerOrgIDs db p = (is, db') \<Longrightarrow> set is \<subseteq> set (acts_as db p)"
  using query_answer by (force simp: callerOrgIDs_def acts_as_def ListOrgsForEmail_def split: if_splits prod.splits sum.splits)

lemma grantAllows_shared:
  assumes "grantAllows g db p rp w = (True, db')"
  shows "\<exists>r. rp = Some r \<and> (\<exists>i \<in> set (acts_as db p). shared_with db ''repo'' (rpID r) i)"
proof -
  obtain r "is" db1 where r: "rp = Some r" and c: "callerOrgIDs db p = (is, db1)" "grant_loop db1 (rpID r) w is = (True, db')"
    using assms by (auto simp: grantAllows_def split: option.splits if_splits prod.splits)
  from grant_loop_shared [OF c(2)] callerOrgIDs_acts_as [OF c(1)]
  show ?thesis using r shared_with_tables [OF callerOrgIDs_same_tables [OF c(1)]] by auto
qed

lemma action_loop_none:
  assumes "\<And>w. repo_Authorize (dResource d) (dSubject d) w (dGrantedOrgs d)
             \<lparr>orgOrgID = dOrg d, orgHave = dRole d, orgNeed = roleNeededFor w\<rparr> \<noteq> None"
    and "\<And>db' w. same_tables db db' \<Longrightarrow> \<not> fst (grantAllows g db' p (dRepo d) w)"
  shows "fst (action_loop g db p d as) = []"
  using assms(2)
proof (induction "as" arbitrary: db)
  case (Cons a "as")
  obtain ok db1 where ga: "grantAllows g db p (dRepo d) (a \<noteq> ActionPull) = (ok, db1)" by force
  have nok: "\<not> ok" using Cons.prems [of db] ga by (metis fst_conv same_tables_refl)
  have "fst (action_loop g db1 p d as) = []"
    using Cons.IH [of db1] Cons.prems grantAllows_same_tables [OF ga] same_tables_trans by blast
  moreover have "fst (action_loop g db p d as) = []" using Cons.IH [of db] Cons.prems by blast
  ultimately show ?case using ga nok assms(1) [of "a \<noteq> ActionPull"] by (auto simp: Let_def split: prod.splits)
qed simp

lemma outsider_denied:
  assumes "org \<noteq> []" and "\<not> sAdmin s" and "sUserID s = [] \<or> sUserID s = pSubject p"
    and "sOrgID s = [] \<or> sOrgID s = pOrgID p" and "pOrgID p \<noteq> org" and "sOrgID s \<noteq> [] \<Longrightarrow> sOrgID s \<notin> set gs"
    and "rpOrgID r = org" and "rpVisibility r \<noteq> VisibilityPublic" and "rpOwnerUserID r \<noteq> pSubject p"
    and "res = ToACLResource r \<or> res = \<lparr>resOwnerUserID = [], resOrgID = org, resVisibility = OrgVis, resAccess = WriteAccess\<rparr>"
  shows "repo_Authorize res s w gs \<lparr>orgOrgID = org, orgHave = [], orgNeed = n\<rparr> \<noteq> None"
proof -
  have "\<not> sameOrg \<lparr>resOwnerUserID = [], resOrgID = org, resVisibility = OrgVis, resAccess = WriteAccess\<rparr> s gs"
    using assms(1,4-6) by (auto simp: sameOrg_def list_ex_iff)
  then show ?thesis
    using assms(2,3,8-10)
    by (auto simp: repo_Authorize_None_iff role_allows_iff CanAccessGranted_None_iff canRead_def canWrite_def isOwner_def
        ToACLResource_visibility)
qed

lemma GrantedActions_Some:
  assumes "resolveOrgID db (namespaceOf name) = (Some org, db1)"
  obtains res db2 subj db3 role db4 rp gs db5 where
    "resourceFor db1 org name = (res, db2)" "subjectForOrg db2 p org = (subj, db3)" "orgRoleOf db3 p org = (role, db4)"
    "shared_repo g db4 org name = ((rp, gs), db5)"
    "GrantedActions g db p name req =
       action_loop g db5 p \<lparr>dResource = res, dSubject = subj, dOrg = org, dRole = role, dGrantedOrgs = gs, dRepo = rp\<rparr> req"
    "same_tables db db1" "same_tables db db2" "same_tables db db3" "same_tables db db4" "same_tables db db5"
proof -
  obtain res db2 where a: "resourceFor db1 org name = (res, db2)" by force
  obtain subj db3 where b: "subjectForOrg db2 p org = (subj, db3)" by force
  obtain role db4 where c: "orgRoleOf db3 p org = (role, db4)" by force
  obtain rp gs db5 where d: "shared_repo g db4 org name = ((rp, gs), db5)" by (metis prod.exhaust)
  note st = resolveOrgID_same_tables [OF assms] resourceFor_same_tables [OF a] subjectForOrg_same_tables [OF b]
    orgRoleOf_same_tables [OF c] shared_repo_same_tables [OF d]
  have s2: "same_tables db db2" using st(1,2) by (rule same_tables_trans)
  have s3: "same_tables db db3" using s2 st(3) by (rule same_tables_trans)
  have s4: "same_tables db db4" using s3 st(4) by (rule same_tables_trans)
  have s5: "same_tables db db5" using s4 st(5) by (rule same_tables_trans)
  show thesis
    by (rule that [OF a b c d _ st(1) s2 s3 s4 s5]) (simp add: GrantedActions_def assms a b c d)
qed

lemma shared_repo_answers:
  assumes "shared_repo g db org name = ((rp, gs), db')"
  shows "(rp = None \<and> gs = []) \<or> (\<exists>r. rp = Some r \<and> find_repo (t_repos db) org (TrimSpace name) = Some r
           \<and> (\<forall>i \<in> set gs. shared_with db ''repo'' (rpID r) i))"
proof (cases "g \<and> (\<exists>r db1. GetRepo db org name = (Inr r, db1))")
  case True
  then obtain r db1 where r: "GetRepo db org name = (Inr r, db1)" by blast
  obtain gs' db2 where gs': "GrantedOrgs db1 ''repo'' (rpID r) = (gs', db2)" by force
  have "\<forall>i \<in> set gs'. shared_with db ''repo'' (rpID r) i"
    using GrantedOrgs_shared [OF gs'] shared_with_tables [OF GetRepo_same_tables [OF r]] by auto
  moreover have "rp = Some r" and "gs = gs'" using assms True r gs' by (auto simp: shared_repo_def)
  ultimately show ?thesis using GetRepo_found [OF r] by simp
next
  case False
  with assms show ?thesis by (auto simp: shared_repo_def split: if_splits prod.splits sum.splits)
qed

lemma GrantedActions_outsider:
  assumes "orgs_ok db" and "resolveOrgID db (namespaceOf name) = (Some org, db1)"
    and "find_repo (t_repos db) org (TrimSpace name) = Some r" and "rpVisibility r \<noteq> VisibilityPublic"
    and "outsider db p org" and "rpOwnerUserID r \<noteq> pSubject p"
    and "\<forall>i \<in> set (acts_as db p). \<not> shared_with db ''repo'' (rpID r) i"
  shows "fst (GrantedActions g db p name req) = []"
proof -
  have ne: "org \<noteq> []" by (rule resolveOrgID_nonempty [OF assms(1,2)])
  obtain res db2 subj db3 role db4 rp gs db5 where
    e: "resourceFor db1 org name = (res, db2)" "subjectForOrg db2 p org = (subj, db3)" "orgRoleOf db3 p org = (role, db4)"
       "shared_repo g db4 org name = ((rp, gs), db5)"
    and ga: "GrantedActions g db p name req =
       action_loop g db5 p \<lparr>dResource = res, dSubject = subj, dOrg = org, dRole = role, dGrantedOrgs = gs, dRepo = rp\<rparr> req"
    and st: "same_tables db db1" "same_tables db db2" "same_tables db db3" "same_tables db db4" "same_tables db db5"
    by (rule GrantedActions_Some [OF assms(2)])
  have res: "res = ToACLResource r \<or> res = \<lparr>resOwnerUserID = [], resOrgID = org, resVisibility = OrgVis, resAccess = WriteAccess\<rparr>"
    using e(1) assms(3) find_repo_tables [OF st(1)]
    by (auto simp: resourceFor_def split: prod.splits sum.splits dest: GetRepo_found)
  have role: "role = []" using orgRoleOf_outsider [OF _ e(3)] outsider_tables [OF st(3)] assms(5) by blast
  note subj = subjectForOrg_outsider [OF _ e(2)]
  have o2: "outsider db2 p org" using outsider_tables [OF st(2)] assms(5) by blast
  have rp: "(rp = None \<and> gs = []) \<or> (rp = Some r \<and> (\<forall>i \<in> set gs. shared_with db ''repo'' (rpID r) i))"
    using shared_repo_answers [OF e(4)] find_repo_tables [OF st(4)] shared_with_tables [OF st(4)] assms(3) by auto
  have notin: "sOrgID subj \<noteq> [] \<Longrightarrow> sOrgID subj \<notin> set gs"
    using subj(3) [OF o2] rp assms(7) by (auto simp: acts_as_def)
  have deny: "repo_Authorize res subj w gs \<lparr>orgOrgID = org, orgHave = role, orgNeed = roleNeededFor w\<rparr> \<noteq> None" for w
    unfolding role
    by (rule outsider_denied [OF ne subj(1-3) [OF o2] _ notin _ assms(4,6) res])
      (use assms(5) find_repoD [OF assms(3)] in \<open>auto simp: outsider_def\<close>)
  have "\<not> fst (grantAllows g db' p rp w)" if "same_tables db5 db'" for db' w
  proof
    assume "fst (grantAllows g db' p rp w)"
    then have "grantAllows g db' p rp w = (True, snd (grantAllows g db' p rp w))" by (metis prod.collapse)
    from grantAllows_shared [OF this] obtain i r' where i: "rp = Some r'" "i \<in> set (acts_as db' p)" "shared_with db' ''repo'' (rpID r') i"
      by blast
    have "same_tables db db'" using st(5) that by (rule same_tables_trans)
    with i rp assms(7) show False by (auto simp: acts_as_tables shared_with_tables)
  qed
  with deny show ?thesis unfolding ga by (intro action_loop_none) simp_all
qed

text \<open>C32: tenant isolation at the token endpoint. Let the namespace of a repository name resolve
  to an organization that has the repository, private. A principal that neither holds a key
  pinned to the organization nor is one of its members, does not own the repository, and acts
  for no organization the repository is shared with, is granted no action, whatever it asks
  for and whichever of the look-ups of the repository, of the membership and of the shares
  fail.\<close>

theorem tenant_isolation:
  assumes "orgs_ok db" and "resolveOrgID db (namespaceOf name) = (Some org, db1)"
    and "find_repo (t_repos db) org (TrimSpace name) = Some r" and "rpVisibility r \<noteq> VisibilityPublic"
    and "outsider db p org" and "rpOwnerUserID r \<noteq> pSubject p"
    and "\<forall>i \<in> set (acts_as db p). \<not> shared_with db ''repo'' (rpID r) i"
  shows "fst (GrantedActions g db p name req) = []"
  using assms by (rule GrantedActions_outsider)

section \<open>What the decision is, on a healthy database\<close>

text \<open>
  The abstract decision for an existing repository: the owner, anyone for reading a public
  repository, a sufficient role in its organization, or a sufficient share with an
  organization the caller acts as; and for an API key only within the scopes of the key.
\<close>

definition permitted :: "bool \<Rightarrow> control \<Rightarrow> Principal \<Rightarrow> Repo \<Rightarrow> string \<Rightarrow> bool" where
  "permitted grants db p r action \<longleftrightarrow>
     (pKeyScopes p = [] \<or> AllowsAction (pKeyScopes p) action) \<and>
     ((\<not> pAnonymous p \<and> pSubject p \<noteq> [] \<and> rpOwnerUserID r = pSubject p)
      \<or> (action = ActionPull \<and> rpVisibility r = VisibilityPublic)
      \<or> roleRank (roleNeededFor (action \<noteq> ActionPull)) \<le> roleRank (effective_role db p (rpOrgID r))
      \<or> (grants \<and> list_ex (\<lambda>i. Allows (access_of db (rpID r) i) (action \<noteq> ActionPull)) (acts_as db p)))"

lemma OrgAccess_healthy: "ctl_healthy db \<Longrightarrow> fst (OrgAccess db ''repo'' ri i) = access_of db ri i"
  by (simp add: OrgAccess_def access_of_def sql_def ctl_healthy_def split: option.splits)

lemma access_of_tables: "same_tables db db' \<Longrightarrow> access_of db' ri i = access_of db ri i"
  by (simp add: access_of_def same_tablesD)

lemma grant_loop_healthy:
  "ctl_healthy db \<Longrightarrow> fst (grant_loop db ri w is) = list_ex (\<lambda>i. Allows (access_of db ri i) w) is"
proof (induction "is" arbitrary: db)
  case (Cons i "is")
  obtain a db1 where a: "OrgAccess db ''repo'' ri i = (a, db1)" by force
  note st = OrgAccess_same_tables [OF a]
  have "ctl_healthy db1" using st Cons.prems same_tablesD(11) by blast
  then have "fst (grant_loop db1 ri w is) = list_ex (\<lambda>i. Allows (access_of db ri i) w) is"
    using Cons.IH [of db1] access_of_tables [OF st] by simp
  then show ?case using a OrgAccess_healthy [OF Cons.prems, of ri i] by auto
qed simp

lemma callerOrgIDs_healthy: "ctl_healthy db \<Longrightarrow> fst (callerOrgIDs db p) = acts_as db p"
  by (simp add: callerOrgIDs_def acts_as_def ListOrgsForEmail_def)

lemma grantAllows_healthy:
  assumes "ctl_healthy db"
  shows "fst (grantAllows g db p (Some r) w) \<longleftrightarrow> g \<and> list_ex (\<lambda>i. Allows (access_of db (rpID r) i) w) (acts_as db p)"
proof -
  obtain "is" db1 where c: "callerOrgIDs db p = (is, db1)" by force
  note st = callerOrgIDs_same_tables [OF c]
  have "fst (grant_loop db1 (rpID r) w is) = list_ex (\<lambda>i. Allows (access_of db (rpID r) i) w) is"
    using grant_loop_healthy [of db1] st assms same_tablesD(11) access_of_tables [OF st] by simp
  moreover have "is = acts_as db p" using callerOrgIDs_healthy [OF assms, of p] c by simp
  ultimately show ?thesis using c by (simp add: grantAllows_def)
qed

lemma action_loop_filter:
  assumes "\<And>db' w. same_tables db db' \<Longrightarrow> fst (grantAllows g db' p (dRepo d) w) = G w"
  shows "fst (action_loop g db p d as) =
     filter (\<lambda>a. (pKeyScopes p = [] \<or> AllowsAction (pKeyScopes p) a) \<and>
                 (repo_Authorize (dResource d) (dSubject d) (a \<noteq> ActionPull) (dGrantedOrgs d)
                    \<lparr>orgOrgID = dOrg d, orgHave = dRole d, orgNeed = roleNeededFor (a \<noteq> ActionPull)\<rparr> = None
                  \<or> G (a \<noteq> ActionPull))) as"
  using assms
proof (induction "as" arbitrary: db)
  case (Cons a "as")
  obtain ok db1 where ga: "grantAllows g db p (dRepo d) (a \<noteq> ActionPull) = (ok, db1)" by force
  have ok: "ok = G (a \<noteq> ActionPull)" using Cons.prems [of db] ga by (metis fst_conv same_tables_refl)
  note rest = Cons.IH [of db] Cons.IH [of db1]
  have "\<And>db' w. same_tables db1 db' \<Longrightarrow> fst (grantAllows g db' p (dRepo d) w) = G w"
    using Cons.prems grantAllows_same_tables [OF ga] same_tables_trans by blast
  with rest Cons.prems ok ga show ?case
    by (auto simp: Let_def simp del: filter.simps(2) split: prod.splits) (auto simp: ok)
qed simp

lemma orgRoleOf_healthy: "ctl_healthy db \<Longrightarrow> fst (orgRoleOf db p i) = effective_role db p i"
  by (simp add: orgRoleOf_def effective_role_def GetOrgMember_def row_option_def split: option.splits)

lemma subjectForOrg_shape:
  assumes "subjectForOrg db p i = (s, db')"
  shows "sUserID s = (if pAnonymous p then [] else pSubject p) \<and> \<not> sAdmin s"
  using assms by (auto simp: subjectForOrg_def split: if_splits prod.splits sum.splits)

lemma shared_repo_healthy:
  assumes "ctl_healthy db" and "find_repo (t_repos db) org (TrimSpace name) = Some r"
  shows "\<exists>gs db'. shared_repo g db org name = ((if g then Some r else None, gs), db')"
  using assms by (auto simp: shared_repo_def GetRepo_def row_option_def split: prod.splits)

lemma effective_role_rung:
  "NormalizeLegacyRole (effective_role db p i) = effective_role db p i"
  "pAnonymous p \<or> pSubject p = [] \<or> i = [] \<Longrightarrow> effective_role db p i = []"
  by (auto simp: effective_role_def split: option.splits)

lemma roleNeededFor_rank [simp]: "roleNeededFor w \<noteq> []" "0 < roleRank (roleNeededFor w)"
  by (simp_all add: roleNeededFor_def)

lemma GrantedActions_permitted:
  assumes "ctl_healthy db" and "resolveOrgID db (namespaceOf name) = (Some org, db1)"
    and "find_repo (t_repos db) org (TrimSpace name) = Some r"
  shows "fst (GrantedActions g db p name req) = filter (permitted g db p r) req"
proof -
  obtain res db2 subj db3 role db4 rp gs db5 where
    e: "resourceFor db1 org name = (res, db2)" "subjectForOrg db2 p org = (subj, db3)" "orgRoleOf db3 p org = (role, db4)"
       "shared_repo g db4 org name = ((rp, gs), db5)"
    and ga: "GrantedActions g db p name req =
       action_loop g db5 p \<lparr>dResource = res, dSubject = subj, dOrg = org, dRole = role, dGrantedOrgs = gs, dRepo = rp\<rparr> req"
    and st: "same_tables db db1" "same_tables db db2" "same_tables db db3" "same_tables db db4" "same_tables db db5"
    by (rule GrantedActions_Some [OF assms(2)])
  have h: "ctl_healthy db1" "ctl_healthy db3" "ctl_healthy db4" using st assms(1) same_tablesD(11) by blast+
  have rorg: "rpOrgID r = org" using find_repoD [OF assms(3)] by simp
  have res: "res = ToACLResource r"
    using e(1) h(1) assms(3) find_repo_tables [OF st(1)] by (simp add: resourceFor_def GetRepo_def row_option_def)
  have role: "role = effective_role db p org"
    using orgRoleOf_healthy [OF h(2), of p org] e(3) effective_role_tables [OF st(3)] by simp
  have rp: "rp = (if g then Some r else None)"
    using shared_repo_healthy [OF h(3), of org name r g] find_repo_tables [OF st(4)] assms(3) e(4) by auto
  note subj = subjectForOrg_shape [OF e(2)]
  define G where "G = (\<lambda>w. g \<and> list_ex (\<lambda>i. Allows (access_of db (rpID r) i) w) (acts_as db p))"
  have "fst (grantAllows g db' p rp w) = G w" if "same_tables db5 db'" for db' w
  proof -
    have s: "same_tables db db'" using st(5) that by (rule same_tables_trans)
    then have "ctl_healthy db'" using assms(1) same_tablesD(11) by blast
    then have "fst (grantAllows g db' p (Some r) w) = G w"
      using grantAllows_healthy [of db' g p r w] by (simp add: G_def acts_as_tables [OF s] access_of_tables [OF s])
    then show ?thesis by (cases g) (simp_all add: rp G_def grantAllows_def)
  qed
  then have "fst (GrantedActions g db p name req) =
     filter (\<lambda>a. (pKeyScopes p = [] \<or> AllowsAction (pKeyScopes p) a) \<and>
                 (repo_Authorize res subj (a \<noteq> ActionPull) gs
                    \<lparr>orgOrgID = org, orgHave = role, orgNeed = roleNeededFor (a \<noteq> ActionPull)\<rparr> = None
                  \<or> G (a \<noteq> ActionPull))) req"
    unfolding ga by (subst action_loop_filter [where G = G]) simp_all
  also have "\<dots> = filter (permitted g db p r) req"
  proof (rule filter_cong [OF refl])
    fix a
    have "repo_Authorize res subj w gs \<lparr>orgOrgID = org, orgHave = role, orgNeed = roleNeededFor w\<rparr> = None \<longleftrightarrow>
        (\<not> pAnonymous p \<and> pSubject p \<noteq> [] \<and> rpOwnerUserID r = pSubject p) \<or> (\<not> w \<and> rpVisibility r = VisibilityPublic)
        \<or> roleRank (roleNeededFor w) \<le> roleRank (effective_role db p (rpOrgID r))" for w
    proof -
      have "repo_Authorize res subj w gs \<lparr>orgOrgID = org, orgHave = role, orgNeed = roleNeededFor w\<rparr> = None \<longleftrightarrow>
         (rpOwnerUserID r \<noteq> [] \<and> rpOwnerUserID r = sUserID subj) \<or> (\<not> w \<and> rpVisibility r = VisibilityPublic)
         \<or> (sUserID subj \<noteq> [] \<and> org \<noteq> [] \<and> role \<noteq> [] \<and> roleRank (roleNeededFor w) \<le> roleRank role)"
        unfolding res role_allows_iff repo_Authorize_None_iff CanAccessGranted_None_iff
        using subj rorg effective_role_rung(1) [of db p org]
        by (auto simp: canRead_def canWrite_def isOwner_def ToACLResource_visibility role)
      moreover have "roleRank (roleNeededFor w) \<le> roleRank role \<Longrightarrow> role \<noteq> [] \<and> sUserID subj \<noteq> [] \<and> org \<noteq> []"
        using subj effective_role_rung(2) [of p org db] roleNeededFor_rank(2) [of w] unfolding role
        by (metis leD roleRank_simps(5))
      ultimately show ?thesis using subj role rorg by auto
    qed
    then show "((pKeyScopes p = [] \<or> AllowsAction (pKeyScopes p) a) \<and>
                 (repo_Authorize res subj (a \<noteq> ActionPull) gs
                    \<lparr>orgOrgID = org, orgHave = role, orgNeed = roleNeededFor (a \<noteq> ActionPull)\<rparr> = None
                  \<or> G (a \<noteq> ActionPull))) = permitted g db p r a"
      by (auto simp: permitted_def G_def)
  qed
  finally show ?thesis .
qed

text \<open>C33: on a healthy database, for a name whose namespace resolves to an organization that has
  the repository, the token endpoint grants exactly the requested actions the abstract decision
  permits, in the order they were requested: the owner has every action; a public repository
  can be pulled by everybody; a member of the organization pulls, and an editor or above also
  pushes and deletes; an API key has the rights of an administrator in the organization it is
  pinned to and only there; a share with one of the caller's organizations gives its access
  level; and the scopes of a key narrow all of these.\<close>

theorem GrantedActions_exact:
  assumes "ctl_healthy db" and "resolveOrgID db (namespaceOf name) = (Some org, db1)"
    and "find_repo (t_repos db) org (TrimSpace name) = Some r"
  shows "fst (GrantedActions g db p name req) = filter (permitted g db p r) req"
  using assms by (rule GrantedActions_permitted)

section \<open>Concrete tables\<close>

definition acme :: Org where
  "acme = \<lparr>oID = ''org1'', oName = ''Acme'', oSlug = ''acme'', oStatus = ''active'', oCreatedBy = ''user:1'',
           oCreatedAt = 0, oRole = [], oSystemAccess = False\<rparr>"

definition acme_app :: Repo where
  "acme_app = \<lparr>rpID = ''repo_1'', rpOrgID = ''org1'', rpName = ''acme/app'', rpVisibility = ''private'',
               rpOwnerUserID = ''apikey:1'', rpCreatedAt = 0\<rparr>"

definition acme_db :: "string \<Rightarrow> Repo list \<Rightarrow> fault_plan \<Rightarrow> control" where
  "acme_db role repos fault =
     \<lparr>t_orgs = [acme],
      t_members = [\<lparr>mID = ''m1'', mOrgID = ''org1'', mEmail = ''ann@x.org'', mRole = role, mInvitedBy = [], mCreatedAt = 0\<rparr>],
      t_invitations = [], t_grants = [], t_repos = repos, t_tags = [],
      c_now = 0, c_ids = 0, c_rand = (\<lambda>n. nat_digits n), c_tick = 0, c_fault = fault\<rparr>"

definition ann :: Principal where
  "ann = \<lparr>pSubject = ''user:2'', pOrgID = [], pEmail = ''Ann@x.org'', pAnonymous = False, pKeyScopes = []\<rparr>"

definition other_key :: Principal where
  "other_key = \<lparr>pSubject = ''apikey:9'', pOrgID = ''org2'', pEmail = ''bob@y.org'', pAnonymous = False, pKeyScopes = [''pull'', ''push'']\<rparr>"

lemma acme_facts:
  "rpOrgID acme_app = ''org1''" "rpVisibility acme_app = ''private''" "rpOwnerUserID acme_app = ''apikey:1''"
  "pKeyScopes ann = []" "pSubject ann = ''user:2''" "\<not> pAnonymous ann"
  by (simp_all add: acme_app_def ann_def)

lemma acme_resolves:
  "fst (resolveOrgID (acme_db role repos no_faults) (namespaceOf ''acme/app'')) = Some ''org1''"
  by (simp add: resolveOrgID_def namespaceOf_def GetOrgBySlug_def acme_db_def ctl_healthy_def acme_def row_option_def)

lemma acme_ok: "orgs_ok (acme_db role repos fault)"
proof -
  have "normEmail ''ann@x.org'' = ''ann@x.org''" by code_simp
  then show ?thesis by (simp add: orgs_ok_def acme_db_def acme_def)
qed

lemma acme_finds: "find_repo (t_repos (acme_db role [acme_app] fault)) ''org1'' (TrimSpace ''acme/app'') = Some acme_app"
proof -
  have "TrimSpace ''acme/app'' = ''acme/app''" by code_simp
  then show ?thesis by (simp add: find_repo_def acme_db_def acme_app_def)
qed

theorem tenant_isolation_witness:
  "fst (GrantedActions True (acme_db ''owner'' [acme_app] no_faults) other_key ''acme/app'' [''pull'', ''push'', ''delete'']) = []"
proof -
  obtain db1 where r: "resolveOrgID (acme_db ''owner'' [acme_app] no_faults) (namespaceOf ''acme/app'') = (Some ''org1'', db1)"
    using acme_resolves by (metis prod.collapse)
  have o: "outsider (acme_db ''owner'' [acme_app] no_faults) other_key ''org1''" by (simp add: outsider_def other_key_def)
  show ?thesis
    by (rule tenant_isolation [OF acme_ok r acme_finds _ o])
      (simp_all add: acme_app_def VisibilityPublic_def other_key_def shared_with_def acme_db_def)
qed

lemma ann_viewer: "effective_role (acme_db ''viewer'' repos fault) ann ''org1'' = RoleViewer"
proof -
  have "normEmail ''Ann@x.org'' = ''ann@x.org''" and "NormalizeRole ''viewer'' = RoleViewer" by code_simp+
  then show ?thesis by (simp add: effective_role_def ann_def acme_db_def find_member_def)
qed

lemma acts_as_no_grants: "t_grants db = [] \<Longrightarrow> \<not> list_ex (\<lambda>i. Allows (access_of db ri i) w) xs"
  by (auto simp: list_ex_iff access_of_def)

theorem GrantedActions_exact_witness:
  "fst (GrantedActions True (acme_db ''viewer'' [acme_app] no_faults) ann ''acme/app'' [''push'', ''pull'', ''delete'']) = [''pull'']"
proof -
  let ?db = "acme_db ''viewer'' [acme_app] no_faults"
  obtain db1 where r: "resolveOrgID ?db (namespaceOf ''acme/app'') = (Some ''org1'', db1)"
    using acme_resolves by (metis prod.collapse)
  have h: "ctl_healthy ?db" by (simp add: ctl_healthy_def acme_db_def)
  have no: "\<not> list_ex (\<lambda>i. Allows (access_of ?db ri i) w) xs" for ri w xs
    by (rule acts_as_no_grants) (simp add: acme_db_def)
  have "permitted True ?db ann acme_app a \<longleftrightarrow> a = ''pull''" for a
    unfolding permitted_def by (simp add: no ann_viewer acme_facts VisibilityPublic_def roleNeededFor_def ActionPull_def)
  then show ?thesis using GrantedActions_exact [OF h r acme_finds, of True ann] by simp
qed

section \<open>The data plane\<close>

text \<open>
  \<^verbatim>\<open>Authorize\<close> under interference and faults. A request that reaches the step that creates the
  repository sees whatever other requests left in the tables.
\<close>

lemma first_push_answers:
  assumes "first_push db org name subject = (Inr r, db')"
  shows "rpOrgID r = org \<and> rpName r = TrimSpace name \<and>
     ((t_repos db' = t_repos db \<and> find_repo (t_repos db) org (TrimSpace name) = Some r)
      \<or> (find_repo (t_repos db) org (TrimSpace name) = None \<and> t_repos db' = t_repos db @ [r]
         \<and> rpVisibility r = VisibilityPrivate \<and> rpOwnerUserID r = subject))"
proof -
  obtain q db1 where q: "CreateRepo db org name VisibilityPrivate subject = (q, db1)" by force
  from q show ?thesis
  proof (cases rule: CreateRepo_cases)
    case (1 e)
    with assms q obtain db2 where g: "GetRepo db1 org name = (Inr r, db2)" "db' = db2"
      by (auto simp: first_push_def split: prod.splits sum.splits)
    have "find_repo (t_repos db) org (TrimSpace name) = Some r" using GetRepo_found [OF g(1)] 1 by simp
    moreover have "t_repos db' = t_repos db" using g 1 GetRepo_same_tables same_tablesD(4) by metis
    ultimately show ?thesis using find_repoD by blast
  next
    case (2 r')
    with assms q have r': "r' = r" "db' = db1" by (auto simp: first_push_def)
    have "find_repo (t_repos db) org (TrimSpace name) = None"
      using 2(5) by (auto simp: find_repo_def find_None_iff list_ex_iff)
    with 2 r' show ?thesis by (simp add: NormalizeVisibility_def VisibilityPrivate_def VisibilityPublic_def)
  qed
qed

lemma Authorize_answers:
  assumes "authz_Authorize db claims name action others = (Inr r, db')"
  shows "\<exists>c org db1 db2. claims = Some c \<and> claims_Allows c name action
     \<and> resolveOrgID db (namespaceOf name) = (Some org, db1)
     \<and> rpOrgID r = org \<and> rpName r = TrimSpace name
     \<and> (t_repos db' = t_repos db \<and> find_repo (t_repos db) org (TrimSpace name) = Some r
        \<or> action = ActionPush \<and> find_repo (t_repos db) org (TrimSpace name) = None \<and> same_tables db db2
          \<and> (t_repos db' = t_repos (others db2) \<and> find_repo (t_repos (others db2)) org (TrimSpace name) = Some r
             \<or> t_repos db' = t_repos (others db2) @ [r] \<and> find_repo (t_repos (others db2)) org (TrimSpace name) = None
               \<and> rpVisibility r = VisibilityPrivate \<and> rpOwnerUserID r = clSubject c))"
proof -
  obtain c where c: "claims = Some c" "claims_Allows c name action"
    using assms by (auto simp: authz_Authorize_def split: option.splits if_splits)
  obtain org db1 where o: "resolveOrgID db (namespaceOf name) = (Some org, db1)"
    using assms c by (auto simp: authz_Authorize_def split: prod.splits option.splits)
  obtain q db2 where q: "GetRepo db1 org name = (q, db2)" by force
  have s1: "same_tables db db1" by (rule resolveOrgID_same_tables [OF o])
  have s2: "same_tables db db2" using s1 GetRepo_same_tables [OF q] by (rule same_tables_trans)
  note eq = assms [unfolded authz_Authorize_def, simplified c o q, simplified]
  show ?thesis
  proof (cases q)
    case (Inr x)
    with eq c o q have "x = r" "db' = db2" by auto
    moreover have "find_repo (t_repos db) org (TrimSpace name) = Some x"
      using GetRepo_found q Inr find_repo_tables [OF s1] by metis
    ultimately show ?thesis using c o s2 same_tablesD(4) find_repoD by blast
  next
    case (Inl e)
    then have e: "e = NotFound" "action = ActionPush"
      and fp: "first_push (others db2) org name (clSubject c) = (Inr r, db')"
      using eq c o q by (auto split: store_err.splits if_splits)
    have "find_repo (t_repos db1) org (TrimSpace name) = None"
      using q Inl e query_NotFound [of db1 _ db2] by (force simp: GetRepo_def)
    then have "find_repo (t_repos db) org (TrimSpace name) = None" using find_repo_tables [OF s1] by simp
    with first_push_answers [OF fp] c o e s2 show ?thesis by blast
  qed
qed

text \<open>the data-plane check, for every database, fault plan and interference of other requests.
  When it succeeds, the request carried a verified token whose scope covers the action on that
  very name, the repository returned belongs to the organization the namespace resolves to
  under the trimmed name, and it either was in the table or was just inserted. It is inserted
  only by a push on a name that had no row, and then it is private and owned by the subject of
  the token; no other row changes.\<close>

theorem Authorize_only_within_claims:
  assumes "authz_Authorize db claims name action others = (Inr r, db')"
  shows "\<exists>c org db1 db2. claims = Some c \<and> claims_Allows c name action
     \<and> resolveOrgID db (namespaceOf name) = (Some org, db1)
     \<and> rpOrgID r = org \<and> rpName r = TrimSpace name
     \<and> (t_repos db' = t_repos db \<and> find_repo (t_repos db) org (TrimSpace name) = Some r
        \<or> action = ActionPush \<and> find_repo (t_repos db) org (TrimSpace name) = None \<and> same_tables db db2
          \<and> (t_repos db' = t_repos (others db2) \<and> find_repo (t_repos (others db2)) org (TrimSpace name) = Some r
             \<or> t_repos db' = t_repos (others db2) @ [r] \<and> find_repo (t_repos (others db2)) org (TrimSpace name) = None
               \<and> rpVisibility r = VisibilityPrivate \<and> rpOwnerUserID r = clSubject c))"
  using assms by (rule Authorize_answers)

lemma claims_Allows_single [simp]:
  "claims_Allows \<lparr>clSubject = s, clAccess = [\<lparr>acType = ''repository'', acName = n, acActions = as\<rparr>]\<rparr> m a
     \<longleftrightarrow> n = m \<and> a \<in> set as"
  by (auto simp: claims_Allows_def list_ex_iff)

definition push_claims :: AccessClaims where
  "push_claims = \<lparr>clSubject = ''user:2'', clAccess = [\<lparr>acType = ''repository'', acName = ''acme/app'', acActions = [''push'']\<rparr>]\<rparr>"

lemma first_push_creates:
  "fst (authz_Authorize (acme_db ''editor'' [] no_faults) (Some push_claims) ''acme/app'' ''push'' id) =
     Inr \<lparr>rpID = ''repo_0'', rpOrgID = ''org1'', rpName = ''acme/app'', rpVisibility = ''private'',
          rpOwnerUserID = ''user:2'', rpCreatedAt = 0\<rparr>"
  unfolding push_claims_def acme_db_def acme_def by code_simp

theorem Authorize_only_within_claims_witness:
  "\<exists>r db'. authz_Authorize (acme_db ''editor'' [] no_faults) (Some push_claims) ''acme/app'' ''push'' id = (Inr r, db')
     \<and> rpName r = TrimSpace ''acme/app''"
proof -
  obtain r db' where a: "authz_Authorize (acme_db ''editor'' [] no_faults) (Some push_claims) ''acme/app'' ''push'' id = (Inr r, db')"
    using first_push_creates by (metis prod.collapse)
  from Authorize_only_within_claims [OF a] have "rpName r = TrimSpace ''acme/app''" by auto
  with a show ?thesis by blast
qed

lemma resolveOrgID_healthy:
  "ctl_healthy db \<Longrightarrow> ctl_healthy db2 \<Longrightarrow> t_orgs db2 = t_orgs db \<Longrightarrow>
   fst (resolveOrgID db2 n) = fst (resolveOrgID db n)"
  by (simp add: resolveOrgID_def GetOrgBySlug_def GetOrg_def row_option_def ctl_healthy_def query_def sql_def
      split: option.splits)

lemma first_push_healthy:
  assumes "ctl_healthy db" and "find_repo (t_repos db) org (TrimSpace name) = None
             \<Longrightarrow> ''repo_'' @ c_rand db (c_ids db) \<notin> rpID ` set (t_repos db)"
  shows "\<exists>r db'. first_push db org name subject = (Inr r, db')
     \<and> find_repo (t_repos db') org (TrimSpace name) = Some r
     \<and> (\<forall>x. find_repo (t_repos db) org (TrimSpace name) = Some x \<longrightarrow> r = x \<and> t_repos db' = t_repos db)"
proof (cases "find_repo (t_repos db) org (TrimSpace name)")
  case None
  then have "\<not> list_ex (\<lambda>x. rpID x = ''repo_'' @ c_rand db (c_ids db) \<or> rpOrgID x = org \<and> rpName x = TrimSpace name) (t_repos db)"
    using assms(2) by (auto simp: list_ex_iff find_repo_def find_None_iff image_iff)
  with None assms(1) show ?thesis
    by (simp add: first_push_def CreateRepo_def newID_def insert_row_def sql_def ctl_healthy_def Let_def find_repo_def
        find_append_None)
next
  case (Some x)
  then have "list_ex (\<lambda>x. rpID x = ''repo_'' @ c_rand db (c_ids db) \<or> rpOrgID x = org \<and> rpName x = TrimSpace name) (t_repos db)"
    using find_repoD [OF Some] by (auto simp: list_ex_iff)
  with Some assms(1) show ?thesis
    by (simp add: first_push_def CreateRepo_def newID_def insert_row_def sql_def ctl_healthy_def Let_def GetRepo_def
        query_def row_option_def)
qed

lemma first_push_succeeds:
  assumes "ctl_healthy db" and "claims_Allows c name ActionPush"
    and "fst (resolveOrgID db (namespaceOf name)) = Some org"
    and "find_repo (t_repos db) org (TrimSpace name) = None"
    and "\<And>d. same_tables db d \<Longrightarrow> ctl_healthy (others d)
            \<and> ''repo_'' @ c_rand (others d) (c_ids (others d)) \<notin> rpID ` set (t_repos (others d))"
  shows "\<exists>r db' d. authz_Authorize db (Some c) name ActionPush others = (Inr r, db') \<and> same_tables db d
     \<and> find_repo (t_repos db') org (TrimSpace name) = Some r
     \<and> (\<forall>x. find_repo (t_repos (others d)) org (TrimSpace name) = Some x \<longrightarrow> r = x \<and> t_repos db' = t_repos (others d))"
proof -
  obtain db1 where o: "resolveOrgID db (namespaceOf name) = (Some org, db1)"
    using assms(3) by (metis prod.collapse)
  have s1: "same_tables db db1" by (rule resolveOrgID_same_tables [OF o])
  then have h1: "ctl_healthy db1" using assms(1) same_tablesD(11) by blast
  define db2 where "db2 = db1\<lparr>c_tick := Suc (c_tick db1)\<rparr>"
  have q: "GetRepo db1 org name = (Inl NotFound, db2)"
    using assms(4) h1 find_repo_tables [OF s1] by (simp add: GetRepo_def db2_def row_option_def)
  have s2: "same_tables db db2" using s1 GetRepo_same_tables [OF q] by (rule same_tables_trans)
  have "authz_Authorize db (Some c) name ActionPush others = first_push (others db2) org name (clSubject c)"
    by (simp add: authz_Authorize_def assms(2) o q)
  with first_push_healthy [of "others db2" org name "clSubject c"] assms(5) [OF s2] s2 show ?thesis by metis
qed

text \<open>Concurrent first pushes. On a healthy database, a push with a covering token for a name
  of a known organization succeeds whatever other requests do between its look-up and its
  insertion, provided they leave the database healthy and the fresh identifier unused; and when
  one of them created the repository in between, this very row is returned and nothing is
  inserted, so two racing pushes agree on the repository.\<close>

theorem first_push_race:
  assumes "ctl_healthy db" and "claims_Allows c name ActionPush"
    and "fst (resolveOrgID db (namespaceOf name)) = Some org"
    and "find_repo (t_repos db) org (TrimSpace name) = None"
    and "\<And>d. same_tables db d \<Longrightarrow> ctl_healthy (others d)
            \<and> ''repo_'' @ c_rand (others d) (c_ids (others d)) \<notin> rpID ` set (t_repos (others d))"
  shows "\<exists>r db' d. authz_Authorize db (Some c) name ActionPush others = (Inr r, db') \<and> same_tables db d
     \<and> find_repo (t_repos db') org (TrimSpace name) = Some r
     \<and> (\<forall>x. find_repo (t_repos (others d)) org (TrimSpace name) = Some x \<longrightarrow> r = x \<and> t_repos db' = t_repos (others d))"
  using assms by (rule first_push_succeeds)

theorem first_push_race_witness:
  "\<exists>r db' d. authz_Authorize (acme_db ''editor'' [] no_faults) (Some push_claims) ''acme/app'' ActionPush
       (\<lambda>d. d\<lparr>t_repos := [acme_app]\<rparr>) = (Inr r, db') \<and> r = acme_app"
proof -
  let ?others = "\<lambda>d. d\<lparr>t_repos := [acme_app]\<rparr>"
  have n: "TrimSpace ''acme/app'' = ''acme/app''" by code_simp
  have inv: "ctl_healthy (?others d) \<and> ''repo_'' @ c_rand (?others d) (c_ids (?others d)) \<notin> rpID ` set (t_repos (?others d))"
    if "same_tables (acme_db ''editor'' [] no_faults) d" for d
  proof -
    have z: "nat_digits 0 = ''0''" by code_simp
    show ?thesis using same_tablesD [OF that] by (simp add: acme_db_def ctl_healthy_def acme_app_def z)
  qed
  have "ctl_healthy (acme_db ''editor'' [] no_faults)" by (simp add: acme_db_def ctl_healthy_def)
  from first_push_race [OF this, of push_claims "''acme/app''" "''org1''" ?others, OF _ acme_resolves _ inv]
  obtain r db' d where "authz_Authorize (acme_db ''editor'' [] no_faults) (Some push_claims) ''acme/app'' ActionPush ?others = (Inr r, db')"
    and "\<forall>x. find_repo [acme_app] ''org1'' ''acme/app'' = Some x \<longrightarrow> r = x"
    by (auto simp: push_claims_def ActionPush_def acme_db_def find_repo_def n)
  moreover have "find_repo [acme_app] ''org1'' ''acme/app'' = Some acme_app" by (simp add: find_repo_def acme_app_def)
  ultimately show ?thesis by blast
qed

section \<open>Where the decision is weaker than intended\<close>

text \<open>When both look-ups of the organization fail, the name of a hosted repository counts as a
  mirror name and pull is granted to every principal, the anonymous one included; the token
  minted then opens the repository on any later database, private or not. The package says
  that everything fails closed.\<close>

theorem org_lookup_fault_opens_pull:
  assumes "namespaceOf name \<noteq> []" and "c_fault db (c_tick db) \<noteq> None" and "c_fault db (Suc (c_tick db)) \<noteq> None"
  shows "fst (token_access g db p [\<lparr>scType = ''repository'', scName = name, scActions = [ActionPull]\<rparr>])
           = [\<lparr>acType = ''repository'', acName = name, acActions = [ActionPull]\<rparr>]
     \<and> AuthorizeRead db2 (Some \<lparr>clSubject = pSubject p,
           clAccess = fst (token_access g db p [\<lparr>scType = ''repository'', scName = name, scActions = [ActionPull]\<rparr>])\<rparr>) name
         = (None, db2)"
proof -
  have "fst (resolveOrgID db (namespaceOf name)) = None"
    using assms by (auto simp: resolveOrgID_def GetOrgBySlug_def GetOrg_def query_def sql_def split: option.splits)
  then have "fst (GrantedActions g db p name [ActionPull]) = [ActionPull]"
    by (auto simp: GrantedActions_def pullOnly_def split: prod.splits)
  then have t: "fst (token_access g db p [\<lparr>scType = ''repository'', scName = name, scActions = [ActionPull]\<rparr>])
           = [\<lparr>acType = ''repository'', acName = name, acActions = [ActionPull]\<rparr>]"
    by (auto split: prod.splits)
  then show ?thesis by (simp add: AuthorizeRead_def)
qed

theorem org_lookup_fault_opens_pull_witness:
  "fst (AuthorizeRead (acme_db ''owner'' [acme_app] no_faults)
     (Some \<lparr>clSubject = [], clAccess = fst (token_access True (acme_db ''owner'' [acme_app] (\<lambda>n. Some ''database is locked''))
        \<lparr>pSubject = [], pOrgID = [], pEmail = [], pAnonymous = True, pKeyScopes = []\<rparr>
        [\<lparr>scType = ''repository'', scName = ''acme/app'', scActions = [ActionPull]\<rparr>])\<rparr>) ''acme/app'') = None"
proof -
  have f: "c_fault (acme_db r rs fault) n = fault n" for r rs fault n by (simp add: acme_db_def)
  have "namespaceOf ''acme/app'' \<noteq> []" by (simp add: namespaceOf_def)
  from org_lookup_fault_opens_pull [OF this, of "acme_db ''owner'' [acme_app] (\<lambda>n. Some ''database is locked'')" True
      "\<lparr>pSubject = [], pOrgID = [], pEmail = [], pAnonymous = True, pKeyScopes = []\<rparr>" "acme_db ''owner'' [acme_app] no_faults",
      unfolded f, OF option.distinct(2) option.distinct(2), THEN conjunct2]
  show ?thesis by (simp only: Principal.simps fst_conv)
qed

text \<open>any member of an organization, a viewer included, is granted push on a name of the
  organization that has no repository yet, because the missing repository is taken to be open
  for writing to the organization; the first push then makes them its owner, and from there on
  they hold every action on it. For an existing repository a viewer only pulls.\<close>

theorem member_pushes_new_repository:
  assumes "ctl_healthy db" and "resolveOrgID db (namespaceOf name) = (Some org, db1)"
    and "find_repo (t_repos db) org (TrimSpace name) = None"
    and "find_member (t_members db) org (normEmail (pEmail p)) = Some m"
    and "\<not> pAnonymous p" and "pSubject p \<noteq> []" and "pOrgID p = []" and "pEmail p \<noteq> []" and "pKeyScopes p = []"
    and "''repo_'' @ c_rand db (c_ids db) \<notin> rpID ` set (t_repos db)"
  shows "fst (GrantedActions g db p name [ActionPush]) = [ActionPush]
     \<and> (\<exists>r db'. authz_Authorize db (Some \<lparr>clSubject = pSubject p, clAccess =
             [\<lparr>acType = ''repository'', acName = name, acActions = [ActionPush]\<rparr>]\<rparr>) name ActionPush id = (Inr r, db')
           \<and> rpOwnerUserID r = pSubject p
           \<and> (\<forall>as. fst (GrantedActions g db' p name as) = as))"
proof -
  obtain res db2 subj db3 role db4 rp gs db5 where
    e: "resourceFor db1 org name = (res, db2)" "subjectForOrg db2 p org = (subj, db3)" "orgRoleOf db3 p org = (role, db4)"
       "shared_repo g db4 org name = ((rp, gs), db5)"
    and ga: "GrantedActions g db p name [ActionPush] =
       action_loop g db5 p \<lparr>dResource = res, dSubject = subj, dOrg = org, dRole = role, dGrantedOrgs = gs, dRepo = rp\<rparr> [ActionPush]"
    and st: "same_tables db db1" "same_tables db db2" "same_tables db db3" "same_tables db db4" "same_tables db db5"
    by (rule GrantedActions_Some [OF assms(2)])
  have h: "ctl_healthy db1" "ctl_healthy db2" using st assms(1) same_tablesD(11) by blast+
  have res: "res = \<lparr>resOwnerUserID = [], resOrgID = org, resVisibility = OrgVis, resAccess = WriteAccess\<rparr>"
    using e(1) h(1) assms(3) find_repo_tables [OF st(1)] by (simp add: resourceFor_def GetRepo_def row_option_def)
  have subj: "subj = \<lparr>sUserID = pSubject p, sOrgID = org, sAdmin = False\<rparr>"
    using e(2) h(2) assms(4-8) same_tablesD(2) [OF st(2)] by (simp add: subjectForOrg_def GetOrgMember_def row_option_def)
  have "repo_Authorize res subj True gs rl = None" for rl
    using assms(6) by (simp add: res subj repo_Authorize_None_iff CanAccessGranted_None_iff canWrite_def sameOrg_def)
  then have granted: "fst (GrantedActions g db p name [ActionPush]) = [ActionPush]"
    unfolding ga using assms(9) by (simp add: ActionPush_def ActionPull_def)
  let ?c = "\<lparr>clSubject = pSubject p, clAccess = [\<lparr>acType = ''repository'', acName = name, acActions = [ActionPush]\<rparr>]\<rparr>"
  have fresh: "ctl_healthy (id d) \<and> ''repo_'' @ c_rand (id d) (c_ids (id d)) \<notin> rpID ` set (t_repos (id d))"
    if "same_tables db d" for d
    using that assms(1,10) by (simp add: same_tablesD [OF that])
  have allow: "claims_Allows ?c name ActionPush" by simp
  have "fst (resolveOrgID db (namespaceOf name)) = Some org" by (simp add: assms(2))
  from first_push_succeeds [where others = id, OF assms(1) allow this assms(3)] fresh
  obtain r db' where a: "authz_Authorize db (Some ?c) name ActionPush id = (Inr r, db')"
    and f: "find_repo (t_repos db') org (TrimSpace name) = Some r"
    by blast
  have own: "rpOwnerUserID r = pSubject p"
    using Authorize_answers [OF a] assms(2,3) f by (auto simp: same_tablesD)
  have db': "ctl_healthy db' \<and> t_orgs db' = t_orgs db"
    using a assms(1,2,3) by (auto simp: authz_Authorize_def first_push_def CreateRepo_def newID_def insert_row_def sql_def
        ctl_healthy_def Let_def GetRepo_def query_def row_option_def split: option.splits sum.splits if_splits prod.splits
        dest!: resolveOrgID_same_tables simp: same_tablesD)
  then have "fst (resolveOrgID db' (namespaceOf name)) = Some org"
    using resolveOrgID_healthy [of db db'] assms(1,2) by simp
  then obtain d1 where "resolveOrgID db' (namespaceOf name) = (Some org, d1)" by (metis prod.collapse)
  from GrantedActions_permitted [OF _ this f] db'
  have "fst (GrantedActions g db' p name as) = filter (permitted g db' p r) as" for as by simp
  moreover have "permitted g db' p r a" for a using own assms(5,6,9) by (simp add: permitted_def)
  ultimately show ?thesis using granted a own by auto
qed

theorem member_pushes_new_repository_witness:
  "fst (GrantedActions True (acme_db ''viewer'' [] no_faults) ann ''acme/app'' [ActionPush]) = [ActionPush]"
proof -
  let ?db = "acme_db ''viewer'' [] no_faults"
  obtain db1 where r: "resolveOrgID ?db (namespaceOf ''acme/app'') = (Some ''org1'', db1)"
    using acme_resolves by (metis prod.collapse)
  have e: "normEmail (pEmail ann) = ''ann@x.org''" unfolding ann_def by code_simp
  have "find_member (t_members ?db) ''org1'' (normEmail (pEmail ann)) =
      Some \<lparr>mID = ''m1'', mOrgID = ''org1'', mEmail = ''ann@x.org'', mRole = ''viewer'', mInvitedBy = [], mCreatedAt = 0\<rparr>"
    by (simp add: e find_member_def acme_db_def)
  from member_pushes_new_repository [OF _ r _ this, of True] show ?thesis
    by (simp add: acme_db_def ctl_healthy_def find_repo_def ann_def)
qed

text \<open>A failing look-up of an existing private repository opens it for pushing to every member.\<close>

lemma repo_lookup_fault_opens_push:
  "fst (GrantedActions True (acme_db ''viewer'' [acme_app] (\<lambda>n. if n = 1 then Some ''database is locked'' else None))
     ann ''acme/app'' [''push'']) = [''push'']"
  unfolding acme_db_def acme_def acme_app_def ann_def by code_simp

text \<open>A member whose role in the table is no known word reads the private repositories.\<close>

lemma unknown_role_reads:
  assumes "ctl_healthy db" and "resolveOrgID db (namespaceOf name) = (Some org, db1)" and "org \<noteq> []"
    and "find_repo (t_repos db) org (TrimSpace name) = Some r"
    and "find_member (t_members db) org (normEmail (pEmail p)) = Some m" and "NormalizeLegacyRole (mRole m) = []"
    and "\<not> pAnonymous p" and "pSubject p \<noteq> []" and "pOrgID p = []" and "pEmail p \<noteq> []" and "pKeyScopes p = []"
  shows "fst (GrantedActions g db p name [ActionPull]) = [ActionPull]"
proof -
  have "effective_role db p org = RoleViewer" using assms(3,5-10) by (simp add: effective_role_def NormalizeRole_def)
  then have "permitted g db p r ActionPull"
    using find_repoD [OF assms(4)] assms(11) by (simp add: permitted_def roleNeededFor_def)
  then show ?thesis using GrantedActions_permitted [OF assms(1,2,4), of g p "[ActionPull]"] by simp
qed

text \<open>Freezing an organization does not change what the token endpoint grants.\<close>

lemma frozen_org_still_served:
  "Frozen (Some (acme\<lparr>oStatus := StatusFrozen\<rparr>)) \<and>
   fst (GrantedActions True ((acme_db ''editor'' [acme_app] no_faults)\<lparr>t_orgs := [acme\<lparr>oStatus := StatusFrozen\<rparr>]\<rparr>)
     ann ''acme/app'' [''pull'', ''push'']) = [''pull'', ''push'']"
proof
  show "Frozen (Some (acme\<lparr>oStatus := StatusFrozen\<rparr>))" by (simp add: Frozen_def)
  show "fst (GrantedActions True ((acme_db ''editor'' [acme_app] no_faults)\<lparr>t_orgs := [acme\<lparr>oStatus := StatusFrozen\<rparr>]\<rparr>)
     ann ''acme/app'' [''pull'', ''push'']) = [''pull'', ''push'']"
    unfolding acme_db_def acme_def acme_app_def ann_def StatusFrozen_def by code_simp
qed

section \<open>Token scopes\<close>

lemma token_access_sound:
  assumes "token_access g db p scs = (acs, db')" and "a \<in> set acs"
  shows "\<exists>sc \<in> set scs. acType a = ''repository'' \<and> acName a = scName sc \<and> acActions a \<noteq> []
      \<and> (\<exists>d. same_tables db d \<and> acActions a = fst (GrantedActions g d p (scName sc) (scActions sc)))"
  using assms
proof (induction scs arbitrary: db acs db')
  case (Cons sc scs)
  obtain actions db1 where ga: "GrantedActions g db p (scName sc) (scActions sc) = (actions, db1)" by force
  obtain acs' db2 where t: "token_access g db1 p scs = (acs', db2)" by force
  have st: "same_tables db db1" by (rule GrantedActions_same_tables [OF ga])
  have acs: "acs = (if actions = [] then acs'
               else \<lparr>acType = ''repository'', acName = scName sc, acActions = actions\<rparr> # acs')"
    using Cons.prems(1) ga t by (auto split: if_splits)
  show ?case
  proof (cases "a \<in> set acs'")
    case True
    from Cons.IH [OF t this] obtain sc' d where "sc' \<in> set scs" "acType a = ''repository''" "acName a = scName sc'" "acActions a \<noteq> []"
      "same_tables db1 d" "acActions a = fst (GrantedActions g d p (scName sc') (scActions sc'))" by blast
    then show ?thesis using same_tables_trans [OF st] by auto
  next
    case False
    with Cons.prems(2) acs have "a = \<lparr>acType = ''repository'', acName = scName sc, acActions = actions\<rparr>" "actions \<noteq> []"
      by (auto split: if_splits)
    then show ?thesis using ga by (intro bexI [of _ sc]) (auto intro!: exI [of _ db])
  qed
qed simp

text \<open>End to end on a healthy database: when the claims of the token issued for a request allow
  an action on a repository that exists, then a scope of the request asked for it by that very
  name and the abstract decision permits it to the principal.\<close>

theorem token_claims_permitted:
  assumes "ctl_healthy db" and "fst (resolveOrgID db (namespaceOf name)) = Some org"
    and "find_repo (t_repos db) org (TrimSpace name) = Some r"
    and "claims_Allows (fst (token_claims g db p raw)) name action"
  shows "permitted g db p r action
     \<and> (\<exists>sc \<in> set (ParseScopes (scopeValues raw)). scName sc = name \<and> action \<in> set (scActions sc))"
proof -
  obtain acs db' where t: "token_access g db p (ParseScopes (scopeValues raw)) = (acs, db')" by force
  obtain a where a: "a \<in> set acs" "acName a = name" "action \<in> set (acActions a)"
    using assms(4) t by (auto simp: token_claims_def claims_Allows_def list_ex_iff)
  from token_access_sound [OF t a(1)] obtain sc d where sc: "sc \<in> set (ParseScopes (scopeValues raw))" "acName a = scName sc"
    and d: "same_tables db d" "acActions a = fst (GrantedActions g d p (scName sc) (scActions sc))" by blast
  have h: "ctl_healthy d" using d(1) assms(1) same_tablesD(11) by blast
  have "fst (resolveOrgID d (namespaceOf name)) = Some org"
    using resolveOrgID_healthy [OF assms(1) h] same_tablesD(1) [OF d(1)] assms(2) by simp
  then obtain d1 where o: "resolveOrgID d (namespaceOf name) = (Some org, d1)" by (metis prod.collapse)
  have "acActions a = filter (permitted g d p r) (scActions sc)"
    using GrantedActions_permitted [OF h o] assms(3) find_repo_tables [OF d(1)] d(2) sc(2) a(2) by simp
  moreover have "permitted g d p r = permitted g db p r"
    by (intro ext) (simp add: permitted_def effective_role_tables [OF d(1)] acts_as_tables [OF d(1)] access_of_tables [OF d(1)])
  ultimately show ?thesis using a sc by auto
qed

theorem token_claims_permitted_witness:
  "permitted True (acme_db ''viewer'' [acme_app] no_faults) ann acme_app ''pull''"
proof -
  let ?db = "acme_db ''viewer'' [acme_app] no_faults"
  have h: "ctl_healthy ?db" by (simp add: ctl_healthy_def acme_db_def)
  have "claims_Allows (fst (token_claims True ?db ann [''repository:acme/app:pull,push''])) ''acme/app'' ''pull''"
    unfolding acme_db_def acme_def acme_app_def ann_def by code_simp
  from token_claims_permitted [OF h acme_resolves acme_finds this] show ?thesis by simp
qed

end
