(* ===== verification/Push.thy ===== *)
theory Push
  imports Sessions RegistryAuthz
begin

text \<open>
  The write half of the hosted registry (\<^verbatim>\<open>internal/handler/registry/registry.go\<close>,
  \<^verbatim>\<open>manifest_refs.go\<close>, \<^verbatim>\<open>discovery.go\<close>): uploads, manifests, tags, deletion and discovery, over
  the sessions, the cache's stores and the control database. Logging is left out.

  Parameters: the session store (either of \<^verbatim>\<open>Sessions\<close>), \<^verbatim>\<open>go-digest\<close>, \<^verbatim>\<open>encoding/json\<close> for
  manifests and the referrers index, what other requests do to the control database during a first
  push, and the read handler requests fall through to.
\<close>

section \<open>Requests and responses\<close>

record reg_request =
  hrMethod :: string
  hrPath :: string
  hrClaims :: "AccessClaims option"
  hrDigest :: string
  hrContentRange :: string
  hrBody :: upload_body
  hrN :: string
  hrLast :: string
  hrArtifactType :: string

record ociDescriptor =
  odMediaType :: string
  odDigest :: string
  odSize :: int
  odArtifactType :: string
  odAnnotations :: "(string \<times> string) list"

record ociIndex =
  oiSchemaVersion :: int
  oiMediaType :: string
  oiManifests :: "ociDescriptor list"

datatype reg_body = NoBody | ErrBody string string | TagsBody string "string list" | IndexBody ociIndex

record reg_response =
  anStatus :: int
  anHeaders :: "(string \<times> string) list"
  anBody :: reg_body

record manifestRefs =
  mrConfig :: "string option"
  mrLayers :: "string list"
  mrManifests :: "string list"
  mrSubject :: "string option"

record manifestMeta =
  mmMediaType :: string
  mmArtifactType :: string
  mmConfigMediaType :: string
  mmSubject :: "ociDescriptor option"
  mmAnnotations :: "(string \<times> string) list"

record reg_env =
  rePush :: push_env
  reOps :: sess_ops
  reBlobs :: bool
  reMeta :: bool
  reOthers :: "control \<Rightarrow> control"
  reDigestErr :: "string \<Rightarrow> string"
  reRefs :: "bytes \<Rightarrow> manifestRefs option"
  reManifestMeta :: "bytes \<Rightarrow> manifestMeta option"
  reIndexMarshal :: "ociIndex \<Rightarrow> bytes"
  reIndexUnmarshal :: "bytes \<Rightarrow> ociIndex option"
  reRead :: "(reg_request \<Rightarrow> push_state \<Rightarrow> reg_response \<times> push_state) option"

abbreviation re_dg :: "reg_env \<Rightarrow> digest_lib" where "re_dg env \<equiv> peDigest (rePush env)"

definition api_header :: "string \<times> string" where
  "api_header = (''Docker-Distribution-Api-Version'', ''registry/2.0'')"

definition writeError :: "int \<Rightarrow> string \<Rightarrow> string \<Rightarrow> reg_response" where
  "writeError status code message =
     \<lparr>anStatus = status, anHeaders = [(''Content-Type'', ''application/json''), api_header], anBody = ErrBody code message\<rparr>"

definition with_headers :: "(string \<times> string) list \<Rightarrow> reg_response \<Rightarrow> reg_response" where
  "with_headers hs r = r\<lparr>anHeaders := hs @ anHeaders r\<rparr>"

definition reply :: "int \<Rightarrow> (string \<times> string) list \<Rightarrow> reg_response" where
  "reply status hs = \<lparr>anStatus = status, anHeaders = hs, anBody = NoBody\<rparr>"

fun writeAuthzError :: "authz_err \<Rightarrow> reg_response" where
  "writeAuthzError (AclErr _) = writeError 403 ''DENIED'' ''access denied''"
| "writeAuthzError (StoreErr NotFound) = writeError 404 ''NAME_UNKNOWN'' ''repository not known''"
| "writeAuthzError _ = writeError 500 ''UNKNOWN'' ''authorization check failed''"

definition actionPull :: string where "actionPull = ''pull''"
definition actionPush :: string where "actionPush = ''push''"
definition actionDelete :: string where "actionDelete = ''delete''"

definition authorize :: "reg_env \<Rightarrow> reg_request \<Rightarrow> string \<Rightarrow> string \<Rightarrow> push_state \<Rightarrow> (authz_err + Repo) \<times> push_state" where
  "authorize env req name action s =
     (case authz_Authorize (psControl s) (hrClaims req) name action (reOthers env) of (r, db) \<Rightarrow> (r, s\<lparr>psControl := db\<rparr>))"

definition on_control :: "(control \<Rightarrow> 'a \<times> control) \<Rightarrow> push_state \<Rightarrow> 'a \<times> push_state" where
  "on_control f s = (case f (psControl s) of (r, db) \<Rightarrow> (r, s\<lparr>psControl := db\<rparr>))"

section \<open>Helpers\<close>

definition isDigestRef :: "string \<Rightarrow> bool" where
  "isDigestRef ref \<longleftrightarrow> CHR '':'' \<in> set ref"

definition parseContentRange :: "string \<Rightarrow> (int \<times> int) option" where
  "parseContentRange v0 =
     (let v1 = TrimPrefix (TrimSpace v0) ''bytes '';
          v = (case IndexByte v1 CHR ''/'' of Some i \<Rightarrow> take i v1 | None \<Rightarrow> v1)
      in
      case IndexByte v CHR ''-'' of
        None \<Rightarrow> None
      | Some i \<Rightarrow>
          if i = 0 then None
          else
            (case ParseInt (TrimSpace (take i v)) of
               None \<Rightarrow> None
             | Some start \<Rightarrow>
                 if start < 0 then None
                 else
                   (case ParseInt (TrimSpace (drop (i + 1) v)) of
                      None \<Rightarrow> None
                    | Some end' \<Rightarrow> if end' < start then None else Some (start, end'))))"

definition range_end :: "int \<Rightarrow> int" where
  "range_end offset = (if offset - 1 < 0 then 0 else offset - 1)"

definition upload_location :: "string \<Rightarrow> string \<Rightarrow> string" where
  "upload_location name uuid = ''/v2/'' @ name @ ''/blobs/uploads/'' @ uuid"

definition writeUploadRange :: "string \<Rightarrow> string \<Rightarrow> int \<Rightarrow> (string \<times> string) list" where
  "writeUploadRange name uuid offset =
     [(''Location'', upload_location name uuid), (''Range'', ''0-'' @ itoa (range_end offset)), (''Docker-Upload-UUID'', uuid)]"

definition maxManifestBytes :: int where "maxManifestBytes = 4 * 2 ^ 20"

definition readLimited :: "upload_body \<Rightarrow> int \<Rightarrow> bytes option" where
  "readLimited b mx = (if mx < int (length (fst b)) then None else if snd b \<noteq> None then None else Some (fst b))"

section \<open>Hosted metadata\<close>

definition hostedOCIProtocol :: string where "hostedOCIProtocol = ''oci''"

definition hosted_ref :: "string \<Rightarrow> string \<Rightarrow> ArtifactRef" where
  "hosted_ref name digest =
     \<lparr>rProtocol = hostedOCIProtocol, rName = name, rVersion = digest, rDigest = digest, rUpstream = [], rMutable = False\<rparr>"

definition recordHostedBlob :: "reg_env \<Rightarrow> string \<Rightarrow> string \<Rightarrow> int \<Rightarrow> push_state \<Rightarrow> push_state" where
  "recordHostedBlob env name digest sz s =
     (if \<not> reMeta env then s
      else
        let now = db_now (ps_db s) in
        snd (on_db (\<lambda>d. Put d
          \<lparr>ceRef = hosted_ref name digest, ceDigest = digest, ceSize = sz, ceProtocol = hostedOCIProtocol, ceTier = TierChecksum,
           ceUpstream = [], ceETag = [], ceVerifiedAt = now, ceCreatedAt = now, ceOrigin = OriginHosted, ceSoftExpired = False\<rparr>) s))"

definition removeHostedBlob :: "reg_env \<Rightarrow> string \<Rightarrow> string \<Rightarrow> push_state \<Rightarrow> push_state" where
  "removeHostedBlob env name digest s =
     (if \<not> reMeta env then s else snd (on_db (\<lambda>d. Delete d (hosted_ref name digest)) s))"

definition hosted_tag_key :: "string \<Rightarrow> string \<Rightarrow> string" where
  "hosted_tag_key name tag = hostedOCIProtocol @ '':'' @ name @ '':'' @ tag"

definition pointer :: "string \<Rightarrow> string \<Rightarrow> gotime \<Rightarrow> MutableEntry" where
  "pointer key digest now =
     \<lparr>meKey = key, meProtocol = hostedOCIProtocol, meDigest = digest, mePayload = [], meETag = [], meLastModified = [],
      meTTLSeconds = -1, meUpstream = [], meFetchedAt = now\<rparr>"

definition recordHostedTag :: "reg_env \<Rightarrow> string \<Rightarrow> string \<Rightarrow> string \<Rightarrow> push_state \<Rightarrow> push_state" where
  "recordHostedTag env name tag digest s =
     (if \<not> reMeta env then s
      else snd (on_db (\<lambda>d. PutMutable d (pointer (hosted_tag_key name tag) digest (db_now d))) s))"

definition removeHostedTag :: "reg_env \<Rightarrow> string \<Rightarrow> string \<Rightarrow> push_state \<Rightarrow> push_state" where
  "removeHostedTag env name tag s =
     (if \<not> reMeta env then s else snd (on_db (\<lambda>d. DeleteMutable d (hosted_tag_key name tag)) s))"

section \<open>Uploads\<close>

definition startUpload :: "reg_env \<Rightarrow> reg_request \<Rightarrow> string \<Rightarrow> push_state \<Rightarrow> reg_response \<times> push_state" where
  "startUpload env req name s =
     (case authorize env req name actionPush s of
        (Inl e, s1) \<Rightarrow> (writeAuthzError e, s1)
      | (Inr _, s1) \<Rightarrow>
          (case soCreate (reOps env) name s1 of
             (Inl _, s2) \<Rightarrow> (writeError 500 ''BLOB_UPLOAD_INVALID'' ''failed to create upload session'', s2)
           | (Inr sess, s2) \<Rightarrow>
               (reply 202 [(''Location'', upload_location name (usID sess)), (''Docker-Upload-UUID'', usID sess), (''Range'', ''0-0''),
                           (''Content-Length'', ''0''), api_header], s2)))"

text \<open>A chunk must start where the session ends; without a range it is an append.\<close>

definition checkChunkContiguous :: "reg_request \<Rightarrow> string \<Rightarrow> string \<Rightarrow> UploadSession \<Rightarrow> reg_response option" where
  "checkChunkContiguous req name uuid sess =
     (if hrContentRange req = [] then None
      else
        case parseContentRange (hrContentRange req) of
          None \<Rightarrow> Some (writeError 400 ''BLOB_UPLOAD_INVALID'' ''malformed Content-Range'')
        | Some (start, _) \<Rightarrow>
            if start \<noteq> usOffset sess then
              Some (with_headers (writeUploadRange name uuid (usOffset sess))
                (writeError 416 ''BLOB_UPLOAD_INVALID''
                   (''chunk starts at '' @ itoa start @ '' but upload is at offset '' @ itoa (usOffset sess))))
            else None)"

text \<open>The session of a request: unknown, unreadable and foreign sessions are refused.\<close>

definition session_for ::
  "reg_env \<Rightarrow> string \<Rightarrow> string \<Rightarrow> push_state \<Rightarrow> (reg_response + UploadSession) \<times> push_state" where
  "session_for env name uuid s =
     (case soGet (reOps env) uuid s of
        (Inl SessionNotFound, s1) \<Rightarrow> (Inl (writeError 404 ''BLOB_UPLOAD_UNKNOWN'' ''upload session not found''), s1)
      | (Inl (SessErr _), s1) \<Rightarrow> (Inl (writeError 500 ''BLOB_UPLOAD_INVALID'' ''session lookup failed''), s1)
      | (Inr sess, s1) \<Rightarrow>
          if usRepo sess \<noteq> name then (Inl (writeError 404 ''BLOB_UPLOAD_UNKNOWN'' ''upload session not found''), s1)
          else (Inr sess, s1))"

definition patchUpload :: "reg_env \<Rightarrow> reg_request \<Rightarrow> string \<Rightarrow> string \<Rightarrow> push_state \<Rightarrow> reg_response \<times> push_state" where
  "patchUpload env req name uuid s =
     (case authorize env req name actionPush s of
        (Inl e, s1) \<Rightarrow> (writeAuthzError e, s1)
      | (Inr _, s1) \<Rightarrow>
          (case session_for env name uuid s1 of
             (Inl resp, s2) \<Rightarrow> (resp, s2)
           | (Inr sess, s2) \<Rightarrow>
               (case checkChunkContiguous req name uuid sess of
                  Some resp \<Rightarrow> (resp, s2)
                | None \<Rightarrow>
                    (case soAppend (reOps env) uuid (hrBody req) s2 of
                       (Inl _, s3) \<Rightarrow> (writeError 500 ''BLOB_UPLOAD_INVALID'' ''failed to append chunk'', s3)
                     | (Inr newOffset, s3) \<Rightarrow>
                         (reply 202 [(''Location'', upload_location name uuid), (''Range'', ''0-'' @ itoa (range_end newOffset)),
                                     (''Content-Length'', ''0''), (''Docker-Upload-UUID'', uuid), api_header], s3)))))"

definition algorithm :: "string \<Rightarrow> string" where
  "algorithm digest = (case IndexByte digest CHR '':'' of Some i \<Rightarrow> take i digest | None \<Rightarrow> [])"

definition digest_with :: "reg_env \<Rightarrow> string \<Rightarrow> bytes \<Rightarrow> string" where
  "digest_with env declared c = algorithm declared @ '':'' @ dg_hex (re_dg env) declared c"

definition abandon_upload :: "reg_env \<Rightarrow> string \<Rightarrow> reg_response \<Rightarrow> push_state \<Rightarrow> reg_response \<times> push_state" where
  "abandon_upload env uuid resp s = (resp, snd (soDelete (reOps env) uuid s))"

text \<open>
  The second pass hands the stream to the blob store, which does not read it when it has the blob;
  a stream that breaks is an error of the store otherwise.
\<close>

definition put_stream ::
  "reg_env \<Rightarrow> string \<Rightarrow> string + bytes \<Rightarrow> int \<Rightarrow> push_state \<Rightarrow> (blob_err + unit) \<times> push_state" where
  "put_stream env digest content sz s =
     (case content of
        Inr c \<Rightarrow> on_disk (\<lambda>d. blob_Put (re_dg env) d digest c sz) s
      | Inl e \<Rightarrow>
          (case on_disk (\<lambda>d. blob_Exists d digest) s of
             (Inr True, s1) \<Rightarrow> (Inr (), s1)
           | (_, s1) \<Rightarrow> (Inl (DiskErr e), s1)))"

definition promote_upload ::
  "reg_env \<Rightarrow> string \<Rightarrow> string \<Rightarrow> string \<Rightarrow> int \<Rightarrow> push_state \<Rightarrow> reg_response \<times> push_state" where
  "promote_upload env name uuid digest sz s =
     (if \<not> reBlobs env then abandon_upload env uuid (writeError 501 ''UNSUPPORTED'' ''blob store not configured'') s
      else
        case soRead (reOps env) uuid s of
          (Inl _, s1) \<Rightarrow>
            abandon_upload env uuid (writeError 500 ''BLOB_UPLOAD_INVALID'' ''failed to reopen upload content'') s1
        | (Inr content, s1) \<Rightarrow>
            (case put_stream env digest content sz s1 of
               (Inl _, s2) \<Rightarrow> abandon_upload env uuid (writeError 500 ''BLOB_UPLOAD_INVALID'' ''failed to store blob'') s2
             | (Inr _, s2) \<Rightarrow>
                 (let s3 = recordHostedBlob env name digest sz s2; s4 = snd (soComplete (reOps env) uuid digest s3) in
                  (reply 201 [(''Location'', ''/v2/'' @ name @ ''/blobs/'' @ digest), (''Content-Length'', ''0''),
                              (''Docker-Content-Digest'', digest), api_header], s4))))"

definition finish_upload :: "reg_env \<Rightarrow> reg_request \<Rightarrow> string \<Rightarrow> string \<Rightarrow> push_state \<Rightarrow> reg_response \<times> push_state" where
  "finish_upload env req name uuid s =
     (case soAppend (reOps env) uuid (hrBody req) s of
        (Inl _, s1) \<Rightarrow> abandon_upload env uuid (writeError 500 ''BLOB_UPLOAD_INVALID'' ''failed to append final chunk'') s1
      | (Inr _, s1) \<Rightarrow>
          (case soGet (reOps env) uuid s1 of
             (Inl _, s2) \<Rightarrow> abandon_upload env uuid (writeError 500 ''BLOB_UPLOAD_INVALID'' ''session re-read failed'') s2
           | (Inr _, s2) \<Rightarrow>
               (case soRead (reOps env) uuid s2 of
                  (Inl _, s3) \<Rightarrow>
                    abandon_upload env uuid (writeError 500 ''BLOB_UPLOAD_INVALID'' ''failed to open upload content'') s3
                | (Inr (Inl _), s3) \<Rightarrow>
                    abandon_upload env uuid (writeError 500 ''BLOB_UPLOAD_INVALID'' ''failed to hash upload'') s3
                | (Inr (Inr c), s3) \<Rightarrow>
                    let declared = hrDigest req; actual = digest_with env declared c in
                    if actual \<noteq> declared then
                      abandon_upload env uuid (writeError 400 ''DIGEST_INVALID''
                        (''digest mismatch: declared '' @ declared @ '' actual '' @ actual)) s3
                    else promote_upload env name uuid actual (int (length c)) s3)))"

definition completeUpload :: "reg_env \<Rightarrow> reg_request \<Rightarrow> string \<Rightarrow> string \<Rightarrow> push_state \<Rightarrow> reg_response \<times> push_state" where
  "completeUpload env req name uuid s =
     (case authorize env req name actionPush s of
        (Inl e, s1) \<Rightarrow> (writeAuthzError e, s1)
      | (Inr _, s1) \<Rightarrow>
          if hrDigest req = [] then (writeError 400 ''DIGEST_INVALID'' ''digest query parameter required'', s1)
          else if \<not> dg_valid (re_dg env) (hrDigest req) then
            abandon_upload env uuid (writeError 400 ''DIGEST_INVALID'' (reDigestErr env (hrDigest req))) s1
          else
            (case session_for env name uuid s1 of
               (Inl resp, s2) \<Rightarrow> (resp, s2)
             | (Inr sess, s2) \<Rightarrow>
                 (case checkChunkContiguous req name uuid sess of
                    Some resp \<Rightarrow> (resp, s2)
                  | None \<Rightarrow> finish_upload env req name uuid s2)))"

definition uploadStatus :: "reg_env \<Rightarrow> reg_request \<Rightarrow> string \<Rightarrow> string \<Rightarrow> push_state \<Rightarrow> reg_response \<times> push_state" where
  "uploadStatus env req name uuid s =
     (case authorize env req name actionPush s of
        (Inl e, s1) \<Rightarrow> (writeAuthzError e, s1)
      | (Inr _, s1) \<Rightarrow>
          (case session_for env name uuid s1 of
             (Inl resp, s2) \<Rightarrow> (resp, s2)
           | (Inr sess, s2) \<Rightarrow>
               (reply 204 [(''Range'', ''0-'' @ itoa (range_end (usOffset sess))), (''Docker-Upload-UUID'', uuid),
                           (''Content-Length'', ''0''), api_header], s2)))"

section \<open>Manifests\<close>

text \<open>The digests a manifest names, trimmed, without empty ones and repetitions, in order.\<close>

fun unique_digests :: "string list \<Rightarrow> string list \<Rightarrow> string list" where
  "unique_digests seen [] = []"
| "unique_digests seen (d0 # ds) =
     (let d = TrimSpace d0 in
      if d = [] \<or> List.member seen d then unique_digests seen ds else d # unique_digests (d # seen) ds)"

definition referencedBlobDigests :: "reg_env \<Rightarrow> bytes \<Rightarrow> string list" where
  "referencedBlobDigests env b =
     (case reRefs env b of
        None \<Rightarrow> []
      | Some refs \<Rightarrow>
          unique_digests []
            ((case mrConfig refs of None \<Rightarrow> [] | Some d \<Rightarrow> [d]) @ mrLayers refs @ mrManifests refs @
             (case mrSubject refs of None \<Rightarrow> [] | Some d \<Rightarrow> [d])))"

fun missing_blob :: "reg_env \<Rightarrow> string list \<Rightarrow> push_state \<Rightarrow> (string + string) \<times> push_state" where
  "missing_blob env [] s = (Inr [], s)"
| "missing_blob env (d # ds) s =
     (if \<not> dg_valid (re_dg env) d then (Inr d, s)
      else
        case on_disk (\<lambda>k. blob_Exists k d) s of
          (Inl e, s1) \<Rightarrow> (Inl (''blob exists check '' @ d @ '': '' @ blob_err_Error e), s1)
        | (Inr ok, s1) \<Rightarrow> if \<not> ok then (Inr d, s1) else missing_blob env ds s1)"

definition ensureReferencedBlobsExist :: "reg_env \<Rightarrow> bytes \<Rightarrow> push_state \<Rightarrow> (string + string) \<times> push_state" where
  "ensureReferencedBlobsExist env b s = missing_blob env (referencedBlobDigests env b) s"

section \<open>The referrers index\<close>

definition mediaTypeOCIIndex :: string where
  "mediaTypeOCIIndex = ''application/vnd.oci.image.index.v1+json''"

definition newReferrersIndex :: ociIndex where
  "newReferrersIndex = \<lparr>oiSchemaVersion = 2, oiMediaType = mediaTypeOCIIndex, oiManifests = []\<rparr>"

definition effectiveArtifactType :: "manifestMeta \<Rightarrow> string" where
  "effectiveArtifactType m = (if mmArtifactType m \<noteq> [] then mmArtifactType m else mmConfigMediaType m)"

definition referrersKey :: "string \<Rightarrow> string \<Rightarrow> string" where
  "referrersKey name subjectDigest = ''oci-referrers:'' @ name @ '':'' @ subjectDigest"

text \<open>Returns the index together with the error; the caller decides what to do with it.\<close>

definition loadReferrers :: "reg_env \<Rightarrow> string \<Rightarrow> string \<Rightarrow> push_state \<Rightarrow> (string option \<times> ociIndex) \<times> push_state" where
  "loadReferrers env name subjectDigest s =
     (if \<not> reMeta env \<or> \<not> reBlobs env then ((None, newReferrersIndex), s)
      else
        case on_db (\<lambda>d. GetMutable d (referrersKey name subjectDigest)) s of
          (Inl e, s1) \<Rightarrow> ((Some (''registry: get referrers pointer: '' @ e), newReferrersIndex), s1)
        | (Inr None, s1) \<Rightarrow> ((None, newReferrersIndex), s1)
        | (Inr (Some entry), s1) \<Rightarrow>
            if meDigest entry = [] then ((None, newReferrersIndex), s1)
            else
              (case on_disk (\<lambda>d. blob_Get d (meDigest entry) 0 (-1)) s1 of
                 (Inl _, s2) \<Rightarrow> ((None, newReferrersIndex), s2)
               | (Inr (rc, _), s2) \<Rightarrow>
                   (case reIndexUnmarshal env rc of
                      None \<Rightarrow> ((Some ''registry: decode referrers index'', newReferrersIndex), s2)
                    | Some index \<Rightarrow> ((None, index\<lparr>oiSchemaVersion := 2, oiMediaType := mediaTypeOCIIndex\<rparr>), s2))))"

definition storeReferrers :: "reg_env \<Rightarrow> string \<Rightarrow> string \<Rightarrow> ociIndex \<Rightarrow> push_state \<Rightarrow> push_state" where
  "storeReferrers env name subjectDigest index s =
     (let b = reIndexMarshal env index; indexDigest = digest_with env ''sha256:'' b in
      case on_disk (\<lambda>d. blob_Put (re_dg env) d indexDigest b (int (length b))) s of
        (Inl _, s1) \<Rightarrow> s1
      | (Inr _, s1) \<Rightarrow>
          snd (on_db (\<lambda>d. PutMutable d (pointer (referrersKey name subjectDigest) indexDigest (db_now d)))
            (recordHostedBlob env name indexDigest (int (length b)) s1)))"

fun upsert_descriptor :: "ociDescriptor \<Rightarrow> ociDescriptor list \<Rightarrow> ociDescriptor list" where
  "upsert_descriptor desc [] = [desc]"
| "upsert_descriptor desc (x # xs) = (if odDigest x = odDigest desc then desc # xs else x # upsert_descriptor desc xs)"

definition recordReferrer :: "reg_env \<Rightarrow> string \<Rightarrow> ociDescriptor \<Rightarrow> string \<Rightarrow> push_state \<Rightarrow> push_state" where
  "recordReferrer env name desc subjectDigest s =
     (if \<not> reMeta env \<or> \<not> reBlobs env then s
      else
        case loadReferrers env name subjectDigest s of
          ((_, index), s1) \<Rightarrow>
            storeReferrers env name subjectDigest (index\<lparr>oiManifests := upsert_descriptor desc (oiManifests index)\<rparr>) s1)"

definition listReferrers :: "reg_env \<Rightarrow> reg_request \<Rightarrow> string \<Rightarrow> string \<Rightarrow> push_state \<Rightarrow> reg_response \<times> push_state" where
  "listReferrers env req name subjectDigest s =
     (let answer = (\<lambda>index. if hrArtifactType req = []
             then \<lparr>anStatus = 200, anHeaders = [(''Content-Type'', mediaTypeOCIIndex)], anBody = IndexBody index\<rparr>
             else \<lparr>anStatus = 200, anHeaders = [(''OCI-Filters-Applied'', ''artifactType''), (''Content-Type'', mediaTypeOCIIndex)],
                   anBody = IndexBody (index\<lparr>oiManifests := filter (\<lambda>d. odArtifactType d = hrArtifactType req) (oiManifests index)\<rparr>)\<rparr>)
      in
      if \<not> dg_valid (re_dg env) subjectDigest then (writeError 400 ''DIGEST_INVALID'' (reDigestErr env subjectDigest), s)
      else
        case authorize env req name actionPull s of
          (Inr _, s1) \<Rightarrow>
            (case loadReferrers env name subjectDigest s1 of
               ((Some _, _), s2) \<Rightarrow> (writeError 500 ''UNKNOWN'' ''failed to load referrers'', s2)
             | ((None, index), s2) \<Rightarrow> (answer index, s2))
        | (Inl (StoreErr NotFound), s1) \<Rightarrow> (answer newReferrersIndex, s1)
        | (Inl e, s1) \<Rightarrow> (writeAuthzError e, s1))"

section \<open>Pushing and deleting\<close>

definition index_subject :: "reg_env \<Rightarrow> string \<Rightarrow> bytes \<Rightarrow> string \<Rightarrow> push_state \<Rightarrow> (string \<times> string) list \<times> push_state" where
  "index_subject env name b digest s =
     (case reManifestMeta env b of
        None \<Rightarrow> ([], s)
      | Some m \<Rightarrow>
          (case mmSubject m of
             None \<Rightarrow> ([], s)
           | Some sub \<Rightarrow>
               if odDigest sub = [] then ([], s)
               else
                 ([(''OCI-Subject'', odDigest sub)],
                  recordReferrer env name
                    \<lparr>odMediaType = mmMediaType m, odDigest = digest, odSize = int (length b),
                     odArtifactType = effectiveArtifactType m, odAnnotations = mmAnnotations m\<rparr> (odDigest sub) s)))"

definition accept_manifest ::
  "reg_env \<Rightarrow> Repo \<Rightarrow> string \<Rightarrow> string \<Rightarrow> bytes \<Rightarrow> string \<Rightarrow> push_state \<Rightarrow> reg_response \<times> push_state" where
  "accept_manifest env repoRow name ref b digest s =
     (let s1 = recordHostedBlob env name digest (int (length b)) s;
          done' = (\<lambda>s. case index_subject env name b digest s of
             (hs, s') \<Rightarrow>
               (reply 201 (hs @ [(''Location'', ''/v2/'' @ name @ ''/manifests/'' @ digest), (''Content-Length'', ''0''),
                                 (''Docker-Content-Digest'', digest), api_header]), s'))
      in
      if isDigestRef ref then done' s1
      else
        case on_control (\<lambda>db. PutTag db (rpID repoRow) ref digest) s1 of
          (Inl _, s2) \<Rightarrow> (writeError 500 ''MANIFEST_INVALID'' ''failed to record tag'', s2)
        | (Inr _, s2) \<Rightarrow> done' (recordHostedTag env name ref digest s2))"

definition putManifest :: "reg_env \<Rightarrow> reg_request \<Rightarrow> string \<Rightarrow> string \<Rightarrow> push_state \<Rightarrow> reg_response \<times> push_state" where
  "putManifest env req name ref s =
     (case authorize env req name actionPush s of
        (Inl e, s1) \<Rightarrow> (writeAuthzError e, s1)
      | (Inr repoRow, s1) \<Rightarrow>
          if \<not> reBlobs env then (writeError 501 ''UNSUPPORTED'' ''blob store not configured'', s1)
          else
            case readLimited (hrBody req) maxManifestBytes of
              None \<Rightarrow> (writeError 400 ''MANIFEST_INVALID'' ''manifest body too large or unreadable'', s1)
            | Some b \<Rightarrow>
                if b = [] then (writeError 400 ''MANIFEST_INVALID'' ''empty manifest body'', s1)
                else if isDigestRef ref \<and> \<not> dg_valid (re_dg env) ref then
                  (writeError 400 ''DIGEST_INVALID'' (reDigestErr env ref), s1)
                else
                  let digest = digest_with env (if isDigestRef ref then ref else ''sha256:'') b in
                  if isDigestRef ref \<and> ref \<noteq> digest then
                    (writeError 400 ''DIGEST_INVALID'' (''digest mismatch: declared '' @ ref @ '' actual '' @ digest), s1)
                  else
                    (case ensureReferencedBlobsExist env b s1 of
                       (Inl _, s2) \<Rightarrow> (writeError 500 ''UNKNOWN'' ''failed to validate manifest references'', s2)
                     | (Inr missing, s2) \<Rightarrow>
                         if missing \<noteq> [] then
                           (writeError 400 ''MANIFEST_BLOB_UNKNOWN'' (''blob unknown to registry: '' @ missing), s2)
                         else
                           (case on_disk (\<lambda>d. blob_Put (re_dg env) d digest b (int (length b))) s2 of
                              (Inl _, s3) \<Rightarrow> (writeError 500 ''MANIFEST_INVALID'' ''failed to store manifest'', s3)
                            | (Inr _, s3) \<Rightarrow> accept_manifest env repoRow name ref b digest s3)))"

text \<open>
  Every tag of the repository that points at the digest, then the metadata row, then the bytes.
  Deleting a tag that is gone is not an error of the tag store.
\<close>

fun drop_tags :: "reg_env \<Rightarrow> Repo \<Rightarrow> string \<Rightarrow> string \<Rightarrow> Tag list \<Rightarrow> push_state \<Rightarrow> string option \<times> push_state" where
  "drop_tags env repoRow name digest [] s = (None, s)"
| "drop_tags env repoRow name digest (t # ts) s =
     (if tgDigest t \<noteq> digest then drop_tags env repoRow name digest ts s
      else
        case on_control (\<lambda>db. DeleteTag db (rpID repoRow) (tgTag t)) s of
          (Inl (SqlErr e), s1) \<Rightarrow> (Some (''delete tag '' @ quote (tgTag t) @ '': '' @ e), s1)
        | (_, s1) \<Rightarrow> drop_tags env repoRow name digest ts (removeHostedTag env name (tgTag t) s1))"

definition deleteManifestByDigest :: "reg_env \<Rightarrow> Repo \<Rightarrow> string \<Rightarrow> string \<Rightarrow> push_state \<Rightarrow> string option \<times> push_state" where
  "deleteManifestByDigest env repoRow name digest s =
     (case on_control (\<lambda>db. ListTags db (rpID repoRow)) s of
        (Inl _, s1) \<Rightarrow> (Some ''list tags for digest delete'', s1)
      | (Inr tags, s1) \<Rightarrow>
          (case drop_tags env repoRow name digest tags s1 of
             (Some e, s2) \<Rightarrow> (Some e, s2)
           | (None, s2) \<Rightarrow>
               (let s3 = removeHostedBlob env name digest s2 in
                if \<not> reBlobs env then (None, s3)
                else
                  case on_disk (\<lambda>d. blob_Delete d digest) s3 of
                    (Inl e, s4) \<Rightarrow> (Some (''delete manifest blob: '' @ blob_err_Error e), s4)
                  | (Inr _, s4) \<Rightarrow> (None, s4))))"

definition accepted :: reg_response where
  "accepted = reply 202 [(''Content-Length'', ''0''), api_header]"

definition deleteManifest :: "reg_env \<Rightarrow> reg_request \<Rightarrow> string \<Rightarrow> string \<Rightarrow> push_state \<Rightarrow> reg_response \<times> push_state" where
  "deleteManifest env req name ref s =
     (case authorize env req name actionDelete s of
        (Inl e, s1) \<Rightarrow> (writeAuthzError e, s1)
      | (Inr repoRow, s1) \<Rightarrow>
          if isDigestRef ref then
            (case deleteManifestByDigest env repoRow name ref s1 of
               (Some _, s2) \<Rightarrow> (writeError 500 ''MANIFEST_UNKNOWN'' ''failed to delete manifest'', s2)
             | (None, s2) \<Rightarrow> (accepted, s2))
          else
            (case on_control (\<lambda>db. DeleteTag db (rpID repoRow) ref) s1 of
               (Inl (SqlErr _), s2) \<Rightarrow> (writeError 500 ''MANIFEST_UNKNOWN'' ''failed to delete tag'', s2)
             | (_, s2) \<Rightarrow> (accepted, removeHostedTag env name ref s2)))"

definition deleteBlob :: "reg_env \<Rightarrow> reg_request \<Rightarrow> string \<Rightarrow> string \<Rightarrow> push_state \<Rightarrow> reg_response \<times> push_state" where
  "deleteBlob env req name digest s =
     (case authorize env req name actionDelete s of
        (Inl e, s1) \<Rightarrow> (writeAuthzError e, s1)
      | (Inr _, s1) \<Rightarrow>
          if \<not> reBlobs env then (writeError 501 ''UNSUPPORTED'' ''blob store not configured'', s1)
          else if \<not> dg_valid (re_dg env) digest then (writeError 400 ''DIGEST_INVALID'' (reDigestErr env digest), s1)
          else
            (case on_disk (\<lambda>d. blob_Exists d digest) s1 of
               (Inl _, s2) \<Rightarrow> (writeError 500 ''UNKNOWN'' ''failed to check blob'', s2)
             | (Inr ok, s2) \<Rightarrow>
                 if \<not> ok then (writeError 404 ''BLOB_UNKNOWN'' ''blob unknown to registry'', s2)
                 else
                   (case on_disk (\<lambda>d. blob_Delete d digest) (removeHostedBlob env name digest s2) of
                      (Inl _, s3) \<Rightarrow> (writeError 500 ''BLOB_UNKNOWN'' ''failed to delete blob'', s3)
                    | (Inr _, s3) \<Rightarrow> (accepted, s3))))"

section \<open>Tag listing\<close>

definition defaultTagPageSize :: int where "defaultTagPageSize = 1000"

definition after_tag :: "string \<Rightarrow> string list \<Rightarrow> string list" where
  "after_tag last' tags =
     (if last' = [] then tags
      else
        let rest = dropWhile (\<lambda>t. t < last') tags in
        if rest \<noteq> [] \<and> hd rest = last' then tl rest else rest)"

definition paginateTags :: "string list \<Rightarrow> string \<Rightarrow> string \<Rightarrow> string + string list \<times> bool" where
  "paginateTags tags n last' =
     (let rest = after_tag last' tags in
      case (if n = [] then Some defaultTagPageSize else case ParseInt n of Some k \<Rightarrow> if k < 0 then None else Some k | None \<Rightarrow> None) of
        None \<Rightarrow> Inl (''invalid n parameter '' @ quote n @ '': must be a non-negative integer'')
      | Some limit \<Rightarrow> if limit < int (length rest) then Inr (take (nat limit) rest, True) else Inr (rest, False))"

text \<open>\<^verbatim>\<open>url.QueryEscape\<close>.\<close>

definition query_char :: "char \<Rightarrow> string" where
  "query_char c =
     (let n = (of_char c :: nat) in
      if is_digit c \<or> 65 \<le> n \<and> n \<le> 90 \<or> 97 \<le> n \<and> n \<le> 122 \<or> List.member ''-_.~'' c then [c]
      else if c = CHR '' '' then ''+''
      else [CHR ''%'', ''0123456789ABCDEF'' ! (n div 16), ''0123456789ABCDEF'' ! (n mod 16)])"

definition QueryEscape :: "string \<Rightarrow> string" where
  "QueryEscape s = concat (map query_char s)"

text \<open>The parameters are encoded in the order of their names.\<close>

definition nextTagPageLink :: "string \<Rightarrow> string \<Rightarrow> string \<Rightarrow> string" where
  "nextTagPageLink name n last' =
     ''</v2/'' @ name @ ''/tags/list?last='' @ QueryEscape last' @ (if n \<noteq> [] then ''&n='' @ QueryEscape n else []) @
     ''>; rel='' @ quote ''next''"

definition listTags :: "reg_env \<Rightarrow> reg_request \<Rightarrow> string \<Rightarrow> push_state \<Rightarrow> reg_response \<times> push_state" where
  "listTags env req name s =
     (case authorize env req name actionPull s of
        (Inl e, s1) \<Rightarrow> (writeAuthzError e, s1)
      | (Inr repoRow, s1) \<Rightarrow>
          (case on_control (\<lambda>db. ListTags db (rpID repoRow)) s1 of
             (Inl _, s2) \<Rightarrow> (writeError 500 ''UNKNOWN'' ''failed to list tags'', s2)
           | (Inr rows, s2) \<Rightarrow>
               (case paginateTags (isort (\<le>) (map tgTag rows)) (hrN req) (hrLast req) of
                  Inl e \<Rightarrow> (writeError 400 ''PAGINATION_NUMBER_INVALID'' e, s2)
                | Inr (page, truncated) \<Rightarrow>
                    (\<lparr>anStatus = 200,
                      anHeaders =
                        (if truncated \<and> page \<noteq> [] then [(''Link'', nextTagPageLink name (hrN req) (last page))] else []) @
                        [(''Content-Type'', ''application/json''), api_header],
                      anBody = TagsBody name page\<rparr>, s2))))"

section \<open>Routing\<close>

definition serveRead :: "reg_env \<Rightarrow> reg_request \<Rightarrow> push_state \<Rightarrow> reg_response \<times> push_state" where
  "serveRead env req s =
     (case reRead env of
        Some h \<Rightarrow> h req s
      | None \<Rightarrow> (writeError 404 ''NAME_UNKNOWN'' ''repository not known'', s))"

definition not_allowed :: "(string \<times> string) list \<Rightarrow> reg_response" where
  "not_allowed hs = reply 405 hs"

definition split_at :: "string \<Rightarrow> nat \<Rightarrow> string \<Rightarrow> string \<times> string" where
  "split_at rest i sep = (take i rest, drop (i + length sep) rest)"

definition ServeHTTP :: "reg_env \<Rightarrow> reg_request \<Rightarrow> push_state \<Rightarrow> reg_response \<times> push_state" where
  "ServeHTTP env req s =
     (let path = hrPath req; rest = TrimPrefix path ''/v2/''; m = hrMethod req in
      if \<not> HasPrefix path ''/v2/'' \<or> path = ''/v2/'' then serveRead env req s
      else
        case Index rest ''/blobs/uploads'' of
          Some i \<Rightarrow>
            (let name = take i rest; tail' = TrimPrefix (drop (i + 14) rest) ''/'' in
             if name = [] then (writeError 400 ''NAME_INVALID'' ''invalid repository name'', s)
             else if m = ''POST'' then startUpload env req name s
             else if m = ''PATCH'' then patchUpload env req name tail' s
             else if m = ''PUT'' then completeUpload env req name tail' s
             else if m = ''GET'' then uploadStatus env req name tail' s
             else (not_allowed [], s))
        | None \<Rightarrow>
        case LastIndex rest ''/manifests/'' of
          Some i \<Rightarrow>
            (case split_at rest i ''/manifests/'' of
               (name, ref) \<Rightarrow>
                 if name = [] \<or> ref = [] then (writeError 400 ''NAME_INVALID'' ''invalid name or reference'', s)
                 else if m = ''PUT'' then putManifest env req name ref s
                 else if m = ''DELETE'' then deleteManifest env req name ref s
                 else serveRead env req s)
        | None \<Rightarrow>
        case LastIndex rest ''/blobs/'' of
          Some i \<Rightarrow>
            (case split_at rest i ''/blobs/'' of
               (name, digest) \<Rightarrow>
                 if name = [] \<or> digest = [] then (writeError 400 ''DIGEST_INVALID'' ''invalid name or digest'', s)
                 else if m = ''DELETE'' then deleteBlob env req name digest s
                 else serveRead env req s)
        | None \<Rightarrow>
        if HasSuffix rest ''/tags/list'' then
          (let name = TrimSuffix rest ''/tags/list'' in
           if name = [] then (writeError 400 ''NAME_INVALID'' ''invalid repository name'', s)
           else if m = ''GET'' \<or> m = ''HEAD'' then listTags env req name s
           else (not_allowed [(''Allow'', ''GET, HEAD'')], s))
        else
          case LastIndex rest ''/referrers/'' of
            Some i \<Rightarrow>
              (case split_at rest i ''/referrers/'' of
                 (name, subject) \<Rightarrow>
                   if name = [] \<or> subject = [] then (writeError 400 ''NAME_INVALID'' ''invalid name or digest'', s)
                   else if m = ''GET'' \<or> m = ''HEAD'' then listReferrers env req name subject s
                   else (not_allowed [(''Allow'', ''GET, HEAD'')], s))
          | None \<Rightarrow> serveRead env req s)"

end
