(* ===== verification/PushProps.thy ===== *)
theory PushProps
  imports Push
begin

text \<open>
  What the write half of the registry guarantees: which manifests are accepted and where they can be
  found afterwards, that chunks are taken in order, that tags are listed completely, and that a
  completed upload can be pulled. The properties of uploads are proved once for every session store
  that keeps the contract of \<^verbatim>\<open>Sessions\<close>.
\<close>

section \<open>Frames\<close>

lemma on_control_frame: "on_control f s = (r, s') \<Longrightarrow> psCache s' = psCache s"
  by (auto simp: on_control_def split: prod.splits)

lemma authorize_frame: "authorize env req name action s = (r, s') \<Longrightarrow> \<exists>db. s' = s\<lparr>psControl := db\<rparr>"
  by (auto simp: authorize_def split: prod.splits)

lemma authorize_allowed:
  assumes "authorize env req name action s = (Inr repo, s')"
  shows "\<exists>c. hrClaims req = Some c \<and> claims_Allows c name action \<and> rpName repo = TrimSpace name
     \<and> fst (resolveOrgID (psControl s) (namespaceOf name)) = Some (rpOrgID repo)"
  using assms Authorize_answers [of "psControl s" "hrClaims req" name action "reOthers env"]
  by (auto simp: authorize_def split: prod.splits)

lemma chunk_at_control [simp]: "chunk_at (s\<lparr>psControl := db\<rparr>) = chunk_at s"
  by (rule chunk_at_cong) simp

lemma on_db_disk: "on_db f s = (r, s') \<Longrightarrow> ps_disk s' = ps_disk s \<and> psControl s' = psControl s"
  by (auto simp: on_db_def split: prod.splits)

lemma recordHostedBlob_frame [simp]: "ps_disk (recordHostedBlob env name d n s) = ps_disk s"
  "psControl (recordHostedBlob env name d n s) = psControl s"
  by (auto simp: recordHostedBlob_def Let_def on_db_def split: prod.split)

lemma recordHostedTag_frame [simp]: "ps_disk (recordHostedTag env name t d s) = ps_disk s"
  "psControl (recordHostedTag env name t d s) = psControl s"
  by (auto simp: recordHostedTag_def on_db_def split: prod.split)

lemma removeHostedTag_frame [simp]: "ps_disk (removeHostedTag env name t s) = ps_disk s"
  "psControl (removeHostedTag env name t s) = psControl s"
  by (auto simp: removeHostedTag_def on_db_def split: prod.split)

lemma removeHostedBlob_frame [simp]: "ps_disk (removeHostedBlob env name d s) = ps_disk s"
  "psControl (removeHostedBlob env name d s) = psControl s"
  by (auto simp: removeHostedBlob_def on_db_def split: prod.split)

text \<open>Bytes that are there stay there.\<close>

definition grows :: "push_state \<Rightarrow> push_state \<Rightarrow> bool" where
  "grows s s' \<longleftrightarrow> (\<forall>k. chunk_at s k \<noteq> None \<longrightarrow> chunk_at s' k \<noteq> None)"

lemma grows_refl [simp]: "grows s s"
  by (simp add: grows_def)

lemma grows_trans: "grows a b \<Longrightarrow> grows b c \<Longrightarrow> grows a c"
  by (simp add: grows_def)

lemma grows_disk: "ps_disk s' = ps_disk s \<Longrightarrow> grows s s'"
  unfolding grows_def by (drule chunk_at_cong) simp

lemma grows_reading:
  "(\<And>d. blob_files (snd (f d)) = blob_files d \<and> disk_root (snd (f d)) = disk_root d \<and> disk_fault (snd (f d)) = disk_fault d) \<Longrightarrow>
     on_disk f s = (r, s') \<Longrightarrow> grows s s'"
proof -
  assume f: "\<And>d. blob_files (snd (f d)) = blob_files d \<and> disk_root (snd (f d)) = disk_root d \<and> disk_fault (snd (f d)) = disk_fault d"
    and d: "on_disk f s = (r, s')"
  from on_disk_same [OF f d] have "chunk_at s' = chunk_at s" by (rule same_stores_frame(2))
  then show "grows s s'" unfolding grows_def by (rule ssubst) blast
qed

lemma on_disk_db: "on_disk f s = (r, s') \<Longrightarrow> ps_db s' = ps_db s \<and> psControl s' = psControl s"
  by (auto simp: on_disk_def split: prod.splits)

lemma grows_Put: "on_disk (\<lambda>d. blob_Put dg d k c n) s = (r, s') \<Longrightarrow> grows s s'"
proof -
  assume put: "on_disk (\<lambda>d. blob_Put dg d k c n) s = (r, s')"
  define d' where "d' = snd (blob_Put dg (ps_disk s) k c n)"
  have s': "ps_disk s' = d'" using put by (auto simp: on_disk_def d'_def split: prod.splits)
  have "blobPath d' x = blobPath (ps_disk s) x" for x by (simp add: blobPath_def d'_def split: sum.splits)
  moreover have "dom (blob_files (ps_disk s)) \<subseteq> dom (blob_files d')" by (simp add: d'_def blob_Put_dom)
  ultimately show "grows s s'" by (auto simp: grows_def chunk_at_def s' dom_def split: sum.splits)
qed

lemma missing_blob_none:
  "missing_blob env ds s = (Inr [], s') \<Longrightarrow> [] \<notin> set ds \<Longrightarrow>
     ps_db s' = ps_db s \<and> psControl s' = psControl s \<and> chunk_at s' = chunk_at s
     \<and> (\<forall>d \<in> set ds. dg_valid (re_dg env) d \<and> chunk_at s d \<noteq> None)"
proof (induction env ds s rule: missing_blob.induct)
  case (2 env d ds s)
  obtain q s1 where q: "on_disk (\<lambda>k. blob_Exists k d) s = (q, s1)" by fastforce
  have same: "same_stores s s1" by (rule on_disk_same [OF _ q]) simp
  have db: "ps_db s1 = ps_db s" "psControl s1 = psControl s" using q by (auto simp: on_disk_def split: prod.splits)
  have ok: "dg_valid (re_dg env) d" "q = Inr True" "missing_blob env ds s1 = (Inr [], s')"
    using 2 q by (auto split: if_splits sum.splits)
  then have "fst (blob_Exists (ps_disk s) d) = Inr True" using q by (auto simp: on_disk_def split: prod.splits)
  then have "chunk_at s d \<noteq> None" using blob_Exists_ok by (fastforce simp: chunk_at_def)
  then show ?case
    using 2(1) [OF _ q [symmetric]] ok 2(3) db same_stores_frame(2) [OF same] by auto
qed simp

lemma unique_digests_nonempty: "[] \<notin> set (unique_digests seen ds)"
  by (induction seen ds rule: unique_digests.induct) (auto simp: Let_def)

lemma loadReferrers_grows: "loadReferrers env name sd s = (r, s') \<Longrightarrow> grows s s' \<and> psControl s' = psControl s"
proof -
  assume load: "loadReferrers env name sd s = (r, s')"
  obtain q s1 where q: "on_db (\<lambda>d. GetMutable d (referrersKey name sd)) s = (q, s1)" by fastforce
  have s1: "grows s s1" "psControl s1 = psControl s" using on_db_disk [OF q] by (auto intro: grows_disk)
  have get: "grows s1 s2 \<and> psControl s2 = psControl s1" if "on_disk (\<lambda>d. blob_Get d k 0 (-1)) s1 = (g, s2)" for k g s2
    using on_disk_db [OF that] grows_reading [OF _ that] by simp
  show ?thesis
    using load q s1
    by (auto simp: loadReferrers_def split: if_splits prod.splits sum.splits option.splits dest!: get intro: grows_trans [OF s1(1)])
qed

lemma storeReferrers_grows: "grows s (storeReferrers env name sd ix s) \<and> psControl (storeReferrers env name sd ix s) = psControl s"
proof -
  obtain r s1 where put: "on_disk (\<lambda>d. blob_Put (re_dg env) d (digest_with env ''sha256:'' (reIndexMarshal env ix))
      (reIndexMarshal env ix) (int (length (reIndexMarshal env ix)))) s = (r, s1)" by fastforce
  have s1: "grows s s1" "psControl s1 = psControl s" using grows_Put [OF put] on_disk_db [OF put] by auto
  have db: "ps_disk (snd (on_db f t)) = ps_disk t \<and> psControl (snd (on_db f t)) = psControl t" for f :: "sqlite \<Rightarrow> 'a \<times> sqlite" and t
    using on_db_disk [of f t] by (cases "on_db f t") simp
  show ?thesis
    using s1 by (auto simp: storeReferrers_def put Let_def db split: sum.split intro!: grows_trans [OF s1(1) grows_disk])
qed

lemma index_subject_grows: "index_subject env name b d s = (hs, s') \<Longrightarrow> grows s s' \<and> psControl s' = psControl s"
proof -
  have "grows s (recordReferrer env name desc sd s) \<and> psControl (recordReferrer env name desc sd s) = psControl s" for desc sd
    using loadReferrers_grows [of env name sd s] storeReferrers_grows
    by (auto simp: recordReferrer_def split: prod.split intro!: grows_trans [OF _ conjunct1 [OF storeReferrers_grows]])
  then show "index_subject env name b d s = (hs, s') \<Longrightarrow> grows s s' \<and> psControl s' = psControl s"
    by (auto simp: index_subject_def split: option.splits if_splits)
qed

section \<open>Manifests\<close>

lemma writeAuthzError_status [simp]: "anStatus (writeAuthzError e) \<noteq> 201"
  by (cases e rule: writeAuthzError.cases) (simp_all add: writeError_def)

lemma find_tag_put: "find_tag (put_tag t ts) (tgRepoID t) (tgTag t) \<noteq> None
   \<and> tgDigest (the (find_tag (put_tag t ts) (tgRepoID t) (tgTag t))) = tgDigest t"
  by (induction ts) (auto simp: find_tag_def)

lemma PutTag_find:
  assumes "on_control (\<lambda>db. PutTag db i tag d) s = (Inr u, s')"
  shows "ps_disk s' = ps_disk s \<and> (\<exists>t. find_tag (t_tags (psControl s')) i tag = Some t \<and> tgDigest t = d)"
  using assms find_tag_put [of "\<lparr>tgRepoID = i, tgTag = tag, tgDigest = d, tgUpdatedAt = c_now (psControl s)\<rparr>" "t_tags (psControl s)"]
  by (auto simp: on_control_def PutTag_def exec_def sql_def split: option.splits)

text \<open>What a successful answer to a manifest says about the registry afterwards.\<close>

definition manifest_digest :: "reg_env \<Rightarrow> string \<Rightarrow> bytes \<Rightarrow> string" where
  "manifest_digest env ref b = digest_with env (if isDigestRef ref then ref else ''sha256:'') b"

lemma accept_manifest_ok:
  assumes "accept_manifest env repo name ref b d s = (resp, s')" and "anStatus resp = 201"
  shows "grows s s' \<and> (isDigestRef ref \<or> (\<exists>t. find_tag (t_tags (psControl s')) (rpID repo) ref = Some t \<and> tgDigest t = d))"
proof -
  define s1 where "s1 = recordHostedBlob env name d (int (length b)) s"
  have g1: "grows s s1" by (simp add: s1_def grows_disk)
  show ?thesis
  proof (cases "isDigestRef ref")
    case True
    then obtain hs where "index_subject env name b d s1 = (hs, s')"
      using assms(1) by (auto simp: accept_manifest_def s1_def Let_def split: prod.splits)
    then show ?thesis using index_subject_grows grows_trans [OF g1] True by blast
  next
    case False
    obtain q s2 where q: "on_control (\<lambda>db. PutTag db (rpID repo) ref d) s1 = (q, s2)" by fastforce
    then obtain u where u: "q = Inr u" using assms False
      by (cases q) (auto simp: accept_manifest_def s1_def [symmetric] Let_def writeError_def)
    define s3 where "s3 = recordHostedTag env name ref d s2"
    obtain hs where ix: "index_subject env name b d s3 = (hs, s')"
      using assms(1) False q u by (auto simp: accept_manifest_def s1_def [symmetric] s3_def Let_def split: prod.splits)
    have "grows s1 s3" using PutTag_find [OF q [unfolded u]] by (simp add: s3_def grows_disk)
    then have "grows s s'" using g1 index_subject_grows [OF ix] grows_trans by blast
    moreover have "psControl s' = psControl s2" using index_subject_grows [OF ix] by (simp add: s3_def)
    ultimately show ?thesis using PutTag_find [OF q [unfolded u]] by simp
  qed
qed


section \<open>Chunks\<close>

text \<open>Chunks are taken in order: an authorized chunk whose range starts anywhere but at the end of
  what the session holds is refused with 416, the answer carries the offset to resume from, and
  nothing is appended: the state is the one that looking up the session left, both for a chunk of
  a running upload and for the last one.\<close>

theorem chunk_out_of_order_refused:
  assumes "authorize env req name actionPush s = (Inr repo, s1)" and "soGet (reOps env) uuid s1 = (Inr sess, s2)"
    and "usRepo sess = name" and "parseContentRange (hrContentRange req) = Some (start, end')" and "start \<noteq> usOffset sess"
    and "hrDigest req \<noteq> []" and "dg_valid (re_dg env) (hrDigest req)"
  shows "\<exists>resp. patchUpload env req name uuid s = (resp, s2) \<and> completeUpload env req name uuid s = (resp, s2)
     \<and> anStatus resp = 416 \<and> (''Range'', ''0-'' @ itoa (range_end (usOffset sess))) \<in> set (anHeaders resp)"
proof -
  have "parseContentRange [] = None" by code_simp
  then have "hrContentRange req \<noteq> []" using assms(4) by auto
  then show ?thesis
    using assms
    by (simp add: patchUpload_def completeUpload_def session_for_def checkChunkContiguous_def with_headers_def writeUploadRange_def writeError_def)
qed

text \<open>The final request of an upload checks the syntax of its digest before it looks at the session:
  with a malformed digest it deletes the named session, whichever repository that belongs to, so
  anyone allowed to push somewhere can discard another tenant's upload by its identifier.\<close>

theorem malformed_digest_discards_foreign_upload:
  assumes "authorize env req name actionPush s = (Inr repo, s1)" and "hrDigest req \<noteq> []" and "\<not> dg_valid (re_dg env) (hrDigest req)"
    and "reOps env = memory_ops penv" and "psMem s1 uuid = Some u" and "usRepo u \<noteq> name"
  shows "\<exists>s'. completeUpload env req name uuid s = (writeError 400 ''DIGEST_INVALID'' (reDigestErr env (hrDigest req)), s')
     \<and> psMem s' uuid = None \<and> psFiles s' (usPath u) = None"
  using assms by (simp add: completeUpload_def abandon_upload_def memory_ops_def mem_Delete_def)

section \<open>Deletion\<close>

lemma deleted_blob_gone:
  assumes "disk_healthy (ps_disk s)" and "on_disk (\<lambda>d. blob_Delete d k) s = (r, s')"
  shows "chunk_at s k \<noteq> None \<Longrightarrow> r = Inr ()" and "chunk_at s' k = None" and "disk_healthy (ps_disk s')" and "ps_db s' = ps_db s"
proof -
  have r: "r = fst (blob_Delete (ps_disk s) k)" and d: "ps_disk s' = snd (blob_Delete (ps_disk s) k)"
    using assms(2) by (auto simp: on_disk_def split: prod.splits)
  show "ps_db s' = ps_db s" using on_disk_db [OF assms(2)] by blast
  show "disk_healthy (ps_disk s')" using assms(1) by (simp add: disk_healthy_def d)
  have path: "blobPath (ps_disk s') k = blobPath (ps_disk s) k" by (simp add: blobPath_def d split: sum.splits)
  show "chunk_at s' k = None" and "chunk_at s k \<noteq> None \<Longrightarrow> r = Inr ()"
    using assms(1) by (auto simp: chunk_at_def path r)
      (auto simp: d blob_Delete_def disk_try_def disk_io_def disk_healthy_def no_faults_def remove_blob_def split: sum.splits)
qed

text \<open>Deleting a blob or a manifest of one repository takes it away from every other one. The
  bytes are stored once for all tenants and are removed without looking for other entries, so a
  hosted entry of another repository keeps pointing at them and looking it up misses, although
  both deletions are arranged so that no reader finds a pointer to bytes that are gone.\<close>

theorem deleting_a_blob_breaks_other_repositories:
  assumes "authorize env req name actionDelete s = (Inr repo, s1)" and "reBlobs env" and "dg_valid (re_dg env) digest"
    and "disk_healthy (ps_disk s1)" and "db_fault (ps_db s1) = no_faults" and "chunk_at s1 digest \<noteq> None"
    and "other \<noteq> name" and "find_row (cache_entries (ps_db s1)) (ref_key (hosted_ref other digest)) = Some row" and "r_digest row = digest"
  shows "\<exists>s'. deleteBlob env req name digest s = (accepted, s')
     \<and> find_row (cache_entries (ps_db s')) (ref_key (hosted_ref other digest)) = Some row
     \<and> fst (Lookup (psCache s') (hosted_ref other digest)) = Inr None"
proof -
  obtain q s2 where q: "on_disk (\<lambda>d. blob_Exists d digest) s1 = (q, s2)" by fastforce
  have same: "same_stores s1 s2" by (rule on_disk_same [OF _ q]) simp
  obtain p where p: "blobPath (ps_disk s1) digest = Inr p" "blob_files (ps_disk s1) p \<noteq> None"
    using assms(6) by (auto simp: chunk_at_def split: sum.splits)
  then have q1: "q = Inr True" using q blob_Exists_healthy [OF assms(4) p(1)] by (auto simp: on_disk_def split: prod.splits)
  define s3 where "s3 = removeHostedBlob env name digest s2"
  have s3: "ps_disk s3 = ps_disk s2" "db_fault (ps_db s3) = no_faults"
    "find_row (cache_entries (ps_db s3)) (ref_key (hosted_ref other digest)) = Some row"
    using assms(5,7,8) same
    by (auto simp: s3_def removeHostedBlob_def on_db_def Delete_def db_io_def same_stores_def find_row_del_row ref_key_def hosted_ref_def)
  have h3: "disk_healthy (ps_disk s3)" using assms(4) same s3(1) by (simp add: disk_healthy_def same_stores_def)
  have c3: "chunk_at s3 digest \<noteq> None"
    using assms(6) same_stores_frame(2) [OF same] chunk_at_cong [OF s3(1)] by simp
  obtain r s4 where r: "on_disk (\<lambda>d. blob_Delete d digest) s3 = (r, s4)" by fastforce
  note gone = deleted_blob_gone [OF h3 r]
  have out: "deleteBlob env req name digest s = (accepted, s4)"
    using assms(1-3) q q1 r gone(1) c3 by (simp add: deleteBlob_def s3_def [symmetric])
  have p4: "blobPath (ps_disk s4) digest = Inr p"
    using p(1) same s3(1) r blob_Delete_pair by (fastforce simp: on_disk_def blobPath_def same_stores_def split: sum.splits prod.splits)
  then have "fst (blob_Exists (ps_disk s4) digest) = Inr False"
    using blob_Exists_healthy [OF gone(3) p4] gone(2) by (simp add: chunk_at_def)
  then have "fst (Lookup (psCache s4) (hosted_ref other digest)) = Inr None"
    using s3 gone(4) assms(9)
    by (auto simp: Lookup_def hosted_ref_def lookupImmutable_def with_db_def with_disk_def Get_def db_io_def no_faults_def
        row_CacheEntry_def split: prod.split)
  then show ?thesis using out s3(3) gone(4) by auto
qed

section \<open>Listing tags\<close>

lemma sorted_filter_id: "sorted (xs :: string list) \<Longrightarrow> sorted (filter P xs)"
  using sorted_filter [of id xs P] by simp

lemma dropWhile_less_sorted: "sorted (xs :: string list) \<Longrightarrow> dropWhile (\<lambda>t. t < a) xs = filter (\<lambda>t. a \<le> t) xs"
  by (induction xs) (auto simp: not_less intro!: filter_True [symmetric])

lemma after_tag_filter:
  assumes "sorted tags" and "distinct tags" and "[] \<notin> set tags"
  shows "after_tag a tags = filter (\<lambda>t. a < t) tags"
proof (cases "a = []")
  case True
  have "[] < t" if "t \<in> set tags" for t using that assms(3) by (metis Nil_less_Cons neq_Nil_conv)
  then show ?thesis using True by (simp add: after_tag_def)
next
  case False
  define rest where "rest = filter (\<lambda>t. a \<le> t) tags"
  have rest: "dropWhile (\<lambda>t. t < a) tags = rest" using dropWhile_less_sorted [OF assms(1)] by (simp add: rest_def)
  have eq: "filter (\<lambda>t. a < t) tags = filter (\<lambda>t. t \<noteq> a) rest"
    unfolding rest_def filter_filter by (rule filter_cong) auto
  have sd: "sorted rest" "distinct rest" "\<forall>t \<in> set rest. a \<le> t" using assms by (auto simp: rest_def sorted_filter_id)
  have "filter (\<lambda>t. t \<noteq> a) rest = (if rest \<noteq> [] \<and> hd rest = a then tl rest else rest)"
    using sd by (cases rest) (auto intro!: filter_True)
  then show ?thesis using False rest eq by (simp add: after_tag_def Let_def)
qed

text \<open>Listing tags page by page loses nothing and repeats nothing. On the sorted names of a
  repository, each page holds exactly the next names after the marker, in order and at most as
  many as asked for; when it is marked as truncated and not empty, what comes after its last name
  (the marker of the next page's link) is exactly what it left out, and otherwise an untruncated
  page is the whole remainder.\<close>

theorem tag_pages_are_complete:
  assumes "sorted tags" and "distinct tags" and "[] \<notin> set tags" and "paginateTags tags n marker = Inr (page, truncated)"
  shows "filter (\<lambda>t. marker < t) tags = page @ (if truncated then filter (\<lambda>t. (if page = [] then marker else last page) < t) tags else [])
     \<and> (\<forall>k. ParseInt n = Some k \<longrightarrow> int (length page) \<le> k)"
proof -
  define rest where "rest = filter (\<lambda>t. marker < t) tags"
  have at: "after_tag marker tags = rest" unfolding rest_def by (rule after_tag_filter [OF assms(1-3)])
  define k where "k = (if n = [] then defaultTagPageSize else the (ParseInt n))"
  have k: "page = (if k < int (length rest) then take (nat k) rest else rest)" "truncated \<longleftrightarrow> k < int (length rest)" "0 \<le> k"
    "n \<noteq> [] \<Longrightarrow> ParseInt n = Some k"
    using assms(4) unfolding paginateTags_def at Let_def
    by (auto simp: k_def defaultTagPageSize_def split: if_splits option.splits)
  have "ParseInt [] = None" by code_simp
  then have "n \<noteq> []" if "ParseInt n = Some j" for j using that by auto
  with k have "\<forall>j. ParseInt n = Some j \<longrightarrow> int (length page) \<le> j" by fastforce
  moreover have "rest = page @ filter (\<lambda>t. last page < t) tags" if "truncated" "page \<noteq> []"
  proof -
    have split: "rest = page @ drop (nat k) rest" "page = take (nat k) rest" using k that by auto
    have "sorted rest" "distinct rest" using assms by (auto simp: rest_def sorted_filter_id)
    then have sw: "sorted (page @ drop (nat k) rest)" "distinct (page @ drop (nat k) rest)" using split(1) by simp_all
    have lt: "last page < t" if "t \<in> set (drop (nat k) rest)" for t
      using sw that \<open>page \<noteq> []\<close> by (metis Int_iff distinct_append empty_iff last_in_set less_le sorted_append)
    have ge: "t \<le> last page" if "t \<in> set page" for t
    proof -
      have "sorted (butlast page @ [last page])" using sw(1) \<open>page \<noteq> []\<close> by (simp add: sorted_append)
      then show ?thesis using that \<open>page \<noteq> []\<close>
        by (metis append_butlast_last_id in_set_conv_nth length_append_singleton less_Suc_eq_le nth_append_length order_refl sorted_nth_mono lessI)
    qed
    have "last page \<in> set rest" using \<open>page \<noteq> []\<close> split(2) by (metis in_set_takeD last_in_set)
    then have "marker < last page" by (simp add: rest_def)
    then have "filter (\<lambda>t. last page < t) tags = filter (\<lambda>t. last page < t) rest"
      unfolding rest_def filter_filter by (intro filter_cong) auto
    also have "\<dots> = drop (nat k) rest" using lt ge by (subst split(1)) (simp add: filter_empty_conv leD)
    finally show ?thesis using split(1) by simp
  qed
  ultimately show ?thesis using k by (auto simp: rest_def)
qed

section \<open>Concrete requests\<close>

definition reg_claims :: AccessClaims where
  "reg_claims = \<lparr>clSubject = ''user:2'', clAccess = [\<lparr>acType = ''repository'', acName = ''acme/app'', acActions = [''push'', ''delete'']\<rparr>]\<rparr>"

definition reg_demo_req :: reg_request where
  "reg_demo_req = \<lparr>hrMethod = [], hrPath = [], hrClaims = Some reg_claims, hrDigest = [], hrContentRange = [], hrBody = ([], None),
     hrN = [], hrLast = [], hrArtifactType = []\<rparr>"

definition reg_demo_env :: "sess_ops \<Rightarrow> reg_env" where
  "reg_demo_env ops = \<lparr>rePush = push_demo_env, reOps = ops, reBlobs = True, reMeta = True, reOthers = id, reDigestErr = (\<lambda>_. []),
     reRefs = (\<lambda>_. Some \<lparr>mrConfig = None, mrLayers = [chunk_key push_demo_env ''layer''], mrManifests = [], mrSubject = None\<rparr>),
     reManifestMeta = (\<lambda>_. None), reIndexMarshal = (\<lambda>_. []), reIndexUnmarshal = (\<lambda>_. None), reRead = None\<rparr>"

definition acme_control :: control where
  "acme_control = acme_db ''owner'' [acme_app] no_faults"

lemma acme_authorize:
  assumes "hrClaims req = Some reg_claims" and "reOthers env = id" and "psControl s = acme_control" and "action \<in> {''push'', ''delete''}"
  shows "\<exists>db. authorize env req ''acme/app'' action s = (Inr acme_app, s\<lparr>psControl := db\<rparr>)"
proof -
  have "fst (authz_Authorize (acme_db ''owner'' [acme_app] no_faults) (Some reg_claims) ''acme/app'' ''push'' id) = Inr acme_app"
    "fst (authz_Authorize (acme_db ''owner'' [acme_app] no_faults) (Some reg_claims) ''acme/app'' ''delete'' id) = Inr acme_app"
    unfolding reg_claims_def acme_db_def acme_def acme_app_def by code_simp+
  then have "fst (authz_Authorize acme_control (Some reg_claims) ''acme/app'' action id) = Inr acme_app"
    using assms(4) by (auto simp: acme_control_def)
  then show ?thesis using assms by (auto simp: authorize_def split: prod.splits)
qed

definition stocked :: push_state where
  "stocked = staged_state\<lparr>psControl := acme_control\<rparr>"

lemma stocked_stores: "ps_disk stocked = ps_disk staged_state" "ps_db stocked = ps_db staged_state" "psControl stocked = acme_control"
  by (simp_all add: stocked_def)


text \<open>A session of the process that has received five bytes.\<close>

definition uploading :: push_state where
  "uploading = push_demo_state\<lparr>psControl := acme_control, psIds := 1, psFiles := [put_nat 0 \<mapsto> ''layer''],
     psMem := [''u0'' \<mapsto> \<lparr>usID = ''u0'', usRepo = ''acme/app'', usPath = put_nat 0, usOffset = 5, usStartedAt = 0\<rparr>]\<rparr>"

theorem chunk_out_of_order_refused_witness:
  "\<exists>resp s'. patchUpload (reg_demo_env (memory_ops push_demo_env)) (reg_demo_req\<lparr>hrContentRange := ''9-12'', hrDigest := ''sha256:00''\<rparr>)
       ''acme/app'' ''u0'' uploading = (resp, s') \<and> anStatus resp = 416 \<and> (''Range'', ''0-4'') \<in> set (anHeaders resp)"
proof -
  let ?env = "reg_demo_env (memory_ops push_demo_env)" and ?req = "reg_demo_req\<lparr>hrContentRange := ''9-12'', hrDigest := ''sha256:00''\<rparr>"
  obtain db where a: "authorize ?env ?req ''acme/app'' actionPush uploading = (Inr acme_app, uploading\<lparr>psControl := db\<rparr>)"
    using acme_authorize [of ?req ?env uploading "''push''"] by (auto simp: reg_demo_req_def reg_demo_env_def uploading_def actionPush_def)
  have r: "parseContentRange ''9-12'' = Some (9, 12)" and e: "''0-'' @ itoa (range_end 5) = ''0-4''" by code_simp+
  obtain u where u: "soGet (reOps ?env) ''u0'' (uploading\<lparr>psControl := db\<rparr>) = (Inr u, uploading\<lparr>psControl := db\<rparr>)"
    "usRepo u = ''acme/app''" "usOffset u = 5"
    by (simp add: reg_demo_env_def memory_ops_def mem_Get_def uploading_def)
  from chunk_out_of_order_refused [OF a u(1,2), of 9 12] r e u(3) show ?thesis
    by (simp add: reg_demo_env_def push_demo_env_def) blast
qed

theorem malformed_digest_discards_foreign_upload_witness:
  "\<exists>resp s'. completeUpload ((reg_demo_env (memory_ops push_demo_env))\<lparr>rePush := push_demo_env\<lparr>peDigest := \<lparr>dg_valid = (\<lambda>_. False), dg_hex = (\<lambda>_ c. c)\<rparr>\<rparr>\<rparr>)
       (reg_demo_req\<lparr>hrDigest := ''bad''\<rparr>) ''acme/app'' ''u0''
       (uploading\<lparr>psMem := [''u0'' \<mapsto> \<lparr>usID = ''u0'', usRepo = ''beta/app'', usPath = put_nat 0, usOffset = 5, usStartedAt = 0\<rparr>]\<rparr>) = (resp, s')
     \<and> psMem s' ''u0'' = None"
proof -
  let ?env = "(reg_demo_env (memory_ops push_demo_env))\<lparr>rePush := push_demo_env\<lparr>peDigest := \<lparr>dg_valid = (\<lambda>_. False), dg_hex = (\<lambda>_ c. c)\<rparr>\<rparr>\<rparr>"
  let ?s = "uploading\<lparr>psMem := [''u0'' \<mapsto> \<lparr>usID = ''u0'', usRepo = ''beta/app'', usPath = put_nat 0, usOffset = 5, usStartedAt = 0\<rparr>]\<rparr>"
  let ?req = "reg_demo_req\<lparr>hrDigest := ''bad''\<rparr>"
  obtain db where a: "authorize ?env ?req ''acme/app'' actionPush ?s = (Inr acme_app, ?s\<lparr>psControl := db\<rparr>)"
    using acme_authorize [of ?req ?env ?s "''push''"] by (auto simp: reg_demo_req_def reg_demo_env_def uploading_def actionPush_def)
  show ?thesis
    using malformed_digest_discards_foreign_upload [OF a, of push_demo_env "''u0''"] by (auto simp: reg_demo_env_def)
qed

text \<open>Two repositories host the same layer.\<close>

definition hosted_twice :: push_state where
  "hosted_twice = stocked\<lparr>psCache := (psCache stocked)\<lparr>c_db := (ps_db stocked)\<lparr>cache_entries :=
     [entry_row 5 (layer_entry\<lparr>ceRef := hosted_ref ''beta/app'' (chunk_key push_demo_env ''layer'')\<rparr>)]\<rparr>\<rparr>\<rparr>"

theorem deleting_a_blob_breaks_other_repositories_witness:
  "\<exists>s'. deleteBlob (reg_demo_env (memory_ops push_demo_env)) reg_demo_req ''acme/app'' (chunk_key push_demo_env ''layer'') hosted_twice = (accepted, s')
     \<and> fst (Lookup (psCache s') (hosted_ref ''beta/app'' (chunk_key push_demo_env ''layer''))) = Inr None"
proof -
  let ?env = "reg_demo_env (memory_ops push_demo_env)" and ?k = "chunk_key push_demo_env ''layer''"
  obtain db where a: "authorize ?env reg_demo_req ''acme/app'' actionDelete hosted_twice = (Inr acme_app, hosted_twice\<lparr>psControl := db\<rparr>)"
    using acme_authorize [of reg_demo_req ?env hosted_twice "''delete''"]
    by (auto simp: reg_demo_req_def reg_demo_env_def hosted_twice_def stocked_def actionDelete_def)
  have disk: "ps_disk hosted_twice = ps_disk staged_state" by (simp add: hosted_twice_def stocked_def)
  have at: "chunk_at hosted_twice ?k = Some ''layer''" using layer_path_eq by (simp add: chunk_at_def disk) (simp add: staged_state_def)
  let ?row = "entry_row 5 (layer_entry\<lparr>ceRef := hosted_ref ''beta/app'' ?k\<rparr>)" and ?s = "hosted_twice\<lparr>psControl := db\<rparr>"
  have env: "reBlobs ?env" "dg_valid (re_dg ?env) ?k" by (simp_all add: reg_demo_env_def push_demo_env_def)
  have st: "disk_healthy (ps_disk ?s)" "db_fault (ps_db ?s) = no_faults"
    by (simp_all add: disk_healthy_def hosted_twice_def stocked_def staged_state_def push_demo_state_def)
  have at: "chunk_at ?s ?k \<noteq> None" using at by simp
  have row: "find_row (cache_entries (ps_db ?s)) (ref_key (hosted_ref ''beta/app'' ?k)) = Some ?row" "r_digest ?row = ?k"
    by (simp_all add: hosted_twice_def find_row_def row_key_def ref_key_def entry_row_def layer_entry_def hosted_ref_def hostedOCIProtocol_def)
  from deleting_a_blob_breaks_other_repositories [OF a env st at _ row] show ?thesis by auto
qed

theorem tag_pages_are_complete_witness:
  "paginateTags [''a'', ''b'', ''c''] ''2'' [] = Inr ([''a'', ''b''], True)
     \<and> filter (\<lambda>t. [] < t) [''a'', ''b'', ''c''] = [''a'', ''b''] @ filter (\<lambda>t. ''b'' < t) [''a'', ''b'', ''c'']"
proof -
  have p: "paginateTags [''a'', ''b'', ''c''] ''2'' [] = Inr ([''a'', ''b''], True)" and s: "sorted [''a'', ''b'', ''c'']" by code_simp+
  from tag_pages_are_complete [OF s _ _ p] p show ?thesis by simp
qed

end
