(* ===== verification/PushPull.thy ===== *)
theory PushPull
  imports PushProps
begin

text \<open>
  From a push to a pull: completing an upload stores the received bytes under the declared digest,
  records the hosted entry, closes the session, and the cache then serves those bytes. Proved once
  for every session store with the contract \<^verbatim>\<open>push_sessions\<close>, which extends the one of \<^verbatim>\<open>Sessions\<close>
  by what the rest of the registry does to the shared stores; both session stores keep it.
\<close>

section \<open>The contract\<close>

definition with_rows :: "row list \<Rightarrow> nat \<Rightarrow> push_state \<Rightarrow> push_state" where
  "with_rows rows n s = s\<lparr>psCache := (psCache s)\<lparr>c_db := (ps_db s)\<lparr>cache_entries := rows, db_tick := n\<rparr>\<rparr>\<rparr>"

locale push_sessions = upload_sessions ops ok view clash
  for ops :: sess_ops and ok :: "push_state \<Rightarrow> bool" and view :: "push_state \<Rightarrow> string \<Rightarrow> (string \<times> bytes) option"
    and clash :: "push_state \<Rightarrow> string \<Rightarrow> string \<Rightarrow> bool" +
  fixes env :: push_env
  assumes stores: "ok s \<Longrightarrow> stores_ok env s"
    and control: "ok s \<Longrightarrow> ok (s\<lparr>psControl := db\<rparr>) \<and> view (s\<lparr>psControl := db\<rparr>) = view s"
    and rows: "ok s \<Longrightarrow> ok (with_rows rs n s) \<and> view (with_rows rs n s) = view s"
    and put: "ok s \<Longrightarrow> on_disk (\<lambda>d. blob_Put (peDigest env) d (chunk_key env b) b (int (length b))) s = (q, s') \<Longrightarrow>
      ok s' \<and> view s' = view s"
    and complete: "ok s \<Longrightarrow> soComplete ops i (chunk_key env b) s = (e, s') \<Longrightarrow>
      stores_ok env s' \<and> keeps s s' \<and> fst (soGet ops i s') = Inl SessionNotFound
      \<and> chunk_at s' (chunk_key env b) = chunk_at s (chunk_key env b)"

lemma digest_with_key:
  assumes "documented_libs (rePush env)"
  shows "digest_with env (chunk_key (rePush env) b) c = chunk_key (rePush env) c"
proof -
  have "algorithm (chunk_key (rePush env) b) = ''sha256''" by (simp add: algorithm_def chunk_key_def)
  then show ?thesis using assms by (simp add: digest_with_def documented_libs_def) (simp add: chunk_key_def)
qed

lemma recordHostedBlob_ok:
  assumes "db_healthy (ps_db s)" and "reMeta env"
  shows "\<exists>rs r. recordHostedBlob env name d n s = with_rows rs (Suc (db_tick (ps_db s))) s
     \<and> find_row rs (ref_key (hosted_ref name d)) = Some r \<and> r_digest r = d"
proof -
  define e where "e = \<lparr>ceRef = hosted_ref name d, ceDigest = d, ceSize = n, ceProtocol = hostedOCIProtocol, ceTier = TierChecksum,
    ceUpstream = [], ceETag = [], ceVerifiedAt = db_now (ps_db s), ceCreatedAt = db_now (ps_db s), ceOrigin = OriginHosted, ceSoftExpired = False\<rparr>"
  define r where "r = entry_row (db_now (ps_db s)) e"
  have k: "row_key r = ref_key (hosted_ref name d)" "r_digest r = d"
    by (simp_all add: r_def e_def row_key_def ref_key_def entry_row_def hosted_ref_def hostedOCIProtocol_def)
  have "recordHostedBlob env name d n s = with_rows (put_row r (cache_entries (ps_db s))) (Suc (db_tick (ps_db s))) s"
    using assms
    by (simp add: recordHostedBlob_def on_db_def Put_def db_io_def db_healthy_def no_faults_def Let_def e_def [symmetric] r_def [symmetric]
        with_rows_def)
  moreover have "\<exists>x. find_row (put_row r (cache_entries (ps_db s))) (row_key r) = Some x \<and> r_digest x = d"
    using k(2) by (auto simp: find_row_put_row merge_row_def split: option.splits)
  ultimately show ?thesis using k(1) by auto
qed

lemma hosted_pull:
  assumes "stores_ok env s" and "find_row (cache_entries (ps_db s)) (ref_key (hosted_ref name d)) = Some r" and "r_digest r = d"
    and "chunk_at s d = Some c" and "d \<noteq> []"
  shows "\<exists>e t. Serve (psCache s) (hosted_ref name d) off len = (Inr (range_read c off len, Some e), t)"
proof -
  have h: "db_healthy (ps_db s)" "disk_healthy (ps_disk s)" using assms(1) by (auto simp: stores_ok_def)
  have present: "blob_present (ps_disk s) d c" using assms(4) by (auto simp: blob_present_def chunk_at_def split: sum.splits)
  let ?ref = "hosted_ref name d" and ?e = "row_CacheEntry r"
  obtain t where t: "Lookup (psCache s) ?ref = (Inr (Some ?e), t)" "disk_healthy (c_disk t)"
    using lookupImmutable_healthy [OF h assms(2), of c] present assms(3) by (auto simp: Lookup_def hosted_ref_def)
  have "blob_present (c_disk t) d c"
    using same_data_Lookup [of "psCache s" ?ref] t(1) present by (simp add: same_data_def blob_present_cong [of "c_disk t" "ps_disk s"])
  moreover have "ceDigest ?e = d" by (simp add: row_CacheEntry_def assms(3))
  ultimately obtain u where "ServeEntry t (Some ?e) off len = (Inr (range_read c off len), u)"
    using ServeEntry_healthy [OF t(2), of ?e c] assms(5) by auto
  then show ?thesis using t by (simp add: Serve_def)
qed

context push_sessions
begin

lemma promote_pulls:
  assumes "reOps renv = ops" "rePush renv = env" "reBlobs renv" "reMeta renv"
    and "ok s" and "view s i = Some (name, c)"
  shows "\<exists>s' e t hs. promote_upload renv name i (chunk_key env c) (int (length c)) s = (reply 201 hs, s')
     \<and> (''Docker-Content-Digest'', chunk_key env c) \<in> set hs \<and> fst (soGet ops i s') = Inl SessionNotFound
     \<and> Serve (psCache s') (hosted_ref name (chunk_key env c)) off len = (Inr (range_read c off len, Some e), t)"
proof -
  let ?k = "chunk_key env c"
  obtain q s1 where q: "soRead ops i s = (q, s1)" by fastforce
  note r1 = read [OF assms(5,6) q]
  then have ok1: "ok s1" by blast
  obtain s2 where p: "on_disk (\<lambda>d. blob_Put (peDigest env) d ?k c (int (length c))) s1 = (Inr (), s2)" "chunk_at s2 ?k = Some c"
    using put_blob_ok [OF stores [OF ok1], of c] by blast
  have ok2: "ok s2" using put [OF ok1 p(1)] by blast
  then have "db_healthy (ps_db s2)" using stores by (auto simp: stores_ok_def)
  from recordHostedBlob_ok [OF this assms(4), of name ?k "int (length c)"] obtain rs r where
    rec: "recordHostedBlob renv name ?k (int (length c)) s2 = with_rows rs (Suc (db_tick (ps_db s2))) s2"
    and row: "find_row rs (ref_key (hosted_ref name ?k)) = Some r" "r_digest r = ?k" by blast
  define s3 where "s3 = with_rows rs (Suc (db_tick (ps_db s2))) s2"
  have ok3: "ok s3" using rows [OF ok2] by (simp add: s3_def)
  have s3: "cache_entries (ps_db s3) = rs" "chunk_at s3 = chunk_at s2"
    by (auto simp: s3_def with_rows_def intro: chunk_at_cong)
  obtain e s4 where done': "soComplete ops i ?k s3 = (e, s4)" by fastforce
  note c4 = complete [OF ok3 done']
  have pull: "\<exists>e t. Serve (psCache s4) (hosted_ref name ?k) off len = (Inr (range_read c off len, Some e), t)"
    by (rule hosted_pull [of env _ _ _ r]) (use c4 row s3 p(2) in \<open>auto simp: keeps_def chunk_key_def\<close>)
  have "promote_upload renv name i ?k (int (length c)) s =
      (reply 201 [(''Location'', ''/v2/'' @ name @ ''/blobs/'' @ ?k), (''Content-Length'', ''0''), (''Docker-Content-Digest'', ?k), api_header], s4)"
    using q r1 p(1) rec done' assms(1-3) by (simp add: promote_upload_def put_stream_def s3_def [symmetric] Let_def)
  with pull c4 show ?thesis by fastforce
qed

text \<open>The last request of an upload, with the rest of the bytes and the digest of all of them.\<close>

lemma completed_upload_pulls:
  assumes "reOps renv = ops" "rePush renv = env" "reBlobs renv" "reMeta renv"
    and "ok s" and "view s i = Some (name, c)" and "authorize renv req name actionPush s = (Inr repo, s1)"
    and "hrBody req = (b, None)" and "hrDigest req = chunk_key env (c @ b)"
    and "hrContentRange req = [] \<or> (\<exists>e. parseContentRange (hrContentRange req) = Some (int (length c), e))"
  shows "\<exists>s' e t hs. completeUpload renv req name i s = (reply 201 hs, s')
     \<and> (''Docker-Content-Digest'', chunk_key env (c @ b)) \<in> set hs \<and> fst (soGet ops i s') = Inl SessionNotFound
     \<and> Serve (psCache s') (hosted_ref name (chunk_key env (c @ b))) off len = (Inr (range_read (c @ b) off len, Some e), t)"
proof -
  let ?k = "chunk_key env (c @ b)"
  have libs: "documented_libs env" using stores [OF assms(5)] by (simp add: stores_ok_def)
  obtain db where s1: "s1 = s\<lparr>psControl := db\<rparr>" using authorize_frame [OF assms(7)] by blast
  have ok1: "ok s1" "view s1 i = Some (name, c)" using control [OF assms(5)] assms(6) s1 by auto
  obtain q s2 where q: "soGet ops i s1 = (q, s2)" by fastforce
  from get [OF ok1(1) q] ok1(2) obtain u where u: "q = Inr u" "usRepo u = name" "usOffset u = int (length c)"
    and ok2: "ok s2" "view s2 i = Some (name, c)" by auto
  obtain n s3 where n: "soAppend ops i (b, None) s2 = (n, s3)" by fastforce
  from append [OF ok2 n] have n3: "n = Inr (int (length (c @ b)))" and ok3: "ok s3" "view s3 i = Some (name, c @ b)" by auto
  obtain q4 s4 where q4: "soGet ops i s3 = (q4, s4)" by fastforce
  from get [OF ok3(1) q4] ok3(2) obtain v where v: "q4 = Inr v" and ok4: "ok s4" "view s4 i = Some (name, c @ b)" by auto
  obtain q5 s5 where q5: "soRead ops i s4 = (q5, s5)" by fastforce
  from read [OF ok4 q5] ok4 have r5: "q5 = Inr (Inr (c @ b))" and ok5: "ok s5" "view s5 i = Some (name, c @ b)" by auto
  have dg: "digest_with renv ?k (c @ b) = ?k" using digest_with_key [of renv "c @ b" "c @ b"] libs assms(2) by simp
  have "?k \<noteq> []" "dg_valid (re_dg renv) ?k" using libs assms(2) by (auto simp: chunk_key_def documented_libs_def)
  moreover have "checkChunkContiguous req name i u = None" using assms(10) u(3) by (auto simp: checkChunkContiguous_def)
  ultimately have "completeUpload renv req name i s = promote_upload renv name i ?k (int (length (c @ b))) s5"
    using assms(1,7-9) q u n n3 q4 v q5 r5 dg by (simp add: completeUpload_def session_for_def finish_upload_def Let_def)
  with promote_pulls [OF assms(1-4) ok5] show ?thesis by simp
qed

end

section \<open>Both session stores keep it\<close>

lemma mem_frame:
  "psCache (snd (soCreate (memory_ops env) repo s)) = psCache s" "psCache (snd (soGet (memory_ops env) i s)) = psCache s"
  "psCache (snd (soAppend (memory_ops env) i b s)) = psCache s" "psCache (snd (soRead (memory_ops env) i s)) = psCache s"
  "psCache (snd (soDelete (memory_ops env) i s)) = psCache s" "psCache (snd (soComplete (memory_ops env) i k s)) = psCache s"
  by (auto simp: memory_ops_def mem_Create_def mem_Get_def mem_Append_def mem_Read_def mem_Delete_def os_io_def newUploadID_def Let_def
      split: option.splits prod.splits)

lemma stores_ok_cong: "psCache s' = psCache s \<Longrightarrow> stores_ok env s' \<longleftrightarrow> stores_ok env s"
  by (simp add: stores_ok_def chunk_at_cong [of s' s])

lemma mem_gone: "mem_view s i = None \<Longrightarrow> fst (soGet (memory_ops env) i s) = Inl SessionNotFound"
  by (simp add: memory_ops_def mem_Get_def mem_view_def)

lemma shared_gone: "stores_ok env s \<Longrightarrow> shared_view env s i = None \<Longrightarrow> fst (soGet (shared_ops env) i s) = Inl SessionNotFound"
  by (auto simp: stores_ok_def db_healthy_def shared_view_def shared_state_def shared_ops_def shared_Get_def shared_load_def
      on_db_def GetMutable_def db_io_def no_faults_def split: option.splits if_splits)

definition memory_ok :: "push_env \<Rightarrow> push_state \<Rightarrow> bool" where
  "memory_ok env s \<longleftrightarrow> mem_ok env s \<and> stores_ok env s"

lemma mem_cong:
  assumes "psMem s' = psMem s" and "psFiles s' = psFiles s" and "psIds s' = psIds s"
  shows "mem_ok env s' \<longleftrightarrow> mem_ok env s" and "mem_view s' = mem_view s"
  using assms by (simp_all add: mem_ok_def mem_view_def fun_eq_iff)

lemma stores_with_rows: "stores_ok env (with_rows rs n s) \<longleftrightarrow> stores_ok env s"
proof -
  have "chunk_at (with_rows rs n s) = chunk_at s" by (rule chunk_at_cong) (simp add: with_rows_def)
  then show ?thesis by (simp add: stores_ok_def) (simp add: with_rows_def db_healthy_def)
qed

interpretation mem_push: push_sessions "memory_ops env" "memory_ok env" mem_view "\<lambda>_ _ _. False" env for env
proof (unfold_locales, goal_cases)
  case (1 s repo r s')
  then show ?case
    using mem.create [OF _ 1(2)] mem_frame(1) [of env repo s] stores_ok_cong [of s' s env] by (auto simp: memory_ok_def)
next
  case (2 s i r s')
  then show ?case
    using mem.get [OF _ 2(2)] mem_frame(2) [of env i s] stores_ok_cong [of s' s env] by (auto simp: memory_ok_def)
next
  case (3 s i repo c b n s')
  then show ?case
    using mem.append [OF _ 3(2,3)] mem_frame(3) [of env i "(b, None)" s] stores_ok_cong [of s' s env]
    by (auto simp: memory_ok_def)
next
  case (4 s i repo c q s')
  then show ?case
    using mem.read [OF _ 4(2,3)] mem_frame(4) [of env i s] stores_ok_cong [of s' s env] by (auto simp: memory_ok_def)
next
  case (5 s i e s')
  then show ?case
    using mem.delete [OF _ _ 5(3)] mem_frame(5) [of env i s] stores_ok_cong [of s' s env] by (auto simp: memory_ok_def)
next
  case (7 s db)
  then show ?case
    using mem_cong(1) [of "s\<lparr>psControl := db\<rparr>" s env] mem_cong(2) [of "s\<lparr>psControl := db\<rparr>" s] stores_ok_cong [of "s\<lparr>psControl := db\<rparr>" s env] by (simp add: memory_ok_def)
next
  case (8 s rs n)
  then show ?case
    using mem_cong(1) [of "with_rows rs n s" s env] mem_cong(2) [of "with_rows rs n s" s] stores_with_rows by (simp add: memory_ok_def) (simp add: with_rows_def)
next
  case (9 s b q s')
  then obtain d where "stores_ok env s'" "s' = s\<lparr>psCache := (psCache s)\<lparr>c_disk := d\<rparr>\<rparr>"
    using put_blob_ok [of env s b] by (auto simp: memory_ok_def)
  then show ?case using mem_cong(1) [of s' s env] mem_cong(2) [of s' s] 9(1) by (simp add: memory_ok_def)
next
  case (10 s i b e s')
  then have del: "soDelete (memory_ops env) i s = (e, s')" by (simp add: memory_ops_def)
  then have "psCache s' = psCache s" using mem_frame(5) [of env i s] by simp
  then show ?case
    using 10(1) mem.delete [OF _ _ del] stores_ok_cong [of s' s env] chunk_at_cong [of s' s] by (auto simp: memory_ok_def mem_gone)
qed (simp add: memory_ok_def)

interpretation shared_push: push_sessions "shared_ops env" "shared_ok env" "shared_view env" "shared_clash env" env for env
proof (unfold_locales, goal_cases)
  case (1 s)
  then show ?case by (rule shared_stores)
next
  case (2 s db)
  have "chunk_at (s\<lparr>psControl := db\<rparr>) = chunk_at s" "shared_state env (s\<lparr>psControl := db\<rparr>) = shared_state env s"
    by (auto intro: chunk_at_cong shared_state_cong)
  with 2 show ?case by (simp add: shared_ok_def shared_view_def shared_content_def fun_eq_iff)
next
  case (3 s rs n)
  have "chunk_at (with_rows rs n s) = chunk_at s" by (rule chunk_at_cong) (simp add: with_rows_def)
  moreover have "shared_state env (with_rows rs n s) = shared_state env s"
    by (simp add: shared_state_def with_rows_def fun_eq_iff cong: option.case_cong)
  moreover have "ps_disk (with_rows rs n s) = ps_disk s" "db_healthy (ps_db (with_rows rs n s)) \<longleftrightarrow> db_healthy (ps_db s)"
    by (simp_all add: with_rows_def db_healthy_def)
  ultimately show ?case using 3 by (simp add: shared_ok_def shared_view_def shared_content_def fun_eq_iff)
next
  case (4 s b q s')
  then show ?case using put_chunk_ok [of env s b] shared_view_mono [of env s s'] by auto
next
  case (5 s i b e s')
  then show ?case using discard_frame [of env s i "chunk_key env b" e s'] by (auto simp: shared_ops_def intro: shared_gone [unfolded shared_ops_def, simplified])
qed

section \<open>Properties\<close>

text \<open>C35: What is pushed can be pulled. With either session store, on healthy stores and for an
  authorized caller: if the session of the request belongs to the repository and holds the bytes
  received so far, then the final request, with the rest of the bytes and the SHA-256 digest of
  all of them, is answered with 201 and that digest, the session is closed, and every range of the
  uploaded bytes is served by the cache under the repository and the digest.\<close>

theorem pushed_blob_is_pulled:
  assumes "ops = memory_ops env \<and> memory_ok env s \<and> mem_view s i = Some (name, c)
      \<or> ops = shared_ops env \<and> shared_ok env s \<and> shared_view env s i = Some (name, c)"
    and "reOps renv = ops" and "rePush renv = env" and "reBlobs renv" and "reMeta renv"
    and "authorize renv req name actionPush s = (Inr repo, s1)"
    and "hrBody req = (b, None)" and "hrDigest req = chunk_key env (c @ b)"
    and "hrContentRange req = [] \<or> (\<exists>e. parseContentRange (hrContentRange req) = Some (int (length c), e))"
  shows "\<exists>s' e t hs. completeUpload renv req name i s = (reply 201 hs, s')
     \<and> (''Docker-Content-Digest'', chunk_key env (c @ b)) \<in> set hs \<and> fst (soGet ops i s') = Inl SessionNotFound
     \<and> Serve (psCache s') (hosted_ref name (chunk_key env (c @ b))) off len = (Inr (range_read (c @ b) off len, Some e), t)"
  using assms(1)
proof
  assume m: "ops = memory_ops env \<and> memory_ok env s \<and> mem_view s i = Some (name, c)"
  then show ?thesis using mem_push.completed_upload_pulls [OF _ assms(3-5) _ _ assms(6-9)] assms(2) by blast
next
  assume m: "ops = shared_ops env \<and> shared_ok env s \<and> shared_view env s i = Some (name, c)"
  then show ?thesis using shared_push.completed_upload_pulls [OF _ assms(3-5) _ _ assms(6-9)] assms(2) by blast
qed

text \<open>The session that has staged one layer in the shared store receives one more byte and is completed.\<close>

theorem pushed_blob_is_pulled_witness:
  "\<exists>s' e t hs. completeUpload (reg_demo_env (shared_ops push_demo_env))
       (reg_demo_req\<lparr>hrBody := (''s'', None), hrDigest := chunk_key push_demo_env ''layers'', hrContentRange := ''5-5''\<rparr>)
       ''acme/app'' ''u0'' stocked = (reply 201 hs, s')
     \<and> Serve (psCache s') (hosted_ref ''acme/app'' (chunk_key push_demo_env ''layers'')) 0 (-1) = (Inr (''layers'', Some e), t)"
proof -
  let ?env = "reg_demo_env (shared_ops push_demo_env)"
  let ?req = "reg_demo_req\<lparr>hrBody := (''s'', None), hrDigest := chunk_key push_demo_env ''layers'', hrContentRange := ''5-5''\<rparr>"
  have ok: "shared_ok push_demo_env stocked" using shared_push.control [OF staged_ok] by (simp add: stocked_def)
  have st: "shared_state push_demo_env stocked ''u0'' = Some staged"
    using shared_state_cong [OF stocked_stores(2)] by (simp add: staged_shared_state)
  have "chunk_at stocked (chunk_key push_demo_env ''layer'') = Some ''layer''"
    using layer_path_eq by (simp add: chunk_at_def stocked_stores) (simp add: staged_state_def)
  then have view: "shared_view push_demo_env stocked ''u0'' = Some (''acme/app'', ''layer'')"
    using st by (simp add: shared_view_def shared_content_def staged_def)
  obtain db where a: "authorize ?env ?req ''acme/app'' actionPush stocked = (Inr acme_app, stocked\<lparr>psControl := db\<rparr>)"
    using acme_authorize [of ?req ?env stocked "''push''"]
    by (auto simp: reg_demo_req_def reg_demo_env_def stocked_def actionPush_def)
  have range: "parseContentRange ''5-5'' = Some (5, 5)" by code_simp
  have "range_read ''layers'' 0 (-1) = ''layers''" by (simp add: range_read_def)
  with pushed_blob_is_pulled [of "shared_ops push_demo_env" push_demo_env stocked "''u0''" "''acme/app''" "''layer''" ?env ?req acme_app
      "stocked\<lparr>psControl := db\<rparr>" "''s''" 0 "-1"] ok view a range
  show ?thesis by (auto simp: reg_demo_env_def)
qed

end
