(* ===== verification/Fill.thy ===== *)
theory Fill
  imports Store Resume
begin

text \<open>
  A cold fill: the body of a fetch is streamed into a quarantine file. The reader of \<^verbatim>\<open>Resume\<close> is
  unrolled into the list of events the copy loop of \<^verbatim>\<open>Quarantine\<close> consumes, together with the
  network after each of them; the copy may stop early, and then the network is left as the last
  read it made left it.
\<close>

section \<open>The events of a reader\<close>

definition nil_deref :: string where
  "nil_deref = ''coalesce: panic recovered: runtime error: invalid memory address or nil pointer dereference''"

fun read_event :: "bytes \<times> read_fail option \<Rightarrow> read_ev" where
  "read_event (d, None) = (d, None)"
| "read_event (d, Some RdEOF) = (d, Some EOF)"
| "read_event (d, Some RdRestart) = (d, Some ErrRestartFromBeginning)"
| "read_event (d, Some RdClosed) = (d, Some (ReadErr (eMsg ErrClosed)))"
| "read_event (d, Some (RdErr e)) = (d, Some (ReadErr (eMsg e)))"
| "read_event (d, Some RdPanic) = ([], Some (ReadErr nil_deref))"

text \<open>
  What is left to read: rounds of resuming, then pieces of the present body. An error that comes
  with data is reported again without data, so a piece with data weighs more.
\<close>

definition body_weight :: "resumingReader \<Rightarrow> nat" where
  "body_weight r =
     (case rrBody r of None \<Rightarrow> 0 | Some b \<Rightarrow> Suc (\<Sum>(d, e)\<leftarrow>b. if d = [] then 1 else 2)) + (if rrAnnounceRestart r then 1 else 0)"

definition reader_order :: "(resumingReader \<times> resumingReader) set" where
  "reader_order = measures [\<lambda>r. nat (rrMaxResumes r - rrResumes r), body_weight]"

lemma wf_reader_order: "wf reader_order"
  by (simp add: reader_order_def)

lemma trans_reader_order: "trans reader_order"
  by (auto simp: reader_order_def trans_def)

lemma resume_cases:
  assumes "resume env r w = ((res, r'), w')"
  shows "(r' = r \<and> (\<exists>e. res = NotResumed e)) \<or> nat (rrMaxResumes r' - rrResumes r') < nat (rrMaxResumes r - rrResumes r)"
proof (cases "\<exists>x. res = Resumed x")
  case True
  then show ?thesis using resume_decreases [of _ r' w' env r w] assms by auto
next
  case False
  then show ?thesis
    using assms by (auto simp: resume_def Let_def split: if_splits option.splits prod.splits resumed.splits)
qed

lemma read_body_weight:
  assumes "read_body b = ((d, err), b')" and "err = None \<or> d \<noteq> []"
  shows "(\<Sum>(d, e)\<leftarrow>b'. if d = [] then 1 else 2) < (\<Sum>(d, e)\<leftarrow>b. if d = [] then 1 else (2 :: nat))"
  using assms by (cases b rule: read_body.cases) (auto split: if_splits)

lemma reader_Read_progress:
  assumes "reader_Read env r w = (((d, err), r'), w')" and "err = None \<or> err = Some RdRestart"
  shows "(r', r) \<in> reader_order"
  using assms
proof (induction env r w arbitrary: d err r' w' rule: reader_Read.induct)
  case (1 env r w)
  show ?case
  proof (cases "rrClosed r \<or> rrAnnounceRestart r \<or> feCtx env (fwTick w) \<noteq> None \<or> rrBody r = None")
    case True
    then show ?thesis
      using 1(2,3) by (auto simp: reader_Read.simps [of env r w] reader_order_def body_weight_def split: if_splits option.splits)
  next
    case False
    then obtain b where open': "\<not> rrClosed r" "\<not> rrAnnounceRestart r" "feCtx env (fwTick w) = None" "rrBody r = Some b" by auto
    obtain x er b' where rb: "read_body b = ((x, er), b')" by (metis surj_pair)
    define r1 where "r1 = r\<lparr>rrBody := Some b', rrOffset := rrOffset r + int (length x)\<rparr>"
    define w1 where "w1 = w\<lparr>fwTick := Suc (fwTick w)\<rparr>"
    have less: "(r1, r) \<in> reader_order" if "er = None \<or> x \<noteq> []"
      using read_body_weight [OF rb that] open' by (simp add: reader_order_def body_weight_def r1_def)
    have rank: "rrMaxResumes r1 = rrMaxResumes r" "rrResumes r1 = rrResumes r" by (simp_all add: r1_def)
    consider (none) "er = None" "r' = r1"
      | (res) e network where "er = Some (BodyErr e network)" "feCtx env (fwTick w1) = None" "isResumableReadError e network"
      using 1(2,3) open' rb
      by (auto simp: reader_Read.simps [of env r w] Let_def r1_def w1_def split: option.splits body_err.splits if_splits)
    then show ?thesis
    proof cases
      case none
      then show ?thesis using less by simp
    next
      case (res e network)
      obtain q r2 w2 where q: "resume env r1 w1 = ((q, r2), w2)" by (metis surj_pair)
      have out: "x \<noteq> [] \<and> r' = r2 \<or> x = [] \<and> (\<exists>y. q = Resumed y) \<and> reader_Read env r2 w2 = (((d, err), r'), w')"
        using 1(2,3) open' rb res q
        by (auto simp: reader_Read.simps [of env r w] Let_def r1_def w1_def split: resumed.splits if_splits)
      have r2: "r2 = r1 \<or> (r2, r) \<in> reader_order"
        using resume_cases [OF q] rank by (auto simp: reader_order_def)
      from out show ?thesis
      proof (elim disjE conjE exE)
        assume "x \<noteq> []" "r' = r2"
        then show ?thesis using r2 less by auto
      next
        fix y assume rec: "x = []" "q = Resumed y" "reader_Read env r2 w2 = (((d, err), r'), w')"
        have "(r', r2) \<in> reader_order"
          using 1(1) open' rb res q rec 1(3) by (auto simp: r1_def w1_def)
        moreover have "(r2, r) \<in> reader_order"
          using resume_decreases [of y r2 w2 env r1 w1] q rec(2) rank by (auto simp: reader_order_def)
        ultimately show ?thesis using trans_reader_order by (meson transD)
      qed
    qed
  qed
qed

text \<open>Everything a reader has to say, to its end or its first error, with the network after each read.\<close>

function drain :: "'b fetch_env \<Rightarrow> resumingReader \<Rightarrow> 'b fetch_world \<Rightarrow> ((bytes \<times> read_fail option) \<times> 'b fetch_world) list" where
  "drain env r w =
     (case reader_Read env r w of
        ((ev, r'), w') \<Rightarrow>
          (ev, w') # (if snd ev = None \<or> snd ev = Some RdRestart then drain env r' w' else []))"
  by pat_completeness auto
termination
  by (relation "inv_image reader_order (\<lambda>(env, r, w). r)")
    (auto intro: wf_inv_image wf_reader_order dest: reader_Read_progress [OF sym])

declare drain.simps [simp del]

section \<open>Filling a quarantine file\<close>

text \<open>
  How many reads the copy loop makes, and whether the error of the last of them is what ended it:
  the branches are those of \<^const>\<open>copy_loop\<close>.
\<close>

fun copy_reads :: "quarantine_env \<Rightarrow> string \<Rightarrow> read_ev list \<Rightarrow> nat \<Rightarrow> tmpfs \<Rightarrow> nat \<times> bool" where
  "copy_reads env path [] i st = (i, False)"
| "copy_reads env path ((chunk, readErr) # rs) i st =
     (if qeCtx env i \<noteq> None then (i, False)
      else
        case (if chunk = [] then (None, st) else q_write path chunk st) of
          (Some e, st1) \<Rightarrow> (Suc i, False)
        | (None, st1) \<Rightarrow>
            (case readErr of
               None \<Rightarrow> copy_reads env path rs (Suc i) st1
             | Some ErrRestartFromBeginning \<Rightarrow>
                 (case resetQuarantine path st1 of
                    (Some e, st2) \<Rightarrow> (Suc i, False)
                  | (None, st2) \<Rightarrow> copy_reads env path rs (Suc i) st2)
             | Some EOF \<Rightarrow> (Suc i, False)
             | Some (ReadErr e) \<Rightarrow> (Suc i, True)))"

definition reads_made :: "(string + nat \<times> bool) \<times> tmpfs \<Rightarrow> nat \<times> bool" where
  "reads_made x = (case fst x of Inl _ \<Rightarrow> (0, False) | Inr k \<Rightarrow> k)"

definition temp_reads :: "quarantine_env \<Rightarrow> string \<Rightarrow> read_ev list \<Rightarrow> tmpfs \<Rightarrow> nat \<times> bool" where
  "temp_reads env dir rs st = reads_made (with_temp env dir st (\<lambda>path st. (Inr (copy_reads env path rs 0 st), st)))"

definition partial_reads :: "quarantine_env \<Rightarrow> string \<Rightarrow> read_ev list \<Rightarrow> tmpfs \<Rightarrow> nat \<times> bool" where
  "partial_reads env path rs st = reads_made (with_partial path st (\<lambda>_ st. (Inr (copy_reads env path rs 0 st), st)))"

definition net_after :: "'b fetch_world \<Rightarrow> ('a \<times> 'b fetch_world) list \<Rightarrow> nat \<Rightarrow> 'b fetch_world" where
  "net_after w evs k = (if k = 0 then w else snd (evs ! (k - 1)))"

text \<open>
  The error of a failed copy. An error of the reader is wrapped, so what can be asked of it (a
  status, say) can still be asked; a panic is not an error of the copy but of the flight.
\<close>

definition fill_err :: "string \<Rightarrow> ((bytes \<times> read_fail option) \<times> 'b fetch_world) list \<Rightarrow> nat \<times> bool \<Rightarrow> string \<Rightarrow> uerr" where
  "fill_err pre evs k msg =
     (if snd k
      then (case snd (fst (evs ! (fst k - 1))) of
              Some (RdErr e) \<Rightarrow> wrap (pre @ ''cache: quarantine write: '') e
            | Some RdPanic \<Rightarrow> plain nil_deref
            | _ \<Rightarrow> plain (pre @ msg))
      else plain (pre @ msg))"

definition read_events :: "((bytes \<times> read_fail option) \<times> 'b fetch_world) list \<Rightarrow> read_ev list" where
  "read_events evs = map (read_event \<circ> fst) evs"

text \<open>\<^verbatim>\<open>cache.Quarantine\<close> on the body of a fetch. A panic of the reader leaves the file behind.\<close>

definition fill_temp ::
  "quarantine_env \<Rightarrow> 'b fetch_env \<Rightarrow> string \<Rightarrow> string \<Rightarrow> resumingReader \<Rightarrow> UpstreamMeta \<Rightarrow> tmpfs \<Rightarrow> 'b fetch_world
   \<Rightarrow> (uerr + Artifact) \<times> tmpfs \<times> 'b fetch_world" where
  "fill_temp env fenv pre dir rd umeta st w =
     (let evs = drain fenv rd w; rs = read_events evs; k = temp_reads env dir rs st; w' = net_after w evs (fst k);
          panics = snd (fst (last evs)) = Some RdPanic
      in case (if panics then with_temp env dir st (\<lambda>path st. stream_into env True path rs [] umeta st)
               else Quarantine env dir rs umeta st) of
           (Inl msg, st') \<Rightarrow> (Inl (fill_err pre evs k msg), st', w')
         | (Inr art, st') \<Rightarrow> (Inr art, st', w'))"

definition fill_partial ::
  "quarantine_env \<Rightarrow> 'b fetch_env \<Rightarrow> string \<Rightarrow> string \<Rightarrow> resumingReader \<Rightarrow> UpstreamMeta \<Rightarrow> tmpfs \<Rightarrow> 'b fetch_world
   \<Rightarrow> (uerr + Artifact) \<times> tmpfs \<times> 'b fetch_world" where
  "fill_partial env fenv pre path rd umeta st w =
     (let evs = drain fenv rd w; rs = read_events evs; k = partial_reads env path rs st; w' = net_after w evs (fst k)
      in case QuarantineAt env path rs umeta st of
           (Inl msg, st') \<Rightarrow> (Inl (fill_err pre evs k msg), st', w')
         | (Inr art, st') \<Rightarrow> (Inr art, st', w'))"

section \<open>What a fill leaves\<close>

lemma drain_not_Nil [simp]: "drain env r w \<noteq> []"
  by (subst drain.simps) (simp split: prod.splits)

lemma read_event_simps [simp]:
  "snd (read_event ev) = None \<longleftrightarrow> snd ev = None"
  "snd (read_event ev) = Some ErrRestartFromBeginning \<longleftrightarrow> snd ev = Some RdRestart"
  "snd (read_event ev) = Some EOF \<longleftrightarrow> snd ev = Some RdEOF"
  by (cases ev rule: read_event.cases; simp)+

text \<open>A copy counts no more reads than the reader makes events.\<close>

lemma copy_reads_bound: "fst (copy_reads env path rs i st) \<le> i + length rs"
  by (induction env path rs i st rule: copy_reads.induct)
    (auto split: option.splits read_err.splits prod.splits if_splits simp: le_SucI)

lemma delivered_panic: "snd (fst (last evs)) = Some RdPanic \<Longrightarrow> evs \<noteq> [] \<Longrightarrow>
   \<forall>ev \<in> set (butlast evs). snd (fst ev) = None \<or> snd (fst ev) = Some RdRestart \<Longrightarrow>
   delivered acc (read_events evs) = Inl nil_deref"
proof (induction evs arbitrary: acc)
  case (Cons ev evs)
  obtain d e w where ev: "ev = ((d, e), w)" by (metis surj_pair)
  show ?case
  proof (cases "evs = []")
    case True
    then show ?thesis using Cons.prems ev by (simp add: read_events_def)
  next
    case False
    have "\<forall>x \<in> set (butlast evs). snd (fst x) = None \<or> snd (fst x) = Some RdRestart"
      "e = None \<or> e = Some RdRestart" "snd (fst (last evs)) = Some RdPanic"
      using Cons.prems False ev by auto
    then show ?thesis using Cons.IH [OF _ False] ev by (auto simp: read_events_def)
  qed
qed simp

lemma drain_goes_on: "\<forall>ev \<in> set (butlast (drain env r w)). snd (fst ev) = None \<or> snd (fst ev) = Some RdRestart"
proof (induction env r w rule: drain.induct)
  case (1 env r w)
  obtain ev r' w' where rd: "reader_Read env r w = ((ev, r'), w')" by (metis surj_pair)
  show ?case
  proof (cases "snd ev = None \<or> snd ev = Some RdRestart")
    case True
    then show ?thesis using 1 [OF rd [symmetric] refl] rd by (auto simp: drain.simps [of env r w])
  qed (auto simp: drain.simps [of env r w] rd)
qed

lemma fill_temp_ok:
  assumes "fill_temp env fenv pre dir rd umeta st w = (Inr art, st', w')"
  shows "\<exists>c. describes env st' art c \<and> delivered [] (read_events (drain fenv rd w)) = Inr c"
proof -
  let ?evs = "drain fenv rd w"
  have np: "snd (fst (last ?evs)) \<noteq> Some RdPanic"
  proof
    assume p: "snd (fst (last ?evs)) = Some RdPanic"
    with assms obtain path s where "stream_into env True path (read_events ?evs) [] umeta s = (Inr art, st')" "q_files s path = Some []"
      by (auto simp: fill_temp_def Let_def with_temp_def split: prod.splits sum.splits option.splits)
    from stream_into_ok [OF this] delivered_panic [OF p _ drain_goes_on] show False by simp
  qed
  then have "Quarantine env dir (read_events ?evs) umeta st = (Inr art, st')"
    using assms by (auto simp: fill_temp_def Let_def split: prod.splits sum.splits)
  from this show ?thesis
    by (auto simp: Quarantine_def with_temp_def Let_def split: option.splits prod.splits dest!: stream_into_ok)
qed

lemma fill_partial_ok:
  assumes "fill_partial env fenv pre path rd umeta st w = (Inr art, st', w')"
  shows "\<exists>c. describes env st' art c \<and> delivered (file_bytes st path) (read_events (drain fenv rd w)) = Inr c \<and> aPath art = path"
proof -
  have "QuarantineAt env path (read_events (drain fenv rd w)) umeta st = (Inr art, st')"
    using assms by (auto simp: fill_partial_def Let_def split: prod.splits sum.splits)
  then show ?thesis by (rule QuarantineAt_file)
qed

section \<open>Fills that succeed\<close>

text \<open>A body that is not cut off is delivered to its end, with no further request.\<close>

definition clean_body :: "body \<Rightarrow> bool" where
  "clean_body b \<longleftrightarrow> (\<forall>ev \<in> set b. snd ev = None \<or> snd ev = Some BodyEOF)"

lemma drain_clean:
  assumes "clean_body b" and "honest_body b c" and "rrBody r = Some b" and "\<not> rrClosed r" and "\<not> rrAnnounceRestart r"
    and "\<And>t. feCtx env t = None"
  shows "delivered acc (read_events (drain env r w)) = Inr (acc @ c) \<and> (\<forall>ev \<in> set (drain env r w). fwLog (snd ev) = fwLog w)
     \<and> snd (fst (last (drain env r w))) = Some RdEOF"
  using assms
proof (induction b arbitrary: r w c acc)
  case Nil
  then show ?case by (simp add: drain.simps [of env r w] reader_Read.simps [of env r w] read_events_def)
next
  case (Cons ev xs)
  obtain d e where ev: "ev = (d, e)" by fastforce
  then consider "e = None" | "e = Some BodyEOF" using Cons.prems(1) by (auto simp: clean_body_def)
  then show ?case
  proof cases
    case 1
    define r1 where "r1 = r\<lparr>rrBody := Some xs, rrOffset := rrOffset r + int (length d)\<rparr>"
    define w1 where "w1 = w\<lparr>fwTick := Suc (fwTick w)\<rparr>"
    have rd: "reader_Read env r w = (((d, None), r1), w1)"
      using Cons.prems ev 1 by (simp add: reader_Read.simps [of env r w] r1_def w1_def)
    have "delivered (acc @ d) (read_events (drain env r1 w1)) = Inr ((acc @ d) @ drop (length d) c)
        \<and> (\<forall>ev \<in> set (drain env r1 w1). fwLog (snd ev) = fwLog w1) \<and> snd (fst (last (drain env r1 w1))) = Some RdEOF"
      by (rule Cons.IH) (use Cons.prems ev 1 in \<open>auto simp: r1_def clean_body_def\<close>)
    moreover have "d @ drop (length d) c = c" using Cons.prems(2) ev 1 by (auto simp: prefix_def)
    ultimately show ?thesis by (auto simp: drain.simps [of env r w] rd read_events_def w1_def)
  next
    case 2
    with Cons.prems ev show ?thesis
      by (auto simp: drain.simps [of env r w] reader_Read.simps [of env r w] read_events_def)
  qed
qed

lemma stream_into_live:
  assumes "q_healthy st" and "\<And>k. qeCtx env k = None" and "q_files st path = Some ex" and "delivered ex rs = Inr c"
  shows "\<exists>st'. stream_into env durable path rs ex umeta st = (Inr (quarantine_artifact env path c (int (length c)) umeta), st')
     \<and> q_files st' path = Some c \<and> q_healthy st'"
proof -
  have cov: "covers st path ex (int (length ex))" using assms(3) by (simp add: covers_def)
  obtain st2 where c: "copy_loop env durable path rs 0 ex (int (length ex)) st = (Inr (c, int (length c)), st2)" and h: "q_healthy st2"
    using copy_loop_live [OF assms(1,2) cov assms(4)] by blast
  have "q_files st2 path = Some c" using copy_loop_ok [OF cov c] by (simp add: covers_def)
  then show ?thesis using c h by (simp add: stream_into_def q_healthy_call)
qed

lemma QuarantineAt_live:
  assumes "q_healthy st" and "\<And>k. qeCtx env k = None" and "delivered (file_bytes st path) rs = Inr c"
  shows "\<exists>st'. QuarantineAt env path rs umeta st = (Inr (quarantine_artifact env path c (int (length c)) umeta), st')
     \<and> q_files st' path = Some c \<and> q_healthy st'"
proof -
  have fb: "file_bytes (set_file path (file_bytes st path) (st\<lparr>q_tick := n\<rparr>)\<lparr>q_tick := m\<rparr>) path = file_bytes st path" for n m
    by (simp add: file_bytes_def set_file_def)
  have "\<exists>s. QuarantineAt env path rs umeta st = stream_into env True path rs (file_bytes st path) umeta s
      \<and> q_healthy s \<and> q_files s path = Some (file_bytes st path)"
    using assms(1)
    by (auto simp: QuarantineAt_def with_partial_def q_then_def q_healthy_call Let_def file_bytes_def)
  then show ?thesis using stream_into_live [OF _ assms(2) _ assms(3)] by fastforce
qed

text \<open>The two fills of a fetch whose body arrives whole, on a healthy file system.\<close>

definition arrives_whole :: "'b fetch_env \<Rightarrow> resumingReader \<Rightarrow> bytes \<Rightarrow> bool" where
  "arrives_whole fenv rd content \<longleftrightarrow>
     (\<exists>b. rrBody rd = Some b \<and> clean_body b \<and> honest_body b content) \<and> \<not> rrClosed rd \<and> \<not> rrAnnounceRestart rd
     \<and> (\<forall>t. feCtx fenv t = None)"

lemma drain_whole:
  assumes "arrives_whole fenv rd content"
  shows "delivered acc (read_events (drain fenv rd w)) = Inr (acc @ content)"
    and "k \<le> length (drain fenv rd w) \<Longrightarrow> fwLog (net_after w (drain fenv rd w) k) = fwLog w"
    and "snd (fst (last (drain fenv rd w))) \<noteq> Some RdPanic"
proof -
  obtain b where b: "clean_body b" "honest_body b content" "rrBody rd = Some b" "\<not> rrClosed rd" "\<not> rrAnnounceRestart rd"
    "\<And>t. feCtx fenv t = None"
    using assms by (auto simp: arrives_whole_def)
  note d = drain_clean [OF b, of acc w]
  show "delivered acc (read_events (drain fenv rd w)) = Inr (acc @ content)" using d by simp
  show "fwLog (net_after w (drain fenv rd w) k) = fwLog w" if "k \<le> length (drain fenv rd w)"
    using d that by (auto simp: net_after_def)
  show "snd (fst (last (drain fenv rd w))) \<noteq> Some RdPanic" using d by simp
qed

lemma fill_partial_whole:
  assumes "arrives_whole fenv rd content" and "\<And>k. qeCtx qenv k = None" and "q_healthy st" and "file_bytes st path = []"
  shows "\<exists>st' w'. fill_partial qenv fenv pre path rd umeta st w = (Inr (quarantine_artifact qenv path content (int (length content)) umeta), st', w')
     \<and> q_files st' path = Some content \<and> q_healthy st' \<and> fwLog w' = fwLog w"
proof -
  let ?evs = "drain fenv rd w"
  have "delivered (file_bytes st path) (read_events ?evs) = Inr content"
    using drain_whole(1) [OF assms(1), of "[]" w] assms(4) by simp
  then obtain st' where "QuarantineAt qenv path (read_events ?evs) umeta st = (Inr (quarantine_artifact qenv path content (int (length content)) umeta), st')"
    "q_files st' path = Some content" "q_healthy st'"
    using QuarantineAt_live [OF assms(3,2)] by blast
  moreover have "fst (partial_reads qenv path (read_events ?evs) st) \<le> length ?evs"
    using copy_reads_bound [of qenv path "read_events ?evs" 0] assms(4)
    by (simp add: partial_reads_def reads_made_def with_partial_def q_then_def Let_def read_events_def q_healthy_call assms(3) file_bytes_def)
  ultimately show ?thesis using drain_whole(2) [OF assms(1)] by (auto simp: fill_partial_def Let_def)
qed

lemma fill_temp_whole:
  assumes "arrives_whole fenv rd content" and "\<And>k. qeCtx qenv k = None" and "q_healthy st"
  shows "\<exists>st' w' path. fill_temp qenv fenv pre dir rd umeta st w = (Inr (quarantine_artifact qenv path content (int (length content)) umeta), st', w')
     \<and> q_files st' path = Some content \<and> q_healthy st' \<and> fwLog w' = fwLog w"
proof -
  let ?evs = "drain fenv rd w" and ?path = "qeCreateTemp qenv (q_files st) dir"
  have d: "delivered [] (read_events ?evs) = Inr content" using drain_whole(1) [OF assms(1), of "[]" w] by simp
  define st1 where "st1 = set_file ?path [] (st\<lparr>q_tick := Suc (q_tick st)\<rparr>)"
  have "q_healthy st1" "q_files st1 ?path = Some []" using assms(3) by (simp_all add: st1_def)
  from stream_into_live [OF this(1) assms(2) this(2) d] obtain st' where
    "stream_into qenv False ?path (read_events ?evs) [] umeta st1 = (Inr (quarantine_artifact qenv ?path content (int (length content)) umeta), st')"
    "q_files st' ?path = Some content" "q_healthy st'" by blast
  moreover have "fst (temp_reads qenv dir (read_events ?evs) st) \<le> length ?evs"
    using copy_reads_bound [of qenv ?path "read_events ?evs" 0]
    by (auto simp: temp_reads_def reads_made_def with_temp_def q_healthy_call assms(3) Let_def read_events_def)
  ultimately show ?thesis
    using drain_whole(2,3) [OF assms(1)] assms(3)
    by (auto simp: fill_temp_def Quarantine_def with_temp_def Let_def q_healthy_call st1_def [symmetric])
qed

end
