(* ===== verification/Coalesce.thy ===== *)
theory Coalesce
  imports Upstream "HOL-Library.Word"
begin

text \<open>
  Stampede protection (\<^verbatim>\<open>internal/coalesce\<close>): the key of a cold fetch, the shard of a key, the
  fetch under a lock of \<^verbatim>\<open>fetch_locked.go\<close>, and the lock of one process (\<^verbatim>\<open>locker.go\<close>) as a
  system of steps: every section under the mutex is one step, timers fire when they are due, and
  the callers are interleaved in every order.

  Parameters: the single-flight library, of which a fetch is the flight of its leader, and the
  clock. The Redis lock is a library.
\<close>

unbundle bit_operations_syntax

section \<open>Keys and shards\<close>

definition FetchKey :: "string \<Rightarrow> string \<Rightarrow> string \<Rightarrow> string \<Rightarrow> string" where
  "FetchKey protocol name version digest =
     ''fetch|'' @ protocol @ ''|'' @ name @ ''|'' @ version @ ''|'' @ digest"

definition numShards :: "32 word" where "numShards = 16"

definition fnv1a :: "string \<Rightarrow> 32 word" where
  "fnv1a s = fold (\<lambda>c h. (h XOR word_of_nat (of_char c)) * 16777619) s 2166136261"

definition shardIndex :: "string \<Rightarrow> 32 word" where
  "shardIndex key = fnv1a key AND (numShards - 1)"

text \<open>Every key has one of the sixteen shards.\<close>

lemma shardIndex_bound: "shardIndex key < numShards"
proof -
  have "shardIndex key = take_bit 4 (fnv1a key)"
    by (simp add: shardIndex_def numShards_def take_bit_eq_mask mask_eq_exp_minus_1)
  then have "unat (shardIndex key) < 2 ^ 4" by (simp add: unsigned_take_bit_eq take_bit_nat_less_exp [of 4, simplified])
  then show ?thesis by (simp add: numShards_def word_less_nat_alt)
qed

text \<open>
  Requests share a flight exactly when their keys agree. Keys are told apart as long as no part but
  the last contains the separator, and only then.
\<close>

lemma FetchKey_inj:
  assumes "CHR ''|'' \<notin> set p" "CHR ''|'' \<notin> set n" "CHR ''|'' \<notin> set v"
    and "CHR ''|'' \<notin> set p'" "CHR ''|'' \<notin> set n'" "CHR ''|'' \<notin> set v'"
    and "FetchKey p n v d = FetchKey p' n' v' d'"
  shows "p = p' \<and> n = n' \<and> v = v' \<and> d = d'"
proof -
  have "p @ CHR ''|'' # (n @ CHR ''|'' # (v @ CHR ''|'' # d)) = p' @ CHR ''|'' # (n' @ CHR ''|'' # (v' @ CHR ''|'' # d'))"
    using assms(7) by (simp add: FetchKey_def)
  from append_sep_inject [OF assms(1,4) this] have p: "p = p'" and r: "n @ CHR ''|'' # (v @ CHR ''|'' # d) = n' @ CHR ''|'' # (v' @ CHR ''|'' # d')" by auto
  from append_sep_inject [OF assms(2,5) r] have n: "n = n'" and r2: "v @ CHR ''|'' # d = v' @ CHR ''|'' # d'" by auto
  from append_sep_inject [OF assms(3,6) r2] p n show ?thesis by simp
qed

lemma FetchKey_collides: "FetchKey ''oci'' ''manifest:a|b'' ''c'' [] = FetchKey ''oci'' ''manifest:a'' ''b|c'' []"
  by (simp add: FetchKey_def)

section \<open>Fetching under a lock\<close>

definition DefaultLockTTL :: int where "DefaultLockTTL = 30 * Second"
definition DefaultFillTimeout :: int where "DefaultFillTimeout = 1800 * Second"

definition lock_ttl :: "int \<Rightarrow> int" where
  "lock_ttl ttl = (if ttl \<le> 0 then DefaultLockTTL else ttl)"

text \<open>
  The leader of a flight. Without a locker the function is called at once; the second look at the
  cache happens under the lock only, and the lock is released on every path.
\<close>

definition FetchLocked ::
  "(string \<Rightarrow> int \<Rightarrow> 's \<Rightarrow> (uerr + string) \<times> 's) option \<Rightarrow> (string \<Rightarrow> string \<Rightarrow> 's \<Rightarrow> 's) \<Rightarrow> string \<Rightarrow> int
   \<Rightarrow> ('s \<Rightarrow> (uerr + 'a option) \<times> 's) \<Rightarrow> ('s \<Rightarrow> (uerr + 'a) \<times> 's) \<Rightarrow> 's \<Rightarrow> (uerr + 'a) \<times> 's" where
  "FetchLocked acquire release key ttl recheck fn s =
     (case acquire of
        None \<Rightarrow> fn s
      | Some acq \<Rightarrow>
          (case acq key (lock_ttl ttl) s of
             (Inl e, s1) \<Rightarrow> (Inl (wrap (''coalesce: lock '' @ quote key @ '': '') e), s1)
           | (Inr token, s1) \<Rightarrow>
               (case recheck s1 of
                  (Inl e, s2) \<Rightarrow> (Inl e, release key token s2)
                | (Inr (Some v), s2) \<Rightarrow> (Inr v, release key token s2)
                | (Inr None, s2) \<Rightarrow> (case fn s2 of (r, s3) \<Rightarrow> (r, release key token s3)))))"

text \<open>What every step keeps is kept, and what both sources of a value promise is true of the value.\<close>

lemma FetchLocked_keeps:
  assumes "FetchLocked acquire (\<lambda>_ _ s. s) key ttl recheck fn s = (r, s')" and "I s"
    and "\<And>acq ttl s q s1. acquire = Some acq \<Longrightarrow> I s \<Longrightarrow> acq key ttl s = (q, s1) \<Longrightarrow> I s1"
    and "\<And>s q s1. I s \<Longrightarrow> recheck s = (q, s1) \<Longrightarrow> I s1 \<and> (\<forall>v. q = Inr (Some v) \<longrightarrow> Q v)"
    and "\<And>s q s1. I s \<Longrightarrow> fn s = (q, s1) \<Longrightarrow> I s1 \<and> (\<forall>v. q = Inr v \<longrightarrow> Q v)"
  shows "I s' \<and> (\<forall>v. r = Inr v \<longrightarrow> Q v)"
proof (cases acquire)
  case None
  then show ?thesis using assms(1,2,5) by (auto simp: FetchLocked_def)
next
  case (Some acq)
  obtain q s1 where q: "acq key (lock_ttl ttl) s = (q, s1)" by fastforce
  note i1 = assms(3) [OF Some assms(2) q]
  obtain q2 s2 where q2: "recheck s1 = (q2, s2)" by fastforce
  note i2 = assms(4) [OF i1 q2]
  obtain q3 s3 where q3: "fn s2 = (q3, s3)" by fastforce
  have i3: "I s3 \<and> (\<forall>v. q3 = Inr v \<longrightarrow> Q v)" using i2 q3 by (intro assms(5)) auto
  show ?thesis
    using assms(1) Some q q2 q3 i1 i2 i3 by (auto simp: FetchLocked_def split: sum.splits option.splits)
qed

section \<open>The lock of one process\<close>

record lockEntry =
  leToken :: string
  leExpires :: "gotime option"

record locker =
  lkHeld :: "string \<rightharpoonup> lockEntry"
  lkSeq :: nat
  lkNow :: gotime

definition newToken :: "locker \<Rightarrow> string \<times> locker" where
  "newToken l = (''local-'' @ nat_digits (Suc (lkSeq l)), l\<lparr>lkSeq := Suc (lkSeq l)\<rparr>)"

text \<open>One round of \<^verbatim>\<open>Acquire\<close>: the lock is taken when it is free, otherwise the caller waits.\<close>

definition try_acquire :: "string \<Rightarrow> int \<Rightarrow> string \<Rightarrow> locker \<Rightarrow> bool \<times> locker" where
  "try_acquire key ttl token l =
     (case lkHeld l key of
        Some _ \<Rightarrow> (False, l)
      | None \<Rightarrow>
          (True, l\<lparr>lkHeld := (lkHeld l)(key \<mapsto>
             \<lparr>leToken = token, leExpires = (if 0 < ttl then Some (lkNow l + ttl) else None)\<rparr>)\<rparr>))"

definition evictExpired :: "string \<Rightarrow> string \<Rightarrow> locker \<Rightarrow> locker" where
  "evictExpired key token l =
     (case lkHeld l key of
        None \<Rightarrow> l
      | Some e \<Rightarrow> if leToken e \<noteq> token then l else l\<lparr>lkHeld := (lkHeld l)(key := None)\<rparr>)"

definition lock_Release :: "string \<Rightarrow> string \<Rightarrow> locker \<Rightarrow> string option \<times> locker" where
  "lock_Release key token l =
     (case lkHeld l key of
        None \<Rightarrow> (None, l)
      | Some e \<Rightarrow>
          if leToken e \<noteq> token then (Some ''coalesce: lock ownership lost (fenced release blocked)'', l)
          else (None, l\<lparr>lkHeld := (lkHeld l)(key := None)\<rparr>))"

text \<open>
  The system: the locker, the tokens of callers that are waiting, the locks that were handed out
  and not given back (whether or not they were evicted meanwhile), and the armed timers. Giving a
  lock back stops its timer, except one whose call is already on its way.
\<close>

record lock_sys =
  syLocker :: locker
  syWaiting :: "(string \<times> int \<times> string) set"
  syOut :: "(string \<times> string \<times> gotime option) set"
  syTimers :: "(string \<times> string \<times> gotime) set"

inductive lock_step :: "lock_sys \<Rightarrow> lock_sys \<Rightarrow> bool" where
  ask: "newToken (syLocker s) = (token, l) \<Longrightarrow>
     lock_step s (s\<lparr>syLocker := l, syWaiting := insert (key, ttl, token) (syWaiting s)\<rparr>)"
| give_up: "w \<in> syWaiting s \<Longrightarrow> lock_step s (s\<lparr>syWaiting := syWaiting s - {w}\<rparr>)"
| take_lock: "(key, ttl, token) \<in> syWaiting s \<Longrightarrow> try_acquire key ttl token (syLocker s) = (True, l) \<Longrightarrow>
     lock_step s (s\<lparr>syLocker := l, syWaiting := syWaiting s - {(key, ttl, token)},
       syOut := insert (key, token, if 0 < ttl then Some (lkNow l + ttl) else None) (syOut s),
       syTimers := (if 0 < ttl then insert (key, token, lkNow l + ttl) (syTimers s) else syTimers s)\<rparr>)"
| give_back: "(key, token, e) \<in> syOut s \<Longrightarrow> lock_Release key token (syLocker s) = (r, l) \<Longrightarrow>
     late \<subseteq> {(k, t, due) \<in> syTimers s. t = token \<and> due \<le> lkNow l} \<Longrightarrow>
     timers = (if lkHeld (syLocker s) key \<noteq> None \<and> r = None then {(k, t, due) \<in> syTimers s. t \<noteq> token} \<union> late else syTimers s) \<Longrightarrow>
     lock_step s (s\<lparr>syLocker := l, syOut := syOut s - {(key, token, e)}, syTimers := timers\<rparr>)"
| fire: "(key, token, due) \<in> syTimers s \<Longrightarrow> due \<le> lkNow (syLocker s) \<Longrightarrow>
     lock_step s (s\<lparr>syLocker := evictExpired key token (syLocker s), syTimers := syTimers s - {(key, token, due)}\<rparr>)"
| pass: "d \<ge> 0 \<Longrightarrow> lock_step s (s\<lparr>syLocker := (syLocker s)\<lparr>lkNow := lkNow (syLocker s) + d\<rparr>\<rparr>)"

inductive_cases lock_step_cases: "lock_step s s'"

definition lock_start :: "gotime \<Rightarrow> lock_sys" where
  "lock_start now = \<lparr>syLocker = \<lparr>lkHeld = Map.empty, lkSeq = 0, lkNow = now\<rparr>, syWaiting = {}, syOut = {}, syTimers = {}\<rparr>"

inductive lock_reach :: "lock_sys \<Rightarrow> bool" where
  lock_init: "lock_reach (lock_start now)"
| lock_more: "lock_reach s \<Longrightarrow> lock_step s s' \<Longrightarrow> lock_reach s'"

text \<open>
  Tokens are issued once. Whoever holds a lock has it outstanding, with a timer armed when it has a
  time to live; and a lock that is outstanding but no longer held has outlived it.
\<close>

definition issued :: "nat \<Rightarrow> string \<Rightarrow> bool" where
  "issued n token \<longleftrightarrow> (\<exists>k \<le> n. token = ''local-'' @ nat_digits k)"

definition waiting_ok :: "lock_sys \<Rightarrow> bool" where
  "waiting_ok s \<longleftrightarrow> (\<forall>k ttl t. (k, ttl, t) \<in> syWaiting s \<longrightarrow>
     issued (lkSeq (syLocker s)) t \<and> (\<forall>k' e. (k', t, e) \<notin> syOut s) \<and> (\<forall>k' due. (k', t, due) \<notin> syTimers s))"

definition out_ok :: "lock_sys \<Rightarrow> bool" where
  "out_ok s \<longleftrightarrow> (\<forall>k t e. (k, t, e) \<in> syOut s \<longrightarrow> issued (lkSeq (syLocker s)) t
     \<and> ((\<exists>x. lkHeld (syLocker s) k = Some x \<and> leToken x = t) \<or> (\<exists>due. e = Some due \<and> due \<le> lkNow (syLocker s))))"

definition held_ok :: "lock_sys \<Rightarrow> bool" where
  "held_ok s \<longleftrightarrow> (\<forall>k x. lkHeld (syLocker s) k = Some x \<longrightarrow> (k, leToken x, leExpires x) \<in> syOut s
     \<and> (\<forall>due. leExpires x = Some due \<longrightarrow> (k, leToken x, due) \<in> syTimers s))"

definition timers_ok :: "lock_sys \<Rightarrow> bool" where
  "timers_ok s \<longleftrightarrow> (\<forall>k t due. (k, t, due) \<in> syTimers s \<longrightarrow>
     issued (lkSeq (syLocker s)) t \<and> (\<forall>k' e. (k', t, e) \<in> syOut s \<longrightarrow> e = Some due))"

text \<open>A token stands for one caller: one that waits for one lock, and one lock that is handed out.\<close>

definition tokens_ok :: "lock_sys \<Rightarrow> bool" where
  "tokens_ok s \<longleftrightarrow>
     (\<forall>k ttl t k' ttl'. (k, ttl, t) \<in> syWaiting s \<longrightarrow> (k', ttl', t) \<in> syWaiting s \<longrightarrow> k' = k \<and> ttl' = ttl)
     \<and> (\<forall>k t e k' e'. (k, t, e) \<in> syOut s \<longrightarrow> (k', t, e') \<in> syOut s \<longrightarrow> k' = k \<and> e' = e)"

definition lock_inv :: "lock_sys \<Rightarrow> bool" where
  "lock_inv s \<longleftrightarrow> waiting_ok s \<and> out_ok s \<and> held_ok s \<and> timers_ok s \<and> tokens_ok s"

lemmas lock_inv_defs = lock_inv_def waiting_ok_def out_ok_def held_ok_def timers_ok_def tokens_ok_def

lemma lock_invD:
  assumes "lock_inv s"
  shows "(k, ttl, t) \<in> syWaiting s \<Longrightarrow> issued (lkSeq (syLocker s)) t"
    and "(k, ttl, t) \<in> syWaiting s \<Longrightarrow> (k', t, e) \<notin> syOut s"
    and "(k, ttl, t) \<in> syWaiting s \<Longrightarrow> (k', t, due) \<notin> syTimers s"
    and "(k, ttl, t) \<in> syWaiting s \<Longrightarrow> (k', ttl', t) \<in> syWaiting s \<Longrightarrow> k' = k \<and> ttl' = ttl"
    and "(k, t, e) \<in> syOut s \<Longrightarrow> (k', t, e') \<in> syOut s \<Longrightarrow> k' = k \<and> e' = e"
    and "lkHeld (syLocker s) k = Some x \<Longrightarrow> (k, leToken x, leExpires x) \<in> syOut s"
    and "(k, t, due) \<in> syTimers s \<Longrightarrow> (k', t, e) \<in> syOut s \<Longrightarrow> e = Some due"
  using assms unfolding lock_inv_def
  by (metis waiting_ok_def, metis waiting_ok_def, metis waiting_ok_def, metis tokens_ok_def, metis tokens_ok_def, metis held_ok_def,
      metis timers_ok_def)

lemma lock_invP:
  assumes "lock_inv s"
  shows "waiting_ok s" "out_ok s" "held_ok s" "timers_ok s" "tokens_ok s"
  using assms by (simp_all add: lock_inv_def)

lemma issued_mono: "issued m t \<Longrightarrow> m \<le> n \<Longrightarrow> issued n t"
  by (auto simp: issued_def intro: order_trans)

lemma issued_new: "issued (Suc n) (''local-'' @ nat_digits (Suc n))" "\<not> issued n (''local-'' @ nat_digits (Suc n))"
  by (auto simp: issued_def dest: nat_digits_inj)

lemma lock_start_inv: "lock_inv (lock_start now)"
  by (simp add: lock_inv_defs lock_start_def)

lemma lock_inv_ask:
  assumes "lock_inv s" and "newToken (syLocker s) = (token, l)"
  shows "lock_inv (s\<lparr>syLocker := l, syWaiting := insert (key, ttl, token) (syWaiting s)\<rparr>)"
proof -
  have l: "l = (syLocker s)\<lparr>lkSeq := Suc (lkSeq (syLocker s))\<rparr>" "issued (lkSeq l) token" "\<not> issued (lkSeq (syLocker s)) token"
    using assms(2) issued_new [of "lkSeq (syLocker s)"] by (auto simp: newToken_def)
  moreover have "issued (lkSeq l) t" if "issued (lkSeq (syLocker s)) t" for t using issued_mono [OF that] l(1) by simp
  ultimately show ?thesis using assms(1) unfolding lock_inv_defs by auto
qed

lemma lock_inv_take:
  assumes "lock_inv s" and "(key, ttl, token) \<in> syWaiting s" and "try_acquire key ttl token (syLocker s) = (True, l)"
  shows "lock_inv (s\<lparr>syLocker := l, syWaiting := syWaiting s - {(key, ttl, token)},
       syOut := insert (key, token, if 0 < ttl then Some (lkNow l + ttl) else None) (syOut s),
       syTimers := (if 0 < ttl then insert (key, token, lkNow l + ttl) (syTimers s) else syTimers s)\<rparr>)"
proof -
  let ?e = "if 0 < ttl then Some (lkNow (syLocker s) + ttl) else None"
  have l: "lkHeld (syLocker s) key = None" "l = (syLocker s)\<lparr>lkHeld := (lkHeld (syLocker s))(key \<mapsto> \<lparr>leToken = token, leExpires = ?e\<rparr>)\<rparr>"
    using assms(3) by (auto simp: try_acquire_def split: option.splits)
  have tok: "issued (lkSeq (syLocker s)) token" "\<And>k e. (k, token, e) \<notin> syOut s" "\<And>k due. (k, token, due) \<notin> syTimers s"
    "\<And>k' ttl'. (k', ttl', token) \<in> syWaiting s \<Longrightarrow> k' = key \<and> ttl' = ttl"
    using lock_invD(1-4) [OF assms(1,2)] by blast+
  define s' where "s' = s\<lparr>syLocker := l, syWaiting := syWaiting s - {(key, ttl, token)},
       syOut := insert (key, token, if 0 < ttl then Some (lkNow l + ttl) else None) (syOut s),
       syTimers := (if 0 < ttl then insert (key, token, lkNow l + ttl) (syTimers s) else syTimers s)\<rparr>"
  have [simp]: "syLocker s' = l" "syWaiting s' = syWaiting s - {(key, ttl, token)}" "syOut s' = insert (key, token, ?e) (syOut s)"
    "syTimers s' = (if 0 < ttl then insert (key, token, lkNow (syLocker s) + ttl) (syTimers s) else syTimers s)"
    using l(2) by (simp_all add: s'_def)
  note inv = lock_invP [OF assms(1)]
  have "waiting_ok s'" using inv(1) tok l(2) unfolding waiting_ok_def by (auto split: if_splits)
  moreover have "out_ok s'"
    unfolding out_ok_def
  proof (intro allI impI)
    fix k t e assume "(k, t, e) \<in> syOut s'"
    then consider "k = key" "t = token" | "(k, t, e) \<in> syOut s" by auto
    then show "issued (lkSeq (syLocker s')) t
       \<and> ((\<exists>x. lkHeld (syLocker s') k = Some x \<and> leToken x = t) \<or> (\<exists>due. e = Some due \<and> due \<le> lkNow (syLocker s')))"
    proof cases
      case 2
      then show ?thesis using inv(2) [unfolded out_ok_def, rule_format, OF 2] l by auto
    qed (use l tok(1) in simp)
  qed
  moreover have "held_ok s'" using inv(3) l unfolding held_ok_def by (auto split: if_splits)
  moreover have "timers_ok s'" using inv(4) tok l(2) unfolding timers_ok_def by (auto split: if_splits)
  moreover have "tokens_ok s'" using inv(5) tok unfolding tokens_ok_def by (auto split: if_splits)
  ultimately show ?thesis by (simp add: lock_inv_def s'_def)
qed

lemma lock_inv_release:
  assumes "lock_inv s" and "(key, token, e) \<in> syOut s" and "lock_Release key token (syLocker s) = (r, l)"
    and "late \<subseteq> {(k, t, due) \<in> syTimers s. t = token \<and> due \<le> lkNow l}"
    and "timers = (if lkHeld (syLocker s) key \<noteq> None \<and> r = None then {(k, t, due) \<in> syTimers s. t \<noteq> token} \<union> late else syTimers s)"
  shows "lock_inv (s\<lparr>syLocker := l, syOut := syOut s - {(key, token, e)}, syTimers := timers\<rparr>)"
proof (cases "\<exists>x. lkHeld (syLocker s) key = Some x \<and> leToken x = token")
  case True
  then have l: "l = (syLocker s)\<lparr>lkHeld := (lkHeld (syLocker s))(key := None)\<rparr>"
    and t: "timers = {(k, t, due) \<in> syTimers s. t \<noteq> token} \<union> late"
    using assms(3,5) by (auto simp: lock_Release_def)
  have tok: "\<And>k' e'. (k', token, e') \<in> syOut s \<Longrightarrow> k' = key \<and> e' = e" by (rule lock_invD(5) [OF assms(1,2)])
  have sub: "timers \<subseteq> syTimers s" "\<And>k t due. (k, t, due) \<in> syTimers s \<Longrightarrow> t \<noteq> token \<Longrightarrow> (k, t, due) \<in> timers"
    using t assms(4) by auto
  have held: "leToken x \<noteq> token" if "lkHeld (syLocker s) k = Some x" "k \<noteq> key" for k x
    using that lock_invD(6) [OF assms(1)] tok by blast
  define s' where "s' = s\<lparr>syLocker := l, syOut := syOut s - {(key, token, e)}, syTimers := timers\<rparr>"
  have [simp]: "syLocker s' = l" "syWaiting s' = syWaiting s" "syOut s' = syOut s - {(key, token, e)}" "syTimers s' = timers"
    by (simp_all add: s'_def)
  note inv = lock_invP [OF assms(1)]
  have "waiting_ok s'" using inv(1) sub(1) l unfolding waiting_ok_def by auto
  moreover have "out_ok s'"
    unfolding out_ok_def
  proof (intro allI impI)
    fix k t f assume "(k, t, f) \<in> syOut s'"
    then have o: "(k, t, f) \<in> syOut s" "t \<noteq> token" using tok by auto
    moreover have "lkHeld l k = lkHeld (syLocker s) k" if "lkHeld (syLocker s) k = Some x" "leToken x = t" for x
      using that True o(2) l by auto
    ultimately show "issued (lkSeq (syLocker s')) t
       \<and> ((\<exists>x. lkHeld (syLocker s') k = Some x \<and> leToken x = t) \<or> (\<exists>due. f = Some due \<and> due \<le> lkNow (syLocker s')))"
      using inv(2) l unfolding out_ok_def by fastforce
  qed
  moreover have "held_ok s'" using inv(3) held sub(2) l unfolding held_ok_def by (auto split: if_splits)
  moreover have "timers_ok s'" using inv(4) sub(1) l unfolding timers_ok_def by auto
  moreover have "tokens_ok s'" using inv(5) unfolding tokens_ok_def by auto
  ultimately show ?thesis by (simp add: lock_inv_def s'_def)
next
  case False
  then have l: "l = syLocker s" and t: "timers = syTimers s"
    using assms(3,5) by (auto simp: lock_Release_def split: option.splits if_splits)
  show ?thesis using assms(1) False unfolding l t lock_inv_defs by auto
qed

lemma lock_inv_fire:
  assumes "lock_inv s" and "(key, token, due) \<in> syTimers s" and "due \<le> lkNow (syLocker s)"
  shows "lock_inv (s\<lparr>syLocker := evictExpired key token (syLocker s), syTimers := syTimers s - {(key, token, due)}\<rparr>)"
proof (cases "\<exists>x. lkHeld (syLocker s) key = Some x \<and> leToken x = token")
  case True
  then have l: "evictExpired key token (syLocker s) = (syLocker s)\<lparr>lkHeld := (lkHeld (syLocker s))(key := None)\<rparr>"
    by (auto simp: evictExpired_def)
  have tok: "\<And>k e. (k, token, e) \<in> syOut s \<Longrightarrow> k = key \<and> e = Some due"
    using True lock_invD(5,6) [OF assms(1)] lock_invD(7) [OF assms(1,2)] by blast
  have held: "leToken x \<noteq> token" if "lkHeld (syLocker s) k = Some x" "k \<noteq> key" for k x
    using that lock_invD(6) [OF assms(1)] tok by blast
  have gone: "\<exists>d. e = Some d \<and> d \<le> lkNow (syLocker s)" if "(key, t, e) \<in> syOut s" for t e
    using tok [of key e] that True assms(3) lock_invP(2) [OF assms(1), unfolded out_ok_def, rule_format, OF that]
    by (cases "t = token") auto
  show ?thesis using assms tok held gone unfolding l lock_inv_defs by auto
next
  case False
  then have l: "evictExpired key token (syLocker s) = syLocker s" by (auto simp: evictExpired_def split: option.splits)
  show ?thesis using assms(1) False unfolding l lock_inv_defs by auto
qed

lemma lock_inv_pass: "lock_inv s \<Longrightarrow> 0 \<le> d \<Longrightarrow> lock_inv (s\<lparr>syLocker := (syLocker s)\<lparr>lkNow := lkNow (syLocker s) + d\<rparr>\<rparr>)"
proof -
  assume inv: "lock_inv s" and d: "0 \<le> d"
  have le: "\<And>due. due \<le> lkNow (syLocker s) \<Longrightarrow> due \<le> lkNow (syLocker s) + d" using d by simp
  show ?thesis using inv unfolding lock_inv_defs by (simp add: le) (meson le)
qed

lemma lock_step_inv: "lock_step s s' \<Longrightarrow> lock_inv s \<Longrightarrow> lock_inv s'"
proof (induction rule: lock_step.induct)
  case (give_up w s)
  then show ?case
    using lock_invP(1,5) [OF give_up(2)] lock_invP(2-4) [OF give_up(2)]
    by (auto simp: lock_inv_def waiting_ok_def tokens_ok_def out_ok_def held_ok_def timers_ok_def)
next
  case (ask s token l key ttl)
  then show ?case by (rule lock_inv_ask [rotated])
next
  case (take_lock key ttl token s l)
  show ?case by (rule lock_inv_take [OF take_lock(3,1,2)])
next
  case (give_back key token e s r l late timers)
  show ?case by (rule lock_inv_release [OF give_back(5,1-4)])
next
  case (fire key token due s)
  show ?case by (rule lock_inv_fire [OF fire(3,1,2)])
next
  case (pass d s)
  then show ?case by (intro lock_inv_pass)
qed

lemma lock_reach_inv: "lock_reach s \<Longrightarrow> lock_inv s"
  by (induction rule: lock_reach.induct) (auto intro: lock_start_inv lock_step_inv)

section \<open>Properties\<close>

text \<open>C37: The lock is exclusive for as long as its time to live: in every state that interleaved
  callers, clock and timers can reach, two callers that both believe to hold the lock of a key
  exist only if the time to live of one of them has passed; and a caller that gives back a lock it
  has lost never takes it away from the one that holds it now.\<close>

theorem lock_exclusive:
  assumes "lock_reach s" and "(k, t, e) \<in> syOut s" and "(k, t', e') \<in> syOut s" and "t \<noteq> t'"
  shows "(\<exists>due \<le> lkNow (syLocker s). e = Some due \<or> e' = Some due)
     \<and> (\<forall>x. lkHeld (syLocker s) k = Some x \<longrightarrow> leToken x \<noteq> t \<longrightarrow>
          lock_Release k t (syLocker s) = (Some ''coalesce: lock ownership lost (fenced release blocked)'', syLocker s))"
proof -
  have "out_ok s" using lock_reach_inv [OF assms(1)] by (simp add: lock_inv_def)
  then have "\<exists>due \<le> lkNow (syLocker s). e = Some due \<or> e' = Some due"
    using assms(2-4) unfolding out_ok_def by (metis option.inject)
  then show ?thesis by (simp add: lock_Release_def)
qed

text \<open>No key stays locked: from every reachable state in which a key is held, its holder can give it
  back, which frees it, and when the lock has a time to live its timer is armed and frees it too
  once the time has come, whatever the holder does.\<close>

theorem lock_can_be_freed:
  assumes "lock_reach s" and "lkHeld (syLocker s) k = Some x"
  shows "(\<exists>s'. lock_step s s' \<and> lkHeld (syLocker s') k = None \<and> (k, leToken x, leExpires x) \<notin> syOut s')
     \<and> (\<forall>due. leExpires x = Some due \<longrightarrow> due \<le> lkNow (syLocker s) \<longrightarrow>
          (\<exists>s'. lock_step s s' \<and> lkHeld (syLocker s') k = None \<and> syOut s' = syOut s))"
proof (intro conjI allI impI)
  have inv: "held_ok s" using lock_reach_inv [OF assms(1)] by (simp add: lock_inv_def)
  then have out: "(k, leToken x, leExpires x) \<in> syOut s" using assms(2) by (simp add: held_ok_def)
  have "lock_Release k (leToken x) (syLocker s) = (None, (syLocker s)\<lparr>lkHeld := (lkHeld (syLocker s))(k := None)\<rparr>)"
    using assms(2) by (simp add: lock_Release_def)
  from give_back [OF out this empty_subsetI refl]
  show "\<exists>s'. lock_step s s' \<and> lkHeld (syLocker s') k = None \<and> (k, leToken x, leExpires x) \<notin> syOut s'"
    by (intro exI conjI) (assumption, simp_all)
  fix due assume due: "leExpires x = Some due" "due \<le> lkNow (syLocker s)"
  then have "(k, leToken x, due) \<in> syTimers s" using inv assms(2) by (simp add: held_ok_def)
  from fire [OF this due(2)]
  show "\<exists>s'. lock_step s s' \<and> lkHeld (syLocker s') k = None \<and> syOut s' = syOut s"
    using assms(2) by (intro exI conjI) (assumption, simp_all add: evictExpired_def)
qed

section \<open>A lock that outlives its holder\<close>

definition held_lock :: "string \<Rightarrow> gotime \<Rightarrow> string \<rightharpoonup> lockEntry" where
  "held_lock token due = [''k'' \<mapsto> \<lparr>leToken = token, leExpires = Some due\<rparr>]"

definition one_holder :: "gotime \<Rightarrow> lock_sys" where
  "one_holder now = \<lparr>syLocker = \<lparr>lkHeld = held_lock ''local-1'' 5, lkSeq = 1, lkNow = now\<rparr>, syWaiting = {},
     syOut = {(''k'', ''local-1'', Some 5)}, syTimers = {(''k'', ''local-1'', 5)}\<rparr>"

definition two_holders :: lock_sys where
  "two_holders = \<lparr>syLocker = \<lparr>lkHeld = held_lock ''local-2'' 10, lkSeq = 2, lkNow = 5\<rparr>, syWaiting = {},
     syOut = {(''k'', ''local-2'', Some 10), (''k'', ''local-1'', Some 5)}, syTimers = {(''k'', ''local-2'', 10)}\<rparr>"

lemma local_tokens: "''local-'' @ nat_digits 1 = ''local-1''" "''local-'' @ nat_digits 2 = ''local-2''"
  by code_simp+

lemma one_holder_reached: "lock_reach (one_holder 0)" "lock_reach (one_holder 5)"
proof -
  let ?l1 = "\<lparr>lkHeld = Map.empty, lkSeq = 1, lkNow = 0\<rparr> :: locker"
  let ?s1 = "\<lparr>syLocker = ?l1, syWaiting = {(''k'', 5, ''local-1'')}, syOut = {}, syTimers = {}\<rparr> :: lock_sys"
  have "newToken (syLocker (lock_start 0)) = (''local-1'', ?l1)" using local_tokens(1) by (simp add: newToken_def lock_start_def)
  from lock_more [OF lock_init ask [OF this, of "''k''" 5]] have s1: "lock_reach ?s1" by (simp add: lock_start_def)
  have "try_acquire ''k'' 5 ''local-1'' ?l1 = (True, syLocker (one_holder 0))"
    by (simp add: try_acquire_def one_holder_def held_lock_def)
  with lock_more [OF s1 take_lock [of "''k''" 5 "''local-1''"]] show zero: "lock_reach (one_holder 0)" by (simp add: one_holder_def)
  from lock_more [OF zero pass [of 5]] show "lock_reach (one_holder 5)" by (simp add: one_holder_def)
qed

lemma two_holders_reached: "lock_reach two_holders"
proof -
  let ?free = "\<lparr>syLocker = \<lparr>lkHeld = Map.empty, lkSeq = 1, lkNow = 5\<rparr>, syWaiting = {}, syOut = {(''k'', ''local-1'', Some 5)},
    syTimers = {}\<rparr> :: lock_sys"
  let ?l = "\<lparr>lkHeld = Map.empty, lkSeq = 2, lkNow = 5\<rparr> :: locker"
  have "(''k'', ''local-1'', 5) \<in> syTimers (one_holder 5)" "5 \<le> lkNow (syLocker (one_holder 5))" by (simp_all add: one_holder_def)
  from lock_more [OF one_holder_reached(2) fire [OF this]]
  have free: "lock_reach ?free" by (simp add: one_holder_def evictExpired_def held_lock_def)
  have "newToken (syLocker ?free) = (''local-2'', ?l)" using local_tokens(2) by (simp add: newToken_def numeral_2_eq_2)
  from lock_more [OF free ask [OF this, of "''k''" 5]]
  have w: "lock_reach (?free\<lparr>syLocker := ?l, syWaiting := {(''k'', 5, ''local-2'')}\<rparr>)" by simp
  have "try_acquire ''k'' 5 ''local-2'' ?l = (True, syLocker two_holders)"
    by (simp add: try_acquire_def two_holders_def held_lock_def)
  with lock_more [OF w take_lock [of "''k''" 5 "''local-2''"]] show ?thesis by (simp add: two_holders_def)
qed

theorem lock_exclusive_witness:
  "\<exists>due \<le> lkNow (syLocker two_holders). Some (10 :: int) = Some due \<or> Some 5 = Some due"
  using lock_exclusive [OF two_holders_reached, of "''k''" "''local-2''" "Some 10" "''local-1''" "Some 5"] by (simp add: two_holders_def)

theorem lock_can_be_freed_witness:
  "\<exists>s'. lock_step (one_holder 5) s' \<and> lkHeld (syLocker s') ''k'' = None \<and> syOut s' = syOut (one_holder 5)"
  using lock_can_be_freed [OF one_holder_reached(2), of "''k''" "\<lparr>leToken = ''local-1'', leExpires = Some 5\<rparr>"]
  by (simp add: one_holder_def held_lock_def)

end
