(* ===== verification/OciRemote.thy ===== *)
theory OciRemote
  imports Upstream
begin

text \<open>
  Which upstreams a repository name of the registry API may be fetched from
  (\<^verbatim>\<open>internal/handler/oci/remote.go\<close>, \<^verbatim>\<open>internal/ocilayout/layout.go\<close>): the allowlist of registry
  hosts with their mirror chains, and the split of a name into host and repository.
\<close>

section \<open>Layouts\<close>

definition HuaweiDDN :: string where "HuaweiDDN = ''huawei-ddn''"

definition unknown_layout :: "string \<Rightarrow> string" where
  "unknown_layout layout = ''unknown upstream layout '' @ quote layout @ '' (want '' @ quote HuaweiDDN @ '')''"

definition layout_Resolve :: "string \<Rightarrow> string \<Rightarrow> string \<Rightarrow> string + string" where
  "layout_Resolve pathPrefix layout0 registryHost =
     (let p = Trim (TrimSpace pathPrefix) CHR ''/'' in
      if p \<noteq> [] then Inr p
      else
        let layout = ToLower (TrimSpace layout0) in
        if layout = [] then Inr []
        else if layout = HuaweiDDN then
          (let host = ToLower (TrimSpace registryHost) in Inr (''ddn-k8s/'' @ (if host = [] then ''docker.io'' else host)))
        else Inl (unknown_layout layout))"

definition ValidateLayout :: "string \<Rightarrow> string option" where
  "ValidateLayout layout0 =
     (let layout = ToLower (TrimSpace layout0) in
      if layout = [] then None else if layout \<noteq> HuaweiDDN then Some (unknown_layout layout) else None)"

section \<open>The allowlist\<close>

record RemoteUpstreamSpec =
  ruName :: string
  ruBaseURL :: string
  ruPriority :: int
  ruPathPrefix :: string
  ruLayout :: string

record RemoteRegistrySpec =
  rsHost :: string
  rsBaseURL :: string
  rsUpstreams :: "RemoteUpstreamSpec list"

record cand =
  cdName :: string
  cdUrl :: string
  cdPathPrefix :: string
  cdPri :: int
  cdOrd :: int

definition expandRemotePathPrefix :: "RemoteUpstreamSpec \<Rightarrow> string \<Rightarrow> string" where
  "expandRemotePathPrefix u registryHost =
     (case layout_Resolve (ruPathPrefix u) (ruLayout u) registryHost of Inl _ \<Rightarrow> [] | Inr p \<Rightarrow> p)"

definition clean_url :: "string \<Rightarrow> string" where
  "clean_url url = TrimRight (TrimSpace url) CHR ''/''"

text \<open>The candidates in the order of their declaration, which is numbered from \<^verbatim>\<open>ord\<close>.\<close>

fun upstream_cands :: "string \<Rightarrow> string \<Rightarrow> int \<Rightarrow> RemoteUpstreamSpec list \<Rightarrow> cand list" where
  "upstream_cands host origin ord' [] = []"
| "upstream_cands host origin ord' (u # us) =
     (let url = clean_url (ruBaseURL u) in
      if url = [] \<or> url = origin then upstream_cands host origin ord' us
      else
        let name = TrimSpace (ruName u) in
        \<lparr>cdName = (if name = [] then ''mirror'' else name), cdUrl = url, cdPathPrefix = expandRemotePathPrefix u host,
         cdPri = (if ruPriority u = 0 then 1000 + ord' else ruPriority u), cdOrd = ord'\<rparr>
        # upstream_cands host origin (ord' + 1) us)"

definition spec_cands :: "string \<Rightarrow> string \<Rightarrow> RemoteRegistrySpec \<Rightarrow> cand list" where
  "spec_cands host origin s =
     (let base = clean_url (rsBaseURL s) in
      if base \<noteq> [] \<and> base \<noteq> origin
      then \<lparr>cdName = ''mirror'', cdUrl = base, cdPathPrefix = [], cdPri = 0, cdOrd = 0\<rparr> # upstream_cands host origin 1 (rsUpstreams s)
      else upstream_cands host origin 0 (rsUpstreams s))"

definition cand_less :: "cand \<Rightarrow> cand \<Rightarrow> bool" where
  "cand_less a b = (if cdPri a \<noteq> cdPri b then cdPri a < cdPri b else cdOrd a < cdOrd b)"

definition sort_cands :: "cand list \<Rightarrow> cand list" where
  "sort_cands cs = isort (\<lambda>a b. \<not> cand_less b a) cs"

text \<open>The chain without duplicate URLs, the URLs seen and the next priority.\<close>

fun mirror_chain :: "string \<Rightarrow> string set \<Rightarrow> int \<Rightarrow> cand list \<Rightarrow> Upstream list \<times> string set \<times> int" where
  "mirror_chain host seen pri [] = ([], seen, pri)"
| "mirror_chain host seen pri (c # cs) =
     (if cdUrl c \<in> seen then mirror_chain host seen pri cs
      else
        case mirror_chain host (insert (cdUrl c) seen) (pri + 1) cs of
          (chain, seen', pri') \<Rightarrow>
            (\<lparr>upName = ''remote:'' @ host @ '':'' @ cdName c, upBaseURL = cdUrl c, upPriority = pri, upOfficial = False,
              upPathPrefix = cdPathPrefix c, upProxy = []\<rparr> # chain, seen', pri'))"

definition origin_upstream :: "string \<Rightarrow> string \<Rightarrow> int \<Rightarrow> Upstream" where
  "origin_upstream host origin pri =
     \<lparr>upName = ''remote:'' @ host, upBaseURL = origin, upPriority = pri, upOfficial = True, upPathPrefix = [], upProxy = []\<rparr>"

definition remote_chain :: "string \<Rightarrow> RemoteRegistrySpec \<Rightarrow> Upstream list" where
  "remote_chain host s =
     (let origin = ''https://'' @ host in
      case mirror_chain host {} 1 (sort_cands (spec_cands host origin s)) of
        (chain, seen, pri) \<Rightarrow>
          if origin \<notin> seen then chain @ [origin_upstream host origin pri]
          else if chain = [] then [origin_upstream host origin 1]
          else map (\<lambda>up. if upBaseURL up \<noteq> origin then up
                        else up\<lparr>upOfficial := True, upName := ''remote:'' @ host, upPathPrefix := []\<rparr>) chain)"

definition RemoteRegistriesFromSpecs :: "RemoteRegistrySpec list \<Rightarrow> string \<rightharpoonup> Upstream list" where
  "RemoteRegistriesFromSpecs specs =
     fold (\<lambda>s out. let host = ToLower (TrimSpace (rsHost s)) in if host = [] then out else out(host \<mapsto> remote_chain host s)) specs Map.empty"

section \<open>From a name to its upstreams\<close>

text \<open>An empty allowlist needs no case of its own: no host is found in it.\<close>

definition parseRemoteName :: "string \<Rightarrow> (string \<rightharpoonup> Upstream list) \<Rightarrow> (string \<times> string) option" where
  "parseRemoteName imageName regs =
     (let name = Trim imageName CHR ''/'' in
      case IndexByte name CHR ''/'' of
        None \<Rightarrow> None
      | Some i \<Rightarrow>
          if i = 0 \<or> Suc i = length name then None
          else
            let first = ToLower (take i name) in
            (case regs first of
               None \<Rightarrow> None
             | Some chain \<Rightarrow>
                 if chain = [] \<or> upBaseURL (hd chain) = [] then None else Some (first, drop (Suc i) name)))"

definition looksLikeRegistryHost :: "string \<Rightarrow> bool" where
  "looksLikeRegistryHost imageName =
     (let name = Trim imageName CHR ''/'' in
      case IndexByte name CHR ''/'' of
        None \<Rightarrow> False
      | Some i \<Rightarrow> i \<noteq> 0 \<and> Contains (take i name) ''.'')"

definition upstreamForName :: "(string \<rightharpoonup> Upstream list) \<Rightarrow> Upstream list \<Rightarrow> string \<Rightarrow> (Upstream list \<times> string) option" where
  "upstreamForName regs hub imageName =
     (case parseRemoteName imageName regs of
        Some (host, repo) \<Rightarrow> Some (the (regs host), repo)
      | None \<Rightarrow>
          if looksLikeRegistryHost imageName then None
          else if hub = [] then None
          else Some (hub, imageName))"

section \<open>The shape of a chain\<close>

lemma mirror_chain_props:
  assumes "mirror_chain host seen pri cs = (chain, seen', pri')"
  shows "seen' = seen \<union> cdUrl ` set cs" and "set (map upBaseURL chain) = cdUrl ` set cs - seen" and "distinct (map upBaseURL chain)"
    and "map upPriority chain = map (\<lambda>k. pri + int k) [0..<length chain]" and "pri' = pri + int (length chain)"
    and "\<forall>up \<in> set chain. \<not> upOfficial up"
proof -
  have "seen' = seen \<union> cdUrl ` set cs \<and> set (map upBaseURL chain) = cdUrl ` set cs - seen \<and> distinct (map upBaseURL chain)
    \<and> map upPriority chain = map (\<lambda>k. pri + int k) [0..<length chain] \<and> pri' = pri + int (length chain)
    \<and> (\<forall>up \<in> set chain. \<not> upOfficial up)"
    using assms
  proof (induction host seen pri cs arbitrary: chain seen' pri' rule: mirror_chain.induct)
    case (2 host seen pri c cs)
    show ?case
    proof (cases "cdUrl c \<in> seen")
      case True
      then show ?thesis using "2.IH"(1) "2.prems" by auto
    next
      case False
      obtain ch se pr where r: "mirror_chain host (insert (cdUrl c) seen) (pri + 1) cs = (ch, se, pr)" by (metis surj_pair)
      note ih = "2.IH"(2) [OF False r]
      have "map (\<lambda>k. pri + int k) [0..<Suc (length ch)] = pri # map (\<lambda>k. (pri + 1) + int k) [0..<length ch]"
        by (simp add: upt_conv_Cons map_Suc_upt [symmetric] del: upt_Suc)
      moreover obtain up where chain: "chain = up # ch" "seen' = se" "pri' = pr" "upBaseURL up = cdUrl c" "upPriority up = pri" "\<not> upOfficial up"
        using "2.prems" False r by auto
      moreover from ih have "upBaseURL ` set ch = cdUrl ` set cs - insert (cdUrl c) seen" by simp
      moreover from this have "insert (cdUrl c) (upBaseURL ` set ch) = cdUrl ` set (c # cs) - seen" "cdUrl c \<notin> upBaseURL ` set ch"
        using False by auto
      ultimately show ?thesis using ih by (simp del: upt_Suc)
    qed
  qed simp
  then show "seen' = seen \<union> cdUrl ` set cs" "set (map upBaseURL chain) = cdUrl ` set cs - seen" "distinct (map upBaseURL chain)"
    "map upPriority chain = map (\<lambda>k. pri + int k) [0..<length chain]" "pri' = pri + int (length chain)"
    "\<forall>up \<in> set chain. \<not> upOfficial up" by blast+
qed

lemma upstream_cands_urls:
  "cdUrl ` set (upstream_cands host origin k us) = clean_url ` ruBaseURL ` set us - {[], origin}"
  by (induction host origin k us rule: upstream_cands.induct) (auto simp: Let_def image_image)

definition spec_urls :: "RemoteRegistrySpec \<Rightarrow> string set" where
  "spec_urls s = clean_url ` insert (rsBaseURL s) (ruBaseURL ` set (rsUpstreams s)) - {[]}"

lemma spec_cands_urls: "cdUrl ` set (spec_cands host origin s) = spec_urls s - {origin}"
  by (auto simp: spec_cands_def spec_urls_def Let_def upstream_cands_urls)

text \<open>The origin is never a candidate, so it always closes the chain.\<close>

lemma remote_chain_shape:
  obtains mirrors where "remote_chain host s = mirrors @ [origin_upstream host (''https://'' @ host) (int (length mirrors) + 1)]"
    and "set (map upBaseURL mirrors) = spec_urls s - {''https://'' @ host}" and "distinct (map upBaseURL mirrors)"
    and "map upPriority mirrors = map (\<lambda>k. int k + 1) [0..<length mirrors]" and "\<forall>up \<in> set mirrors. \<not> upOfficial up"
proof -
  let ?o = "''https://'' @ host"
  obtain chain seen pri where m: "mirror_chain host {} 1 (sort_cands (spec_cands host ?o s)) = (chain, seen, pri)" by (metis surj_pair)
  note p = mirror_chain_props [OF m]
  have u: "cdUrl ` set (sort_cands (spec_cands host ?o s)) = spec_urls s - {?o}"
    by (simp add: sort_cands_def spec_cands_urls)
  show ?thesis
    using that [of chain] p u m by (auto simp: remote_chain_def Let_def add.commute)
qed

lemma remote_specs_fold:
  assumes "fold (\<lambda>s out. let host = ToLower (TrimSpace (rsHost s)) in if host = [] then out else out(host \<mapsto> remote_chain host s)) specs out0 h = Some chain"
    and "\<And>h c. out0 h = Some c \<Longrightarrow> P h c"
    and "\<And>s. s \<in> set specs \<Longrightarrow> ToLower (TrimSpace (rsHost s)) \<noteq> [] \<Longrightarrow> P (ToLower (TrimSpace (rsHost s))) (remote_chain (ToLower (TrimSpace (rsHost s))) s)"
  shows "P h chain"
  using assms
proof (induction specs arbitrary: out0)
  case (Cons s specs)
  let ?out = "let host = ToLower (TrimSpace (rsHost s)) in if host = [] then out0 else out0(host \<mapsto> remote_chain host s)"
  show ?case
    by (rule Cons.IH [of ?out]) (use Cons.prems in \<open>auto simp: Let_def split: if_splits\<close>)
qed simp

lemma remote_specs:
  assumes "RemoteRegistriesFromSpecs specs h = Some chain"
  obtains s where "s \<in> set specs" and "h = ToLower (TrimSpace (rsHost s))" and "chain = remote_chain h s" and "h \<noteq> []"
proof -
  have "\<exists>s \<in> set specs. h = ToLower (TrimSpace (rsHost s)) \<and> chain = remote_chain h s \<and> h \<noteq> []"
    using assms unfolding RemoteRegistriesFromSpecs_def
    by (rule remote_specs_fold [where P = "\<lambda>h chain. \<exists>s \<in> set specs. h = ToLower (TrimSpace (rsHost s)) \<and> chain = remote_chain h s \<and> h \<noteq> []"]) auto
  with that show ?thesis by blast
qed

section \<open>Properties\<close>

text \<open>The server asks only hosts the operator listed. With the allowlist built from the configuration,
  a name that resolves at all resolves either to the default chain, under its own name and only
  when its first segment does not look like a registry host, or to the chain of the listed host
  that is its first segment: the chain holds the mirrors configured for that host, each once and
  in order of priority, and ends with the host itself, the only one marked official; the host is
  stripped from the name.\<close>

theorem upstreams_stay_on_allowlist:
  assumes "upstreamForName (RemoteRegistriesFromSpecs specs) hub name = Some (ups, fetchName)"
  shows "ups = hub \<and> fetchName = name \<and> \<not> looksLikeRegistryHost name
     \<or> (\<exists>s \<in> set specs. \<exists>first mirrors.
          Trim name CHR ''/'' = first @ ''/'' @ fetchName \<and> ToLower first = ToLower (TrimSpace (rsHost s))
          \<and> ups = mirrors @ [origin_upstream (ToLower first) (''https://'' @ ToLower first) (int (length mirrors) + 1)]
          \<and> set (map upBaseURL mirrors) = spec_urls s - {''https://'' @ ToLower first} \<and> distinct (map upBaseURL ups)
          \<and> map upPriority ups = map (\<lambda>k. int k + 1) [0..<length ups] \<and> (\<forall>up \<in> set mirrors. \<not> upOfficial up))"
proof (cases "parseRemoteName name (RemoteRegistriesFromSpecs specs)")
  case None
  then show ?thesis using assms by (auto simp: upstreamForName_def split: if_splits)
next
  case (Some hr)
  obtain i chain where i: "IndexByte (Trim name CHR ''/'') CHR ''/'' = Some i" "fst hr = ToLower (take i (Trim name CHR ''/''))"
    "snd hr = drop (Suc i) (Trim name CHR ''/'')" "RemoteRegistriesFromSpecs specs (fst hr) = Some chain"
    using Some by (auto simp: parseRemoteName_def Let_def split: option.splits if_splits)
  have res: "ups = chain" "fetchName = snd hr" using assms Some i by (auto simp: upstreamForName_def split: prod.splits)
  obtain s where s: "s \<in> set specs" "fst hr = ToLower (TrimSpace (rsHost s))" "chain = remote_chain (fst hr) s"
    using i(4) by (rule remote_specs)
  obtain mirrors where m: "remote_chain (fst hr) s = mirrors @ [origin_upstream (fst hr) (''https://'' @ fst hr) (int (length mirrors) + 1)]"
    "set (map upBaseURL mirrors) = spec_urls s - {''https://'' @ fst hr}" "distinct (map upBaseURL mirrors)"
    "map upPriority mirrors = map (\<lambda>k. int k + 1) [0..<length mirrors]" "\<forall>up \<in> set mirrors. \<not> upOfficial up"
    by (rule remote_chain_shape)
  have "Trim name CHR ''/'' = take i (Trim name CHR ''/'') @ ''/'' @ fetchName"
    using IndexByte_Some_split [OF i(1)] i(3) res(2) by simp
  moreover have "distinct (map upBaseURL ups)" "map upPriority ups = map (\<lambda>k. int k + 1) [0..<length ups]"
    using m res s by (auto simp: origin_upstream_def)
  ultimately show ?thesis using s m res i(2) by (metis (no_types, lifting))
qed

definition k8s_spec :: RemoteRegistrySpec where
  "k8s_spec = \<lparr>rsHost = '' Registry.k8s.io'', rsBaseURL = [],
     rsUpstreams = [\<lparr>ruName = ''ddn'', ruBaseURL = ''https://swr.example/'', ruPriority = 0, ruPathPrefix = [], ruLayout = ''huawei-ddn''\<rparr>,
                   \<lparr>ruName = [], ruBaseURL = ''https://m.example'', ruPriority = 5, ruPathPrefix = [], ruLayout = []\<rparr>]\<rparr>"

theorem upstreams_stay_on_allowlist_witness:
  "\<exists>ups. upstreamForName (RemoteRegistriesFromSpecs [k8s_spec]) [] ''Registry.K8S.io/pause'' = Some (ups, ''pause'')
     \<and> map upBaseURL ups = [''https://m.example'', ''https://swr.example'', ''https://registry.k8s.io'']
     \<and> map upPriority ups = [1, 2, 3]"
proof -
  let ?r = "upstreamForName (RemoteRegistriesFromSpecs [k8s_spec]) [] ''Registry.K8S.io/pause''"
  have run: "map_option (\<lambda>(ups, n). (map upBaseURL ups, n)) ?r =
      Some ([''https://m.example'', ''https://swr.example'', ''https://registry.k8s.io''], ''pause'')" by code_simp
  then obtain ups where r: "?r = Some (ups, ''pause'')" and b: "map upBaseURL ups = [''https://m.example'', ''https://swr.example'', ''https://registry.k8s.io'']"
    by auto
  then have "length ups = 3" by (metis length_map length_Cons list.size(3) numeral_3_eq_3)
  moreover have "looksLikeRegistryHost ''Registry.K8S.io/pause''" by code_simp
  ultimately have "map upPriority ups = map (\<lambda>k. int k + 1) [0..<3]" using upstreams_stay_on_allowlist [OF r] by fastforce
  then have "map upPriority ups = [1, 2, 3]" by (simp add: numeral_3_eq_3)
  from r b this show ?thesis by (intro exI [of _ ups] conjI)
qed

end
