(* ===== verification/Oci.thy ===== *)
theory Oci
  imports Fill Coalesce OciRemote RegistryAuthz
begin

text \<open>
  The pull side of the registry API (\<^verbatim>\<open>internal/handler/oci\<close>: \<^verbatim>\<open>oci.go\<close>, \<^verbatim>\<open>hosted.go\<close>,
  \<^verbatim>\<open>sharedcas.go\<close>, \<^verbatim>\<open>manifest.go\<close>, \<^verbatim>\<open>blob.go\<close>): manifests and blobs out of the verified store,
  access to hosted repositories, reuse of blobs across names, and cold fills from the upstreams.

  The request is served by the leader of its flight and its client stays. While a cold fetch waits
  for the lock shared by replicas the others may change the cache: that is the parameter
  \<^verbatim>\<open>oeLock\<close>. A path of the quarantine directory is the directory, a slash and the name. Parameters:
  \<^verbatim>\<open>encoding/json\<close>, \<^verbatim>\<open>go-digest\<close>, and those of the components below.
\<close>

section \<open>State, requests, responses\<close>

record 'b oci_state =
  osCache :: cache_state
  osControl :: control
  osNet :: "'b fetch_world"

record 'b oci_env =
  oeCache :: cache_env
  oeQuarantine :: quarantine_env
  oeFetch :: "'b fetch_env"
  oeMeta :: bool
  oeClient :: "bool option"
  oeUpstreams :: "Upstream list"
  oeRemote :: "string \<rightharpoonup> Upstream list"
  oeTTL :: int
  oeDir :: string
  oeTempDir :: string
  oeHosted :: bool
  oeHostedAuthz :: bool
  oeOwned :: bool
  oeLock :: "(string \<Rightarrow> int \<Rightarrow> cache_state \<Rightarrow> (uerr + string) \<times> cache_state) option"
  oeManifest :: "bytes \<Rightarrow> (string \<times> bool \<times> bool) option"

record oci_request =
  oqMethod :: string
  oqPath :: string
  oqRange :: string
  oqClaims :: "AccessClaims option"

datatype oci_body = ONone | OErr string string | OBytes bytes

datatype cache_mark = Unmarked | Hit | Miss

record oci_response =
  opStatus :: int
  opHeaders :: "(string \<times> string) list"
  opBody :: oci_body
  opMark :: cache_mark

definition oci_reply :: "int \<Rightarrow> (string \<times> string) list \<Rightarrow> oci_body \<Rightarrow> oci_response" where
  "oci_reply code hs b = \<lparr>opStatus = code, opHeaders = hs, opBody = b, opMark = Unmarked\<rparr>"

definition writeOCIError :: "int \<Rightarrow> string \<Rightarrow> string \<Rightarrow> oci_response" where
  "writeOCIError status code message = oci_reply status [(''Content-Type'', ''application/json'')] (OErr code message)"

definition marked :: "cache_mark \<Rightarrow> oci_response \<Rightarrow> oci_response" where
  "marked m r = r\<lparr>opMark := m\<rparr>"

definition version_header :: "string \<times> string" where
  "version_header = (''Docker-Distribution-Api-Version'', ''registry/2.0'')"

definition is_read :: "oci_request \<Rightarrow> bool" where
  "is_read req \<longleftrightarrow> oqMethod req = ''GET'' \<or> oqMethod req = ''HEAD''"

definition on_cache :: "(cache_state \<Rightarrow> 'a \<times> cache_state) \<Rightarrow> 'b oci_state \<Rightarrow> 'a \<times> 'b oci_state" where
  "on_cache f s = (case f (osCache s) of (r, c) \<Rightarrow> (r, s\<lparr>osCache := c\<rparr>))"

definition oci_isDigestRef :: "'b oci_env \<Rightarrow> string \<Rightarrow> bool" where
  "oci_isDigestRef env ref = dg_valid (cvDigest (oeCache env)) ref"

definition isMutableExpired :: "MutableEntry \<Rightarrow> gotime \<Rightarrow> bool" where
  "isMutableExpired e now =
     (if meTTLSeconds e = ttlNeverRevalidate then False
      else if meTTLSeconds e = ttlAlwaysRevalidate then True
      else meFetchedAt e + ttl_duration (meTTLSeconds e) < now)"

definition oci_mutableKey :: "string \<Rightarrow> string \<Rightarrow> string" where
  "oci_mutableKey imageName tag = ''oci:'' @ imageName @ '':'' @ tag"

definition content_ref :: "string \<Rightarrow> string \<Rightarrow> ArtifactRef" where
  "content_ref name digest =
     \<lparr>rProtocol = ''oci'', rName = name, rVersion = digest, rDigest = digest, rUpstream = [], rMutable = False\<rparr>"

section \<open>Hosted repositories and owned namespaces\<close>

definition isHosted :: "'b oci_env \<Rightarrow> string \<Rightarrow> 'b oci_state \<Rightarrow> bool \<times> 'b oci_state" where
  "isHosted env name s =
     (if \<not> oeHosted env then (False, s)
      else
        case ResolveHosted (osControl s) name of
          (Inl _, db) \<Rightarrow> (False, s\<lparr>osControl := db\<rparr>)
        | (Inr b, db) \<Rightarrow> (b, s\<lparr>osControl := db\<rparr>))"

definition checkHostedRead :: "'b oci_env \<Rightarrow> AccessClaims option \<Rightarrow> string \<Rightarrow> 'b oci_state \<Rightarrow> authz_err option \<times> 'b oci_state" where
  "checkHostedRead env claims name s =
     (if \<not> oeHostedAuthz env then (None, s)
      else case AuthorizeRead (osControl s) claims name of (r, db) \<Rightarrow> (r, s\<lparr>osControl := db\<rparr>))"

definition isOwnedNamespace :: "'b oci_env \<Rightarrow> string \<Rightarrow> 'b oci_state \<Rightarrow> bool \<times> 'b oci_state" where
  "isOwnedNamespace env name s =
     (if \<not> oeOwned env then (False, s)
      else case IsOwnedNamespace (osControl s) name of (b, db) \<Rightarrow> (b, s\<lparr>osControl := db\<rparr>))"

text \<open>The gate both paths start with: whether the repository is hosted, or the refusal.\<close>

definition hosted_gate :: "'b oci_env \<Rightarrow> oci_request \<Rightarrow> string \<Rightarrow> 'b oci_state \<Rightarrow> (oci_response + bool) \<times> 'b oci_state" where
  "hosted_gate env req name s =
     (case isHosted env name s of
        (False, s1) \<Rightarrow> (Inr False, s1)
      | (True, s1) \<Rightarrow>
          (case checkHostedRead env (oqClaims req) name s1 of
             (None, s2) \<Rightarrow> (Inr True, s2)
           | (Some Unauthorized, s2) \<Rightarrow> (Inl (writeOCIError 401 ''UNAUTHORIZED'' ''authentication required''), s2)
           | (Some _, s2) \<Rightarrow> (Inl (writeOCIError 403 ''DENIED'' ''insufficient access''), s2)))"

section \<open>Blobs shared across names\<close>

definition shared_filter :: "string \<Rightarrow> EntryFilter" where
  "shared_filter digest = no_filter\<lparr>fDigest := digest, fOrigin := OriginCached\<rparr>"

definition shared_page :: Page where
  "shared_page = \<lparr>pLimit = 4, pOffset = 0, pSort = [], pDesc = False\<rparr>"

definition shareable :: "string \<Rightarrow> string \<Rightarrow> CacheEntry \<Rightarrow> bool" where
  "shareable imageName digest e \<longleftrightarrow>
     rName (ceRef e) \<noteq> imageName \<and> NormalizeOrigin (ceOrigin e) = OriginCached \<and> ceDigest e = digest"

definition findSharedBlob :: "'b oci_env \<Rightarrow> string \<Rightarrow> string \<Rightarrow> 'b oci_state \<Rightarrow> CacheEntry option \<times> 'b oci_state" where
  "findSharedBlob env imageName digest s =
     (if \<not> oeMeta env \<or> digest = [] then (None, s)
      else
        case on_cache (with_db (\<lambda>d. ListEntries d ''oci'' (shared_filter digest) shared_page)) s of
          (Inl _, s1) \<Rightarrow> (None, s1)
        | (Inr page, s1) \<Rightarrow> (find (shareable imageName digest) (map enEntry (epEntries page)), s1))"

definition adoptSharedBlob :: "'b oci_env \<Rightarrow> string \<Rightarrow> CacheEntry option \<Rightarrow> 'b oci_state \<Rightarrow> 'b oci_state" where
  "adoptSharedBlob env imageName src s =
     (case src of
        None \<Rightarrow> s
      | Some e \<Rightarrow>
          if \<not> oeMeta env then s
          else
            let adopted = e\<lparr>ceRef := content_ref imageName (ceDigest e), ceOrigin := OriginCached\<rparr> in
            snd (on_cache (with_db (\<lambda>d. Put d adopted)) s))"

definition sharedBlobEntryFor :: "'b oci_env \<Rightarrow> string \<Rightarrow> string \<Rightarrow> 'b oci_state \<Rightarrow> CacheEntry option \<times> 'b oci_state" where
  "sharedBlobEntryFor env imageName digest s =
     (case findSharedBlob env imageName digest s of
        (None, s1) \<Rightarrow> (None, s1)
      | (Some src, s1) \<Rightarrow>
          (Some (src\<lparr>ceRef := content_ref imageName digest\<rparr>), adoptSharedBlob env imageName (Some src) s1))"

section \<open>Cold fills\<close>

definition fetch_body ::
  "'b oci_env \<Rightarrow> bool \<Rightarrow> ArtifactRef \<Rightarrow> Upstream list \<Rightarrow> RequestOption list \<Rightarrow> 'b oci_state
   \<Rightarrow> (uerr + resumingReader option \<times> UpstreamMeta) \<times> 'b oci_state" where
  "fetch_body env offline ref ups options s =
     (case MaybeOffline offline (oeFetch env) ref ups options (osNet s) of (r, w) \<Rightarrow> (r, s\<lparr>osNet := w\<rparr>))"

text \<open>The quarantine file is filled; what the fill leaves of the network goes back into the state.\<close>

definition with_fill ::
  "(tmpfs \<Rightarrow> 'b fetch_world \<Rightarrow> (uerr + Artifact) \<times> tmpfs \<times> 'b fetch_world) \<Rightarrow> 'b oci_state \<Rightarrow> (uerr + Artifact) \<times> 'b oci_state" where
  "with_fill f s =
     (case f (c_tmp (osCache s)) (osNet s) of
        (r, st, w) \<Rightarrow> (r, s\<lparr>osCache := (osCache s)\<lparr>c_tmp := st\<rparr>, osNet := w\<rparr>))"

definition cleanup :: "Artifact \<Rightarrow> 'b oci_state \<Rightarrow> 'b oci_state" where
  "cleanup art s = s\<lparr>osCache := discard art (osCache s)\<rparr>"

definition cache_uerr :: "string \<Rightarrow> cache_err \<Rightarrow> uerr" where
  "cache_uerr pre e = plain (pre @ cache_err_Error e)"

definition store_filled ::
  "'b oci_env \<Rightarrow> string \<Rightarrow> ArtifactRef \<Rightarrow> Artifact \<Rightarrow> 'b oci_state \<Rightarrow> (uerr + CacheEntry) \<times> 'b oci_state" where
  "store_filled env pre ref art s =
     (case on_cache (\<lambda>c. Store (oeCache env) c ref art) s of
        (Inl e, s1) \<Rightarrow> (Inl (cache_uerr pre e), cleanup art s1)
      | (Inr entry, s1) \<Rightarrow> (Inr entry, s1))"

definition partial_path :: "'b oci_env \<Rightarrow> string \<Rightarrow> string" where
  "partial_path env digest = (case DurablePartialPath (oeTempDir env) (oeDir env) digest of (d, f) \<Rightarrow> d @ ''/'' @ f)"

definition blob_fetch_ref :: "string \<Rightarrow> string \<Rightarrow> ArtifactRef" where
  "blob_fetch_ref fetchName digest =
     \<lparr>rProtocol = ''oci'', rName = fetchName, rVersion = [], rDigest = digest, rUpstream = [], rMutable = False\<rparr>"

definition no_upstream :: "string \<Rightarrow> uerr" where
  "no_upstream imageName = plain (''no upstream for '' @ quote imageName)"

text \<open>A fetch that returns no body at all makes the deferred \<^verbatim>\<open>rc.Close()\<close> panic.\<close>

definition fetchAndStoreBlob :: "'b oci_env \<Rightarrow> bool \<Rightarrow> string \<Rightarrow> string \<Rightarrow> 'b oci_state \<Rightarrow> (uerr + CacheEntry) \<times> 'b oci_state" where
  "fetchAndStoreBlob env offline imageName digest s =
     (case upstreamForName (oeRemote env) (oeUpstreams env) imageName of
        None \<Rightarrow> (Inl (no_upstream imageName), s)
      | Some (ups, fetchName) \<Rightarrow>
          if ups = [] then (Inl (no_upstream imageName), s)
          else
            let path = partial_path env digest in
            (case on_cache (with_tmp (PartialSize path)) s of
               (offset, s1) \<Rightarrow>
                 (case fetch_body env offline (blob_fetch_ref fetchName digest) ups (if 0 < offset then [WithByteRange offset] else []) s1 of
                    (Inl e, s2) \<Rightarrow> (Inl (wrap ''upstream fetch blob: '' e), s2)
                  | (Inr (None, _), s2) \<Rightarrow> (Inl (plain nil_deref), s2)
                  | (Inr (Some rd, umeta), s2) \<Rightarrow>
                      (case with_fill (fill_partial (oeQuarantine env) (oeFetch env) ''quarantine blob: '' path rd umeta) s2 of
                         (Inl e, s3) \<Rightarrow> (Inl e, s3)
                       | (Inr art, s3) \<Rightarrow>
                           if aDigest art \<noteq> digest then
                             (Inl (plain (''blob digest mismatch: upstream served '' @ aDigest art @ '', requested '' @ digest)), cleanup art s3)
                           else store_filled env ''cache store blob: '' (content_ref imageName digest) art s3))))"

definition manifest_fetch_ref :: "string \<Rightarrow> string \<Rightarrow> ArtifactRef" where
  "manifest_fetch_ref fetchName reference =
     \<lparr>rProtocol = ''oci'', rName = fetchName, rVersion = reference, rDigest = [], rUpstream = [], rMutable = True\<rparr>"

definition tag_entry :: "'b oci_env \<Rightarrow> string \<Rightarrow> string \<Rightarrow> Artifact \<Rightarrow> UpstreamMeta \<Rightarrow> gotime \<Rightarrow> MutableEntry" where
  "tag_entry env imageName reference art umeta now =
     \<lparr>meKey = oci_mutableKey imageName reference, meProtocol = ''oci'', meDigest = aDigest art, mePayload = [],
      meETag = uETag umeta, meLastModified = uLastModified umeta, meTTLSeconds = oeTTL env, meUpstream = uUpstream umeta,
      meFetchedAt = now\<rparr>"

definition point_tag :: "'b oci_env \<Rightarrow> string \<Rightarrow> string \<Rightarrow> Artifact \<Rightarrow> UpstreamMeta \<Rightarrow> 'b oci_state \<Rightarrow> 'b oci_state" where
  "point_tag env imageName reference art umeta s =
     (if oeMeta env \<and> \<not> oci_isDigestRef env reference
      then snd (on_cache (with_db (\<lambda>d. PutMutable d (tag_entry env imageName reference art umeta (db_now d)))) s)
      else s)"

definition fetchAndStoreManifest :: "'b oci_env \<Rightarrow> bool \<Rightarrow> string \<Rightarrow> string \<Rightarrow> 'b oci_state \<Rightarrow> (uerr + string) \<times> 'b oci_state" where
  "fetchAndStoreManifest env offline imageName reference s =
     (case upstreamForName (oeRemote env) (oeUpstreams env) imageName of
        None \<Rightarrow> (Inl (no_upstream imageName), s)
      | Some (ups, fetchName) \<Rightarrow>
          if ups = [] then (Inl (no_upstream imageName), s)
          else
            (case fetch_body env offline (manifest_fetch_ref fetchName reference) ups [WithOCIManifestAccept] s of
               (Inl e, s1) \<Rightarrow> (Inl (wrap ''upstream fetch manifest: '' e), s1)
             | (Inr (None, _), s1) \<Rightarrow> (Inl (plain nil_deref), s1)
             | (Inr (Some rd, umeta), s1) \<Rightarrow>
                 (case with_fill (fill_temp (oeQuarantine env) (oeFetch env) ''quarantine manifest: '' (oeDir env) rd umeta) s1 of
                    (Inl e, s2) \<Rightarrow> (Inl e, s2)
                  | (Inr art, s2) \<Rightarrow>
                      (case store_filled env ''cache store manifest: '' (content_ref imageName (aDigest art)) art s2 of
                         (Inl e, s3) \<Rightarrow> (Inl e, s3)
                       | (Inr _, s3) \<Rightarrow> (Inr (aDigest art), point_tag env imageName reference art umeta s3)))))"

section \<open>Manifests\<close>

definition tag_ref :: "string \<Rightarrow> string \<Rightarrow> ArtifactRef" where
  "tag_ref imageName reference =
     \<lparr>rProtocol = ''oci'', rName = imageName, rVersion = reference, rDigest = [], rUpstream = [], rMutable = True\<rparr>"

definition lookup_tag :: "string \<Rightarrow> string \<Rightarrow> 'b oci_state \<Rightarrow> (uerr + string) \<times> 'b oci_state" where
  "lookup_tag imageName reference s =
     (case on_cache (\<lambda>c. Lookup c (tag_ref imageName reference)) s of
        (Inl e, s1) \<Rightarrow> (Inl (cache_uerr ''cache Lookup: '' e), s1)
      | (Inr None, s1) \<Rightarrow> (Inr [], s1)
      | (Inr (Some e), s1) \<Rightarrow> (Inr (ceDigest e), s1))"

text \<open>The digest a reference stands for, the empty string when it is not known.\<close>

definition resolveManifestDigest :: "'b oci_env \<Rightarrow> string \<Rightarrow> string \<Rightarrow> 'b oci_state \<Rightarrow> (uerr + string) \<times> 'b oci_state" where
  "resolveManifestDigest env imageName reference s =
     (if oci_isDigestRef env reference then (Inr reference, s)
      else if \<not> oeMeta env then lookup_tag imageName reference s
      else
        case on_cache (with_db (\<lambda>d. GetMutable d (oci_mutableKey imageName reference))) s of
          (Inl e, s1) \<Rightarrow> (Inl (plain (''meta GetMutable: '' @ e)), s1)
        | (Inr None, s1) \<Rightarrow> lookup_tag imageName reference s1
        | (Inr (Some me), s1) \<Rightarrow>
            if meDigest me \<noteq> [] \<and> \<not> isMutableExpired me (time_Now (osCache s1)) then (Inr (meDigest me), s1)
            else lookup_tag imageName reference s1)"

definition detectManifestMediaType :: "'b oci_env \<Rightarrow> bytes \<Rightarrow> string" where
  "detectManifestMediaType env data =
     (case oeManifest env data of
        Some (mediaType, manifests, layers) \<Rightarrow>
          if mediaType \<noteq> [] then mediaType
          else if manifests then ''application/vnd.oci.image.index.v1+json''
          else if layers then ''application/vnd.oci.image.manifest.v1+json''
          else ''application/vnd.docker.distribution.manifest.v2+json''
      | None \<Rightarrow> ''application/vnd.docker.distribution.manifest.v2+json'')"

definition manifest_reply :: "'b oci_env \<Rightarrow> oci_request \<Rightarrow> string \<Rightarrow> bytes \<Rightarrow> CacheEntry option \<Rightarrow> oci_response" where
  "manifest_reply env req digest data entry =
     (let size' = (case entry of Some e \<Rightarrow> if 0 < ceSize e then ceSize e else int (length data) | None \<Rightarrow> int (length data)) in
      oci_reply 200
        [(''Content-Type'', detectManifestMediaType env data), (''Docker-Content-Digest'', digest), version_header,
         (''Content-Length'', itoa size')]
        (if oqMethod req = ''GET'' then OBytes data else ONone))"

definition tryServeManifestFromCache ::
  "'b oci_env \<Rightarrow> oci_request \<Rightarrow> string \<Rightarrow> string \<Rightarrow> 'b oci_state \<Rightarrow> oci_response option \<times> 'b oci_state" where
  "tryServeManifestFromCache env req imageName digest s =
     (let ref = content_ref imageName digest in
      case on_cache (\<lambda>c. Serve c ref 0 (-1)) s of
        (Inr (data, entry), s1) \<Rightarrow> (Some (manifest_reply env req digest data entry), s1)
      | (Inl _, s1) \<Rightarrow>
          (case isHosted env imageName s1 of
             (True, s2) \<Rightarrow> (None, s2)
           | (False, s2) \<Rightarrow>
               (case isOwnedNamespace env imageName s2 of
                  (True, s3) \<Rightarrow> (None, s3)
                | (False, s3) \<Rightarrow>
                    (case sharedBlobEntryFor env imageName digest s3 of
                       (None, s4) \<Rightarrow> (None, s4)
                     | (Some _, s4) \<Rightarrow>
                         (case on_cache (\<lambda>c. Serve c ref 0 (-1)) s4 of
                            (Inl _, s5) \<Rightarrow> (None, s5)
                          | (Inr (data, entry), s5) \<Rightarrow> (Some (manifest_reply env req digest data entry), s5))))))"

definition lock_of :: "'b oci_env \<Rightarrow> (string \<Rightarrow> int \<Rightarrow> 'b oci_state \<Rightarrow> (uerr + string) \<times> 'b oci_state) option" where
  "lock_of env = map_option (\<lambda>acq key ttl. on_cache (acq key ttl)) (oeLock env)"

definition recheck_manifest :: "'b oci_env \<Rightarrow> string \<Rightarrow> string \<Rightarrow> 'b oci_state \<Rightarrow> (uerr + string option) \<times> 'b oci_state" where
  "recheck_manifest env imageName reference s =
     (case resolveManifestDigest env imageName reference s of
        (Inl e, s1) \<Rightarrow> (Inl e, s1)
      | (Inr d, s1) \<Rightarrow>
          if d = [] then (Inr None, s1)
          else
            (case on_cache (\<lambda>c. Lookup c ((content_ref imageName d)\<lparr>rVersion := []\<rparr>)) s1 of
               (Inl e, s2) \<Rightarrow> (Inl (cache_uerr [] e), s2)
             | (Inr None, s2) \<Rightarrow> (Inr None, s2)
             | (Inr (Some _), s2) \<Rightarrow> (Inr (Some d), s2)))"

definition manifest_unknown :: oci_response where
  "manifest_unknown = writeOCIError 404 ''MANIFEST_UNKNOWN'' ''manifest unknown''"

definition fetch_manifest :: "'b oci_env \<Rightarrow> oci_request \<Rightarrow> bool \<Rightarrow> string \<Rightarrow> string \<Rightarrow> 'b oci_state \<Rightarrow> oci_response \<times> 'b oci_state" where
  "fetch_manifest env req offline imageName reference s =
     (case FetchLocked (lock_of env) (\<lambda>_ _ s. s) (FetchKey ''oci'' (''manifest:'' @ imageName) reference []) 0
             (recheck_manifest env imageName reference) (fetchAndStoreManifest env offline imageName reference) s of
        (Inl e, s1) \<Rightarrow>
          ((if IsNotFound (Some e) then manifest_unknown else writeOCIError 502 ''MANIFEST_UNKNOWN'' ''upstream fetch failed''), s1)
      | (Inr newDigest, s1) \<Rightarrow>
          (case tryServeManifestFromCache env req imageName newDigest s1 of
             (Some r, s2) \<Rightarrow> (marked Miss r, s2)
           | (None, s2) \<Rightarrow> (marked Miss (writeOCIError 500 ''INTERNAL_ERROR'' ''manifest stored but not serveable''), s2)))"

definition may_fetch :: "'b oci_env \<Rightarrow> string \<Rightarrow> bool option" where
  "may_fetch env imageName =
     (case upstreamForName (oeRemote env) (oeUpstreams env) imageName of
        None \<Rightarrow> None
      | Some (ups, _) \<Rightarrow> if ups = [] then None else oeClient env)"

definition miss_manifest :: "'b oci_env \<Rightarrow> oci_request \<Rightarrow> bool \<Rightarrow> string \<Rightarrow> string \<Rightarrow> 'b oci_state \<Rightarrow> oci_response \<times> 'b oci_state" where
  "miss_manifest env req hostedRepo imageName reference s =
     (if hostedRepo then (manifest_unknown, s)
      else
        case isOwnedNamespace env imageName s of
          (True, s1) \<Rightarrow> (manifest_unknown, s1)
        | (False, s1) \<Rightarrow>
            (case may_fetch env imageName of
               None \<Rightarrow> (manifest_unknown, s1)
             | Some offline \<Rightarrow> fetch_manifest env req offline imageName reference s1))"

definition serveManifest :: "'b oci_env \<Rightarrow> oci_request \<Rightarrow> string \<Rightarrow> string \<Rightarrow> 'b oci_state \<Rightarrow> oci_response \<times> 'b oci_state" where
  "serveManifest env req imageName reference s =
     (if \<not> is_read req then (oci_reply 405 [] ONone, s)
      else
        case hosted_gate env req imageName s of
          (Inl r, s1) \<Rightarrow> (r, s1)
        | (Inr hostedRepo, s1) \<Rightarrow>
            (case resolveManifestDigest env imageName reference s1 of
               (Inl e, s2) \<Rightarrow> (writeOCIError 500 ''INTERNAL_ERROR'' ''failed to resolve manifest'', s2)
             | (Inr digest, s2) \<Rightarrow>
                 if digest = [] then miss_manifest env req hostedRepo imageName reference s2
                 else
                   (case tryServeManifestFromCache env req imageName digest s2 of
                      (Some r, s3) \<Rightarrow> (marked Hit r, s3)
                    | (None, s3) \<Rightarrow> miss_manifest env req hostedRepo imageName reference s3)))"

section \<open>Blobs\<close>

text \<open>Offset, length and whether the answer is partial.\<close>

definition parseRange :: "string \<Rightarrow> int \<Rightarrow> string + int \<times> int \<times> bool" where
  "parseRange rangeHeader size' =
     (if rangeHeader = [] then Inr (0, -1, False)
      else if \<not> HasPrefix rangeHeader ''bytes='' then Inl ''unsupported range unit''
      else
        let spec0 = TrimPrefix rangeHeader ''bytes='';
            spec = (case IndexByte spec0 CHR '','' of Some i \<Rightarrow> TrimSpace (take i spec0) | None \<Rightarrow> spec0)
        in
        case IndexByte spec CHR ''-'' of
          None \<Rightarrow> Inl ''invalid range format''
        | Some i \<Rightarrow>
            let p0 = take i spec; p1 = drop (Suc i) spec in
            case (if p0 = [] then Some 0 else ParseInt p0) of
              None \<Rightarrow> Inl ''invalid range start''
            | Some start \<Rightarrow>
                if start < 0 then Inl ''invalid range start''
                else
                  case (if p1 = [] then Some 0 else ParseInt p1) of
                    None \<Rightarrow> Inl ''invalid range end''
                  | Some end' \<Rightarrow>
                      if end' < 0 then Inl ''invalid range end''
                      else
                        let beyond = ''range start '' @ itoa start @ '' beyond object size '' @ itoa size' in
                        if p0 = [] \<and> p1 = [] then Inl ''empty range specifier''
                        else if p0 = [] then
                          (let e = (if end' > size' then size' else end') in Inr (size' - e, e, True))
                        else if p1 = [] then
                          (if start \<ge> size' then Inl beyond else Inr (start, size' - start, True))
                        else if start > end' then Inl ''range start > end''
                        else if start \<ge> size' then Inl beyond
                        else
                          (let e = (if end' \<ge> size' then size' - 1 else end') in Inr (start, e - start + 1, True)))"

definition blob_unknown :: oci_response where
  "blob_unknown = writeOCIError 404 ''BLOB_UNKNOWN'' ''blob unknown to registry''"

definition recheck_blob :: "ArtifactRef \<Rightarrow> 'b oci_state \<Rightarrow> (uerr + CacheEntry option) \<times> 'b oci_state" where
  "recheck_blob ref s =
     (case on_cache (\<lambda>c. Lookup c ref) s of
        (Inl e, s1) \<Rightarrow> (Inl (cache_uerr [] e), s1)
      | (Inr r, s1) \<Rightarrow> (Inr r, s1))"

definition blob_headers :: "string \<Rightarrow> (string \<times> string) list" where
  "blob_headers digest =
     [(''Content-Type'', ''application/octet-stream''), (''Docker-Content-Digest'', digest), version_header, (''Accept-Ranges'', ''bytes'')]"

definition serve_entry :: "oci_request \<Rightarrow> string \<Rightarrow> string \<Rightarrow> CacheEntry \<Rightarrow> 'b oci_state \<Rightarrow> oci_response \<times> 'b oci_state" where
  "serve_entry req imageName digest entry s =
     (let size' = ceSize entry; hs = blob_headers digest in
      if oqMethod req = ''HEAD'' then (oci_reply 200 (hs @ [(''Content-Length'', itoa size')]) ONone, s)
      else
        case parseRange (oqRange req) size' of
          Inl _ \<Rightarrow> (oci_reply 416 (hs @ [(''Content-Range'', ''bytes */'' @ itoa size')]) ONone, s)
        | Inr (offset, len, partial) \<Rightarrow>
            (case on_cache (\<lambda>c. Serve c (content_ref imageName digest) offset len) s of
               (Inl _, s1) \<Rightarrow> (blob_unknown\<lparr>opHeaders := filter (\<lambda>h. fst h \<noteq> ''Content-Type'') hs @ opHeaders blob_unknown\<rparr>, s1)
             | (Inr (data, _), s1) \<Rightarrow>
                 if partial then
                   (oci_reply 206
                      (hs @ [(''Content-Range'', ''bytes '' @ itoa offset @ ''-'' @ itoa (offset + len - 1) @ ''/'' @ itoa size'),
                             (''Content-Length'', itoa len)]) (OBytes data), s1)
                 else (oci_reply 200 (hs @ [(''Content-Length'', itoa size')]) (OBytes data), s1)))"

definition fetch_blob :: "'b oci_env \<Rightarrow> oci_request \<Rightarrow> bool \<Rightarrow> string \<Rightarrow> string \<Rightarrow> 'b oci_state \<Rightarrow> oci_response \<times> 'b oci_state" where
  "fetch_blob env req offline imageName digest s =
     (case FetchLocked (lock_of env) (\<lambda>_ _ s. s) (FetchKey ''oci'' (''blob:'' @ imageName) digest []) DefaultFillTimeout
             (recheck_blob (content_ref imageName digest)) (fetchAndStoreBlob env offline imageName digest) s of
        (Inl e, s1) \<Rightarrow>
          ((if IsNotFound (Some e) then blob_unknown else writeOCIError 502 ''BLOB_UNKNOWN'' ''upstream fetch failed''), s1)
      | (Inr entry, s1) \<Rightarrow> (case serve_entry req imageName digest entry s1 of (r, s2) \<Rightarrow> (marked Miss r, s2)))"

definition miss_blob :: "'b oci_env \<Rightarrow> oci_request \<Rightarrow> bool \<Rightarrow> string \<Rightarrow> string \<Rightarrow> 'b oci_state \<Rightarrow> oci_response \<times> 'b oci_state" where
  "miss_blob env req hostedRepo imageName digest s =
     (if hostedRepo then (blob_unknown, s)
      else
        case isOwnedNamespace env imageName s of
          (True, s1) \<Rightarrow> (blob_unknown, s1)
        | (False, s1) \<Rightarrow>
            (case may_fetch env imageName of
               None \<Rightarrow> (blob_unknown, s1)
             | Some offline \<Rightarrow> fetch_blob env req offline imageName digest s1))"

text \<open>The second chance: the same digest under another name, for names that are not local.\<close>

definition second_chance ::
  "'b oci_env \<Rightarrow> bool \<Rightarrow> string \<Rightarrow> string \<Rightarrow> 'b oci_state \<Rightarrow> CacheEntry option \<times> 'b oci_state" where
  "second_chance env hostedRepo imageName digest s =
     (if hostedRepo then (None, s)
      else
        case isOwnedNamespace env imageName s of
          (True, s1) \<Rightarrow> (None, s1)
        | (False, s1) \<Rightarrow> sharedBlobEntryFor env imageName digest s1)"

definition serveBlob :: "'b oci_env \<Rightarrow> oci_request \<Rightarrow> string \<Rightarrow> string \<Rightarrow> 'b oci_state \<Rightarrow> oci_response \<times> 'b oci_state" where
  "serveBlob env req imageName digest s =
     (if \<not> is_read req then (oci_reply 405 [] ONone, s)
      else if \<not> oci_isDigestRef env digest then (writeOCIError 400 ''DIGEST_INVALID'' ''invalid digest format'', s)
      else
        case hosted_gate env req imageName s of
          (Inl r, s1) \<Rightarrow> (r, s1)
        | (Inr hostedRepo, s1) \<Rightarrow>
            (case on_cache (\<lambda>c. Lookup c (content_ref imageName digest)) s1 of
               (Inl e, s2) \<Rightarrow> (writeOCIError 500 ''INTERNAL_ERROR'' ''cache lookup failed'', s2)
             | (Inr (Some entry), s2) \<Rightarrow>
                 (case serve_entry req imageName digest entry s2 of (r, s3) \<Rightarrow> (marked Hit r, s3))
             | (Inr None, s2) \<Rightarrow>
                 (case second_chance env hostedRepo imageName digest s2 of
                    (Some entry, s3) \<Rightarrow> (case serve_entry req imageName digest entry s3 of (r, s4) \<Rightarrow> (marked Hit r, s4))
                  | (None, s3) \<Rightarrow> miss_blob env req hostedRepo imageName digest s3)))"

section \<open>Routing\<close>

definition oci_ServeHTTP :: "'b oci_env \<Rightarrow> oci_request \<Rightarrow> 'b oci_state \<Rightarrow> oci_response \<times> 'b oci_state" where
  "oci_ServeHTTP env req s =
     (let path = oqPath req; rest = TrimPrefix path ''/v2/'' in
      if path = ''/v2/'' \<or> path = ''/v2'' then
        (if is_read req
         then (oci_reply 200 [(''Content-Type'', ''application/json''), version_header]
                 (if oqMethod req = ''GET'' then OBytes ''{}'' else ONone), s)
         else (oci_reply 405 [] ONone, s))
      else if \<not> HasPrefix path ''/v2/'' then (writeOCIError 404 ''NAME_UNKNOWN'' ''repository not known'', s)
      else
        case LastIndex rest ''/manifests/'' of
          Some i \<Rightarrow>
            (let imgName = take i rest; ref = drop (i + 11) rest in
             if imgName = [] \<or> ref = [] then (writeOCIError 400 ''NAME_INVALID'' ''invalid name or reference'', s)
             else serveManifest env req imgName ref s)
        | None \<Rightarrow>
        case LastIndex rest ''/blobs/'' of
          Some i \<Rightarrow>
            (let imgName = take i rest; digest = drop (i + 7) rest in
             if imgName = [] \<or> digest = [] then (writeOCIError 400 ''DIGEST_INVALID'' ''invalid name or digest'', s)
             else serveBlob env req imgName digest s)
        | None \<Rightarrow> (writeOCIError 404 ''NAME_UNKNOWN'' ''repository not known'', s))"

end
