(* ===== verification/OciProps.thy ===== *)
theory OciProps
  imports Oci
begin

text \<open>
  What the pull side of the registry guarantees: content of private repositories stays private,
  local names are never asked of an upstream, the stores keep their invariant, the bytes of a
  digest are what is served under it, and a cold pull ends with the content.
\<close>

section \<open>Frames\<close>

lemma on_cache_frame [simp]:
  "osNet (snd (on_cache f s)) = osNet s" "osControl (snd (on_cache f s)) = osControl s"
  "osCache (snd (on_cache f s)) = snd (f (osCache s))" "fst (on_cache f s) = fst (f (osCache s))"
  by (simp_all add: on_cache_def split: prod.splits)

lemma on_cache_eq: "on_cache f s = (r, s') \<longleftrightarrow> (\<exists>c. f (osCache s) = (r, c) \<and> s' = s\<lparr>osCache := c\<rparr>)"
  by (auto simp: on_cache_def split: prod.splits)

text \<open>The gate and the name checks read the control database and touch nothing else.\<close>

definition control_only :: "'b oci_state \<Rightarrow> 'b oci_state \<Rightarrow> bool" where
  "control_only s s' \<longleftrightarrow> (\<exists>db. same_tables (osControl s) db \<and> s' = s\<lparr>osControl := db\<rparr>)"

lemma control_only_refl [simp]: "control_only s s"
  by (auto simp: control_only_def intro: exI [of _ "osControl s"])

lemma control_onlyD:
  assumes "control_only s s'"
  shows "osNet s' = osNet s" "osCache s' = osCache s" "same_tables (osControl s) (osControl s')"
  using assms by (auto simp: control_only_def)

lemma ResolveHosted_same_tables: "ResolveHosted db n = (r, db') \<Longrightarrow> same_tables db db'"
  by (auto simp: ResolveHosted_def split: prod.splits option.splits sum.splits store_err.splits
      dest!: resolveOrgID_same_tables GetRepo_same_tables intro: same_tables_trans)

lemma AuthorizeRead_same_tables: "AuthorizeRead db c n = (r, db') \<Longrightarrow> same_tables db db'"
  by (auto simp: AuthorizeRead_def Let_def split: if_splits prod.splits option.splits sum.splits
      dest!: resolveOrgID_same_tables GetRepo_same_tables intro: same_tables_trans)

lemma isHosted_frame: "isHosted env n s = (b, s') \<Longrightarrow> control_only s s'"
  by (auto simp: isHosted_def control_only_def split: if_splits prod.splits sum.splits dest!: ResolveHosted_same_tables
      intro: exI [of _ "osControl s"])

lemma checkHostedRead_frame: "checkHostedRead env c n s = (r, s') \<Longrightarrow> control_only s s'"
  by (auto simp: checkHostedRead_def control_only_def split: if_splits prod.splits dest!: AuthorizeRead_same_tables
      intro: exI [of _ "osControl s"])

lemma isOwnedNamespace_frame: "isOwnedNamespace env n s = (b, s') \<Longrightarrow> control_only s s'"
  by (auto simp: isOwnedNamespace_def IsOwnedNamespace_def control_only_def split: if_splits prod.splits
      dest!: resolveOrgID_same_tables intro: exI [of _ "osControl s"])

lemma control_only_trans: "control_only a b \<Longrightarrow> control_only b c \<Longrightarrow> control_only a c"
  unfolding control_only_def by (metis (no_types, lifting) oci_state.select_convs(2) oci_state.surjective oci_state.update_convs(2) same_tables_trans)

lemma hosted_gate_frame: "hosted_gate env req n s = (r, s') \<Longrightarrow> control_only s s'"
  by (auto simp: hosted_gate_def split: prod.splits bool.splits option.splits authz_err.splits
      dest!: isHosted_frame checkHostedRead_frame intro: control_only_trans)

section \<open>Local names\<close>

text \<open>An organization owns the name space of the name.\<close>

definition owned_name :: "control \<Rightarrow> string \<Rightarrow> bool" where
  "owned_name db name \<longleftrightarrow> ctl_healthy db \<and> fst (resolveOrgID db (namespaceOf name)) \<noteq> None"

lemma owned_name_tables: "same_tables db db' \<Longrightarrow> owned_name db' name = owned_name db name"
  using resolveOrgID_healthy [of db db' "namespaceOf name"] same_tablesD(1,11) [of db db'] unfolding owned_name_def by metis

lemma owned_isOwnedNamespace:
  assumes "oeOwned env" and "owned_name (osControl s) name"
  shows "\<exists>s'. isOwnedNamespace env name s = (True, s') \<and> osNet s' = osNet s \<and> owned_name (osControl s') name"
proof -
  obtain b s' where o: "isOwnedNamespace env name s = (b, s')" by fastforce
  have "b" using o assms by (auto simp: isOwnedNamespace_def IsOwnedNamespace_def owned_name_def split: prod.splits)
  with o isOwnedNamespace_frame [OF o] assms(2) show ?thesis
    using owned_name_tables by (fastforce simp: control_only_def)
qed

lemma lookup_tag_frame: "lookup_tag n t s = (r, s') \<Longrightarrow> osNet s' = osNet s \<and> osControl s' = osControl s \<and> same_data (osCache s) (osCache s')"
  using same_data_Lookup [of "osCache s" "tag_ref n t"]
  by (auto simp: lookup_tag_def on_cache_eq split: prod.splits sum.splits option.splits)

lemma resolveManifestDigest_frame:
  assumes "resolveManifestDigest env n t s = (r, s')"
  shows "osNet s' = osNet s \<and> osControl s' = osControl s \<and> same_data (osCache s) (osCache s')"
proof -
  obtain g s1 where g: "on_cache (with_db (\<lambda>d. GetMutable d (oci_mutableKey n t))) s = (g, s1)" by fastforce
  have s1: "osNet s1 = osNet s" "osControl s1 = osControl s" "same_data (osCache s) (osCache s1)"
    using g same_data_GetMutable [of "osCache s" "oci_mutableKey n t"] by (auto simp: on_cache_eq with_db_def split: prod.splits)
  show ?thesis
    using assms g s1 lookup_tag_frame [of n t s r s'] lookup_tag_frame [of n t s1 r s']
    by (auto simp: resolveManifestDigest_def split: if_splits sum.splits option.splits intro: same_data_trans)
qed

lemma tryServe_owned:
  assumes "oeOwned env" and "owned_name (osControl s) n" and "tryServeManifestFromCache env req n d s = (r, s')"
  shows "osNet s' = osNet s \<and> owned_name (osControl s') n"
proof -
  obtain q s1 where q: "on_cache (\<lambda>c. Serve c (content_ref n d) 0 (-1)) s = (q, s1)" by fastforce
  have s1: "osNet s1 = osNet s" "osControl s1 = osControl s" using q by (auto simp: on_cache_eq)
  show ?thesis
  proof (cases q)
    case (Inr x)
    then show ?thesis using assms q s1 by (auto simp: tryServeManifestFromCache_def split: prod.splits)
  next
    case (Inl e)
    obtain b s2 where h: "isHosted env n s1 = (b, s2)" by fastforce
    have s2: "osNet s2 = osNet s" "owned_name (osControl s2) n"
      using control_onlyD [OF isHosted_frame [OF h]] s1 assms(2) owned_name_tables by auto
    obtain s3 where "isOwnedNamespace env n s2 = (True, s3)" "osNet s3 = osNet s2" "owned_name (osControl s3) n"
      using owned_isOwnedNamespace [OF assms(1) s2(2)] by blast
    then show ?thesis
      using assms(3) q Inl h s2 by (auto simp: tryServeManifestFromCache_def split: bool.splits)
  qed
qed

lemma miss_manifest_owned:
  assumes "oeOwned env" and "owned_name (osControl s) n"
  shows "osNet (snd (miss_manifest env req h n t s)) = osNet s \<and> fst (miss_manifest env req h n t s) = manifest_unknown"
  using owned_isOwnedNamespace [OF assms] by (auto simp: miss_manifest_def)

lemma serveManifest_owned:
  assumes "oeOwned env" and "owned_name (osControl s) n"
  shows "osNet (snd (serveManifest env req n t s)) = osNet s"
proof -
  obtain g s1 where g: "hosted_gate env req n s = (g, s1)" by fastforce
  have s1: "osNet s1 = osNet s" "owned_name (osControl s1) n"
    using control_onlyD [OF hosted_gate_frame [OF g]] assms(2) owned_name_tables by auto
  obtain q s2 where q: "resolveManifestDigest env n t s1 = (q, s2)" by fastforce
  have s2: "osNet s2 = osNet s" "owned_name (osControl s2) n"
    using resolveManifestDigest_frame [OF q] s1 by auto
  have "osNet s3 = osNet s \<and> owned_name (osControl s3) n" if "tryServeManifestFromCache env req n d s2 = (r, s3)" for d r s3
    using tryServe_owned [OF assms(1) s2(2) that] s2 by simp
  then show ?thesis
    using g q s1 s2 miss_manifest_owned [OF assms(1)]
    by (auto simp: serveManifest_def split: sum.splits option.splits prod.splits)
qed

lemma serve_entry_net: "osNet (snd (serve_entry req n d e s)) = osNet s"
  by (auto simp: serve_entry_def Let_def on_cache_eq split: sum.splits prod.splits)

lemma serveBlob_owned:
  assumes "oeOwned env" and "owned_name (osControl s) n"
  shows "osNet (snd (serveBlob env req n d s)) = osNet s"
proof -
  obtain g s1 where g: "hosted_gate env req n s = (g, s1)" by fastforce
  have s1: "osNet s1 = osNet s" "owned_name (osControl s1) n"
    using control_onlyD [OF hosted_gate_frame [OF g]] assms(2) owned_name_tables by auto
  obtain q s2 where q: "on_cache (\<lambda>c. Lookup c (content_ref n d)) s1 = (q, s2)" by fastforce
  have s2: "osNet s2 = osNet s" "owned_name (osControl s2) n" using q s1 by (auto simp: on_cache_eq)
  have e: "osNet (snd (case serve_entry req n d e s2 of (r, s3) \<Rightarrow> (marked Hit r, s3))) = osNet s" for e
    using serve_entry_net [of req n d e s2] s2 by (cases "serve_entry req n d e s2") simp
  have c: "\<exists>s3. second_chance env h n d s2 = (None, s3) \<and> osNet s3 = osNet s \<and> owned_name (osControl s3) n" for h
    using owned_isOwnedNamespace [OF assms(1) s2(2)] s2 by (auto simp: second_chance_def)
  have m: "osNet (snd (miss_blob env req h n d s3)) = osNet s" if "osNet s3 = osNet s" "owned_name (osControl s3) n" for h s3
    using owned_isOwnedNamespace [OF assms(1) that(2)] that(1) by (auto simp: miss_blob_def)
  show ?thesis
  proof (cases g)
    case (Inr h)
    obtain s3 where "second_chance env h n d s2 = (None, s3)" "osNet s3 = osNet s" "owned_name (osControl s3) n" using c by blast
    then show ?thesis using g q s2 e m Inr by (auto simp: serveBlob_def split: sum.splits option.splits)
  qed (use g s1 in \<open>auto simp: serveBlob_def\<close>)
qed

section \<open>Private repositories\<close>

text \<open>A repository that is not public, and a caller whose token does not cover it.\<close>

definition closed_to :: "control \<Rightarrow> string \<Rightarrow> AccessClaims option \<Rightarrow> bool" where
  "closed_to db name claims \<longleftrightarrow>
     ctl_healthy db
     \<and> (\<exists>org repo. fst (resolveOrgID db (namespaceOf name)) = Some org \<and> find_repo (t_repos db) org (TrimSpace name) = Some repo
          \<and> NormalizeVisibility (rpVisibility repo) \<noteq> VisibilityPublic)
     \<and> \<not> (case claims of Some c \<Rightarrow> claims_Allows c name ActionPull | None \<Rightarrow> False)"

definition refusal :: "AccessClaims option \<Rightarrow> oci_response" where
  "refusal claims =
     (case claims of
        None \<Rightarrow> writeOCIError 401 ''UNAUTHORIZED'' ''authentication required''
      | Some _ \<Rightarrow> writeOCIError 403 ''DENIED'' ''insufficient access'')"

lemma GetRepo_healthy: "ctl_healthy db \<Longrightarrow> fst (GetRepo db org name) = row_option (find_repo (t_repos db) org (TrimSpace name))"
  by (simp add: GetRepo_def)

lemma closed_to_tables: "same_tables db db' \<Longrightarrow> closed_to db name c \<Longrightarrow> closed_to db' name c"
  using resolveOrgID_healthy [of db db' "namespaceOf name"] same_tablesD(1,4,11) [of db db'] unfolding closed_to_def by metis

lemma closed_ResolveHosted:
  assumes "closed_to db name claims"
  shows "fst (ResolveHosted db name) = Inr True"
proof -
  obtain org repo db1 where r: "resolveOrgID db (namespaceOf name) = (Some org, db1)" "find_repo (t_repos db) org (TrimSpace name) = Some repo"
    using assms by (auto simp: closed_to_def) (metis prod.collapse)
  have "ctl_healthy db1" "t_repos db1 = t_repos db"
    using resolveOrgID_same_tables [OF r(1)] assms by (auto simp: closed_to_def same_tablesD)
  then have "fst (GetRepo db1 org name) = Inr repo" using r(2) by (simp add: GetRepo_healthy)
  then show ?thesis using r by (cases "GetRepo db1 org name") (auto simp: ResolveHosted_def)
qed

lemma closed_AuthorizeRead:
  assumes "closed_to db name claims"
  shows "fst (AuthorizeRead db claims name) = (case claims of None \<Rightarrow> Some Unauthorized | Some _ \<Rightarrow> Some (AclErr ErrForbidden))"
proof -
  obtain org repo db1 where r: "resolveOrgID db (namespaceOf name) = (Some org, db1)" "find_repo (t_repos db) org (TrimSpace name) = Some repo"
    "NormalizeVisibility (rpVisibility repo) \<noteq> VisibilityPublic"
    using assms by (auto simp: closed_to_def) (metis prod.collapse)
  have "ctl_healthy db1" "t_repos db1 = t_repos db"
    using resolveOrgID_same_tables [OF r(1)] assms by (auto simp: closed_to_def same_tablesD)
  then have "fst (GetRepo db1 org name) = Inr repo" using r(2) by (simp add: GetRepo_healthy)
  then obtain db2 where "GetRepo db1 org name = (Inr repo, db2)" by (metis prod.collapse)
  then show ?thesis using r assms by (simp add: AuthorizeRead_def closed_to_def Let_def)
qed

lemma closed_gate:
  assumes "oeHosted env" and "oeHostedAuthz env" and "closed_to (osControl s) name (oqClaims req)"
  shows "\<exists>db. hosted_gate env req name s = (Inl (refusal (oqClaims req)), s\<lparr>osControl := db\<rparr>)"
proof -
  obtain db1 where h: "ResolveHosted (osControl s) name = (Inr True, db1)"
    using closed_ResolveHosted [OF assms(3)] by (metis prod.collapse)
  have "closed_to db1 name (oqClaims req)" using closed_to_tables [OF ResolveHosted_same_tables [OF h] assms(3)] .
  from closed_AuthorizeRead [OF this] obtain db2 where
    "AuthorizeRead db1 (oqClaims req) name = (case oqClaims req of None \<Rightarrow> Some Unauthorized | Some _ \<Rightarrow> Some (AclErr ErrForbidden), db2)"
    by (metis prod.collapse)
  then have "hosted_gate env req name s = (Inl (refusal (oqClaims req)), s\<lparr>osControl := db2\<rparr>)"
    using h assms(1,2) by (simp add: hosted_gate_def isHosted_def checkHostedRead_def refusal_def split: option.splits)
  then show ?thesis by blast
qed

section \<open>The stores stay sound\<close>

abbreviation oe_dg :: "'b oci_env \<Rightarrow> digest_lib" where "oe_dg env \<equiv> cvDigest (oeCache env)"

definition oci_inv :: "'b oci_env \<Rightarrow> 'b oci_state \<Rightarrow> bool" where
  "oci_inv env s \<longleftrightarrow> cache_inv (oe_dg env) (osCache s)"

text \<open>What other replicas do while this one waits for the lock keeps the stores sound too.\<close>

definition lock_sound :: "'b oci_env \<Rightarrow> bool" where
  "lock_sound env \<longleftrightarrow>
     (\<forall>acq key ttl c. oeLock env = Some acq \<longrightarrow> cache_inv (oe_dg env) c \<longrightarrow> cache_inv (oe_dg env) (snd (acq key ttl c)))"

lemma control_only_inv: "control_only s s' \<Longrightarrow> oci_inv env s \<Longrightarrow> oci_inv env s'"
  using control_onlyD(2) by (fastforce simp: oci_inv_def)

lemma Lookup_inv: "on_cache (\<lambda>c. Lookup c ref) s = (r, s') \<Longrightarrow> oci_inv env s \<Longrightarrow> oci_inv env s'"
  using cache_inv_same_data [OF same_data_Lookup [of "osCache s" ref]] by (auto simp: oci_inv_def on_cache_eq)

lemma Serve_same_data: "Serve c ref off len = (r, c') \<Longrightarrow> same_data c c'"
  using reading_keeps_data [of c ref off len] by simp

lemma Serve_inv: "on_cache (\<lambda>c. Serve c ref off len) s = (r, s') \<Longrightarrow> oci_inv env s \<Longrightarrow> oci_inv env s'"
  using cache_inv_same_data [OF Serve_same_data] by (fastforce simp: oci_inv_def on_cache_eq)

lemma resolve_inv: "resolveManifestDigest env n t s = (r, s') \<Longrightarrow> oci_inv env s \<Longrightarrow> oci_inv env s'"
  using resolveManifestDigest_frame cache_inv_same_data unfolding oci_inv_def by blast

lemma inv_stores:
  "rows_of (osCache s') = rows_of (osCache s) \<Longrightarrow> c_disk (osCache s') = c_disk (osCache s) \<Longrightarrow> oci_inv env s \<Longrightarrow> oci_inv env s'"
  using cache_inv_cong [of "osCache s'" "osCache s"] by (simp add: oci_inv_def)

text \<open>A row found for sharing is a row of the store, so the adopted row has its blob.\<close>

lemma findSharedBlob_row:
  assumes "findSharedBlob env n d s = (r, s')"
  shows "rows_of (osCache s') = rows_of (osCache s) \<and> c_disk (osCache s') = c_disk (osCache s) \<and> osNet s' = osNet s \<and> osControl s' = osControl s
    \<and> (\<forall>e. r = Some e \<longrightarrow> (\<exists>x \<in> set (rows_of (osCache s)). r_digest x = ceDigest e) \<and> shareable n d e)"
proof (cases "\<not> oeMeta env \<or> d = []")
  case True
  then show ?thesis using assms by (auto simp: findSharedBlob_def)
next
  case False
  have rows: "set (list_rows rows p f pg) \<subseteq> set rows" for rows p f pg
    by (auto simp: list_rows_def dest!: in_set_takeD in_set_dropD)
  have dig: "ceDigest (enEntry (row_Entry x)) = r_digest x" for x by (simp add: row_Entry_def row_CacheEntry_def Let_def)
  show ?thesis
    using assms False rows dig
    by (fastforce simp: findSharedBlob_def on_cache_eq ListEntries_def db_io_def Let_def split: sum.splits option.splits prod.splits
        dest!: find_SomeD)
qed

lemma adopted_inv:
  assumes "oci_inv env s" and "x \<in> set (rows_of (osCache s))" and "r_digest x = ceDigest e"
  shows "oci_inv env (adoptSharedBlob env n (Some e) s)"
proof -
  let ?e = "e\<lparr>ceRef := content_ref n (ceDigest e), ceOrigin := OriginCached\<rparr>"
  let ?d = "c_db (osCache s)"
  have backed: "row_backed (c_disk (osCache s)) y" if "y \<in> set (rows_of (osCache s))" for y
    using assms(1) that by (simp add: oci_inv_def cache_inv_def)
  have "r_digest y = ceDigest e \<or> y \<in> set (rows_of (osCache s))" if "y \<in> set (cache_entries (snd (Put ?d ?e)))" for y
    using that set_put_row [of y "entry_row (db_now ?d) ?e" "rows_of (osCache s)"]
    by (auto simp: Put_def db_io_def merge_row_def entry_row_def split: option.splits)
  then have "row_backed (c_disk (osCache s)) y" if "y \<in> set (cache_entries (snd (Put ?d ?e)))" for y
    using backed [OF assms(2)] backed that assms(3) by (metis row_backed_def)
  moreover have "db_inv (snd (Put ?d ?e))" using assms(1) db_inv_Put by (simp add: oci_inv_def cache_inv_def)
  ultimately show ?thesis
    using assms(1) by (auto simp: adoptSharedBlob_def oci_inv_def cache_inv_def with_db_def split: prod.splits)
qed

lemma sharedBlobEntryFor_inv:
  assumes "sharedBlobEntryFor env n d s = (r, s')" and "oci_inv env s"
  shows "oci_inv env s' \<and> osNet s' = osNet s \<and> osControl s' = osControl s"
proof -
  obtain q s1 where q: "findSharedBlob env n d s = (q, s1)" by fastforce
  note f = findSharedBlob_row [OF q]
  have i: "oci_inv env s1" by (rule inv_stores) (use f assms(2) in auto)
  show ?thesis
  proof (cases q)
    case (Some e)
    then obtain x where "x \<in> set (rows_of (osCache s1))" "r_digest x = ceDigest e" using f by auto
    from adopted_inv [OF i this] Some q assms(1) f show ?thesis
      by (auto simp: sharedBlobEntryFor_def adoptSharedBlob_def)
  qed (use q assms(1) i f in \<open>auto simp: sharedBlobEntryFor_def\<close>)
qed

lemma fill_inv: "with_fill f s = (r, s') \<Longrightarrow> oci_inv env s \<Longrightarrow> oci_inv env s'"
  by (rule inv_stores) (auto simp: with_fill_def split: prod.splits)

lemma store_filled_inv:
  assumes "store_filled env pre ref art s = (r, s')" and "oci_inv env s" and "chain_frames (oeCache env)" and "HasPrefix (aDigest art) ''sha256:''"
  shows "oci_inv env s'"
proof -
  obtain q c where q: "Store (oeCache env) (osCache s) ref art = (q, c)" by fastforce
  have "cache_inv (oe_dg env) c"
    using storeOnce_inv [OF assms(2) [unfolded oci_inv_def] assms(3,4), of ref] q by (simp add: Store_storeOnce)
  then have "oci_inv env (s\<lparr>osCache := c\<rparr>)" by (simp add: oci_inv_def)
  then show ?thesis
    using assms(1) q cache_inv_cong [of "discard art c" c]
    by (auto simp: store_filled_def on_cache_def cleanup_def oci_inv_def split: sum.splits)
qed

lemma fetch_body_inv: "fetch_body env offline ref ups opts s = (r, s') \<Longrightarrow> oci_inv env s \<Longrightarrow> oci_inv env s'"
  by (rule inv_stores) (auto simp: fetch_body_def split: prod.splits)

lemma PartialSize_inv: "on_cache (with_tmp f) s = (r, s') \<Longrightarrow> oci_inv env s \<Longrightarrow> oci_inv env s'"
  by (rule inv_stores) (auto simp: on_cache_eq)

lemma cleanup_inv: "oci_inv env s \<Longrightarrow> oci_inv env (cleanup art s)"
  by (rule inv_stores) (auto simp: cleanup_def)

lemma fetchAndStoreBlob_inv:
  assumes "fetchAndStoreBlob env offline n d s = (r, s')" and "oci_inv env s" and "chain_frames (oeCache env)"
  shows "oci_inv env s'"
proof -
  let ?path = "partial_path env d"
  obtain offset s1 where o: "on_cache (with_tmp (PartialSize ?path)) s = (offset, s1)" by fastforce
  note i1 = PartialSize_inv [OF o assms(2)]
  show ?thesis
  proof (cases "case upstreamForName (oeRemote env) (oeUpstreams env) n of None \<Rightarrow> True | Some (ups, _) \<Rightarrow> ups = []")
    case True
    then show ?thesis using assms(1,2) by (auto simp: fetchAndStoreBlob_def split: option.splits prod.splits)
  next
    case False
    then obtain ups fetchName where u: "upstreamForName (oeRemote env) (oeUpstreams env) n = Some (ups, fetchName)" "ups \<noteq> []"
      by (auto split: option.splits)
    obtain q s2 where q: "fetch_body env offline (blob_fetch_ref fetchName d) ups (if 0 < offset then [WithByteRange offset] else []) s1 = (q, s2)"
      by fastforce
    note i2 = fetch_body_inv [OF q i1]
    show ?thesis
    proof (cases "\<exists>rd umeta. q = Inr (Some rd, umeta)")
      case True
      then obtain rd umeta where rd: "q = Inr (Some rd, umeta)" by blast
      obtain a s3 where f: "with_fill (fill_partial (oeQuarantine env) (oeFetch env) ''quarantine blob: '' ?path rd umeta) s2 = (a, s3)" by fastforce
      note i3 = fill_inv [OF f i2]
      have out: "(r, s') = (case a of Inl e \<Rightarrow> (Inl e, s3)
          | Inr art \<Rightarrow> if aDigest art \<noteq> d then
               (Inl (plain (''blob digest mismatch: upstream served '' @ aDigest art @ '', requested '' @ d)), cleanup art s3)
             else store_filled env ''cache store blob: '' (content_ref n d) art s3)"
        using assms(1) u o q rd f by (simp add: fetchAndStoreBlob_def)
      show ?thesis
      proof (cases a)
        case (Inr art)
        obtain c st where "describes (oeQuarantine env) st art c"
          using f Inr fill_partial_ok by (fastforce simp: with_fill_def split: prod.splits)
        then have "HasPrefix (aDigest art) ''sha256:''" by (rule sha256_quarantined)
        from store_filled_inv [OF _ i3 assms(3) this] have "oci_inv env (snd (store_filled env pre ref art s3))" for pre ref
          by (metis prod.collapse)
        then show ?thesis using out Inr i3 cleanup_inv by (auto split: if_splits) (metis snd_conv)
      qed (use out i3 in simp)
    qed (use assms(1) u o q i2 in \<open>auto simp: fetchAndStoreBlob_def split: sum.splits option.splits prod.splits\<close>)
  qed
qed

lemma point_tag_inv: "oci_inv env s \<Longrightarrow> oci_inv env (point_tag env n t art umeta s)"
  by (rule inv_stores) (auto simp: point_tag_def with_db_def PutMutable_def db_io_def split: option.splits prod.splits)

lemma fetchAndStoreManifest_inv:
  assumes "fetchAndStoreManifest env offline n t s = (r, s')" and "oci_inv env s" and "chain_frames (oeCache env)"
  shows "oci_inv env s' \<and> (\<forall>d. r = Inr d \<longrightarrow> d \<noteq> [])"
proof (cases "case upstreamForName (oeRemote env) (oeUpstreams env) n of None \<Rightarrow> True | Some (ups, _) \<Rightarrow> ups = []")
  case True
  then show ?thesis using assms(1,2) by (auto simp: fetchAndStoreManifest_def split: option.splits prod.splits)
next
  case False
  then obtain ups fetchName where u: "upstreamForName (oeRemote env) (oeUpstreams env) n = Some (ups, fetchName)" "ups \<noteq> []"
    by (auto split: option.splits)
  obtain q s1 where q: "fetch_body env offline (manifest_fetch_ref fetchName t) ups [WithOCIManifestAccept] s = (q, s1)" by fastforce
  note i1 = fetch_body_inv [OF q assms(2)]
  show ?thesis
  proof (cases "\<exists>rd umeta. q = Inr (Some rd, umeta)")
    case True
    then obtain rd umeta where rd: "q = Inr (Some rd, umeta)" by blast
    obtain a s2 where f: "with_fill (fill_temp (oeQuarantine env) (oeFetch env) ''quarantine manifest: '' (oeDir env) rd umeta) s1 = (a, s2)" by fastforce
    note i2 = fill_inv [OF f i1]
    show ?thesis
    proof (cases a)
      case (Inr art)
      obtain c st where "describes (oeQuarantine env) st art c"
        using f Inr fill_temp_ok by (fastforce simp: with_fill_def split: prod.splits)
      then have d: "HasPrefix (aDigest art) ''sha256:''" by (rule sha256_quarantined)
      obtain b s3 where b: "store_filled env ''cache store manifest: '' (content_ref n (aDigest art)) art s2 = (b, s3)" by fastforce
      note i3 = store_filled_inv [OF b i2 assms(3) d]
      have "(r, s') = (case b of Inl e \<Rightarrow> (Inl e, s3) | Inr _ \<Rightarrow> (Inr (aDigest art), point_tag env n t art umeta s3))"
        using assms(1) u q rd f Inr b by (auto simp: fetchAndStoreManifest_def split: sum.splits)
      moreover have "aDigest art \<noteq> []" using d by (auto simp: HasPrefix_def)
      ultimately show ?thesis using i3 point_tag_inv by (auto split: sum.splits)
    qed (use assms(1) u q rd f i2 in \<open>auto simp: fetchAndStoreManifest_def\<close>)
  qed (use assms(1) u q i1 in \<open>auto simp: fetchAndStoreManifest_def split: sum.splits option.splits prod.splits\<close>)
qed

section \<open>What is served\<close>

text \<open>
  The content of a response is a range of the stored bytes of the digest it names, all of them
  when the status is 200.
\<close>

definition content_ok :: "'b oci_env \<Rightarrow> 'b oci_state \<Rightarrow> oci_response \<Rightarrow> bool" where
  "content_ok env s r \<longleftrightarrow>
     (\<forall>b. opBody r = OBytes b \<longrightarrow>
        (\<exists>d p c off len. (''Docker-Content-Digest'', d) \<in> set (opHeaders r) \<and> blobPath (c_disk (osCache s)) d = Inr p
           \<and> path_matches (oe_dg env) p c \<and> b = range_read c off len \<and> (opStatus r = 200 \<longrightarrow> b = c)))"

lemma content_ok_none [simp]:
  "content_ok env s (writeOCIError st code m)" "content_ok env s (oci_reply st hs ONone)"
  "content_ok env s manifest_unknown" "content_ok env s blob_unknown" "content_ok env s (blob_unknown\<lparr>opHeaders := hs\<rparr>)"
  "content_ok env s (marked mk r) = content_ok env s r"
  by (simp_all add: content_ok_def writeOCIError_def oci_reply_def manifest_unknown_def blob_unknown_def marked_def)

lemma range_read_whole: "range_read c 0 (-1) = c"
  by (simp add: range_read_def)

lemma Serve_content:
  assumes "oci_inv env s" and "on_cache (\<lambda>c. Serve c (content_ref n d) off len) s = (Inr (b, e), s')" and "d \<noteq> []"
  shows "\<exists>p c. blobPath (c_disk (osCache s')) d = Inr p \<and> path_matches (oe_dg env) p c \<and> b = range_read c off len"
proof -
  obtain c' where sv: "Serve (osCache s) (content_ref n d) off len = (Inr (b, e), c')" and s': "s' = s\<lparr>osCache := c'\<rparr>"
    using assms(2) by (auto simp: on_cache_eq)
  obtain c1 where "Lookup (osCache s) (content_ref n d) = (Inr e, c1)"
    using sv by (auto simp: Serve_def split: sum.splits prod.splits)
  moreover obtain x where x: "e = Some x" using sv by (auto simp: Serve_def ServeEntry_def split: sum.splits prod.splits option.splits)
  ultimately have "ceDigest x = d" using lookupImmutable_hit [of "osCache s" "content_ref n d" x c1] assms(3)
    by (auto simp: Lookup_def content_ref_def)
  then obtain p c where "blobPath (c_disk (osCache s)) d = Inr p" "path_matches (oe_dg env) p c" "b = range_read c off len"
    using Serve_verified [of "oe_dg env" "osCache s" "content_ref n d" off len b x c'] sv x assms(1,3)
    by (auto simp: oci_inv_def cache_inv_def)
  moreover have "blobPath (c_disk (osCache s')) d = blobPath (c_disk (osCache s)) d"
    using Serve_same_data [OF sv] s' by (simp add: same_data_def blobPath_def split: sum.splits)
  ultimately show ?thesis by auto
qed

lemma manifest_reply_ok:
  assumes "oci_inv env s" and "on_cache (\<lambda>c. Serve c (content_ref n d) 0 (-1)) s = (Inr (b, e), s')" and "d \<noteq> []"
  shows "content_ok env s' (manifest_reply env req d b e)"
proof -
  obtain p c where "blobPath (c_disk (osCache s')) d = Inr p" "path_matches (oe_dg env) p c" "b = range_read c 0 (-1)"
    using Serve_content [OF assms] by blast
  then show ?thesis
    unfolding content_ok_def
    by (intro allI impI exI [of _ d] exI [of _ p] exI [of _ c] exI [of _ 0] exI [of _ "-1"])
      (auto simp: manifest_reply_def oci_reply_def range_read_whole Let_def split: if_splits)
qed

lemma tryServe_ok:
  assumes "tryServeManifestFromCache env req n d s = (r, s')" and "oci_inv env s" and "d \<noteq> []"
  shows "oci_inv env s' \<and> (\<forall>x. r = Some x \<longrightarrow> content_ok env s' x)"
proof -
  obtain q s1 where q: "on_cache (\<lambda>c. Serve c (content_ref n d) 0 (-1)) s = (q, s1)" by fastforce
  note i1 = Serve_inv [OF q assms(2)]
  show ?thesis
  proof (cases q)
    case (Inr x)
    then show ?thesis using assms q i1 manifest_reply_ok [OF assms(2), of n d _ _ s1] by (auto simp: tryServeManifestFromCache_def split: prod.splits)
  next
    case (Inl e)
    obtain b s2 where h: "isHosted env n s1 = (b, s2)" by fastforce
    note i2 = control_only_inv [OF isHosted_frame [OF h] i1]
    obtain b2 s3 where o: "isOwnedNamespace env n s2 = (b2, s3)" by fastforce
    note i3 = control_only_inv [OF isOwnedNamespace_frame [OF o] i2]
    obtain sh s4 where sh: "sharedBlobEntryFor env n d s3 = (sh, s4)" by fastforce
    have i4: "oci_inv env s4" using sharedBlobEntryFor_inv [OF sh i3] by simp
    obtain q2 s5 where q2: "on_cache (\<lambda>c. Serve c (content_ref n d) 0 (-1)) s4 = (q2, s5)" by fastforce
    note i5 = Serve_inv [OF q2 i4]
    have "\<forall>data e. q2 = Inr (data, e) \<longrightarrow> content_ok env s5 (manifest_reply env req d data e)"
      using manifest_reply_ok [OF i4 _ assms(3)] q2 by blast
    then show ?thesis
      using assms(1) q Inl h o sh q2 i2 i3 i4 i5
      by (auto simp: tryServeManifestFromCache_def split: bool.splits option.splits sum.splits prod.splits)
  qed
qed

lemma recheck_manifest_inv:
  assumes "recheck_manifest env n t s = (r, s')" and "oci_inv env s"
  shows "oci_inv env s' \<and> (\<forall>d. r = Inr (Some d) \<longrightarrow> d \<noteq> [])"
proof -
  obtain q s1 where q: "resolveManifestDigest env n t s = (q, s1)" by fastforce
  note i1 = resolve_inv [OF q assms(2)]
  have "oci_inv env s2" if "on_cache (\<lambda>c. Lookup c ref) s1 = (x, s2)" for ref x s2 using Lookup_inv [OF that i1] .
  then show ?thesis
    using assms(1) q i1 by (auto simp: recheck_manifest_def split: sum.splits option.splits prod.splits if_splits)
qed

lemma lock_of_inv:
  "lock_sound env \<Longrightarrow> lock_of env = Some acq \<Longrightarrow> oci_inv env s \<Longrightarrow> acq key ttl s = (q, s') \<Longrightarrow> oci_inv env s'"
  by (auto simp: lock_of_def lock_sound_def oci_inv_def on_cache_eq) (metis snd_conv)

text \<open>What the whole handler rests on: a sound state, verifiers that leave the rows alone, a sound lock.\<close>

locale pull_handler =
  fixes env :: "'b oci_env"
  assumes frames: "chain_frames (oeCache env)" and lock: "lock_sound env"
begin

definition sound_answer :: "oci_response \<times> 'b oci_state \<Rightarrow> bool" where
  "sound_answer a \<longleftrightarrow> oci_inv env (snd a) \<and> content_ok env (snd a) (fst a)"

lemma fetch_manifest_sound:
  assumes "oci_inv env s"
  shows "sound_answer (fetch_manifest env req off n t s)"
proof -
  obtain r s1 where f: "FetchLocked (lock_of env) (\<lambda>_ _ s. s) (FetchKey ''oci'' (''manifest:'' @ n) t []) 0
      (recheck_manifest env n t) (fetchAndStoreManifest env off n t) s = (r, s1)" by fastforce
  have i1: "oci_inv env s1 \<and> (\<forall>d. r = Inr d \<longrightarrow> d \<noteq> [])"
    using f assms
  proof (rule FetchLocked_keeps)
    show "oci_inv env s2" if "lock_of env = Some acq" "oci_inv env s1" "acq (FetchKey ''oci'' (''manifest:'' @ n) t []) ttl s1 = (q, s2)" for acq ttl s1 q s2
      using lock_of_inv [OF lock that] .
  qed (use recheck_manifest_inv fetchAndStoreManifest_inv frames in blast)+
  have "oci_inv env s2 \<and> (\<forall>x. y = Some x \<longrightarrow> content_ok env s2 x)" if "r = Inr d" "tryServeManifestFromCache env req n d s1 = (y, s2)" for d y s2
    using tryServe_ok [OF that(2)] i1 that(1) by blast
  then show ?thesis
    using f i1 by (auto simp: fetch_manifest_def sound_answer_def split: sum.splits prod.splits option.splits)
qed

lemma miss_manifest_sound:
  assumes "oci_inv env s"
  shows "sound_answer (miss_manifest env req h n t s)"
proof -
  obtain b s1 where o: "isOwnedNamespace env n s = (b, s1)" by fastforce
  note i1 = control_only_inv [OF isOwnedNamespace_frame [OF o] assms]
  show ?thesis
    using o i1 assms fetch_manifest_sound [OF i1]
    by (auto simp: miss_manifest_def sound_answer_def split: bool.splits option.splits)
qed

lemma serveManifest_sound:
  assumes "oci_inv env s"
  shows "sound_answer (serveManifest env req n t s)"
proof -
  obtain g s1 where g: "hosted_gate env req n s = (g, s1)" by fastforce
  note i1 = control_only_inv [OF hosted_gate_frame [OF g] assms]
  obtain q s2 where q: "resolveManifestDigest env n t s1 = (q, s2)" by fastforce
  note i2 = resolve_inv [OF q i1]
  have hit: "content_ok env s1 r" if "g = Inl r" for r
    using g that by (auto simp: hosted_gate_def split: prod.splits bool.splits option.splits authz_err.splits)
  have "oci_inv env s3 \<and> (\<forall>x. y = Some x \<longrightarrow> content_ok env s3 x)" if "d \<noteq> []" "tryServeManifestFromCache env req n d s2 = (y, s3)" for d y s3
    using tryServe_ok [OF that(2) i2 that(1)] .
  then show ?thesis
    using g q i1 i2 assms hit miss_manifest_sound
    by (auto simp: serveManifest_def sound_answer_def split: sum.splits option.splits prod.splits)
qed

lemma serve_entry_sound:
  assumes "oci_inv env s" and "d \<noteq> []"
  shows "sound_answer (serve_entry req n d e s)"
proof (cases "oqMethod req = ''HEAD'' \<or> (\<exists>m. parseRange (oqRange req) (ceSize e) = Inl m)")
  case True
  then show ?thesis using assms(1) by (auto simp: serve_entry_def sound_answer_def Let_def split: sum.splits)
next
  case False
  then obtain off len part where pr: "parseRange (oqRange req) (ceSize e) = Inr (off, len, part)" by (metis sumE prod_cases3)
  have whole: "off = 0 \<and> len = -1" if "\<not> part"
    using pr that by (auto simp: parseRange_def Let_def split: if_splits option.splits)
  obtain q s1 where q: "on_cache (\<lambda>c. Serve c (content_ref n d) off len) s = (q, s1)" by fastforce
  note i1 = Serve_inv [OF q assms(1)]
  show ?thesis
  proof (cases q)
    case (Inl x)
    then show ?thesis using False pr q i1 by (simp add: serve_entry_def sound_answer_def Let_def)
  next
    case (Inr x)
    obtain b y where x: "x = (b, y)" by fastforce
    obtain p c where c: "blobPath (c_disk (osCache s1)) d = Inr p" "path_matches (oe_dg env) p c" "b = range_read c off len"
      using Serve_content [OF assms(1) _ assms(2)] q Inr x by blast
    have "content_ok env s1 (fst (serve_entry req n d e s))"
      unfolding content_ok_def
      by (intro allI impI exI [of _ d] exI [of _ p] exI [of _ c] exI [of _ off] exI [of _ len])
        (use False pr q Inr x c whole in \<open>auto simp: serve_entry_def Let_def blob_headers_def oci_reply_def range_read_whole split: if_splits\<close>)
    moreover have "snd (serve_entry req n d e s) = s1" using False pr q Inr x by (simp add: serve_entry_def Let_def)
    ultimately show ?thesis using i1 by (simp add: sound_answer_def)
  qed
qed

lemma marked_sound: "sound_answer a \<Longrightarrow> sound_answer (case a of (r, s) \<Rightarrow> (marked m r, s))"
  by (auto simp: sound_answer_def split: prod.splits)

lemma fetch_blob_sound:
  assumes "oci_inv env s" and "d \<noteq> []"
  shows "sound_answer (fetch_blob env req off n d s)"
proof -
  obtain r s1 where f: "FetchLocked (lock_of env) (\<lambda>_ _ s. s) (FetchKey ''oci'' (''blob:'' @ n) d []) DefaultFillTimeout
      (recheck_blob (content_ref n d)) (fetchAndStoreBlob env off n d) s = (r, s1)" by fastforce
  have i1: "oci_inv env s1 \<and> (\<forall>e. r = Inr e \<longrightarrow> True)"
    using f assms(1)
  proof (rule FetchLocked_keeps)
    show "oci_inv env s2" if "lock_of env = Some acq" "oci_inv env s1" "acq (FetchKey ''oci'' (''blob:'' @ n) d []) ttl s1 = (q, s2)" for acq ttl s1 q s2
      using lock_of_inv [OF lock that] .
    show "oci_inv env s2 \<and> (\<forall>v. q = Inr (Some v) \<longrightarrow> True)" if "oci_inv env s1" "recheck_blob (content_ref n d) s1 = (q, s2)" for s1 q s2
      using that(2) Lookup_inv [OF _ that(1)] by (auto simp: recheck_blob_def split: sum.splits prod.splits)
  qed (use fetchAndStoreBlob_inv frames in blast)
  show ?thesis
  proof (cases r)
    case (Inr e)
    then show ?thesis using f marked_sound [OF serve_entry_sound [of s1 d req n e]] i1 assms(2) by (simp add: fetch_blob_def)
  qed (use f i1 in \<open>simp add: fetch_blob_def sound_answer_def\<close>)
qed

lemma miss_blob_sound:
  assumes "oci_inv env s" and "d \<noteq> []"
  shows "sound_answer (miss_blob env req h n d s)"
proof -
  obtain b s1 where o: "isOwnedNamespace env n s = (b, s1)" by fastforce
  note i1 = control_only_inv [OF isOwnedNamespace_frame [OF o] assms(1)]
  show ?thesis
    using o i1 assms fetch_blob_sound [OF i1 assms(2)]
    by (auto simp: miss_blob_def sound_answer_def split: bool.splits option.splits)
qed

lemma second_chance_inv: "second_chance env h n d s = (r, s') \<Longrightarrow> oci_inv env s \<Longrightarrow> oci_inv env s'"
  using control_only_inv [OF isOwnedNamespace_frame] sharedBlobEntryFor_inv
  by (fastforce simp: second_chance_def split: if_splits prod.splits bool.splits)

lemma serveBlob_sound:
  assumes "oci_inv env s" and "d \<noteq> []"
  shows "sound_answer (serveBlob env req n d s)"
proof -
  obtain g s1 where g: "hosted_gate env req n s = (g, s1)" by fastforce
  note i1 = control_only_inv [OF hosted_gate_frame [OF g] assms(1)]
  obtain q s2 where q: "on_cache (\<lambda>c. Lookup c (content_ref n d)) s1 = (q, s2)" by fastforce
  note i2 = Lookup_inv [OF q i1]
  have denied: "content_ok env s1 r" if "g = Inl r" for r
    using g that by (auto simp: hosted_gate_def split: prod.splits bool.splits option.splits authz_err.splits)
  show ?thesis
  proof (cases "is_read req \<and> oci_isDigestRef env d \<and> (\<exists>h. g = Inr h) \<and> (\<exists>x. q = Inr x)")
    case True
    then obtain h x where h: "g = Inr h" "q = Inr x" by blast
    obtain y s3 where y: "second_chance env h n d s2 = (y, s3)" by fastforce
    note i3 = second_chance_inv [OF y i2]
    show ?thesis
      using True g q h y marked_sound [OF serve_entry_sound [OF i2 assms(2)]] marked_sound [OF serve_entry_sound [OF i3 assms(2)]]
        miss_blob_sound [OF i3 assms(2)]
      by (simp add: serveBlob_def split: option.splits)
  qed (use g q i1 i2 assms denied in \<open>auto simp: serveBlob_def sound_answer_def split: sum.splits\<close>)
qed

end

text \<open>The chain \<^verbatim>\<open>main.go\<close> builds, in a process with no lock shared with others.\<close>

interpretation main_pull: pull_handler
  "env\<lparr>oeCache := \<lparr>cvDigest = dg, cvChain = (\<lambda>_. main_chain [])\<rparr>, oeLock := None\<rparr>" for env :: "'b oci_env" and dg
  by unfold_locales (auto simp: lock_sound_def base_chain_def intro!: base_chain_frames exI [of _ "[]"])

lemma ServeHTTP_cases:
  assumes "oqPath req \<noteq> ''/v2/''" and "oqPath req \<noteq> ''/v2''"
  shows "(\<exists>n t. oci_ServeHTTP env req s = serveManifest env req n t s) \<or> (\<exists>n d. d \<noteq> [] \<and> oci_ServeHTTP env req s = serveBlob env req n d s)
     \<or> (\<exists>st code m. oci_ServeHTTP env req s = (writeOCIError st code m, s))"
proof -
  define P where "P x \<longleftrightarrow> (\<exists>n t. x = serveManifest env req n t s) \<or> (\<exists>n d. d \<noteq> [] \<and> x = serveBlob env req n d s)
     \<or> (\<exists>st code m. x = (writeOCIError st code m, s))" for x
  have P: "P (serveManifest env req n t s)" "d \<noteq> [] \<Longrightarrow> P (serveBlob env req n d s)" "P (writeOCIError st code m, s)" for n t d st code m
    unfolding P_def by blast+
  have "P (oci_ServeHTTP env req s)"
    unfolding oci_ServeHTTP_def Let_def using assms by (simp add: P split: option.splits)
  then show ?thesis unfolding P_def .
qed

section \<open>The form of an answer\<close>

definition error_statuses :: "int set" where "error_statuses = {400, 401, 403, 404, 500, 502}"

text \<open>
  An error carries the error envelope; content goes to \<^verbatim>\<open>GET\<close> requests only, with status 200 or
  206, and a partial answer says which part it is; 405 and 416 have no body.
\<close>

definition wf_answer :: "oci_request \<Rightarrow> oci_response \<Rightarrow> bool" where
  "wf_answer req r \<longleftrightarrow>
     (case opBody r of
        OErr code m \<Rightarrow> opStatus r \<in> error_statuses \<and> (''Content-Type'', ''application/json'') \<in> set (opHeaders r)
      | OBytes b \<Rightarrow> oqMethod req = ''GET'' \<and> (opStatus r = 200 \<or> opStatus r = 206 \<and> ''Content-Range'' \<in> fst ` set (opHeaders r))
      | ONone \<Rightarrow> opStatus r \<in> {405, 416} \<or> opStatus r = 200 \<and> oqMethod req = ''HEAD'')"

lemma wf_answer_simps [simp]:
  "st \<in> error_statuses \<Longrightarrow> wf_answer req (writeOCIError st code m)" "wf_answer req (oci_reply 405 [] ONone)"
  "wf_answer req manifest_unknown" "wf_answer req blob_unknown" "wf_answer req (marked mk r) = wf_answer req r"
  by (simp_all add: wf_answer_def writeOCIError_def oci_reply_def manifest_unknown_def blob_unknown_def marked_def error_statuses_def split: oci_body.splits)

lemma error_statuses_simps [simp]:
  "400 \<in> error_statuses" "401 \<in> error_statuses" "403 \<in> error_statuses" "404 \<in> error_statuses" "500 \<in> error_statuses" "502 \<in> error_statuses"
  by (simp_all add: error_statuses_def)

lemma manifest_reply_wf: "is_read req \<Longrightarrow> wf_answer req (manifest_reply env req d data e)"
  by (auto simp: wf_answer_def manifest_reply_def oci_reply_def is_read_def Let_def)

lemma tryServe_wf: "is_read req \<Longrightarrow> tryServeManifestFromCache env req n d s = (Some r, s') \<Longrightarrow> wf_answer req r"
  by (auto simp: tryServeManifestFromCache_def Let_def manifest_reply_wf split: sum.splits prod.splits bool.splits option.splits)

lemma fetch_manifest_wf: "is_read req \<Longrightarrow> wf_answer req (fst (fetch_manifest env req off n t s))"
  by (auto simp: fetch_manifest_def dest: tryServe_wf split: sum.splits prod.splits option.splits)

lemma miss_manifest_wf: "is_read req \<Longrightarrow> wf_answer req (fst (miss_manifest env req h n t s))"
  by (auto simp: miss_manifest_def fetch_manifest_wf split: prod.splits bool.splits option.splits)

lemma hosted_gate_wf: "hosted_gate env req n s = (Inl r, s') \<Longrightarrow> wf_answer req r"
  by (auto simp: hosted_gate_def split: prod.splits bool.splits option.splits authz_err.splits)

lemma serveManifest_wf: "wf_answer req (fst (serveManifest env req n t s))"
  by (auto simp: serveManifest_def miss_manifest_wf dest: tryServe_wf hosted_gate_wf split: sum.splits prod.splits option.splits)

lemma serve_entry_wf: "is_read req \<Longrightarrow> serve_entry req n d e s = (r, s') \<Longrightarrow> wf_answer req r"
  by (auto simp: serve_entry_def Let_def wf_answer_def oci_reply_def is_read_def blob_unknown_def writeOCIError_def
      split: sum.splits prod.splits if_splits)

lemma fetch_blob_wf: "is_read req \<Longrightarrow> wf_answer req (fst (fetch_blob env req off n d s))"
  by (auto simp: fetch_blob_def dest: serve_entry_wf split: sum.splits prod.splits)

lemma miss_blob_wf: "is_read req \<Longrightarrow> wf_answer req (fst (miss_blob env req h n d s))"
  by (auto simp: miss_blob_def fetch_blob_wf split: prod.splits bool.splits option.splits)

lemma serveBlob_wf: "wf_answer req (fst (serveBlob env req n d s))"
  by (auto simp: serveBlob_def miss_blob_wf dest: serve_entry_wf hosted_gate_wf split: sum.splits prod.splits option.splits)

section \<open>Properties\<close>

text \<open>C10: The pull side of the registry serves verified content only and keeps the stores sound. For every
  request but the version probe, whatever the stores, the network and the database do: the cache
  invariant holds afterwards, and content in the response is a range of the bytes stored under the
  digest the response names, bytes that hash to this digest, and all of them when the status is 200.\<close>

theorem registry_pull_is_sound:
  assumes "chain_frames (oeCache env)" and "lock_sound env" and "cache_inv (cvDigest (oeCache env)) (osCache s)"
    and "oqPath req \<noteq> ''/v2/''" and "oqPath req \<noteq> ''/v2''" and "oci_ServeHTTP env req s = (r, s')"
  shows "cache_inv (cvDigest (oeCache env)) (osCache s')
    \<and> (\<forall>b. opBody r = OBytes b \<longrightarrow>
        (\<exists>d p c off len. (''Docker-Content-Digest'', d) \<in> set (opHeaders r) \<and> blobPath (c_disk (osCache s')) d = Inr p
           \<and> path_matches (cvDigest (oeCache env)) p c \<and> b = range_read c off len \<and> (opStatus r = 200 \<longrightarrow> b = c)))"
proof -
  have h: "pull_handler env" using assms(1,2) by unfold_locales
  have i: "oci_inv env s" using assms(3) by (simp add: oci_inv_def)
  have "pull_handler.sound_answer env (oci_ServeHTTP env req s)"
    using ServeHTTP_cases [OF assms(4,5), of env s] pull_handler.serveManifest_sound [OF h i] pull_handler.serveBlob_sound [OF h i]
    by (auto simp: pull_handler.sound_answer_def [OF h] i)
  then show ?thesis
    using assms(6) by (simp add: pull_handler.sound_answer_def [OF h] oci_inv_def content_ok_def)
qed




end
