(* ===== verification/OciPull.thy ===== *)
theory OciPull
  imports OciProps
begin

text \<open>
  Pulls that succeed: on healthy stores and for a name no organization owns, a blob or a manifest
  that is not cached is fetched, verified, stored and served; and what is weaker than intended.
\<close>

section \<open>Storing succeeds\<close>

lemma chain_error_fails: "snd (fst (chain_loop vs ref art w h b ms xs)) \<noteq> None \<Longrightarrow> resStatus (fst (fst (chain_loop vs ref art w h b ms xs))) = StatusFail"
  by (induction vs ref art w h b ms xs rule: chain_loop.induct)
    (auto simp: Let_def chain_error_result_def split: prod.splits option.splits if_splits)

lemma chain_accepts:
  assumes "resStatus (chain_result vs w ref art) \<noteq> StatusFail"
  shows "\<exists>res w' ms. chain_Verify vs w ref art = ((res, None), w', ms) \<and> resStatus res \<noteq> StatusFail"
proof -
  obtain res err w' ms where c: "chain_Verify vs w ref art = ((res, err), w', ms)" by (metis surj_pair)
  moreover have "err = None"
    using assms c chain_error_fails [of vs ref art w TierChecksum False "[]" "[]"] by (cases err) (auto simp: chain_Verify_def split: if_splits)
  ultimately show ?thesis using assms by simp
qed

lemma Store_live:
  assumes "chain_frames env" and "db_healthy (c_db s)" and "disk_healthy (c_disk s)" and "q_healthy (c_tmp s)"
    and "resStatus (chain_result (cvChain env (open_quarantine s)) (c_db s) ref art) \<noteq> StatusFail"
    and "q_files (c_tmp s) (aPath art) = Some c" and "aSize art = int (length c)" and "\<not> rMutable ref"
    and "blobPath (c_disk s) (aDigest art) = Inr p" and "dg_valid (cvDigest env) (aDigest art)"
    and "dg_hex (cvDigest env) (aDigest art) c = last p"
  shows "\<exists>entry s'. Store env s ref art = (Inr entry, s') \<and> ceSize entry = int (length c)"
proof -
  obtain res db1 ms where ch: "chain_Verify (cvChain env (open_quarantine s)) (c_db s) ref art = ((res, None), db1, ms)"
    and ok: "resStatus res \<noteq> StatusFail" using chain_accepts [OF assms(5)] by blast
  define s1 where "s1 = s\<lparr>c_db := db1, c_metrics := c_metrics s @ ms, c_verified := c_verified s @ [(ref, aDigest art, res)]\<rparr>"
  have v: "verify_stage env s ref art = (Inr res, s1)" using ch ok by (simp add: verify_stage_def Let_def s1_def)
  have h1: "db_healthy db1" using chain_keeps_pins [OF assms(1) ch] assms(2) by (simp add: keeps_pins_def db_healthy_def)
  obtain st where o: "with_tmp (os_Open (aPath art)) s1 = (Inr c, s1\<lparr>c_tmp := st\<rparr>)"
    using assms(4,6) by (simp add: os_Open_def q_healthy_call s1_def)
  obtain d where d: "blob_Put (cvDigest env) (c_disk s) (aDigest art) c (aSize art) = (Inr (), d)"
    using blob_Put_healthy [OF assms(3,9,10,11)] assms(7) by (metis prod.collapse)
  have "\<exists>entry s2. promote_stage env s1 ref art res = (Inr entry, s2) \<and> ceSize entry = int (length c)"
    using o d h1 assms(7)
    by (simp add: promote_stage_def with_disk_def with_db_def Put_def db_io_def db_healthy_def Let_def s1_def store_entry_def
        del: with_tmp_simps)
  then show ?thesis using v assms(8) by (auto simp: Store_storeOnce storeOnce_def)
qed

section \<open>A state ready for a cold pull\<close>

text \<open>No organization owns the name space of the name.\<close>

definition foreign_name :: "control \<Rightarrow> string \<Rightarrow> bool" where
  "foreign_name db name \<longleftrightarrow> ctl_healthy db \<and> fst (resolveOrgID db (namespaceOf name)) = None"

lemma foreign_name_tables: "same_tables db db' \<Longrightarrow> foreign_name db' name = foreign_name db name"
  using resolveOrgID_healthy [of db db' "namespaceOf name"] same_tablesD(1,11) [of db db'] unfolding foreign_name_def by metis

lemma foreign_isHosted: "foreign_name (osControl s) n \<Longrightarrow> \<exists>s'. isHosted env n s = (False, s') \<and> control_only s s'"
proof -
  assume a: "foreign_name (osControl s) n"
  obtain b s' where h: "isHosted env n s = (b, s')" by fastforce
  then have "\<not> b" using a by (auto simp: isHosted_def ResolveHosted_def foreign_name_def split: if_splits prod.splits option.splits)
  with h isHosted_frame [OF h] show ?thesis by simp
qed

lemma foreign_isOwned: "foreign_name (osControl s) n \<Longrightarrow> \<exists>s'. isOwnedNamespace env n s = (False, s') \<and> control_only s s'"
proof -
  assume a: "foreign_name (osControl s) n"
  obtain b s' where h: "isOwnedNamespace env n s = (b, s')" by fastforce
  then have "\<not> b" using a by (auto simp: isOwnedNamespace_def IsOwnedNamespace_def foreign_name_def split: if_splits prod.splits)
  with h isOwnedNamespace_frame [OF h] show ?thesis by simp
qed

text \<open>
  What reading leaves as it is: everything but the counters of the devices. The stores work, and
  they do not have the digest.
\<close>

definition calm_stores :: "cache_state \<Rightarrow> cache_state \<Rightarrow> bool" where
  "calm_stores a b \<longleftrightarrow> same_data a b \<and> db_fault (c_db b) = db_fault (c_db a) \<and> disk_fault (c_disk b) = disk_fault (c_disk a)"

lemma calm_stores_refl [simp]: "calm_stores a a"
  by (simp add: calm_stores_def)

lemma calm_stores_trans: "calm_stores a b \<Longrightarrow> calm_stores b c \<Longrightarrow> calm_stores a c"
  unfolding calm_stores_def using same_data_trans by metis

definition quiet :: "'b oci_state \<Rightarrow> 'b oci_state \<Rightarrow> bool" where
  "quiet s s' \<longleftrightarrow> calm_stores (osCache s) (osCache s') \<and> same_tables (osControl s) (osControl s') \<and> osNet s' = osNet s"

lemma quiet_refl [simp]: "quiet s s"
  by (simp add: quiet_def)

lemma quiet_trans: "quiet a b \<Longrightarrow> quiet b c \<Longrightarrow> quiet a c"
  unfolding quiet_def using calm_stores_trans same_tables_trans by metis

lemma quiet_control: "control_only s s' \<Longrightarrow> quiet s s'"
  by (auto simp: quiet_def control_only_def)

definition works :: "cache_state \<Rightarrow> bool" where
  "works c \<longleftrightarrow> db_healthy (c_db c) \<and> disk_healthy (c_disk c) \<and> q_healthy (c_tmp c)"

definition lacks :: "string \<Rightarrow> cache_state \<Rightarrow> bool" where
  "lacks digest c \<longleftrightarrow> (\<forall>r \<in> set (rows_of c). r_digest r \<noteq> digest) \<and> (\<forall>x. \<not> blob_present (c_disk c) digest x)"

lemma works_stores: "calm_stores a b \<Longrightarrow> works b = works a"
  by (simp add: works_def calm_stores_def same_data_def db_healthy_def disk_healthy_def)

lemma lacks_stores: "calm_stores a b \<Longrightarrow> lacks d b = lacks d a"
  using blob_present_cong [of "c_disk b" "c_disk a"] by (auto simp: lacks_def calm_stores_def same_data_def)

lemma lookupImmutable_miss:
  assumes "db_healthy (c_db c)" and "find_row (rows_of c) (ref_key ref) = None"
  shows "\<exists>c'. lookupImmutable c ref = (Inr None, c') \<and> calm_stores c c'"
  using assms by (auto simp: lookupImmutable_def with_db_def Get_def db_io_def db_healthy_def calm_stores_def same_data_def)

lemma no_sharing:
  assumes "works (osCache s)" and "lacks d (osCache s)"
  shows "\<exists>s'. sharedBlobEntryFor env n d s = (None, s') \<and> quiet s s'"
proof -
  have none: "list_rows (rows_of (osCache s)) p (shared_filter d) pg = []" if "d \<noteq> []" for p pg
  proof -
    have "filter (listWhere p (shared_filter d)) (rows_of (osCache s)) = []"
      using assms(2) that by (auto simp: filter_empty_conv listWhere_def shared_filter_def lacks_def)
    then show ?thesis by (simp add: list_rows_def)
  qed
  have "\<exists>s'. findSharedBlob env n d s = (None, s') \<and> quiet s s'"
    using assms(1) none
    by (auto simp: findSharedBlob_def on_cache_def with_db_def ListEntries_def db_io_def Let_def works_def db_healthy_def quiet_def
        calm_stores_def same_data_def)
  then show ?thesis by (auto simp: sharedBlobEntryFor_def)
qed

section \<open>Cold pulls\<close>

text \<open>
  What a cold pull of some content needs: sound and working stores that lack its digest, verifiers
  that accept it, a name that is not local, one process, and upstreams whose answer arrives whole.
\<close>

definition digest_of :: "'b oci_env \<Rightarrow> bytes \<Rightarrow> string" where
  "digest_of env content = ''sha256:'' @ hex_EncodeToString (qeSha256 (oeQuarantine env) content)"

definition hash_agrees :: "'b oci_env \<Rightarrow> bytes \<Rightarrow> bool" where
  "hash_agrees env content \<longleftrightarrow>
     dg_valid (oe_dg env) (digest_of env content) \<and> hexDigest (digest_of env content) = Inr (dg_hex (oe_dg env) (digest_of env content) content)"

definition accepts :: "'b oci_env \<Rightarrow> string \<Rightarrow> bytes \<Rightarrow> cache_state \<Rightarrow> bool" where
  "accepts env name content c \<longleftrightarrow>
     (\<forall>op db art. db_healthy db \<and> mutable_entries db = mutable_entries (c_db c) \<and> aDigest art = digest_of env content \<longrightarrow>
        resStatus (chain_result (cvChain (oeCache env) op) db (content_ref name (digest_of env content)) art) \<noteq> StatusFail)"

definition cold :: "'b oci_env \<Rightarrow> string \<Rightarrow> bytes \<Rightarrow> 'b oci_state \<Rightarrow> bool" where
  "cold env name content s \<longleftrightarrow>
     chain_frames (oeCache env) \<and> oeLock env = None \<and> (\<forall>k. qeCtx (oeQuarantine env) k = None) \<and> hash_agrees env content
     \<and> oci_inv env s \<and> works (osCache s) \<and> lacks (digest_of env content) (osCache s)
     \<and> find_row (rows_of (osCache s)) (ref_key (content_ref name (digest_of env content))) = None \<and> accepts env name content (osCache s)
     \<and> foreign_name (osControl s) name \<and> may_fetch env name = Some False"

lemma cold_quiet: "cold env n c s \<Longrightarrow> quiet s s' \<Longrightarrow> cold env n c s'"
  unfolding cold_def accepts_def quiet_def
  using works_stores [of "osCache s" "osCache s'"] lacks_stores [of "osCache s" "osCache s'"] foreign_name_tables [of "osControl s" "osControl s'"]
    cache_inv_same_data [of "osCache s" "osCache s'"]
  by (auto simp: oci_inv_def calm_stores_def same_data_def)

lemma cold_gate: "cold env n c s \<Longrightarrow> \<exists>s'. hosted_gate env req n s = (Inr False, s') \<and> quiet s s'"
  using foreign_isHosted [of s n env] quiet_control by (auto simp: cold_def hosted_gate_def)

lemma cold_owned: "cold env n c s \<Longrightarrow> \<exists>s'. isOwnedNamespace env n s = (False, s') \<and> quiet s s'"
  using foreign_isOwned [of s n env] quiet_control by (auto simp: cold_def)

lemma digest_of_nonempty [simp]: "digest_of env c \<noteq> []" "HasPrefix (digest_of env c) ''sha256:''"
  by (simp_all add: digest_of_def HasPrefix_def)

text \<open>A working cache has the content under a name.\<close>

definition holds :: "string \<Rightarrow> string \<Rightarrow> bytes \<Rightarrow> cache_state \<Rightarrow> bool" where
  "holds name digest content c \<longleftrightarrow>
     db_healthy (c_db c) \<and> disk_healthy (c_disk c) \<and> blob_present (c_disk c) digest content
     \<and> (\<exists>r. find_row (rows_of c) (ref_key (content_ref name digest)) = Some r \<and> r_digest r = digest)"

lemma holds_Serve:
  assumes "holds name digest content c" and "digest \<noteq> []"
  shows "\<exists>e c'. Serve c (content_ref name digest) off len = (Inr (range_read content off len, Some e), c')"
proof -
  obtain r where h: "db_healthy (c_db c)" "disk_healthy (c_disk c)" "blob_present (c_disk c) digest content"
    "find_row (rows_of c) (ref_key (content_ref name digest)) = Some r" "r_digest r = digest"
    using assms(1) by (auto simp: holds_def)
  have "\<not> rMutable (content_ref name digest)" "rDigest (content_ref name digest) = [] \<or> rDigest (content_ref name digest) = digest"
    by (simp_all add: content_ref_def)
  from Serve_row [OF h(1,2,4,5) assms(2) h(3) this] show ?thesis by blast
qed

lemma store_filled_live:
  assumes "cold env n content s" and "aDigest art = digest_of env content" and "aSize art = int (length content)"
    and "q_files (c_tmp (osCache s)) (aPath art) = Some content"
  shows "\<exists>entry s'. store_filled env pre (content_ref n (digest_of env content)) art s = (Inr entry, s') \<and> ceSize entry = int (length content)
     \<and> osNet s' = osNet s \<and> osControl s' = osControl s \<and> holds n (digest_of env content) content (osCache s')"
proof -
  let ?d = "digest_of env content" and ?c = "osCache s"
  have c: "chain_frames (oeCache env)" "cache_inv (oe_dg env) ?c" "works ?c" "lacks ?d ?c" "accepts env n content ?c" "hash_agrees env content"
    using assms(1) by (auto simp: cold_def oci_inv_def)
  obtain p where p: "blobPath (c_disk ?c) (aDigest art) = Inr p" "last p = dg_hex (oe_dg env) ?d content"
    using c(6) assms(2) by (auto simp: hash_agrees_def blobPath_def)
  have res: "resStatus (chain_result (cvChain (oeCache env) (open_quarantine ?c)) (c_db ?c) (content_ref n ?d) art) \<noteq> StatusFail"
    using c(3,5) assms(2) by (simp add: accepts_def works_def)
  obtain entry c' where st: "Store (oeCache env) ?c (content_ref n ?d) art = (Inr entry, c')" "ceSize entry = int (length content)"
    using Store_live [OF c(1) _ _ _ res assms(4,3) _ p(1)] c(3,6) p(2) assms(2) by (auto simp: works_def hash_agrees_def content_ref_def)
  have "holds n ?d content c'"
    using Store_facts [OF c(2,1), of art "content_ref n ?d" entry c'] c(3,4) st assms(2,4) by (auto simp: works_def lacks_def holds_def)
  with st show ?thesis by (auto simp: store_filled_def on_cache_def)
qed

lemma fetchAndStoreBlob_live:
  assumes "cold env n content s" and "upstreamForName (oeRemote env) (oeUpstreams env) n = Some (ups, fetchName)"
    and "file_bytes (c_tmp (osCache s)) (partial_path env (digest_of env content)) = []"
    and "Fetch (oeFetch env) (blob_fetch_ref fetchName (digest_of env content)) ups [] (osNet s) = (Inr (Some rd, umeta), w)"
    and "arrives_whole (oeFetch env) rd content"
  shows "\<exists>entry s'. fetchAndStoreBlob env False n (digest_of env content) s = (Inr entry, s') \<and> ceSize entry = int (length content)
     \<and> holds n (digest_of env content) content (osCache s')"
proof -
  let ?d = "digest_of env content" and ?q = "oeQuarantine env"
  let ?path = "partial_path env ?d"
  have ups: "ups \<noteq> []" using assms(1,2) by (auto simp: cold_def may_fetch_def)
  have qh: "q_healthy (c_tmp (osCache s))" "\<And>k. qeCtx ?q k = None" using assms(1) by (auto simp: cold_def works_def)
  define t1 where "t1 = (c_tmp (osCache s))\<lparr>q_tick := Suc (q_tick (c_tmp (osCache s)))\<rparr>"
  define s1 where "s1 = s\<lparr>osCache := (osCache s)\<lparr>c_tmp := t1\<rparr>\<rparr>"
  have ps: "on_cache (with_tmp (PartialSize ?path)) s = (0, s1)"
    using qh(1) assms(3) by (auto simp: on_cache_eq PartialSize_def q_healthy_call s1_def t1_def file_bytes_def split: option.splits)
  define s2 where "s2 = s1\<lparr>osNet := w\<rparr>"
  have fb: "fetch_body env False (blob_fetch_ref fetchName ?d) ups [] s1 = (Inr (Some rd, umeta), s2)"
    using assms(4) by (simp add: fetch_body_def MaybeOffline_def s1_def s2_def)
  have t: "q_healthy t1" "file_bytes t1 ?path = []" using qh(1) assms(3) by (simp_all add: t1_def file_bytes_def)
  define art where "art = quarantine_artifact ?q ?path content (int (length content)) umeta"
  obtain st w2 where fill: "fill_partial ?q (oeFetch env) ''quarantine blob: '' ?path rd umeta t1 w = (Inr art, st, w2)"
    and st: "q_files st ?path = Some content" "q_healthy st"
    using fill_partial_whole [OF assms(5) qh(2) t, of "''quarantine blob: ''" umeta w] unfolding art_def by blast
  define s3 where "s3 = s2\<lparr>osCache := (osCache s2)\<lparr>c_tmp := st\<rparr>, osNet := w2\<rparr>"
  have wf: "with_fill (fill_partial ?q (oeFetch env) ''quarantine blob: '' ?path rd umeta) s2 = (Inr art, s3)"
    using fill by (simp add: with_fill_def s2_def s1_def s3_def)
  have art: "aDigest art = ?d" "aSize art = int (length content)" "aPath art = ?path"
    by (simp_all add: art_def quarantine_artifact_def digest_of_def)
  have cold3: "cold env n content s3"
    using assms(1) st(2) by (auto simp: cold_def accepts_def works_def lacks_def oci_inv_def cache_inv_def s3_def s2_def s1_def)
  have "q_files (c_tmp (osCache s3)) (aPath art) = Some content" using st(1) art(3) by (simp add: s3_def)
  from store_filled_live [OF cold3 art(1,2) this] obtain entry s4 where
    "store_filled env ''cache store blob: '' (content_ref n ?d) art s3 = (Inr entry, s4)" "ceSize entry = int (length content)"
    "holds n ?d content (osCache s4)" by blast
  then show ?thesis
    using assms(2) ups ps fb wf art(1) by (simp add: fetchAndStoreBlob_def)
qed

lemma cold_blob_pull:
  assumes "cold env n content s" and "upstreamForName (oeRemote env) (oeUpstreams env) n = Some (ups, fetchName)"
    and "file_bytes (c_tmp (osCache s)) (partial_path env (digest_of env content)) = []"
    and "Fetch (oeFetch env) (blob_fetch_ref fetchName (digest_of env content)) ups [] (osNet s) = (Inr (Some rd, umeta), w)"
    and "arrives_whole (oeFetch env) rd content"
    and "oqMethod req = ''GET''" and "parseRange (oqRange req) (int (length content)) = Inr (off, len, part)"
  shows "\<exists>r s'. serveBlob env req n (digest_of env content) s = (r, s') \<and> opStatus r = (if part then 206 else 200)
     \<and> opBody r = OBytes (range_read content off len) \<and> opMark r = Miss"
proof -
  let ?d = "digest_of env content"
  obtain s1 where g: "hosted_gate env req n s = (Inr False, s1)" "quiet s s1" using cold_gate [OF assms(1)] by blast
  note c1 = cold_quiet [OF assms(1) g(2)]
  obtain s2 where l: "on_cache (\<lambda>c. Lookup c (content_ref n ?d)) s1 = (Inr None, s2)" "quiet s1 s2"
    using lookupImmutable_miss [of "osCache s1" "content_ref n ?d"] c1
    by (auto simp: cold_def works_def on_cache_eq Lookup_def content_ref_def quiet_def)
  note c2 = cold_quiet [OF c1 l(2)]
  obtain s3 where o: "isOwnedNamespace env n s2 = (False, s3)" "quiet s2 s3" using cold_owned [OF c2] by blast
  note c3 = cold_quiet [OF c2 o(2)]
  obtain s4 where sh: "sharedBlobEntryFor env n ?d s3 = (None, s4)" "quiet s3 s4"
    using no_sharing [of s3 ?d env n] c3 by (auto simp: cold_def)
  note c4 = cold_quiet [OF c3 sh(2)]
  obtain s5 where o5: "isOwnedNamespace env n s4 = (False, s5)" "quiet s4 s5" using cold_owned [OF c4] by blast
  note c5 = cold_quiet [OF c4 o5(2)]
  have q: "quiet s s5" using g(2) l(2) o(2) sh(2) o5(2) quiet_trans by blast
  have net: "osNet s5 = osNet s" "c_tmp (osCache s5) = c_tmp (osCache s)" using q by (simp_all add: quiet_def calm_stores_def same_data_def)
  obtain entry s6 where f: "fetchAndStoreBlob env False n ?d s5 = (Inr entry, s6)" "ceSize entry = int (length content)"
    "holds n ?d content (osCache s6)"
    using fetchAndStoreBlob_live [OF c5 assms(2) _ _ assms(5)] assms(3,4) net by fastforce
  obtain e c'' where sv: "Serve (osCache s6) (content_ref n ?d) off len = (Inr (range_read content off len, Some e), c'')"
    using holds_Serve [OF f(3)] by fastforce
  have rd: "is_read req" "oci_isDigestRef env ?d" "may_fetch env n = Some False" "lock_of env = None"
    using assms(1,6) by (auto simp: is_read_def cold_def oci_isDigestRef_def hash_agrees_def lock_of_def)
  show ?thesis
    using g(1) l(1) o(1) sh(1) o5(1) f(1,2) sv rd assms(6,7)
    by (simp add: serveBlob_def second_chance_def miss_blob_def fetch_blob_def FetchLocked_def serve_entry_def on_cache_def
        oci_reply_def marked_def Let_def)
qed

text \<open>A manifest, whether it is asked for by tag or by digest.\<close>

lemma fetchAndStoreManifest_live:
  assumes "cold env n content s" and "upstreamForName (oeRemote env) (oeUpstreams env) n = Some (ups, fetchName)"
    and "Fetch (oeFetch env) (manifest_fetch_ref fetchName reference) ups [WithOCIManifestAccept] (osNet s) = (Inr (Some rd, umeta), w)"
    and "arrives_whole (oeFetch env) rd content"
  shows "\<exists>s'. fetchAndStoreManifest env False n reference s = (Inr (digest_of env content), s')
     \<and> holds n (digest_of env content) content (osCache s')"
proof -
  let ?d = "digest_of env content" and ?q = "oeQuarantine env"
  have ups: "ups \<noteq> []" using assms(1,2) by (auto simp: cold_def may_fetch_def)
  have qh: "q_healthy (c_tmp (osCache s))" "\<And>k. qeCtx ?q k = None" using assms(1) by (auto simp: cold_def works_def)
  define s1 where "s1 = s\<lparr>osNet := w\<rparr>"
  have fb: "fetch_body env False (manifest_fetch_ref fetchName reference) ups [WithOCIManifestAccept] s = (Inr (Some rd, umeta), s1)"
    using assms(3) by (simp add: fetch_body_def MaybeOffline_def s1_def)
  obtain st w2 path where fill: "fill_temp ?q (oeFetch env) ''quarantine manifest: '' (oeDir env) rd umeta (c_tmp (osCache s)) w
      = (Inr (quarantine_artifact ?q path content (int (length content)) umeta), st, w2)"
    and st: "q_files st path = Some content" "q_healthy st"
    using fill_temp_whole [OF assms(4) qh(2,1), of "''quarantine manifest: ''" "oeDir env" umeta w] by blast
  define art where "art = quarantine_artifact ?q path content (int (length content)) umeta"
  define s2 where "s2 = s1\<lparr>osCache := (osCache s1)\<lparr>c_tmp := st\<rparr>, osNet := w2\<rparr>"
  have wf: "with_fill (fill_temp ?q (oeFetch env) ''quarantine manifest: '' (oeDir env) rd umeta) s1 = (Inr art, s2)"
    using fill by (simp add: with_fill_def s1_def s2_def art_def)
  have art: "aDigest art = ?d" "aSize art = int (length content)" "aPath art = path"
    by (simp_all add: art_def quarantine_artifact_def digest_of_def)
  have cold2: "cold env n content s2"
    using assms(1) st(2) by (auto simp: cold_def accepts_def works_def lacks_def oci_inv_def cache_inv_def s2_def s1_def)
  have "q_files (c_tmp (osCache s2)) (aPath art) = Some content" using st(1) art(3) by (simp add: s2_def)
  from store_filled_live [OF cold2 art(1,2) this] obtain entry s3 where sf:
    "store_filled env ''cache store manifest: '' (content_ref n ?d) art s2 = (Inr entry, s3)"
    "holds n ?d content (osCache s3)" by blast
  have "fetchAndStoreManifest env False n reference s = (Inr ?d, point_tag env n reference art umeta s3)"
    using assms(2) ups fb wf sf(1) art(1) by (simp add: fetchAndStoreManifest_def)
  moreover have "holds n ?d content (osCache (point_tag env n reference art umeta s3))"
    using sf(2) by (auto simp: holds_def point_tag_def with_db_def PutMutable_def db_io_def db_healthy_def split: option.splits)
  ultimately show ?thesis by blast
qed

lemma fetch_manifest_live:
  assumes "cold env n content s" and "upstreamForName (oeRemote env) (oeUpstreams env) n = Some (ups, fetchName)"
    and "Fetch (oeFetch env) (manifest_fetch_ref fetchName reference) ups [WithOCIManifestAccept] (osNet s) = (Inr (Some rd, umeta), w)"
    and "arrives_whole (oeFetch env) rd content" and "oqMethod req = ''GET''"
  shows "\<exists>r s'. fetch_manifest env req False n reference s = (r, s') \<and> opStatus r = 200 \<and> opBody r = OBytes content
     \<and> (''Docker-Content-Digest'', digest_of env content) \<in> set (opHeaders r) \<and> opMark r = Miss"
proof -
  let ?d = "digest_of env content"
  obtain s1 where f: "fetchAndStoreManifest env False n reference s = (Inr ?d, s1)" "holds n ?d content (osCache s1)"
    using fetchAndStoreManifest_live [OF assms(1-4)] by blast
  obtain e c' where "Serve (osCache s1) (content_ref n ?d) 0 (-1) = (Inr (content, Some e), c')"
    using holds_Serve [OF f(2), of 0 "-1"] by (auto simp: range_read_whole)
  moreover have "lock_of env = None" using assms(1) by (simp add: cold_def lock_of_def)
  ultimately show ?thesis
    using f(1) assms(5)
    by (auto simp: fetch_manifest_def FetchLocked_def tryServeManifestFromCache_def on_cache_def manifest_reply_def oci_reply_def marked_def Let_def)
qed

lemma tag_unknown:
  assumes "cold env n content s" and "\<not> oci_isDigestRef env t" and "mutable_entries (c_db (osCache s)) (oci_mutableKey n t) = None"
  shows "\<exists>s'. resolveManifestDigest env n t s = (Inr [], s') \<and> quiet s s'"
proof -
  have key: "mutableKey (tag_ref n t) = oci_mutableKey n t" by (simp add: mutableKey_def tag_ref_def oci_mutableKey_def)
  have look: "\<exists>s'. lookup_tag n t u = (Inr [], s') \<and> quiet u s'"
    if "db_healthy (c_db (osCache u))" "mutable_entries (c_db (osCache u)) (oci_mutableKey n t) = None" for u :: "'a oci_state"
    using that
    by (auto simp: lookup_tag_def on_cache_def Lookup_def tag_ref_def lookupMutable_def with_db_def GetMutable_def db_io_def db_healthy_def
        key [unfolded tag_ref_def] quiet_def calm_stores_def same_data_def)
  have h: "db_healthy (c_db (osCache s))" using assms(1) by (simp add: cold_def works_def)
  define u where "u = s\<lparr>osCache := (osCache s)\<lparr>c_db := (c_db (osCache s))\<lparr>db_tick := Suc (db_tick (c_db (osCache s)))\<rparr>\<rparr>\<rparr>"
  have g: "on_cache (with_db (\<lambda>d. GetMutable d (oci_mutableKey n t))) s = (Inr None, u)"
    using h assms(3) by (simp add: on_cache_def with_db_def GetMutable_def db_io_def db_healthy_def u_def)
  have "quiet s u" "db_healthy (c_db (osCache u))" "mutable_entries (c_db (osCache u)) (oci_mutableKey n t) = None"
    using h assms(3) by (auto simp: u_def quiet_def calm_stores_def same_data_def db_healthy_def)
  with look [of s] look [of u] h assms(2,3) g show ?thesis
    by (cases "oeMeta env") (auto simp: resolveManifestDigest_def dest: quiet_trans)
qed

lemma manifest_not_cached:
  assumes "cold env n content s" and "lacks d (osCache s)" and "find_row (rows_of (osCache s)) (ref_key (content_ref n d)) = None"
  shows "\<exists>s'. tryServeManifestFromCache env req n d s = (None, s') \<and> quiet s s'"
proof -
  obtain s1 where sv: "on_cache (\<lambda>c. Serve c (content_ref n d) 0 (-1)) s = (Inl ErrCacheMiss, s1)" "quiet s s1"
    using lookupImmutable_miss [of "osCache s" "content_ref n d"] assms(1,3)
    by (auto simp: cold_def works_def on_cache_eq Serve_def Lookup_def ServeEntry_def content_ref_def quiet_def)
  note c1 = cold_quiet [OF assms(1) sv(2)]
  obtain s2 where h: "isHosted env n s1 = (False, s2)" "quiet s1 s2" using foreign_isHosted [of s1 n env] c1 quiet_control by (auto simp: cold_def)
  note c2 = cold_quiet [OF c1 h(2)]
  obtain s3 where o: "isOwnedNamespace env n s2 = (False, s3)" "quiet s2 s3" using cold_owned [OF c2] by blast
  note c3 = cold_quiet [OF c2 o(2)]
  have q: "quiet s s3" using sv(2) h(2) o(2) quiet_trans by blast
  then have "lacks d (osCache s3)" using assms(2) lacks_stores by (auto simp: quiet_def)
  then obtain s4 where "sharedBlobEntryFor env n d s3 = (None, s4)" "quiet s3 s4" using no_sharing [of s3 d env n] c3 by (auto simp: cold_def)
  then show ?thesis using sv(1) h(1) o(1) q by (auto simp: tryServeManifestFromCache_def dest: quiet_trans)
qed

lemma miss_manifest_live:
  assumes "cold env n content s" and "upstreamForName (oeRemote env) (oeUpstreams env) n = Some (ups, fetchName)"
    and "Fetch (oeFetch env) (manifest_fetch_ref fetchName reference) ups [WithOCIManifestAccept] (osNet s) = (Inr (Some rd, umeta), w)"
    and "arrives_whole (oeFetch env) rd content" and "oqMethod req = ''GET''"
  shows "\<exists>r s'. miss_manifest env req False n reference s = (r, s') \<and> opStatus r = 200 \<and> opBody r = OBytes content
     \<and> (''Docker-Content-Digest'', digest_of env content) \<in> set (opHeaders r) \<and> opMark r = Miss"
proof -
  obtain s1 where o: "isOwnedNamespace env n s = (False, s1)" "quiet s s1" using cold_owned [OF assms(1)] by blast
  have "osNet s1 = osNet s" "may_fetch env n = Some False" using o(2) assms(1) by (simp_all add: quiet_def cold_def)
  then show ?thesis
    using fetch_manifest_live [OF cold_quiet [OF assms(1) o(2)] assms(2) _ assms(4,5)] assms(3) o(1) by (simp add: miss_manifest_def)
qed

section \<open>Properties\<close>

text \<open>C11: A cold pull ends with the content. On sound and working stores that do not have the blob, for a
  name no organization owns: if an upstream answers and its body arrives whole, the request for
  the digest of this body is answered with 200 and all of it, or with 206 and the range asked for.
  (Fetch, quarantine, verification, storing and serving in one request.)\<close>

theorem cold_blob_pull_serves_content:
  assumes "cold env n content s" and "upstreamForName (oeRemote env) (oeUpstreams env) n = Some (ups, fetchName)"
    and "file_bytes (c_tmp (osCache s)) (partial_path env (digest_of env content)) = []"
    and "Fetch (oeFetch env) (blob_fetch_ref fetchName (digest_of env content)) ups [] (osNet s) = (Inr (Some rd, umeta), w)"
    and "arrives_whole (oeFetch env) rd content"
    and "oqMethod req = ''GET''" and "parseRange (oqRange req) (int (length content)) = Inr (off, len, part)"
  shows "\<exists>r s'. serveBlob env req n (digest_of env content) s = (r, s') \<and> opStatus r = (if part then 206 else 200)
     \<and> opBody r = OBytes (range_read content off len) \<and> opMark r = Miss"
  using assms by (rule cold_blob_pull)

text \<open>A tag the cache does not know is fetched, stored under the digest of what arrived and served with
  this digest.\<close>

theorem cold_tag_pull_serves_content:
  assumes "cold env n content s" and "upstreamForName (oeRemote env) (oeUpstreams env) n = Some (ups, fetchName)"
    and "\<not> oci_isDigestRef env tag" and "mutable_entries (c_db (osCache s)) (oci_mutableKey n tag) = None"
    and "Fetch (oeFetch env) (manifest_fetch_ref fetchName tag) ups [WithOCIManifestAccept] (osNet s) = (Inr (Some rd, umeta), w)"
    and "arrives_whole (oeFetch env) rd content" and "oqMethod req = ''GET''"
  shows "\<exists>r s'. serveManifest env req n tag s = (r, s') \<and> opStatus r = 200 \<and> opBody r = OBytes content
     \<and> (''Docker-Content-Digest'', digest_of env content) \<in> set (opHeaders r) \<and> opMark r = Miss"
proof -
  obtain s1 where g: "hosted_gate env req n s = (Inr False, s1)" "quiet s s1" using cold_gate [OF assms(1)] by blast
  note c1 = cold_quiet [OF assms(1) g(2)]
  have m1: "mutable_entries (c_db (osCache s1)) (oci_mutableKey n tag) = None"
    using g(2) assms(4) by (simp add: quiet_def calm_stores_def same_data_def)
  obtain s2 where t: "resolveManifestDigest env n tag s1 = (Inr [], s2)" "quiet s1 s2" using tag_unknown [OF c1 assms(3) m1] by blast
  have "osNet s2 = osNet s" using g(2) t(2) by (simp add: quiet_def)
  with miss_manifest_live [OF cold_quiet [OF c1 t(2)] assms(2) _ assms(6,7), of tag umeta w] assms(5,7) g(1) t(1)
  show ?thesis by (simp add: serveManifest_def is_read_def)
qed

text \<open>A manifest asked for by its digest may be another one. When the upstream answers such a request
  with different content, the handler stores it under the digest it really has and answers the
  client with 200 and this content; for a blob the same mismatch is an error.\<close>

theorem pinned_manifest_is_not_checked:
  assumes "cold env n content s" and "upstreamForName (oeRemote env) (oeUpstreams env) n = Some (ups, fetchName)"
    and "oci_isDigestRef env pin" and "pin \<noteq> []" and "lacks pin (osCache s)"
    and "find_row (rows_of (osCache s)) (ref_key (content_ref n pin)) = None"
    and "Fetch (oeFetch env) (manifest_fetch_ref fetchName pin) ups [WithOCIManifestAccept] (osNet s) = (Inr (Some rd, umeta), w)"
    and "arrives_whole (oeFetch env) rd content" and "oqMethod req = ''GET''"
  shows "\<exists>r s'. serveManifest env req n pin s = (r, s') \<and> opStatus r = 200 \<and> opBody r = OBytes content
     \<and> (''Docker-Content-Digest'', digest_of env content) \<in> set (opHeaders r)"
proof -
  obtain s1 where g: "hosted_gate env req n s = (Inr False, s1)" "quiet s s1" using cold_gate [OF assms(1)] by blast
  note c1 = cold_quiet [OF assms(1) g(2)]
  have l1: "lacks pin (osCache s1)" "find_row (rows_of (osCache s1)) (ref_key (content_ref n pin)) = None"
    using g(2) assms(5,6) lacks_stores [of "osCache s" "osCache s1" pin] by (auto simp: quiet_def calm_stores_def same_data_def)
  obtain s2 where t: "tryServeManifestFromCache env req n pin s1 = (None, s2)" "quiet s1 s2" using manifest_not_cached [OF c1 l1] by blast
  have "osNet s2 = osNet s" using g(2) t(2) by (simp add: quiet_def)
  with miss_manifest_live [OF cold_quiet [OF c1 t(2)] assms(2) _ assms(8,9), of pin umeta w] assms(3,4,7,9) g(1) t(1)
  show ?thesis by (auto simp: serveManifest_def is_read_def resolveManifestDigest_def)
qed

text \<open>A range that is accepted lies within the object: it starts at or after the first byte, ends at or
  before the last, and its length is not negative; without a range the whole object is read.\<close>

theorem parseRange_within:
  assumes "0 \<le> sz" and "parseRange h sz = Inr (off, len, part)"
  shows "if part then 0 \<le> off \<and> 0 \<le> len \<and> off + len \<le> sz else off = 0 \<and> len = -1 \<and> h = []"
  using assms by (auto simp: parseRange_def Let_def split: if_splits option.splits)

text \<open>When the control database is down, a private repository is open: the failed look-up counts as
  "not hosted", the gate is passed over for every caller, and what the cache holds under the name
  is served.\<close>

theorem hosted_gate_fails_open:
  assumes "\<And>k. c_fault (osControl s) k \<noteq> None" and "holds n d content (osCache s)" and "oci_isDigestRef env d" and "d \<noteq> []"
    and "oqMethod req = ''GET''" and "oqRange req = []"
  shows "\<exists>r s'. serveBlob env req n d s = (r, s') \<and> opStatus r = 200 \<and> opBody r = OBytes content \<and> opMark r = Hit"
proof -
  obtain e1 e2 where "c_fault (osControl s) (c_tick (osControl s)) = Some e1" "c_fault (osControl s) (Suc (c_tick (osControl s))) = Some e2"
    using assms(1) by (meson not_Some_eq)
  then have "\<exists>db. ResolveHosted (osControl s) n = (Inr False, db)"
    by (simp add: ResolveHosted_def resolveOrgID_def GetOrgBySlug_def GetOrg_def query_def sql_def)
  then have "\<exists>s1. isHosted env n s = (False, s1) \<and> osCache s1 = osCache s"
    by (cases "oeHosted env") (auto simp: isHosted_def)
  then obtain s1 where g: "hosted_gate env req n s = (Inr False, s1)" "osCache s1 = osCache s"
    by (auto simp: hosted_gate_def)
  obtain r where h: "db_healthy (c_db (osCache s))" "disk_healthy (c_disk (osCache s))" "blob_present (c_disk (osCache s)) d content"
    "find_row (rows_of (osCache s)) (ref_key (content_ref n d)) = Some r" "r_digest r = d"
    using assms(2) by (auto simp: holds_def)
  obtain c1 where l: "lookupImmutable (osCache s) (content_ref n d) = (Inr (Some (row_CacheEntry r)), c1)"
    using lookupImmutable_healthy [OF h(1,2,4)] h(3,5) by (auto simp: content_ref_def)
  have same: "same_data (osCache s) c1" using same_data_lookupImmutable [of "osCache s" "content_ref n d"] l by simp
  have "db_healthy (c_db c1)" "disk_healthy (c_disk c1)"
    using l h(1,2) by (auto simp: lookupImmutable_def Get_def db_io_def db_healthy_def disk_healthy_def blob_Exists_def disk_try_def disk_io_def
        split: sum.splits option.splits prod.splits if_splits)
  then have "holds n d content c1"
    using h same blob_present_cong [of "c_disk c1" "c_disk (osCache s)" d content] by (auto simp: holds_def same_data_def)
  then obtain e c2 where "Serve c1 (content_ref n d) 0 (-1) = (Inr (content, Some e), c2)"
    using holds_Serve [OF _ assms(4), of n content c1 0 "-1"] by (auto simp: range_read_whole)
  then show ?thesis
    using g l assms(3,5,6)
    by (simp add: serveBlob_def is_read_def on_cache_def Lookup_def content_ref_def serve_entry_def parseRange_def oci_reply_def marked_def Let_def)
qed

section \<open>A concrete registry\<close>

definition pull_dg :: digest_lib where
  "pull_dg = \<lparr>dg_valid = (\<lambda>d. HasPrefix d ''sha256:''), dg_hex = (\<lambda>_ c. hex_EncodeToString c)\<rparr>"

definition pull_env :: "simple_cb oci_env" where
  "pull_env =
     \<lparr>oeCache = \<lparr>cvDigest = pull_dg, cvChain = (\<lambda>_. [ChecksumVerifier])\<rparr>, oeQuarantine = demo_q, oeFetch = demo_env, oeMeta = True,
      oeClient = Some False, oeUpstreams = [mirror ''docker'' 1], oeRemote = Map.empty, oeTTL = 300, oeDir = ''/q'', oeTempDir = ''/tmp'',
      oeHosted = True, oeHostedAuthz = True, oeOwned = True, oeLock = None, oeManifest = (\<lambda>_. None)\<rparr>"

definition empty_cache :: cache_state where
  "empty_cache =
     \<lparr>c_db = \<lparr>cache_entries = [], mutable_entries = (\<lambda>_. None), db_now = 5 * Second, db_tick = 0, db_fault = no_faults\<rparr>,
      c_disk = \<lparr>disk_root = ''/cas'', blob_files = Map.empty, disk_tick = 0, disk_fault = no_faults\<rparr>,
      c_tmp = \<lparr>q_files = Map.empty, q_tick = 0, q_fault = (\<lambda>_. None)\<rparr>,
      c_maxBytes = 0, c_uniform = 1 / 2, c_metrics = [], c_verified = [], c_evicted = []\<rparr>"

definition pull_state :: "fault_plan \<Rightarrow> simple_cb oci_state" where
  "pull_state fault = \<lparr>osCache = empty_cache, osControl = acme_db ''viewer'' [acme_app] fault, osNet = demo_world\<rparr>"

definition pull_req :: "string \<Rightarrow> oci_request" where
  "pull_req rng = \<lparr>oqMethod = ''GET'', oqPath = ''/v2/lib/a/blobs/sha256:6c61796572'', oqRange = rng, oqClaims = None\<rparr>"

lemma pull_digest: "digest_of pull_env ''layer'' = ''sha256:6c61796572''"
  by (simp add: digest_of_def pull_env_def demo_q_def) code_simp

lemma pull_cold: "cold pull_env ''lib/a'' ''layer'' (pull_state no_faults)"
proof -
  have hash: "hash_agrees pull_env ''layer''"
    unfolding hash_agrees_def pull_digest by (simp add: pull_env_def pull_dg_def) code_simp
  have acc: "accepts pull_env ''lib/a'' ''layer'' c" for c
    unfolding accepts_def pull_digest
    by (auto simp: pull_env_def chain_Verify_def ChecksumVerifier_def checksum_Verify_def content_ref_def)
  have frames: "chain_frames (oeCache pull_env)"
    by (auto simp: chain_frames_def pull_env_def ChecksumVerifier_def checksum_Verify_def)
  have foreign: "foreign_name (osControl (pull_state no_faults)) ''lib/a''"
    unfolding foreign_name_def by (simp add: pull_state_def acme_db_def ctl_healthy_def) code_simp
  have mf: "may_fetch pull_env ''lib/a'' = Some False" by code_simp
  show ?thesis
    unfolding cold_def
    by (intro conjI frames hash acc foreign mf)
      (auto simp: pull_env_def demo_q_def pull_state_def empty_cache_def oci_inv_def cache_inv_def rows_inv_def ldisk.intact_def works_def
        db_healthy_def disk_healthy_def q_healthy_def lacks_def blob_present_def find_row_def)
qed

lemma pull_fetch:
  "\<exists>rd umeta w. Fetch demo_env ref [mirror ''docker'' 1] options demo_world = (Inr (Some rd, umeta), w) \<and> arrives_whole demo_env rd ''layer''"
proof -
  let ?up = "mirror ''docker'' 1"
  have eff: "effective (fwRuntime demo_world) [?up] = [?up]"
    by (simp add: demo_world_def NewRuntime_def mirror_def effective_def sortedUpstreams_def)
  obtain w1 where w1: "isBlocked demo_env demo_world ''docker'' = (False, w1)" "calm w1" using calm_isBlocked [OF calm_demo_world] by blast
  define att where "att = \<lparr>faBody = Some (rsBody (demo_response 200)), faMeta = extractMeta (demo_response 200) ''docker'', faLatency = 7\<rparr>"
  have ans: "demo_answer ''docker'' = Inr att" by (simp add: demo_answer_def att_def)
  obtain w2 where t: "tryFetch demo_env ref ?up None (buildRequestOpts options) (budget_for demo_env chain_start 0 ?up) 0 w1 = (Inr att, w2)"
    using demo_tryFetch [OF w1(2), of "''docker''"] ans by fastforce
  have nm: "upName ?up = ''docker''" by (simp add: mirror_def)
  have "fetch_try demo_env ref (buildRequestOpts options) ?up [] 0 (budget_for demo_env chain_start 0 ?up) w1 = ((Inr att, ?up), w2)"
    using t by (simp add: fetch_try_def hedgeEligible_def)
  then have "\<exists>w3. chain_walk demo_env (fetch_try demo_env ref (buildRequestOpts options)) [?up] chain_start demo_world = (Served (att, ?up), w3)"
    using w1(1) by (simp add: nm)
  then obtain w3 where "Fetch demo_env ref [?up] options demo_world
      = (Inr (Some (wrapResuming demo_env ref ?up [?up] (buildRequestOpts options) [(''layer'', Some BodyEOF)]), faMeta att), w3)"
    by (auto simp: Fetch_def eff Let_def att_def demo_response_def)
  then show ?thesis by (auto simp: arrives_whole_def clean_body_def wrapResuming_def demo_env_def)
qed

lemma pull_routes: "upstreamForName (oeRemote pull_env) (oeUpstreams pull_env) ''lib/a'' = Some ([mirror ''docker'' 1], ''lib/a'')"
  by code_simp

theorem cold_blob_pull_serves_content_witness:
  "\<exists>r s'. serveBlob pull_env (pull_req ''bytes=1-2'') ''lib/a'' ''sha256:6c61796572'' (pull_state no_faults) = (r, s')
     \<and> opStatus r = 206 \<and> opBody r = OBytes ''ay''"
proof -
  obtain rd umeta w where f: "Fetch (oeFetch pull_env) (blob_fetch_ref ''lib/a'' (digest_of pull_env ''layer'')) [mirror ''docker'' 1] []
      (osNet (pull_state no_faults)) = (Inr (Some rd, umeta), w)" "arrives_whole (oeFetch pull_env) rd ''layer''"
    using pull_fetch by (fastforce simp: pull_env_def pull_state_def)
  have tmp: "file_bytes (c_tmp (osCache (pull_state no_faults))) p = []" for p
    by (simp add: pull_state_def empty_cache_def file_bytes_def)
  have range: "parseRange ''bytes=1-2'' 5 = Inr (1, 2, True)" by code_simp
  have "range_read ''layer'' 1 2 = ''ay''" by code_simp
  with cold_blob_pull_serves_content [OF pull_cold pull_routes tmp f, of "pull_req ''bytes=1-2''" 1 2 True] range
  show ?thesis by (auto simp: pull_req_def pull_digest)
qed

theorem cold_tag_pull_serves_content_witness:
  "\<exists>r s'. serveManifest pull_env (pull_req []) ''lib/a'' ''latest'' (pull_state no_faults) = (r, s')
     \<and> opStatus r = 200 \<and> opBody r = OBytes ''layer''"
proof -
  obtain rd umeta w where f: "Fetch (oeFetch pull_env) (manifest_fetch_ref ''lib/a'' ''latest'') [mirror ''docker'' 1] [WithOCIManifestAccept]
      (osNet (pull_state no_faults)) = (Inr (Some rd, umeta), w)" "arrives_whole (oeFetch pull_env) rd ''layer''"
    using pull_fetch by (fastforce simp: pull_env_def pull_state_def)
  have "\<not> oci_isDigestRef pull_env ''latest''" by code_simp
  from cold_tag_pull_serves_content [OF pull_cold pull_routes this _ f, of "pull_req []"] show ?thesis
    by (auto simp: pull_req_def pull_state_def empty_cache_def)
qed

theorem pinned_manifest_is_not_checked_witness:
  "\<exists>r s'. serveManifest pull_env (pull_req []) ''lib/a'' ''sha256:00'' (pull_state no_faults) = (r, s')
     \<and> opStatus r = 200 \<and> opBody r = OBytes ''layer'' \<and> (''Docker-Content-Digest'', ''sha256:6c61796572'') \<in> set (opHeaders r)"
proof -
  obtain rd umeta w where f: "Fetch (oeFetch pull_env) (manifest_fetch_ref ''lib/a'' ''sha256:00'') [mirror ''docker'' 1] [WithOCIManifestAccept]
      (osNet (pull_state no_faults)) = (Inr (Some rd, umeta), w)" "arrives_whole (oeFetch pull_env) rd ''layer''"
    using pull_fetch by (fastforce simp: pull_env_def pull_state_def)
  have "oci_isDigestRef pull_env ''sha256:00''" by code_simp
  moreover have "lacks ''sha256:00'' (osCache (pull_state no_faults))" by (simp add: lacks_def blob_present_def pull_state_def empty_cache_def)
  ultimately show ?thesis
    using pinned_manifest_is_not_checked [OF pull_cold pull_routes _ _ _ _ f, of "pull_req []"]
    by (auto simp: pull_req_def pull_state_def empty_cache_def find_row_def pull_digest)
qed

theorem parseRange_within_witness: "parseRange ''bytes=-3'' 5 = Inr (2, 3, True) \<and> (2 :: int) + 3 \<le> 5"
proof -
  have r: "parseRange ''bytes=-3'' 5 = Inr (2, 3, True)" by code_simp
  from parseRange_within [OF _ this] r show ?thesis by simp
qed

definition acme_cache :: cache_state where
  "acme_cache = empty_cache\<lparr>c_db := (c_db empty_cache)\<lparr>cache_entries := [entry_row 0
        \<lparr>ceRef = content_ref ''acme/app'' ''sha256:6c61796572'', ceDigest = ''sha256:6c61796572'', ceSize = 5, ceProtocol = ''oci'', ceTier = TierChecksum,
         ceUpstream = [], ceETag = [], ceVerifiedAt = 0, ceCreatedAt = 0, ceOrigin = OriginHosted, ceSoftExpired = False\<rparr>]\<rparr>,
     c_disk := (c_disk empty_cache)\<lparr>blob_files := [[''/cas'', ''6c'', ''6c61796572''] \<mapsto> ''layer'']\<rparr>\<rparr>"

lemma acme_holds: "holds ''acme/app'' ''sha256:6c61796572'' ''layer'' acme_cache"
  by (simp add: holds_def acme_cache_def empty_cache_def db_healthy_def disk_healthy_def blob_present_def blobPath_def hexDigest_def
      find_row_def row_key_def ref_key_def entry_row_def content_ref_def)

theorem hosted_gate_fails_open_witness:
  "\<exists>r s'. serveBlob pull_env (pull_req []) ''acme/app'' ''sha256:6c61796572'' ((pull_state (\<lambda>_. Some ''database is locked''))\<lparr>osCache := acme_cache\<rparr>) = (r, s')
     \<and> opStatus r = 200 \<and> opBody r = OBytes ''layer''"
proof -
  have "oci_isDigestRef pull_env ''sha256:6c61796572''" by code_simp
  then show ?thesis
    using hosted_gate_fails_open [of "(pull_state (\<lambda>_. Some ''database is locked''))\<lparr>osCache := acme_cache\<rparr>" "''acme/app''" "''sha256:6c61796572''" "''layer''"
        pull_env "pull_req []"] acme_holds
    by (auto simp: pull_state_def acme_db_def pull_req_def)
qed

theorem registry_pull_is_sound_witness:
  "\<exists>r s'. oci_ServeHTTP pull_env (pull_req []) (pull_state no_faults) = (r, s') \<and> opBody r = OBytes ''layer''
     \<and> cache_inv pull_dg (osCache s') \<and> (\<exists>d p c off len. blobPath (c_disk (osCache s')) d = Inr p \<and> path_matches pull_dg p c \<and> ''layer'' = range_read c off len)"
proof -
  obtain rd umeta w where f: "Fetch (oeFetch pull_env) (blob_fetch_ref ''lib/a'' (digest_of pull_env ''layer'')) [mirror ''docker'' 1] []
      (osNet (pull_state no_faults)) = (Inr (Some rd, umeta), w)" "arrives_whole (oeFetch pull_env) rd ''layer''"
    using pull_fetch by (fastforce simp: pull_env_def pull_state_def)
  have tmp: "file_bytes (c_tmp (osCache (pull_state no_faults))) p = []" for p
    by (simp add: pull_state_def empty_cache_def file_bytes_def)
  have whole: "parseRange [] 5 = Inr (0, -1, False)" by code_simp
  obtain r s' where sb: "serveBlob pull_env (pull_req []) ''lib/a'' ''sha256:6c61796572'' (pull_state no_faults) = (r, s')" "opBody r = OBytes ''layer''"
    using cold_blob_pull [OF pull_cold pull_routes tmp f, of "pull_req []" 0 "-1" False] whole by (auto simp: pull_req_def pull_digest range_read_whole)
  have path: "LastIndex ''lib/a/blobs/sha256:6c61796572'' ''/manifests/'' = None" "LastIndex ''lib/a/blobs/sha256:6c61796572'' ''/blobs/'' = Some 5"
    "TrimPrefix ''/v2/lib/a/blobs/sha256:6c61796572'' ''/v2/'' = ''lib/a/blobs/sha256:6c61796572''"
    "HasPrefix ''/v2/lib/a/blobs/sha256:6c61796572'' ''/v2/''" by code_simp+
  then have run: "oci_ServeHTTP pull_env (pull_req []) (pull_state no_faults) = (r, s')"
    using sb(1) by (simp add: oci_ServeHTTP_def pull_req_def)
  have frames: "chain_frames (oeCache pull_env)" "cache_inv (cvDigest (oeCache pull_env)) (osCache (pull_state no_faults))"
    using pull_cold by (simp_all add: cold_def oci_inv_def)
  have lock: "lock_sound pull_env" by (simp add: lock_sound_def pull_env_def)
  have np: "oqPath (pull_req []) \<noteq> ''/v2/''" "oqPath (pull_req []) \<noteq> ''/v2''" by (simp_all add: pull_req_def)
  have "cvDigest (oeCache pull_env) = pull_dg" by (simp add: pull_env_def)
  with registry_pull_is_sound [OF frames(1) lock frames(2) np run] run sb(2) show ?thesis by (metis (no_types, lifting))
qed



end
