(* ===== verification/Users.thy ===== *)
theory Users
  imports Orgs
begin

text \<open>
  Accounts: the table \<^verbatim>\<open>users\<close> (\<^verbatim>\<open>internal/store/sqlite/users.go\<close>) and the service that
  registers accounts and checks passwords (\<^verbatim>\<open>internal/auth/service.go\<close>). A statement fails as
  the fault plan says, without effect. Identifiers come from \<^verbatim>\<open>AUTOINCREMENT\<close>, so an
  identifier is never given twice. The password hash (bcrypt) is a parameter.
\<close>

section \<open>The table\<close>

record User =
  usID :: int
  usEmail :: string
  usName :: string
  usPasswordHash :: string
  usSystemRole :: string
  usTokenGen :: int
  usCreatedAt :: gotime

record userdb =
  ud_rows :: "User list"
  ud_seq :: int
  ud_now :: gotime
  ud_tick :: nat
  ud_fault :: fault_plan

datatype user_err = UserNotFound | EmailTaken | EmailRequired | PasswordTooShort | InvalidCredentials | UserErr string

definition user_sql :: "userdb \<Rightarrow> string option \<times> userdb" where
  "user_sql db = (ud_fault db (ud_tick db), db\<lparr>ud_tick := Suc (ud_tick db)\<rparr>)"

definition user_query :: "userdb \<Rightarrow> string \<Rightarrow> (userdb \<Rightarrow> user_err + 'a) \<Rightarrow> (user_err + 'a) \<times> userdb" where
  "user_query db what f =
     (case user_sql db of
        (Some e, db1) \<Rightarrow> (Inl (UserErr (what @ e)), db1)
      | (None, db1) \<Rightarrow> (f db, db1))"

definition found :: "User option \<Rightarrow> user_err + User" where
  "found r = (case r of None \<Rightarrow> Inl UserNotFound | Some u \<Rightarrow> Inr u)"

definition CountUsers :: "userdb \<Rightarrow> (user_err + nat) \<times> userdb" where
  "CountUsers db = user_query db ''sqlite: count users: '' (\<lambda>d. Inr (length (ud_rows d)))"

definition GetUserByEmail :: "userdb \<Rightarrow> string \<Rightarrow> (user_err + User) \<times> userdb" where
  "GetUserByEmail db email = user_query db [] (\<lambda>d. found (find (\<lambda>u. usEmail u = email) (ud_rows d)))"

definition GetUserByID :: "userdb \<Rightarrow> int \<Rightarrow> (user_err + User) \<times> userdb" where
  "GetUserByID db i = user_query db [] (\<lambda>d. found (find (\<lambda>u. usID u = i) (ud_rows d)))"

text \<open>The row keeps whole seconds; a count of zero seconds is read as no time.\<close>

definition user_row :: "User \<Rightarrow> User" where
  "user_row u = u\<lparr>usCreatedAt := (if Unix (usCreatedAt u) = 0 then zeroTime else timeUnix (Unix (usCreatedAt u)))\<rparr>"

definition CreateUser :: "userdb \<Rightarrow> User \<Rightarrow> (user_err + User) \<times> userdb" where
  "CreateUser db u =
     (let u1 = u\<lparr>usCreatedAt := (if IsZero (usCreatedAt u) then ud_now db else usCreatedAt u),
                 usSystemRole := (if usSystemRole u = [] then ''user'' else usSystemRole u)\<rparr> in
      case user_sql db of
        (Some e, db1) \<Rightarrow>
          (Inl (if Contains e ''UNIQUE constraint failed'' then EmailTaken
                else UserErr (''sqlite: create user '' @ quote (usEmail u1) @ '': '' @ e)), db1)
      | (None, db1) \<Rightarrow>
          if list_ex (\<lambda>x. usEmail x = usEmail u1) (ud_rows db1) then (Inl EmailTaken, db1)
          else
            let i = ud_seq db1 + 1; u2 = u1\<lparr>usID := i\<rparr> in
            (Inr u2, db1\<lparr>ud_rows := ud_rows db1 @ [user_row u2], ud_seq := i\<rparr>))"

definition set_user :: "int \<Rightarrow> (User \<Rightarrow> User) \<Rightarrow> userdb \<Rightarrow> userdb" where
  "set_user i f db = db\<lparr>ud_rows := map (\<lambda>u. if usID u = i then f u else u) (ud_rows db)\<rparr>"

definition has_user :: "int \<Rightarrow> userdb \<Rightarrow> bool" where
  "has_user i db = list_ex (\<lambda>u. usID u = i) (ud_rows db)"

definition user_exec :: "userdb \<Rightarrow> string \<Rightarrow> int \<Rightarrow> (userdb \<Rightarrow> userdb) \<Rightarrow> user_err option \<times> userdb" where
  "user_exec db what i f =
     (case user_sql db of
        (Some e, db1) \<Rightarrow> (Some (UserErr (what @ '' (id='' @ itoa i @ ''): '' @ e)), db1)
      | (None, db1) \<Rightarrow> if has_user i db1 then (None, f db1) else (Some UserNotFound, db1))"

definition BumpTokenGen :: "userdb \<Rightarrow> int \<Rightarrow> (user_err + int) \<times> userdb" where
  "BumpTokenGen db i =
     (case user_exec db ''sqlite: bump token gen'' i (set_user i (\<lambda>u. u\<lparr>usTokenGen := usTokenGen u + 1\<rparr>)) of
        (Some e, db1) \<Rightarrow> (Inl e, db1)
      | (None, db1) \<Rightarrow>
          (case find (\<lambda>u. usID u = i) (ud_rows db1) of
             None \<Rightarrow> (Inl UserNotFound, db1)
           | Some u \<Rightarrow> (Inr (usTokenGen u), db1)))"

definition ListUsers :: "userdb \<Rightarrow> int \<Rightarrow> int \<Rightarrow> (user_err + User list \<times> nat) \<times> userdb" where
  "ListUsers db limit offset =
     (case user_query db ''sqlite: list users count: '' (\<lambda>d. Inr (length (ud_rows d))) of
        (Inl e, db1) \<Rightarrow> (Inl e, db1)
      | (Inr n, db1) \<Rightarrow>
          (case user_query db1 ''sqlite: list users: ''
                  (\<lambda>d. Inr (let rest = drop (nat offset) (isort (\<lambda>a b. usID a \<le> usID b) (ud_rows d)) in
                            if limit \<le> 0 then rest else take (nat limit) rest)) of
             (Inl e, db2) \<Rightarrow> (Inl e, db2)
           | (Inr us, db2) \<Rightarrow> (Inr (us, n), db2)))"

definition UpdateUserRole :: "userdb \<Rightarrow> int \<Rightarrow> string \<Rightarrow> user_err option \<times> userdb" where
  "UpdateUserRole db i role = user_exec db ''sqlite: update user role'' i (set_user i (\<lambda>u. u\<lparr>usSystemRole := role\<rparr>))"

definition UpdateUserFields :: "userdb \<Rightarrow> int \<Rightarrow> string option \<Rightarrow> string option \<Rightarrow> user_err option \<times> userdb" where
  "UpdateUserFields db i name passwordHash =
     (if name = None \<and> passwordHash = None then
        (case GetUserByID db i of (Inl e, db1) \<Rightarrow> (Some e, db1) | (Inr _, db1) \<Rightarrow> (None, db1))
      else
        user_exec db ''sqlite: update user fields'' i
          (set_user i (\<lambda>u. u\<lparr>usName := (case name of None \<Rightarrow> usName u | Some n \<Rightarrow> n),
                            usPasswordHash := (case passwordHash of None \<Rightarrow> usPasswordHash u | Some h \<Rightarrow> h)\<rparr>)))"

definition DeleteUser :: "userdb \<Rightarrow> int \<Rightarrow> user_err option \<times> userdb" where
  "DeleteUser db i =
     user_exec db ''sqlite: delete user'' i (\<lambda>d. d\<lparr>ud_rows := filter (\<lambda>u. usID u \<noteq> i) (ud_rows d)\<rparr>)"

section \<open>The service\<close>

definition MinPasswordLen :: nat where "MinPasswordLen = 8"

definition DefaultOrgID :: string where "DefaultOrgID = ''default''"
definition DefaultOrgName :: string where "DefaultOrgName = ''Default''"
definition DefaultOrgSlug :: string where "DefaultOrgSlug = ''default''"

record hasher =
  haHash :: "string \<Rightarrow> string + string"
  haCompare :: "string \<Rightarrow> string \<Rightarrow> bool"

text \<open>
  The default organization is set up best-effort for the first account, whose errors are ignored.
\<close>

definition bootstrap_org :: "User \<Rightarrow> control \<Rightarrow> control" where
  "bootstrap_org u ctl =
     (case CreateOrg ctl \<lparr>oID = DefaultOrgID, oName = DefaultOrgName, oSlug = DefaultOrgSlug, oStatus = StatusActive,
             oCreatedBy = UserSubjectID (usID u), oCreatedAt = c_now ctl, oRole = [], oSystemAccess = False\<rparr> of
        (_, _, ctl1) \<Rightarrow>
          snd (AddOrgMember ctl1 \<lparr>mID = [], mOrgID = DefaultOrgID, mEmail = usEmail u, mRole = RoleOwner,
                 mInvitedBy = [], mCreatedAt = c_now ctl\<rparr>))"

definition new_user :: "string \<Rightarrow> string \<Rightarrow> string \<Rightarrow> string \<Rightarrow> User" where
  "new_user email name h role =
     \<lparr>usID = 0, usEmail = email, usName = name, usPasswordHash = h, usSystemRole = role, usTokenGen = 0, usCreatedAt = zeroTime\<rparr>"

definition wrap_user :: "string \<Rightarrow> user_err \<Rightarrow> user_err" where
  "wrap_user what e = (case e of UserErr m \<Rightarrow> UserErr (what @ m) | _ \<Rightarrow> e)"

text \<open>
  Between counting the accounts and inserting the new one other requests may run (\<open>others\<close>); \<open>orgs\<close>
  says whether an organization store is attached.
\<close>

definition Register ::
  "hasher \<Rightarrow> bool \<Rightarrow> (userdb \<Rightarrow> userdb) \<Rightarrow> string \<Rightarrow> string \<Rightarrow> string \<Rightarrow> userdb \<Rightarrow> control \<Rightarrow>
   (user_err + User) \<times> userdb \<times> control" where
  "Register ha orgs others email0 password name db ctl =
     (let email = TrimSpace (ToLower email0) in
      if email = [] then (Inl EmailRequired, db, ctl)
      else if length password < MinPasswordLen then (Inl PasswordTooShort, db, ctl)
      else
        case GetUserByEmail db email of
          (Inr _, db1) \<Rightarrow> (Inl EmailTaken, db1, ctl)
        | (Inl e, db1) \<Rightarrow>
            if e \<noteq> UserNotFound then (Inl (wrap_user ''auth: check email: '' e), db1, ctl)
            else (case CountUsers db1 of
               (Inl e, db2) \<Rightarrow> (Inl (wrap_user ''auth: count users: '' e), db2, ctl)
             | (Inr count, db2) \<Rightarrow>
                 (case haHash ha password of
                    Inl e \<Rightarrow> (Inl (UserErr (''auth: hash password: '' @ e)), db2, ctl)
                  | Inr h \<Rightarrow>
                      (case CreateUser (others db2) (new_user email name h (if count = 0 then ''admin'' else ''user'')) of
                         (Inl e, db3) \<Rightarrow> (Inl (wrap_user ''auth: create user: '' e), db3, ctl)
                       | (Inr u, db3) \<Rightarrow>
                           (Inr u, db3, if count = 0 \<and> orgs then bootstrap_org u ctl else ctl)))))"

text \<open>Who the password belongs to; every failure is the same error.\<close>

definition check_password :: "hasher \<Rightarrow> string \<Rightarrow> string \<Rightarrow> userdb \<Rightarrow> (user_err + User) \<times> userdb" where
  "check_password ha email0 password db =
     (case GetUserByEmail db (TrimSpace (ToLower email0)) of
        (Inl _, db1) \<Rightarrow> (Inl InvalidCredentials, db1)
      | (Inr u, db1) \<Rightarrow>
          if haCompare ha (usPasswordHash u) password then (Inr u, db1) else (Inl InvalidCredentials, db1))"

definition Login :: "hasher \<Rightarrow> (User \<Rightarrow> string + string) \<Rightarrow> string \<Rightarrow> string \<Rightarrow> userdb \<Rightarrow> (user_err + string \<times> User) \<times> userdb" where
  "Login ha sign email password db =
     (case check_password ha email password db of
        (Inl e, db1) \<Rightarrow> (Inl e, db1)
      | (Inr u, db1) \<Rightarrow>
          (case sign u of
             Inl e \<Rightarrow> (Inl (UserErr (''auth: sign token: '' @ e)), db1)
           | Inr token \<Rightarrow> (Inr (token, u), db1)))"

definition Logout :: "userdb \<Rightarrow> int \<Rightarrow> user_err option \<times> userdb" where
  "Logout db userID =
     (case BumpTokenGen db userID of (Inl e, db1) \<Rightarrow> (Some (wrap_user ''auth: bump token gen: '' e), db1) | (Inr _, db1) \<Rightarrow> (None, db1))"

end
