(* ===== verification/ApiKeys.thy ===== *)
theory ApiKeys
  imports RegistryAuthz Users "HOL-Library.AList"
begin

text \<open>
  API keys (\<^verbatim>\<open>internal/apikey\<close>): the store on the table \<^verbatim>\<open>api_keys\<close> and the one in memory.
  A key is random text behind a prefix; only its hash is kept. The hash (SHA-256) and the decoding
  of a JSON array are parameters, random text comes from supplies. Statements of the database fail
  as the fault plan says, without effect.
\<close>

section \<open>Keys\<close>

record key_env =
  keHash :: "string \<Rightarrow> string"
  keUnmarshal :: "string \<Rightarrow> string list option"

definition KeyPrefix :: string where "KeyPrefix = ''spck_''"
definition SubjectPrefix :: string where "SubjectPrefix = ''apikey:''"

definition SubjectID :: "string \<Rightarrow> string" where
  "SubjectID keyID = (if TrimSpace keyID = [] then [] else SubjectPrefix @ keyID)"

record KeyInfo =
  kiID :: string
  kiOrgID :: string
  kiUserID :: string
  kiLabel :: string
  kiPrefix :: string
  kiScopes :: "string list"
  kiCreatedAt :: gotime
  kiLastUsedAt :: "gotime option"
  kiExpiresAt :: "gotime option"
  kiRevoked :: bool

text \<open>The ellipsis takes three bytes in UTF-8.\<close>

definition ellipsis :: string where "ellipsis = [CHR 0xE2, CHR 0x80, CHR 0xA6]"

definition prefixOf :: "string \<Rightarrow> string" where
  "prefixOf rawKey =
     (let show' = length KeyPrefix + 6 in
      if length rawKey \<le> show' then rawKey else take show' rawKey @ ellipsis)"

text \<open>A JSON array of strings that need no escapes, as the normalized scopes are.\<close>

definition marshal_strings :: "string list \<Rightarrow> string" where
  "marshal_strings xs = ''['' @ Join (map quote xs) '','' @ '']''"

definition EncodeScopes :: "string list \<Rightarrow> string" where
  "EncodeScopes scopes = marshal_strings (NormalizeScopes scopes)"

definition DecodeScopes :: "key_env \<Rightarrow> string \<Rightarrow> string list" where
  "DecodeScopes ke raw0 =
     (let raw = TrimSpace raw0 in
      if raw = [] then NormalizeScopes []
      else case keUnmarshal ke raw of
             None \<Rightarrow> NormalizeScopes (Split raw CHR '','')
           | Some parsed \<Rightarrow> NormalizeScopes parsed)"

section \<open>The table\<close>

record key_row =
  krHash :: string
  krID :: string
  krLabel :: string
  krPrefix :: string
  krOrgID :: string
  krUserID :: string
  krCreatedAt :: gotime
  krLastUsedAt :: "gotime option"
  krExpiresAt :: "gotime option"
  krRevoked :: bool
  krScopes :: string

text \<open>Both stores draw identifiers and keys from the same supplies.\<close>

record entropy =
  su_now :: gotime
  su_next :: nat
  su_ids :: "nat \<Rightarrow> string"
  su_keys :: "nat \<Rightarrow> string"

record keydb = entropy +
  kd_rows :: "key_row list"
  kd_tick :: nat
  kd_fault :: fault_plan

definition draw :: "'a entropy_scheme \<Rightarrow> (string \<times> string) \<times> 'a entropy_scheme" where
  "draw su = ((su_ids su (su_next su), KeyPrefix @ su_keys su (su_next su)), su\<lparr>su_next := Suc (su_next su)\<rparr>)"

definition key_sql :: "keydb \<Rightarrow> string option \<times> keydb" where
  "key_sql db = (kd_fault db (kd_tick db), db\<lparr>kd_tick := Suc (kd_tick db)\<rparr>)"

definition sqlInsert ::
  "key_env \<Rightarrow> string \<Rightarrow> string \<Rightarrow> string \<Rightarrow> gotime \<Rightarrow> string list \<Rightarrow> keydb \<Rightarrow> (string + string \<times> string) \<times> keydb" where
  "sqlInsert ke orgID0 userID label expiresAt scopes db =
     (let orgID = (if orgID0 = [] then DefaultOrgID else orgID0);
          norm = NormalizeScopes scopes;
          ((i, rawKey), db1) = draw db;
          h = keHash ke rawKey;
          row = \<lparr>krHash = h, krID = i, krLabel = label, krPrefix = prefixOf rawKey, krOrgID = orgID, krUserID = userID,
                 krCreatedAt = su_now db, krLastUsedAt = None,
                 krExpiresAt = (if IsZero expiresAt then None else Some expiresAt), krRevoked = False,
                 krScopes = EncodeScopes norm\<rparr> in
      case key_sql db1 of
        (Some e, db2) \<Rightarrow> (Inl (''apikey: insert: '' @ e), db2)
      | (None, db2) \<Rightarrow>
          if list_ex (\<lambda>r. krHash r = h) (kd_rows db2)
          then (Inl (''apikey: insert: '' @ ''UNIQUE constraint failed''), db2)
          else (Inr (i, rawKey), db2\<lparr>kd_rows := kd_rows db2 @ [row]\<rparr>))"

definition ksql_Create :: "key_env \<Rightarrow> string \<Rightarrow> string \<Rightarrow> string list \<Rightarrow> keydb \<Rightarrow> (string + string \<times> string) \<times> keydb" where
  "ksql_Create ke orgID label scopes db = sqlInsert ke orgID [] label zeroTime scopes db"

definition ksql_CreateOwned ::
  "key_env \<Rightarrow> string \<Rightarrow> string \<Rightarrow> string \<Rightarrow> string list \<Rightarrow> keydb \<Rightarrow> (string + string \<times> string) \<times> keydb" where
  "ksql_CreateOwned ke orgID userID label scopes db = sqlInsert ke orgID userID label zeroTime scopes db"

definition touch :: "string \<Rightarrow> keydb \<Rightarrow> keydb" where
  "touch h db =
     (case key_sql db of
        (Some _, db1) \<Rightarrow> db1
      | (None, db1) \<Rightarrow>
          db1\<lparr>kd_rows := map (\<lambda>r. if krHash r = h then r\<lparr>krLastUsedAt := Some (su_now db)\<rparr> else r) (kd_rows db1)\<rparr>)"

text \<open>The answer carries only identifier, organization, scopes and the time of use.\<close>

definition ksql_LookupKey :: "key_env \<Rightarrow> string \<Rightarrow> keydb \<Rightarrow> KeyInfo option \<times> keydb" where
  "ksql_LookupKey ke token db =
     (let h = keHash ke token in
      case key_sql db of
        (Some _, db1) \<Rightarrow> (None, db1)
      | (None, db1) \<Rightarrow>
          (case find (\<lambda>r. krHash r = h) (kd_rows db1) of
             None \<Rightarrow> (None, db1)
           | Some r \<Rightarrow>
               if krRevoked r then (None, db1)
               else if (case krExpiresAt r of Some e \<Rightarrow> \<not> su_now db1 < e | None \<Rightarrow> False) then (None, db1)
               else
                 (Some \<lparr>kiID = krID r, kiOrgID = krOrgID r, kiUserID = [], kiLabel = [], kiPrefix = [],
                        kiScopes = DecodeScopes ke (krScopes r), kiCreatedAt = zeroTime,
                        kiLastUsedAt = Some (su_now db1), kiExpiresAt = None, kiRevoked = False\<rparr>, touch h db1)))"

definition subject_of :: "KeyInfo option \<Rightarrow> (string \<times> string) option" where
  "subject_of r = map_option (\<lambda>info. (kiOrgID info, SubjectID (kiID info))) r"

definition ksql_LookupSubject :: "key_env \<Rightarrow> string \<Rightarrow> keydb \<Rightarrow> (string \<times> string) option \<times> keydb" where
  "ksql_LookupSubject ke token db = (case ksql_LookupKey ke token db of (r, db1) \<Rightarrow> (subject_of r, db1))"

definition scanKeyInfo :: "key_env \<Rightarrow> key_row \<Rightarrow> KeyInfo" where
  "scanKeyInfo ke r =
     \<lparr>kiID = krID r, kiOrgID = krOrgID r, kiUserID = krUserID r, kiLabel = krLabel r, kiPrefix = krPrefix r,
      kiScopes = DecodeScopes ke (krScopes r), kiCreatedAt = krCreatedAt r, kiLastUsedAt = krLastUsedAt r,
      kiExpiresAt = krExpiresAt r, kiRevoked = krRevoked r\<rparr>"

text \<open>Newest first: by the text of the creation time, then by identifier.\<close>

definition row_newer :: "key_row \<Rightarrow> key_row \<Rightarrow> bool" where
  "row_newer a b \<longleftrightarrow>
     (let ta = formatTS (krCreatedAt a); tb = formatTS (krCreatedAt b) in ta > tb \<or> ta = tb \<and> krID a \<ge> krID b)"

definition ksql_List :: "key_env \<Rightarrow> string \<Rightarrow> keydb \<Rightarrow> (string + KeyInfo list) \<times> keydb" where
  "ksql_List ke orgID db =
     (case key_sql db of
        (Some e, db1) \<Rightarrow> (Inl (''apikey: list: '' @ e), db1)
      | (None, db1) \<Rightarrow>
          (Inr (map (scanKeyInfo ke) (isort row_newer (filter (\<lambda>r. krOrgID r = orgID) (kd_rows db1)))), db1))"

definition ksql_Get :: "key_env \<Rightarrow> string \<Rightarrow> string \<Rightarrow> keydb \<Rightarrow> KeyInfo option \<times> keydb" where
  "ksql_Get ke orgID i db =
     (case key_sql db of
        (Some _, db1) \<Rightarrow> (None, db1)
      | (None, db1) \<Rightarrow> (map_option (scanKeyInfo ke) (find (\<lambda>r. krID r = i \<and> krOrgID r = orgID) (kd_rows db1)), db1))"

definition ksql_Revoke :: "string \<Rightarrow> string \<Rightarrow> keydb \<Rightarrow> (string + bool) \<times> keydb" where
  "ksql_Revoke orgID i db =
     (let hit = (\<lambda>r. krID r = i \<and> krOrgID r = orgID \<and> \<not> krRevoked r) in
      case key_sql db of
        (Some e, db1) \<Rightarrow> (Inl (''apikey: revoke: '' @ e), db1)
      | (None, db1) \<Rightarrow>
          (Inr (list_ex hit (kd_rows db1)),
           db1\<lparr>kd_rows := map (\<lambda>r. if hit r then r\<lparr>krRevoked := True\<rparr> else r) (kd_rows db1)\<rparr>))"

section \<open>The store in memory\<close>

text \<open>The Go map from hashes to keys, as the list of its entries in some order of iteration.\<close>

record keymem = entropy +
  km_dyn :: "(string \<times> KeyInfo) list"

definition memMint ::
  "key_env \<Rightarrow> string \<Rightarrow> string \<Rightarrow> string \<Rightarrow> gotime \<Rightarrow> string list \<Rightarrow> keymem \<Rightarrow> (string + string \<times> string) \<times> keymem" where
  "memMint ke orgID0 userID label expiresAt scopes m =
     (let orgID = (if orgID0 = [] then DefaultOrgID else orgID0);
          ((i, rawKey), m1) = draw m;
          info = \<lparr>kiID = i, kiOrgID = orgID, kiUserID = userID, kiLabel = label, kiPrefix = prefixOf rawKey,
                  kiScopes = NormalizeScopes scopes, kiCreatedAt = su_now m, kiLastUsedAt = None,
                  kiExpiresAt = (if IsZero expiresAt then None else Some expiresAt), kiRevoked = False\<rparr> in
      (Inr (i, rawKey), m1\<lparr>km_dyn := AList.update (keHash ke rawKey) info (km_dyn m1)\<rparr>))"

definition kmem_CreateOwned ::
  "key_env \<Rightarrow> string \<Rightarrow> string \<Rightarrow> string \<Rightarrow> string list \<Rightarrow> keymem \<Rightarrow> (string + string \<times> string) \<times> keymem" where
  "kmem_CreateOwned ke orgID userID label scopes m = memMint ke orgID userID label zeroTime scopes m"

definition kmem_Create :: "key_env \<Rightarrow> string \<Rightarrow> string \<Rightarrow> string list \<Rightarrow> keymem \<Rightarrow> (string + string \<times> string) \<times> keymem" where
  "kmem_Create ke orgID label scopes m = memMint ke orgID [] label zeroTime scopes m"

definition kmem_LookupKey :: "key_env \<Rightarrow> string \<Rightarrow> keymem \<Rightarrow> KeyInfo option \<times> keymem" where
  "kmem_LookupKey ke token m =
     (let h = keHash ke token in
      case map_of (km_dyn m) h of
        None \<Rightarrow> (None, m)
      | Some e \<Rightarrow>
          if kiRevoked e then (None, m)
          else if (case kiExpiresAt e of Some x \<Rightarrow> \<not> su_now m < x | None \<Rightarrow> False) then (None, m)
          else
            let e1 = e\<lparr>kiLastUsedAt := Some (su_now m)\<rparr> in
            (Some e1, m\<lparr>km_dyn := AList.update h e1 (km_dyn m)\<rparr>))"

definition kmem_LookupSubject :: "key_env \<Rightarrow> string \<Rightarrow> keymem \<Rightarrow> (string \<times> string) option \<times> keymem" where
  "kmem_LookupSubject ke token m = (case kmem_LookupKey ke token m of (r, m1) \<Rightarrow> (subject_of r, m1))"

definition info_newer :: "KeyInfo \<Rightarrow> KeyInfo \<Rightarrow> bool" where
  "info_newer a b \<longleftrightarrow> (if kiCreatedAt a = kiCreatedAt b then kiID a \<ge> kiID b else kiCreatedAt a > kiCreatedAt b)"

definition kmem_List :: "string \<Rightarrow> keymem \<Rightarrow> KeyInfo list" where
  "kmem_List orgID m = isort info_newer (filter (\<lambda>e. kiOrgID e = orgID) (map snd (km_dyn m)))"

definition kmem_Get :: "string \<Rightarrow> string \<Rightarrow> keymem \<Rightarrow> KeyInfo option" where
  "kmem_Get orgID i m = find (\<lambda>e. kiID e = i \<and> kiOrgID e = orgID) (map snd (km_dyn m))"

fun revoke_first :: "string \<Rightarrow> string \<Rightarrow> (string \<times> KeyInfo) list \<Rightarrow> bool \<times> (string \<times> KeyInfo) list" where
  "revoke_first orgID i [] = (False, [])"
| "revoke_first orgID i ((h, e) # es) =
     (if kiID e = i \<and> kiOrgID e = orgID then
        if kiRevoked e then (False, (h, e) # es) else (True, (h, e\<lparr>kiRevoked := True\<rparr>) # es)
      else case revoke_first orgID i es of (b, es1) \<Rightarrow> (b, (h, e) # es1))"

definition kmem_Revoke :: "string \<Rightarrow> string \<Rightarrow> keymem \<Rightarrow> bool \<times> keymem" where
  "kmem_Revoke orgID i m = (case revoke_first orgID i (km_dyn m) of (b, d) \<Rightarrow> (b, m\<lparr>km_dyn := d\<rparr>))"

section \<open>Scopes survive the table\<close>

text \<open>What is relied on of the decoder: an array of plain words comes back.\<close>

definition plain_string :: "string \<Rightarrow> bool" where
  "plain_string s = list_all (\<lambda>c. (97 :: nat) \<le> of_char c \<and> of_char c \<le> (122 :: nat)) s"

definition json_strings :: "key_env \<Rightarrow> bool" where
  "json_strings ke \<longleftrightarrow> (\<forall>xs. list_all plain_string xs \<longrightarrow> keUnmarshal ke (marshal_strings xs) = Some xs)"

lemma NormalizeScopes_cases: "NormalizeScopes s \<in> {[ScopePull], [ScopePush], [ScopePull, ScopePush]}"
  by (simp add: NormalizeScopes_def DefaultScopes_def Let_def)

lemma NormalizeScopes_idem [simp]: "NormalizeScopes (NormalizeScopes s) = NormalizeScopes s"
proof -
  have "NormalizeScopes [ScopePull] = [ScopePull]" "NormalizeScopes [ScopePush] = [ScopePush]"
    "NormalizeScopes [ScopePull, ScopePush] = [ScopePull, ScopePush]" by code_simp+
  then show ?thesis using NormalizeScopes_cases [of s] by auto
qed

lemma marshal_scopes:
  "TrimSpace (marshal_strings (NormalizeScopes s)) = marshal_strings (NormalizeScopes s)"
  "marshal_strings (NormalizeScopes s) \<noteq> []" "list_all plain_string (NormalizeScopes s)"
proof -
  have a: "TrimSpace (marshal_strings [ScopePull]) = marshal_strings [ScopePull]"
    "TrimSpace (marshal_strings [ScopePush]) = marshal_strings [ScopePush]"
    "TrimSpace (marshal_strings [ScopePull, ScopePush]) = marshal_strings [ScopePull, ScopePush]"
    "list_all plain_string [ScopePull, ScopePush]" by code_simp+
  then show "TrimSpace (marshal_strings (NormalizeScopes s)) = marshal_strings (NormalizeScopes s)"
    "list_all plain_string (NormalizeScopes s)"
    using NormalizeScopes_cases [of s] by auto
qed (simp add: marshal_strings_def)

lemma DecodeScopes_EncodeScopes [simp]: "json_strings ke \<Longrightarrow> DecodeScopes ke (EncodeScopes s) = NormalizeScopes s"
  using marshal_scopes [of s] by (simp add: DecodeScopes_def EncodeScopes_def json_strings_def)

section \<open>Histories\<close>

datatype key_op =
  KIssue string string string "string list"
| KUse string
| KGet string string
| KList string
| KRevoke string string
| KWait nat

datatype key_out =
  OIssued "string + string \<times> string"
| OUsed "(string \<times> string \<times> string list) option"
| OInfo "KeyInfo option"
| OList "string + KeyInfo set"
| ORevoked "string + bool"
| ODone

definition used :: "KeyInfo option \<Rightarrow> key_out" where
  "used r = OUsed (map_option (\<lambda>i. (kiOrgID i, SubjectID (kiID i), kiScopes i)) r)"

fun ksql_step :: "key_env \<Rightarrow> key_op \<Rightarrow> keydb \<Rightarrow> key_out \<times> keydb" where
  "ksql_step ke (KIssue org user label scopes) db = apfst OIssued (ksql_CreateOwned ke org user label scopes db)"
| "ksql_step ke (KUse token) db = apfst used (ksql_LookupKey ke token db)"
| "ksql_step ke (KGet org i) db = apfst OInfo (ksql_Get ke org i db)"
| "ksql_step ke (KList org) db = apfst (\<lambda>r. OList (map_sum id set r)) (ksql_List ke org db)"
| "ksql_step ke (KRevoke org i) db = apfst ORevoked (ksql_Revoke org i db)"
| "ksql_step ke (KWait d) db = (ODone, db\<lparr>su_now := su_now db + int d\<rparr>)"

fun kmem_step :: "key_env \<Rightarrow> key_op \<Rightarrow> keymem \<Rightarrow> key_out \<times> keymem" where
  "kmem_step ke (KIssue org user label scopes) m = apfst OIssued (kmem_CreateOwned ke org user label scopes m)"
| "kmem_step ke (KUse token) m = apfst used (kmem_LookupKey ke token m)"
| "kmem_step ke (KGet org i) m = (OInfo (kmem_Get org i m), m)"
| "kmem_step ke (KList org) m = (OList (Inr (set (kmem_List org m))), m)"
| "kmem_step ke (KRevoke org i) m = apfst (\<lambda>b. ORevoked (Inr b)) (kmem_Revoke org i m)"
| "kmem_step ke (KWait d) m = (ODone, m\<lparr>su_now := su_now m + int d\<rparr>)"

fun run :: "('o \<Rightarrow> 's \<Rightarrow> 'r \<times> 's) \<Rightarrow> 'o list \<Rightarrow> 's \<Rightarrow> 'r list" where
  "run step [] s = []"
| "run step (x # xs) s = (case step x s of (r, s1) \<Rightarrow> r # run step xs s1)"

text \<open>The events of a history, the last one first, and the database after them.\<close>

inductive key_history :: "key_env \<Rightarrow> (key_op \<times> key_out) list \<Rightarrow> keydb \<Rightarrow> bool" for ke where
  no_keys: "kd_rows db = [] \<Longrightarrow> key_history ke [] db"
| key_event: "key_history ke es db \<Longrightarrow> ksql_step ke x db = (r, db1) \<Longrightarrow> key_history ke ((x, r) # es) db1"

text \<open>An issue of the key behind a row, and no revocation after it.\<close>

definition issue_of :: "key_env \<Rightarrow> key_row \<Rightarrow> key_op \<times> key_out \<Rightarrow> bool" where
  "issue_of ke r ev \<longleftrightarrow>
     (\<exists>org user label scopes i raw.
        ev = (KIssue org user label scopes, OIssued (Inr (i, raw))) \<and> krHash r = keHash ke raw \<and> krID r = i \<and>
        krOrgID r = (if org = [] then DefaultOrgID else org) \<and> krScopes r = EncodeScopes scopes)"

definition withdrawn :: "key_row \<Rightarrow> (key_op \<times> key_out) list \<Rightarrow> bool" where
  "withdrawn r es \<longleftrightarrow> (KRevoke (krOrgID r) (krID r), ORevoked (Inr True)) \<in> set es"

definition backed :: "key_env \<Rightarrow> (key_op \<times> key_out) list \<Rightarrow> key_row \<Rightarrow> bool" where
  "backed ke es r \<longleftrightarrow>
     (\<exists>later ev earlier. es = later @ ev # earlier \<and> issue_of ke r ev \<and> (withdrawn r later \<longrightarrow> krRevoked r))"

lemma backed_touch [simp]: "backed ke es (r\<lparr>krLastUsedAt := t\<rparr>) = backed ke es r"
  by (simp add: backed_def issue_of_def withdrawn_def)

lemma backed_append:
  assumes "backed ke es r" "ev = (KRevoke (krOrgID r) (krID r), ORevoked (Inr True)) \<longrightarrow> krRevoked r"
  shows "backed ke (ev # es) r"
proof -
  obtain later i earlier where b: "es = later @ i # earlier" "issue_of ke r i" "withdrawn r later \<longrightarrow> krRevoked r"
    using assms(1) unfolding backed_def by blast
  then show ?thesis
    unfolding backed_def using assms(2)
    by (intro exI [of _ "ev # later"] exI [of _ i] exI [of _ earlier]) (auto simp: withdrawn_def)
qed

lemma backed_revoked:
  assumes "backed ke es r"
  shows "backed ke (ev # es) (r\<lparr>krRevoked := True\<rparr>)"
proof (rule backed_append)
  have i: "issue_of ke (r\<lparr>krRevoked := True\<rparr>) = issue_of ke r" by (simp add: fun_eq_iff issue_of_def)
  show "backed ke es (r\<lparr>krRevoked := True\<rparr>)" using assms unfolding backed_def i by auto
qed simp

lemma backed_new: "issue_of ke r ev \<Longrightarrow> backed ke (ev # es) r"
  unfolding backed_def withdrawn_def by (intro exI [of _ "[]"] exI [of _ ev] exI [of _ es]) simp

lemma EncodeScopes_NormalizeScopes [simp]: "EncodeScopes (NormalizeScopes s) = EncodeScopes s"
  by (simp add: EncodeScopes_def)

lemma issue_of_new:
  "krHash r = keHash ke raw \<Longrightarrow> krID r = i \<Longrightarrow> krOrgID r = (if org = [] then DefaultOrgID else org) \<Longrightarrow> krScopes r = EncodeScopes scopes \<Longrightarrow>
   issue_of ke r (KIssue org user label scopes, OIssued (Inr (i, raw)))"
  unfolding issue_of_def by blast

lemma key_history_backed: "key_history ke es db \<Longrightarrow> \<forall>r \<in> set (kd_rows db). backed ke es r"
proof (induction rule: key_history.induct)
  case (no_keys db)
  then show ?case by simp
next
  case (key_event es db x r db1)
  show ?case
  proof (cases x)
    case (KIssue org user label scopes)
    then show ?thesis using key_event
      by (auto simp: ksql_CreateOwned_def sqlInsert_def draw_def key_sql_def Let_def
          backed_append backed_new [OF issue_of_new] split: option.splits if_splits)
  next
    case (KUse token)
    then show ?thesis using key_event
      by (auto simp: ksql_LookupKey_def touch_def key_sql_def Let_def used_def backed_append split: option.splits if_splits)
  next
    case (KRevoke org i)
    then show ?thesis using key_event
      by (auto simp: ksql_Revoke_def key_sql_def Let_def list_ex_iff backed_append backed_revoked split: option.splits if_splits)
  qed (use key_event in \<open>auto simp: ksql_Get_def ksql_List_def key_sql_def backed_append split: option.splits\<close>)
qed

text \<open>C18: an API key authenticates only what was issued. In every history of issuing, using and revoking
  keys, whatever the database does, a use that succeeds is backed by an earlier issue of a key with
  the same hash: the organization, the subject and the scopes are those of this issue, and between
  the two the key was not revoked.\<close>

theorem key_use_is_backed:
  assumes "json_strings ke" "key_history ke ((KUse token, OUsed (Some (org, subject, scopes))) # es) db"
  shows "\<exists>later earlier org0 user label scopes0 i raw.
    es = later @ (KIssue org0 user label scopes0, OIssued (Inr (i, raw))) # earlier \<and>
    keHash ke raw = keHash ke token \<and> org = (if org0 = [] then DefaultOrgID else org0) \<and> subject = SubjectID i \<and>
    scopes = NormalizeScopes scopes0 \<and> (KRevoke org i, ORevoked (Inr True)) \<notin> set later"
proof -
  obtain db0 where h: "key_history ke es db0" and u: "ksql_step ke (KUse token) db0 = (OUsed (Some (org, subject, scopes)), db)"
    using assms(2) by (auto elim: key_history.cases)
  obtain r where r: "r \<in> set (kd_rows db0)" "krHash r = keHash ke token" "\<not> krRevoked r"
    and out: "org = krOrgID r" "subject = SubjectID (krID r)" "scopes = DecodeScopes ke (krScopes r)"
    using u by (auto simp: ksql_LookupKey_def key_sql_def Let_def used_def split: option.splits if_splits dest!: find_SomeD)
  have "backed ke es r" using key_history_backed [OF h] r(1) by blast
  then obtain later earlier org0 user label scopes0 i raw where b:
    "es = later @ (KIssue org0 user label scopes0, OIssued (Inr (i, raw))) # earlier" "krHash r = keHash ke raw"
    "krID r = i" "krOrgID r = (if org0 = [] then DefaultOrgID else org0)" "krScopes r = EncodeScopes scopes0"
    "\<not> withdrawn r later"
    unfolding backed_def issue_of_def using r(3) by blast
  show ?thesis
    by (rule exI [of _ later], rule exI [of _ earlier], rule exI [of _ org0], rule exI [of _ user], rule exI [of _ label],
        rule exI [of _ scopes0], rule exI [of _ i], rule exI [of _ raw])
       (use b r(2) out assms(1) in \<open>simp add: withdrawn_def\<close>)
qed

section \<open>Both stores answer alike\<close>

definition entry_of :: "key_env \<Rightarrow> key_row \<Rightarrow> string \<times> KeyInfo" where
  "entry_of ke r = (krHash r, scanKeyInfo ke r)"

definition same_keys :: "key_env \<Rightarrow> keydb \<Rightarrow> keymem \<Rightarrow> bool" where
  "same_keys ke db m \<longleftrightarrow>
     kd_fault db = no_faults \<and> km_dyn m = map (entry_of ke) (kd_rows db) \<and>
     su_now m = su_now db \<and> su_next m = su_next db \<and> su_ids m = su_ids db \<and> su_keys m = su_keys db \<and>
     distinct (map krHash (kd_rows db)) \<and> distinct (map krID (kd_rows db)) \<and>
     set (map krID (kd_rows db)) \<subseteq> su_ids db ` {..<su_next db} \<and>
     set (map krHash (kd_rows db)) \<subseteq> (\<lambda>n. keHash ke (KeyPrefix @ su_keys db n)) ` {..<su_next db}"

definition never_repeats :: "key_env \<Rightarrow> 'a entropy_scheme \<Rightarrow> bool" where
  "never_repeats ke su \<longleftrightarrow> inj (su_ids su) \<and> inj (\<lambda>n. keHash ke (KeyPrefix @ su_keys su n))"

lemma scan_simps [simp]:
  "kiID (scanKeyInfo ke r) = krID r" "kiOrgID (scanKeyInfo ke r) = krOrgID r" "kiRevoked (scanKeyInfo ke r) = krRevoked r"
  "kiExpiresAt (scanKeyInfo ke r) = krExpiresAt r" "kiScopes (scanKeyInfo ke r) = DecodeScopes ke (krScopes r)"
  by (simp_all add: scanKeyInfo_def)

lemma map_of_entries: "map_of (map (entry_of ke) rows) h = map_option (scanKeyInfo ke) (find (\<lambda>r. krHash r = h) rows)"
  by (induction rows) (simp_all add: entry_of_def)

lemma find_map_entries:
  "find (\<lambda>e. kiID e = i \<and> kiOrgID e = org) (map snd (map (entry_of ke) rows))
     = map_option (scanKeyInfo ke) (find (\<lambda>r. krID r = i \<and> krOrgID r = org) rows)"
  by (induction rows) (simp_all add: entry_of_def scanKeyInfo_def)

lemma entries_same_scan:
  "map (entry_of ke) (map (\<lambda>r. if P r then f r else r) rows) = map (entry_of ke) rows"
  if "\<And>r. entry_of ke (f r) = entry_of ke r"
  using that by simp

lemma distinct_map_head: "distinct (map f (x # xs)) \<Longrightarrow> \<forall>y \<in> set xs. f y \<noteq> f x"
  by (metis distinct.simps(2) image_eqI list.map(2) set_map)

lemma update_entries:
  assumes "distinct (map krHash rows)" "find (\<lambda>r. krHash r = h) rows = Some x" "\<And>r. krHash (f r) = krHash r"
    "scanKeyInfo ke (f x) = e"
  shows "AList.update h e (map (entry_of ke) rows) = map (entry_of ke) (map (\<lambda>r. if krHash r = h then f r else r) rows)"
  using assms
proof (induction rows)
  case Nil
  then show ?case by simp
next
  case (Cons r rs)
  show ?case
  proof (cases "krHash r = h")
    case True
    then have "\<forall>y \<in> set rs. krHash y \<noteq> h" using Cons.prems(1) distinct_map_head by metis
    then have "map (\<lambda>r. if krHash r = h then f r else r) rs = rs" by (simp add: map_idI)
    then show ?thesis using True Cons.prems by (simp add: entry_of_def comp_def)
  next
    case False
    then show ?thesis using Cons by (simp add: entry_of_def)
  qed
qed

lemma update_fresh: "\<not> list_ex (\<lambda>r. krHash r = h) rows \<Longrightarrow> AList.update h e (map (entry_of ke) rows) = map (entry_of ke) rows @ [(h, e)]"
  by (induction rows) (simp_all add: entry_of_def)

lemma revoke_first_entries:
  assumes "distinct (map krID rows)"
  shows "revoke_first org i (map (entry_of ke) rows) =
    (list_ex (\<lambda>r. krID r = i \<and> krOrgID r = org \<and> \<not> krRevoked r) rows,
     map (entry_of ke) (map (\<lambda>r. if krID r = i \<and> krOrgID r = org \<and> \<not> krRevoked r then r\<lparr>krRevoked := True\<rparr> else r) rows))"
  using assms
proof (induction rows)
  case Nil
  then show ?case by simp
next
  case (Cons r rs)
  have other: "\<forall>y \<in> set rs. krID y \<noteq> krID r" using Cons.prems distinct_map_head by metis
  show ?case
  proof (cases "krID r = i \<and> krOrgID r = org")
    case True
    have "map (\<lambda>r. if krID r = i \<and> krOrgID r = org \<and> \<not> krRevoked r then r\<lparr>krRevoked := True\<rparr> else r) rs = rs"
      using other True by (intro map_idI) auto
    moreover have "\<not> list_ex (\<lambda>r. krID r = i \<and> krOrgID r = org \<and> \<not> krRevoked r) rs" using other True by (auto simp: list_ex_iff)
    ultimately show ?thesis using True by (simp add: entry_of_def scanKeyInfo_def comp_def)
  next
    case False
    have "distinct (map krID rs)" using Cons.prems by simp
    from Cons.IH [OF this] show ?thesis using False by (auto simp: entry_of_def [of ke r] simp del: map_map)
  qed
qed

lemma same_keys_rows:
  assumes "same_keys ke db m" "map krHash rows = map krHash (kd_rows db)" "map krID rows = map krID (kd_rows db)"
  shows "same_keys ke (db\<lparr>kd_tick := n, kd_rows := rows\<rparr>) (m\<lparr>km_dyn := map (entry_of ke) rows\<rparr>)"
  using assms by (simp add: same_keys_def del: set_map)

lemma same_keys_tick: "same_keys ke db m \<Longrightarrow> same_keys ke (db\<lparr>kd_tick := n\<rparr>) m"
  by (simp add: same_keys_def)

lemma same_keys_later: "same_keys ke db m \<Longrightarrow> same_keys ke (db\<lparr>su_now := t\<rparr>) (m\<lparr>su_now := t\<rparr>)"
  by (simp add: same_keys_def)

lemma touch_healthy:
  "kd_fault db = no_faults \<Longrightarrow> touch h (db\<lparr>kd_tick := n\<rparr>) =
     db\<lparr>kd_tick := Suc n, kd_rows := map (\<lambda>r. if krHash r = h then r\<lparr>krLastUsedAt := Some (su_now db)\<rparr> else r) (kd_rows db)\<rparr>"
  by (simp add: touch_def key_sql_def)

lemma key_step_agrees:
  assumes "json_strings ke" "never_repeats ke db" "same_keys ke db m"
    and "ksql_step ke x db = (r, db1)" "kmem_step ke x m = (r', m1)"
  shows "r' = r \<and> same_keys ke db1 m1 \<and> never_repeats ke db1"
proof -
  have m: "km_dyn m = map (entry_of ke) (kd_rows db)" "kd_fault db = no_faults" "distinct (map krID (kd_rows db))"
    using assms(3) by (simp_all add: same_keys_def)
  show ?thesis
proof (cases x)
  case (KIssue org user label scopes)
  define raw where "raw = KeyPrefix @ su_keys db (su_next db)"
  have fresh: "su_ids db (su_next db) \<notin> set (map krID (kd_rows db))" "keHash ke raw \<notin> set (map krHash (kd_rows db))"
    using assms(2,3) unfolding same_keys_def never_repeats_def raw_def by (blast dest: injD)+
  then have new: "\<not> list_ex (\<lambda>r. krHash r = keHash ke raw) (kd_rows db)" by (auto simp: list_ex_iff image_iff)
  show ?thesis
    using assms fresh new update_fresh [OF new]
    by (auto simp: KIssue ksql_CreateOwned_def sqlInsert_def kmem_CreateOwned_def memMint_def draw_def key_sql_def Let_def
        same_keys_def raw_def [symmetric] entry_of_def scanKeyInfo_def never_repeats_def lessThan_Suc) blast+
next
  case (KUse token)
  let ?h = "keHash ke token"
  let ?rows = "map (\<lambda>r. if krHash r = ?h then r\<lparr>krLastUsedAt := Some (su_now db)\<rparr> else r) (kd_rows db)"
  have up: "AList.update ?h e (km_dyn m) = map (entry_of ke) ?rows"
    if "find (\<lambda>r. krHash r = ?h) (kd_rows db) = Some x" "e = (scanKeyInfo ke x)\<lparr>kiLastUsedAt := Some (su_now db)\<rparr>" for x e
  proof -
    have m: "km_dyn m = map (entry_of ke) (kd_rows db)" "distinct (map krHash (kd_rows db))"
      using assms(3) by (simp_all add: same_keys_def)
    show ?thesis unfolding m(1) by (rule update_entries [OF m(2) that(1)]) (simp_all add: that(2) scanKeyInfo_def)
  qed
  have keep: "map krHash ?rows = map krHash (kd_rows db)" "map krID ?rows = map krID (kd_rows db)" by simp_all
  note st = same_keys_rows [OF assms(3) keep] same_keys_tick [OF assms(3)]
  have look: "map_of (km_dyn m) ?h = map_option (scanKeyInfo ke) (find (\<lambda>r. krHash r = ?h) (kd_rows db))"
    "su_now m = su_now db" "kd_fault db = no_faults"
    using assms(3) by (simp_all add: same_keys_def map_of_entries)
  show ?thesis
    using assms(2,4,5) st up
    by (auto simp: KUse ksql_LookupKey_def kmem_LookupKey_def key_sql_def touch_healthy look Let_def used_def never_repeats_def
        split: option.splits if_splits)
next
  case (KRevoke org i)
  let ?rows = "map (\<lambda>r. if krID r = i \<and> krOrgID r = org \<and> \<not> krRevoked r then r\<lparr>krRevoked := True\<rparr> else r) (kd_rows db)"
  have keep: "map krHash ?rows = map krHash (kd_rows db)" "map krID ?rows = map krID (kd_rows db)" by simp_all
  show ?thesis
    using assms(2,4,5) same_keys_rows [OF assms(3) keep] m(1,2)
    by (auto simp: KRevoke ksql_Revoke_def kmem_Revoke_def key_sql_def Let_def never_repeats_def revoke_first_entries [OF m(3)]
        simp del: map_map)
next
  case (KGet org i)
  show ?thesis
    using assms(2,4,5) m(2) same_keys_tick [OF assms(3)]
    by (auto simp: KGet ksql_Get_def kmem_Get_def key_sql_def never_repeats_def m(1) find_map_entries simp del: map_map)
next
  case (KList org)
  have "set (kmem_List org m) = scanKeyInfo ke ` {r \<in> set (kd_rows db). krOrgID r = org}"
    by (auto simp: kmem_List_def m(1) entry_of_def)
  then show ?thesis
    using assms(2,4,5) m(2) same_keys_tick [OF assms(3)] by (auto simp: KList ksql_List_def key_sql_def never_repeats_def)
next
  case (KWait d)
  then show ?thesis
    using assms(2,4,5) same_keys_later [OF assms(3)] assms(3) [unfolded same_keys_def] by (auto simp: never_repeats_def)
qed
qed


section \<open>Instances\<close>

text \<open>A decoder for arrays of plain strings, and supplies of decimal numbers.\<close>

definition demo_unmarshal :: "string \<Rightarrow> string list option" where
  "demo_unmarshal raw =
     (let inner = butlast (tl raw) in if inner = [] then Some [] else Some (map (\<lambda>w. butlast (tl w)) (Split inner CHR '','')))"

definition demo_keys :: key_env where
  "demo_keys = \<lparr>keHash = id, keUnmarshal = demo_unmarshal\<rparr>"

definition demo_entropy :: entropy where
  "demo_entropy = \<lparr>su_now = 1700000000000000000, su_next = 0, su_ids = nat_digits, su_keys = nat_digits\<rparr>"

definition demo_keydb :: keydb where
  "demo_keydb = entropy.extend demo_entropy \<lparr>kd_rows = [], kd_tick = 0, kd_fault = no_faults\<rparr>"

definition demo_keymem :: keymem where
  "demo_keymem = entropy.extend demo_entropy \<lparr>km_dyn = []\<rparr>"

lemma plain_no_comma: "plain_string s \<Longrightarrow> CHR '','' \<notin> set (quote s)"
  by (auto simp: plain_string_def quote_def list_all_iff)

lemma demo_json: "json_strings demo_keys"
proof -
  have "demo_unmarshal (marshal_strings xs) = Some xs" if "list_all plain_string xs" for xs
  proof (cases "xs = []")
    case False
    have "Split (Join (map quote xs) '','') CHR '','' = map quote xs"
      by (rule Split_Join) (use False that plain_no_comma in \<open>auto simp: list_all_iff\<close>)
    moreover have "Join (map quote xs) '','' \<noteq> []" using False by (cases xs; cases "tl xs") (auto simp: quote_def)
    ultimately show ?thesis by (simp add: demo_unmarshal_def marshal_strings_def quote_def comp_def)
  qed (simp add: demo_unmarshal_def marshal_strings_def)
  then show ?thesis by (simp add: json_strings_def demo_keys_def)
qed

lemma demo_never_repeats: "never_repeats demo_keys demo_entropy"
  by (auto simp: never_repeats_def demo_keys_def demo_entropy_def inj_def dest: nat_digits_inj)

text \<open>A key is issued and used; after its revocation the second use fails.\<close>

definition demo_history :: "key_op list" where
  "demo_history = [KIssue ''acme'' ''user:1'' ''ci'' [''pull''], KUse ''spck_0'', KRevoke ''acme'' ''0'', KUse ''spck_0'', KGet ''acme'' ''0'']"


theorem key_use_is_backed_witness:
  "\<exists>later earlier org0 user label scopes0 i raw.
    [(KIssue ''acme'' ''user:1'' ''ci'' [''pull''], OIssued (Inr (''0'', ''spck_0'')))]
      = later @ (KIssue org0 user label scopes0, OIssued (Inr (i, raw))) # earlier \<and>
    keHash demo_keys raw = keHash demo_keys ''spck_0'' \<and> ''acme'' = (if org0 = [] then DefaultOrgID else org0) \<and>
    ''apikey:0'' = SubjectID i \<and> [''pull''] = NormalizeScopes scopes0 \<and> (KRevoke ''acme'' i, ORevoked (Inr True)) \<notin> set later"
proof -
  have "fst (ksql_step demo_keys (KIssue ''acme'' ''user:1'' ''ci'' [''pull'']) demo_keydb) = OIssued (Inr (''0'', ''spck_0''))"
    "fst (ksql_step demo_keys (KUse ''spck_0'') (snd (ksql_step demo_keys (KIssue ''acme'' ''user:1'' ''ci'' [''pull'']) demo_keydb)))
       = OUsed (Some (''acme'', ''apikey:0'', [''pull'']))"
    by code_simp+
  then obtain db1 db2 where
    "ksql_step demo_keys (KIssue ''acme'' ''user:1'' ''ci'' [''pull'']) demo_keydb = (OIssued (Inr (''0'', ''spck_0'')), db1)"
    "ksql_step demo_keys (KUse ''spck_0'') db1 = (OUsed (Some (''acme'', ''apikey:0'', [''pull''])), db2)"
    by (metis prod.collapse)
  moreover have "key_history demo_keys [] demo_keydb" by (rule no_keys) (simp add: demo_keydb_def entropy.defs)
  ultimately have "key_history demo_keys [(KUse ''spck_0'', OUsed (Some (''acme'', ''apikey:0'', [''pull'']))),
      (KIssue ''acme'' ''user:1'' ''ci'' [''pull''], OIssued (Inr (''0'', ''spck_0'')))] db2"
    by (blast intro: key_event)
  from key_use_is_backed [OF demo_json this] show ?thesis .
qed

end
