(* ===== verification/Jose.thy ===== *)
theory Jose
  imports Prelude
begin

text \<open>
  Signed tokens as both packages that issue them use the library \<^verbatim>\<open>golang-jwt\<close>
  (\<^verbatim>\<open>internal/auth/auth.go\<close>, \<^verbatim>\<open>internal/registrytoken/token.go\<close>): the check of the
  header that runs before the library, and what is relied on of the library, which is a parameter.
  The library signs claims and parses a token at a time; it fails with the sentinel errors that
  its error wraps.
\<close>

datatype jwt_err = TokenMalformed | TokenUnverifiable | TokenSignatureInvalid | TokenExpired | TokenNotValidYet | TokenInvalidClaims

record 'c jose =
  joSign :: "'c \<Rightarrow> string + string"
  joParse :: "gotime \<Rightarrow> string \<Rightarrow> jwt_err list + 'c"
  joHeader :: "string \<Rightarrow> string option"

datatype token_err = ErrMalformed | ErrAlg | ErrSignature | ErrExpired | ErrNotYet | ErrIssuer | ErrAudience

definition clockSkew :: int where "clockSkew = 60 * Second"

text \<open>
  The pre-check: three parts that are not empty, a header that decodes (base64 and JSON, the value
  is its \<^verbatim>\<open>alg\<close>), and exactly the expected algorithm.
\<close>

definition alg_check :: "'c jose \<Rightarrow> string \<Rightarrow> string \<Rightarrow> token_err option" where
  "alg_check jo alg token =
     (case Split token CHR ''.'' of
        [h, p, s] \<Rightarrow>
          if h = [] \<or> p = [] \<or> s = [] then Some ErrMalformed
          else (case joHeader jo h of
                  None \<Rightarrow> Some ErrMalformed
                | Some a \<Rightarrow> if a \<noteq> alg then Some ErrAlg else None)
      | _ \<Rightarrow> Some ErrMalformed)"

text \<open>\<^verbatim>\<open>jwt.NewNumericDate\<close> cuts to whole seconds.\<close>

definition NumericDate :: "gotime \<Rightarrow> gotime" where
  "NumericDate t = timeUnix (Unix t)"

text \<open>
  What the callers rely on. A token the library signed passes the pre-check for its algorithm, and
  parsing gives back the claims exactly while the window of its dates, widened by the leeway, is
  open.
\<close>

definition in_window :: "gotime \<Rightarrow> gotime option \<Rightarrow> gotime option \<Rightarrow> bool" where
  "in_window now nbf exp' \<longleftrightarrow>
     (case exp' of None \<Rightarrow> True | Some e \<Rightarrow> now < e + clockSkew) \<and>
     (case nbf of None \<Rightarrow> True | Some n \<Rightarrow> n - clockSkew \<le> now)"

definition jose_ok :: "string \<Rightarrow> ('c \<Rightarrow> gotime option) \<Rightarrow> ('c \<Rightarrow> gotime option) \<Rightarrow> 'c jose \<Rightarrow> bool" where
  "jose_ok alg nbf exp' jo \<longleftrightarrow>
     (\<forall>c tok now. joSign jo c = Inr tok \<longrightarrow>
        alg_check jo alg tok = None \<and>
        (if in_window now (nbf c) (exp' c) then joParse jo now tok = Inr c else \<exists>e. joParse jo now tok = Inl e))"

lemma jose_ok_parse:
  assumes "jose_ok alg nbf exp' jo" "joSign jo c = Inr tok"
  shows "alg_check jo alg tok = None"
    and "joParse jo now tok = Inr c' \<longleftrightarrow> c' = c \<and> in_window now (nbf c) (exp' c)"
proof -
  have p: "if in_window now (nbf c) (exp' c) then joParse jo now tok = Inr c else \<exists>e. joParse jo now tok = Inl e"
    and a: "alg_check jo alg tok = None"
    using assms unfolding jose_ok_def by blast+
  show "alg_check jo alg tok = None" by (rule a)
  show "joParse jo now tok = Inr c' \<longleftrightarrow> c' = c \<and> in_window now (nbf c) (exp' c)"
    using p by (auto split: if_splits)
qed

end
