(* ===== verification/Auth.thy ===== *)
theory Auth
  imports ApiKeys Jose Acl
begin

text \<open>
  Sessions of the control plane (\<^verbatim>\<open>internal/auth\<close>): session tokens and their check, the
  middleware that authenticates a request by its session, and the one that resolves the acting
  subject and the active organization from an API key or a session.
\<close>

section \<open>Session tokens\<close>

definition tokenIssuer :: string where "tokenIssuer = ''specula-auth''"
definition tokenAudience :: string where "tokenAudience = ''specula-session''"
definition DefaultTokenTTL :: int where "DefaultTokenTTL = 30 * 24 * 3600 * Second"

record sessionClaims =
  ssUserID :: int
  ssEmail :: string
  ssSystemRole :: string
  ssTokenGen :: int
  ssIssuer :: string
  ssAudience :: "string list"
  ssExpiresAt :: "gotime option"
  ssNotBefore :: "gotime option"
  ssIssuedAt :: "gotime option"

definition session_claims :: "gotime \<Rightarrow> User \<Rightarrow> sessionClaims" where
  "session_claims now u =
     \<lparr>ssUserID = usID u, ssEmail = usEmail u, ssSystemRole = usSystemRole u, ssTokenGen = usTokenGen u,
      ssIssuer = tokenIssuer, ssAudience = [tokenAudience], ssExpiresAt = Some (NumericDate (now + DefaultTokenTTL)),
      ssNotBefore = None, ssIssuedAt = Some (NumericDate now)\<rparr>"

definition session_Sign :: "sessionClaims jose \<Rightarrow> gotime \<Rightarrow> User \<Rightarrow> string + string" where
  "session_Sign jo now u = joSign jo (session_claims now u)"

definition mapHS256ParseError :: "jwt_err list \<Rightarrow> token_err" where
  "mapHS256ParseError es =
     (if List.member es TokenMalformed then ErrMalformed
      else if List.member es TokenSignatureInvalid then ErrSignature
      else if List.member es TokenExpired then ErrExpired
      else if List.member es TokenUnverifiable then ErrAlg
      else ErrMalformed)"

definition session_verifyAt :: "sessionClaims jose \<Rightarrow> string \<Rightarrow> gotime \<Rightarrow> token_err + User" where
  "session_verifyAt jo token now =
     (case alg_check jo ''HS256'' token of
        Some e \<Rightarrow> Inl e
      | None \<Rightarrow>
          (case joParse jo now token of
             Inl es \<Rightarrow> Inl (mapHS256ParseError es)
           | Inr c \<Rightarrow>
               if ssIssuer c \<noteq> tokenIssuer then Inl ErrIssuer
               else if ssAudience c \<noteq> [] \<and> \<not> List.member (ssAudience c) tokenAudience then Inl ErrAudience
               else Inr \<lparr>usID = ssUserID c, usEmail = ssEmail c, usName = [], usPasswordHash = [],
                         usSystemRole = ssSystemRole c, usTokenGen = ssTokenGen c, usCreatedAt = zeroTime\<rparr>))"

section \<open>Requests\<close>

definition TokenCookieName :: string where "TokenCookieName = ''specula_session''"

text \<open>The session cookie, the headers \<^verbatim>\<open>Authorization\<close> and \<^verbatim>\<open>X-Org-Id\<close>.\<close>

record auth_request =
  aqCookie :: "string option"
  aqAuthorization :: string
  aqOrgID :: string

definition extractToken :: "auth_request \<Rightarrow> string" where
  "extractToken r =
     (case aqCookie r of
        Some v \<Rightarrow>
          if v \<noteq> [] then v
          else if HasPrefix (aqAuthorization r) ''Bearer '' then TrimSpace (TrimPrefix (aqAuthorization r) ''Bearer '') else []
      | None \<Rightarrow> if HasPrefix (aqAuthorization r) ''Bearer '' then TrimSpace (TrimPrefix (aqAuthorization r) ''Bearer '') else [])"

text \<open>A middleware refuses with a status and a text, or calls the next handler with its context.\<close>

datatype 'c verdict = Refuse int string | Proceed 'c

definition unauthorized :: "'c verdict" where "unauthorized = Refuse 401 ''unauthorized''"

text \<open>The account a session token stands for now: it exists and no logout came after the token.\<close>

definition live_user :: "sessionClaims jose \<Rightarrow> string \<Rightarrow> userdb \<Rightarrow> User option \<times> userdb" where
  "live_user jo token db =
     (case session_verifyAt jo token (ud_now db) of
        Inl _ \<Rightarrow> (None, db)
      | Inr embedded \<Rightarrow>
          (case GetUserByID db (usID embedded) of
             (Inl _, db1) \<Rightarrow> (None, db1)
           | (Inr current, db1) \<Rightarrow>
               if usTokenGen current \<noteq> usTokenGen embedded then (None, db1) else (Some current, db1)))"

definition Middleware :: "sessionClaims jose \<Rightarrow> auth_request \<Rightarrow> userdb \<Rightarrow> User verdict \<times> userdb" where
  "Middleware jo r db =
     (let token = extractToken r in
      if token = [] then (unauthorized, db)
      else case live_user jo token db of
             (None, db1) \<Rightarrow> (unauthorized, db1)
           | (Some u, db1) \<Rightarrow> (Proceed u, db1))"

definition AdminRequired :: "User option \<Rightarrow> User verdict" where
  "AdminRequired u =
     (case u of
        None \<Rightarrow> Refuse 403 ''forbidden''
      | Some x \<Rightarrow> if usSystemRole x \<noteq> ''admin'' then Refuse 403 ''forbidden'' else Proceed x)"

section \<open>Principals\<close>

record auth_state =
  asUsers :: userdb
  asControl :: control
  asKeys :: keydb

record principal_ctx =
  pcSubject :: Subject
  pcOrgID :: string
  pcOrg :: "Org option"
  pcUser :: "User option"

definition anonymous :: principal_ctx where
  "anonymous = \<lparr>pcSubject = \<lparr>sUserID = [], sOrgID = [], sAdmin = False\<rparr>, pcOrgID = [], pcOrg = None, pcUser = None\<rparr>"

text \<open>\<open>orgs\<close> says whether an organization resolver is attached.\<close>

definition key_principal :: "bool \<Rightarrow> string \<Rightarrow> string \<Rightarrow> control \<Rightarrow> principal_ctx verdict \<times> control" where
  "key_principal orgs orgID subj ctl =
     (let ctx = \<lparr>pcSubject = \<lparr>sUserID = subj, sOrgID = orgID, sAdmin = False\<rparr>, pcOrgID = orgID, pcOrg = None, pcUser = None\<rparr> in
      if \<not> orgs then (Proceed ctx, ctl)
      else
        case GetOrg ctl orgID of
          (Inl _, ctl1) \<Rightarrow> (Proceed ctx, ctl1)
        | (Inr o', ctl1) \<Rightarrow>
            if Frozen (Some o') then (Refuse 403 ''organization is frozen'', ctl1)
            else (Proceed (ctx\<lparr>pcOrg := Some (o'\<lparr>oRole := RoleAdmin\<rparr>)\<rparr>), ctl1))"

text \<open>The role of a session user in the organization the request names.\<close>

definition session_role :: "User \<Rightarrow> string \<Rightarrow> Org \<Rightarrow> control \<Rightarrow> (int \<times> string + Org) \<times> control" where
  "session_role u orgID o' ctl =
     (let sysRole = NormalizeSystemRole (usSystemRole u) in
      case GetOrgMember ctl orgID (usEmail u) of
        (Inr m, ctl1) \<Rightarrow> (Inr (o'\<lparr>oRole := NormalizeRole (mRole m)\<rparr>), ctl1)
      | (Inl (SqlErr _), ctl1) \<Rightarrow> (Inl (503, ''cannot verify your membership right now; try again shortly''), ctl1)
      | (Inl NotFound, ctl1) \<Rightarrow>
          if sysRole \<noteq> [] then (Inr (o'\<lparr>oRole := RoleViewer, oSystemAccess := True\<rparr>), ctl1)
          else (Inl (403, ''forbidden''), ctl1))"

definition session_org :: "User \<Rightarrow> string \<Rightarrow> control \<Rightarrow> (int \<times> string + Org) \<times> control" where
  "session_org u orgID ctl =
     (case GetOrg ctl orgID of
        (Inl NotFound, ctl1) \<Rightarrow> (Inl (404, ''organization not found''), ctl1)
      | (Inl (SqlErr _), ctl1) \<Rightarrow> (Inl (503, ''cannot look up your organization right now; try again shortly''), ctl1)
      | (Inr o', ctl1) \<Rightarrow>
          (case session_role u orgID o' ctl1 of
             (Inl e, ctl2) \<Rightarrow> (Inl e, ctl2)
           | (Inr o2, ctl2) \<Rightarrow>
               if Frozen (Some o2) \<and> NormalizeSystemRole (usSystemRole u) \<noteq> RoleAdmin
               then (Inl (403, ''organization is frozen''), ctl2)
               else (Inr o2, ctl2)))"

definition session_ctx :: "User \<Rightarrow> Org option \<Rightarrow> principal_ctx" where
  "session_ctx u active =
     (let orgID = (case active of None \<Rightarrow> [] | Some o' \<Rightarrow> oID o') in
      \<lparr>pcSubject = \<lparr>sUserID = UserSubjectID (usID u), sOrgID = orgID, sAdmin = (NormalizeSystemRole (usSystemRole u) = RoleAdmin)\<rparr>,
       pcOrgID = orgID, pcOrg = active, pcUser = Some u\<rparr>)"

definition session_principal :: "bool \<Rightarrow> auth_request \<Rightarrow> User \<Rightarrow> control \<Rightarrow> principal_ctx verdict \<times> control" where
  "session_principal orgs r u ctl =
     (let orgID = TrimSpace (aqOrgID r) in
      if orgID \<noteq> [] \<and> orgs then
        (case session_org u orgID ctl of
           (Inl (status, msg), ctl1) \<Rightarrow> (Refuse status msg, ctl1)
         | (Inr o', ctl1) \<Rightarrow> (Proceed (session_ctx u (Some o')), ctl1))
      else (Proceed (session_ctx u None), ctl))"

definition PrincipalMiddleware ::
  "sessionClaims jose \<Rightarrow> key_env \<Rightarrow> bool \<Rightarrow> bool \<Rightarrow> auth_request \<Rightarrow> auth_state \<Rightarrow> principal_ctx verdict \<times> auth_state" where
  "PrincipalMiddleware jo ke keys orgs r s =
     (let token = extractToken r in
      if token = [] then (Proceed anonymous, s)
      else if keys \<and> HasPrefix token KeyPrefix then
        (case ksql_LookupSubject ke token (asKeys s) of
           (None, kd) \<Rightarrow> (unauthorized, s\<lparr>asKeys := kd\<rparr>)
         | (Some (orgID, subj), kd) \<Rightarrow>
             (case key_principal orgs orgID subj (asControl s) of
                (v, ctl) \<Rightarrow> (v, s\<lparr>asKeys := kd, asControl := ctl\<rparr>)))
      else
        (case live_user jo token (asUsers s) of
           (None, ud) \<Rightarrow> (unauthorized, s\<lparr>asUsers := ud\<rparr>)
         | (Some u, ud) \<Rightarrow>
             (case session_principal orgs r u (asControl s) of
                (v, ctl) \<Rightarrow> (v, s\<lparr>asUsers := ud, asControl := ctl\<rparr>))))"

end
