(* ===== verification/AuthProps.thy ===== *)
theory AuthProps
  imports Auth
begin

text \<open>
  What authentication guarantees: sessions end with a logout, for good, under every interleaving of
  requests and every fault of the database; and a request proceeds in an organization only for
  those entitled to it.
\<close>

section \<open>The accounts and sessions of a server\<close>

text \<open>
  Requests interleave at their statements. A log-in reads the row of the account and signs what it
  has read later; in between the account may be logged out, changed or removed.
\<close>

record session_sys =
  seUsers :: userdb
  seRead :: "User set"
  seIssued :: "(string \<times> User \<times> gotime) set"

inductive session_step :: "sessionClaims jose \<Rightarrow> hasher \<Rightarrow> session_sys \<Rightarrow> session_sys \<Rightarrow> bool" for jo ha where
  sign_up: "CreateUser (seUsers s) (new_user email name h role) = (r, db) \<Longrightarrow> session_step jo ha s (s\<lparr>seUsers := db\<rparr>)"
| log_in: "check_password ha email password (seUsers s) = (Inr u, db) \<Longrightarrow>
    session_step jo ha s (s\<lparr>seUsers := db, seRead := insert u (seRead s)\<rparr>)"
| issue: "u \<in> seRead s \<Longrightarrow> session_Sign jo (ud_now (seUsers s)) u = Inr token \<Longrightarrow>
    session_step jo ha s (s\<lparr>seIssued := insert (token, u, ud_now (seUsers s)) (seIssued s)\<rparr>)"
| log_out: "Logout (seUsers s) i = (r', db) \<Longrightarrow> session_step jo ha s (s\<lparr>seUsers := db\<rparr>)"
| set_role: "UpdateUserRole (seUsers s) i role = (r', db) \<Longrightarrow> session_step jo ha s (s\<lparr>seUsers := db\<rparr>)"
| set_fields: "UpdateUserFields (seUsers s) i name' pw = (r', db) \<Longrightarrow> session_step jo ha s (s\<lparr>seUsers := db\<rparr>)"
| remove: "DeleteUser (seUsers s) i = (r', db) \<Longrightarrow> session_step jo ha s (s\<lparr>seUsers := db\<rparr>)"
| read: "n \<ge> ud_tick (seUsers s) \<Longrightarrow> session_step jo ha s (s\<lparr>seUsers := (seUsers s)\<lparr>ud_tick := n\<rparr>\<rparr>)"
| time: "session_step jo ha s (s\<lparr>seUsers := (seUsers s)\<lparr>ud_now := t\<rparr>\<rparr>)"

abbreviation session_steps :: "sessionClaims jose \<Rightarrow> hasher \<Rightarrow> session_sys \<Rightarrow> session_sys \<Rightarrow> bool" where
  "session_steps jo ha \<equiv> (session_step jo ha)\<^sup>*\<^sup>*"

definition fresh_server :: "session_sys \<Rightarrow> bool" where
  "fresh_server s \<longleftrightarrow> ud_rows (seUsers s) = [] \<and> seRead s = {} \<and> seIssued s = {}"

section \<open>Identifiers are given once and generations only grow\<close>

text \<open>
  From \<open>g\<close> on: the identifier was given, and whoever holds it now has at least the generation.
\<close>

definition gen_from :: "int \<Rightarrow> int \<Rightarrow> userdb \<Rightarrow> bool" where
  "gen_from i g db \<longleftrightarrow> i \<le> ud_seq db \<and> (\<forall>u \<in> set (ud_rows db). usID u = i \<longrightarrow> g \<le> usTokenGen u)"

definition users_ok :: "userdb \<Rightarrow> bool" where
  "users_ok db \<longleftrightarrow> distinct (map usID (ud_rows db)) \<and> (\<forall>u \<in> set (ud_rows db). usID u \<le> ud_seq db)"

text \<open>What every statement does to the table.\<close>

definition grows :: "userdb \<Rightarrow> userdb \<Rightarrow> bool" where
  "grows db db' \<longleftrightarrow> (users_ok db \<longrightarrow> users_ok db') \<and> (\<forall>i g. gen_from i g db \<longrightarrow> gen_from i g db')"

lemma grows_same [simp]: "grows db db"
  by (simp add: grows_def)

lemma grows_clock [simp]: "grows db (db\<lparr>ud_tick := n\<rparr>)" "grows db (db\<lparr>ud_now := t\<rparr>)"
  by (simp_all add: grows_def users_ok_def gen_from_def)

lemma grows_set_user:
  "(\<And>u. usID (f u) = usID u) \<Longrightarrow> (\<And>u. usTokenGen u \<le> usTokenGen (f u)) \<Longrightarrow> grows db (set_user i f (db\<lparr>ud_tick := n\<rparr>))"
  by (fastforce simp: grows_def users_ok_def gen_from_def set_user_def comp_def if_distrib cong: if_cong intro: order_trans)

lemma grows_user_exec:
  assumes "user_exec db what i f = (r, db')" "\<And>n. grows db (f (db\<lparr>ud_tick := n\<rparr>))"
  shows "grows db db'"
  using assms by (auto simp: user_exec_def user_sql_def split: option.splits if_splits)

lemma grows_new_row:
  assumes "usID v = ud_seq db + 1"
  shows "grows db (db\<lparr>ud_tick := n, ud_rows := ud_rows db @ [v], ud_seq := ud_seq db + 1\<rparr>)"
proof -
  have "usID v \<notin> usID ` set (ud_rows db)" if "users_ok db" using that assms by (force simp: users_ok_def)
  moreover have "usID u \<le> ud_seq db + 1" if "users_ok db" "u \<in> set (ud_rows db)" for u
    using that by (force simp: users_ok_def)
  ultimately show ?thesis using assms by (auto simp: grows_def users_ok_def gen_from_def)
qed

lemma grows_CreateUser:
  assumes "CreateUser db (new_user email name h role) = (r, db')"
  shows "grows db db'"
  using assms
  by (auto simp: CreateUser_def user_sql_def user_row_def Let_def split: option.splits if_splits intro!: grows_new_row)

lemma grows_UpdateUserFields:
  assumes "UpdateUserFields db i name pw = (r, db')"
  shows "grows db db'"
proof (cases "name = None \<and> pw = None")
  case True
  then show ?thesis using assms
    by (auto simp: UpdateUserFields_def GetUserByID_def user_query_def user_sql_def split: sum.splits prod.splits option.splits)
next
  case False
  then have "UpdateUserFields db i name pw = user_exec db ''sqlite: update user fields'' i
      (set_user i (\<lambda>u. u\<lparr>usName := (case name of None \<Rightarrow> usName u | Some n \<Rightarrow> n),
                        usPasswordHash := (case pw of None \<Rightarrow> usPasswordHash u | Some h \<Rightarrow> h)\<rparr>))"
    unfolding UpdateUserFields_def by (simp only: if_False)
  from assms [unfolded this] show ?thesis by (rule grows_user_exec) (rule grows_set_user, simp_all)
qed

lemma grows_DeleteUser:
  assumes "DeleteUser db i = (r, db')"
  shows "grows db db'"
proof (rule grows_user_exec [OF assms [unfolded DeleteUser_def]])
  show "grows db ((db\<lparr>ud_tick := n\<rparr>)\<lparr>ud_rows := filter (\<lambda>u. usID u \<noteq> i) (ud_rows (db\<lparr>ud_tick := n\<rparr>))\<rparr>)" for n
    by (auto simp: grows_def users_ok_def gen_from_def distinct_map_filter)
qed

lemma Logout_cases:
  assumes "Logout db i = (r, db')"
  obtains n where "db' = db\<lparr>ud_tick := n\<rparr>"
  | n where "db' = set_user i (\<lambda>u. u\<lparr>usTokenGen := usTokenGen u + 1\<rparr>) (db\<lparr>ud_tick := n\<rparr>)"
  using assms
  by (auto simp: Logout_def BumpTokenGen_def user_exec_def user_sql_def split: sum.splits prod.splits option.splits if_splits)

lemma Logout_success:
  assumes "Logout db i = (None, db')"
  obtains n where "db' = set_user i (\<lambda>u. u\<lparr>usTokenGen := usTokenGen u + 1\<rparr>) (db\<lparr>ud_tick := n\<rparr>)"
  using assms
  by (auto simp: Logout_def BumpTokenGen_def user_exec_def user_sql_def split: sum.splits prod.splits option.splits if_splits)

lemma grows_step: "session_step jo ha s s' \<Longrightarrow> grows (seUsers s) (seUsers s')"
proof (induction rule: session_step.induct)
  case (sign_up s email name h role r db)
  then show ?case by (simp add: grows_CreateUser)
next
  case (log_in email password s u db)
  then show ?case
    by (auto simp: check_password_def GetUserByEmail_def user_query_def user_sql_def split: sum.splits prod.splits option.splits if_splits)
next
  case (log_out s i r' db)
  then show ?case by (auto elim!: Logout_cases intro: grows_set_user)
next
  case (set_role s i role r' db)
  have "grows (seUsers s) db"
    by (rule grows_user_exec [OF set_role [unfolded UpdateUserRole_def]]) (rule grows_set_user, simp_all)
  then show ?case by simp
next
  case (set_fields s i name' pw r' db)
  then show ?case by (simp add: grows_UpdateUserFields)
next
  case (remove s i r' db)
  then show ?case by (simp add: grows_DeleteUser)
qed simp_all

section \<open>What has been read and signed\<close>

definition session_inv :: "session_sys \<Rightarrow> bool" where
  "session_inv s \<longleftrightarrow> users_ok (seUsers s) \<and>
     (\<forall>u \<in> seRead s. gen_from (usID u) (usTokenGen u) (seUsers s)) \<and>
     (\<forall>(token, u, t) \<in> seIssued s. u \<in> seRead s)"

lemma session_inv_start: "fresh_server s \<Longrightarrow> session_inv s"
  by (simp add: fresh_server_def session_inv_def users_ok_def)

lemma check_password_row:
  assumes "check_password ha email password db = (Inr u, db')"
  shows "u \<in> set (ud_rows db) \<and> db' = db\<lparr>ud_tick := Suc (ud_tick db)\<rparr>"
  using assms
  by (auto simp: check_password_def GetUserByEmail_def user_query_def user_sql_def found_def
      split: sum.splits prod.splits option.splits if_splits dest: find_SomeD)

lemma session_inv_step:
  assumes "session_step jo ha s s'" "session_inv s"
  shows "session_inv s'"
proof -
  have g: "grows (seUsers s) (seUsers s')" by (rule grows_step [OF assms(1)])
  have rd: "seRead s' = seRead s \<and> seIssued s' = seIssued s \<Longrightarrow> session_inv s'"
    using g assms(2) unfolding session_inv_def grows_def by auto
  show ?thesis using assms(1)
  proof cases
    case (log_in email password u db)
    have row: "u \<in> set (ud_rows (seUsers s))" "db = (seUsers s)\<lparr>ud_tick := Suc (ud_tick (seUsers s))\<rparr>"
      using check_password_row log_in(2) by blast+
    have "gen_from (usID u) (usTokenGen u) (seUsers s)"
      using row(1) assms(2) unfolding session_inv_def users_ok_def gen_from_def by (auto simp: distinct_map inj_on_def)
    then show ?thesis using g assms(2) log_in(1) unfolding session_inv_def grows_def by auto
  next
    case (issue u token)
    then show ?thesis using g assms(2) unfolding session_inv_def grows_def by auto
  qed (use rd in simp_all)
qed

lemma session_inv_steps: "session_steps jo ha s s' \<Longrightarrow> session_inv s \<Longrightarrow> session_inv s'"
  by (induction rule: rtranclp_induct) (auto intro: session_inv_step)

lemma grows_steps: "session_steps jo ha s s' \<Longrightarrow> gen_from i g (seUsers s) \<Longrightarrow> gen_from i g (seUsers s')"
  by (induction rule: rtranclp_induct) (auto dest: grows_step simp: grows_def)

section \<open>A session token of an account\<close>

definition session_jose :: "sessionClaims jose \<Rightarrow> bool" where
  "session_jose jo \<longleftrightarrow> jose_ok ''HS256'' ssNotBefore ssExpiresAt jo"

lemma session_verifyAt_signed:
  assumes "session_jose jo" "session_Sign jo t u = Inr token" "session_verifyAt jo token now = Inr e"
  shows "usID e = usID u \<and> usTokenGen e = usTokenGen u"
proof -
  note p = jose_ok_parse [OF assms(1) [unfolded session_jose_def] assms(2) [unfolded session_Sign_def]]
  show ?thesis
    using assms(3) p(1) by (auto simp: session_verifyAt_def p(2) session_claims_def split: sum.splits if_splits)
qed

lemma live_user_row:
  assumes "live_user jo token db = (Some u, db')"
  shows "\<exists>e. session_verifyAt jo token (ud_now db) = Inr e \<and> u \<in> set (ud_rows db) \<and> usID u = usID e \<and> usTokenGen u = usTokenGen e"
  using assms
  by (auto simp: live_user_def GetUserByID_def user_query_def user_sql_def found_def
      split: sum.splits prod.splits option.splits if_splits dest!: find_SomeD)

lemma issued_signed:
  assumes "session_steps jo ha s0 s" "fresh_server s0" "(token, u, t) \<in> seIssued s"
  shows "session_Sign jo t u = Inr token"
  using assms(1,3)
proof (induction rule: rtranclp_induct)
  case base
  then show ?case using assms(2) by (simp add: fresh_server_def)
next
  case (step y z)
  from step(2) show ?case by cases (use step in auto)
qed

lemma dead_token:
  assumes "session_jose jo" "session_Sign jo t u = Inr token" "gen_from (usID u) (usTokenGen u + 1) db"
  shows "fst (live_user jo token db) = None"
proof (rule ccontr)
  assume "fst (live_user jo token db) \<noteq> None"
  then obtain v db' where "live_user jo token db = (Some v, db')" by (cases "live_user jo token db") auto
  from live_user_row [OF this] obtain e where e: "session_verifyAt jo token (ud_now db) = Inr e"
    "v \<in> set (ud_rows db)" "usID v = usID e" "usTokenGen v = usTokenGen e" by blast
  with session_verifyAt_signed [OF assms(1,2) e(1)] assms(3) show False by (auto simp: gen_from_def)
qed

text \<open>C15: a logout ends every session of the account, for good. Take any server started without accounts and
  any token it issued, in whatever interleaving of sign-ups, log-ins, role and password changes,
  removals and faults of the database. Once a logout of the account has succeeded, no request that
  carries the token is let through again by either middleware, whatever happens afterwards, and
  even if the account is removed and its address registered anew.\<close>

theorem logout_ends_sessions:
  assumes "session_jose jo" "fresh_server s0" "session_steps jo ha s0 s1" "(token, u, t) \<in> seIssued s1"
    and "Logout (seUsers s1) (usID u) = (None, db)" "session_steps jo ha (s1\<lparr>seUsers := db\<rparr>) s2"
    and "extractToken req = token" "\<not> (keys \<and> HasPrefix token KeyPrefix)" "token \<noteq> []" "asUsers st = seUsers s2"
  shows "fst (Middleware jo req (seUsers s2)) = Refuse 401 ''unauthorized'' \<and>
    fst (PrincipalMiddleware jo ke keys orgs req st) = Refuse 401 ''unauthorized''"
proof -
  have inv: "session_inv s1" by (rule session_inv_steps [OF assms(3) session_inv_start [OF assms(2)]])
  then have "gen_from (usID u) (usTokenGen u) (seUsers s1)" using assms(4) by (auto simp: session_inv_def)
  then have "gen_from (usID u) (usTokenGen u + 1) db"
    using assms(5) by (auto simp: gen_from_def set_user_def elim!: Logout_success)
  then have "gen_from (usID u) (usTokenGen u + 1) (seUsers s2)" using grows_steps [OF assms(6)] by simp
  from dead_token [OF assms(1) issued_signed [OF assms(3,2,4)] this]
  obtain d where "live_user jo token (seUsers s2) = (None, d)" by (cases "live_user jo token (seUsers s2)") auto
  then show ?thesis
    using assms(7-10) by (auto simp: Middleware_def PrincipalMiddleware_def Let_def unauthorized_def)
qed

section \<open>Who may act in an organization\<close>

text \<open>
  What entitles a session to an active organization: membership, with the role of the member row,
  or a system role, which reads only; and a frozen organization is open to system administrators
  alone.
\<close>

definition entitled :: "control \<Rightarrow> User \<Rightarrow> Org \<Rightarrow> bool" where
  "entitled ctl u o' \<longleftrightarrow>
     (\<exists>row \<in> set (t_orgs ctl). oID o' = oID row \<and> oStatus o' = oStatus row) \<and>
     ((\<exists>m \<in> set (t_members ctl). mOrgID m = oID o' \<and> mEmail m = normEmail (usEmail u) \<and> oRole o' = NormalizeRole (mRole m)) \<or>
      NormalizeSystemRole (usSystemRole u) \<noteq> [] \<and> oRole o' = RoleViewer \<and> oSystemAccess o') \<and>
     (oStatus o' = StatusFrozen \<longrightarrow> NormalizeSystemRole (usSystemRole u) = RoleAdmin)"

lemma GetOrg_row:
  assumes "GetOrg ctl i = (Inr o', ctl')"
  shows "o' \<in> set (t_orgs ctl) \<and> oID o' = i \<and> same_tables ctl ctl'"
  using query_answer [OF assms [unfolded GetOrg_def]] query_same_tables [OF assms [unfolded GetOrg_def]]
  by (auto dest: find_SomeD)

lemma GetOrgMember_row:
  assumes "GetOrgMember ctl org email = (Inr m, ctl')"
  shows "m \<in> set (t_members ctl) \<and> mOrgID m = org \<and> mEmail m = normEmail email"
  using query_answer [OF assms [unfolded GetOrgMember_def]] by (auto simp: find_member_def dest: find_SomeD)

lemma session_role_entitles:
  assumes "session_role u org o' ctl = (Inr o2, ctl')"
  shows "oID o2 = oID o' \<and> oStatus o2 = oStatus o' \<and>
    ((\<exists>m \<in> set (t_members ctl). mOrgID m = org \<and> mEmail m = normEmail (usEmail u) \<and> oRole o2 = NormalizeRole (mRole m)) \<or>
     NormalizeSystemRole (usSystemRole u) \<noteq> [] \<and> oRole o2 = RoleViewer \<and> oSystemAccess o2)"
  using assms by (auto simp: session_role_def Let_def split: sum.splits prod.splits store_err.splits if_splits dest!: GetOrgMember_row)

lemma session_org_entitled:
  assumes "session_org u org ctl = (Inr o', ctl')"
  shows "entitled ctl u o' \<and> oID o' = org"
proof -
  obtain row c1 where g: "GetOrg ctl org = (Inr row, c1)" and r: "session_role u org row c1 = (Inr o', ctl')"
    and fz: "oStatus o' = StatusFrozen \<longrightarrow> NormalizeSystemRole (usSystemRole u) = RoleAdmin"
    using assms by (auto simp: session_org_def Frozen_def split: sum.splits prod.splits store_err.splits if_splits)
  have t: "row \<in> set (t_orgs ctl)" "oID row = org" "t_members c1 = t_members ctl"
    using GetOrg_row [OF g] same_tablesD(2) by blast+
  show ?thesis using session_role_entitles [OF r] t fz unfolding entitled_def by fastforce
qed

text \<open>C16: a request acts only for who authenticated it, and in an organization only when entitled to it,
  whatever the databases do. If it carries a session: the account is in the table with the
  generation of the token, the subject is this account, an administrator only if the row says so,
  and an active organization is one the account is entitled to. If it carries an API key: the key
  is in the table and not revoked, the subject is the key, never an administrator, its organization
  is the one of the key, and an active organization is not frozen. Without credentials the subject
  is empty.\<close>

theorem principal_is_entitled:
  assumes "PrincipalMiddleware jo ke keys orgs req s = (Proceed ctx, s')"
  shows "if extractToken req = [] then ctx = anonymous
    else if keys \<and> HasPrefix (extractToken req) KeyPrefix then
      \<exists>r \<in> set (kd_rows (asKeys s)). krHash r = keHash ke (extractToken req) \<and> \<not> krRevoked r \<and>
        pcSubject ctx = \<lparr>sUserID = SubjectID (krID r), sOrgID = krOrgID r, sAdmin = False\<rparr> \<and> pcOrgID ctx = krOrgID r \<and>
        (\<forall>o'. pcOrg ctx = Some o' \<longrightarrow> oID o' = krOrgID r \<and> oRole o' = RoleAdmin \<and> oStatus o' \<noteq> StatusFrozen)
    else
      \<exists>e u. session_verifyAt jo (extractToken req) (ud_now (asUsers s)) = Inr e \<and> u \<in> set (ud_rows (asUsers s)) \<and>
        usID u = usID e \<and> usTokenGen u = usTokenGen e \<and> pcUser ctx = Some u \<and> sUserID (pcSubject ctx) = UserSubjectID (usID u) \<and>
        sAdmin (pcSubject ctx) = (NormalizeSystemRole (usSystemRole u) = RoleAdmin) \<and> sOrgID (pcSubject ctx) = pcOrgID ctx \<and>
        (case pcOrg ctx of
           None \<Rightarrow> pcOrgID ctx = []
         | Some o' \<Rightarrow> entitled (asControl s) u o' \<and> oID o' = pcOrgID ctx \<and> pcOrgID ctx = TrimSpace (aqOrgID req))"
proof -
  consider (anon) "extractToken req = []" | (key) "extractToken req \<noteq> []" "keys \<and> HasPrefix (extractToken req) KeyPrefix"
    | (session) "extractToken req \<noteq> []" "\<not> (keys \<and> HasPrefix (extractToken req) KeyPrefix)" by blast
  then show ?thesis
  proof cases
    case anon
    then show ?thesis using assms by (simp add: PrincipalMiddleware_def)
  next
    case key
    then obtain org subj kd ctl where l: "ksql_LookupSubject ke (extractToken req) (asKeys s) = (Some (org, subj), kd)"
      and p: "key_principal orgs org subj (asControl s) = (Proceed ctx, ctl)"
      using assms by (auto simp: PrincipalMiddleware_def Let_def unauthorized_def split: option.splits prod.splits)
    obtain r where r: "r \<in> set (kd_rows (asKeys s))" "krHash r = keHash ke (extractToken req)" "\<not> krRevoked r"
      "org = krOrgID r" "subj = SubjectID (krID r)"
      using l by (auto simp: ksql_LookupSubject_def ksql_LookupKey_def key_sql_def subject_of_def Let_def
          split: option.splits prod.splits if_splits dest!: find_SomeD)
    have "pcSubject ctx = \<lparr>sUserID = subj, sOrgID = org, sAdmin = False\<rparr> \<and> pcOrgID ctx = org \<and>
        (\<forall>o'. pcOrg ctx = Some o' \<longrightarrow> oID o' = org \<and> oRole o' = RoleAdmin \<and> oStatus o' \<noteq> StatusFrozen)"
      using p by (auto simp: key_principal_def Frozen_def Let_def split: sum.splits prod.splits if_splits dest!: GetOrg_row)
    with r key show ?thesis by auto
  next
    case session
    then obtain u ud ctl where l: "live_user jo (extractToken req) (asUsers s) = (Some u, ud)"
      and p: "session_principal orgs req u (asControl s) = (Proceed ctx, ctl)"
      using assms by (auto simp: PrincipalMiddleware_def Let_def unauthorized_def split: option.splits prod.splits if_splits)
    have "pcUser ctx = Some u \<and> sUserID (pcSubject ctx) = UserSubjectID (usID u) \<and>
        sAdmin (pcSubject ctx) = (NormalizeSystemRole (usSystemRole u) = RoleAdmin) \<and> sOrgID (pcSubject ctx) = pcOrgID ctx \<and>
        (case pcOrg ctx of None \<Rightarrow> pcOrgID ctx = []
         | Some o' \<Rightarrow> entitled (asControl s) u o' \<and> oID o' = pcOrgID ctx \<and> pcOrgID ctx = TrimSpace (aqOrgID req))"
      using p by (auto simp: session_principal_def session_ctx_def Let_def split: sum.splits prod.splits if_splits
          dest!: session_org_entitled)
    with live_user_row [OF l] session show ?thesis by auto
  qed
qed

text \<open>
  A key of a frozen organization passes when the look-up of the organization fails: the check of
  the status is part of the branch in which the row was read.
\<close>

lemma frozen_key_passes_on_fault:
  assumes "GetOrg ctl org = (Inl e, ctl')"
  shows "key_principal True org subj ctl =
    (Proceed \<lparr>pcSubject = \<lparr>sUserID = subj, sOrgID = org, sAdmin = False\<rparr>, pcOrgID = org, pcOrg = None, pcUser = None\<rparr>, ctl')"
  using assms by (simp add: key_principal_def)

text \<open>
  Two first registrations that overlap both become administrators: each counts the accounts before
  the other has inserted its own.
\<close>

lemma first_admin_race:
  assumes "ud_fault db = no_faults" "ud_rows db = []" "haHash ha pw = Inr h" "haHash ha pw' = Inr h'"
    and "email = TrimSpace (ToLower email)" "email' = TrimSpace (ToLower email')" "email \<noteq> []" "email' \<noteq> []" "email \<noteq> email'"
    and "MinPasswordLen \<le> length pw" "MinPasswordLen \<le> length pw'"
  shows "\<exists>u db1 ctl1. Register ha False (\<lambda>d. fst (snd (Register ha False id email' pw' [] d ctl))) email pw [] db ctl = (Inr u, db1, ctl1) \<and>
    map (\<lambda>u. (usEmail u, usSystemRole u)) (ud_rows db1) = [(email', ''admin''), (email, ''admin'')]"
  using assms
  by (simp add: Register_def GetUserByEmail_def CountUsers_def CreateUser_def user_query_def user_sql_def found_def new_user_def Let_def user_row_def)

section \<open>Instances\<close>

definition demo_user :: User where
  "demo_user = \<lparr>usID = 1, usEmail = ''ann@acme.io'', usName = [], usPasswordHash = ''hash:correct horse'', usSystemRole = ''user'',
     usTokenGen = 0, usCreatedAt = 1700000000000000000\<rparr>"

definition demo_time :: gotime where "demo_time = 1700000000000000000"

definition demo_token :: string where "demo_token = ''h.p.s''"

text \<open>A library that signs the claims of one log-in.\<close>

definition demo_jose :: "sessionClaims jose" where
  "demo_jose = \<lparr>joSign = (\<lambda>c. if c = session_claims demo_time demo_user then Inr demo_token else Inl ''no key''),
     joParse = (\<lambda>now token. if token \<noteq> demo_token then Inl [TokenMalformed]
       else if in_window now None (ssExpiresAt (session_claims demo_time demo_user)) then Inr (session_claims demo_time demo_user)
       else Inl [TokenExpired, TokenInvalidClaims]),
     joHeader = (\<lambda>h. if h = ''h'' then Some ''HS256'' else None)\<rparr>"

definition demo_hasher :: hasher where
  "demo_hasher = \<lparr>haHash = (\<lambda>p. Inr (''hash:'' @ p)), haCompare = (\<lambda>h p. h = ''hash:'' @ p)\<rparr>"

definition demo_users :: userdb where
  "demo_users = \<lparr>ud_rows = [], ud_seq = 0, ud_now = demo_time, ud_tick = 0, ud_fault = no_faults\<rparr>"

definition demo_bearer :: "string \<Rightarrow> string \<Rightarrow> auth_request" where
  "demo_bearer token org = \<lparr>aqCookie = None, aqAuthorization = ''Bearer '' @ token, aqOrgID = org\<rparr>"

lemma demo_session_jose: "session_jose demo_jose"
proof -
  have "alg_check demo_jose ''HS256'' demo_token = None" by code_simp
  then show ?thesis
    by (auto simp: session_jose_def jose_ok_def demo_jose_def session_claims_def in_window_def)
qed

definition demo_registered :: userdb where
  "demo_registered = demo_users\<lparr>ud_rows := [demo_user], ud_seq := 1, ud_tick := 1\<rparr>"

definition demo_system :: session_sys where
  "demo_system = \<lparr>seUsers = demo_registered\<lparr>ud_tick := 2\<rparr>, seRead = {demo_user}, seIssued = {(demo_token, demo_user, demo_time)}\<rparr>"

lemma demo_system_reached:
  "session_steps demo_jose demo_hasher \<lparr>seUsers = demo_users, seRead = {}, seIssued = {}\<rparr> demo_system"
proof -
  let ?s0 = "\<lparr>seUsers = demo_users, seRead = {}, seIssued = {}\<rparr>"
  have c: "CreateUser demo_users (new_user ''ann@acme.io'' [] ''hash:correct horse'' ''user'') = (Inr demo_user, demo_registered)"
    by (simp add: CreateUser_def user_sql_def demo_users_def new_user_def demo_registered_def demo_user_def demo_time_def user_row_def
        zeroTime_def Unix_def timeUnix_def Let_def)
  have p: "check_password demo_hasher ''ann@acme.io'' ''correct horse'' demo_registered = (Inr demo_user, demo_registered\<lparr>ud_tick := 2\<rparr>)"
  proof -
    have "TrimSpace (ToLower ''ann@acme.io'') = ''ann@acme.io''" by code_simp
    then show ?thesis
      by (simp add: check_password_def GetUserByEmail_def user_query_def user_sql_def found_def demo_registered_def demo_users_def
          demo_user_def demo_hasher_def)
  qed
  have g: "session_Sign demo_jose (ud_now (demo_registered\<lparr>ud_tick := 2\<rparr>)) demo_user = Inr demo_token"
    by (simp add: session_Sign_def demo_jose_def demo_registered_def demo_users_def)
  have "session_steps demo_jose demo_hasher ?s0 (?s0\<lparr>seUsers := demo_registered\<rparr>)"
    using sign_up [of ?s0] c by auto
  moreover have "session_step demo_jose demo_hasher (?s0\<lparr>seUsers := demo_registered\<rparr>)
      (?s0\<lparr>seUsers := demo_registered\<lparr>ud_tick := 2\<rparr>, seRead := {demo_user}\<rparr>)"
    using log_in [of demo_hasher _ _ "?s0\<lparr>seUsers := demo_registered\<rparr>"] p by auto
  moreover have "session_step demo_jose demo_hasher (?s0\<lparr>seUsers := demo_registered\<lparr>ud_tick := 2\<rparr>, seRead := {demo_user}\<rparr>) demo_system"
    using issue [of demo_user "?s0\<lparr>seUsers := demo_registered\<lparr>ud_tick := 2\<rparr>, seRead := {demo_user}\<rparr>" demo_jose] g
    by (simp add: demo_system_def demo_registered_def demo_users_def)
  ultimately show ?thesis by (meson rtranclp.rtrancl_into_rtrancl)
qed

definition demo_control :: control where
  "demo_control = \<lparr>t_orgs = [\<lparr>oID = ''org_1'', oName = ''Acme'', oSlug = ''acme'', oStatus = StatusActive, oCreatedBy = ''user:1'',
       oCreatedAt = demo_time, oRole = [], oSystemAccess = False\<rparr>],
     t_members = [\<lparr>mID = ''mem_1'', mOrgID = ''org_1'', mEmail = ''ann@acme.io'', mRole = ''editor'', mInvitedBy = [], mCreatedAt = demo_time\<rparr>],
     t_invitations = [], t_grants = [], t_repos = [], t_tags = [], c_now = demo_time, c_ids = 0, c_rand = nat_digits, c_tick = 0,
     c_fault = no_faults\<rparr>"

theorem logout_ends_sessions_witness:
  "fst (Middleware demo_jose (demo_bearer demo_token []) (seUsers demo_system)) = Proceed demo_user \<and>
   fst (Logout (seUsers demo_system) 1) = None \<and>
   fst (Middleware demo_jose (demo_bearer demo_token []) (snd (Logout (seUsers demo_system) 1))) = Refuse 401 ''unauthorized'' \<and>
   fst (PrincipalMiddleware demo_jose demo_keys True True (demo_bearer demo_token [])
     \<lparr>asUsers = snd (Logout (seUsers demo_system) 1), asControl = demo_control, asKeys = demo_keydb\<rparr>) = Refuse 401 ''unauthorized''"
proof -
  have l: "fst (Logout (seUsers demo_system) 1) = None" by code_simp
  have t: "extractToken (demo_bearer demo_token []) = demo_token" "\<not> HasPrefix demo_token KeyPrefix" "demo_token \<noteq> []"
    by code_simp+
  have m: "fst (Middleware demo_jose (demo_bearer demo_token []) (seUsers demo_system)) = Proceed demo_user" by code_simp
  have "(demo_token, demo_user, demo_time) \<in> seIssued demo_system" by (simp add: demo_system_def)
  moreover have "Logout (seUsers demo_system) (usID demo_user) = (None, snd (Logout (seUsers demo_system) 1))"
    using l by (cases "Logout (seUsers demo_system) 1") (simp add: demo_user_def)
  ultimately have "fst (Middleware demo_jose (demo_bearer demo_token [])
      (seUsers (demo_system\<lparr>seUsers := snd (Logout (seUsers demo_system) 1)\<rparr>))) = Refuse 401 ''unauthorized'' \<and>
    fst (PrincipalMiddleware demo_jose demo_keys True True (demo_bearer demo_token [])
      \<lparr>asUsers = snd (Logout (seUsers demo_system) 1), asControl = demo_control, asKeys = demo_keydb\<rparr>) = Refuse 401 ''unauthorized''"
    by (intro logout_ends_sessions [OF demo_session_jose _ demo_system_reached _ _ rtranclp.rtrancl_refl])
       (use t in \<open>simp_all add: fresh_server_def demo_users_def\<close>)
  with l m show ?thesis by simp
qed

definition demo_auth :: auth_state where
  "demo_auth = \<lparr>asUsers = seUsers demo_system, asControl = demo_control, asKeys = demo_keydb\<rparr>"

theorem principal_is_entitled_witness:
  "\<exists>ctx o'. fst (PrincipalMiddleware demo_jose demo_keys True True (demo_bearer demo_token ''org_1'') demo_auth) = Proceed ctx \<and>
     pcOrg ctx = Some o' \<and> oRole o' = RoleEditor \<and> entitled demo_control demo_user o'"
proof -
  let ?r = "PrincipalMiddleware demo_jose demo_keys True True (demo_bearer demo_token ''org_1'') demo_auth"
  define ctx where "ctx = (case fst ?r of Proceed c \<Rightarrow> c | Refuse _ _ \<Rightarrow> anonymous)"
  have p: "fst ?r = Proceed ctx" unfolding ctx_def by code_simp
  have o: "pcUser ctx = Some demo_user" "map_option oRole (pcOrg ctx) = Some RoleEditor" unfolding ctx_def by code_simp+
  have t: "extractToken (demo_bearer demo_token ''org_1'') \<noteq> []"
    "\<not> HasPrefix (extractToken (demo_bearer demo_token ''org_1'')) KeyPrefix" by code_simp+
  have "?r = (Proceed ctx, snd ?r)" using p by (metis prod.collapse)
  from principal_is_entitled [OF this] t o obtain o' where "pcOrg ctx = Some o'" "oRole o' = RoleEditor" "entitled (asControl demo_auth) demo_user o'"
    by (auto split: option.splits)
  then show ?thesis using p by (auto simp: demo_auth_def)
qed

end
