(* ===== verification/RegistryToken.thy ===== *)
theory RegistryToken
  imports Auth
begin

text \<open>
  The bearer tokens of the registry (\<^verbatim>\<open>internal/registrytoken\<close>): minting and verifying them,
  the authentication of a caller by API key or password, the endpoint that issues a token for the
  scopes a caller asks for, and the gate in front of the registry that lets a request pass with a
  token that covers it.
\<close>

section \<open>Tokens\<close>

definition DefaultTTL :: int where "DefaultTTL = 5 * 60 * Second"

record registryClaims =
  rcAccess :: "Access list"
  rcIssuer :: string
  rcSubject :: string
  rcAudience :: "string list"
  rcExpiresAt :: "gotime option"
  rcNotBefore :: "gotime option"
  rcIssuedAt :: "gotime option"
  rcID :: string

record token_service =
  tsJose :: "registryClaims jose"
  tsIssuer :: string
  tsService :: string
  tsTTL :: int

definition NewService :: "registryClaims jose \<Rightarrow> string \<Rightarrow> string \<Rightarrow> int \<Rightarrow> token_service" where
  "NewService jo issuer service ttl =
     \<lparr>tsJose = jo, tsIssuer = issuer, tsService = service, tsTTL = (if ttl \<le> 0 then DefaultTTL else ttl)\<rparr>"

definition mint_claims :: "token_service \<Rightarrow> gotime \<Rightarrow> string \<Rightarrow> string \<Rightarrow> Access list \<Rightarrow> registryClaims" where
  "mint_claims svc now jti subject access =
     \<lparr>rcAccess = access, rcIssuer = tsIssuer svc, rcSubject = subject, rcAudience = [tsService svc],
      rcExpiresAt = Some (NumericDate (now + tsTTL svc)), rcNotBefore = Some (NumericDate (now - clockSkew)),
      rcIssuedAt = Some (NumericDate now), rcID = jti\<rparr>"

definition Mint :: "token_service \<Rightarrow> gotime \<Rightarrow> string \<Rightarrow> string \<Rightarrow> Access list \<Rightarrow> string + string" where
  "Mint svc now jti subject access = joSign (tsJose svc) (mint_claims svc now jti subject access)"

definition mapRS256ParseError :: "jwt_err list \<Rightarrow> token_err" where
  "mapRS256ParseError es =
     (if List.member es TokenMalformed then ErrMalformed
      else if List.member es TokenSignatureInvalid then ErrSignature
      else if List.member es TokenExpired then ErrExpired
      else if List.member es TokenNotValidYet then ErrNotYet
      else if List.member es TokenUnverifiable then ErrAlg
      else ErrMalformed)"

text \<open>The claims and the time the token expires (no time when it carries none).\<close>

definition token_verifyAt :: "token_service \<Rightarrow> string \<Rightarrow> gotime \<Rightarrow> token_err + AccessClaims \<times> gotime" where
  "token_verifyAt svc token now =
     (case alg_check (tsJose svc) ''RS256'' token of
        Some e \<Rightarrow> Inl e
      | None \<Rightarrow>
          (case joParse (tsJose svc) now token of
             Inl es \<Rightarrow> Inl (mapRS256ParseError es)
           | Inr c \<Rightarrow>
               if tsIssuer svc \<noteq> [] \<and> rcIssuer c \<noteq> tsIssuer svc then Inl ErrIssuer
               else if tsService svc \<noteq> [] \<and> rcAudience c \<noteq> [] \<and> \<not> List.member (rcAudience c) (tsService svc) then Inl ErrAudience
               else Inr (\<lparr>clSubject = rcSubject c, clAccess = rcAccess c\<rparr>,
                         case rcExpiresAt c of Some e \<Rightarrow> e | None \<Rightarrow> zeroTime)))"

section \<open>Callers\<close>

text \<open>
  \<open>teKeys\<close>, \<open>tePasswords\<close>, \<open>teAuthn\<close>, \<open>teAuthz\<close> and \<open>teGrants\<close> say which parts are attached.
\<close>

record token_env =
  teService :: token_service
  teKeyEnv :: key_env
  teKeys :: bool
  tePasswords :: bool
  teHasher :: hasher
  teSession :: "sessionClaims jose"
  teAuthn :: bool
  teAuthz :: bool
  teGrants :: bool
  teJTI :: "gotime \<Rightarrow> string"

definition nobody :: Principal where
  "nobody = \<lparr>pSubject = [], pOrgID = [], pEmail = [], pAnonymous = False, pKeyScopes = []\<rparr>"

definition VerifyPassword :: "token_env \<Rightarrow> string \<Rightarrow> string \<Rightarrow> userdb \<Rightarrow> string option \<times> userdb" where
  "VerifyPassword env email password db =
     (case Login (teHasher env) (session_Sign (teSession env) (ud_now db)) email password db of
        (Inl _, db1) \<Rightarrow> (None, db1)
      | (Inr (_, u), db1) \<Rightarrow> (Some (UserSubjectID (usID u)), db1))"

definition Authenticate :: "token_env \<Rightarrow> string \<Rightarrow> string \<Rightarrow> auth_state \<Rightarrow> Principal option \<times> auth_state" where
  "Authenticate env email secret s =
     (if HasPrefix secret KeyPrefix then
        if \<not> teKeys env then (None, s)
        else
          (case ksql_LookupKey (teKeyEnv env) secret (asKeys s) of
             (None, kd) \<Rightarrow> (None, s\<lparr>asKeys := kd\<rparr>)
           | (Some info, kd) \<Rightarrow>
               (Some (nobody\<lparr>pSubject := SubjectID (kiID info), pOrgID := kiOrgID info, pEmail := email, pKeyScopes := kiScopes info\<rparr>),
                s\<lparr>asKeys := kd\<rparr>))
      else if \<not> tePasswords env then (None, s)
      else
        (case VerifyPassword env email secret (asUsers s) of
           (None, ud) \<Rightarrow> (None, s\<lparr>asUsers := ud\<rparr>)
         | (Some subject, ud) \<Rightarrow> (Some (nobody\<lparr>pSubject := subject, pEmail := email\<rparr>), s\<lparr>asUsers := ud\<rparr>)))"

definition handler_authenticate :: "token_env \<Rightarrow> string \<Rightarrow> string \<Rightarrow> auth_state \<Rightarrow> Principal option \<times> auth_state" where
  "handler_authenticate env email secret s = (if \<not> teAuthn env then (None, s) else Authenticate env email secret s)"

section \<open>The token endpoint\<close>

text \<open>
  The request: the credentials of the header \<^verbatim>\<open>Authorization: Basic\<close>, the values of \<^verbatim>\<open>scope\<close> in
  query and body, and the form fields of the OAuth2 password grant.
\<close>

record token_request =
  tqMethod :: string
  tqBasic :: "(string \<times> string) option"
  tqScopes :: "string list"
  tqGrantType :: string
  tqUsername :: string
  tqPassword :: string

record TokenResponse =
  trToken :: string
  trAccessToken :: string
  trExpiresIn :: int
  trIssuedAt :: gotime

datatype token_answer = NotAllowed | MintFailed | Challenged string | Token TokenResponse

definition oauthPasswordCreds :: "token_request \<Rightarrow> (string \<times> string) option" where
  "oauthPasswordCreds r =
     (if tqMethod r \<noteq> ''POST'' then None
      else if tqGrantType r \<noteq> ''password'' then None
      else if tqUsername r = [] \<or> tqPassword r = [] then None
      else Some (tqUsername r, tqPassword r))"

text \<open>The value of \<^verbatim>\<open>WWW-Authenticate\<close>; the scope is there for a request that names a repository.\<close>

definition challengeWithScope :: "string \<Rightarrow> string \<Rightarrow> (string \<times> string) option \<Rightarrow> string" where
  "challengeWithScope realm service scope =
     ''Bearer realm='' @ quote realm @ '',service='' @ quote service @
     (case scope of
        Some (repoName, action) \<Rightarrow>
          if repoName \<noteq> [] then '',scope='' @ quote (''repository:'' @ repoName @ '':'' @ action) else []
      | None \<Rightarrow> [])"

definition the_creds :: "token_request \<Rightarrow> (string \<times> string) option" where
  "the_creds r = (case tqBasic r of Some c \<Rightarrow> Some c | None \<Rightarrow> oauthPasswordCreds r)"

text \<open>Who asks: \<open>None\<close> for credentials that do not hold.\<close>

definition token_principal :: "token_env \<Rightarrow> token_request \<Rightarrow> auth_state \<Rightarrow> Principal option \<times> auth_state" where
  "token_principal env r s =
     (case the_creds r of
        Some (email, secret) \<Rightarrow> handler_authenticate env email secret s
      | None \<Rightarrow> (Some (nobody\<lparr>pAnonymous := True\<rparr>), s))"

definition granted_access :: "token_env \<Rightarrow> Principal \<Rightarrow> string list \<Rightarrow> control \<Rightarrow> Access list \<times> control" where
  "granted_access env p raw ctl =
     (if teAuthz env then token_access (teGrants env) ctl p (ParseScopes (scopeValues raw)) else ([], ctl))"

definition token_ServeHTTP :: "token_env \<Rightarrow> gotime \<Rightarrow> token_request \<Rightarrow> auth_state \<Rightarrow> token_answer \<times> auth_state" where
  "token_ServeHTTP env now r s =
     (if tqMethod r \<noteq> ''GET'' \<and> tqMethod r \<noteq> ''POST'' then (NotAllowed, s)
      else
        case token_principal env r s of
          (None, s1) \<Rightarrow> (Challenged (challengeWithScope [] (tsService (teService env)) None), s1)
        | (Some p, s1) \<Rightarrow>
            (case granted_access env p (tqScopes r) (asControl s1) of
               (access, ctl) \<Rightarrow>
                 (case Mint (teService env) now (teJTI env now) (pSubject p) access of
                    Inl _ \<Rightarrow> (MintFailed, s1\<lparr>asControl := ctl\<rparr>)
                  | Inr token \<Rightarrow>
                      (Token \<lparr>trToken = token, trAccessToken = token, trExpiresIn = tsTTL (teService env) div Second, trIssuedAt = now\<rparr>,
                       s1\<lparr>asControl := ctl\<rparr>))))"

section \<open>The gate\<close>

definition bearerToken :: "string \<Rightarrow> string" where
  "bearerToken h =
     (if 7 < length h \<and> EqualFold (take 7 h) ''Bearer '' then TrimSpace (drop 7 h) else [])"

text \<open>The claims a request passes with, or the challenge of a 401.\<close>

definition ChallengeFunc :: "token_service \<Rightarrow> gotime \<Rightarrow> string \<Rightarrow> string \<Rightarrow> string \<Rightarrow> string \<Rightarrow> string + AccessClaims" where
  "ChallengeFunc svc now realm method path authorization =
     (let scope = ParseResourceScope method path; token = bearerToken authorization;
          challenge = challengeWithScope realm (tsService svc) scope in
      if token = [] then Inl challenge
      else
        case token_verifyAt svc token now of
          Inl _ \<Rightarrow> Inl challenge
        | Inr (claims, _) \<Rightarrow>
            (case scope of
               Some (repoName, action) \<Rightarrow> if \<not> claims_Allows claims repoName action then Inl challenge else Inr claims
             | None \<Rightarrow> Inr claims))"

end
