(* ===== verification/TokenProps.thy ===== *)
theory TokenProps
  imports RegistryToken
begin

text \<open>
  From credentials to the registry: what a token opens is what its issue granted, for as long as it
  lives; and the token an outsider gets opens nothing of a private repository.
\<close>

section \<open>A minted token at the gate\<close>

definition token_jose :: "registryClaims jose \<Rightarrow> bool" where
  "token_jose jo \<longleftrightarrow> jose_ok ''RS256'' rcNotBefore rcExpiresAt jo"

definition minted_window :: "token_service \<Rightarrow> gotime \<Rightarrow> gotime \<Rightarrow> bool" where
  "minted_window svc t now \<longleftrightarrow>
     NumericDate (t - clockSkew) - clockSkew \<le> now \<and> now < NumericDate (t + tsTTL svc) + clockSkew"

definition carries :: "string \<Rightarrow> string \<Rightarrow> bool" where
  "carries authorization token \<longleftrightarrow> bearerToken authorization = token \<and> token \<noteq> []"

lemma token_verifyAt_minted:
  assumes "token_jose (tsJose svc)" "Mint svc t jti subject access = Inr token"
  shows "token_verifyAt svc token now = Inr (c, e) \<longleftrightarrow>
    minted_window svc t now \<and> c = \<lparr>clSubject = subject, clAccess = access\<rparr> \<and> e = NumericDate (t + tsTTL svc)"
proof -
  let ?c = "mint_claims svc t jti subject access"
  note p = jose_ok_parse [OF assms(1) [unfolded token_jose_def] assms(2) [unfolded Mint_def]]
  have w: "in_window now (rcNotBefore ?c) (rcExpiresAt ?c) \<longleftrightarrow> minted_window svc t now"
    by (auto simp: in_window_def mint_claims_def minted_window_def)
  show ?thesis
  proof (cases "joParse (tsJose svc) now token")
    case (Inl es)
    then have "\<not> minted_window svc t now" using p(2) [of now ?c] w by auto
    then show ?thesis using Inl p(1) by (simp add: token_verifyAt_def)
  next
    case (Inr c')
    then have "c' = ?c" "minted_window svc t now" using p(2) [of now c'] w by auto
    then show ?thesis using Inr p(1) by (auto simp: token_verifyAt_def mint_claims_def)
  qed
qed

lemma minted_at_gate:
  assumes "token_jose (tsJose svc)" "Mint svc t jti subject access = Inr token" "carries authorization token"
  shows "ChallengeFunc svc now realm method path authorization =
    (if minted_window svc t now \<and>
        (case ParseResourceScope method path of
           None \<Rightarrow> True | Some (repoName, action) \<Rightarrow> claims_Allows \<lparr>clSubject = subject, clAccess = access\<rparr> repoName action)
     then Inr \<lparr>clSubject = subject, clAccess = access\<rparr>
     else Inl (challengeWithScope realm (tsService svc) (ParseResourceScope method path)))"
proof (cases "token_verifyAt svc token now")
  case (Inl e)
  then have "\<not> minted_window svc t now" using token_verifyAt_minted [OF assms(1,2), of now] by auto
  then show ?thesis using Inl assms(3) by (simp add: ChallengeFunc_def carries_def)
next
  case (Inr x)
  obtain c e where x: "x = (c, e)" by (cases x)
  then have "minted_window svc t now" "c = \<lparr>clSubject = subject, clAccess = access\<rparr>"
    using Inr token_verifyAt_minted [OF assms(1,2), of now c e] by auto
  then show ?thesis using Inr x assms(3) by (auto simp: ChallengeFunc_def carries_def split: option.splits)
qed

text \<open>C17: What a token opens is what was granted with it. A request that carries a token minted for a
  subject and a list of grants passes the gate exactly while the token is valid (its life widened
  by the clock skew on both sides) and, when it names a repository, the grants allow the action on
  it; it then reaches the registry with this subject and these grants. Otherwise it is challenged
  for the scope it needs.\<close>

theorem bearer_gate_exact:
  assumes "token_jose (tsJose svc)" "Mint svc t jti subject access = Inr token" "carries authorization token"
  shows "ChallengeFunc svc now realm method path authorization =
    (if minted_window svc t now \<and>
        (case ParseResourceScope method path of
           None \<Rightarrow> True | Some (repoName, action) \<Rightarrow> claims_Allows \<lparr>clSubject = subject, clAccess = access\<rparr> repoName action)
     then Inr \<lparr>clSubject = subject, clAccess = access\<rparr>
     else Inl (challengeWithScope realm (tsService svc) (ParseResourceScope method path)))"
  using assms by (rule minted_at_gate)

section \<open>Outsiders\<close>

lemma token_access_outsider:
  assumes "orgs_ok ctl" "\<And>d. same_tables ctl d \<Longrightarrow> fst (resolveOrgID d (namespaceOf name)) = Some org"
    and "find_repo (t_repos ctl) org (TrimSpace name) = Some r" "rpVisibility r \<noteq> VisibilityPublic"
    and "outsider ctl p org" "rpOwnerUserID r \<noteq> pSubject p" "\<forall>i \<in> set (acts_as ctl p). \<not> shared_with ctl ''repo'' (rpID r) i"
    and "token_access g ctl p scs = (acs, ctl')"
  shows "\<not> claims_Allows \<lparr>clSubject = subject, clAccess = acs\<rparr> name action"
proof
  assume "claims_Allows \<lparr>clSubject = subject, clAccess = acs\<rparr> name action"
  then obtain a where a: "a \<in> set acs" "acName a = name" by (auto simp: claims_Allows_def list_ex_iff)
  from token_access_sound [OF assms(8) a(1)] obtain d as where d: "same_tables ctl d" "acActions a \<noteq> []"
    "acActions a = fst (GrantedActions g d p name as)" using a(2) by auto
  obtain d1 where "resolveOrgID d (namespaceOf name) = (Some org, d1)" using assms(2) [OF d(1)] by (metis prod.collapse)
  from GrantedActions_outsider [OF _ this, of r p g as] d assms show False
    by (auto simp: same_tablesD [OF d(1)] orgs_ok_tables [of d ctl] outsider_tables acts_as_tables shared_with_tables)
qed

definition name_resolves :: "control \<Rightarrow> string \<Rightarrow> string \<Rightarrow> bool" where
  "name_resolves ctl name org \<longleftrightarrow> (\<forall>d. same_tables ctl d \<longrightarrow> fst (resolveOrgID d (namespaceOf name)) = Some org)"

lemma name_resolves_healthy:
  assumes "ctl_healthy ctl" "fst (resolveOrgID ctl (namespaceOf name)) = Some org"
  shows "name_resolves ctl name org"
  unfolding name_resolves_def
proof (intro allI impI)
  fix d
  assume st: "same_tables ctl d"
  have "ctl_healthy d" "t_orgs d = t_orgs ctl" using same_tablesD(1,11) [OF st] assms(1) by simp_all
  then show "fst (resolveOrgID d (namespaceOf name)) = Some org"
    using resolveOrgID_healthy [OF assms(1)] assms(2) by simp
qed

lemma token_principal_control: "token_principal env r s = (p, s') \<Longrightarrow> asControl s' = asControl s"
  by (auto simp: token_principal_def handler_authenticate_def Authenticate_def split: option.splits prod.splits if_splits)


section \<open>Instances\<close>

definition demo_now :: gotime where "demo_now = 1700000000000000000"

text \<open>A library that signs one set of claims.\<close>

definition signs_only :: "registryClaims \<Rightarrow> registryClaims jose" where
  "signs_only c0 = \<lparr>joSign = (\<lambda>c. if c = c0 then Inr ''h.p.s'' else Inl ''no key''),
     joParse = (\<lambda>now token. if token \<noteq> ''h.p.s'' then Inl [TokenMalformed]
       else if in_window now (rcNotBefore c0) (rcExpiresAt c0) then Inr c0 else Inl [TokenInvalidClaims, TokenExpired]),
     joHeader = (\<lambda>h. if h = ''h'' then Some ''RS256'' else None)\<rparr>"

lemma signs_only_jose: "token_jose (signs_only c0)"
proof -
  have "alg_check (signs_only c0) ''RS256'' ''h.p.s'' = None"
    by (simp add: alg_check_def signs_only_def)
  then show ?thesis by (auto simp: token_jose_def jose_ok_def signs_only_def)
qed

definition no_library :: "registryClaims jose" where
  "no_library = \<lparr>joSign = (\<lambda>_. Inl []), joParse = (\<lambda>_ _. Inl [TokenMalformed]), joHeader = (\<lambda>_. None)\<rparr>"

definition service_for :: "string \<Rightarrow> Access list \<Rightarrow> token_service" where
  "service_for subject access =
     NewService (signs_only (mint_claims (NewService no_library ''specula'' ''specula'' 0) demo_now [] subject access)) ''specula'' ''specula'' 0"

lemma service_for_mints: "Mint (service_for subject access) demo_now [] subject access = Inr ''h.p.s''"
  by (simp add: Mint_def service_for_def NewService_def signs_only_def mint_claims_def)

theorem bearer_gate_exact_witness:
  "ChallengeFunc (service_for ''user:2'' [\<lparr>acType = ''repository'', acName = ''acme/app'', acActions = [''pull'']\<rparr>]) demo_now
      ''http://r/token'' ''GET'' ''/v2/acme/app/manifests/v1'' ''Bearer h.p.s''
    = Inr \<lparr>clSubject = ''user:2'', clAccess = [\<lparr>acType = ''repository'', acName = ''acme/app'', acActions = [''pull'']\<rparr>]\<rparr> \<and>
   ChallengeFunc (service_for ''user:2'' [\<lparr>acType = ''repository'', acName = ''acme/app'', acActions = [''pull'']\<rparr>]) demo_now
      ''http://r/token'' ''PUT'' ''/v2/acme/app/manifests/v1'' ''Bearer h.p.s''
    = Inl (challengeWithScope ''http://r/token'' ''specula'' (Some (''acme/app'', ''push'')))"
proof -
  let ?acs = "[\<lparr>acType = ''repository'', acName = ''acme/app'', acActions = [''pull'']\<rparr>]"
  let ?svc = "service_for ''user:2'' ?acs"
  have j: "token_jose (tsJose ?svc)" by (simp add: service_for_def NewService_def signs_only_jose)
  have c: "carries ''Bearer h.p.s'' ''h.p.s''" by (simp add: carries_def) code_simp
  have w: "minted_window ?svc demo_now demo_now" "tsService ?svc = ''specula''" by code_simp+
  have p: "ParseResourceScope ''GET'' ''/v2/acme/app/manifests/v1'' = Some (''acme/app'', ''pull'')"
    "ParseResourceScope ''PUT'' ''/v2/acme/app/manifests/v1'' = Some (''acme/app'', ''push'')"
    "claims_Allows \<lparr>clSubject = ''user:2'', clAccess = ?acs\<rparr> ''acme/app'' ''pull''"
    "\<not> claims_Allows \<lparr>clSubject = ''user:2'', clAccess = ?acs\<rparr> ''acme/app'' ''push''" by code_simp+
  show ?thesis
    using bearer_gate_exact [OF j service_for_mints c, of demo_now "''http://r/token''" "''GET''" "''/v2/acme/app/manifests/v1''"]
      bearer_gate_exact [OF j service_for_mints c, of demo_now "''http://r/token''" "''PUT''" "''/v2/acme/app/manifests/v1''"]
    by (simp add: w p)
qed

text \<open>A key of another organization asks for a private repository.\<close>

definition foreign_keydb :: keydb where
  "foreign_keydb = snd (ksql_Create demo_keys ''org2'' ''ci'' [] demo_keydb)"

definition foreign_state :: auth_state where
  "foreign_state = \<lparr>asUsers = \<lparr>ud_rows = [], ud_seq = 0, ud_now = demo_now, ud_tick = 0, ud_fault = no_faults\<rparr>,
     asControl = acme_db ''owner'' [acme_app] no_faults, asKeys = foreign_keydb\<rparr>"

definition demo_token_env :: token_env where
  "demo_token_env = \<lparr>teService = service_for ''apikey:0'' [], teKeyEnv = demo_keys, teKeys = True, tePasswords = False,
     teHasher = \<lparr>haHash = Inl, haCompare = (\<lambda>_ _. False)\<rparr>,
     teSession = \<lparr>joSign = (\<lambda>_. Inl []), joParse = (\<lambda>_ _. Inl []), joHeader = (\<lambda>_. None)\<rparr>,
     teAuthn = True, teAuthz = True, teGrants = True, teJTI = (\<lambda>_. [])\<rparr>"

definition foreign_request :: token_request where
  "foreign_request = \<lparr>tqMethod = ''GET'', tqBasic = Some (''ann@x.org'', ''spck_0''), tqScopes = [''repository:acme/app:pull,push''],
     tqGrantType = [], tqUsername = [], tqPassword = []\<rparr>"

definition foreign_caller :: Principal where
  "foreign_caller = \<lparr>pSubject = ''apikey:0'', pOrgID = ''org2'', pEmail = ''ann@x.org'', pAnonymous = False, pKeyScopes = [''pull'', ''push'']\<rparr>"


end
