(* ===== verification/PullThrough.thy ===== *)
theory PullThrough
  imports Fill Coalesce Store
begin

text \<open>
  What the pull-through handlers of the package protocols share. Every one of the packages of
  \<^verbatim>\<open>internal/handler\<close> has its own copy of the same
  pipeline over the cache manager, the upstream client and the coalescer: immutable files are looked
  up and, when missing, fetched, quarantined, verified and stored under a flight; mutable documents
  are kept for a time to live and served stale when no upstream delivers. The pipeline is defined
  here once, with the places where the copies differ as arguments; the theories of the packages
  define their handlers with it.

  As in \<^verbatim>\<open>Oci\<close> the request is served by the leader of its flight and its client stays; what replicas do while a cold
  fetch waits for their lock is the parameter \<^verbatim>\<open>peLock\<close>. A panic outside a flight is not recovered
  by the handler: \<^verbatim>\<open>net/http\<close> closes the connection, which is the answer \<^verbatim>\<open>aborted\<close>.
\<close>

section \<open>State, requests, responses\<close>

text \<open>
  The background refreshes a handler started are kept in the order of their start. The hosts the tarball
  handler may fetch from are shared with the Helm handler, which adds to them.
\<close>

record 'b pt_state =
  ptCache :: cache_state
  ptNet :: "'b fetch_world"
  ptJobs :: "(string \<times> ArtifactRef) list"
  ptAllowed :: "string list"

record 'b pt_env =
  peCache :: cache_env
  peQuarantine :: quarantine_env
  peFetch :: "'b fetch_env"
  peMeta :: bool
  peClient :: "bool option"
  peUpstreams :: "Upstream list"
  peTTL :: int
  peDir :: string
  pePrefix :: string
  peLock :: "(string \<Rightarrow> int \<Rightarrow> cache_state \<Rightarrow> (uerr + string) \<times> cache_state) option"

record pt_request =
  pqMethod :: string
  pqPath :: string
  pqQuery :: string
  pqHost :: string
  pqURLHost :: string
  pqTLS :: bool
  pqHeaders :: "(string \<times> string) list"

datatype pt_body = PNone | PText string | PBytes bytes | PAborted

datatype pt_mark = NoMark | MarkHit | MarkMiss

record pt_response =
  psStatus :: int
  psHeaders :: "(string \<times> string) list"
  psBody :: pt_body
  psMark :: pt_mark

definition pt_reply :: "int \<Rightarrow> (string \<times> string) list \<Rightarrow> pt_body \<Rightarrow> pt_response" where
  "pt_reply code hs b = \<lparr>psStatus = code, psHeaders = hs, psBody = b, psMark = NoMark\<rparr>"

definition pt_marked :: "pt_mark \<Rightarrow> pt_response \<times> 's \<Rightarrow> pt_response \<times> 's" where
  "pt_marked m a = (case a of (r, s) \<Rightarrow> (r\<lparr>psMark := m\<rparr>, s))"

text \<open>\<^verbatim>\<open>http.Error\<close>: a text answer that no client may take for anything else.\<close>

definition http_Error :: "string \<Rightarrow> int \<Rightarrow> pt_response" where
  "http_Error message code =
     pt_reply code [(''Content-Type'', ''text/plain; charset=utf-8''), (''X-Content-Type-Options'', ''nosniff'')]
       (PText (message @ [CHR 0x0A]))"

definition aborted :: pt_response where
  "aborted = pt_reply 0 [] PAborted"

definition method_not_allowed :: pt_response where
  "method_not_allowed =
     (let e = http_Error ''method not allowed'' 405 in e\<lparr>psHeaders := (''Allow'', ''GET, HEAD'') # psHeaders e\<rparr>)"

definition get_or_head :: "pt_request \<Rightarrow> bool" where
  "get_or_head req \<longleftrightarrow> pqMethod req = ''GET'' \<or> pqMethod req = ''HEAD''"

text \<open>\<^verbatim>\<open>Header.Get\<close>: the first value of a header, the empty string when it is not set.\<close>

definition header_get :: "string \<Rightarrow> pt_request \<Rightarrow> string" where
  "header_get k req = (case map_of (pqHeaders req) k of None \<Rightarrow> [] | Some v \<Rightarrow> v)"

text \<open>The address clients reach the handler at.\<close>

definition request_base :: "pt_request \<Rightarrow> string" where
  "request_base req =
     (let fp = header_get ''X-Forwarded-Proto'' req;
          scheme = (if fp \<noteq> [] then fp else if pqTLS req then ''https'' else ''http'');
          host = (if pqHost req = [] then pqURLHost req else pqHost req) in
      scheme @ ''://'' @ host)"

definition pt_cache :: "(cache_state \<Rightarrow> 'a \<times> cache_state) \<Rightarrow> 'b pt_state \<Rightarrow> 'a \<times> 'b pt_state" where
  "pt_cache f s = (case f (ptCache s) of (r, c) \<Rightarrow> (r, s\<lparr>ptCache := c\<rparr>))"

section \<open>Upstreams\<close>

definition pt_fetch ::
  "'b pt_env \<Rightarrow> bool \<Rightarrow> ArtifactRef \<Rightarrow> Upstream list \<Rightarrow> 'b pt_state \<Rightarrow> (uerr + resumingReader option \<times> UpstreamMeta) \<times> 'b pt_state" where
  "pt_fetch env offline ref ups s =
     (case MaybeOffline offline (peFetch env) ref ups [] (ptNet s) of (r, w) \<Rightarrow> (r, s\<lparr>ptNet := w\<rparr>))"

definition pt_revalidate ::
  "'b pt_env \<Rightarrow> bool \<Rightarrow> ArtifactRef \<Rightarrow> UpstreamMeta \<Rightarrow> Upstream list \<Rightarrow> 'b pt_state
   \<Rightarrow> (uerr + resumingReader option \<times> UpstreamMeta \<times> bool) \<times> 'b pt_state" where
  "pt_revalidate env offline ref prev ups s =
     (if offline then (Inl ErrOffline, s)
      else case Revalidate (peFetch env) ref prev ups [] (ptNet s) of (r, w) \<Rightarrow> (r, s\<lparr>ptNet := w\<rparr>))"

text \<open>The client, when there is one and there are mirrors to ask.\<close>

definition pt_client :: "'b pt_env \<Rightarrow> bool option" where
  "pt_client env = (if peUpstreams env = [] then None else peClient env)"

section \<open>Bodies read into memory\<close>

text \<open>
  Reading a small body whole: \<^verbatim>\<open>io.ReadAll\<close> over \<^verbatim>\<open>io.LimitReader\<close>. The reads are those of the
  resuming reader; a panic is \<^verbatim>\<open>None\<close>, an error or a body beyond the limit no body.
\<close>

fun read_all :: "nat \<Rightarrow> bytes \<Rightarrow> ((bytes \<times> read_fail option) \<times> 'b fetch_world) list \<Rightarrow> 'b fetch_world \<Rightarrow> (bytes option) option \<times> 'b fetch_world" where
  "read_all limit acc [] w = (Some (Some acc), w)"
| "read_all limit acc (((d, e), w') # evs) w =
     (let acc' = take limit (acc @ d) in
      if limit \<le> length acc' then (Some (Some acc'), w')
      else
        case e of
          None \<Rightarrow> read_all limit acc' evs w'
        | Some RdEOF \<Rightarrow> (Some (Some acc'), w')
        | Some RdPanic \<Rightarrow> (None, w')
        | Some _ \<Rightarrow> (Some None, w'))"

definition small_body :: "nat \<Rightarrow> 'b pt_env \<Rightarrow> resumingReader \<Rightarrow> 'b pt_state \<Rightarrow> (bytes option) option \<times> 'b pt_state" where
  "small_body limit env rd s =
     (case read_all (limit + 1) [] (drain (peFetch env) rd (ptNet s)) (ptNet s) of
        (r, w) \<Rightarrow>
          (map_option (\<lambda>b. case b of None \<Rightarrow> None | Some x \<Rightarrow> if x = [] \<or> limit < length x then None else Some x) r,
           s\<lparr>ptNet := w\<rparr>))"

section \<open>Filling the cache\<close>

definition pt_fill ::
  "'b pt_env \<Rightarrow> resumingReader \<Rightarrow> UpstreamMeta \<Rightarrow> 'b pt_state \<Rightarrow> (uerr + Artifact) \<times> 'b pt_state" where
  "pt_fill env rd umeta s =
     (case fill_temp (peQuarantine env) (peFetch env) ''quarantine: '' (peDir env) rd umeta (c_tmp (ptCache s)) (ptNet s) of
        (r, st, w) \<Rightarrow> (r, s\<lparr>ptCache := (ptCache s)\<lparr>c_tmp := st\<rparr>, ptNet := w\<rparr>))"

definition pt_cleanup :: "Artifact \<Rightarrow> 'b pt_state \<Rightarrow> 'b pt_state" where
  "pt_cleanup art s = s\<lparr>ptCache := discard art (ptCache s)\<rparr>"

definition pt_store :: "'b pt_env \<Rightarrow> ArtifactRef \<Rightarrow> Artifact \<Rightarrow> 'b pt_state \<Rightarrow> (cache_err + CacheEntry) \<times> 'b pt_state" where
  "pt_store env ref art s =
     (case pt_cache (\<lambda>c. Store (peCache env) c ref art) s of
        (Inl e, s1) \<Rightarrow> (Inl e, pt_cleanup art s1)
      | (Inr entry, s1) \<Rightarrow> (Inr entry, s1))"

text \<open>
  The errors of a fill: those of the upstream and of the quarantine, and those of the store, which
  can be asked whether a verifier refused.
\<close>

datatype fill_fail = UpFail uerr | StoreFail cache_err

text \<open>
  A panic of the body's reader. No other error has this text: the others of a fill start with
  \<^verbatim>\<open>quarantine:\<close>.
\<close>

definition panicked :: "fill_fail \<Rightarrow> bool" where
  "panicked f = (case f of UpFail e \<Rightarrow> eMsg e = nil_deref | StoreFail _ \<Rightarrow> False)"

text \<open>
  A cold fill of an immutable file. \<^verbatim>\<open>enrich\<close> may add to what the upstream said of the file, or panic;
  \<^verbatim>\<open>werr\<close> is how the copy wraps an error of the store. A fetch that returns no body at all makes
  the deferred \<^verbatim>\<open>rc.Close()\<close> panic, which the flight recovers.
\<close>

definition fill_immutable ::
  "'b pt_env \<Rightarrow> (UpstreamMeta \<Rightarrow> 'b pt_state \<Rightarrow> UpstreamMeta option \<times> 'b pt_state) \<Rightarrow> (cache_err \<Rightarrow> cache_err) \<Rightarrow> bool \<Rightarrow> ArtifactRef
   \<Rightarrow> Upstream list \<Rightarrow> ArtifactRef \<Rightarrow> 'b pt_state \<Rightarrow> (uerr + (cache_err + CacheEntry)) \<times> 'b pt_state" where
  "fill_immutable env enrich werr offline fetchRef ups ref s =
     (case pt_fetch env offline fetchRef ups s of
        (Inl e, s1) \<Rightarrow> (Inl (wrap ''upstream fetch: '' e), s1)
      | (Inr (None, _), s1) \<Rightarrow> (Inl (plain nil_deref), s1)
      | (Inr (Some rd, umeta0), s1) \<Rightarrow>
          (case enrich umeta0 s1 of
             (None, s2) \<Rightarrow> (Inl (plain nil_deref), s2)
           | (Some umeta, s2) \<Rightarrow>
               (case pt_fill env rd umeta s2 of
                  (Inl e, s3) \<Rightarrow> (Inl e, s3)
                | (Inr art, s3) \<Rightarrow>
                    (case pt_store env ref art s3 of
                       (Inl e, s4) \<Rightarrow> (Inr (Inl (werr e)), s4)
                     | (Inr entry, s4) \<Rightarrow> (Inr (Inr entry), s4)))))"

definition no_enrich :: "UpstreamMeta \<Rightarrow> 'b pt_state \<Rightarrow> UpstreamMeta option \<times> 'b pt_state" where
  "no_enrich umeta s = (Some umeta, s)"

definition pt_lock :: "'b pt_env \<Rightarrow> (string \<Rightarrow> int \<Rightarrow> 'b pt_state \<Rightarrow> (uerr + string) \<times> 'b pt_state) option" where
  "pt_lock env = map_option (\<lambda>acq key ttl. pt_cache (acq key ttl)) (peLock env)"

definition pt_recheck :: "ArtifactRef \<Rightarrow> 'b pt_state \<Rightarrow> (uerr + (cache_err + CacheEntry) option) \<times> 'b pt_state" where
  "pt_recheck ref s =
     (case pt_cache (\<lambda>c. Lookup c ref) s of
        (Inl e, s1) \<Rightarrow> (Inr (Some (Inl e)), s1)
      | (Inr None, s1) \<Rightarrow> (Inr None, s1)
      | (Inr (Some e), s1) \<Rightarrow> (Inr (Some (Inr e)), s1))"

definition pt_coalesced ::
  "'b pt_env \<Rightarrow> ArtifactRef \<Rightarrow> ('b pt_state \<Rightarrow> (uerr + (cache_err + CacheEntry)) \<times> 'b pt_state) \<Rightarrow> 'b pt_state
   \<Rightarrow> (fill_fail + CacheEntry) \<times> 'b pt_state" where
  "pt_coalesced env ref fn s =
     (case FetchLocked (pt_lock env) (\<lambda>_ _ s. s) (FetchKey (rProtocol ref) (rName ref) (rVersion ref) (rDigest ref)) 0
             (pt_recheck ref) fn s of
        (Inl e, s1) \<Rightarrow> (Inl (UpFail e), s1)
      | (Inr (Inl e), s1) \<Rightarrow> (Inl (StoreFail e), s1)
      | (Inr (Inr entry), s1) \<Rightarrow> (Inr entry, s1))"

section \<open>Mutable documents\<close>

definition ttl_entry :: "'b pt_env \<Rightarrow> ArtifactRef \<Rightarrow> Artifact \<Rightarrow> UpstreamMeta \<Rightarrow> gotime \<Rightarrow> MutableEntry" where
  "ttl_entry env ref art umeta now =
     \<lparr>meKey = rProtocol ref @ '':'' @ rName ref @ '':'' @ rVersion ref, meProtocol = rProtocol ref, meDigest = aDigest art,
      mePayload = [], meETag = uETag umeta, meLastModified = uLastModified umeta, meTTLSeconds = peTTL env,
      meUpstream = uUpstream umeta, meFetchedAt = now\<rparr>"

text \<open>An error of writing the time to live is logged and forgotten.\<close>

definition point_mutable :: "'b pt_env \<Rightarrow> ArtifactRef \<Rightarrow> Artifact \<Rightarrow> UpstreamMeta \<Rightarrow> 'b pt_state \<Rightarrow> 'b pt_state" where
  "point_mutable env ref art umeta s =
     (if peMeta env then snd (pt_cache (with_db (\<lambda>d. PutMutable d (ttl_entry env ref art umeta (db_now d)))) s) else s)"

definition store_body ::
  "'b pt_env \<Rightarrow> (cache_err \<Rightarrow> cache_err) \<Rightarrow> ArtifactRef \<Rightarrow> resumingReader \<Rightarrow> UpstreamMeta \<Rightarrow> 'b pt_state \<Rightarrow> (fill_fail + CacheEntry) \<times> 'b pt_state" where
  "store_body env werr ref rd umeta s =
     (case pt_fill env rd umeta s of
        (Inl e, s1) \<Rightarrow> (Inl (UpFail e), s1)
      | (Inr art, s1) \<Rightarrow>
          (case pt_store env ref art s1 of
             (Inl e, s2) \<Rightarrow> (Inl (StoreFail (werr e)), s2)
           | (Inr entry, s2) \<Rightarrow> (Inr entry, point_mutable env ref art umeta s2)))"

definition stale_entry :: "ArtifactRef \<Rightarrow> 'b pt_state \<Rightarrow> CacheEntry option \<times> 'b pt_state" where
  "stale_entry ref s =
     (case pt_cache (\<lambda>c. LookupStale c ref) s of
        (Inl _, s1) \<Rightarrow> (None, s1)
      | (Inr e, s1) \<Rightarrow> (e, s1))"

text \<open>
  The last stage of serving a mutable document: ask the upstreams, and serve the stale copy when
  they fail. \<^verbatim>\<open>serve\<close> writes an entry out, \<^verbatim>\<open>absent\<close> is the answer to a failure with no stale copy.
\<close>

definition fresh_fetch ::
  "'b pt_env \<Rightarrow> (cache_err \<Rightarrow> cache_err) \<Rightarrow> (CacheEntry \<Rightarrow> 'b pt_state \<Rightarrow> pt_response \<times> 'b pt_state) \<Rightarrow> (uerr \<Rightarrow> pt_response)
   \<Rightarrow> bool \<Rightarrow> ArtifactRef \<Rightarrow> Upstream list \<Rightarrow> ArtifactRef \<Rightarrow> CacheEntry option \<Rightarrow> 'b pt_state \<Rightarrow> pt_response \<times> 'b pt_state" where
  "fresh_fetch env werr serve absent offline fetchRef ups ref stale s =
     (case pt_fetch env offline fetchRef ups s of
        (Inl e, s1) \<Rightarrow>
          (case stale of
             Some st \<Rightarrow> pt_marked MarkHit (serve st s1)
           | None \<Rightarrow> (absent e, s1))
      | (Inr (None, _), s1) \<Rightarrow> (aborted, s1)
      | (Inr (Some rd, umeta), s1) \<Rightarrow>
          (case store_body env werr ref rd umeta s1 of
             (Inl f, s2) \<Rightarrow> (if panicked f then aborted else http_Error ''failed to cache upstream response'' 502, s2)
           | (Inr entry, s2) \<Rightarrow> pt_marked MarkMiss (serve entry s2)))"

definition serve_stale ::
  "(CacheEntry \<Rightarrow> 'b pt_state \<Rightarrow> pt_response \<times> 'b pt_state) \<Rightarrow> CacheEntry option \<Rightarrow> 'b pt_state \<Rightarrow> pt_response \<times> 'b pt_state" where
  "serve_stale serve stale s =
     (case stale of
        Some st \<Rightarrow> pt_marked MarkHit (serve st s)
      | None \<Rightarrow> (http_Error ''not found'' 404, s))"

section \<open>Writing an entry out\<close>

definition whole_entry :: "CacheEntry \<Rightarrow> 'b pt_state \<Rightarrow> (cache_err + bytes) \<times> 'b pt_state" where
  "whole_entry entry s = pt_cache (\<lambda>c. ServeEntry c (Some entry) 0 (-1)) s"

text \<open>
  The document with the rewriting of the package. A document is read into memory, so its length is
  that of what is sent. \<^verbatim>\<open>openEntry\<close> finds the production manager, which serves entries.
\<close>

definition write_document ::
  "pt_request \<Rightarrow> string \<Rightarrow> (bytes \<Rightarrow> bytes) \<Rightarrow> CacheEntry \<Rightarrow> 'b pt_state \<Rightarrow> pt_response \<times> 'b pt_state" where
  "write_document req ct rewrite entry s =
     (case whole_entry entry s of
        (Inl _, s1) \<Rightarrow> (http_Error ''cache read failed'' 500, s1)
      | (Inr rc, s1) \<Rightarrow>
          (let data = rewrite rc in
           (pt_reply 200 [(''Content-Type'', ct), (''Content-Length'', itoa (int (length data)))]
              (if pqMethod req \<noteq> ''HEAD'' then PBytes data else PNone), s1)))"

definition size_header :: "CacheEntry \<Rightarrow> (string \<times> string) list" where
  "size_header entry = (if 0 < ceSize entry then [(''Content-Length'', itoa (ceSize entry))] else [])"

definition write_file ::
  "pt_request \<Rightarrow> (string \<times> string) list \<Rightarrow> (string \<times> string) list \<Rightarrow> CacheEntry \<Rightarrow> 'b pt_state \<Rightarrow> pt_response \<times> 'b pt_state" where
  "write_file req hs hs2 entry s =
     (case whole_entry entry s of
        (Inl _, s1) \<Rightarrow> (http_Error ''cache read failed'' 500, s1)
      | (Inr rc, s1) \<Rightarrow>
          (pt_reply 200 (hs @ size_header entry @ hs2) (if pqMethod req \<noteq> ''HEAD'' then PBytes rc else PNone), s1))"

text \<open>The answer to a failed cold fill of the packages that tell a refusal apart.\<close>

definition fill_failure :: "fill_fail \<Rightarrow> pt_response" where
  "fill_failure f =
     (case f of
        StoreFail e \<Rightarrow>
          (if AsVerifyError e \<noteq> None then http_Error ''verification failed'' 502 else http_Error ''upstream fetch failed'' 502)
      | UpFail e \<Rightarrow>
          (if IsNotFound (Some e) then http_Error ''not found'' 404 else http_Error ''upstream fetch failed'' 502))"

definition fetch_failure :: "uerr \<Rightarrow> pt_response" where
  "fetch_failure e = (if IsNotFound (Some e) then http_Error ''not found'' 404 else http_Error ''upstream fetch failed'' 502)"

text \<open>
  The two pipelines of the packages \<^verbatim>\<open>cargo\<close>, \<^verbatim>\<open>conda\<close> and \<^verbatim>\<open>hf\<close>. \<^verbatim>\<open>route\<close> is the upstream
  chain of a name with the reference to fetch, if it may be fetched.
\<close>

definition mutable_pipeline ::
  "'b pt_env \<Rightarrow> (cache_err \<Rightarrow> cache_err) \<Rightarrow> (bool \<times> Upstream list \<times> ArtifactRef) option
   \<Rightarrow> (CacheEntry \<Rightarrow> 'b pt_state \<Rightarrow> pt_response \<times> 'b pt_state) \<Rightarrow> ArtifactRef \<Rightarrow> 'b pt_state \<Rightarrow> pt_response \<times> 'b pt_state" where
  "mutable_pipeline env werr route serve ref s =
     (case pt_cache (\<lambda>c. Lookup c ref) s of
        (Inl _, s1) \<Rightarrow> (http_Error ''cache lookup failed'' 500, s1)
      | (Inr (Some entry), s1) \<Rightarrow> pt_marked MarkHit (serve entry s1)
      | (Inr None, s1) \<Rightarrow>
          (case stale_entry ref s1 of
             (stale, s2) \<Rightarrow>
               (case route of
                  None \<Rightarrow> serve_stale serve stale s2
                | Some (offline, ups, fetchRef) \<Rightarrow>
                    fresh_fetch env werr serve fetch_failure offline fetchRef ups ref stale s2)))"

definition immutable_pipeline ::
  "'b pt_env \<Rightarrow> (UpstreamMeta \<Rightarrow> 'b pt_state \<Rightarrow> UpstreamMeta option \<times> 'b pt_state) \<Rightarrow> (bool \<times> Upstream list \<times> ArtifactRef) option
   \<Rightarrow> (CacheEntry \<Rightarrow> 'b pt_state \<Rightarrow> pt_response \<times> 'b pt_state) \<Rightarrow> ArtifactRef \<Rightarrow> 'b pt_state \<Rightarrow> pt_response \<times> 'b pt_state" where
  "immutable_pipeline env enrich route serve ref s =
     (case pt_cache (\<lambda>c. Lookup c ref) s of
        (Inl _, s1) \<Rightarrow> (http_Error ''cache lookup failed'' 500, s1)
      | (Inr (Some entry), s1) \<Rightarrow> pt_marked MarkHit (serve entry s1)
      | (Inr None, s1) \<Rightarrow>
          (case route of
             None \<Rightarrow> (http_Error ''not found'' 404, s1)
           | Some (offline, ups, fetchRef) \<Rightarrow>
               (case pt_coalesced env ref (fill_immutable env enrich id offline fetchRef ups ref) s1 of
                  (Inl f, s2) \<Rightarrow> (fill_failure f, s2)
                | (Inr entry, s2) \<Rightarrow> pt_marked MarkMiss (serve entry s2))))"

section \<open>The stores stay sound\<close>

abbreviation pe_dg :: "'b pt_env \<Rightarrow> digest_lib" where "pe_dg env \<equiv> cvDigest (peCache env)"

definition pt_inv :: "'b pt_env \<Rightarrow> 'b pt_state \<Rightarrow> bool" where
  "pt_inv env s \<longleftrightarrow> cache_inv (pe_dg env) (ptCache s)"

definition pt_lock_sound :: "'b pt_env \<Rightarrow> bool" where
  "pt_lock_sound env \<longleftrightarrow>
     (\<forall>acq key ttl c. peLock env = Some acq \<longrightarrow> cache_inv (pe_dg env) c \<longrightarrow> cache_inv (pe_dg env) (snd (acq key ttl c)))"

lemma pt_cache_eq: "pt_cache f s = (r, s') \<longleftrightarrow> (\<exists>c. f (ptCache s) = (r, c) \<and> s' = s\<lparr>ptCache := c\<rparr>)"
  by (auto simp: pt_cache_def split: prod.splits)

lemma pt_inv_stores:
  "rows_of (ptCache s') = rows_of (ptCache s) \<Longrightarrow> c_disk (ptCache s') = c_disk (ptCache s) \<Longrightarrow> pt_inv env s \<Longrightarrow> pt_inv env s'"
  using cache_inv_cong [of "ptCache s'" "ptCache s"] by (simp add: pt_inv_def)

lemma pt_read_inv: "pt_cache f s = (r, s') \<Longrightarrow> (\<And>c. same_data c (snd (f c))) \<Longrightarrow> pt_inv env s \<Longrightarrow> pt_inv env s'"
  using cache_inv_same_data by (auto simp: pt_inv_def pt_cache_eq) (metis snd_conv)

lemma pt_Lookup_inv: "pt_cache (\<lambda>c. Lookup c ref) s = (r, s') \<Longrightarrow> pt_inv env s \<Longrightarrow> pt_inv env s'"
  by (erule pt_read_inv) (rule same_data_Lookup)

lemma stale_entry_inv: "stale_entry ref s = (e, s') \<Longrightarrow> pt_inv env s \<Longrightarrow> pt_inv env s'"
  using pt_read_inv [of "\<lambda>c. LookupStale c ref" s] same_data_lookupMutable
  by (fastforce simp: stale_entry_def LookupStale_def split: prod.splits sum.splits)

lemma whole_entry_inv: "whole_entry e s = (r, s') \<Longrightarrow> pt_inv env s \<Longrightarrow> pt_inv env s'"
  unfolding whole_entry_def by (erule pt_read_inv) (rule same_data_ServeEntry)

lemma pt_fetch_inv: "pt_fetch env offline ref ups s = (r, s') \<Longrightarrow> pt_inv e s \<Longrightarrow> pt_inv e s'"
  by (rule pt_inv_stores) (auto simp: pt_fetch_def split: prod.splits)

lemma pt_revalidate_inv: "pt_revalidate env offline ref prev ups s = (r, s') \<Longrightarrow> pt_inv e s \<Longrightarrow> pt_inv e s'"
  by (rule pt_inv_stores) (auto simp: pt_revalidate_def split: prod.splits if_splits)

lemma small_body_inv: "small_body limit env rd s = (r, s') \<Longrightarrow> pt_inv e s \<Longrightarrow> pt_inv e s'"
  by (rule pt_inv_stores) (auto simp: small_body_def split: prod.splits)

lemma pt_fill_inv:
  assumes "pt_fill env rd umeta s = (r, s')" and "pt_inv e s"
  shows "pt_inv e s' \<and> (\<forall>art. r = Inr art \<longrightarrow> HasPrefix (aDigest art) ''sha256:'')"
proof -
  have "pt_inv e s'" by (rule pt_inv_stores) (use assms in \<open>auto simp: pt_fill_def split: prod.splits\<close>)
  moreover have "HasPrefix (aDigest art) ''sha256:''" if "r = Inr art" for art
    using assms(1) that sha256_quarantined by (auto simp: pt_fill_def split: prod.splits dest!: fill_temp_ok)
  ultimately show ?thesis by blast
qed

lemma storeOnce_entry: "storeOnce env s ref art = (Inr entry, s') \<Longrightarrow> ceDigest entry = aDigest art"
  by (erule storeOnce_ok) (auto dest!: promote_stage_ok simp: store_entry_def)

text \<open>The row of a reference, and that it is the one of an entry.\<close>

definition recorded :: "ArtifactRef \<Rightarrow> CacheEntry \<Rightarrow> 'b pt_state \<Rightarrow> bool" where
  "recorded ref e s \<longleftrightarrow> (\<exists>r. find_row (rows_of (ptCache s)) (ref_key ref) = Some r \<and> r_digest r = ceDigest e) \<and> ceDigest e \<noteq> []"

lemma recorded_same: "rows_of (ptCache s') = rows_of (ptCache s) \<Longrightarrow> recorded ref e s' = recorded ref e s"
  by (simp add: recorded_def)

lemma pt_store_inv:
  assumes "pt_store env ref art s = (r, s')" and "pt_inv env s" and "chain_frames (peCache env)" and "HasPrefix (aDigest art) ''sha256:''"
  shows "pt_inv env s' \<and> (\<forall>e. r = Inr e \<longrightarrow> recorded ref e s')"
proof -
  obtain q c where q: "Store (peCache env) (ptCache s) ref art = (q, c)" by fastforce
  have i: "cache_inv (pe_dg env) c"
    using storeOnce_inv [OF assms(2) [unfolded pt_inv_def] assms(3,4), of ref] q by (simp add: Store_storeOnce)
  have "recorded ref e s'" if "r = Inr e" for e
  proof -
    have st: "storeOnce (peCache env) (ptCache s) ref art = (Inr e, c)" "ptCache s' = c"
      using assms(1) q that by (auto simp: pt_store_def pt_cache_def Store_storeOnce split: sum.splits)
    moreover have "aDigest art \<noteq> []" using assms(4) by (auto simp: HasPrefix_def)
    ultimately show ?thesis
      using Store_row [OF assms(2) [unfolded pt_inv_def] assms(3,4) st(1)] storeOnce_entry [OF st(1)] by (auto simp: recorded_def)
  qed
  moreover have "pt_inv env s'"
    using assms(1) q i cache_inv_cong [of "discard art c" c]
    by (auto simp: pt_store_def pt_cache_def pt_cleanup_def pt_inv_def split: sum.splits)
  ultimately show ?thesis by blast
qed

lemma point_mutable_rows [simp]:
  "rows_of (ptCache (point_mutable env ref art umeta s)) = rows_of (ptCache s)"
  "c_disk (ptCache (point_mutable env ref art umeta s)) = c_disk (ptCache s)"
  by (auto simp: point_mutable_def pt_cache_def with_db_def PutMutable_def db_io_def split: option.splits prod.splits)

lemma Lookup_recorded:
  assumes "pt_cache (\<lambda>c. Lookup c ref) s = (Inr (Some e), s')" and "pt_inv env s" and "\<not> rMutable ref"
  shows "recorded ref e s'"
proof -
  obtain c where l: "Lookup (ptCache s) ref = (Inr (Some e), c)" and s': "s' = s\<lparr>ptCache := c\<rparr>" using assms(1) by (auto simp: pt_cache_eq)
  have "rows_of c = rows_of (ptCache s)" using same_data_Lookup [of "ptCache s" ref] l by (simp add: same_data_def)
  moreover obtain r where r: "find_row (rows_of (ptCache s)) (ref_key ref) = Some r" "e = row_CacheEntry r"
    using lookupImmutable_hit [of "ptCache s" ref e c] l assms(3) by (auto simp: Lookup_def)
  moreover have "HasPrefix (r_digest r) ''sha256:''"
    using assms(2) r(1) by (auto simp: pt_inv_def cache_inv_def row_backed_def dest!: find_row_Some)
  ultimately show ?thesis using s' by (auto simp: recorded_def row_CacheEntry_def HasPrefix_def)
qed

section \<open>What is served\<close>

text \<open>The bytes an entry stands for: a stored blob that hashes to its name, or a payload kept in the row.\<close>

definition entry_bytes :: "'b pt_env \<Rightarrow> 'b pt_state \<Rightarrow> CacheEntry \<Rightarrow> bytes \<Rightarrow> bool" where
  "entry_bytes env s e b \<longleftrightarrow>
     (if ceDigest e = []
      then \<exists>me. mutable_entries (c_db (ptCache s)) (mutableKey (ceRef e)) = Some me \<and> mePayload me = b
      else \<exists>p. blobPath (c_disk (ptCache s)) (ceDigest e) = Inr p \<and> blob_files (c_disk (ptCache s)) p = Some b \<and> path_matches (pe_dg env) p b)"

lemma whole_entry_bytes:
  assumes "whole_entry e s = (Inr b, s')" and "pt_inv env s"
  shows "entry_bytes env s' e b"
proof -
  obtain c where sv: "ServeEntry (ptCache s) (Some e) 0 (-1) = (Inr b, c)" and s': "s' = s\<lparr>ptCache := c\<rparr>"
    using assms(1) by (auto simp: whole_entry_def pt_cache_eq)
  have same: "same_data (ptCache s) c" using same_data_ServeEntry [of "ptCache s" "Some e" 0 "-1"] sv by simp
  have rr: "range_read x 0 (-1) = x" for x by (simp add: range_read_def)
  have path: "blobPath (c_disk c) d = blobPath (c_disk (ptCache s)) d" for d using same by (simp add: same_data_def blobPath_def split: sum.splits)
  show ?thesis
    using ServeEntry_bytes [OF sv] assms(2) same s' path
    by (auto simp: entry_bytes_def rr blob_present_def pt_inv_def cache_inv_def same_data_def split: if_splits dest: ldisk.read_matches)
qed

text \<open>
  An answer is sound when the stores are sound after it and its content is the content of an entry,
  as the package rewrites it.
\<close>

definition sound_document :: "'b pt_env \<Rightarrow> (bytes \<Rightarrow> bytes) \<Rightarrow> pt_response \<times> 'b pt_state \<Rightarrow> bool" where
  "sound_document env rewrite a \<longleftrightarrow>
     pt_inv env (snd a) \<and> (\<forall>b. psBody (fst a) = PBytes b \<longrightarrow> (\<exists>e x. entry_bytes env (snd a) e x \<and> b = rewrite x))"

text \<open>
  For an immutable reference the content is moreover the one its row records.
\<close>

definition sound_file :: "'b pt_env \<Rightarrow> ArtifactRef \<Rightarrow> pt_response \<times> 'b pt_state \<Rightarrow> bool" where
  "sound_file env ref a \<longleftrightarrow>
     pt_inv env (snd a) \<and> (\<forall>b. psBody (fst a) = PBytes b \<longrightarrow> (\<exists>e. recorded ref e (snd a) \<and> entry_bytes env (snd a) e b))"

lemma bodies [simp]:
  "psBody (http_Error m code) = PText (m @ [CHR 0x0A])" "psBody aborted = PAborted" "psBody method_not_allowed = PText (''method not allowed'' @ [CHR 0x0A])"
  "psBody (pt_reply code hs b) = b" "psStatus (pt_reply code hs b) = code" "psStatus (http_Error m code) = code" "psStatus aborted = 0"
  by (simp_all add: http_Error_def aborted_def method_not_allowed_def pt_reply_def Let_def)

lemma sound_marked [simp]:
  "sound_document env rw (pt_marked m a) = sound_document env rw a" "sound_file env ref (pt_marked m a) = sound_file env ref a"
  by (simp_all add: sound_document_def sound_file_def pt_marked_def split: prod.splits)

lemma marked_simps [simp]:
  "psStatus (fst (pt_marked m a)) = psStatus (fst a)" "psBody (fst (pt_marked m a)) = psBody (fst a)" "snd (pt_marked m a) = snd a"
  by (simp_all add: pt_marked_def split: prod.splits)

lemma sound_text:
  "pt_inv env s \<Longrightarrow> \<forall>b. psBody r \<noteq> PBytes b \<Longrightarrow> sound_document env rw (r, s)"
  "pt_inv env s \<Longrightarrow> \<forall>b. psBody r \<noteq> PBytes b \<Longrightarrow> sound_file env ref (r, s)"
  by (simp_all add: sound_document_def sound_file_def)

definition sound_server :: "'b pt_env \<Rightarrow> (bytes \<Rightarrow> bytes) \<Rightarrow> (CacheEntry \<Rightarrow> 'b pt_state \<Rightarrow> pt_response \<times> 'b pt_state) \<Rightarrow> bool" where
  "sound_server env rw serve \<longleftrightarrow> (\<forall>e s. pt_inv env s \<longrightarrow> sound_document env rw (serve e s))"

definition file_server :: "'b pt_env \<Rightarrow> ArtifactRef \<Rightarrow> (CacheEntry \<Rightarrow> 'b pt_state \<Rightarrow> pt_response \<times> 'b pt_state) \<Rightarrow> bool" where
  "file_server env ref serve \<longleftrightarrow> (\<forall>e s. pt_inv env s \<longrightarrow> recorded ref e s \<longrightarrow> sound_file env ref (serve e s))"

definition sound_enrich :: "'b pt_env \<Rightarrow> (UpstreamMeta \<Rightarrow> 'b pt_state \<Rightarrow> UpstreamMeta option \<times> 'b pt_state) \<Rightarrow> bool" where
  "sound_enrich env enrich \<longleftrightarrow> (\<forall>u s. pt_inv env s \<longrightarrow> pt_inv env (snd (enrich u s)))"

lemma write_document_sound: "sound_server env rw (write_document req ct rw)"
  unfolding sound_server_def
proof (intro allI impI)
  fix e s
  assume assms: "pt_inv env s"
  obtain r s' where w: "whole_entry e s = (r, s')" by fastforce
  show "sound_document env rw (write_document req ct rw e s)"
    using w whole_entry_inv [OF w assms] whole_entry_bytes [of e s _ s' env] assms
    by (auto simp: write_document_def sound_document_def Let_def split: sum.splits)
qed

lemma write_file_sound:
  assumes "pt_inv env s" and "recorded ref e s"
  shows "sound_file env ref (write_file req hs hs2 e s)"
proof -
  obtain r s' where w: "whole_entry e s = (r, s')" by fastforce
  have "rows_of (ptCache s') = rows_of (ptCache s)"
    using w same_data_ServeEntry [of "ptCache s" "Some e" 0 "-1"] by (auto simp: whole_entry_def pt_cache_eq same_data_def)
  then show ?thesis
    using w whole_entry_inv [OF w assms(1)] whole_entry_bytes [of e s _ s' env] assms recorded_same [of s' s ref e]
    by (auto simp: write_file_def sound_file_def split: sum.splits)
qed

section \<open>The pipelines\<close>

text \<open>
  What the pipelines rest on: verifiers that leave the rows alone, and replicas that keep the stores
  sound while this one waits for their lock.
\<close>

locale pull_through =
  fixes env :: "'b pt_env"
  assumes frames: "chain_frames (peCache env)" and lock: "pt_lock_sound env"
begin

lemma pt_lock_inv: "pt_lock env = Some acq \<Longrightarrow> pt_inv env s \<Longrightarrow> acq key ttl s = (q, s') \<Longrightarrow> pt_inv env s'"
  using lock by (auto simp: pt_lock_def pt_lock_sound_def pt_inv_def pt_cache_eq) (metis snd_conv)

lemma fill_immutable_inv:
  assumes "fill_immutable env enrich werr offline fetchRef ups ref s = (r, s')" and "pt_inv env s"
    and "sound_enrich env enrich"
  shows "pt_inv env s' \<and> (\<forall>e. r = Inr (Inr e) \<longrightarrow> recorded ref e s')"
proof -
  obtain q s1 where q: "pt_fetch env offline fetchRef ups s = (q, s1)" by fastforce
  note i1 = pt_fetch_inv [OF q assms(2)]
  show ?thesis
  proof (cases "\<exists>rd umeta. q = Inr (Some rd, umeta)")
    case True
    then obtain rd u where rd: "q = Inr (Some rd, u)" by blast
    obtain eu s2 where e: "enrich u s1 = (eu, s2)" by fastforce
    obtain a s3 where a: "pt_fill env rd umeta s2 = (a, s3)" by fastforce
    have i2: "pt_inv env s2" using assms(3) i1 e by (metis sound_enrich_def snd_conv)
    show ?thesis
    proof (cases eu)
      case None
      then show ?thesis using assms(1) q rd e i2 by (auto simp: fill_immutable_def)
    next
      case (Some umeta)
      obtain a s3 where a: "pt_fill env rd umeta s2 = (a, s3)" by fastforce
      note i3 = pt_fill_inv [OF a i2]
      show ?thesis
      proof (cases a)
        case (Inr art)
        obtain t s4 where t: "pt_store env ref art s3 = (t, s4)" by fastforce
        have "pt_inv env s4 \<and> (\<forall>e. t = Inr e \<longrightarrow> recorded ref e s4)" using pt_store_inv [OF t _ frames] i3 Inr by blast
        then show ?thesis using assms(1) q rd e Some a Inr t by (auto simp: fill_immutable_def split: sum.splits)
      qed (use assms(1) q rd e Some a i3 in \<open>auto simp: fill_immutable_def\<close>)
    qed
  qed (use assms(1) q i1 in \<open>auto simp: fill_immutable_def split: sum.splits option.splits prod.splits\<close>)
qed

lemma pt_coalesced_inv:
  assumes "pt_coalesced env ref fn s = (r, s')" and "pt_inv env s" and "\<not> rMutable ref"
    and fn: "\<And>t q t'. pt_inv env t \<Longrightarrow> fn t = (q, t') \<Longrightarrow> pt_inv env t' \<and> (\<forall>e. q = Inr (Inr e) \<longrightarrow> recorded ref e t')"
  shows "pt_inv env s' \<and> (\<forall>e. r = Inr e \<longrightarrow> recorded ref e s')"
proof -
  let ?k = "FetchKey (rProtocol ref) (rName ref) (rVersion ref) (rDigest ref)"
  obtain q s1 where q: "FetchLocked (pt_lock env) (\<lambda>_ _ s. s) ?k 0 (pt_recheck ref) fn s = (q, s1)" by fastforce
  have re: "pt_inv env t' \<and> (\<forall>e. y = Inr (Some (Inr e)) \<longrightarrow> recorded ref e t')" if "pt_inv env t" "pt_recheck ref t = (y, t')" for t y t'
    using that pt_Lookup_inv [of ref t _ t' env] Lookup_recorded [of ref t _ t' env] assms(3)
    by (auto simp: pt_recheck_def split: prod.splits sum.splits option.splits)
  have "pt_inv env s1 \<and> (\<forall>e. q = Inr (Inr e) \<longrightarrow> recorded ref e s1)"
  proof (cases "pt_lock env")
    case None
    then show ?thesis using q fn [OF assms(2)] by (simp add: FetchLocked_def)
  next
    case (Some acq)
    obtain l t1 where l: "acq ?k (lock_ttl 0) s = (l, t1)" by fastforce
    note i1 = pt_lock_inv [OF Some assms(2) l]
    obtain y t2 where y: "pt_recheck ref t1 = (y, t2)" by fastforce
    note i2 = re [OF i1 y]
    obtain z t3 where z: "fn t2 = (z, t3)" by fastforce
    show ?thesis
      using q Some l y z i1 i2 fn [of t2 z t3] by (auto simp: FetchLocked_def split: sum.splits option.splits)
  qed
  then show ?thesis using assms(1) q by (auto simp: pt_coalesced_def split: sum.splits)
qed

lemma store_body_inv:
  assumes "store_body env werr ref rd umeta s = (r, s')" and "pt_inv env s"
  shows "pt_inv env s'"
proof -
  obtain a s1 where a: "pt_fill env rd umeta s = (a, s1)" by fastforce
  note i1 = pt_fill_inv [OF a assms(2)]
  show ?thesis
  proof (cases a)
    case (Inr art)
    obtain t s2 where t: "pt_store env ref art s1 = (t, s2)" by fastforce
    have i2: "pt_inv env s2" using pt_store_inv [OF t _ frames] i1 Inr by blast
    have "pt_inv env (point_mutable env ref art umeta s2)" by (rule pt_inv_stores [OF _ _ i2]) simp_all
    then show ?thesis using assms(1) a Inr t i2 by (auto simp: store_body_def split: sum.splits)
  qed (use assms(1) a i1 in \<open>auto simp: store_body_def\<close>)
qed

lemma fresh_fetch_sound:
  assumes "pt_inv env s" and "sound_server env rw serve" and "\<forall>e b. psBody (absent e) \<noteq> PBytes b"
  shows "sound_document env rw (fresh_fetch env werr serve absent offline fetchRef ups ref stale s)"
proof -
  obtain q s1 where q: "pt_fetch env offline fetchRef ups s = (q, s1)" by fastforce
  note i1 = pt_fetch_inv [OF q assms(1)]
  have "sound_document env rw (case store_body env werr ref rd umeta s1 of
             (Inl f, s2) \<Rightarrow> (if panicked f then aborted else http_Error ''failed to cache upstream response'' 502, s2)
           | (Inr entry, s2) \<Rightarrow> pt_marked MarkMiss (serve entry s2))" for rd umeta
    using store_body_inv [OF _ i1] assms(2) by (auto simp: sound_server_def intro!: sound_text split: prod.splits sum.splits)
  then show ?thesis
    using q i1 assms(2,3) by (auto simp: fresh_fetch_def sound_server_def intro!: sound_text split: sum.splits option.splits)
qed

lemma serve_stale_sound:
  assumes "pt_inv env s" and "sound_server env rw serve"
  shows "sound_document env rw (serve_stale serve stale s)"
  using assms by (auto simp: serve_stale_def sound_server_def intro!: sound_text split: option.splits)

lemma fetch_failure_body: "\<forall>e b. psBody (fetch_failure e) \<noteq> PBytes b" "\<forall>b. psBody (fill_failure f) \<noteq> PBytes b"
  by (auto simp: fetch_failure_def fill_failure_def split: fill_fail.splits)

lemma mutable_pipeline_sound:
  assumes "pt_inv env s" and "sound_server env rw serve"
  shows "sound_document env rw (mutable_pipeline env werr route serve ref s)"
proof -
  obtain q s1 where q: "pt_cache (\<lambda>c. Lookup c ref) s = (q, s1)" by fastforce
  note i1 = pt_Lookup_inv [OF q assms(1)]
  obtain stale s2 where st: "stale_entry ref s1 = (stale, s2)" by fastforce
  note i2 = stale_entry_inv [OF st i1]
  show ?thesis
    using q st i1 assms(2) serve_stale_sound [OF i2 assms(2)] fresh_fetch_sound [OF i2 assms(2) fetch_failure_body(1)]
    by (auto simp: mutable_pipeline_def sound_server_def intro!: sound_text split: sum.splits option.splits)
qed

lemma immutable_pipeline_sound:
  assumes "pt_inv env s" and "\<not> rMutable ref"
    and "sound_enrich env enrich"
    and "file_server env ref serve"
  shows "sound_file env ref (immutable_pipeline env enrich route serve ref s)"
proof -
  obtain q s1 where q: "pt_cache (\<lambda>c. Lookup c ref) s = (q, s1)" by fastforce
  note i1 = pt_Lookup_inv [OF q assms(1)]
  have hit: "recorded ref e s1" if "q = Inr (Some e)" for e using Lookup_recorded [OF _ assms(1,2)] q that by blast
  have cold: "pt_inv env s2 \<and> (\<forall>e. r = Inr e \<longrightarrow> recorded ref e s2)"
    if "pt_coalesced env ref (fill_immutable env enrich id off fr ups ref) s1 = (r, s2)" for off fr ups r s2
    by (rule pt_coalesced_inv [OF that i1 assms(2)]) (rule fill_immutable_inv [OF _ _ assms(3)])
  show ?thesis
    using q i1 hit assms(4) cold fetch_failure_body(2)
    by (auto simp: immutable_pipeline_def file_server_def intro!: sound_text(2) split: sum.splits option.splits prod.splits)
qed

end

lemma no_enrich_sound: "sound_enrich env no_enrich"
  by (simp add: sound_enrich_def no_enrich_def)

text \<open>The chain \<^verbatim>\<open>main.go\<close> builds, in a process with no lock shared with others.\<close>

interpretation main_through: pull_through
  "env\<lparr>peCache := \<lparr>cvDigest = dg, cvChain = (\<lambda>_. main_chain [])\<rparr>, peLock := None\<rparr>" for env :: "'b pt_env" and dg
  by unfold_locales (auto simp: pt_lock_sound_def base_chain_def intro!: base_chain_frames exI [of _ "[]"])

section \<open>Documents that are kept\<close>

text \<open>On healthy stores, the document of a mutable reference: its digest and its bytes.\<close>

definition kept :: "ArtifactRef \<Rightarrow> string \<Rightarrow> bytes \<Rightarrow> 'b pt_state \<Rightarrow> bool" where
  "kept ref d c s \<longleftrightarrow>
     db_healthy (c_db (ptCache s)) \<and> disk_healthy (c_disk (ptCache s)) \<and> blob_present (c_disk (ptCache s)) d c \<and> d \<noteq> [] \<and> rDigest ref = []
     \<and> (\<exists>me. mutable_entries (c_db (ptCache s)) (mutableKey ref) = Some me \<and> meDigest me = d)"

lemma kept_same:
  assumes "kept ref d c s" and "same_data (ptCache s) (ptCache s')" and "db_fault (c_db (ptCache s')) = db_fault (c_db (ptCache s))"
    and "disk_fault (c_disk (ptCache s')) = disk_fault (c_disk (ptCache s))"
  shows "kept ref d c s'"
  using assms blob_present_cong [of "c_disk (ptCache s')" "c_disk (ptCache s)" d c]
  by (simp add: kept_def same_data_def db_healthy_def disk_healthy_def)

lemma lookupMutable_kept:
  assumes "kept ref d c s" and "lookupMutable (ptCache s) ref allowStale = (r, c')"
  shows "(r = Inr None \<and> \<not> allowStale \<or> (\<exists>e. r = Inr (Some e) \<and> ceDigest e = d)) \<and> kept ref d c (s\<lparr>ptCache := c'\<rparr>)"
proof -
  let ?c = "ptCache s"
  obtain me where me: "mutable_entries (c_db ?c) (mutableKey ref) = Some me" "meDigest me = d" using assms(1) by (auto simp: kept_def)
  let ?c1 = "?c\<lparr>c_db := (c_db ?c)\<lparr>db_tick := Suc (db_tick (c_db ?c))\<rparr>\<rparr>"
  have g: "with_db (\<lambda>d. GetMutable d (mutableKey ref)) ?c = (Inr (Some me), ?c1)"
    using assms(1) me by (simp add: GetMutable_def db_io_def kept_def db_healthy_def)
  obtain dk where x: "blob_Exists (c_disk ?c) d = (Inr True, dk)"
    using assms(1) blob_Exists_healthy [of "c_disk ?c" d] by (auto simp: kept_def blob_present_def prod_eq_iff)
  have fault: "disk_fault dk = disk_fault (c_disk ?c)" using x blob_Exists_state(3) [of "c_disk ?c" d] by simp
  have nd: "d \<noteq> []" "checkDigestPin ref d = None" using assms(1) by (auto simp: kept_def)
  have dat: "same_data ?c c'" using same_data_lookupMutable [of ?c ref allowStale] assms(2) by simp
  have "(r = Inr None \<and> \<not> allowStale \<and> c' = ?c1) \<or> (\<exists>soft. r = Inr (Some (mutable_CacheEntry ref me soft)) \<and> c' = ?c1\<lparr>c_disk := dk\<rparr>)"
    using assms(2) g x me nd unfolding lookupMutable_def g by (auto simp: Let_def with_disk_def simp del: checkDigestPin_None split: if_splits)
  then show ?thesis
    using me(2) kept_same [OF assms(1), of "s\<lparr>ptCache := c'\<rparr>"] dat fault by (auto simp: mutable_CacheEntry_def)
qed

lemma Lookup_kept:
  assumes "kept ref d c s" and "pt_cache (\<lambda>x. Lookup x ref) s = (r, s')" and "rMutable ref"
  shows "(r = Inr None \<or> (\<exists>e. r = Inr (Some e) \<and> ceDigest e = d)) \<and> kept ref d c s'"
  using assms lookupMutable_kept [OF assms(1), of False] by (auto simp: pt_cache_eq Lookup_def)

lemma stale_entry_kept:
  assumes "kept ref d c s"
  shows "\<exists>e s'. stale_entry ref s = (Some e, s') \<and> ceDigest e = d \<and> kept ref d c s'"
proof -
  obtain r c' where l: "lookupMutable (ptCache s) ref True = (r, c')" by fastforce
  then show ?thesis
    using lookupMutable_kept [OF assms l] by (auto simp: stale_entry_def LookupStale_def pt_cache_def)
qed

lemma whole_entry_kept:
  assumes "kept ref d c s" and "ceDigest e = d"
  shows "\<exists>s'. whole_entry e s = (Inr c, s')"
proof -
  obtain c' where "ServeEntry (ptCache s) (Some e) 0 (-1) = (Inr (range_read c 0 (-1)), c')"
    using ServeEntry_healthy [of "ptCache s" e c 0 "-1"] assms by (auto simp: kept_def)
  then show ?thesis by (simp add: whole_entry_def pt_cache_def range_read_def)
qed

lemma pt_fetch_kept: "pt_fetch env off ref' ups s = (r, s') \<Longrightarrow> kept ref d c s \<Longrightarrow> kept ref d c s'"
  by (auto simp: pt_fetch_def kept_def split: prod.splits)

text \<open>No upstream delivers: every fetch of the reference fails.\<close>

definition fetches_fail :: "'b pt_env \<Rightarrow> bool \<Rightarrow> ArtifactRef \<Rightarrow> Upstream list \<Rightarrow> bool" where
  "fetches_fail env offline ref ups \<longleftrightarrow> (\<forall>s. \<exists>e s'. pt_fetch env offline ref ups s = (Inl e, s'))"

lemma offline_fetches_fail: "fetches_fail env True ref ups"
  by (simp add: fetches_fail_def pt_fetch_def MaybeOffline_def OfflineFetch_def)

text \<open>The pipeline of the packages without revalidation serves the kept document then.\<close>

lemma mutable_pipeline_kept:
  assumes "kept ref d c s" and "rMutable ref" and "pqMethod req \<noteq> ''HEAD''"
    and "\<forall>off ups fr. route = Some (off, ups, fr) \<longrightarrow> fetches_fail env off fr ups"
  shows "psStatus (fst (mutable_pipeline env werr route (write_document req ct rw) ref s)) = 200
    \<and> psBody (fst (mutable_pipeline env werr route (write_document req ct rw) ref s)) = PBytes (rw c)"
proof -
  have serve: "psStatus (fst (write_document req ct rw e t)) = 200 \<and> psBody (fst (write_document req ct rw e t)) = PBytes (rw c)"
    if "kept ref d c t" "ceDigest e = d" for e t
    using whole_entry_kept [OF that] assms(3) by (auto simp: write_document_def Let_def)
  obtain q s1 where q: "pt_cache (\<lambda>x. Lookup x ref) s = (q, s1)" by fastforce
  note l = Lookup_kept [OF assms(1) q assms(2)]
  obtain e s2 where st: "stale_entry ref s1 = (Some e, s2)" "ceDigest e = d" "kept ref d c s2"
    using stale_entry_kept [of ref d c s1] l by blast
  have fresh: "fresh_fetch env werr (write_document req ct rw) ab off fr ups ref (Some e) s2
      = pt_marked MarkHit (write_document req ct rw e (snd (pt_fetch env off fr ups s2)))" if rt: "route = Some (off, ups, fr)" for off ups fr ab
  proof -
    obtain x s3 where "pt_fetch env off fr ups s2 = (Inl x, s3)" using assms(4) rt unfolding fetches_fail_def by blast
    then show ?thesis by (simp add: fresh_fetch_def)
  qed
  have k3: "kept ref d c (snd (pt_fetch env off fr ups s2))" for off fr ups
    using pt_fetch_kept [OF _ st(3)] by (metis prod.collapse)
  consider x where "q = Inr (Some x)" "ceDigest x = d" | "q = Inr None" using l by blast
  then show ?thesis
  proof cases
    case 1
    then show ?thesis using q l serve [of s1 x] by (simp add: mutable_pipeline_def)
  next
    case 2
    show ?thesis
    proof (cases route)
      case None
      then show ?thesis using q 2 st serve [OF st(3,2)] by (simp add: mutable_pipeline_def serve_stale_def)
    next
      case (Some x)
      then obtain off ups fr where x: "route = Some (off, ups, fr)" by (cases x) auto
      show ?thesis using q 2 st x fresh [OF x] serve [OF k3 st(2)] by (simp add: mutable_pipeline_def)
    qed
  qed
qed

section \<open>A handler on a small cache\<close>

definition pt_demo :: "bool option \<Rightarrow> simple_cb pt_env" where
  "pt_demo client =
     \<lparr>peCache = demo_cenv, peQuarantine = demo_q,
      peFetch = Fetch.demo_env, peMeta = True, peClient = client, peUpstreams = [mirror ''down'' 1], peTTL = 300, peDir = ''/q'',
      pePrefix = [], peLock = None\<rparr>"

text \<open>The blob of the small cache, kept as the document of a reference, past its time to live.\<close>

definition pt_document :: "ArtifactRef \<Rightarrow> simple_cb pt_state" where
  "pt_document ref =
     \<lparr>ptCache = demo_cache\<lparr>c_db := demo_db\<lparr>mutable_entries :=
        [mutableKey ref \<mapsto> \<lparr>meKey = mutableKey ref, meProtocol = rProtocol ref, meDigest = ''sha256:4d4e'', mePayload = [], meETag = ''e'',
                           meLastModified = [], meTTLSeconds = 0, meUpstream = [], meFetchedAt = 0\<rparr>]\<rparr>\<rparr>,
      ptNet = demo_world, ptJobs = [], ptAllowed = []\<rparr>"

lemma pt_document_kept: "rDigest ref = [] \<Longrightarrow> kept ref ''sha256:4d4e'' ''4d4e'' (pt_document ref)"
  using demo_blobPath
  by (simp add: kept_def pt_document_def demo_cache_def demo_db_def demo_disk_def db_healthy_def disk_healthy_def blob_present_def)

lemma pt_demo_frames: "chain_frames (peCache (pt_demo client))" "pt_lock_sound (pt_demo client)"
  using base_chain_frames [OF demo_base] by (simp_all add: pt_demo_def pt_lock_sound_def)

lemma pt_document_inv: "pt_inv (pt_demo client) (pt_document ref)"
  unfolding pt_inv_def
proof -
  have "rows_of (ptCache (pt_document ref)) = rows_of demo_store" "c_disk (ptCache (pt_document ref)) = c_disk demo_store"
    by (simp_all add: pt_document_def demo_store_def demo_cache_def)
  then show "cache_inv (pe_dg (pt_demo client)) (ptCache (pt_document ref))"
    using demo_store_inv cache_inv_cong [of "ptCache (pt_document ref)" demo_store "cvDigest demo_cenv"] by (simp add: pt_demo_def)
qed

end
