(* ===== verification/Revalidating.thy ===== *)
theory Revalidating
  imports PullThrough
begin

text \<open>
  The second half of the pipeline, as the packages \<^verbatim>\<open>gomod\<close>, \<^verbatim>\<open>npm\<close>, \<^verbatim>\<open>pypi\<close>, \<^verbatim>\<open>helm\<close> and
  \<^verbatim>\<open>apt\<close> have it: mutable documents are revalidated with the validators of the kept copy, a copy that
  is soft-expired is refreshed in the background, and answers carry the length of the entry. What differs
  between the packages is a record of arguments: the upstreams of a reference, how a body is stored and
  an entry written out, and the answers to failures.
\<close>

section \<open>Writing an entry out\<close>

definition write_error :: "int \<Rightarrow> string \<Rightarrow> pt_response" where
  "write_error status message =
     pt_reply status [(''Content-Type'', ''text/plain; charset=utf-8''), (''X-Content-Type-Options'', ''nosniff'')]
       (PText (message @ [CHR 0x0A]))"

definition TrimLeft :: "string \<Rightarrow> char \<Rightarrow> string" where
  "TrimLeft s c = dropWhile (\<lambda>x. x = c) s"

definition only_get_head :: "(int \<Rightarrow> string \<Rightarrow> pt_response) \<Rightarrow> pt_response" where
  "only_get_head err = (let e = err 405 ''method not allowed'' in e\<lparr>psHeaders := (''Allow'', ''GET, HEAD'') # psHeaders e\<rparr>)"

definition serveBytes ::
  "ArtifactRef \<Rightarrow> CacheEntry option \<Rightarrow> 'b pt_state \<Rightarrow> (cache_err + bytes \<times> CacheEntry option) \<times> 'b pt_state" where
  "serveBytes ref entry s =
     (case entry of
        Some e \<Rightarrow>
          (case whole_entry e s of
             (Inl err, s1) \<Rightarrow> (Inl err, s1)
           | (Inr rc, s1) \<Rightarrow> (Inr (rc, entry), s1))
      | None \<Rightarrow> pt_cache (\<lambda>c. Serve c ref 0 (-1)) s)"

text \<open>\<^verbatim>\<open>errors.Is\<close> walks the chain of wrapped errors.\<close>

fun IsErrCacheMiss :: "cache_err \<Rightarrow> bool" where
  "IsErrCacheMiss ErrCacheMiss = True"
| "IsErrCacheMiss (CacheWrap _ e) = IsErrCacheMiss e"
| "IsErrCacheMiss _ = False"

definition known_size :: "CacheEntry option \<Rightarrow> CacheEntry option \<Rightarrow> int" where
  "known_size served given =
     (case served of
        Some e \<Rightarrow> if 0 < ceSize e then ceSize e else (case given of Some g \<Rightarrow> if 0 < ceSize g then ceSize g else 0 | None \<Rightarrow> 0)
      | None \<Rightarrow> (case given of Some g \<Rightarrow> if 0 < ceSize g then ceSize g else 0 | None \<Rightarrow> 0))"

text \<open>\<^verbatim>\<open>missing\<close> is the text the package answers with when the entry is gone.\<close>

definition serve_cached ::
  "(int \<Rightarrow> string \<Rightarrow> pt_response) \<Rightarrow> string \<Rightarrow> pt_request \<Rightarrow> ArtifactRef \<Rightarrow> string \<Rightarrow> CacheEntry option \<Rightarrow> 'b pt_state
   \<Rightarrow> pt_response \<times> 'b pt_state" where
  "serve_cached err missing req ref ct entry s =
     (case serveBytes ref entry s of
        (Inl e, s1) \<Rightarrow> (if IsErrCacheMiss e then err 404 missing else err 500 ''cache serve failed'', s1)
      | (Inr (rc, cacheEntry), s1) \<Rightarrow>
          let size' = known_size cacheEntry entry in
          (pt_reply 200 ((''Content-Type'', ct) # (if 0 < size' then [(''Content-Length'', itoa size')] else []))
             (if pqMethod req = ''GET'' then PBytes rc else PNone), s1))"

text \<open>A cached document of a limited size.\<close>

definition readCachedBody :: "nat \<Rightarrow> CacheEntry \<Rightarrow> 'b pt_state \<Rightarrow> bytes option \<times> 'b pt_state" where
  "readCachedBody limit entry s =
     (case whole_entry entry s of
        (Inl _, s1) \<Rightarrow> (None, s1)
      | (Inr body, s1) \<Rightarrow> (if limit < length body then None else Some body, s1))"

text \<open>The path below the prefix the handler is mounted at.\<close>

definition mounted_path :: "'b pt_env \<Rightarrow> pt_request \<Rightarrow> string" where
  "mounted_path env req = (if pePrefix env \<noteq> [] then TrimPrefix (pqPath req) (pePrefix env) else pqPath req)"

definition rooted_path :: "'b pt_env \<Rightarrow> pt_request \<Rightarrow> string" where
  "rooted_path env req = (let p = mounted_path env req in if \<not> HasPrefix p ''/'' then ''/'' @ p else p)"

definition bare_path :: "'b pt_env \<Rightarrow> pt_request \<Rightarrow> string" where
  "bare_path env req = TrimLeft (mounted_path env req) CHR ''/''"

section \<open>Immutable files\<close>

text \<open>\<^verbatim>\<open>fill\<close> is the cold fill, when there is a client and the reference has upstreams.\<close>

definition cached_file ::
  "'b pt_env \<Rightarrow> (int \<Rightarrow> string \<Rightarrow> pt_response) \<Rightarrow> (fill_fail \<Rightarrow> pt_response) \<Rightarrow> (CacheEntry \<Rightarrow> 'b pt_state \<Rightarrow> pt_response \<times> 'b pt_state)
   \<Rightarrow> ('b pt_state \<Rightarrow> (uerr + (cache_err + CacheEntry)) \<times> 'b pt_state) option \<Rightarrow> ArtifactRef \<Rightarrow> 'b pt_state \<Rightarrow> pt_response \<times> 'b pt_state" where
  "cached_file env err answer serve fill ref s =
     (case pt_cache (\<lambda>c. Lookup c ref) s of
        (Inl _, s1) \<Rightarrow> (err 500 ''cache lookup failed'', s1)
      | (Inr (Some entry), s1) \<Rightarrow> pt_marked MarkHit (serve entry s1)
      | (Inr None, s1) \<Rightarrow>
          (case fill of
             None \<Rightarrow> (err 404 ''not found'', s1)
           | Some fn \<Rightarrow>
               (case pt_coalesced env ref fn s1 of
                  (Inl f, s2) \<Rightarrow> (answer f, s2)
                | (Inr entry, s2) \<Rightarrow> pt_marked MarkMiss (serve entry s2))))"

section \<open>Mutable documents\<close>

definition ttl_key :: "ArtifactRef \<Rightarrow> string" where
  "ttl_key ref = rProtocol ref @ '':'' @ rName ref @ '':'' @ rVersion ref"

definition getMutableUpstreamMeta :: "'b pt_env \<Rightarrow> ArtifactRef \<Rightarrow> 'b pt_state \<Rightarrow> UpstreamMeta option \<times> 'b pt_state" where
  "getMutableUpstreamMeta env ref s =
     (if \<not> peMeta env then (None, s)
      else
        case pt_cache (with_db (\<lambda>d. GetMutable d (ttl_key ref))) s of
          (Inr (Some me), s1) \<Rightarrow>
            if meETag me = [] \<and> meLastModified me = [] then (None, s1)
            else (Some (no_meta\<lparr>uETag := meETag me, uLastModified := meLastModified me, uUpstream := meUpstream me\<rparr>), s1)
        | (_, s1) \<Rightarrow> (None, s1))"

definition extendMutableTTL :: "'b pt_env \<Rightarrow> ArtifactRef \<Rightarrow> UpstreamMeta \<Rightarrow> 'b pt_state \<Rightarrow> 'b pt_state" where
  "extendMutableTTL env ref umeta s =
     (if \<not> peMeta env then s
      else
        case pt_cache (with_db (\<lambda>d. GetMutable d (ttl_key ref))) s of
          (Inr (Some me), s1) \<Rightarrow>
            (let me1 = me\<lparr>meFetchedAt := time_Now (ptCache s1)\<rparr>;
                 me2 = (if uETag umeta \<noteq> [] then me1\<lparr>meETag := uETag umeta\<rparr> else me1) in
             snd (pt_cache (with_db (\<lambda>d. PutMutable d me2)) s1))
        | (_, s1) \<Rightarrow> s1)"

text \<open>The arguments of a package. \<^verbatim>\<open>rvStale\<close>: may a stale copy be served when the fetch fails.\<close>

type_synonym route = "(bool \<times> Upstream list \<times> ArtifactRef) option"

record 'b rv_proto =
  rvRoute :: route
  rvStore :: "resumingReader \<Rightarrow> UpstreamMeta \<Rightarrow> 'b pt_state \<Rightarrow> (fill_fail + CacheEntry) \<times> 'b pt_state"
  rvServe :: "CacheEntry \<Rightarrow> 'b pt_state \<Rightarrow> pt_response \<times> 'b pt_state"
  rvError :: "int \<Rightarrow> string \<Rightarrow> pt_response"
  rvStale :: bool
  rvAbsent :: "uerr \<Rightarrow> pt_response"
  rvUnstored :: "fill_fail \<Rightarrow> pt_response"
  rvHit :: "CacheEntry \<Rightarrow> 'b pt_state \<Rightarrow> 'b pt_state"

definition swr_key :: "ArtifactRef \<Rightarrow> string" where
  "swr_key ref = FetchKey (rProtocol ref) (rName ref) (rVersion ref) (rDigest ref) @ ''|swr''"

definition swrRefreshAsync :: "route \<Rightarrow> ArtifactRef \<Rightarrow> 'b pt_state \<Rightarrow> 'b pt_state" where
  "swrRefreshAsync route ref s =
     (case route of
        None \<Rightarrow> s
      | Some _ \<Rightarrow> s\<lparr>ptJobs := ptJobs s @ [(swr_key ref, ref)]\<rparr>)"

definition soft_refresh :: "route \<Rightarrow> ArtifactRef \<Rightarrow> CacheEntry \<Rightarrow> 'b pt_state \<Rightarrow> 'b pt_state" where
  "soft_refresh route ref entry s = (if ceSoftExpired entry then swrRefreshAsync route ref s else s)"

text \<open>
  A background refresh, when its turn comes. It runs in a goroutine of its own with nothing that recovers:
  a panic there ends the process.
\<close>

datatype job_end = JobDone | JobFailed string | JobCrash

definition fill_outcome :: "fill_fail + CacheEntry \<Rightarrow> job_end" where
  "fill_outcome r =
     (case r of
        Inr _ \<Rightarrow> JobDone
      | Inl f \<Rightarrow> if panicked f then JobCrash
                 else JobFailed (case f of UpFail e \<Rightarrow> eMsg e | StoreFail e \<Rightarrow> cache_err_Error e))"

definition swr_refresh ::
  "'b pt_env \<Rightarrow> (resumingReader \<Rightarrow> UpstreamMeta \<Rightarrow> 'b pt_state \<Rightarrow> (fill_fail + CacheEntry) \<times> 'b pt_state)
   \<Rightarrow> bool \<Rightarrow> Upstream list \<Rightarrow> ArtifactRef \<Rightarrow> ArtifactRef \<Rightarrow> 'b pt_state \<Rightarrow> job_end \<times> 'b pt_state" where
  "swr_refresh env store offline ups fetchRef ref s =
     (case getMutableUpstreamMeta env ref s of
        (Some prevMeta, s1) \<Rightarrow>
          (case pt_revalidate env offline fetchRef prevMeta ups s1 of
             (Inl e, s2) \<Rightarrow> (JobFailed (eMsg e), s2)
           | (Inr (_, umeta, True), s2) \<Rightarrow> (JobDone, extendMutableTTL env ref umeta s2)
           | (Inr (None, _, False), s2) \<Rightarrow> (JobCrash, s2)
           | (Inr (Some rd, umeta, False), s2) \<Rightarrow> (case store rd umeta s2 of (r, s3) \<Rightarrow> (fill_outcome r, s3)))
      | (None, s1) \<Rightarrow>
          (case pt_fetch env offline fetchRef ups s1 of
             (Inl e, s2) \<Rightarrow> (JobFailed (eMsg e), s2)
           | (Inr (None, _), s2) \<Rightarrow> (JobCrash, s2)
           | (Inr (Some rd, umeta), s2) \<Rightarrow> (case store rd umeta s2 of (r, s3) \<Rightarrow> (fill_outcome r, s3))))"

definition rv_fresh ::
  "'b pt_env \<Rightarrow> 'b rv_proto \<Rightarrow> bool \<Rightarrow> Upstream list \<Rightarrow> ArtifactRef \<Rightarrow> CacheEntry option \<Rightarrow> 'b pt_state \<Rightarrow> pt_response \<times> 'b pt_state" where
  "rv_fresh env p offline ups fetchRef stale s =
     (case pt_fetch env offline fetchRef ups s of
        (Inl e, s1) \<Rightarrow>
          (case (if rvStale p then stale else None) of
             Some st \<Rightarrow> pt_marked MarkHit (rvServe p st s1)
           | None \<Rightarrow> (rvAbsent p e, s1))
      | (Inr (None, _), s1) \<Rightarrow> (aborted, s1)
      | (Inr (Some rd, umeta), s1) \<Rightarrow>
          (case rvStore p rd umeta s1 of
             (Inl f, s2) \<Rightarrow> (if panicked f then aborted else rvUnstored p f, s2)
           | (Inr entry, s2) \<Rightarrow> pt_marked MarkMiss (rvServe p entry s2)))"

definition rv_revalidate ::
  "'b pt_env \<Rightarrow> 'b rv_proto \<Rightarrow> bool \<Rightarrow> Upstream list \<Rightarrow> ArtifactRef \<Rightarrow> ArtifactRef \<Rightarrow> UpstreamMeta \<Rightarrow> CacheEntry \<Rightarrow> 'b pt_state
   \<Rightarrow> pt_response \<times> 'b pt_state" where
  "rv_revalidate env p offline ups fetchRef ref prevMeta st s =
     (case pt_revalidate env offline fetchRef prevMeta ups s of
        (Inl _, s1) \<Rightarrow> rv_fresh env p offline ups fetchRef (Some st) s1
      | (Inr (_, umeta, True), s1) \<Rightarrow> pt_marked MarkHit (rvServe p st (extendMutableTTL env ref umeta s1))
      | (Inr (None, _, False), s1) \<Rightarrow> (aborted, s1)
      | (Inr (Some rd, umeta, False), s1) \<Rightarrow>
          (case rvStore p rd umeta s1 of
             (Inr entry, s2) \<Rightarrow> pt_marked MarkMiss (rvServe p entry s2)
           | (Inl f, s2) \<Rightarrow> if panicked f then (aborted, s2) else rv_fresh env p offline ups fetchRef (Some st) s2))"

definition rv_serveMutable :: "'b pt_env \<Rightarrow> 'b rv_proto \<Rightarrow> ArtifactRef \<Rightarrow> 'b pt_state \<Rightarrow> pt_response \<times> 'b pt_state" where
  "rv_serveMutable env p ref s =
     (case pt_cache (\<lambda>c. Lookup c ref) s of
        (Inl _, s1) \<Rightarrow> (rvError p 500 ''cache lookup failed'', s1)
      | (Inr (Some entry), s1) \<Rightarrow> pt_marked MarkHit (rvServe p entry (rvHit p entry s1))
      | (Inr None, s1) \<Rightarrow>
          (case stale_entry ref s1 of
             (stale, s2) \<Rightarrow>
               (case rvRoute p of
                  None \<Rightarrow>
                    (case stale of
                       Some st \<Rightarrow> pt_marked MarkHit (rvServe p st s2)
                     | None \<Rightarrow> (rvError p 404 ''not found'', s2))
                | Some (offline, ups, fetchRef) \<Rightarrow>
                    (case getMutableUpstreamMeta env ref s2 of
                       (prev, s3) \<Rightarrow>
                         (case (prev, stale) of
                            (Some prevMeta, Some st) \<Rightarrow> rv_revalidate env p offline ups fetchRef ref prevMeta st s3
                          | _ \<Rightarrow> rv_fresh env p offline ups fetchRef stale s3)))))"

section \<open>Sound answers\<close>

lemma write_error_simps [simp]:
  "psBody (write_error code m) = PText (m @ [CHR 0x0A])" "psStatus (write_error code m) = code"
  by (simp_all add: write_error_def)

lemma only_get_head_simps [simp]: "psBody (only_get_head err) = psBody (err 405 ''method not allowed'')"
  "psStatus (only_get_head err) = psStatus (err 405 ''method not allowed'')"
  by (simp_all add: only_get_head_def Let_def)

lemma serve_cached_Some:
  "serve_cached err missing req ref ct (Some e) s =
     (case whole_entry e s of
        (Inl x, s1) \<Rightarrow> (if IsErrCacheMiss x then err 404 missing else err 500 ''cache serve failed'', s1)
      | (Inr rc, s1) \<Rightarrow>
          (pt_reply 200 ((''Content-Type'', ct) # size_header e) (if pqMethod req = ''GET'' then PBytes rc else PNone), s1))"
  by (auto simp: serve_cached_def serveBytes_def known_size_def size_header_def Let_def split: prod.splits sum.splits)

text \<open>An error writer sends no content.\<close>

definition plain_errors :: "(int \<Rightarrow> string \<Rightarrow> pt_response) \<Rightarrow> bool" where
  "plain_errors err \<longleftrightarrow> (\<forall>c m b. psBody (err c m) \<noteq> PBytes b)"

lemma plain_write_error [simp]: "plain_errors write_error"
  by (simp add: plain_errors_def)

lemma serve_cached_sound: "plain_errors err \<Longrightarrow> sound_server env id (\<lambda>e. serve_cached err missing req ref ct (Some e))"
  unfolding sound_server_def
proof (intro allI impI)
  fix e s
  assume err: "plain_errors err" and inv: "pt_inv env s"
  obtain r s' where w: "whole_entry e s = (r, s')" by fastforce
  show "sound_document env id (serve_cached err missing req ref ct (Some e) s)"
    using err w whole_entry_inv [OF w inv] whole_entry_bytes [of e s _ s' env] inv
    by (auto simp: serve_cached_Some plain_errors_def sound_document_def split: sum.splits)
qed

lemma serve_cached_file: "plain_errors err \<Longrightarrow> file_server env ref (\<lambda>e. serve_cached err missing req ref ct (Some e))"
  unfolding file_server_def
proof (intro allI impI)
  fix e s
  assume err: "plain_errors err" and inv: "pt_inv env s" and rec: "recorded ref e s"
  obtain r s' where w: "whole_entry e s = (r, s')" by fastforce
  have "rows_of (ptCache s') = rows_of (ptCache s)"
    using w same_data_ServeEntry [of "ptCache s" "Some e" 0 "-1"] by (auto simp: whole_entry_def pt_cache_eq same_data_def)
  then show "sound_file env ref (serve_cached err missing req ref ct (Some e) s)"
    using err w whole_entry_inv [OF w inv] whole_entry_bytes [of e s _ s' env] inv rec recorded_same [of s' s ref e]
    by (auto simp: serve_cached_Some plain_errors_def sound_file_def split: sum.splits)
qed

lemma meta_inv: "getMutableUpstreamMeta env ref s = (r, s') \<Longrightarrow> pt_inv e s \<Longrightarrow> pt_inv e s'"
  by (rule pt_inv_stores)
    (auto simp: getMutableUpstreamMeta_def pt_cache_def with_db_def GetMutable_def db_io_def split: if_splits option.splits prod.splits sum.splits)

lemma extend_inv: "pt_inv e s \<Longrightarrow> pt_inv e (extendMutableTTL env ref umeta s)"
  by (rule pt_inv_stores)
    (auto simp: extendMutableTTL_def pt_cache_def with_db_def GetMutable_def PutMutable_def db_io_def Let_def
      split: if_splits option.splits prod.splits sum.splits)

lemma swr_inv: "pt_inv e s \<Longrightarrow> pt_inv e (swrRefreshAsync route ref s)" "pt_inv e s \<Longrightarrow> pt_inv e (soft_refresh route ref x s)"
  by (rule pt_inv_stores, auto simp: swrRefreshAsync_def soft_refresh_def split: option.splits)+

lemma cached_body_inv: "readCachedBody limit e s = (r, s') \<Longrightarrow> pt_inv env s \<Longrightarrow> pt_inv env s'"
  by (auto simp: readCachedBody_def split: prod.splits sum.splits dest: whole_entry_inv)

text \<open>What a package has to give for its answers to be sound.\<close>

definition rv_sound :: "'b pt_env \<Rightarrow> (bytes \<Rightarrow> bytes) \<Rightarrow> 'b rv_proto \<Rightarrow> bool" where
  "rv_sound env rw p \<longleftrightarrow>
     (\<forall>rd u s r s'. rvStore p rd u s = (r, s') \<longrightarrow> pt_inv env s \<longrightarrow> pt_inv env s')
     \<and> sound_server env rw (rvServe p) \<and> plain_errors (rvError p)
     \<and> (\<forall>e b. psBody (rvAbsent p e) \<noteq> PBytes b) \<and> (\<forall>f b. psBody (rvUnstored p f) \<noteq> PBytes b)
     \<and> (\<forall>e s. pt_inv env s \<longrightarrow> pt_inv env (rvHit p e s))"

lemma rv_fresh_sound:
  assumes "pt_inv env s" and "rv_sound env rw p"
  shows "sound_document env rw (rv_fresh env p off ups fr stale s)"
proof -
  obtain q s1 where q: "pt_fetch env off fr ups s = (q, s1)" by fastforce
  note i1 = pt_fetch_inv [OF q assms(1)]
  have "pt_inv env s2" if "rvStore p rd umeta s1 = (x, s2)" for rd umeta x s2
    using assms(2) that i1 unfolding rv_sound_def by blast
  then show ?thesis
    using q i1 assms(2)
    by (auto simp: rv_fresh_def rv_sound_def sound_server_def intro!: sound_text split: sum.splits option.splits prod.splits)
qed

lemma rv_revalidate_sound:
  assumes "pt_inv env s" and "rv_sound env rw p"
  shows "sound_document env rw (rv_revalidate env p off ups fr ref prev st s)"
proof -
  obtain q s1 where q: "pt_revalidate env off fr prev ups s = (q, s1)" by fastforce
  note i1 = pt_revalidate_inv [OF q assms(1)]
  have st: "pt_inv env s2" if "rvStore p rd umeta s1 = (x, s2)" for rd umeta x s2
    using assms(2) that i1 unfolding rv_sound_def by blast
  have sv: "sound_document env rw (rvServe p e t)" if "pt_inv env t" for e t
    using assms(2) that by (simp add: rv_sound_def sound_server_def)
  show ?thesis
    using q i1 st sv extend_inv [OF i1, of env ref] rv_fresh_sound [OF _ assms(2)]
    by (auto simp: rv_revalidate_def intro!: sound_text split: sum.splits option.splits prod.splits bool.splits)
qed

theorem rv_serveMutable_sound:
  assumes "pt_inv env s" and "rv_sound env rw p"
  shows "sound_document env rw (rv_serveMutable env p ref s)"
proof -
  obtain q s1 where q: "pt_cache (\<lambda>c. Lookup c ref) s = (q, s1)" by fastforce
  note i1 = pt_Lookup_inv [OF q assms(1)]
  obtain stale s2 where st: "stale_entry ref s1 = (stale, s2)" by fastforce
  note i2 = stale_entry_inv [OF st i1]
  obtain prev s3 where m: "getMutableUpstreamMeta env ref s2 = (prev, s3)" by fastforce
  note i3 = meta_inv [OF m i2]
  have sv: "sound_document env rw (rvServe p e t)" if "pt_inv env t" for e t
    using assms(2) that by (simp add: rv_sound_def sound_server_def)
  have hit: "pt_inv env (rvHit p e s1)" for e using assms(2) i1 by (simp add: rv_sound_def)
  have err: "psBody (rvError p c msg) \<noteq> PBytes b" for c msg b using assms(2) by (simp add: rv_sound_def plain_errors_def)
  show ?thesis
    using q st m i1 i2 sv hit err rv_fresh_sound [OF i3 assms(2)] rv_revalidate_sound [OF i3 assms(2)]
    by (auto simp: rv_serveMutable_def intro!: sound_text split: sum.splits option.splits)
qed

context pull_through
begin

lemma cached_file_sound:
  assumes "pt_inv env s" and "\<not> rMutable ref" and "plain_errors err" and "\<forall>f b. psBody (answer f) \<noteq> PBytes b" and "file_server env ref serve"
    and "\<And>fn t q t'. fill = Some fn \<Longrightarrow> pt_inv env t \<Longrightarrow> fn t = (q, t') \<Longrightarrow> pt_inv env t' \<and> (\<forall>e. q = Inr (Inr e) \<longrightarrow> recorded ref e t')"
  shows "sound_file env ref (cached_file env err answer serve fill ref s)"
proof -
  obtain q s1 where q: "pt_cache (\<lambda>c. Lookup c ref) s = (q, s1)" by fastforce
  note i1 = pt_Lookup_inv [OF q assms(1)]
  have hit: "recorded ref e s1" if "q = Inr (Some e)" for e using Lookup_recorded [OF _ assms(1,2)] q that by blast
  have cold: "pt_inv env s2 \<and> (\<forall>e. r = Inr e \<longrightarrow> recorded ref e s2)" if "fill = Some fn" "pt_coalesced env ref fn s1 = (r, s2)" for fn r s2
    using pt_coalesced_inv [OF that(2) i1 assms(2)] assms(6) [OF that(1)] by blast
  have sv: "sound_file env ref (serve e t)" if "pt_inv env t" "recorded ref e t" for e t using assms(5) that by (simp add: file_server_def)
  have err: "psBody (err c m) \<noteq> PBytes b" for c m b using assms(3) by (simp add: plain_errors_def)
  show ?thesis
    using q i1 hit cold sv err assms(4)
    by (auto simp: cached_file_def intro!: sound_text(2) split: sum.splits option.splits prod.splits)
qed

lemma filled_file_sound:
  assumes "pt_inv env s" and "\<not> rMutable ref" and "plain_errors err" and "\<forall>f b. psBody (answer f) \<noteq> PBytes b" and "sound_enrich env enrich"
  shows "sound_file env ref
     (cached_file env err answer (\<lambda>e. serve_cached err missing req ref ct (Some e))
        (map_option (\<lambda>(off, ups, fr). fill_immutable env enrich werr off fr ups ref) route) ref s)"
  by (rule cached_file_sound [OF assms(1-4) serve_cached_file [OF assms(3)]])
    (auto dest!: fill_immutable_inv [OF _ _ assms(5)] split: prod.splits)

lemma swr_refresh_inv:
  assumes "swr_refresh env store off ups fr ref s = (r, s')" and "pt_inv env s"
    and st: "\<And>rd umeta t x t'. pt_inv env t \<Longrightarrow> store rd umeta t = (x, t') \<Longrightarrow> pt_inv env t'"
  shows "pt_inv env s'"
proof -
  obtain prev s1 where m: "getMutableUpstreamMeta env ref s = (prev, s1)" by fastforce
  note i1 = meta_inv [OF m assms(2)]
  have rv: "pt_inv env t'" if "pt_revalidate env off fr pm ups s1 = (x, t')" for pm x t'
    using pt_revalidate_inv [OF that i1] .
  have ft: "pt_inv env t'" if "pt_fetch env off fr ups s1 = (x, t')" for x t'
    using pt_fetch_inv [OF that i1] .
  show ?thesis
    using assms(1) m extend_inv
    by (auto simp: swr_refresh_def split: option.splits prod.splits sum.splits bool.splits dest!: rv ft dest: st)
qed

end

section \<open>Failing upstreams\<close>

lemma pt_Lookup_net: "pt_cache f s = (r, s') \<Longrightarrow> ptNet s' = ptNet s"
  by (auto simp: pt_cache_eq)

lemma stale_entry_net: "stale_entry ref s = (r, s') \<Longrightarrow> ptNet s' = ptNet s"
  by (auto simp: stale_entry_def split: prod.splits sum.splits dest!: pt_Lookup_net)

lemma meta_net: "getMutableUpstreamMeta env ref s = (r, s') \<Longrightarrow> ptNet s' = ptNet s"
  by (auto simp: getMutableUpstreamMeta_def split: if_splits prod.splits sum.splits option.splits dest!: pt_Lookup_net)

lemma meta_kept:
  assumes "getMutableUpstreamMeta env ref s = (r, s')" and "kept ref d c s"
  shows "kept ref d c s'"
proof -
  have "kept ref d c t" if g: "pt_cache (with_db (\<lambda>d. GetMutable d k)) s = (x, t)" for k x t
  proof -
    obtain db where db: "GetMutable (c_db (ptCache s)) k = (x, db)" "t = s\<lparr>ptCache := (ptCache s)\<lparr>c_db := db\<rparr>\<rparr>"
      using g by (auto simp: pt_cache_eq)
    then show ?thesis
      using GetMutable_state [of "c_db (ptCache s)" k] by (intro kept_same [OF assms(2)]) (auto simp: same_data_def)
  qed
  then show ?thesis
    using assms by (auto simp: getMutableUpstreamMeta_def split: if_splits prod.splits sum.splits option.splits)
qed

lemma revalidate_kept: "pt_revalidate env off ref' prev ups s = (r, s') \<Longrightarrow> kept ref d c s \<Longrightarrow> kept ref d c s'"
  by (auto simp: pt_revalidate_def kept_def split: prod.splits if_splits)

lemma pt_fetch_at:
  "ptNet s = w \<Longrightarrow> MaybeOffline off (peFetch env) ref ups [] w = (Inl e, w') \<Longrightarrow> \<exists>s'. pt_fetch env off ref ups s = (Inl e, s')"
  by (auto simp: pt_fetch_def)

lemma Lookup_miss: "fst (Lookup (ptCache s) ref) = Inr None \<Longrightarrow> \<exists>s1. pt_cache (\<lambda>c. Lookup c ref) s = (Inr None, s1) \<and> ptNet s1 = ptNet s"
  by (cases "Lookup (ptCache s) ref") (simp add: pt_cache_def)

text \<open>With no copy to serve, the answer to a failing fetch is the package's.\<close>

lemma rv_failure:
  assumes "rvRoute p = Some (off, ups, fr)" and "fst (Lookup (ptCache s) ref) = Inr None"
    and "fst (stale_entry ref (snd (pt_cache (\<lambda>c. Lookup c ref) s))) = None"
    and "MaybeOffline off (peFetch env) fr ups [] (ptNet s) = (Inl e, w')"
  shows "fst (rv_serveMutable env p ref s) = rvAbsent p e"
proof -
  obtain s1 where s1: "pt_cache (\<lambda>c. Lookup c ref) s = (Inr None, s1)" "ptNet s1 = ptNet s"
    using Lookup_miss [OF assms(2)] by blast
  obtain s2 where s2: "stale_entry ref s1 = (None, s2)" using assms(3) s1(1) by (metis prod.collapse snd_conv)
  obtain prev s3 where m: "getMutableUpstreamMeta env ref s2 = (prev, s3)" by fastforce
  have "ptNet s3 = ptNet s" using meta_net [OF m] stale_entry_net [OF s2] s1(2) by simp
  from pt_fetch_at [OF this assms(4)] obtain s4 where "pt_fetch env off fr ups s3 = (Inl e, s4)" by blast
  then show ?thesis
    using s1 s2 m assms(1) by (simp add: rv_serveMutable_def rv_fresh_def split: option.splits)
qed

lemma file_failure:
  assumes "peLock env = None" and "fst (Lookup (ptCache s) ref) = Inr None"
    and "MaybeOffline off (peFetch env) fr ups [] (ptNet s) = (Inl e, w')"
  shows "fst (cached_file env err answer serve (Some (fill_immutable env enrich werr off fr ups ref)) ref s) = answer (UpFail (wrap ''upstream fetch: '' e))"
proof -
  obtain s1 where s1: "pt_cache (\<lambda>c. Lookup c ref) s = (Inr None, s1)" "ptNet s1 = ptNet s"
    using Lookup_miss [OF assms(2)] by blast
  obtain s2 where "pt_fetch env off fr ups s1 = (Inl e, s2)"
    using pt_fetch_at [OF s1(2) assms(3)] by blast
  then show ?thesis
    using s1 assms(1) by (simp add: cached_file_def pt_coalesced_def FetchLocked_def pt_lock_def fill_immutable_def)
qed

text \<open>Neither fetching nor revalidating succeeds.\<close>

definition route_fails :: "'b pt_env \<Rightarrow> route \<Rightarrow> bool" where
  "route_fails env route \<longleftrightarrow>
     (\<forall>off ups fr. route = Some (off, ups, fr) \<longrightarrow>
        fetches_fail env off fr ups \<and> (\<forall>prev s. \<exists>e s'. pt_revalidate env off fr prev ups s = (Inl e, s')))"

text \<open>The content a kept document is answered with.\<close>

definition serves_kept :: "'b rv_proto \<Rightarrow> ArtifactRef \<Rightarrow> string \<Rightarrow> bytes \<Rightarrow> bytes \<Rightarrow> bool" where
  "serves_kept p ref d c x \<longleftrightarrow>
     (\<forall>e t. kept ref d c t \<longrightarrow> ceDigest e = d \<longrightarrow>
        psStatus (fst (rvServe p e t)) = 200 \<and> psBody (fst (rvServe p e t)) = PBytes x)
     \<and> (\<forall>e t. kept ref d c t \<longrightarrow> kept ref d c (rvHit p e t))"

lemma rv_fresh_kept:
  assumes "serves_kept p ref d c x" and "rvStale p" and "ceDigest st = d" and "kept ref d c t" and "fetches_fail env off fr ups"
  shows "psStatus (fst (rv_fresh env p off ups fr (Some st) t)) = 200 \<and> psBody (fst (rv_fresh env p off ups fr (Some st) t)) = PBytes x"
proof -
  obtain e t' where f: "pt_fetch env off fr ups t = (Inl e, t')" using assms(5) unfolding fetches_fail_def by blast
  then show ?thesis using pt_fetch_kept [OF f assms(4)] assms(1,2,3) by (simp add: rv_fresh_def serves_kept_def)
qed

lemma rv_serveMutable_kept:
  assumes "serves_kept p ref d c x" and "rvStale p" and "kept ref d c s" and "rMutable ref" and "route_fails env (rvRoute p)"
  shows "psStatus (fst (rv_serveMutable env p ref s)) = 200 \<and> psBody (fst (rv_serveMutable env p ref s)) = PBytes x"
proof -
  have serve: "psStatus (fst (rvServe p e t)) = 200 \<and> psBody (fst (rvServe p e t)) = PBytes x" if "kept ref d c t" "ceDigest e = d" for e t
    using assms(1) that by (simp add: serves_kept_def)
  obtain q s1 where q: "pt_cache (\<lambda>x. Lookup x ref) s = (q, s1)" by fastforce
  note l = Lookup_kept [OF assms(3) q assms(4)]
  obtain st s2 where s2: "stale_entry ref s1 = (Some st, s2)" "ceDigest st = d" "kept ref d c s2"
    using stale_entry_kept [of ref d c s1] l by blast
  obtain prev s3 where m: "getMutableUpstreamMeta env ref s2 = (prev, s3)" by fastforce
  note k3 = meta_kept [OF m s2(3)]
  let ?ok = "\<lambda>a :: pt_response \<times> 'a pt_state. psStatus (fst a) = 200 \<and> psBody (fst a) = PBytes x"
  have ends: "?ok (rv_fresh env p off ups fr (Some st) s3) \<and> ?ok (rv_revalidate env p off ups fr ref pm st s3)"
    if rt: "rvRoute p = Some (off, ups, fr)" for off ups fr pm
  proof -
    have ff: "fetches_fail env off fr ups" using assms(5) rt by (simp add: route_fails_def)
    obtain e t' where f: "pt_revalidate env off fr pm ups s3 = (Inl e, t')" using assms(5) rt unfolding route_fails_def by blast
    show ?thesis
      using f rv_fresh_kept [OF assms(1,2) s2(2) k3 ff] rv_fresh_kept [OF assms(1,2) s2(2) revalidate_kept [OF f k3] ff]
      by (auto simp: rv_revalidate_def)
  qed
  consider y where "q = Inr (Some y)" "ceDigest y = d" | "q = Inr None" using l by blast
  then show ?thesis
  proof cases
    case 1
    then show ?thesis using q l serve assms(1) by (simp add: rv_serveMutable_def serves_kept_def)
  next
    case 2
    then show ?thesis
      using q s2 m serve [OF s2(3,2)] ends by (auto simp: rv_serveMutable_def split: option.splits)
  qed
qed

text \<open>Where stale copies are not served, a failing upstream is always answered with the package's refusal.\<close>

lemma rv_closed:
  assumes "rvRoute p = Some (off, ups, fr)" and "\<not> rvStale p" and "\<And>e. rvAbsent p e = a" and "route_fails env (rvRoute p)"
    and "fst (Lookup (ptCache s) ref) = Inr None"
  shows "fst (rv_serveMutable env p ref s) = a"
proof -
  obtain s1 where s1: "pt_cache (\<lambda>c. Lookup c ref) s = (Inr None, s1)" using Lookup_miss [OF assms(5)] by blast
  obtain st s2 where s2: "stale_entry ref s1 = (st, s2)" by fastforce
  have fresh: "fst (rv_fresh env p off ups fr x t) = a" for x t
  proof -
    obtain e t' where "pt_fetch env off fr ups t = (Inl e, t')" using assms(1,4) unfolding route_fails_def fetches_fail_def by blast
    then show ?thesis using assms(2,3) by (simp add: rv_fresh_def)
  qed
  have reval: "fst (rv_revalidate env p off ups fr ref pm x t) = a" for pm x t
  proof -
    obtain e t' where "pt_revalidate env off fr pm ups t = (Inl e, t')" using assms(1,4) unfolding route_fails_def by blast
    then show ?thesis using fresh by (simp add: rv_revalidate_def)
  qed
  show ?thesis
    using s1 s2 assms(1) fresh reval by (simp add: rv_serveMutable_def split: option.splits prod.splits)
qed

lemma serve_cached_kept:
  assumes "kept ref d c s" and "ceDigest e = d" and "pqMethod req = ''GET''"
  shows "psStatus (fst (serve_cached err missing req ref ct (Some e) s)) = 200
    \<and> psBody (fst (serve_cached err missing req ref ct (Some e) s)) = PBytes c"
  using whole_entry_kept [OF assms(1,2)] assms(3) by (auto simp: serve_cached_Some)

lemma soft_refresh_kept [simp]: "kept ref d c (soft_refresh route ref' e t) = kept ref d c t"
  by (simp add: soft_refresh_def swrRefreshAsync_def kept_def split: option.splits)

lemma serves_kept_cached:
  assumes "rvServe p = (\<lambda>e. serve_cached err missing req ref ct (Some e))" and "rvHit p = soft_refresh route ref" and "pqMethod req = ''GET''"
  shows "serves_kept p ref d c c"
  unfolding serves_kept_def assms(1,2) soft_refresh_kept using serve_cached_kept [OF _ _ assms(3)] by blast

lemma soft_refresh_net [simp]: "ptNet (soft_refresh route ref e t) = ptNet t" "ptCache (soft_refresh route ref e t) = ptCache t"
  by (simp_all add: soft_refresh_def swrRefreshAsync_def split: option.splits)

section \<open>Other mirrors do not matter\<close>

text \<open>The pipeline asks the upstreams it is given, and not those the handler was set up with.\<close>

lemma other_upstreams [simp]:
  "pt_fetch (env\<lparr>peUpstreams := us\<rparr>) = pt_fetch env" "pt_revalidate (env\<lparr>peUpstreams := us\<rparr>) = pt_revalidate env"
  "pt_fill (env\<lparr>peUpstreams := us\<rparr>) = pt_fill env" "pt_store (env\<lparr>peUpstreams := us\<rparr>) = pt_store env"
  "pt_lock (env\<lparr>peUpstreams := us\<rparr>) = pt_lock env" "small_body n (env\<lparr>peUpstreams := us\<rparr>) = small_body n env"
  "ttl_entry (env\<lparr>peUpstreams := us\<rparr>) = ttl_entry env" "mounted_path (env\<lparr>peUpstreams := us\<rparr>) = mounted_path env"
  "getMutableUpstreamMeta (env\<lparr>peUpstreams := us\<rparr>) = getMutableUpstreamMeta env"
  "extendMutableTTL (env\<lparr>peUpstreams := us\<rparr>) = extendMutableTTL env"
  by (simp_all add: fun_eq_iff pt_fetch_def pt_revalidate_def pt_fill_def pt_store_def pt_lock_def small_body_def ttl_entry_def mounted_path_def
      getMutableUpstreamMeta_def extendMutableTTL_def)

lemma fill_immutable_others [simp]: "fill_immutable (env\<lparr>peUpstreams := us\<rparr>) = fill_immutable env"
  by (intro ext) (unfold fill_immutable_def other_upstreams, simp)

lemma pt_coalesced_others [simp]: "pt_coalesced (env\<lparr>peUpstreams := us\<rparr>) = pt_coalesced env"
  by (intro ext) (unfold pt_coalesced_def other_upstreams, simp)

lemma point_mutable_others [simp]: "point_mutable (env\<lparr>peUpstreams := us\<rparr>) = point_mutable env"
  by (intro ext) (unfold point_mutable_def other_upstreams, simp)

lemma store_body_others [simp]: "store_body (env\<lparr>peUpstreams := us\<rparr>) = store_body env"
  by (intro ext) (unfold store_body_def other_upstreams point_mutable_others, simp)

lemma rv_fresh_others [simp]: "rv_fresh (env\<lparr>peUpstreams := us\<rparr>) = rv_fresh env"
  by (intro ext) (unfold rv_fresh_def other_upstreams, simp)

lemma rv_revalidate_others [simp]: "rv_revalidate (env\<lparr>peUpstreams := us\<rparr>) = rv_revalidate env"
  by (intro ext) (unfold rv_revalidate_def other_upstreams rv_fresh_others, simp)

lemma rv_serveMutable_others [simp]: "rv_serveMutable (env\<lparr>peUpstreams := us\<rparr>) = rv_serveMutable env"
  by (intro ext) (unfold rv_serveMutable_def other_upstreams rv_fresh_others rv_revalidate_others, simp)

lemma cached_file_others [simp]: "cached_file (env\<lparr>peUpstreams := us\<rparr>) = cached_file env"
  by (intro ext) (unfold cached_file_def pt_coalesced_others, simp)

lemma swr_refresh_others [simp]: "swr_refresh (env\<lparr>peUpstreams := us\<rparr>) = swr_refresh env"
  by (intro ext) (unfold swr_refresh_def other_upstreams, simp)

end
