(* ===== verification/SumDb.thy ===== *)
theory SumDb
  imports Verify Upstream
begin

text \<open>
  The Go checksum database (\<^verbatim>\<open>internal/verify/sumdb.go\<close>, \<^verbatim>\<open>sumdb_client.go\<close>, \<^verbatim>\<open>sumdb_endpoint.go\<close>)
  with its store of tree sizes (\<^verbatim>\<open>cmd/specula/main.go\<close>): the verifier of module files, the
  endpoint of a database, and the callbacks the client library keeps its state with, which guard
  against a database that is rolled back.

  Parameters, all of them library code: \<^verbatim>\<open>module.UnescapePath\<close>, \<^verbatim>\<open>module.MatchPrefixPatterns\<close>,
  \<^verbatim>\<open>note.NewVerifier\<close>, \<^verbatim>\<open>tlog.ParseTree\<close>, \<^verbatim>\<open>url.Parse\<close>, the two directory hashes, the client's
  \<^verbatim>\<open>Lookup\<close>, and \<^verbatim>\<open>http.Client.Get\<close>. The dash of a message is written in ASCII.
\<close>

section \<open>Libraries and state\<close>

record sumdb_lib =
  slUnescapePath :: "string \<Rightarrow> string + string"
  slMatchPrefixPatterns :: "string \<Rightarrow> string \<Rightarrow> bool"
  slNewVerifier :: "string \<Rightarrow> string + string"
  slParseTree :: "bytes \<Rightarrow> string + int"
  slParseURL :: "string \<Rightarrow> string + string \<times> string \<times> string"
  slHashMod :: "string \<Rightarrow> string + string"
  slHashZip :: "string \<Rightarrow> string + string"
  slGet :: "string \<Rightarrow> string + int \<times> bytes"

datatype Policy = PolicyDefault | PolicyEnforce | PolicyWarn

record SumDBConfig =
  scURL :: string
  scVerifierKey :: string
  scPolicy :: Policy
  scPrivatePatterns :: "string list"
  scTreeSize :: bool
  scRollbackTolerance :: "int option"

text \<open>
  The memory of \<^verbatim>\<open>specOps\<close> beside the metadata store. \<^verbatim>\<open>nil\<close> and the empty slice are not told
  apart by the code that reads the latest head.
\<close>

record sumdb_world =
  swDB :: sqlite
  swLatest :: bytes
  swTiles :: "string \<rightharpoonup> bytes"
  swSecErr :: "string option"

section \<open>Private modules\<close>

definition NewPrivateMatcher :: "string list \<Rightarrow> string" where
  "NewPrivateMatcher patterns = Join patterns '',''"

definition sumdb_IsPrivate :: "sumdb_lib \<Rightarrow> string \<Rightarrow> string \<Rightarrow> bool" where
  "sumdb_IsPrivate lib globs modulePath = (if globs = [] then False else slMatchPrefixPatterns lib globs modulePath)"

section \<open>The endpoint of a database\<close>

definition DefaultSumDBName :: string where "DefaultSumDBName = ''sum.golang.org''"

definition SumDBNameFromKey :: "sumdb_lib \<Rightarrow> string \<Rightarrow> string" where
  "SumDBNameFromKey lib vkeyText =
     (let vk = TrimSpace vkeyText in
      if vk = [] then DefaultSumDBName
      else case slNewVerifier lib vk of Inl _ \<Rightarrow> DefaultSumDBName | Inr name \<Rightarrow> name)"

record SumDBEndpoint =
  epBase :: string
  epProxy :: bool

text \<open>\<^verbatim>\<open>path.Base\<close>: the last element, a dot for the empty path and a slash for slashes only.\<close>

definition path_Base :: "string \<Rightarrow> string" where
  "path_Base p =
     (if p = [] then ''.''
      else
        let q = TrimRight p CHR ''/'';
            b = (case LastIndexByte q CHR ''/'' of None \<Rightarrow> q | Some i \<Rightarrow> drop (Suc i) q)
        in if b = [] then ''/'' else b)"

definition ParseSumDBEndpoint :: "sumdb_lib \<Rightarrow> string \<Rightarrow> string + SumDBEndpoint" where
  "ParseSumDBEndpoint lib rawURL =
     (let raw = (if TrimSpace rawURL = [] then ''https://'' @ DefaultSumDBName else TrimSpace rawURL) in
      case slParseURL lib raw of
        Inl err \<Rightarrow> Inl (''sumdb: bad url '' @ quote rawURL @ '': '' @ err)
      | Inr (scheme, host, path) \<Rightarrow>
          if scheme \<noteq> ''http'' \<and> scheme \<noteq> ''https'' then
            Inl (''sumdb: url '' @ quote rawURL @ '' must be http or https, got scheme '' @ quote scheme)
          else if host = [] then Inl (''sumdb: url '' @ quote rawURL @ '' has no host'')
          else Inr \<lparr>epBase = TrimRight raw CHR ''/'', epProxy = (path_Base (TrimRight path CHR ''/'') = ''sumdb'')\<rparr>)"

definition endpoint_URL :: "SumDBEndpoint \<Rightarrow> string \<Rightarrow> string \<Rightarrow> string" where
  "endpoint_URL e name elem =
     (let el = (if \<not> HasPrefix elem ''/'' then ''/'' @ elem else elem) in
      if epProxy e then epBase e @ ''/'' @ Trim name CHR ''/'' @ el else epBase e @ el)"

section \<open>The high-water mark\<close>

definition treeSizeKey :: "string \<Rightarrow> string" where
  "treeSizeKey name = ''sumdb-treesize:'' @ name"

text \<open>A value that does not parse counts as no record.\<close>

definition size_of_entry :: "MutableEntry option \<Rightarrow> int" where
  "size_of_entry e =
     (case e of
        None \<Rightarrow> 0
      | Some me \<Rightarrow> if meDigest me = [] then 0 else case ParseInt (meDigest me) of None \<Rightarrow> 0 | Some n \<Rightarrow> n)"

definition GetTreeSize :: "sqlite \<Rightarrow> string \<Rightarrow> (string + int) \<times> sqlite" where
  "GetTreeSize d name =
     (case GetMutable d (treeSizeKey name) of
        (Inl err, d1) \<Rightarrow> (Inl err, d1)
      | (Inr e, d1) \<Rightarrow> (Inr (size_of_entry e), d1))"

definition SetTreeSize :: "sqlite \<Rightarrow> string \<Rightarrow> int \<Rightarrow> (string + unit) \<times> sqlite" where
  "SetTreeSize d name size' =
     PutMutable d
       \<lparr>meKey = treeSizeKey name, meProtocol = ''sumdb'', meDigest = itoa size', mePayload = [], meETag = [],
        meLastModified = [], meTTLSeconds = -1, meUpstream = [], meFetchedAt = db_now d\<rparr>"

section \<open>The callbacks of the client library\<close>

record specOps =
  soEndpoint :: SumDBEndpoint
  soVkeyText :: string
  soName :: string
  soStore :: bool
  soTolerance :: int

definition defaultRollbackToleranceEntries :: int where "defaultRollbackToleranceEntries = 5000"

definition defaultSumDBKey :: string where
  "defaultSumDBKey = ''sum.golang.org+033de0ae+Ac4zctda0e5eza+HJyk9SxEdh+s3Ux18htTTAD8OuAn8''"

definition newSpecOps :: "sumdb_lib \<Rightarrow> string \<Rightarrow> string \<Rightarrow> bool \<Rightarrow> string + specOps" where
  "newSpecOps lib vkeyText baseURL store =
     (let vk = TrimSpace (if vkeyText = [] then defaultSumDBKey else vkeyText) in
      case slNewVerifier lib vk of
        Inl err \<Rightarrow> Inl (''sumdb: bad verifier key: '' @ err)
      | Inr name \<Rightarrow>
          (case ParseSumDBEndpoint lib baseURL of
             Inl err \<Rightarrow> Inl err
           | Inr ep \<Rightarrow>
               Inr \<lparr>soEndpoint = ep, soVkeyText = vk @ [CHR 0x0A], soName = name, soStore = store,
                    soTolerance = defaultRollbackToleranceEntries\<rparr>))"

definition ReadRemote :: "sumdb_lib \<Rightarrow> specOps \<Rightarrow> string \<Rightarrow> string + bytes" where
  "ReadRemote lib o' path =
     (let u = endpoint_URL (soEndpoint o') (soName o') path in
      case slGet lib u of
        Inl err \<Rightarrow> Inl (''sumdb: GET '' @ u @ '': '' @ err)
      | Inr (status, body) \<Rightarrow>
          if status \<noteq> 200 then Inl (''sumdb: GET '' @ u @ '': HTTP '' @ itoa status @ '': '' @ TrimSpace (take 512 body))
          else Inr body)"

definition ReadConfig :: "specOps \<Rightarrow> string \<Rightarrow> sumdb_world \<Rightarrow> bytes" where
  "ReadConfig o' file w = (if file = ''key'' then soVkeyText o' else swLatest w)"

definition ReadCache :: "string \<Rightarrow> sumdb_world \<Rightarrow> string + bytes" where
  "ReadCache file w = (case swTiles w file of None \<Rightarrow> Inl ''cache miss'' | Some data \<Rightarrow> Inr data)"

definition WriteCache :: "string \<Rightarrow> bytes \<Rightarrow> sumdb_world \<Rightarrow> sumdb_world" where
  "WriteCache file data w = w\<lparr>swTiles := (swTiles w)(file \<mapsto> data)\<rparr>"

definition SecurityError :: "string \<Rightarrow> sumdb_world \<Rightarrow> sumdb_world" where
  "SecurityError msg w = (if swSecErr w = None then w\<lparr>swSecErr := Some (''sumdb security: '' @ msg)\<rparr> else w)"

definition newline2 :: string where "newline2 = [CHR 0x0A, CHR 0x0A]"

definition parseTreeSizeFromNote :: "sumdb_lib \<Rightarrow> bytes \<Rightarrow> string + int" where
  "parseTreeSizeFromNote lib signed =
     (let text = (case Index signed newline2 of
                    Some i \<Rightarrow> take i signed @ [CHR 0x0A]
                  | None \<Rightarrow> TrimRight signed CHR 0x0A @ [CHR 0x0A]) in
      case slParseTree lib text of
        Inl err \<Rightarrow> Inl (''parseTreeSizeFromNote: '' @ err)
      | Inr n \<Rightarrow> Inr n)"

datatype wc_err = ErrWriteConflict | WcErr string

text \<open>
  \<^verbatim>\<open>WriteConfig\<close> in its sections: compare the latest head under the lock, read the mark, decide,
  write the mark, and put the head in place under the lock again. Between two sections other
  callers may run.
\<close>

datatype wc_phase =
    WCompare
  | WRead
  | WDecide int int
  | WPersist int
  | WPublish
  | WDone "wc_err option"

definition rollback_msg :: "specOps \<Rightarrow> int \<Rightarrow> int \<Rightarrow> string" where
  "rollback_msg o' newN stored =
     ''sumdb anti-rollback: signed tree size '' @ itoa newN @ '' < persisted high-water '' @ itoa stored @ '' for ''
     @ quote (soName o') @ '' ('' @ itoa (stored - newN) @ '' entries behind, tolerance '' @ itoa (soTolerance o')
     @ '') - possible rollback or fork attack''"

fun wc_step :: "sumdb_lib \<Rightarrow> specOps \<Rightarrow> bytes \<Rightarrow> bytes \<Rightarrow> wc_phase \<Rightarrow> sumdb_world \<Rightarrow> wc_phase \<times> sumdb_world" where
  "wc_step lib o' old new WCompare w =
     (if swLatest w \<noteq> old then (WDone (Some ErrWriteConflict), w)
      else if new \<noteq> [] \<and> soStore o' then (WRead, w)
      else (WPublish, w))"
| "wc_step lib o' old new WRead w =
     (case parseTreeSizeFromNote lib new of
        Inl err \<Rightarrow> (WDone (Some (WcErr (''sumdb: parse tree size from signed note: '' @ err))), w)
      | Inr newN \<Rightarrow>
          (case GetTreeSize (swDB w) (soName o') of
             (Inl err, d) \<Rightarrow>
               (WDone (Some (WcErr (''sumdb: read tree size from store for '' @ quote (soName o') @ '': '' @ err))), w\<lparr>swDB := d\<rparr>)
           | (Inr stored, d) \<Rightarrow> (WDecide newN stored, w\<lparr>swDB := d\<rparr>)))"
| "wc_step lib o' old new (WDecide newN stored) w =
     (if newN < stored then
        (if soTolerance o' < stored - newN then
           (let w1 = SecurityError (rollback_msg o' newN stored) w in
            (WDone (Some (WcErr (case swSecErr w1 of None \<Rightarrow> [] | Some m \<Rightarrow> m))), w1))
         else (WPublish, w))
      else if stored < newN then (WPersist newN, w)
      else (WPublish, w))"
| "wc_step lib o' old new (WPersist newN) w =
     (case SetTreeSize (swDB w) (soName o') newN of
        (Inl err, d) \<Rightarrow>
          (WDone (Some (WcErr (''sumdb: persist tree size '' @ itoa newN @ '' for '' @ quote (soName o') @ '': '' @ err))), w\<lparr>swDB := d\<rparr>)
      | (Inr _, d) \<Rightarrow> (WPublish, w\<lparr>swDB := d\<rparr>))"
| "wc_step lib o' old new WPublish w = (WDone None, w\<lparr>swLatest := new\<rparr>)"
| "wc_step lib o' old new (WDone r) w = (WDone r, w)"

text \<open>At most five sections make a call.\<close>

definition wc_run :: "sumdb_lib \<Rightarrow> specOps \<Rightarrow> bytes \<Rightarrow> bytes \<Rightarrow> sumdb_world \<Rightarrow> wc_phase \<times> sumdb_world" where
  "wc_run lib o' old new w = ((\<lambda>(ph, w). wc_step lib o' old new ph w) ^^ 5) (WCompare, w)"

definition WriteConfig :: "sumdb_lib \<Rightarrow> specOps \<Rightarrow> string \<Rightarrow> bytes \<Rightarrow> bytes \<Rightarrow> sumdb_world \<Rightarrow> wc_err option \<times> sumdb_world" where
  "WriteConfig lib o' file old new w =
     (if file = ''key'' then (Some (WcErr ''sumdb: key config is read-only''), w)
      else case wc_run lib o' old new w of
             (WDone r, w1) \<Rightarrow> (r, w1)
           | (_, w1) \<Rightarrow> (None, w1))"

section \<open>The verifier\<close>

record sumdb_verifier =
  svLib :: sumdb_lib
  svConfig :: SumDBConfig
  svLookup :: "specOps \<Rightarrow> string \<Rightarrow> string \<Rightarrow> sumdb_world \<Rightarrow> (string + string list) \<times> sumdb_world"

definition policyResult :: "SumDBConfig \<Rightarrow> string \<Rightarrow> Result" where
  "policyResult cfg msg =
     (if scPolicy cfg = PolicyWarn then mk_result StatusWarn TierSigned (''sumdb warn: '' @ msg)
      else mk_result StatusFail TierSigned msg)"

definition getClient :: "sumdb_verifier \<Rightarrow> string + specOps" where
  "getClient v =
     (case newSpecOps (svLib v) (scVerifierKey (svConfig v)) (scURL (svConfig v)) (scTreeSize (svConfig v)) of
        Inl err \<Rightarrow> Inl err
      | Inr ops \<Rightarrow> Inr (case scRollbackTolerance (svConfig v) of None \<Rightarrow> ops | Some t \<Rightarrow> ops\<lparr>soTolerance := t\<rparr>))"

datatype sumdb_ext = ExtInfo | ExtMod | ExtZip

definition sumdbFileVersionExt :: "string \<Rightarrow> (string \<times> sumdb_ext) option" where
  "sumdbFileVersionExt f =
     (if HasSuffix f ''.info'' then Some (TrimSuffix f ''.info'', ExtInfo)
      else if HasSuffix f ''.mod'' then Some (TrimSuffix f ''.mod'', ExtMod)
      else if HasSuffix f ''.zip'' then Some (TrimSuffix f ''.zip'', ExtZip)
      else None)"

definition moduleFromName :: "string \<Rightarrow> string" where
  "moduleFromName name = (case Index name ''/@'' of Some i \<Rightarrow> take i name | None \<Rightarrow> name)"

definition lookup_version :: "string \<Rightarrow> sumdb_ext \<Rightarrow> string" where
  "lookup_version version ext = (if ext = ExtMod then version @ ''/go.mod'' else version)"

definition h1_hash :: "sumdb_lib \<Rightarrow> sumdb_ext \<Rightarrow> string \<Rightarrow> string + string" where
  "h1_hash lib ext path = (case ext of ExtMod \<Rightarrow> slHashMod lib path | ExtZip \<Rightarrow> slHashZip lib path | ExtInfo \<Rightarrow> Inr [])"

definition ext_text :: "sumdb_ext \<Rightarrow> string" where
  "ext_text ext = (case ext of ExtInfo \<Rightarrow> ''.info'' | ExtMod \<Rightarrow> ''.mod'' | ExtZip \<Rightarrow> ''.zip'')"

text \<open>The loop over the lines: the first line of the module and version decides.\<close>

fun match_lines :: "SumDBConfig \<Rightarrow> string \<Rightarrow> string \<Rightarrow> string \<Rightarrow> string list \<Rightarrow> string list \<Rightarrow> Result" where
  "match_lines cfg canonical lookupVers h1 all' [] =
     policyResult cfg
       (''sumdb: no matching go.sum line for '' @ canonical @ ''@'' @ lookupVers @ '' (got lines: ['' @ Join all' '' '' @ ''])'')"
| "match_lines cfg canonical lookupVers h1 all' (line # lines) =
     (let pre = canonical @ '' '' @ lookupVers @ '' '' in
      if HasPrefix line pre then
        (if TrimPrefix line pre = h1 then
           mk_result StatusPass TierSigned (''sumdb: verified '' @ canonical @ ''@'' @ lookupVers @ '' '' @ h1)
         else
           policyResult cfg
             (''sumdb: HASH MISMATCH for '' @ canonical @ ''@'' @ lookupVers @ '': artifact h1='' @ h1 @ '' sumdb h1=''
              @ TrimPrefix line pre @ '' - possible tampered module''))
      else match_lines cfg canonical lookupVers h1 all' lines)"

definition sumdb_check ::
  "sumdb_verifier \<Rightarrow> string \<Rightarrow> string \<Rightarrow> sumdb_ext \<Rightarrow> Artifact \<Rightarrow> sumdb_world \<Rightarrow> Result \<times> sumdb_world" where
  "sumdb_check v canonical version ext art w =
     (let cfg = svConfig v; lookupVers = lookup_version version ext in
      case getClient v of
        Inl err \<Rightarrow> (policyResult cfg (''sumdb: client init: '' @ err), w)
      | Inr ops \<Rightarrow>
          (case svLookup v ops canonical lookupVers w of
             (Inl err, w1) \<Rightarrow>
               ((case swSecErr w1 of
                   Some secErr \<Rightarrow> policyResult cfg secErr
                 | None \<Rightarrow> policyResult cfg (''sumdb: lookup '' @ canonical @ ''@'' @ lookupVers @ '': '' @ err)), w1)
           | (Inr lines, w1) \<Rightarrow>
               ((case h1_hash (svLib v) ext (aPath art) of
                   Inl err \<Rightarrow> policyResult cfg (''sumdb: compute h1 hash ('' @ ext_text ext @ ''): '' @ err)
                 | Inr h1 \<Rightarrow> match_lines cfg canonical lookupVers h1 lines lines), w1)))"

definition sumdb_skip :: "string \<Rightarrow> Result" where
  "sumdb_skip why = mk_result StatusSkip TierChecksum (''sumdb: skipped ('' @ why @ '')'')"

definition sumdb_Verify ::
  "sumdb_verifier \<Rightarrow> sumdb_world \<Rightarrow> ArtifactRef \<Rightarrow> Artifact \<Rightarrow> (Result \<times> string option) \<times> sumdb_world" where
  "sumdb_Verify v w ref art =
     (if rProtocol ref \<noteq> ''gomod'' \<or> rMutable ref then
        ((sumdb_skip ''not an immutable go module artifact'', None), w)
      else
        case slUnescapePath (svLib v) (moduleFromName (rName ref)) of
          Inl err \<Rightarrow> ((sumdb_skip (''invalid escaped module path: '' @ err), None), w)
        | Inr canonical \<Rightarrow>
            if sumdb_IsPrivate (svLib v) (NewPrivateMatcher (scPrivatePatterns (svConfig v))) canonical then
              ((sumdb_skip ''private module, not forwarded to public sumdb'', None), w)
            else
              (case sumdbFileVersionExt (rVersion ref) of
                 None \<Rightarrow> ((sumdb_skip (''unrecognised file component: '' @ rVersion ref), None), w)
               | Some (version, ext) \<Rightarrow>
                   if ext = ExtInfo then
                     ((sumdb_skip ''.info files are not covered by the checksum database'', None), w)
                   else (case sumdb_check v canonical version ext art w of (res, w1) \<Rightarrow> ((res, None), w1))))"

definition SumDBVerifier :: "sumdb_verifier \<Rightarrow> sumdb_world verifier" where
  "SumDBVerifier v = \<lparr>vName = ''sumdb'', vTier = TierSigned, vVerify = sumdb_Verify v\<rparr>"

section \<open>The mark is a ratchet\<close>

definition high_water :: "specOps \<Rightarrow> sumdb_world \<Rightarrow> int" where
  "high_water o' w = size_of_entry (mutable_entries (swDB w) (treeSizeKey (soName o')))"

text \<open>What the library promises of a parsed tree: its size is a natural number that fits \<^verbatim>\<open>int64\<close>.\<close>

definition tree_sizes :: "sumdb_lib \<Rightarrow> bool" where
  "tree_sizes lib \<longleftrightarrow> (\<forall>t n. slParseTree lib t = Inr n \<longrightarrow> 0 \<le> n \<and> n < 2 ^ 63)"

lemma parse_size: "tree_sizes lib \<Longrightarrow> parseTreeSizeFromNote lib b = Inr n \<Longrightarrow> 0 \<le> n \<and> n < 2 ^ 63"
  by (auto simp: parseTreeSizeFromNote_def tree_sizes_def Let_def split: sum.splits)

lemma GetTreeSize_read:
  "GetTreeSize d name = (r, d') \<Longrightarrow> mutable_entries d' = mutable_entries d \<and> (\<forall>n. r = Inr n \<longrightarrow> n = size_of_entry (mutable_entries d (treeSizeKey name)))"
  by (auto simp: GetTreeSize_def GetMutable_def db_io_def split: option.splits)

lemma SetTreeSize_written:
  assumes "SetTreeSize d name n = (r, d')" and "0 \<le> n" and "n < 2 ^ 63"
  shows "size_of_entry (mutable_entries d' (treeSizeKey name)) = (if \<exists>e. r = Inl e then size_of_entry (mutable_entries d (treeSizeKey name)) else n)"
proof -
  have "itoa n \<noteq> []" using ParseInt_itoa [of n] assms(2,3) by (auto simp: ParseInt_def)
  then show ?thesis
    using assms ParseInt_itoa [of n]
    by (auto simp: SetTreeSize_def PutMutable_def db_io_def size_of_entry_def stored_mutable_def split: option.splits)
qed

lemma SetTreeSize_parsed:
  "SetTreeSize d name n = (r, d') \<Longrightarrow> tree_sizes lib \<Longrightarrow> parseTreeSizeFromNote lib b = Inr n \<Longrightarrow>
   size_of_entry (mutable_entries d' (treeSizeKey name)) = (case r of Inl _ \<Rightarrow> size_of_entry (mutable_entries d (treeSizeKey name)) | Inr _ \<Rightarrow> n)"
  using SetTreeSize_written [of d name n r d'] parse_size [of lib b n] by (cases r) auto

lemma SecurityError_frame [simp]: "swDB (SecurityError m w) = swDB w" "swLatest (SecurityError m w) = swLatest w"
  by (simp_all add: SecurityError_def)

lemmas wc_steps = wc_run_def eval_nat_numeral funpow.simps

text \<open>A call ends, and what its sections do together.\<close>

lemma wc_run_cases:
  "wc_run lib o' old new w =
     (if swLatest w \<noteq> old then (WDone (Some ErrWriteConflict), w)
      else if new = [] \<or> \<not> soStore o' then (WDone None, w\<lparr>swLatest := new\<rparr>)
      else
        case wc_step lib o' old new WRead w of
          (WDecide newN stored, w1) \<Rightarrow>
            (case wc_step lib o' old new (WDecide newN stored) w1 of
               (WPersist n, w2) \<Rightarrow>
                 (case wc_step lib o' old new (WPersist n) w2 of
                    (WPublish, w3) \<Rightarrow> (WDone None, w3\<lparr>swLatest := new\<rparr>)
                  | x \<Rightarrow> x)
             | (WPublish, w2) \<Rightarrow> (WDone None, w2\<lparr>swLatest := new\<rparr>)
             | x \<Rightarrow> x)
        | x \<Rightarrow> x)"
  by (auto simp: wc_steps Let_def split: sum.splits prod.splits)

text \<open>
  One call, with no other caller between its sections: the mark does not fall, an accepted head
  is behind the mark by the tolerance at most, and the mark is not behind it afterwards.
\<close>

lemma WriteConfig_mark:
  assumes "tree_sizes lib" and "WriteConfig lib o' file old new w = (r, w')"
  shows "high_water o' w \<le> high_water o' w' \<and> (r = None \<longrightarrow> soStore o' \<longrightarrow> new \<noteq> [] \<longrightarrow>
      (\<exists>n. parseTreeSizeFromNote lib new = Inr n \<and> high_water o' w - n \<le> max 0 (soTolerance o') \<and> n \<le> high_water o' w'))"
proof (cases "file = ''key'' \<or> swLatest w \<noteq> old \<or> new = [] \<or> \<not> soStore o' \<or> (\<exists>e. parseTreeSizeFromNote lib new = Inl e)
    \<or> (\<exists>e. fst (GetTreeSize (swDB w) (soName o')) = Inl e)")
  case True
  then show ?thesis
    using assms(2) GetTreeSize_read [of "swDB w" "soName o'"]
    by (auto simp: WriteConfig_def wc_run_cases high_water_def split: if_splits sum.splits prod.splits)
next
  case False
  then obtain n g d where n: "parseTreeSizeFromNote lib new = Inr n" and g: "GetTreeSize (swDB w) (soName o') = (Inr g, d)"
    by (metis prod.collapse sumE)
  obtain q d2 where q: "SetTreeSize d (soName o') n = (q, d2)" by fastforce
  have d: "mutable_entries d = mutable_entries (swDB w)" "g = high_water o' w"
    using GetTreeSize_read [OF g] by (auto simp: high_water_def)
  have m: "size_of_entry (mutable_entries d2 (treeSizeKey (soName o'))) = (case q of Inl _ \<Rightarrow> high_water o' w | Inr _ \<Rightarrow> n)"
    using SetTreeSize_parsed [OF q assms(1) n] d by (simp add: high_water_def split: sum.splits)
  have run: "(r, w') =
     (if n < g then
        (if soTolerance o' < g - n then
           (let w1 = SecurityError (rollback_msg o' n g) (w\<lparr>swDB := d\<rparr>) in
            (Some (WcErr (case swSecErr w1 of None \<Rightarrow> [] | Some m \<Rightarrow> m)), w1))
         else (None, w\<lparr>swDB := d, swLatest := new\<rparr>))
      else if g < n then
        (case q of Inl err \<Rightarrow> (Some (WcErr (''sumdb: persist tree size '' @ itoa n @ '' for '' @ quote (soName o') @ '': '' @ err)), w\<lparr>swDB := d2\<rparr>)
         | Inr _ \<Rightarrow> (None, w\<lparr>swDB := d2, swLatest := new\<rparr>))
      else (None, w\<lparr>swDB := d, swLatest := new\<rparr>))"
    using assms(2) False n g q by (auto simp: WriteConfig_def wc_run_cases Let_def split: if_splits sum.splits)
  have hw: "high_water o' w' = (if g < n then (case q of Inl _ \<Rightarrow> g | Inr _ \<Rightarrow> n) else g)"
    using run m d by (auto simp: high_water_def Let_def split: if_splits sum.splits)
  then show ?thesis using run n d by (auto simp: Let_def split: if_splits sum.splits)
qed

text \<open>A history of calls one after the other, with the size of each accepted head.\<close>

fun writes :: "sumdb_lib \<Rightarrow> specOps \<Rightarrow> (string \<times> bytes \<times> bytes) list \<Rightarrow> sumdb_world \<Rightarrow> int list \<times> sumdb_world" where
  "writes lib o' [] w = ([], w)"
| "writes lib o' ((file, old, new) # calls) w =
     (case WriteConfig lib o' file old new w of
        (r, w1) \<Rightarrow>
          (case writes lib o' calls w1 of
             (ns, w2) \<Rightarrow>
               ((case (r, parseTreeSizeFromNote lib new) of (None, Inr n) \<Rightarrow> if new = [] then ns else n # ns | _ \<Rightarrow> ns), w2)))"

lemma writes_mark:
  assumes "tree_sizes lib" and "soStore o'"
  shows "high_water o' w \<le> high_water o' (snd (writes lib o' calls w))
     \<and> (\<forall>n \<in> set (fst (writes lib o' calls w)). high_water o' w - n \<le> max 0 (soTolerance o') \<and> n \<le> high_water o' (snd (writes lib o' calls w)))
     \<and> sorted_wrt (\<lambda>m n. m - n \<le> max 0 (soTolerance o')) (fst (writes lib o' calls w))"
proof (induction calls arbitrary: w)
  case (Cons c calls)
  obtain f old new where c: "c = (f, old, new)" by (cases c)
  obtain r w1 where r: "WriteConfig lib o' f old new w = (r, w1)" by fastforce
  note one = WriteConfig_mark [OF assms(1) r]
  note rest = Cons.IH [of w1]
  obtain ns w2 where ns: "writes lib o' calls w1 = (ns, w2)" by fastforce
  have below: "high_water o' w - n \<le> max 0 (soTolerance o')" if "n \<in> set ns" for n
    using rest one ns that by force
  show ?case
  proof (cases "r = None \<and> new \<noteq> []")
    case True
    then obtain n where n: "parseTreeSizeFromNote lib new = Inr n" "high_water o' w - n \<le> max 0 (soTolerance o')" "n \<le> high_water o' w1"
      using one assms(2) by auto
    have "n - m \<le> max 0 (soTolerance o')" if "m \<in> set ns" for m using rest ns n(3) that by force
    then show ?thesis using True n rest one ns below c r by auto
  next
    case False
    then have "writes lib o' (c # calls) w = (ns, w2)" using c r ns by (auto split: option.splits sum.splits)
    then show ?thesis using rest one ns below by auto
  qed
qed simp

section \<open>Callers between the sections\<close>

text \<open>A schedule names the caller that runs its next section.\<close>

fun wc_sched ::
  "sumdb_lib \<Rightarrow> specOps \<Rightarrow> (bytes \<times> bytes) list \<Rightarrow> nat list \<Rightarrow> wc_phase list \<times> sumdb_world \<Rightarrow> wc_phase list \<times> sumdb_world" where
  "wc_sched lib o' calls [] st = st"
| "wc_sched lib o' calls (i # is) (phs, w) =
     (case wc_step lib o' (fst (calls ! i)) (snd (calls ! i)) (phs ! i) w of
        (ph, w1) \<Rightarrow> wc_sched lib o' calls is (phs[i := ph], w1))"

lemma wc_healthy:
  assumes "db_healthy (swDB w)"
  shows "GetTreeSize (swDB w) name = (Inr (size_of_entry (mutable_entries (swDB w) (treeSizeKey name))), (swDB w)\<lparr>db_tick := Suc (db_tick (swDB w))\<rparr>)"
    and "\<exists>d. SetTreeSize (swDB w) name n = (Inr (), d) \<and> db_healthy d"
  using assms by (auto simp: GetTreeSize_def SetTreeSize_def GetMutable_def PutMutable_def db_io_def db_healthy_def)

lemma race_schedule:
  assumes "tree_sizes lib" and "soStore o'" and "db_healthy (swDB w)" and "new1 \<noteq> []" and "new2 \<noteq> []"
    and "parseTreeSizeFromNote lib new1 = Inr n1" and "parseTreeSizeFromNote lib new2 = Inr n2"
    and "high_water o' w < n2" and "n2 < n1"
  shows "\<exists>w'. wc_sched lib o' [(swLatest w, new1), (swLatest w, new2)] [0, 1, 0, 1, 0, 1, 0, 1, 0, 1] ([WCompare, WCompare], w)
        = ([WDone None, WDone None], w') \<and> high_water o' w' = n2"
proof -
  let ?k = "soName o'"
  obtain d1 where r1: "GetTreeSize (swDB w) ?k = (Inr (high_water o' w), d1)" "db_healthy d1" "mutable_entries d1 = mutable_entries (swDB w)"
    using wc_healthy(1) [OF assms(3), of ?k] assms(3) by (auto simp: high_water_def db_healthy_def)
  obtain d2 where r2: "GetTreeSize d1 ?k = (Inr (high_water o' w), d2)" "db_healthy d2"
    using wc_healthy(1) [of "w\<lparr>swDB := d1\<rparr>" ?k] r1 by (auto simp: high_water_def db_healthy_def)
  obtain d3 where p1: "SetTreeSize d2 ?k n1 = (Inr (), d3)" "db_healthy d3"
    using wc_healthy(2) [of "w\<lparr>swDB := d2\<rparr>" ?k n1] r2 by auto
  obtain d4 where p2: "SetTreeSize d3 ?k n2 = (Inr (), d4)"
    using wc_healthy(2) [of "w\<lparr>swDB := d3\<rparr>" ?k n2] p1 by auto
  have "size_of_entry (mutable_entries d4 (treeSizeKey ?k)) = n2"
    using SetTreeSize_parsed [OF p2 assms(1,7)] by simp
  then show ?thesis using r1 r2 p1 p2 assms by (simp add: high_water_def Let_def)
qed

section \<open>What the verifier answers\<close>

lemma policyResult_status [simp]:
  "resStatus (policyResult cfg m) = (if scPolicy cfg = PolicyWarn then StatusWarn else StatusFail)"
  by (simp add: policyResult_def)

lemma match_lines_pass:
  "resStatus (match_lines cfg c v h1 xs lines) = StatusPass \<longleftrightarrow>
     (List.find (\<lambda>l. HasPrefix l (c @ '' '' @ v @ '' '')) lines = Some (c @ '' '' @ v @ '' '' @ h1))"
proof (induction lines)
  case (Cons l lines)
  have "HasPrefix l (c @ '' '' @ v @ '' '') \<Longrightarrow> TrimPrefix l (c @ '' '' @ v @ '' '') = h1 \<longleftrightarrow> l = c @ '' '' @ v @ '' '' @ h1"
    using TrimPrefix_append [of "c @ '' '' @ v @ '' ''"] by (auto simp: HasPrefix_iff)
  then show ?case using Cons by (simp add: Let_def)
qed simp

lemma match_lines_never_skip: "resStatus (match_lines cfg c v h1 xs lines) \<noteq> StatusSkip"
  by (induction lines) (simp_all add: Let_def)

text \<open>The files the database has an entry for, with the module, the version and the extension.\<close>

definition covered :: "sumdb_verifier \<Rightarrow> ArtifactRef \<Rightarrow> (string \<times> string \<times> sumdb_ext) option" where
  "covered v ref =
     (if rProtocol ref \<noteq> ''gomod'' \<or> rMutable ref then None
      else
        case (slUnescapePath (svLib v) (moduleFromName (rName ref)), sumdbFileVersionExt (rVersion ref)) of
          (Inr canonical, Some (version, ext)) \<Rightarrow>
            if sumdb_IsPrivate (svLib v) (NewPrivateMatcher (scPrivatePatterns (svConfig v))) canonical \<or> ext = ExtInfo then None
            else Some (canonical, version, ext)
        | _ \<Rightarrow> None)"

lemma sumdb_Verify_covered:
  "covered v ref = Some (c, version, ext) \<Longrightarrow>
   sumdb_Verify v w ref art = (case sumdb_check v c version ext art w of (res, w1) \<Rightarrow> ((res, None), w1))"
  by (auto simp: sumdb_Verify_def covered_def split: if_splits sum.splits option.splits prod.splits)

lemma sumdb_Verify_uncovered: "covered v ref = None \<Longrightarrow> \<exists>why. sumdb_Verify v w ref art = ((sumdb_skip why, None), w)"
  by (auto simp: sumdb_Verify_def covered_def split: if_splits sum.splits option.splits prod.splits)

lemma sumdb_check_pass:
  "resStatus (fst (sumdb_check v c version ext art w)) = StatusPass \<longleftrightarrow>
     (\<exists>ops lines w1 h1. getClient v = Inr ops \<and> svLookup v ops c (lookup_version version ext) w = (Inr lines, w1)
        \<and> h1_hash (svLib v) ext (aPath art) = Inr h1
        \<and> List.find (\<lambda>l. HasPrefix l (c @ '' '' @ lookup_version version ext @ '' '')) lines
            = Some (c @ '' '' @ lookup_version version ext @ '' '' @ h1))"
  by (auto simp: sumdb_check_def match_lines_pass Let_def split: sum.splits prod.splits option.splits)

lemma sumdb_check_never_skip: "resStatus (fst (sumdb_check v c version ext art w)) \<noteq> StatusSkip"
  by (auto simp: sumdb_check_def match_lines_never_skip Let_def split: sum.splits prod.splits option.splits)

lemma sumdb_skip_status [simp]: "resStatus (sumdb_skip why) = StatusSkip"
  by (simp add: sumdb_skip_def)

section \<open>Properties\<close>

lemma sumdb_verdict_parts:
  assumes "sumdb_Verify v w ref art = ((res, err), w')"
  shows "err = None"
    and "resStatus res = StatusSkip \<longleftrightarrow> covered v ref = None"
    and "covered v ref = None \<Longrightarrow> w' = w"
    and "resStatus res = StatusPass \<longleftrightarrow>
      (\<exists>c version ext ops lines w1 h1. covered v ref = Some (c, version, ext) \<and> getClient v = Inr ops
         \<and> svLookup v ops c (lookup_version version ext) w = (Inr lines, w1) \<and> h1_hash (svLib v) ext (aPath art) = Inr h1
         \<and> List.find (\<lambda>l. HasPrefix l (c @ '' '' @ lookup_version version ext @ '' '')) lines
             = Some (c @ '' '' @ lookup_version version ext @ '' '' @ h1))"
    and "scPolicy (svConfig v) \<noteq> PolicyWarn \<Longrightarrow> resStatus res \<in> {StatusSkip, StatusPass, StatusFail}"
proof -
  have "err = None \<and> (resStatus res = StatusSkip \<longleftrightarrow> covered v ref = None) \<and> (covered v ref = None \<longrightarrow> w' = w)"
  proof (cases "covered v ref")
    case None
    then show ?thesis using assms sumdb_Verify_uncovered [of v ref w art] by auto
  next
    case (Some x)
    obtain c version ext where x: "x = (c, version, ext)" by (cases x)
    show ?thesis
      using assms sumdb_Verify_covered [of v ref c version ext w art] Some x sumdb_check_never_skip [of v c version ext art w]
      by (auto split: prod.splits)
  qed
  then show "err = None" and "resStatus res = StatusSkip \<longleftrightarrow> covered v ref = None" and "covered v ref = None \<Longrightarrow> w' = w" by auto
  show "resStatus res = StatusPass \<longleftrightarrow>
      (\<exists>c version ext ops lines w1 h1. covered v ref = Some (c, version, ext) \<and> getClient v = Inr ops
         \<and> svLookup v ops c (lookup_version version ext) w = (Inr lines, w1) \<and> h1_hash (svLib v) ext (aPath art) = Inr h1
         \<and> List.find (\<lambda>l. HasPrefix l (c @ '' '' @ lookup_version version ext @ '' '')) lines
             = Some (c @ '' '' @ lookup_version version ext @ '' '' @ h1))"
  proof (cases "covered v ref")
    case None
    then show ?thesis using assms sumdb_Verify_uncovered [of v ref w art] by auto
  next
    case (Some x)
    obtain c version ext where x: "x = (c, version, ext)" by (cases x)
    have "res = fst (sumdb_check v c version ext art w)"
      using assms sumdb_Verify_covered [of v ref c version ext w art] Some x by (auto split: prod.splits)
    then show ?thesis using Some x sumdb_check_pass [of v c version ext art w] by simp
  qed
  show "resStatus res \<in> {StatusSkip, StatusPass, StatusFail}" if "scPolicy (svConfig v) \<noteq> PolicyWarn"
  proof (cases "covered v ref")
    case None
    then show ?thesis using assms sumdb_Verify_uncovered [of v ref w art] by auto
  next
    case (Some x)
    have ml: "resStatus (match_lines (svConfig v) c q h1 xs lines) \<in> {StatusSkip, StatusPass, StatusFail}" for c q h1 xs lines
      using that by (induction lines) (simp_all add: Let_def)
    show ?thesis
      using assms that Some sumdb_Verify_covered [of v ref _ _ _ w art]
      by (cases x) (auto simp: sumdb_check_def Let_def simp del: insert_iff intro!: ml split: prod.splits sum.splits option.splits)
  qed
qed


definition sum_lib :: sumdb_lib where
  "sum_lib =
     \<lparr>slUnescapePath = Inr, slMatchPrefixPatterns = (\<lambda>g m. HasPrefix m g), slNewVerifier = (\<lambda>_. Inr ''sum.golang.org''),
      slParseTree = (\<lambda>t. if HasPrefix t ''1'' then Inr 100 else if HasPrefix t ''5'' then Inr 50 else Inl ''bad tree''),
      slParseURL = (\<lambda>_. Inr (''https'', ''sum.golang.org'', [])), slHashMod = (\<lambda>_. Inr ''h1:m''), slHashZip = (\<lambda>_. Inr ''h1:z''),
      slGet = (\<lambda>_. Inl ''refused'')\<rparr>"

definition sum_verifier :: sumdb_verifier where
  "sum_verifier =
     \<lparr>svLib = sum_lib,
      svConfig = \<lparr>scURL = [], scVerifierKey = [], scPolicy = PolicyEnforce, scPrivatePatterns = [''corp.example''],
                  scTreeSize = True, scRollbackTolerance = None\<rparr>,
      svLookup = (\<lambda>_ m v w. (Inr [m @ '' '' @ v @ '' h1:z''], w))\<rparr>"

definition sum_ops :: specOps where
  "sum_ops =
     \<lparr>soEndpoint = \<lparr>epBase = ''https://sum.golang.org'', epProxy = False\<rparr>, soVkeyText = [], soName = ''sum.golang.org'',
      soStore = True, soTolerance = 5000\<rparr>"

definition sum_world :: sumdb_world where
  "sum_world =
     \<lparr>swDB = \<lparr>cache_entries = [], mutable_entries = (\<lambda>_. None), db_now = 0, db_tick = 0, db_fault = no_faults\<rparr>,
      swLatest = [], swTiles = (\<lambda>_. None), swSecErr = None\<rparr>"

definition sum_module :: ArtifactRef where
  "sum_module =
     \<lparr>rProtocol = ''gomod'', rName = ''rsc.io/quote'', rVersion = ''v1.5.2.zip'', rDigest = [], rUpstream = [], rMutable = False\<rparr>"

definition sum_zip :: Artifact where
  "sum_zip = \<lparr>aPath = ''/tmp/q'', aDigest = ''sha256:00'', aSize = 1, aMeta = no_meta\<rparr>"


text \<open>C27: A checksum database is not rolled back. Over any history of signed heads presented one after the other,
  whatever faults the metadata store has, the persisted high-water mark never falls, and no accepted head
  is behind a head accepted before it by more than the tolerance: the window cannot be walked
  back step by step.\<close>

theorem heads_do_not_roll_back:
  assumes "tree_sizes lib" and "soStore o'"
  shows "high_water o' w \<le> high_water o' (snd (writes lib o' calls w))
     \<and> sorted_wrt (\<lambda>earlier later. earlier - later \<le> max 0 (soTolerance o')) (fst (writes lib o' calls w))"
  using writes_mark [OF assms] by blast

lemma sum_sizes: "tree_sizes sum_lib"
  by (auto simp: tree_sizes_def sum_lib_def split: if_splits)

lemma sum_ops_store: "soStore sum_ops"
  by (simp add: sum_ops_def)

theorem heads_do_not_roll_back_witness:
  "fst (writes sum_lib sum_ops [(''latest'', [], ''1''), (''latest'', ''1'', ''5'')] sum_world) = [100, 50]
   \<and> high_water sum_ops sum_world \<le> high_water sum_ops (snd (writes sum_lib sum_ops [(''latest'', [], ''1''), (''latest'', ''1'', ''5'')] sum_world))"
proof
  show "fst (writes sum_lib sum_ops [(''latest'', [], ''1''), (''latest'', ''1'', ''5'')] sum_world) = [100, 50]" by code_simp
  show "high_water sum_ops sum_world \<le> high_water sum_ops (snd (writes sum_lib sum_ops [(''latest'', [], ''1''), (''latest'', ''1'', ''5'')] sum_world))"
    using heads_do_not_roll_back [OF sum_sizes, of sum_ops] by (metis sum_ops_store)
qed

text \<open>Two callers at once can lower the mark. The interface demands that a size which is not greater than the
  stored one be ignored, but the adapter of \<^verbatim>\<open>main.go\<close> writes what it is given: with two heads above the mark, both
  callers read the mark before either writes it, both are accepted, and the mark ends at the
  smaller size.\<close>

theorem high_water_race:
  assumes "tree_sizes lib" and "soStore o'" and "db_healthy (swDB w)" and "new1 \<noteq> []" and "new2 \<noteq> []"
    and "parseTreeSizeFromNote lib new1 = Inr n1" and "parseTreeSizeFromNote lib new2 = Inr n2"
    and "high_water o' w < n2" and "n2 < n1"
  shows "\<exists>sched w'. wc_sched lib o' [(swLatest w, new1), (swLatest w, new2)] sched ([WCompare, WCompare], w)
        = ([WDone None, WDone None], w') \<and> high_water o' w' = n2"
  using race_schedule [OF assms] by blast

theorem high_water_race_witness:
  "\<exists>sched w'. wc_sched sum_lib sum_ops [([], ''1''), ([], ''5'')] sched ([WCompare, WCompare], sum_world)
     = ([WDone None, WDone None], w') \<and> high_water sum_ops w' = 50"
proof -
  have "parseTreeSizeFromNote sum_lib ''1'' = Inr 100" "parseTreeSizeFromNote sum_lib ''5'' = Inr 50" by code_simp+
  from high_water_race [OF sum_sizes _ _ _ _ this, of sum_ops sum_world] show ?thesis
    by (simp add: sum_ops_def sum_world_def db_healthy_def high_water_def size_of_entry_def)
qed

end
