(* ===== verification/GoMod.thy ===== *)
theory GoMod
  imports Revalidating SumDb
begin

text \<open>
  The Go module proxy (\<^verbatim>\<open>internal/handler/gomod\<close>): the routes of the protocol, the immutable files
  of a version, the mutable list and latest version with revalidation and refresh in the background,
  and the passthrough to the checksum database (\<^verbatim>\<open>sumdb_passthrough.go\<close>).

  Parameters: \<^verbatim>\<open>module.UnescapePath\<close> and \<^verbatim>\<open>module.CheckPath\<close>, and the HTTP client of the passthrough,
  which is a function of the request it is given; the requests made are kept in order.
\<close>

section \<open>Routes and references\<close>

definition latestVersion :: string where "latestVersion = ''@latest''"

definition splitAtV :: "string \<Rightarrow> (string \<times> string) option" where
  "splitAtV rest =
     (case LastIndex rest ''/@v/'' of
        None \<Rightarrow> None
      | Some i \<Rightarrow>
          let escMod = take i rest; file' = drop (i + length ''/@v/'') rest in
          if escMod = [] \<or> file' = [] then None else Some (escMod, file'))"

definition CutSuffix :: "string \<Rightarrow> string \<Rightarrow> string option" where
  "CutSuffix s suf = (if HasSuffix s suf then Some (TrimSuffix s suf) else None)"

definition versionFromFile :: "string \<Rightarrow> string option" where
  "versionFromFile file' =
     (case CutSuffix file' ''.info'' of Some v \<Rightarrow> Some v
      | None \<Rightarrow> (case CutSuffix file' ''.mod'' of Some v \<Rightarrow> Some v
                 | None \<Rightarrow> CutSuffix file' ''.zip''))"

definition gomod_ref :: "string \<Rightarrow> string \<Rightarrow> bool \<Rightarrow> ArtifactRef" where
  "gomod_ref name version mut =
     \<lparr>rProtocol = ''gomod'', rName = name, rVersion = version, rDigest = [], rUpstream = [], rMutable = mut\<rparr>"

definition gomod_immutableRef :: "string \<Rightarrow> string \<Rightarrow> ArtifactRef" where
  "gomod_immutableRef escMod file' = gomod_ref escMod file' False"

definition listRef :: "string \<Rightarrow> ArtifactRef" where
  "listRef escMod = gomod_ref escMod ''list'' True"

definition latestRef :: "string \<Rightarrow> ArtifactRef" where
  "latestRef escMod = gomod_ref escMod latestVersion True"

definition writeGoError :: "int \<Rightarrow> string \<Rightarrow> pt_response" where
  "writeGoError status message =
     pt_reply status [(''Content-Type'', ''text/plain; charset=utf-8''), (''X-Content-Type-Options'', ''nosniff'')]
       (PText (message @ [CHR 0x0A]))"

definition contentTypeForFile :: "string \<Rightarrow> string" where
  "contentTypeForFile file' =
     (if HasSuffix file' ''.info'' then ''application/json''
      else if HasSuffix file' ''.mod'' then ''text/plain; charset=utf-8''
      else if HasSuffix file' ''.zip'' then ''application/zip''
      else ''application/octet-stream'')"

definition goMeaningfulUpstreamStatus :: "int \<Rightarrow> bool" where
  "goMeaningfulUpstreamStatus code \<longleftrightarrow> code = 404 \<or> code = 410 \<or> code = 403"

text \<open>\<^verbatim>\<open>http.StatusText\<close> on the statuses it is called with.\<close>

definition StatusText :: "int \<Rightarrow> string" where
  "StatusText code =
     (if code = 404 then ''Not Found'' else if code = 410 then ''Gone'' else if code = 403 then ''Forbidden'' else [])"

section \<open>The checksum database, passed through\<close>

record sumdb_request =
  dqMethod :: string
  dqTarget :: string
  dqAccept :: string

record sumdb_handler =
  shLib :: sumdb_lib
  shEndpoint :: SumDBEndpoint
  shName :: string
  shPrivate :: string
  shBuild :: "string \<Rightarrow> string option"
  shDo :: "sumdb_request \<Rightarrow> string + int \<times> (string \<times> string) list \<times> bytes"

definition NewSumDBHandler ::
  "sumdb_lib \<Rightarrow> string \<Rightarrow> string \<Rightarrow> string list \<Rightarrow> (string \<Rightarrow> string option)
   \<Rightarrow> (sumdb_request \<Rightarrow> string + int \<times> (string \<times> string) list \<times> bytes) \<Rightarrow> sumdb_handler" where
  "NewSumDBHandler lib upstreamURL name patterns build client =
     \<lparr>shLib = lib,
      shEndpoint = (case ParseSumDBEndpoint lib upstreamURL of Inl _ \<Rightarrow> \<lparr>epBase = [], epProxy = False\<rparr> | Inr e \<Rightarrow> e),
      shName = (if TrimSpace name \<noteq> [] then TrimSpace name else DefaultSumDBName),
      shPrivate = NewPrivateMatcher patterns, shBuild = build, shDo = client\<rparr>"

definition splitSumDBName :: "string \<Rightarrow> (string \<times> string) option" where
  "splitSumDBName sub =
     (case IndexByte sub CHR ''/'' of
        None \<Rightarrow> None
      | Some i \<Rightarrow> if i = 0 \<or> Suc i = length sub then None else Some (take i sub, drop i sub))"

definition moduleFromLookup :: "string \<Rightarrow> string option" where
  "moduleFromLookup sub =
     (case Index sub ''/lookup/'' of
        None \<Rightarrow> None
      | Some i \<Rightarrow>
          let rest = drop (i + length ''/lookup/'') sub in
          (case LastIndexByte rest CHR ''@'' of
             None \<Rightarrow> None
           | Some at' \<Rightarrow> let m = take at' rest in if m = [] then None else Some m))"

text \<open>The canonical path of a lookup that must not leave, if there is one.\<close>

definition private_lookup :: "sumdb_handler \<Rightarrow> string \<Rightarrow> string option" where
  "private_lookup h sub =
     (case moduleFromLookup sub of
        None \<Rightarrow> None
      | Some m \<Rightarrow>
          (case slUnescapePath (shLib h) m of
             Inl _ \<Rightarrow> None
           | Inr canonical \<Rightarrow> if sumdb_IsPrivate (shLib h) (shPrivate h) canonical then Some canonical else None))"

text \<open>The answer, and the requests made to the upstream database for it.\<close>

definition sumdb_serve :: "sumdb_handler \<Rightarrow> pt_request \<Rightarrow> string \<Rightarrow> pt_response \<times> sumdb_request list" where
  "sumdb_serve h req sub0 =
     (if \<not> get_or_head req then
        (let e = writeGoError 405 ''method not allowed'' in (e\<lparr>psHeaders := (''Allow'', ''GET, HEAD'') # psHeaders e\<rparr>, []))
      else
        let sub = TrimPrefix sub0 ''/'' in
        if sub = [] then (writeGoError 404 ''missing sumdb name'', [])
        else
          case private_lookup h sub of
            Some canonical \<Rightarrow> (writeGoError 403 (''private module not served by public sumdb (GONOSUMDB): '' @ canonical), [])
          | None \<Rightarrow>
              (case splitSumDBName sub of
                 None \<Rightarrow> (writeGoError 404 ''missing sumdb endpoint after name'', [])
               | Some (name, elem) \<Rightarrow>
                   if name \<noteq> shName h then
                     (writeGoError 404 (''sumdb '' @ name @ '' not served by this proxy (configured: '' @ shName h @ '')''), [])
                   else if elem = ''/supported'' then (pt_reply 200 [] PNone, [])
                   else
                     let target = endpoint_URL (shEndpoint h) name elem in
                     (case shBuild h target of
                        Some err \<Rightarrow> (writeGoError 500 (''sumdb: proxy error: '' @ err), [])
                      | None \<Rightarrow>
                          let rq = \<lparr>dqMethod = pqMethod req, dqTarget = target, dqAccept = header_get ''Accept'' req\<rparr> in
                          (case shDo h rq of
                             Inl err \<Rightarrow> (writeGoError 502 (''sumdb: upstream error: '' @ err), [rq])
                           | Inr (status, hs, body) \<Rightarrow>
                               (pt_reply status hs (if pqMethod req \<noteq> ''HEAD'' then PBytes body else PNone), [rq])))))"

definition sumdb_ServeHTTP :: "sumdb_handler \<Rightarrow> pt_request \<Rightarrow> pt_response \<times> sumdb_request list" where
  "sumdb_ServeHTTP h req =
     (case Index (pqPath req) ''/sumdb'' of
        None \<Rightarrow> (writeGoError 404 ''not a sumdb path'', [])
      | Some i \<Rightarrow> sumdb_serve h req (TrimPrefix (drop i (pqPath req)) ''/sumdb''))"

section \<open>The handler\<close>

record 'b gomod_env =
  gmBase :: "'b pt_env"
  gmUnescapePath :: "string \<Rightarrow> string + string"
  gmCheckPath :: "string \<Rightarrow> string option"
  gmSumDB :: "sumdb_handler option"

definition canonicalModule :: "'b gomod_env \<Rightarrow> string \<Rightarrow> string + string" where
  "canonicalModule env escaped =
     (case gmUnescapePath env escaped of
        Inl err \<Rightarrow> Inl err
      | Inr path \<Rightarrow> (case gmCheckPath env path of Some err \<Rightarrow> Inl err | None \<Rightarrow> Inr path))"

definition serveFromCache ::
  "pt_request \<Rightarrow> ArtifactRef \<Rightarrow> string \<Rightarrow> CacheEntry option \<Rightarrow> 'b pt_state \<Rightarrow> pt_response \<times> 'b pt_state" where
  "serveFromCache req ref ct = serve_cached writeGoError ''artifact not in cache'' req ref ct"

text \<open>The client, when there is one and there are mirrors to ask.\<close>

definition gomod_route :: "'b gomod_env \<Rightarrow> ArtifactRef \<Rightarrow> route" where
  "gomod_route env ref = map_option (\<lambda>offline. (offline, peUpstreams (gmBase env), ref)) (pt_client (gmBase env))"

definition gomod_fetchAndStoreImmutable ::
  "'b gomod_env \<Rightarrow> bool \<Rightarrow> ArtifactRef \<Rightarrow> 'b pt_state \<Rightarrow> (uerr + (cache_err + CacheEntry)) \<times> 'b pt_state" where
  "gomod_fetchAndStoreImmutable env offline ref =
     fill_immutable (gmBase env) no_enrich (CacheWrap ''store: '') offline ref (peUpstreams (gmBase env)) ref"

definition gomod_fetchBodyAndStore ::
  "'b gomod_env \<Rightarrow> ArtifactRef \<Rightarrow> resumingReader \<Rightarrow> UpstreamMeta \<Rightarrow> 'b pt_state \<Rightarrow> (fill_fail + CacheEntry) \<times> 'b pt_state" where
  "gomod_fetchBodyAndStore env ref rd umeta = store_body (gmBase env) (CacheWrap ''store: '') ref rd umeta"

text \<open>The answer to an upstream error: a definitive status is passed on, an outage is not one.\<close>

definition upstream_answer :: "uerr \<Rightarrow> pt_response" where
  "upstream_answer e =
     (case eStatus e of
        Some (_, code) \<Rightarrow>
          (if goMeaningfulUpstreamStatus code then writeGoError code (StatusText code)
           else if IsNotFound (Some e) then writeGoError 404 (StatusText 404)
           else writeGoError 502 ''upstream fetch failed'')
      | None \<Rightarrow>
          (if IsNotFound (Some e) then writeGoError 404 (StatusText 404) else writeGoError 502 ''upstream fetch failed''))"

definition fill_answer :: "fill_fail \<Rightarrow> pt_response" where
  "fill_answer f = (case f of UpFail e \<Rightarrow> upstream_answer e | StoreFail _ \<Rightarrow> writeGoError 502 ''upstream fetch failed'')"

definition invalid_module :: "string \<Rightarrow> pt_response" where
  "invalid_module err = writeGoError 400 (''invalid module path: '' @ err)"

definition go_method_not_allowed :: pt_response where
  "go_method_not_allowed = only_get_head writeGoError"

definition serve_module_file ::
  "'b gomod_env \<Rightarrow> pt_request \<Rightarrow> ArtifactRef \<Rightarrow> string \<Rightarrow> 'b pt_state \<Rightarrow> pt_response \<times> 'b pt_state" where
  "serve_module_file env req ref ct =
     cached_file (gmBase env) writeGoError fill_answer (\<lambda>e. serveFromCache req ref ct (Some e))
       (map_option (\<lambda>(offline, _). gomod_fetchAndStoreImmutable env offline ref) (gomod_route env ref)) ref"

definition gomod_serveImmutable ::
  "'b gomod_env \<Rightarrow> pt_request \<Rightarrow> string \<Rightarrow> string \<Rightarrow> 'b pt_state \<Rightarrow> pt_response \<times> 'b pt_state" where
  "gomod_serveImmutable env req escMod file' s =
     (if \<not> get_or_head req then (go_method_not_allowed, s)
      else
        case canonicalModule env escMod of
          Inl err \<Rightarrow> (invalid_module err, s)
        | Inr _ \<Rightarrow>
            (case versionFromFile file' of
               None \<Rightarrow> (writeGoError 404 (''unknown @v file: '' @ file'), s)
             | Some _ \<Rightarrow> serve_module_file env req (gomod_immutableRef escMod file') (contentTypeForFile file') s))"

section \<open>Mutable documents\<close>

definition gomod_refresh :: "'b gomod_env \<Rightarrow> bool \<Rightarrow> ArtifactRef \<Rightarrow> 'b pt_state \<Rightarrow> job_end \<times> 'b pt_state" where
  "gomod_refresh env offline ref =
     swr_refresh (gmBase env) (gomod_fetchBodyAndStore env ref) offline (peUpstreams (gmBase env)) ref ref"

definition gomod_proto :: "'b gomod_env \<Rightarrow> pt_request \<Rightarrow> ArtifactRef \<Rightarrow> string \<Rightarrow> 'b rv_proto" where
  "gomod_proto env req ref ct =
     \<lparr>rvRoute = gomod_route env ref, rvStore = gomod_fetchBodyAndStore env ref,
      rvServe = (\<lambda>e. serveFromCache req ref ct (Some e)), rvError = writeGoError, rvStale = True, rvAbsent = upstream_answer,
      rvUnstored = (\<lambda>_. writeGoError 502 ''failed to cache upstream response''),
      rvHit = soft_refresh (gomod_route env ref) ref\<rparr>"

definition gomod_serveMutable ::
  "'b gomod_env \<Rightarrow> pt_request \<Rightarrow> ArtifactRef \<Rightarrow> string \<Rightarrow> 'b pt_state \<Rightarrow> pt_response \<times> 'b pt_state" where
  "gomod_serveMutable env req ref ct = rv_serveMutable (gmBase env) (gomod_proto env req ref ct) ref"

definition serve_document ::
  "'b gomod_env \<Rightarrow> pt_request \<Rightarrow> string \<Rightarrow> ArtifactRef \<Rightarrow> string \<Rightarrow> 'b pt_state \<Rightarrow> pt_response \<times> 'b pt_state" where
  "serve_document env req escMod ref ct s =
     (if \<not> get_or_head req then (go_method_not_allowed, s)
      else
        case canonicalModule env escMod of
          Inl err \<Rightarrow> (invalid_module err, s)
        | Inr _ \<Rightarrow> gomod_serveMutable env req ref ct s)"

definition serveList :: "'b gomod_env \<Rightarrow> pt_request \<Rightarrow> string \<Rightarrow> 'b pt_state \<Rightarrow> pt_response \<times> 'b pt_state" where
  "serveList env req escMod = serve_document env req escMod (listRef escMod) ''text/plain; charset=utf-8''"

definition serveLatest :: "'b gomod_env \<Rightarrow> pt_request \<Rightarrow> string \<Rightarrow> 'b pt_state \<Rightarrow> pt_response \<times> 'b pt_state" where
  "serveLatest env req escMod = serve_document env req escMod (latestRef escMod) ''application/json''"

definition serveModuleFile :: "'b gomod_env \<Rightarrow> pt_request \<Rightarrow> string \<Rightarrow> string \<Rightarrow> 'b pt_state \<Rightarrow> pt_response \<times> 'b pt_state" where
  "serveModuleFile env req escMod file' s =
     (if file' = ''list'' then serveList env req escMod s
      else if HasSuffix file' ''.info'' \<or> HasSuffix file' ''.mod'' \<or> HasSuffix file' ''.zip'' then
        gomod_serveImmutable env req escMod file' s
      else (writeGoError 404 (''unknown @v file: '' @ file'), s))"

text \<open>The answer, the state, and the requests of the passthrough.\<close>

definition gomod_ServeHTTP ::
  "'b gomod_env \<Rightarrow> pt_request \<Rightarrow> 'b pt_state \<Rightarrow> (pt_response \<times> 'b pt_state) \<times> sumdb_request list" where
  "gomod_ServeHTTP env req s =
     (let p0 = (if pePrefix (gmBase env) \<noteq> [] then TrimPrefix (pqPath req) (pePrefix (gmBase env)) else pqPath req);
          p = (if \<not> HasPrefix p0 ''/'' then ''/'' @ p0 else p0)
      in
      if p = ''/sumdb'' \<or> HasPrefix p ''/sumdb/'' then
        (case gmSumDB env of
           None \<Rightarrow> ((writeGoError 404 ''sumdb passthrough not configured'', s), [])
         | Some h \<Rightarrow> (case sumdb_serve h req (TrimPrefix p ''/sumdb'') of (r, rqs) \<Rightarrow> ((r, s), rqs)))
      else
        let rest = TrimPrefix p ''/'' in
        ((case CutSuffix rest ''/@latest'' of
            Some escMod \<Rightarrow> serveLatest env req escMod s
          | None \<Rightarrow>
              (case splitAtV rest of
                 Some (m, file') \<Rightarrow> serveModuleFile env req m file' s
               | None \<Rightarrow> (writeGoError 404 ''not a GOPROXY path'', s))), []))"

section \<open>Where a request goes\<close>

text \<open>The reference and content type a well-formed request asks for.\<close>

definition gomod_path :: "'b gomod_env \<Rightarrow> pt_request \<Rightarrow> string" where
  "gomod_path env req =
     (let p0 = (if pePrefix (gmBase env) \<noteq> [] then TrimPrefix (pqPath req) (pePrefix (gmBase env)) else pqPath req) in
      if \<not> HasPrefix p0 ''/'' then ''/'' @ p0 else p0)"

definition is_sumdb :: "'b gomod_env \<Rightarrow> pt_request \<Rightarrow> bool" where
  "is_sumdb env req \<longleftrightarrow> gomod_path env req = ''/sumdb'' \<or> HasPrefix (gomod_path env req) ''/sumdb/''"

definition gomod_target :: "'b gomod_env \<Rightarrow> pt_request \<Rightarrow> (ArtifactRef \<times> string) option" where
  "gomod_target env req =
     (if is_sumdb env req \<or> \<not> get_or_head req then None
      else
        let rest = TrimPrefix (gomod_path env req) ''/'' in
        case CutSuffix rest ''/@latest'' of
          Some m \<Rightarrow> (case canonicalModule env m of Inl _ \<Rightarrow> None | Inr _ \<Rightarrow> Some (latestRef m, ''application/json''))
        | None \<Rightarrow>
            (case splitAtV rest of
               None \<Rightarrow> None
             | Some (m, f) \<Rightarrow>
                 (case canonicalModule env m of
                    Inl _ \<Rightarrow> None
                  | Inr _ \<Rightarrow>
                      if f = ''list'' then Some (listRef m, ''text/plain; charset=utf-8'')
                      else if versionFromFile f \<noteq> None then Some (gomod_immutableRef m f, contentTypeForFile f)
                      else None)))"

definition serve_target ::
  "'b gomod_env \<Rightarrow> pt_request \<Rightarrow> ArtifactRef \<Rightarrow> string \<Rightarrow> 'b pt_state \<Rightarrow> pt_response \<times> 'b pt_state" where
  "serve_target env req ref ct s =
     (if rMutable ref then gomod_serveMutable env req ref ct s else serve_module_file env req ref ct s)"

lemma writeGoError_simps [simp]:
  "psBody (writeGoError code m) = PText (m @ [CHR 0x0A])" "psStatus (writeGoError code m) = code"
  by (simp_all add: writeGoError_def)

lemma go_refusals [simp]:
  "psStatus (invalid_module e) = 400" "psStatus go_method_not_allowed = 405"
  "psBody (invalid_module e) \<noteq> PBytes b" "psBody go_method_not_allowed \<noteq> PBytes b"
  by (simp_all add: invalid_module_def go_method_not_allowed_def writeGoError_def pt_reply_def Let_def)

lemma refs_mutable [simp]: "rMutable (latestRef m)" "rMutable (listRef m)" "\<not> rMutable (gomod_immutableRef m f)"
  by (simp_all add: latestRef_def listRef_def gomod_immutableRef_def gomod_ref_def)

lemma versionFromFile_iff: "versionFromFile f \<noteq> None \<longleftrightarrow> HasSuffix f ''.info'' \<or> HasSuffix f ''.mod'' \<or> HasSuffix f ''.zip''"
  by (auto simp: versionFromFile_def CutSuffix_def)

lemma list_no_version: "versionFromFile ''list'' = None"
  by code_simp

text \<open>A request outside the checksum database is refused as it is, or served for its target.\<close>

lemma gomod_dispatch:
  assumes "\<not> is_sumdb env req"
  shows "gomod_ServeHTTP env req s =
     (case gomod_target env req of
        Some (ref, ct) \<Rightarrow> (serve_target env req ref ct s, [])
      | None \<Rightarrow> ((fst (fst (gomod_ServeHTTP env req s)), s), []))
    \<and> (gomod_target env req = None \<longrightarrow> psStatus (fst (fst (gomod_ServeHTTP env req s))) \<in> {400, 404, 405}
        \<and> (\<forall>b. psBody (fst (fst (gomod_ServeHTTP env req s))) \<noteq> PBytes b))"
proof -
  have g: "gomod_ServeHTTP env req s =
     (let rest = TrimPrefix (gomod_path env req) ''/'' in
        ((case CutSuffix rest ''/@latest'' of
            Some escMod \<Rightarrow> serveLatest env req escMod s
          | None \<Rightarrow>
              (case splitAtV rest of
                 Some (m, file') \<Rightarrow> serveModuleFile env req m file' s
               | None \<Rightarrow> (writeGoError 404 ''not a GOPROXY path'', s))), []))"
    using assms unfolding gomod_ServeHTTP_def is_sumdb_def gomod_path_def Let_def by auto
  have v: "versionFromFile f = None \<longleftrightarrow> \<not> (HasSuffix f ''.info'' \<or> HasSuffix f ''.mod'' \<or> HasSuffix f ''.zip'')" for f
    using versionFromFile_iff [of f] by blast
  show ?thesis
    unfolding g Let_def gomod_target_def using assms
    by (auto simp: serveLatest_def serveModuleFile_def serveList_def serve_document_def gomod_serveImmutable_def serve_target_def v
        split: option.splits sum.splits)
qed

lemma gomod_dispatch_target:
  "gomod_target env req = Some (ref, ct) \<Longrightarrow> gomod_ServeHTTP env req s = (serve_target env req ref ct s, [])"
  using gomod_dispatch [of env req s] by (auto simp: gomod_target_def split: if_splits)

section \<open>Sound answers\<close>

lemma answers_no_bytes: "plain_errors writeGoError" "\<forall>e b. psBody (upstream_answer e) \<noteq> PBytes b" "\<forall>f b. psBody (fill_answer f) \<noteq> PBytes b"
  by (auto simp: plain_errors_def upstream_answer_def fill_answer_def split: option.splits fill_fail.splits)

text \<open>The module proxy on top of the shared pipeline.\<close>

locale module_proxy = base: pull_through "gmBase env" for env :: "'b gomod_env"
begin

lemma proto_sound: "rv_sound (gmBase env) id (gomod_proto env req ref ct)"
  unfolding rv_sound_def
  by (auto simp: gomod_proto_def answers_no_bytes gomod_fetchBodyAndStore_def serveFromCache_def [abs_def]
      intro!: serve_cached_sound swr_inv intro: base.store_body_inv)

lemma serveMutable_sound: "pt_inv (gmBase env) s \<Longrightarrow> sound_document (gmBase env) id (gomod_serveMutable env req ref ct s)"
  using rv_serveMutable_sound [OF _ proto_sound] by (simp add: gomod_serveMutable_def)

lemma serve_module_file_sound:
  assumes "pt_inv (gmBase env) s" and "\<not> rMutable ref"
  shows "sound_file (gmBase env) ref (serve_module_file env req ref ct s)"
  unfolding serve_module_file_def
proof (rule base.cached_file_sound [OF assms answers_no_bytes(1,3)])
  show "file_server (gmBase env) ref (\<lambda>e. serveFromCache req ref ct (Some e))"
    unfolding serveFromCache_def by (rule serve_cached_file [OF answers_no_bytes(1)])
qed (auto simp: gomod_fetchAndStoreImmutable_def dest!: base.fill_immutable_inv [OF _ _ no_enrich_sound])

lemma refresh_inv: "gomod_refresh env off ref s = (r, s') \<Longrightarrow> pt_inv (gmBase env) s \<Longrightarrow> pt_inv (gmBase env) s'"
  unfolding gomod_refresh_def gomod_fetchBodyAndStore_def by (erule base.swr_refresh_inv) (auto intro: base.store_body_inv)

end

interpretation main_proxy: module_proxy
  "env\<lparr>gmBase := (gmBase env)\<lparr>peCache := \<lparr>cvDigest = dg, cvChain = (\<lambda>_. main_chain [])\<rparr>, peLock := None\<rparr>\<rparr>"
  for env :: "'b gomod_env" and dg
  by (simp add: module_proxy_def main_through.pull_through_axioms)

section \<open>Failing upstreams\<close>

text \<open>The status an upstream error is answered with.\<close>

definition failure_status :: "uerr \<Rightarrow> int" where
  "failure_status e =
     (case eStatus e of
        Some (_, code) \<Rightarrow> if code \<in> {403, 404, 410} then code else if eOffline e then 404 else 502
      | None \<Rightarrow> if eOffline e then 404 else 502)"

lemma upstream_answer_status: "psStatus (upstream_answer e) = failure_status e"
  by (auto simp: upstream_answer_def failure_status_def goMeaningfulUpstreamStatus_def IsNotFound_def split: option.splits)

lemma failure_status_wrap [simp]: "failure_status (wrap pre e) = failure_status e"
  by (simp add: failure_status_def wrap_def)

lemma route_client: "pt_client (gmBase env) = Some off \<Longrightarrow> gomod_route env ref = Some (off, peUpstreams (gmBase env), ref)"
  by (simp add: gomod_route_def)

lemma module_file_failure:
  assumes "pt_client (gmBase env) = Some off" and "peLock (gmBase env) = None"
    and "fst (Lookup (ptCache s) ref) = Inr None"
    and "MaybeOffline off (peFetch (gmBase env)) ref (peUpstreams (gmBase env)) [] (ptNet s) = (Inl e, w')"
  shows "psStatus (fst (serve_module_file env req ref ct s)) = failure_status e"
  using file_failure [OF assms(2,3,4)] route_client [OF assms(1)]
  by (simp add: serve_module_file_def gomod_fetchAndStoreImmutable_def fill_answer_def upstream_answer_status)

lemma document_failure:
  assumes "pt_client (gmBase env) = Some off" and "fst (Lookup (ptCache s) ref) = Inr None"
    and "fst (stale_entry ref (snd (pt_cache (\<lambda>c. Lookup c ref) s))) = None"
    and "MaybeOffline off (peFetch (gmBase env)) ref (peUpstreams (gmBase env)) [] (ptNet s) = (Inl e, w')"
  shows "psStatus (fst (gomod_serveMutable env req ref ct s)) = failure_status e"
  using rv_failure [OF _ assms(2,3,4), of "gomod_proto env req ref ct"] route_client [OF assms(1)]
  by (simp add: gomod_serveMutable_def gomod_proto_def upstream_answer_status)

text \<open>Neither fetching nor revalidating succeeds.\<close>

definition upstreams_fail :: "'b pt_env \<Rightarrow> ArtifactRef \<Rightarrow> bool" where
  "upstreams_fail env ref \<longleftrightarrow>
     (\<forall>off. pt_client env = Some off \<longrightarrow>
        fetches_fail env off ref (peUpstreams env)
        \<and> (\<forall>prev s. \<exists>e s'. pt_revalidate env off ref prev (peUpstreams env) s = (Inl e, s')))"

lemma document_kept:
  assumes "kept ref d c s" and "rMutable ref" and "pqMethod req = ''GET''" and "upstreams_fail (gmBase env) ref"
  shows "psStatus (fst (gomod_serveMutable env req ref ct s)) = 200 \<and> psBody (fst (gomod_serveMutable env req ref ct s)) = PBytes c"
proof -
  have k: "serves_kept (gomod_proto env req ref ct) ref d c c"
    by (rule serves_kept_cached [OF _ _ assms(3)]) (simp_all add: gomod_proto_def serveFromCache_def [abs_def])
  have "route_fails (gmBase env) (rvRoute (gomod_proto env req ref ct))"
    using assms(4) by (auto simp: route_fails_def gomod_proto_def gomod_route_def upstreams_fail_def)
  from rv_serveMutable_kept [OF k _ assms(1,2) this] show ?thesis
    by (simp add: gomod_serveMutable_def gomod_proto_def)
qed

section \<open>What leaves for the checksum database\<close>

lemma sumdb_serve_requests:
  assumes "sumdb_serve h req sub = (r, rqs)" and "rq \<in> set rqs"
  shows "\<exists>name elem. splitSumDBName (TrimPrefix sub ''/'') = Some (name, elem) \<and> name = shName h \<and> elem \<noteq> ''/supported''
    \<and> private_lookup h (TrimPrefix sub ''/'') = None \<and> rqs = [rq]
    \<and> rq = \<lparr>dqMethod = pqMethod req, dqTarget = endpoint_URL (shEndpoint h) name elem, dqAccept = header_get ''Accept'' req\<rparr> \<and> get_or_head req"
  using assms by (auto simp: sumdb_serve_def Let_def split: if_splits option.splits sum.splits)

lemma gomod_requests:
  assumes "gomod_ServeHTTP env req s = (a, rqs)" and "rq \<in> set rqs"
  shows "\<exists>h r. gmSumDB env = Some h \<and> is_sumdb env req \<and> sumdb_serve h req (TrimPrefix (gomod_path env req) ''/sumdb'') = (r, rqs) \<and> a = (r, s)"
proof (cases "is_sumdb env req")
  case True
  have g: "gomod_ServeHTTP env req s =
     (case gmSumDB env of
        None \<Rightarrow> ((writeGoError 404 ''sumdb passthrough not configured'', s), [])
      | Some h \<Rightarrow> (case sumdb_serve h req (TrimPrefix (gomod_path env req) ''/sumdb'') of (r, rqs) \<Rightarrow> ((r, s), rqs)))"
    using True unfolding gomod_ServeHTTP_def is_sumdb_def gomod_path_def Let_def by auto
  then show ?thesis using assms True by (auto split: option.splits prod.splits)
next
  case False
  have "snd (gomod_ServeHTTP env req s) = []"
    using gomod_dispatch [OF False, of s] by (cases "gomod_target env req") (simp, metis snd_conv, auto)
  then show ?thesis using assms by simp
qed

section \<open>Properties\<close>



text \<open>C30: A document survives its upstreams. On healthy stores, as long as the version list or the latest version of a module
  is kept, however old it is, a request for it is answered with its content when no upstream can be
  fetched from or revalidates it, and also when there is no upstream at all.\<close>

theorem kept_documents_survive_outages:
  assumes "gomod_target env req = Some (ref, ct)" and "rMutable ref" and "pqMethod req = ''GET''"
    and "kept ref d c s" and "upstreams_fail (gmBase env) ref"
  shows "psStatus (fst (fst (gomod_ServeHTTP env req s))) = 200 \<and> psBody (fst (fst (gomod_ServeHTTP env req s))) = PBytes c"
  using gomod_dispatch_target [OF assms(1), of s] document_kept [OF assms(4,2,3,5), of ct] assms(2)
  by (simp add: serve_target_def)


section \<open>Weaker than intended\<close>

text \<open>
  The guard looks at lookups with a version only: a lookup of a private module without one is
  passed on with its name, as is one whose escaping is malformed.
\<close>

lemma unversioned_lookup_leaves:
  assumes "get_or_head req" and "shBuild h (endpoint_URL (shEndpoint h) (shName h) (''/lookup/'' @ m)) = None"
    and "shName h \<noteq> []" and "CHR ''/'' \<notin> set (shName h)" and "CHR ''@'' \<notin> set m" and "CHR ''@'' \<notin> set (shName h)"
  shows "map dqTarget (snd (sumdb_serve h req (''/'' @ shName h @ ''/lookup/'' @ m))) = [endpoint_URL (shEndpoint h) (shName h) (''/lookup/'' @ m)]"
proof -
  let ?sub = "shName h @ ''/lookup/'' @ m"
  have at': "CHR ''@'' \<notin> set (drop i ?sub)" for i using assms(5,6) in_set_dropD by fastforce
  have no: "LastIndexByte (drop i ?sub) CHR ''@'' = None" for i using at' LastIndexByte_None_iff by blast
  have "moduleFromLookup ?sub = None" unfolding moduleFromLookup_def Let_def no by (simp split: option.splits)
  moreover have "splitSumDBName ?sub = Some (shName h, ''/lookup/'' @ m)"
    using assms(3) IndexByte_append [OF assms(4), of "''lookup/'' @ m"] by (simp add: splitSumDBName_def)
  moreover have "TrimPrefix (''/'' @ ?sub) ''/'' = ?sub" by (simp add: TrimPrefix_def HasPrefix_def)
  ultimately show ?thesis
    using assms(1,2,3) by (simp add: sumdb_serve_def private_lookup_def Let_def split: sum.splits)
qed

text \<open>
  A mirror that answers 304 to a fetch nobody made conditional leaves the refresh in the background
  with no body to close: the process ends.
\<close>

lemma unasked_304_ends_the_process:
  assumes "peMeta (gmBase env) = False"
    and "Fetch (peFetch (gmBase env)) ref (peUpstreams (gmBase env)) [] (ptNet s) = (Inr (None, umeta), w')"
  shows "fst (gomod_refresh env False ref s) = JobCrash"
  using assms by (simp add: gomod_refresh_def swr_refresh_def getMutableUpstreamMeta_def pt_fetch_def MaybeOffline_def)

section \<open>A proxy on a small cache\<close>

definition go_sumdb :: sumdb_handler where
  "go_sumdb =
     NewSumDBHandler sum_lib [] [] [''corp.example''] (\<lambda>_. None) (\<lambda>_. Inr (200, [], ''ok''))"

definition go_env :: "bool option \<Rightarrow> simple_cb gomod_env" where
  "go_env client = \<lparr>gmBase = pt_demo client, gmUnescapePath = Inr, gmCheckPath = (\<lambda>_. None), gmSumDB = Some go_sumdb\<rparr>"

definition go_request :: "string \<Rightarrow> pt_request" where
  "go_request path = \<lparr>pqMethod = ''GET'', pqPath = path, pqQuery = [], pqHost = ''h'', pqURLHost = [], pqTLS = False, pqHeaders = []\<rparr>"

lemma go_list: "gomod_target (go_env client) (go_request ''/m/@v/list'') = Some (listRef ''m'', ''text/plain; charset=utf-8'')"
proof -
  have "gomod_path (go_env client) (go_request ''/m/@v/list'') = ''/m/@v/list''"
    by (simp add: gomod_path_def go_env_def pt_demo_def go_request_def HasPrefix_def)
  moreover have "CutSuffix (TrimPrefix ''/m/@v/list'' ''/'') ''/@latest'' = None" "splitAtV (TrimPrefix ''/m/@v/list'' ''/'') = Some (''m'', ''list'')"
    by code_simp+
  ultimately show ?thesis
    by (simp add: gomod_target_def is_sumdb_def HasPrefix_def go_env_def canonicalModule_def get_or_head_def go_request_def)
qed

theorem kept_documents_survive_outages_witness:
  "psStatus (fst (fst (gomod_ServeHTTP (go_env (Some True)) (go_request ''/m/@v/list'') (pt_document (listRef ''m''))))) = 200"
proof -
  have "upstreams_fail (gmBase (go_env (Some True))) (listRef ''m'')"
    using offline_fetches_fail by (auto simp: upstreams_fail_def go_env_def pt_client_def pt_demo_def pt_revalidate_def)
  moreover have "pqMethod (go_request ''/m/@v/list'') = ''GET''" "rDigest (listRef ''m'') = []"
    by (simp_all add: go_request_def listRef_def gomod_ref_def)
  ultimately show ?thesis
    using kept_documents_survive_outages [OF go_list refs_mutable(2) _ pt_document_kept] by blast
qed



lemma go_sumdb_path:
  assumes "HasPrefix p ''/sumdb/''"
  shows "snd (gomod_ServeHTTP (go_env None) (go_request p) s) = snd (sumdb_serve go_sumdb (go_request p) (TrimPrefix p ''/sumdb''))"
proof -
  have "HasPrefix p ''/''" using assms by (auto simp: HasPrefix_iff)
  then show ?thesis using assms by (simp add: gomod_ServeHTTP_def go_env_def pt_demo_def go_request_def split: prod.splits)
qed


end
