(* ===== verification/PublishMeta.thy ===== *)
theory PublishMeta
  imports Prelude
begin

text \<open>
  Publish times out of the metadata of the registries (\<^verbatim>\<open>internal/publishmeta/publishmeta.go\<close>), for the
  gate that holds young artifacts back. A document is what \<^verbatim>\<open>encoding/json\<close> made of it, \<^verbatim>\<open>None\<close>
  when it does not parse; \<^verbatim>\<open>time.Parse\<close> is a parameter, a function of the layout and the text.
\<close>

section \<open>Times\<close>

definition time_layouts :: "string list" where
  "time_layouts =
     [''2006-01-02T15:04:05.999999999Z07:00'', ''2006-01-02T15:04:05Z07:00'', ''2006-01-02T15:04:05'', ''2006-01-02 15:04:05'']"

fun first_layout :: "(string \<Rightarrow> string \<Rightarrow> gotime option) \<Rightarrow> string list \<Rightarrow> string \<Rightarrow> gotime option" where
  "first_layout parse [] raw = None"
| "first_layout parse (l # ls) raw = (case parse l raw of Some t \<Rightarrow> Some t | None \<Rightarrow> first_layout parse ls raw)"

definition parseTime :: "(string \<Rightarrow> string \<Rightarrow> gotime option) \<Rightarrow> string \<Rightarrow> gotime option" where
  "parseTime parse raw0 = (let raw = TrimSpace raw0 in if raw = [] then None else first_layout parse time_layouts raw)"

section \<open>Registries\<close>

definition FromNPMPackument ::
  "(string \<Rightarrow> string \<Rightarrow> gotime option) \<Rightarrow> (string \<rightharpoonup> string) option \<Rightarrow> string \<Rightarrow> gotime option" where
  "FromNPMPackument parse doc version0 =
     (case doc of
        None \<Rightarrow> None
      | Some tm \<Rightarrow>
          let version = TrimSpace version0 in
          if version = [] then None
          else case tm version of None \<Rightarrow> None | Some raw \<Rightarrow> parseTime parse raw)"

definition VersionFromNPMTarball :: "string \<Rightarrow> string \<Rightarrow> string" where
  "VersionFromNPMTarball pkg file' =
     (let base = TrimSuffix (TrimSuffix file' ''.tgz'') ''.tar.gz'';
          name = (case LastIndexByte pkg CHR ''/'' of Some i \<Rightarrow> drop (Suc i) pkg | None \<Rightarrow> pkg);
          pre = name @ ''-'' in
      if HasPrefix base pre then TrimPrefix base pre else base)"

record warehouse_file =
  wfFilename :: string
  wfUploadTimeISO :: string
  wfUploadTime :: string

definition parseUpload :: "(string \<Rightarrow> string \<Rightarrow> gotime option) \<Rightarrow> string \<Rightarrow> string \<Rightarrow> gotime option" where
  "parseUpload parse newer legacy = (case parseTime parse newer of Some t \<Rightarrow> Some t | None \<Rightarrow> parseTime parse legacy)"

definition sooner :: "gotime option \<Rightarrow> gotime option \<Rightarrow> gotime option" where
  "sooner best t = (case t of None \<Rightarrow> best | Some x \<Rightarrow> (case best of None \<Rightarrow> Some x | Some b \<Rightarrow> if x < b then Some x else Some b))"

definition earliest :: "(string \<Rightarrow> string \<Rightarrow> gotime option) \<Rightarrow> warehouse_file list \<Rightarrow> gotime option" where
  "earliest parse files =
     fold (\<lambda>f best. sooner best (parseUpload parse (wfUploadTimeISO f) (wfUploadTime f))) files None"

text \<open>The releases are a map; the files of the given name are looked for in every release.\<close>

definition FromPyPIWarehouseJSON ::
  "(string \<Rightarrow> string \<Rightarrow> gotime option) \<Rightarrow> (string \<times> warehouse_file list) list option \<Rightarrow> string \<Rightarrow> gotime option" where
  "FromPyPIWarehouseJSON parse doc versionOrFile =
     (let key = TrimSpace versionOrFile in
      case doc of
        None \<Rightarrow> None
      | Some releases \<Rightarrow>
          (case map_of releases key of
             Some (f # fs) \<Rightarrow> earliest parse (f # fs)
           | _ \<Rightarrow> earliest parse (filter (\<lambda>f. wfFilename f = key) (concat (map snd releases)))))"

definition FromPyPISimpleJSON ::
  "(string \<Rightarrow> string \<Rightarrow> gotime option) \<Rightarrow> (string \<times> string) list option \<Rightarrow> string \<Rightarrow> gotime option" where
  "FromPyPISimpleJSON parse doc filename =
     (case doc of
        None \<Rightarrow> None
      | Some files \<Rightarrow>
          (case List.find (\<lambda>f. fst f = TrimSpace filename) files of
             None \<Rightarrow> None
           | Some f \<Rightarrow> parseTime parse (snd f)))"

definition FromCargoCrateAPI :: "(string \<Rightarrow> string \<Rightarrow> gotime option) \<Rightarrow> (string \<times> string) option \<Rightarrow> gotime option" where
  "FromCargoCrateAPI parse doc =
     (case doc of
        None \<Rightarrow> None
      | Some (createdAt, updatedAt) \<Rightarrow>
          (case parseTime parse createdAt of Some t \<Rightarrow> Some t | None \<Rightarrow> parseTime parse updatedAt))"

section \<open>The earliest upload\<close>

text \<open>The time of a release is the earliest of the times of its files, in whatever order they are listed.\<close>

lemma fold_sooner:
  assumes "fold (\<lambda>f best. sooner best (g f)) fs best = Some t"
  shows "(best = Some t \<or> (\<exists>f \<in> set fs. g f = Some t)) \<and> (\<forall>b. best = Some b \<longrightarrow> t \<le> b) \<and> (\<forall>f \<in> set fs. \<forall>u. g f = Some u \<longrightarrow> t \<le> u)"
  using assms
proof (induction fs arbitrary: best)
  case (Cons f fs)
  from Cons.IH [of "sooner best (g f)"] Cons.prems show ?case
    by (cases "g f"; cases best) (auto simp: sooner_def split: if_splits)
qed simp

lemma earliest_least:
  assumes "earliest parse files = Some t"
  shows "(\<exists>f \<in> set files. parseUpload parse (wfUploadTimeISO f) (wfUploadTime f) = Some t)
    \<and> (\<forall>f \<in> set files. \<forall>u. parseUpload parse (wfUploadTimeISO f) (wfUploadTime f) = Some u \<longrightarrow> t \<le> u)"
  using fold_sooner [OF assms [unfolded earliest_def]] by simp

end
