(* ===== verification/Packages.thy ===== *)
theory Packages
  imports PullThrough PublishMeta SumDb
begin

text \<open>
  Three package protocols on the shared pipeline: the sparse registry of Cargo (\<^verbatim>\<open>internal/handler/cargo\<close>),
  Conda channels (\<^verbatim>\<open>internal/handler/conda\<close>) and the Hugging Face Hub (\<^verbatim>\<open>internal/handler/hf\<close>).
  Parameters: \<^verbatim>\<open>encoding/json\<close> as a parser to and a printer of values, \<^verbatim>\<open>url.Parse\<close>,
  \<^verbatim>\<open>time.Parse\<close>, and the HTTP client the Hub requests are passed through with.
\<close>

section \<open>Shared pieces\<close>

datatype json = JNull | JBool bool | JNum string | JStr string | JArr "json list" | JObj "(string \<times> json) list"

text \<open>An allowlist of named roots; a name given twice has its last root.\<close>

definition roots_from_specs :: "string \<Rightarrow> (string \<times> string) list \<Rightarrow> (string \<times> Upstream) list" where
  "roots_from_specs proto specs =
     fold (\<lambda>(n, b) out.
        let name = Trim (TrimSpace n) CHR ''/''; base = TrimRight (TrimSpace b) CHR ''/'' in
        if name = [] \<or> base = [] then out
        else (name, \<lparr>upName = proto @ '':'' @ name, upBaseURL = base, upPriority = 1, upOfficial = True, upPathPrefix = [], upProxy = []\<rparr>) # out)
      specs []"

definition root_for_path :: "(string \<times> Upstream) list \<Rightarrow> Upstream list \<Rightarrow> string \<Rightarrow> (Upstream list \<times> string) option" where
  "root_for_path roots ups relPath0 =
     (let relPath = Trim relPath0 CHR ''/'' in
      if roots = [] then (if ups = [] then None else Some (ups, relPath))
      else
        case IndexByte relPath CHR ''/'' of
          None \<Rightarrow> None
        | Some i \<Rightarrow>
            if i = 0 \<or> Suc i = length relPath then None
            else
              (case map_of roots (take i relPath) of
                 None \<Rightarrow> None
               | Some up \<Rightarrow> if upBaseURL up = [] then None else Some ([up], drop (Suc i) relPath)))"

definition rest_of_path :: "'b pt_env \<Rightarrow> pt_request \<Rightarrow> string" where
  "rest_of_path env req =
     (let p = (if pePrefix env \<noteq> [] then TrimPrefix (pqPath req) (pePrefix env) else pqPath req) in
      Trim (TrimPrefix p ''/'') CHR ''/'')"

section \<open>Cargo\<close>

record 'b cargo_env =
  cgBase :: "'b pt_env"
  cgRegistries :: "(string \<times> Upstream) list"
  cgDLUpstreams :: "Upstream list"
  cgConfigJSON :: "bytes \<Rightarrow> (string \<times> json) list option"
  cgPrintJSON :: "(string \<times> json) list \<Rightarrow> bytes option"
  cgCrateJSON :: "bytes \<Rightarrow> (string \<times> string) option"
  cgParseTime :: "string \<Rightarrow> string \<Rightarrow> gotime option"

definition RegistriesFromSpecs :: "(string \<times> string) list \<Rightarrow> (string \<times> Upstream) list" where
  "RegistriesFromSpecs = roots_from_specs ''cargo''"

definition cargo_upstreamForPath :: "'b cargo_env \<Rightarrow> string \<Rightarrow> (Upstream list \<times> string) option" where
  "cargo_upstreamForPath env = root_for_path (cgRegistries env) (peUpstreams (cgBase env))"

text \<open>The constructor fills in the download mirrors when none are given.\<close>

definition cargo_NewHandler :: "'b cargo_env \<Rightarrow> 'b cargo_env" where
  "cargo_NewHandler env =
     (if cgDLUpstreams env = [] then
        env\<lparr>cgDLUpstreams := [\<lparr>upName = ''static-crates-io'', upBaseURL = ''https://static.crates.io'', upPriority = 1,
              upOfficial = True, upPathPrefix = [], upProxy = []\<rparr>]\<rparr>
      else env)"

definition cargo_indexRef :: "string \<Rightarrow> ArtifactRef" where
  "cargo_indexRef indexPath =
     \<lparr>rProtocol = ''cargo'', rName = indexPath, rVersion = ''index'', rDigest = [], rUpstream = [], rMutable = True\<rparr>"

definition crateRef :: "string \<Rightarrow> string \<Rightarrow> ArtifactRef" where
  "crateRef name version =
     \<lparr>rProtocol = ''cargo'', rName = name, rVersion = version, rDigest = [], rUpstream = [], rMutable = False\<rparr>"

definition CrateIndexPath :: "string \<Rightarrow> string" where
  "CrateIndexPath name =
     (let n = ToLower name in
      if length n = 0 then []
      else if length n = 1 then ''1/'' @ n
      else if length n = 2 then ''2/'' @ n
      else if length n = 3 then ''3/'' @ take 1 n @ ''/'' @ n
      else take 2 n @ ''/'' @ take 2 (drop 2 n) @ ''/'' @ n)"

text \<open>The two fields are set in the document, whatever it held.\<close>

definition set_field :: "string \<Rightarrow> string \<Rightarrow> (string \<times> json) list \<Rightarrow> (string \<times> json) list" where
  "set_field k v doc = (k, JStr v) # filter (\<lambda>f. fst f \<noteq> k) doc"

definition rewriteConfigJSON :: "'b cargo_env \<Rightarrow> string \<Rightarrow> string \<Rightarrow> bytes \<Rightarrow> bytes" where
  "rewriteConfigJSON env base prefix' data =
     (case cgConfigJSON env data of
        None \<Rightarrow> data
      | Some doc \<Rightarrow>
          let p = TrimRight prefix' CHR ''/'';
              doc1 = set_field ''api'' (base @ p) (set_field ''dl'' (base @ p @ ''/crates'') doc) in
          (case cgPrintJSON env doc1 of None \<Rightarrow> data | Some out \<Rightarrow> out))"

definition maxMetaBody :: nat where "maxMetaBody = 2 ^ 20"

definition crate_api_ref :: "string \<Rightarrow> string \<Rightarrow> ArtifactRef" where
  "crate_api_ref name version =
     \<lparr>rProtocol = ''cargo'', rName = ''api/v1/crates/'' @ name @ ''/'' @ version, rVersion = ''api'', rDigest = [], rUpstream = [],
      rMutable = True\<rparr>"

definition crates_io_api :: "Upstream list" where
  "crates_io_api =
     [\<lparr>upName = ''crates-io-api'', upBaseURL = ''https://crates.io'', upPriority = 1, upOfficial = True, upPathPrefix = [], upProxy = []\<rparr>]"

definition crateVersionAPIBody ::
  "'b cargo_env \<Rightarrow> bool \<Rightarrow> string \<Rightarrow> string \<Rightarrow> 'b pt_state \<Rightarrow> (bytes option) option \<times> 'b pt_state" where
  "crateVersionAPIBody env offline name version s =
     (case pt_fetch (cgBase env) offline (crate_api_ref name version) crates_io_api s of
        (Inr (Some rd, _), s1) \<Rightarrow> small_body maxMetaBody (cgBase env) rd s1
      | (_, s1) \<Rightarrow> (Some None, s1))"

definition cargo_enrichPublishTime ::
  "'b cargo_env \<Rightarrow> bool \<Rightarrow> ArtifactRef \<Rightarrow> UpstreamMeta \<Rightarrow> 'b pt_state \<Rightarrow> UpstreamMeta option \<times> 'b pt_state" where
  "cargo_enrichPublishTime env offline ref umeta s =
     (if \<not> IsZero (uPublishedAt umeta) then (Some umeta, s)
      else if rName ref = [] \<or> rVersion ref = [] then (Some umeta, s)
      else
        case crateVersionAPIBody env offline (rName ref) (rVersion ref) s of
          (None, s1) \<Rightarrow> (None, s1)
        | (Some None, s1) \<Rightarrow> (Some umeta, s1)
        | (Some (Some body), s1) \<Rightarrow>
            (case FromCargoCrateAPI (cgParseTime env) (cgCrateJSON env body) of
               None \<Rightarrow> (Some umeta, s1)
             | Some t \<Rightarrow> (Some (umeta\<lparr>uPublishedAt := t\<rparr>), s1)))"

definition cargo_serveMutableBytes ::
  "'b cargo_env \<Rightarrow> pt_request \<Rightarrow> string \<Rightarrow> bool \<Rightarrow> CacheEntry \<Rightarrow> 'b pt_state \<Rightarrow> pt_response \<times> 'b pt_state" where
  "cargo_serveMutableBytes env req ct rewriteConfig =
     write_document req ct (if rewriteConfig then rewriteConfigJSON env (request_base req) (pePrefix (cgBase env)) else id)"

definition octet_stream :: "(string \<times> string) list" where
  "octet_stream = [(''Content-Type'', ''application/octet-stream'')]"

definition cargo_streamEntry :: "pt_request \<Rightarrow> CacheEntry \<Rightarrow> 'b pt_state \<Rightarrow> pt_response \<times> 'b pt_state" where
  "cargo_streamEntry req = write_file req octet_stream []"

definition cargo_route :: "'b cargo_env \<Rightarrow> ArtifactRef \<Rightarrow> (bool \<times> Upstream list \<times> ArtifactRef) option" where
  "cargo_route env ref =
     (case peClient (cgBase env) of
        None \<Rightarrow> None
      | Some offline \<Rightarrow>
          (case cargo_upstreamForPath env (rName ref) of
             None \<Rightarrow> None
           | Some (ups, fetchName) \<Rightarrow> Some (offline, ups, ref\<lparr>rName := fetchName\<rparr>)))"

definition cargo_serveMutable ::
  "'b cargo_env \<Rightarrow> pt_request \<Rightarrow> ArtifactRef \<Rightarrow> string \<Rightarrow> bool \<Rightarrow> 'b pt_state \<Rightarrow> pt_response \<times> 'b pt_state" where
  "cargo_serveMutable env req ref ct rewriteConfig =
     mutable_pipeline (cgBase env) (CacheWrap ''store: '') (cargo_route env ref) (cargo_serveMutableBytes env req ct rewriteConfig) ref"

definition cargo_serveImmutable ::
  "'b cargo_env \<Rightarrow> pt_request \<Rightarrow> ArtifactRef \<Rightarrow> Upstream list \<Rightarrow> 'b pt_state \<Rightarrow> pt_response \<times> 'b pt_state" where
  "cargo_serveImmutable env req ref ups =
     (let route = (case peClient (cgBase env) of None \<Rightarrow> None | Some offline \<Rightarrow> if ups = [] then None else Some (offline, ups, ref));
          offline = (peClient (cgBase env) = Some True) in
      immutable_pipeline (cgBase env) (cargo_enrichPublishTime env offline ref) route (cargo_streamEntry req) ref)"

definition cargo_serveIndex :: "'b cargo_env \<Rightarrow> pt_request \<Rightarrow> string \<Rightarrow> 'b pt_state \<Rightarrow> pt_response \<times> 'b pt_state" where
  "cargo_serveIndex env req indexPath =
     (let fetchName = (case cargo_upstreamForPath env indexPath of Some (_, n) \<Rightarrow> n | None \<Rightarrow> []) in
      cargo_serveMutable env req (cargo_indexRef indexPath) ''application/json'' (fetchName = ''config.json''))"

definition serveCrate :: "'b cargo_env \<Rightarrow> pt_request \<Rightarrow> string \<Rightarrow> string \<Rightarrow> 'b pt_state \<Rightarrow> pt_response \<times> 'b pt_state" where
  "serveCrate env req name version = cargo_serveImmutable env req (crateRef name version) (cgDLUpstreams env)"

definition cargo_ServeHTTP :: "'b cargo_env \<Rightarrow> pt_request \<Rightarrow> 'b pt_state \<Rightarrow> pt_response \<times> 'b pt_state" where
  "cargo_ServeHTTP env req s =
     (if \<not> get_or_head req then (method_not_allowed, s)
      else
        let rest = rest_of_path (cgBase env) req in
        if rest = [] then (http_Error ''not a cargo path'' 404, s)
        else if Contains rest ''..'' then (http_Error ''invalid path'' 400, s)
        else if HasPrefix rest ''crates/'' then
          (case Split rest CHR ''/'' of
             [_, name, version, last'] \<Rightarrow>
               if last' = ''download'' \<and> name \<noteq> [] \<and> version \<noteq> [] then serveCrate env req name version s
               else (http_Error ''invalid crate download path'' 404, s)
           | _ \<Rightarrow> (http_Error ''invalid crate download path'' 404, s))
        else if HasPrefix rest ''index/'' then
          (let indexPath = TrimPrefix rest ''index/'' in
           if indexPath = [] then (http_Error ''missing index path'' 404, s)
           else cargo_serveIndex env req indexPath s)
        else (http_Error ''not a cargo path'' 404, s))"

section \<open>Conda\<close>

record 'b conda_env =
  cdBase :: "'b pt_env"
  cdChannels :: "(string \<times> Upstream) list"

definition ChannelsFromSpecs :: "(string \<times> string) list \<Rightarrow> (string \<times> Upstream) list" where
  "ChannelsFromSpecs = roots_from_specs ''conda''"

definition conda_upstreamForPath :: "'b conda_env \<Rightarrow> string \<Rightarrow> (Upstream list \<times> string) option" where
  "conda_upstreamForPath env = root_for_path (cdChannels env) (peUpstreams (cdBase env))"

definition mutableSuffixes :: "string list" where
  "mutableSuffixes =
     [''repodata.json'', ''current_repodata.json'', ''repodata.json.zst'', ''current_repodata.json.zst'', ''channeldata.json'']"

definition conda_isMutablePath :: "string \<Rightarrow> bool" where
  "conda_isMutablePath p = list_ex (HasSuffix p) mutableSuffixes"

definition conda_isImmutablePath :: "string \<Rightarrow> bool" where
  "conda_isImmutablePath p \<longleftrightarrow> HasSuffix p ''.conda'' \<or> HasSuffix p ''.tar.bz2''"

definition conda_indexRef :: "string \<Rightarrow> ArtifactRef" where
  "conda_indexRef relPath =
     \<lparr>rProtocol = ''conda'', rName = relPath, rVersion = ''repodata'', rDigest = [], rUpstream = [], rMutable = True\<rparr>"

definition packageRef :: "string \<Rightarrow> ArtifactRef" where
  "packageRef relPath =
     \<lparr>rProtocol = ''conda'', rName = relPath, rVersion = path_Base relPath, rDigest = [], rUpstream = [], rMutable = False\<rparr>"

definition conda_contentTypeForPath :: "string \<Rightarrow> string" where
  "conda_contentTypeForPath relPath =
     (if HasSuffix relPath ''.json'' then ''application/json''
      else if HasSuffix relPath ''.zst'' then ''application/zstd''
      else ''application/octet-stream'')"

definition conda_route :: "'b conda_env \<Rightarrow> ArtifactRef \<Rightarrow> (bool \<times> Upstream list \<times> ArtifactRef) option" where
  "conda_route env ref =
     (case peClient (cdBase env) of
        None \<Rightarrow> None
      | Some offline \<Rightarrow>
          (case conda_upstreamForPath env (rName ref) of
             None \<Rightarrow> None
           | Some (ups, fetchName) \<Rightarrow> Some (offline, ups, ref\<lparr>rName := fetchName\<rparr>)))"

text \<open>The wrapped error of a failed store is the one of the quarantine, which is \<^verbatim>\<open>nil\<close> there.\<close>

definition nil_wrapped :: "cache_err \<Rightarrow> cache_err" where
  "nil_wrapped e = CacheErr ''store: %!w(<nil>)''"

definition conda_serveMutable ::
  "'b conda_env \<Rightarrow> pt_request \<Rightarrow> ArtifactRef \<Rightarrow> string \<Rightarrow> 'b pt_state \<Rightarrow> pt_response \<times> 'b pt_state" where
  "conda_serveMutable env req ref ct = mutable_pipeline (cdBase env) nil_wrapped (conda_route env ref) (write_document req ct id) ref"

definition conda_serveImmutable :: "'b conda_env \<Rightarrow> pt_request \<Rightarrow> ArtifactRef \<Rightarrow> 'b pt_state \<Rightarrow> pt_response \<times> 'b pt_state" where
  "conda_serveImmutable env req ref =
     immutable_pipeline (cdBase env) no_enrich (conda_route env ref) (write_file req octet_stream []) ref"

definition conda_ServeHTTP :: "'b conda_env \<Rightarrow> pt_request \<Rightarrow> 'b pt_state \<Rightarrow> pt_response \<times> 'b pt_state" where
  "conda_ServeHTTP env req s =
     (if \<not> get_or_head req then (method_not_allowed, s)
      else
        let rest = rest_of_path (cdBase env) req in
        if rest = [] then (http_Error ''not a conda path'' 404, s)
        else if Contains rest ''..'' then (http_Error ''invalid path'' 400, s)
        else if conda_isMutablePath rest then conda_serveMutable env req (conda_indexRef rest) (conda_contentTypeForPath rest) s
        else if conda_isImmutablePath rest then conda_serveImmutable env req (packageRef rest) s
        else (http_Error ''not a conda path'' 404, s))"

section \<open>Hugging Face\<close>

record hub_request =
  hqMethod :: string
  hqTarget :: string
  hqHeaders :: "(string \<times> string) list"

record 'b hf_env =
  hfBase :: "'b pt_env"
  hfParseJSON :: "bytes \<Rightarrow> json option"
  hfPrintJSON :: "json \<Rightarrow> bytes option"
  hfParseURL :: "string \<Rightarrow> (string \<times> string \<times> string) option"
  hfBuild :: "string \<Rightarrow> string option"
  hfDo :: "hub_request \<Rightarrow> string + int \<times> (string \<times> string) list \<times> bytes"

definition hasAuthHeaders :: "pt_request \<Rightarrow> bool" where
  "hasAuthHeaders req \<longleftrightarrow> header_get ''Authorization'' req \<noteq> [] \<or> header_get ''Cookie'' req \<noteq> []"

definition hub_api_path :: "string \<Rightarrow> bool" where
  "hub_api_path p \<longleftrightarrow> HasPrefix p ''api/'' \<or> Contains p ''/api/''"

definition hf_isMutablePath :: "string \<Rightarrow> bool" where
  "hf_isMutablePath p =
     (if Contains p ''/resolve/'' \<or> Contains p ''/blob/'' then False
      else if hub_api_path p then True
      else if HasSuffix p ''.json'' then True
      else \<not> Contains (path_Base p) ''.'')"

definition hf_mutableRef :: "string \<Rightarrow> ArtifactRef" where
  "hf_mutableRef hubPath =
     \<lparr>rProtocol = ''hf'', rName = hubPath, rVersion = ''api'', rDigest = [], rUpstream = [], rMutable = True\<rparr>"

definition hf_immutableRef :: "string \<Rightarrow> ArtifactRef" where
  "hf_immutableRef hubPath =
     \<lparr>rProtocol = ''hf'', rName = hubPath, rVersion = path_Base hubPath, rDigest = [], rUpstream = [], rMutable = False\<rparr>"

definition hf_contentTypeForPath :: "string \<Rightarrow> string" where
  "hf_contentTypeForPath hubPath =
     (if HasSuffix hubPath ''.json'' \<or> hub_api_path hubPath then ''application/json'' else ''application/octet-stream'')"

definition isHubHost :: "string \<Rightarrow> bool" where
  "isHubHost host \<longleftrightarrow> Contains host ''huggingface.co'' \<or> Contains host ''hf.co'' \<or> Contains host ''hf-mirror.com''"

definition rewriteHubURL :: "'b hf_env \<Rightarrow> string \<Rightarrow> string \<Rightarrow> string \<Rightarrow> string" where
  "rewriteHubURL env base prefix' s =
     (if \<not> HasPrefix s ''http://'' \<and> \<not> HasPrefix s ''https://'' then s
      else
        case hfParseURL env s of
          None \<Rightarrow> s
        | Some (host, path, query) \<Rightarrow>
            if \<not> isHubHost (ToLower host) then s
            else base @ TrimRight prefix' CHR ''/'' @ path @ (if query \<noteq> [] then ''?'' @ query else []))"

text \<open>Strings in arrays and objects are rewritten in place; a document that is a string is not.\<close>

fun rewrite_string :: "(string \<Rightarrow> string) \<Rightarrow> json \<Rightarrow> json" where
  "rewrite_string f (JStr s) = JStr (f s)"
| "rewrite_string f j = j"

fun rewriteValue :: "(string \<Rightarrow> string) \<Rightarrow> json \<Rightarrow> json" where
  "rewriteValue f (JObj kvs) = JObj (map (\<lambda>(k, v). (k, rewrite_string f (rewriteValue f v))) kvs)"
| "rewriteValue f (JArr xs) = JArr (map (\<lambda>v. rewrite_string f (rewriteValue f v)) xs)"
| "rewriteValue f v = v"

definition rewriteJSONURLs :: "'b hf_env \<Rightarrow> string \<Rightarrow> string \<Rightarrow> bytes \<Rightarrow> bytes" where
  "rewriteJSONURLs env base prefix' data =
     (case hfParseJSON env data of
        None \<Rightarrow> data
      | Some doc \<Rightarrow>
          (case hfPrintJSON env (rewriteValue (rewriteHubURL env base prefix') doc) of None \<Rightarrow> data | Some out \<Rightarrow> out))"

text \<open>The first mirror by priority. The sort is not stable; among equals the first is taken here.\<close>

definition firstUpstream :: "Upstream list \<Rightarrow> Upstream option" where
  "firstUpstream ups = (case isort (\<lambda>a b. upPriority a \<le> upPriority b) ups of [] \<Rightarrow> None | u # _ \<Rightarrow> Some u)"

text \<open>The answer and the request made for it.\<close>

definition passthrough :: "'b hf_env \<Rightarrow> pt_request \<Rightarrow> string \<Rightarrow> pt_response \<times> hub_request list" where
  "passthrough env req hubPath =
     (case firstUpstream (peUpstreams (hfBase env)) of
        None \<Rightarrow> (http_Error ''no upstream configured'' 502, [])
      | Some up \<Rightarrow>
          let target = TrimRight (upBaseURL up) CHR ''/'' @ ''/'' @ hubPath @ (if pqQuery req \<noteq> [] then ''?'' @ pqQuery req else []) in
          (case hfBuild env target of
             Some _ \<Rightarrow> (http_Error ''proxy error'' 500, [])
           | None \<Rightarrow>
               let rq = \<lparr>hqMethod = pqMethod req, hqTarget = target, hqHeaders = pqHeaders req\<rparr> in
               (case hfDo env rq of
                  Inl _ \<Rightarrow> (http_Error ''upstream error'' 502, [rq])
                | Inr (status, hs, body) \<Rightarrow> (pt_reply status hs (if pqMethod req \<noteq> ''HEAD'' then PBytes body else PNone), [rq]))))"

fun commit_of_parts :: "string list \<Rightarrow> string" where
  "commit_of_parts (a # b # rest) = (if a = ''resolve'' then b else commit_of_parts (b # rest))"
| "commit_of_parts _ = []"

definition hubCommitFromPath :: "string \<Rightarrow> string" where
  "hubCommitFromPath hubPath = commit_of_parts (Split hubPath CHR ''/'')"

definition hub_headers :: "string \<Rightarrow> CacheEntry \<Rightarrow> (string \<times> string) list" where
  "hub_headers hubPath entry =
     (if ceETag entry \<noteq> [] then [(''ETag'', ceETag entry)]
      else if ceDigest entry \<noteq> [] then [(''ETag'', [CHR 0x22] @ TrimPrefix (ceDigest entry) ''sha256:'' @ [CHR 0x22])]
      else [])
     @ (if hubCommitFromPath hubPath \<noteq> [] then [(''X-Repo-Commit'', hubCommitFromPath hubPath)] else [])
     @ [(''Accept-Ranges'', ''bytes'')]"

definition streamEntryWithHubMeta :: "pt_request \<Rightarrow> string \<Rightarrow> CacheEntry \<Rightarrow> 'b pt_state \<Rightarrow> pt_response \<times> 'b pt_state" where
  "streamEntryWithHubMeta req hubPath entry =
     write_file req [(''Content-Type'', hf_contentTypeForPath hubPath)] (hub_headers hubPath entry) entry"

definition hf_route :: "'b hf_env \<Rightarrow> ArtifactRef \<Rightarrow> (bool \<times> Upstream list \<times> ArtifactRef) option" where
  "hf_route env ref = map_option (\<lambda>offline. (offline, peUpstreams (hfBase env), ref)) (pt_client (hfBase env))"

definition hf_serveMutable :: "'b hf_env \<Rightarrow> pt_request \<Rightarrow> string \<Rightarrow> 'b pt_state \<Rightarrow> pt_response \<times> 'b pt_state" where
  "hf_serveMutable env req hubPath =
     (let ref = hf_mutableRef hubPath;
          rewriteJSON = (HasSuffix hubPath ''.json'' \<or> hub_api_path hubPath);
          rw = (if rewriteJSON then rewriteJSONURLs env (request_base req) (pePrefix (hfBase env)) else id) in
      mutable_pipeline (hfBase env) nil_wrapped (hf_route env ref) (write_document req (hf_contentTypeForPath hubPath) rw) ref)"

definition hf_serveImmutable :: "'b hf_env \<Rightarrow> pt_request \<Rightarrow> string \<Rightarrow> 'b pt_state \<Rightarrow> (pt_response \<times> 'b pt_state) \<times> hub_request list" where
  "hf_serveImmutable env req hubPath s =
     (if pqMethod req = ''HEAD'' then (case passthrough env req hubPath of (r, rqs) \<Rightarrow> ((r, s), rqs))
      else
        let ref = hf_immutableRef hubPath in
        (immutable_pipeline (hfBase env) no_enrich (hf_route env ref) (streamEntryWithHubMeta req hubPath) ref s, []))"

definition hf_ServeHTTP :: "'b hf_env \<Rightarrow> pt_request \<Rightarrow> 'b pt_state \<Rightarrow> (pt_response \<times> 'b pt_state) \<times> hub_request list" where
  "hf_ServeHTTP env req s =
     (let rest = rest_of_path (hfBase env) req in
      if rest = [] then ((http_Error ''not a huggingface path'' 404, s), [])
      else if Contains rest ''..'' then ((http_Error ''invalid path'' 400, s), [])
      else if hasAuthHeaders req then (case passthrough env req rest of (r, rqs) \<Rightarrow> ((r, s), rqs))
      else if \<not> get_or_head req then ((method_not_allowed, s), [])
      else if hf_isMutablePath rest then (hf_serveMutable env req rest s, [])
      else hf_serveImmutable env req rest s)"

section \<open>Sound answers\<close>

lemma cargo_enrich_sound: "sound_enrich (cgBase env) (cargo_enrichPublishTime env off ref)"
  unfolding sound_enrich_def
proof (intro allI impI)
  fix u s
  assume i: "pt_inv (cgBase env) s"
  obtain b s1 where b: "crateVersionAPIBody env off (rName ref) (rVersion ref) s = (b, s1)" by fastforce
  have "pt_inv (cgBase env) s1"
    using b i by (auto simp: crateVersionAPIBody_def split: prod.splits sum.splits option.splits dest: pt_fetch_inv small_body_inv)
  then show "pt_inv (cgBase env) (snd (cargo_enrichPublishTime env off ref u s))"
    using i b by (auto simp: cargo_enrichPublishTime_def split: option.splits)
qed

text \<open>
  Content of an answer is the stored content of an entry, or what the package makes of it.
\<close>

definition sound_package :: "'b pt_env \<Rightarrow> (bytes \<Rightarrow> bytes) \<Rightarrow> pt_response \<times> 'b pt_state \<Rightarrow> bool" where
  "sound_package env rw a \<longleftrightarrow>
     pt_inv env (snd a) \<and> (\<forall>b. psBody (fst a) = PBytes b \<longrightarrow> (\<exists>e x. entry_bytes env (snd a) e x \<and> (b = x \<or> b = rw x)))"

lemma sound_packageI:
  "sound_document env id a \<Longrightarrow> sound_package env rw a" "sound_document env rw a \<Longrightarrow> sound_package env rw a"
  "sound_file env ref a \<Longrightarrow> sound_package env rw a"
  "pt_inv env s \<Longrightarrow> \<forall>b. psBody r \<noteq> PBytes b \<Longrightarrow> sound_package env rw (r, s)"
  by (fastforce simp: sound_package_def sound_document_def sound_file_def)+

lemma sound_package_errors:
  "pt_inv env s \<Longrightarrow> sound_package env rw (http_Error m code, s)" "pt_inv env s \<Longrightarrow> sound_package env rw (method_not_allowed, s)"
  by (simp_all add: sound_packageI(4))

lemma file_server_write: "file_server env ref (write_file req hs hs2)"
  by (simp add: file_server_def write_file_sound)

lemma hub_file_server: "file_server env ref (streamEntryWithHubMeta req p)"
  by (simp add: file_server_def streamEntryWithHubMeta_def write_file_sound)

lemma refs_kind [simp]:
  "rMutable (cargo_indexRef p)" "\<not> rMutable (crateRef n v)" "rMutable (conda_indexRef p)" "\<not> rMutable (packageRef p)"
  "rMutable (hf_mutableRef p)" "\<not> rMutable (hf_immutableRef p)"
  by (simp_all add: cargo_indexRef_def crateRef_def conda_indexRef_def packageRef_def hf_mutableRef_def hf_immutableRef_def)

context pull_through
begin

lemma serveCrate_sound:
  assumes "cgBase c = env" and "pt_inv env s"
  shows "sound_file env (crateRef n v) (serveCrate c req n v s)"
  unfolding serveCrate_def cargo_serveImmutable_def cargo_streamEntry_def Let_def assms(1)
  using assms cargo_enrich_sound [of c] file_server_write by (intro immutable_pipeline_sound) auto

lemma serveIndex_sound:
  assumes "cgBase c = env" and "pt_inv env s"
  shows "sound_package env (rewriteConfigJSON c (request_base req) (pePrefix env)) (cargo_serveIndex c req p s)"
proof -
  have "sound_document env rw (mutable_pipeline env w route (write_document req ct rw) ref s)" for rw w route ct ref
    by (rule mutable_pipeline_sound [OF assms(2) write_document_sound])
  then show ?thesis
    unfolding cargo_serveIndex_def cargo_serveMutable_def cargo_serveMutableBytes_def Let_def assms(1)
    by (auto intro: sound_packageI(1,2))
qed

lemma cargo_sound:
  assumes "cgBase c = env" and "pt_inv env s"
  shows "sound_package env (rewriteConfigJSON c (request_base req) (pePrefix env)) (cargo_ServeHTTP c req s)"
  unfolding cargo_ServeHTTP_def Let_def
  using sound_package_errors [OF assms(2)] serveIndex_sound [OF assms] sound_packageI(3) [OF serveCrate_sound [OF assms]]
  by (simp split: list.splits)

lemma conda_package_sound:
  assumes "cdBase d = env" and "pt_inv env s"
  shows "sound_file env (packageRef p) (conda_serveImmutable d req (packageRef p) s)"
  unfolding conda_serveImmutable_def assms(1)
  using assms no_enrich_sound file_server_write by (intro immutable_pipeline_sound) auto

lemma conda_sound:
  assumes "cdBase d = env" and "pt_inv env s"
  shows "sound_package env id (conda_ServeHTTP d req s)"
proof -
  have "sound_document env id (conda_serveMutable d req ref ct s)" for ref ct
    unfolding conda_serveMutable_def assms(1) by (rule mutable_pipeline_sound [OF assms(2) write_document_sound])
  then show ?thesis
    unfolding conda_ServeHTTP_def Let_def
    using sound_package_errors [OF assms(2)] sound_packageI(3) [OF conda_package_sound [OF assms]] by (simp add: sound_packageI(1))
qed

lemma hf_sound:
  assumes "hfBase h = env" and "pt_inv env s" and "snd (hf_ServeHTTP h req s) = []" and "\<not> hasAuthHeaders req" and "pqMethod req \<noteq> ''HEAD''"
  shows "sound_package env (rewriteJSONURLs h (request_base req) (pePrefix env)) (fst (hf_ServeHTTP h req s))"
proof -
  have d: "sound_document env rw (mutable_pipeline env w route (write_document req ct rw) ref s)" for rw w route ct ref
    by (rule mutable_pipeline_sound [OF assms(2) write_document_sound])
  have m: "sound_package env (rewriteJSONURLs h (request_base req) (pePrefix env)) (hf_serveMutable h req p s)" for p
    unfolding hf_serveMutable_def Let_def assms(1) using d by (auto intro: sound_packageI(1,2))
  have f: "sound_file env (hf_immutableRef p) (fst (hf_serveImmutable h req p s))" for p
    unfolding hf_serveImmutable_def Let_def assms(1)
    using immutable_pipeline_sound [OF assms(2) refs_kind(6) no_enrich_sound hub_file_server] assms(5) by simp
  show ?thesis
    unfolding hf_ServeHTTP_def Let_def
    using sound_package_errors [OF assms(2)] assms(4) m sound_packageI(3) [OF f] by simp
qed

end

section \<open>Properties\<close>



text \<open>Named roots stay on the allowlist. When registries or channels are configured, a path is fetched only from the root whose name is its first
  element, under what remains of it; a path with another first element is not fetched at all.\<close>

theorem paths_stay_on_allowlist:
  assumes "roots \<noteq> []"
  shows "root_for_path roots ups p = Some (us, n) \<longleftrightarrow>
    (\<exists>name up. us = [up] \<and> map_of roots name = Some up \<and> upBaseURL up \<noteq> [] \<and> name \<noteq> [] \<and> n \<noteq> [] \<and> CHR ''/'' \<notin> set name
       \<and> Trim p CHR ''/'' = name @ ''/'' @ n)"
proof -
  let ?q = "Trim p CHR ''/''"
  have "root_for_path roots ups p = Some (us, n) \<longleftrightarrow>
     (\<exists>i up. IndexByte ?q CHR ''/'' = Some i \<and> i \<noteq> 0 \<and> Suc i \<noteq> length ?q \<and> map_of roots (take i ?q) = Some up \<and> upBaseURL up \<noteq> []
        \<and> us = [up] \<and> n = drop (Suc i) ?q)"
    using assms by (auto simp: root_for_path_def Let_def split: option.splits)
  also have "\<dots> \<longleftrightarrow> (\<exists>name up. us = [up] \<and> map_of roots name = Some up \<and> upBaseURL up \<noteq> [] \<and> name \<noteq> [] \<and> n \<noteq> [] \<and> CHR ''/'' \<notin> set name
       \<and> ?q = name @ ''/'' @ n)" (is "?l \<longleftrightarrow> ?r")
  proof
    assume ?l
    then obtain i up where i: "IndexByte ?q CHR ''/'' = Some i" "i \<noteq> 0" "Suc i \<noteq> length ?q" "map_of roots (take i ?q) = Some up"
      "upBaseURL up \<noteq> []" "us = [up]" "n = drop (Suc i) ?q" by blast
    from IndexByte_Some_split [OF i(1)] i show ?r
      by (intro exI [of _ "take i ?q"] exI [of _ up]) auto
  next
    assume ?r
    then obtain name up where r: "us = [up]" "map_of roots name = Some up" "upBaseURL up \<noteq> []" "name \<noteq> []" "n \<noteq> []"
      "CHR ''/'' \<notin> set name" "?q = name @ ''/'' @ n" by blast
    from IndexByte_append [OF r(6), of n] r show ?l by (intro exI [of _ "length name"] exI [of _ up]) auto
  qed
  finally show ?thesis .
qed

text \<open>Package indexes survive their upstreams. On healthy stores, as long as the index of a crate, of a Conda channel or a document of
  the Hub is kept, however old it is, a request for it is answered with its content, rewritten where the package
  rewrites it, when the upstreams of its path fail or it has none.\<close>

theorem package_indexes_survive_outages:
  assumes "pqMethod req \<noteq> ''HEAD''"
    and "kept (cargo_indexRef p) d1 c1 s" and "\<forall>off ups fr. cargo_route c (cargo_indexRef p) = Some (off, ups, fr) \<longrightarrow> fetches_fail (cgBase c) off fr ups"
    and "kept (conda_indexRef q) d2 c2 s" and "\<forall>off ups fr. conda_route d (conda_indexRef q) = Some (off, ups, fr) \<longrightarrow> fetches_fail (cdBase d) off fr ups"
    and "kept (hf_mutableRef m) d3 c3 s" and "\<forall>off ups fr. hf_route h (hf_mutableRef m) = Some (off, ups, fr) \<longrightarrow> fetches_fail (hfBase h) off fr ups"
  shows "psStatus (fst (cargo_serveIndex c req p s)) = 200
      \<and> (\<exists>x. psBody (fst (cargo_serveIndex c req p s)) = PBytes x \<and> x \<in> {c1, rewriteConfigJSON c (request_base req) (pePrefix (cgBase c)) c1})
    \<and> psStatus (fst (conda_serveMutable d req (conda_indexRef q) ct s)) = 200 \<and> psBody (fst (conda_serveMutable d req (conda_indexRef q) ct s)) = PBytes c2
    \<and> psStatus (fst (hf_serveMutable h req m s)) = 200
      \<and> (\<exists>x. psBody (fst (hf_serveMutable h req m s)) = PBytes x \<and> x \<in> {c3, rewriteJSONURLs h (request_base req) (pePrefix (hfBase h)) c3})"
proof -
  note k = mutable_pipeline_kept [OF _ _ assms(1)]
  have "psStatus (fst (cargo_serveIndex c req p s)) = 200
      \<and> (\<exists>x. psBody (fst (cargo_serveIndex c req p s)) = PBytes x \<and> x \<in> {c1, rewriteConfigJSON c (request_base req) (pePrefix (cgBase c)) c1})"
    using k [OF assms(2) refs_kind(1) assms(3)]
    by (auto simp: cargo_serveIndex_def cargo_serveMutable_def cargo_serveMutableBytes_def Let_def)
  moreover have "psStatus (fst (conda_serveMutable d req (conda_indexRef q) ct s)) = 200 \<and> psBody (fst (conda_serveMutable d req (conda_indexRef q) ct s)) = PBytes c2"
    using k [OF assms(4) refs_kind(3) assms(5), of nil_wrapped ct id] by (simp add: conda_serveMutable_def)
  moreover have "psStatus (fst (hf_serveMutable h req m s)) = 200
      \<and> (\<exists>x. psBody (fst (hf_serveMutable h req m s)) = PBytes x \<and> x \<in> {c3, rewriteJSONURLs h (request_base req) (pePrefix (hfBase h)) c3})"
    using k [OF assms(6) refs_kind(5) assms(7)] by (auto simp: hf_serveMutable_def Let_def)
  ultimately show ?thesis by blast
qed

section \<open>Weaker than intended\<close>

text \<open>
  The configuration of every registry is rewritten to the same download address, and a crate is downloaded from
  the download mirrors and stored under its name and version alone: with several registries the crate of one is
  served for the crate of another.
\<close>

lemma crate_downloads_ignore_the_registry:
  "serveCrate (env\<lparr>cgRegistries := regs\<rparr>) req n v s = serveCrate env req n v s"
proof -
  have "crateVersionAPIBody (env\<lparr>cgRegistries := regs\<rparr>) = crateVersionAPIBody env"
    by (intro ext) (simp add: crateVersionAPIBody_def split: prod.splits sum.splits option.splits)
  then have "cargo_enrichPublishTime (env\<lparr>cgRegistries := regs\<rparr>) = cargo_enrichPublishTime env"
    by (intro ext) (simp add: cargo_enrichPublishTime_def split: prod.splits option.splits)
  then show ?thesis by (simp add: serveCrate_def cargo_serveImmutable_def)
qed

section \<open>Handlers on a small cache\<close>

definition pk_cargo :: "simple_cb cargo_env" where
  "pk_cargo =
     \<lparr>cgBase = pt_demo None, cgRegistries = [], cgDLUpstreams = [], cgConfigJSON = (\<lambda>_. None), cgPrintJSON = (\<lambda>_. None),
      cgCrateJSON = (\<lambda>_. None), cgParseTime = (\<lambda>_ _. None)\<rparr>"

definition pk_conda :: "simple_cb conda_env" where
  "pk_conda = \<lparr>cdBase = pt_demo None, cdChannels = [(''forge'', mirror ''forge'' 1)]\<rparr>"

definition pk_hf :: "simple_cb hf_env" where
  "pk_hf =
     \<lparr>hfBase = pt_demo None, hfParseJSON = (\<lambda>_. None), hfPrintJSON = (\<lambda>_. None), hfParseURL = (\<lambda>_. None), hfBuild = (\<lambda>_. None),
      hfDo = (\<lambda>_. Inr (200, [], ''secret''))\<rparr>"

definition pk_request :: "(string \<times> string) list \<Rightarrow> pt_request" where
  "pk_request hs = \<lparr>pqMethod = ''GET'', pqPath = ''/a/b'', pqQuery = [], pqHost = ''h'', pqURLHost = [], pqTLS = False, pqHeaders = hs\<rparr>"



theorem paths_stay_on_allowlist_witness:
  "root_for_path (cdChannels pk_conda) [] ''forge/noarch/repodata.json'' = Some ([mirror ''forge'' 1], ''noarch/repodata.json'')
   \<and> root_for_path (cdChannels pk_conda) [] ''other/noarch/repodata.json'' = None"
proof
  have ne: "cdChannels pk_conda \<noteq> []" by (simp add: pk_conda_def)
  show "root_for_path (cdChannels pk_conda) [] ''forge/noarch/repodata.json'' = Some ([mirror ''forge'' 1], ''noarch/repodata.json'')"
    unfolding paths_stay_on_allowlist [OF ne]
    by (intro exI [of _ "''forge''"] exI [of _ "mirror ''forge'' 1"]) (simp add: pk_conda_def mirror_def Trim_def TrimRight_def)
  show "root_for_path (cdChannels pk_conda) [] ''other/noarch/repodata.json'' = None"
    by (simp add: root_for_path_def pk_conda_def Trim_def TrimRight_def)
qed

text \<open>One cache with all three documents kept.\<close>

definition pk_documents :: "simple_cb pt_state" where
  "pk_documents =
     (let e = (\<lambda>r. \<lparr>meKey = mutableKey r, meProtocol = rProtocol r, meDigest = ''sha256:4d4e'', mePayload = [], meETag = [], meLastModified = [],
                    meTTLSeconds = 0, meUpstream = [], meFetchedAt = 0\<rparr>);
          a = cargo_indexRef ''a''; b = conda_indexRef ''a''; c = hf_mutableRef ''a'' in
      \<lparr>ptCache = demo_cache\<lparr>c_db := demo_db\<lparr>mutable_entries := [mutableKey a \<mapsto> e a, mutableKey b \<mapsto> e b, mutableKey c \<mapsto> e c]\<rparr>\<rparr>,
       ptNet = demo_world, ptJobs = [], ptAllowed = []\<rparr>)"

theorem package_indexes_survive_outages_witness:
  "psStatus (fst (conda_serveMutable pk_conda (pk_request []) (conda_indexRef ''a'') [] pk_documents)) = 200"
proof -
  have "kept (cargo_indexRef ''a'') ''sha256:4d4e'' ''4d4e'' pk_documents" "kept (conda_indexRef ''a'') ''sha256:4d4e'' ''4d4e'' pk_documents"
    "kept (hf_mutableRef ''a'') ''sha256:4d4e'' ''4d4e'' pk_documents"
    using demo_blobPath
    by (simp_all add: kept_def pk_documents_def demo_cache_def demo_db_def demo_disk_def db_healthy_def disk_healthy_def blob_present_def
        mutableKey_def cargo_indexRef_def conda_indexRef_def hf_mutableRef_def Let_def)
  moreover have "cargo_route pk_cargo r = None" "conda_route pk_conda r = None" "hf_route pk_hf r = None" for r
    by (simp_all add: cargo_route_def conda_route_def hf_route_def pk_cargo_def pk_conda_def pk_hf_def pt_demo_def pt_client_def)
  moreover have "pqMethod (pk_request []) \<noteq> ''HEAD''" by (simp add: pk_request_def)
  ultimately show ?thesis
    using package_indexes_survive_outages [of "pk_request []" "''a''" _ _ pk_documents pk_cargo "''a''" _ _ pk_conda "''a''" _ _ pk_hf] by simp
qed

end
