(* ===== verification/Npm.thy ===== *)
theory Npm
  imports Revalidating PublishMeta DepConfusion
begin

text \<open>
  The npm registry handler (\<^verbatim>\<open>internal/handler/npm\<close>): packuments are mutable documents whose tarball
  addresses are rewritten to point back at the handler, tarballs are immutable files. Names the organization
  keeps private go to its private registry only. Parameters: \<^verbatim>\<open>encoding/json\<close> on objects of raw
  values and on strings, the \<^verbatim>\<open>time\<close> field of a packument, \<^verbatim>\<open>url.Parse\<close> and \<^verbatim>\<open>time.Parse\<close>.
\<close>

section \<open>Names\<close>

definition splitTarball :: "string \<Rightarrow> (string \<times> string) option" where
  "splitTarball rest =
     (case LastIndex rest ''/-/'' of
        None \<Rightarrow> None
      | Some i \<Rightarrow>
          if i = 0 then None
          else
            let pkg = take i rest; file' = drop (i + 3) rest in
            if file' = [] \<or> CHR ''/'' \<in> set file' then None else Some (pkg, file'))"

text \<open>\<^verbatim>\<open>strings.ReplaceAll\<close> for a text to replace that is not empty.\<close>

fun ReplaceAll :: "string \<Rightarrow> string \<Rightarrow> string \<Rightarrow> string" where
  "ReplaceAll [] old new = []"
| "ReplaceAll (c # s) old new =
     (if HasPrefix (c # s) old then new @ ReplaceAll (drop (length old - 1) s) old new else c # ReplaceAll s old new)"

definition decodeScopedName :: "string \<Rightarrow> string" where
  "decodeScopedName name = Trim (ReplaceAll (ReplaceAll name ''%2F'' ''/'') ''%2f'' ''/'') CHR ''/''"

definition validPackageName :: "string \<Rightarrow> bool" where
  "validPackageName pkg \<longleftrightarrow>
     pkg \<noteq> [] \<and> \<not> Contains pkg ''..''
     \<and> (if HasPrefix pkg ''@'' then count_list pkg CHR ''/'' = 1 else CHR ''/'' \<notin> set pkg)"

definition npm_ref :: "string \<Rightarrow> string \<Rightarrow> bool \<Rightarrow> ArtifactRef" where
  "npm_ref pkg version mutable' =
     \<lparr>rProtocol = ''npm'', rName = pkg, rVersion = version, rDigest = [], rUpstream = [], rMutable = mutable'\<rparr>"

definition packumentRef :: "string \<Rightarrow> ArtifactRef" where
  "packumentRef pkg = npm_ref pkg ''packument'' True"

definition npm_tarballRef :: "string \<Rightarrow> string \<Rightarrow> ArtifactRef" where
  "npm_tarballRef pkg file' = npm_ref pkg file' False"

definition npm_writeError :: "int \<Rightarrow> string \<Rightarrow> pt_response" where
  "npm_writeError status message =
     pt_reply status [(''Content-Type'', ''application/json'')] (PText (''{\"error\":\"'' @ message @ ''\"}'' @ [CHR 0x0A]))"

section \<open>Private names\<close>

record 'b npm_env =
  nmBase :: "'b pt_env"
  nmPrivateScopes :: "string list"
  nmPrivateUnscoped :: "string list"
  nmPrivateUpstream :: "Upstream option"
  nmFailClosed :: bool
  nmObject :: "bytes \<Rightarrow> (string \<times> bytes) list option"
  nmPrintObject :: "(string \<times> bytes) list \<Rightarrow> bytes option"
  nmString :: "bytes \<Rightarrow> string option"
  nmPrintString :: "string \<Rightarrow> bytes option"
  nmTimes :: "bytes \<Rightarrow> (string \<rightharpoonup> string) option"
  nmParseURL :: "string \<Rightarrow> (string \<times> string \<times> string) option"
  nmParseTime :: "string \<Rightarrow> string \<Rightarrow> gotime option"

definition npm_guard :: "'b npm_env \<Rightarrow> DepConfusionConfig option" where
  "npm_guard env =
     (if nmPrivateScopes env \<noteq> [] \<or> nmPrivateUnscoped env \<noteq> [] then
        Some \<lparr>dcProtocol = ''npm'', dcPrivateNames = [], dcPrivateScopes = nmPrivateScopes env,
              dcPrivateUnscoped = nmPrivateUnscoped env, dcFailClosed = nmFailClosed env\<rparr>
      else None)"

definition isPrivatePkg :: "'b npm_env \<Rightarrow> string \<Rightarrow> bool" where
  "isPrivatePkg env pkg =
     (case npm_guard env of
        Some g \<Rightarrow> IsPrivate g pkg
      | None \<Rightarrow>
          if HasPrefix pkg ''@'' then
            (case IndexByte pkg CHR ''/'' of
               Some i \<Rightarrow> 0 < i \<and> take i pkg \<in> set (nmPrivateScopes env)
             | None \<Rightarrow> False)
          else pkg \<in> set (nmPrivateUnscoped env))"

definition npm_privateDownServeStale :: "'b npm_env \<Rightarrow> bool" where
  "npm_privateDownServeStale env =
     (case npm_guard env of
        Some g \<Rightarrow> ResolvePrivate g OutcomeDown = ActionServeStale
      | None \<Rightarrow> \<not> nmFailClosed env)"

text \<open>\<^verbatim>\<open>None\<close> is the error: a private name and no private registry.\<close>

definition npm_selectUpstreams :: "'b npm_env \<Rightarrow> string \<Rightarrow> Upstream list option" where
  "npm_selectUpstreams env pkg =
     (if \<not> isPrivatePkg env pkg then Some (peUpstreams (nmBase env))
      else case nmPrivateUpstream env of
             Some up \<Rightarrow> Some [up]
           | None \<Rightarrow> None)"

definition npm_route :: "'b npm_env \<Rightarrow> Upstream list \<Rightarrow> ArtifactRef \<Rightarrow> route" where
  "npm_route env ups ref = (if ups = [] then None else map_option (\<lambda>offline. (offline, ups, ref)) (peClient (nmBase env)))"

section \<open>Rewriting a packument\<close>

definition rewriteTarballURL :: "'b npm_env \<Rightarrow> string \<Rightarrow> string \<Rightarrow> string \<Rightarrow> string" where
  "rewriteTarballURL env base prefix' original =
     (case nmParseURL env original of
        None \<Rightarrow> original
      | Some (scheme, host, path) \<Rightarrow> if scheme = [] \<or> host = [] \<or> path = [] then original else base @ prefix' @ path)"

definition put_raw :: "string \<Rightarrow> bytes \<Rightarrow> (string \<times> bytes) list \<Rightarrow> (string \<times> bytes) list" where
  "put_raw k v obj = (k, v) # filter (\<lambda>f. fst f \<noteq> k) obj"

text \<open>The new text of a version, if its address changes.\<close>

definition rewrite_version :: "'b npm_env \<Rightarrow> string \<Rightarrow> string \<Rightarrow> bytes \<Rightarrow> bytes option" where
  "rewrite_version env base prefix' verRaw =
     Option.bind (nmObject env verRaw) (\<lambda>vobj.
     Option.bind (map_of vobj ''dist'') (\<lambda>distRaw.
     Option.bind (nmObject env distRaw) (\<lambda>dist.
     Option.bind (map_of dist ''tarball'') (\<lambda>tarballRaw.
     Option.bind (nmString env tarballRaw) (\<lambda>tarballURL.
     if tarballURL = [] then None
     else
       let newURL = rewriteTarballURL env base prefix' tarballURL in
       if newURL = tarballURL then None
       else
         Option.bind (nmPrintString env newURL) (\<lambda>t.
         Option.bind (nmPrintObject env (put_raw ''tarball'' t dist)) (\<lambda>d.
         nmPrintObject env (put_raw ''dist'' d vobj))))))))"

definition rewritePackument :: "'b npm_env \<Rightarrow> string \<Rightarrow> string \<Rightarrow> bytes \<Rightarrow> bytes" where
  "rewritePackument env base prefix' data =
     (case nmObject env data of
        None \<Rightarrow> data
      | Some doc \<Rightarrow>
          (case map_of doc ''versions'' of
             None \<Rightarrow> data
           | Some versionsRaw \<Rightarrow>
               (case nmObject env versionsRaw of
                  None \<Rightarrow> data
                | Some versions \<Rightarrow>
                    let new = map (\<lambda>(ver, raw). (ver, case rewrite_version env base prefix' raw of None \<Rightarrow> raw | Some r \<Rightarrow> r)) versions in
                    if list_all (\<lambda>(ver, raw). rewrite_version env base prefix' raw = None) versions then data
                    else
                      case nmPrintObject env new of
                        None \<Rightarrow> data
                      | Some v \<Rightarrow> (case nmPrintObject env (put_raw ''versions'' v doc) of None \<Rightarrow> data | Some result \<Rightarrow> result))))"

section \<open>Writing an entry out\<close>

text \<open>A packument; the document is read into memory and rewritten.\<close>

definition npm_serveFromCache ::
  "'b npm_env \<Rightarrow> pt_request \<Rightarrow> ArtifactRef \<Rightarrow> CacheEntry option \<Rightarrow> 'b pt_state \<Rightarrow> pt_response \<times> 'b pt_state" where
  "npm_serveFromCache env req ref entry s =
     (case serveBytes ref entry s of
        (Inl err, s1) \<Rightarrow> (if IsErrCacheMiss err then npm_writeError 404 ''not found'' else npm_writeError 500 ''cache serve failed'', s1)
      | (Inr (rc, _), s1) \<Rightarrow>
          let rewritten = rewritePackument env (request_base req) (pePrefix (nmBase env)) rc in
          (pt_reply 200 [(''Content-Type'', ''application/json''), (''Content-Length'', itoa (int (length rewritten)))]
             (if pqMethod req = ''GET'' then PBytes rewritten else PNone), s1))"

definition serveTarballFromCache ::
  "pt_request \<Rightarrow> ArtifactRef \<Rightarrow> CacheEntry option \<Rightarrow> 'b pt_state \<Rightarrow> pt_response \<times> 'b pt_state" where
  "serveTarballFromCache req ref = serve_cached npm_writeError ''not found'' req ref ''application/octet-stream''"

section \<open>Publication time\<close>

definition npm_maxMetaBody :: nat where "npm_maxMetaBody = 8 * 2 ^ 20"

text \<open>The outer \<^verbatim>\<open>None\<close> is a panic of the body's reader.\<close>

definition packument_fetched :: "'b npm_env \<Rightarrow> string \<Rightarrow> 'b pt_state \<Rightarrow> (bytes option) option \<times> 'b pt_state" where
  "packument_fetched env pkg s =
     (case npm_selectUpstreams env pkg of
        None \<Rightarrow> (Some None, s)
      | Some ups \<Rightarrow>
          (case npm_route env ups (packumentRef pkg) of
             None \<Rightarrow> (Some None, s)
           | Some (offline, _, pref) \<Rightarrow>
               (case pt_fetch (nmBase env) offline pref ups s of
                  (Inr (Some rd, _), s1) \<Rightarrow> small_body npm_maxMetaBody (nmBase env) rd s1
                | (_, s1) \<Rightarrow> (Some None, s1))))"

definition packumentBody :: "'b npm_env \<Rightarrow> string \<Rightarrow> 'b pt_state \<Rightarrow> (bytes option) option \<times> 'b pt_state" where
  "packumentBody env pkg s =
     (case pt_cache (\<lambda>c. Lookup c (packumentRef pkg)) s of
        (Inr (Some entry), s1) \<Rightarrow>
          (case readCachedBody npm_maxMetaBody entry s1 of
             (Some body, s2) \<Rightarrow> (Some (Some body), s2)
           | (None, s2) \<Rightarrow> packument_fetched env pkg s2)
      | (_, s1) \<Rightarrow> packument_fetched env pkg s1)"

definition npm_enrichPublishTime :: "'b npm_env \<Rightarrow> ArtifactRef \<Rightarrow> UpstreamMeta \<Rightarrow> 'b pt_state \<Rightarrow> UpstreamMeta option \<times> 'b pt_state" where
  "npm_enrichPublishTime env ref umeta s =
     (if \<not> IsZero (uPublishedAt umeta) then (Some umeta, s)
      else
        let ver = VersionFromNPMTarball (rName ref) (rVersion ref) in
        if ver = [] then (Some umeta, s)
        else
          case packumentBody env (rName ref) s of
            (None, s1) \<Rightarrow> (None, s1)
          | (Some None, s1) \<Rightarrow> (Some umeta, s1)
          | (Some (Some body), s1) \<Rightarrow>
              (case FromNPMPackument (nmParseTime env) (nmTimes env body) ver of
                 None \<Rightarrow> (Some umeta, s1)
               | Some t \<Rightarrow> (Some (umeta\<lparr>uPublishedAt := t\<rparr>), s1)))"

section \<open>Endpoints\<close>

text \<open>The reference is fetched with a digest set, which selects the path of the tarball.\<close>

definition npm_fetchAndStoreImmutable ::
  "'b npm_env \<Rightarrow> bool \<Rightarrow> Upstream list \<Rightarrow> ArtifactRef \<Rightarrow> 'b pt_state \<Rightarrow> (uerr + (cache_err + CacheEntry)) \<times> 'b pt_state" where
  "npm_fetchAndStoreImmutable env offline ups ref =
     fill_immutable (nmBase env) (npm_enrichPublishTime env ref) id offline (ref\<lparr>rDigest := ''tarball-fetch''\<rparr>) ups ref"

definition npm_fetchBodyAndStore ::
  "'b npm_env \<Rightarrow> ArtifactRef \<Rightarrow> resumingReader \<Rightarrow> UpstreamMeta \<Rightarrow> 'b pt_state \<Rightarrow> (fill_fail + CacheEntry) \<times> 'b pt_state" where
  "npm_fetchBodyAndStore env = store_body (nmBase env) (CacheWrap ''store: '')"

definition npm_fill_answer :: "fill_fail \<Rightarrow> pt_response" where
  "npm_fill_answer f =
     (case f of
        StoreFail e \<Rightarrow>
          (if AsVerifyError e \<noteq> None then npm_writeError 502 ''tarball failed integrity verification''
           else npm_writeError 502 ''upstream fetch failed'')
      | UpFail e \<Rightarrow>
          (if IsNotFound (Some e) then npm_writeError 404 ''not found'' else npm_writeError 502 ''upstream fetch failed''))"

definition npm_absent :: "'b npm_env \<Rightarrow> string \<Rightarrow> uerr \<Rightarrow> pt_response" where
  "npm_absent env pkg e =
     (if isPrivatePkg env pkg then npm_writeError 503 ''npm: private upstream unavailable''
      else if IsNotFound (Some e) then npm_writeError 404 ''not found''
      else npm_writeError 502 ''upstream fetch failed'')"

definition npm_proto :: "'b npm_env \<Rightarrow> pt_request \<Rightarrow> Upstream list \<Rightarrow> ArtifactRef \<Rightarrow> 'b rv_proto" where
  "npm_proto env req ups ref =
     \<lparr>rvRoute = npm_route env ups ref, rvStore = npm_fetchBodyAndStore env ref,
      rvServe = (\<lambda>e. npm_serveFromCache env req ref (Some e)), rvError = npm_writeError,
      rvStale = (isPrivatePkg env (rName ref) \<longrightarrow> npm_privateDownServeStale env), rvAbsent = npm_absent env (rName ref),
      rvUnstored = (\<lambda>_. npm_writeError 502 ''failed to cache upstream response''),
      rvHit = soft_refresh (npm_route env ups ref) ref\<rparr>"

definition npm_serveMutable :: "'b npm_env \<Rightarrow> pt_request \<Rightarrow> ArtifactRef \<Rightarrow> Upstream list \<Rightarrow> 'b pt_state \<Rightarrow> pt_response \<times> 'b pt_state" where
  "npm_serveMutable env req ref ups = rv_serveMutable (nmBase env) (npm_proto env req ups ref) ref"

definition npm_refresh :: "'b npm_env \<Rightarrow> bool \<Rightarrow> Upstream list \<Rightarrow> ArtifactRef \<Rightarrow> 'b pt_state \<Rightarrow> job_end \<times> 'b pt_state" where
  "npm_refresh env offline ups ref = swr_refresh (nmBase env) (npm_fetchBodyAndStore env ref) offline ups ref ref"

definition npm_serveImmutable :: "'b npm_env \<Rightarrow> pt_request \<Rightarrow> ArtifactRef \<Rightarrow> Upstream list \<Rightarrow> 'b pt_state \<Rightarrow> pt_response \<times> 'b pt_state" where
  "npm_serveImmutable env req ref ups =
     cached_file (nmBase env) npm_writeError npm_fill_answer (\<lambda>e. serveTarballFromCache req ref (Some e))
       (map_option (\<lambda>(offline, us, _). npm_fetchAndStoreImmutable env offline us ref) (npm_route env ups ref)) ref"

definition npm_unavailable :: pt_response where
  "npm_unavailable = npm_writeError 502 ''npm: private upstream unavailable''"

definition servePackument :: "'b npm_env \<Rightarrow> pt_request \<Rightarrow> string \<Rightarrow> 'b pt_state \<Rightarrow> pt_response \<times> 'b pt_state" where
  "servePackument env req pkg s =
     (case npm_selectUpstreams env pkg of
        None \<Rightarrow> (npm_unavailable, s)
      | Some ups \<Rightarrow> npm_serveMutable env req (packumentRef pkg) ups s)"

definition npm_serveTarball :: "'b npm_env \<Rightarrow> pt_request \<Rightarrow> string \<Rightarrow> string \<Rightarrow> 'b pt_state \<Rightarrow> pt_response \<times> 'b pt_state" where
  "npm_serveTarball env req pkg file' s =
     (case npm_selectUpstreams env pkg of
        None \<Rightarrow> (npm_unavailable, s)
      | Some ups \<Rightarrow> npm_serveImmutable env req (npm_tarballRef pkg file') ups s)"

definition npm_ServeHTTP :: "'b npm_env \<Rightarrow> pt_request \<Rightarrow> 'b pt_state \<Rightarrow> pt_response \<times> 'b pt_state" where
  "npm_ServeHTTP env req s =
     (if \<not> get_or_head req then (only_get_head npm_writeError, s)
      else
        let rest = bare_path (nmBase env) req in
        if rest = [] then (npm_writeError 404 ''not an npm path'', s)
        else
          case splitTarball rest of
            Some (pkg, file') \<Rightarrow> npm_serveTarball env req pkg file' s
          | None \<Rightarrow>
              let pkg = decodeScopedName rest in
              if \<not> validPackageName pkg then (npm_writeError 404 ''invalid package name'', s)
              else servePackument env req pkg s)"

section \<open>Sound answers\<close>

lemma npm_errors: "plain_errors npm_writeError" "\<forall>e b. psBody (npm_absent env pkg e) \<noteq> PBytes b" "\<forall>f b. psBody (npm_fill_answer f) \<noteq> PBytes b"
  by (auto simp: plain_errors_def npm_absent_def npm_fill_answer_def npm_writeError_def split: fill_fail.splits)

lemma npm_refs [simp]: "rMutable (packumentRef pkg)" "rName (packumentRef pkg) = pkg" "\<not> rMutable (npm_tarballRef pkg f)" "rName (npm_tarballRef pkg f) = pkg"
  "rDigest (packumentRef pkg) = []"
  by (simp_all add: packumentRef_def npm_tarballRef_def npm_ref_def)

lemma npm_serveFromCache_Some:
  "npm_serveFromCache env req ref (Some e) s =
     (case whole_entry e s of
        (Inl err, s1) \<Rightarrow> (if IsErrCacheMiss err then npm_writeError 404 ''not found'' else npm_writeError 500 ''cache serve failed'', s1)
      | (Inr rc, s1) \<Rightarrow>
          let rewritten = rewritePackument env (request_base req) (pePrefix (nmBase env)) rc in
          (pt_reply 200 [(''Content-Type'', ''application/json''), (''Content-Length'', itoa (int (length rewritten)))]
             (if pqMethod req = ''GET'' then PBytes rewritten else PNone), s1))"
  by (auto simp: npm_serveFromCache_def serveBytes_def split: prod.splits sum.splits)

lemma npm_server_sound:
  "sound_server base (rewritePackument env (request_base req) (pePrefix (nmBase env))) (\<lambda>e. npm_serveFromCache env req ref (Some e))"
  unfolding sound_server_def
proof (intro allI impI)
  fix e s
  assume inv: "pt_inv base s"
  obtain r s' where w: "whole_entry e s = (r, s')" by fastforce
  show "sound_document base (rewritePackument env (request_base req) (pePrefix (nmBase env))) (npm_serveFromCache env req ref (Some e) s)"
    using w whole_entry_inv [OF w inv] whole_entry_bytes [of e s _ s' base] inv npm_errors(1)
    by (auto simp: npm_serveFromCache_Some plain_errors_def sound_document_def Let_def split: sum.splits)
qed

lemma packument_fetched_inv: "packument_fetched env pkg s = (r, s') \<Longrightarrow> pt_inv e s \<Longrightarrow> pt_inv e s'"
  by (auto simp: packument_fetched_def split: option.splits prod.splits sum.splits dest: pt_fetch_inv small_body_inv)

lemma packumentBody_inv:
  assumes "packumentBody env pkg s = (r, s')" and "pt_inv e s"
  shows "pt_inv e s'"
proof -
  obtain q s1 where q: "pt_cache (\<lambda>c. Lookup c (packumentRef pkg)) s = (q, s1)" by fastforce
  note i1 = pt_Lookup_inv [OF q assms(2)]
  show ?thesis
    using assms(1) q i1 by (auto simp: packumentBody_def split: sum.splits option.splits prod.splits dest: cached_body_inv packument_fetched_inv)
qed

lemma npm_enrich_sound: "sound_enrich e (npm_enrichPublishTime env ref)"
  unfolding sound_enrich_def
proof (intro allI impI)
  fix u s
  assume i: "pt_inv e s"
  obtain b s1 where b: "packumentBody env (rName ref) s = (b, s1)" by fastforce
  show "pt_inv e (snd (npm_enrichPublishTime env ref u s))"
    using i b packumentBody_inv [OF b i] by (auto simp: npm_enrichPublishTime_def Let_def split: option.splits)
qed

context pull_through
begin

lemma npm_packument_sound:
  assumes "nmBase n = env" and "pt_inv env s"
  shows "sound_document env (rewritePackument n (request_base req) (pePrefix env)) (servePackument n req pkg s)"
proof -
  have "rv_sound env (rewritePackument n (request_base req) (pePrefix env)) (npm_proto n req ups (packumentRef pkg))" for ups
    unfolding rv_sound_def using npm_server_sound [of env n req, unfolded assms(1)]
    by (auto simp: npm_proto_def npm_errors npm_fetchBodyAndStore_def npm_writeError_def assms(1) intro: swr_inv store_body_inv)
  from rv_serveMutable_sound [OF assms(2) this] show ?thesis
    using assms npm_errors(1) by (auto simp: servePackument_def npm_serveMutable_def npm_unavailable_def plain_errors_def intro!: sound_text split: option.splits)
qed

lemma npm_tarball_sound:
  assumes "nmBase n = env" and "pt_inv env s"
  shows "sound_file env (npm_tarballRef pkg f) (npm_serveTarball n req pkg f s)"
proof -
  let ?r = "npm_tarballRef pkg f"
  have "sound_file env ?r (npm_serveImmutable n req ?r ups s)" for ups
    unfolding npm_serveImmutable_def assms(1)
  proof (rule cached_file_sound [OF assms(2) _ npm_errors(1,3)])
    show "file_server env ?r (\<lambda>e. serveTarballFromCache req ?r (Some e))"
      unfolding serveTarballFromCache_def by (rule serve_cached_file [OF npm_errors(1)])
  qed (auto simp: npm_fetchAndStoreImmutable_def assms(1) dest!: fill_immutable_inv [OF _ _ npm_enrich_sound] split: prod.splits)
  then show ?thesis
    using assms npm_errors(1) by (auto simp: npm_serveTarball_def npm_unavailable_def plain_errors_def intro!: sound_text split: option.splits)
qed

end

section \<open>Private packages\<close>

text \<open>The handler with other public mirrors.\<close>

definition npm_with_mirrors :: "Upstream list \<Rightarrow> 'b npm_env \<Rightarrow> 'b npm_env" where
  "npm_with_mirrors us env = env\<lparr>nmBase := (nmBase env)\<lparr>peUpstreams := us\<rparr>\<rparr>"

lemma npm_mirrors_simps [simp]:
  "nmBase (npm_with_mirrors us env) = (nmBase env)\<lparr>peUpstreams := us\<rparr>" "nmPrivateUpstream (npm_with_mirrors us env) = nmPrivateUpstream env"
  "isPrivatePkg (npm_with_mirrors us env) = isPrivatePkg env" "npm_privateDownServeStale (npm_with_mirrors us env) = npm_privateDownServeStale env"
  "npm_route (npm_with_mirrors us env) = npm_route env" "rewriteTarballURL (npm_with_mirrors us env) = rewriteTarballURL env"
  "npm_fetchBodyAndStore (npm_with_mirrors us env) = npm_fetchBodyAndStore env"
  "nmObject (npm_with_mirrors us env) = nmObject env" "nmPrintObject (npm_with_mirrors us env) = nmPrintObject env"
  "nmString (npm_with_mirrors us env) = nmString env" "nmPrintString (npm_with_mirrors us env) = nmPrintString env"
  "nmTimes (npm_with_mirrors us env) = nmTimes env" "nmParseTime (npm_with_mirrors us env) = nmParseTime env"
  by (simp_all add: npm_with_mirrors_def fun_eq_iff isPrivatePkg_def npm_guard_def npm_privateDownServeStale_def npm_route_def rewriteTarballURL_def
      npm_fetchBodyAndStore_def split: option.splits)

lemma npm_absent_mirrors [simp]: "npm_absent (npm_with_mirrors us env) = npm_absent env"
  by (simp add: npm_absent_def fun_eq_iff)

lemma prefix_mirrors [simp]: "pePrefix (b\<lparr>peUpstreams := us\<rparr>) = pePrefix b"
  by simp

lemma rewrite_version_mirrors [simp]: "rewrite_version (npm_with_mirrors us env) = rewrite_version env"
  by (intro ext) (unfold rewrite_version_def npm_mirrors_simps, rule refl)

lemma rewritePackument_mirrors [simp]: "rewritePackument (npm_with_mirrors us env) = rewritePackument env"
  by (intro ext) (unfold rewritePackument_def npm_mirrors_simps rewrite_version_mirrors, rule refl)

lemma npm_serveFromCache_mirrors [simp]: "npm_serveFromCache (npm_with_mirrors us env) = npm_serveFromCache env"
  by (intro ext) (unfold npm_serveFromCache_def npm_mirrors_simps rewritePackument_mirrors prefix_mirrors, rule refl)

lemma npm_selectUpstreams_mirrors: "isPrivatePkg env pkg \<Longrightarrow> npm_selectUpstreams (npm_with_mirrors us env) pkg = npm_selectUpstreams env pkg"
  by (simp add: npm_selectUpstreams_def)

lemma packumentBody_mirrors:
  assumes "isPrivatePkg env pkg"
  shows "packumentBody (npm_with_mirrors us env) pkg = packumentBody env pkg"
proof -
  have f: "packument_fetched (npm_with_mirrors us env) pkg = packument_fetched env pkg"
    by (intro ext) (unfold packument_fetched_def npm_selectUpstreams_mirrors [OF assms] npm_mirrors_simps other_upstreams, rule refl)
  show ?thesis by (intro ext) (unfold packumentBody_def f, rule refl)
qed

lemma npm_enrich_mirrors: "isPrivatePkg env (rName ref) \<Longrightarrow> npm_enrichPublishTime (npm_with_mirrors us env) ref = npm_enrichPublishTime env ref"
  by (intro ext) (unfold npm_enrichPublishTime_def npm_mirrors_simps packumentBody_mirrors, rule refl)

lemma npm_private_mirrors:
  assumes "isPrivatePkg env pkg"
  shows "servePackument (npm_with_mirrors us env) req pkg s = servePackument env req pkg s
    \<and> npm_serveTarball (npm_with_mirrors us env) req pkg f s = npm_serveTarball env req pkg f s"
proof -
  have p: "npm_proto (npm_with_mirrors us env) req = npm_proto env req"
    by (intro ext) (unfold npm_proto_def npm_mirrors_simps npm_serveFromCache_mirrors npm_absent_mirrors, rule refl)
  have "npm_fetchAndStoreImmutable (npm_with_mirrors us env) off ups (npm_tarballRef pkg f) = npm_fetchAndStoreImmutable env off ups (npm_tarballRef pkg f)" for off ups
    using assms by (simp add: npm_fetchAndStoreImmutable_def npm_enrich_mirrors)
  then have "npm_serveImmutable (npm_with_mirrors us env) req (npm_tarballRef pkg f) = npm_serveImmutable env req (npm_tarballRef pkg f)"
    by (intro ext) (simp add: npm_serveImmutable_def)
  then show ?thesis
    using assms p by (simp add: servePackument_def npm_serveTarball_def npm_serveMutable_def npm_selectUpstreams_mirrors split: option.splits)
qed

text \<open>A private package whose registry is down, with nothing fresh kept: refused when the handler fails closed.\<close>

lemma npm_private_down:
  assumes "isPrivatePkg env pkg" and "nmFailClosed env" and "fst (Lookup (ptCache s) (packumentRef pkg)) = Inr None"
    and "npm_selectUpstreams env pkg = Some ups" and "peClient (nmBase env) = Some off"
    and "route_fails (nmBase env) (Some (off, ups, packumentRef pkg))"
  shows "fst (servePackument env req pkg s) = npm_writeError 503 ''npm: private upstream unavailable''"
proof -
  let ?p = "npm_proto env req ups (packumentRef pkg)"
  have ups: "ups \<noteq> []" using assms(1,4) by (auto simp: npm_selectUpstreams_def split: option.splits)
  have p: "rvRoute ?p = Some (off, ups, packumentRef pkg)" "\<not> rvStale ?p" "\<And>e. rvAbsent ?p e = npm_writeError 503 ''npm: private upstream unavailable''"
    using ups assms(1,2,5) by (auto simp: npm_proto_def npm_route_def npm_absent_def npm_privateDownServeStale_def npm_guard_def ResolvePrivate_def split: option.splits)
  show ?thesis
    using rv_closed [OF p _ assms(3)] p(1) assms(4,6) by (simp add: servePackument_def npm_serveMutable_def)
qed

end
