(* ===== verification/PyPI.thy ===== *)
theory PyPI
  imports Revalidating PublishMeta DepConfusion
begin

text \<open>
  The handler of the Python package index (\<^verbatim>\<open>internal/handler/pypi\<close>) and the project a file belongs to
  (\<^verbatim>\<open>PyPIPackageFromFilename\<close> of \<^verbatim>\<open>internal/verify/consensus_http.go\<close>): indexes of a project, in
  HTML or JSON as the client asks, are mutable documents, wheels and source archives immutable files. Projects the
  organization keeps private go to its private index only. Parameters: \<^verbatim>\<open>encoding/json\<close> on the two documents
  that carry publication times, and \<^verbatim>\<open>time.Parse\<close>.
\<close>

section \<open>Names\<close>

definition normalizeUpstreamBase :: "string \<Rightarrow> string" where
  "normalizeUpstreamBase base0 = TrimSuffix (TrimRight base0 CHR ''/'') ''/simple''"

definition normalizeProject :: "string \<Rightarrow> string" where
  "normalizeProject name = trim_dash (pep_collapse False (ToLower name))"

definition projectFromSimplePath :: "string \<Rightarrow> string option" where
  "projectFromSimplePath p =
     (let rest = Trim (TrimPrefix p ''/simple/'') CHR ''/'' in
      if rest = [] \<or> CHR ''/'' \<in> set rest then None else Some (normalizeProject rest))"

definition splitPackageFile :: "string \<Rightarrow> (string \<times> string) option" where
  "splitPackageFile p =
     (let rest = TrimLeft (TrimPrefix p ''/packages/'') CHR ''/'' in
      case LastIndexByte rest CHR ''/'' of
        None \<Rightarrow> None
      | Some i \<Rightarrow> if i = 0 \<or> Suc i = length rest then None else Some (take i rest, drop (Suc i) rest))"

definition archive_exts :: "string list" where
  "archive_exts = [''.whl'', ''.tar.gz'', ''.tar.bz2'', ''.tar.xz'', ''.zip'', ''.egg'']"

definition PyPIPackageFromFilename :: "string \<Rightarrow> string option" where
  "PyPIPackageFromFilename filename =
     (let ext = List.find (HasSuffix filename) archive_exts;
          base = (case ext of None \<Rightarrow> filename | Some e \<Rightarrow> TrimSuffix filename e);
          idx = (if ext = Some ''.whl'' then IndexByte base CHR ''-'' else LastIndexByte base CHR ''-'') in
      case idx of
        None \<Rightarrow> None
      | Some i \<Rightarrow>
          if i = 0 then None
          else let result = pep_collapse False (ToLower (take i base)) in if result = [] then None else Some result)"

definition extractProjectFromFile :: "string \<Rightarrow> string" where
  "extractProjectFromFile file' = (case PyPIPackageFromFilename file' of None \<Rightarrow> [] | Some name \<Rightarrow> name)"

definition pypi_ref :: "string \<Rightarrow> string \<Rightarrow> bool \<Rightarrow> ArtifactRef" where
  "pypi_ref name version mutable' =
     \<lparr>rProtocol = ''pypi'', rName = name, rVersion = version, rDigest = [], rUpstream = [], rMutable = mutable'\<rparr>"

definition pypi_indexRef :: "string \<Rightarrow> ArtifactRef" where
  "pypi_indexRef project = pypi_ref project ''simple'' True"

definition indexVersionJSON :: string where "indexVersionJSON = ''simple-json''"

definition pypi_jsonRef :: "string \<Rightarrow> ArtifactRef" where
  "pypi_jsonRef project = pypi_ref project indexVersionJSON True"

definition fileRef :: "string \<Rightarrow> string \<Rightarrow> ArtifactRef" where
  "fileRef name file' = pypi_ref name file' False"

definition ctSimpleJSON :: string where "ctSimpleJSON = ''application/vnd.pypi.simple.v1+json''"

definition wantsJSON :: "pt_request \<Rightarrow> bool" where
  "wantsJSON req = Contains (header_get ''Accept'' req) ctSimpleJSON"

section \<open>Private names\<close>

record 'b pypi_env =
  pyBase :: "'b pt_env"
  pyPrivateNames :: "string list"
  pyPrivateUpstream :: "Upstream option"
  pyFailClosed :: bool
  pySimpleJSON :: "bytes \<Rightarrow> (string \<times> string) list option"
  pyWarehouseJSON :: "bytes \<Rightarrow> (string \<times> warehouse_file list) list option"
  pyParseTime :: "string \<Rightarrow> string \<Rightarrow> gotime option"

text \<open>The options \<^verbatim>\<open>WithUpstream\<close> and \<^verbatim>\<open>WithPrivateUpstream\<close> bring addresses into one form.\<close>

definition pypi_WithUpstream :: "bool option \<Rightarrow> Upstream list \<Rightarrow> 'b pypi_env \<Rightarrow> 'b pypi_env" where
  "pypi_WithUpstream clt ups env =
     env\<lparr>pyBase := (pyBase env)\<lparr>peClient := clt, peUpstreams := map (\<lambda>u. u\<lparr>upBaseURL := normalizeUpstreamBase (upBaseURL u)\<rparr>) ups\<rparr>\<rparr>"

definition pypi_WithPrivateUpstream :: "Upstream \<Rightarrow> 'b pypi_env \<Rightarrow> 'b pypi_env" where
  "pypi_WithPrivateUpstream up env = env\<lparr>pyPrivateUpstream := Some (up\<lparr>upBaseURL := normalizeUpstreamBase (upBaseURL up)\<rparr>)\<rparr>"

definition pypi_guard :: "'b pypi_env \<Rightarrow> DepConfusionConfig option" where
  "pypi_guard env =
     (if pyPrivateNames env \<noteq> [] then
        Some \<lparr>dcProtocol = ''pypi'', dcPrivateNames = pyPrivateNames env, dcPrivateScopes = [], dcPrivateUnscoped = [],
              dcFailClosed = pyFailClosed env\<rparr>
      else None)"

definition pypi_isPrivate :: "'b pypi_env \<Rightarrow> string \<Rightarrow> bool" where
  "pypi_isPrivate env project =
     (case pypi_guard env of
        Some g \<Rightarrow> IsPrivate g project
      | None \<Rightarrow> normalizeProject project \<in> normalizeProject ` set (pyPrivateNames env))"

definition pypi_privateDownServeStale :: "'b pypi_env \<Rightarrow> bool" where
  "pypi_privateDownServeStale env =
     (case pypi_guard env of
        Some g \<Rightarrow> ResolvePrivate g OutcomeDown = ActionServeStale
      | None \<Rightarrow> \<not> pyFailClosed env)"

definition pypi_selectUpstreams :: "'b pypi_env \<Rightarrow> string \<Rightarrow> Upstream list option" where
  "pypi_selectUpstreams env project =
     (if \<not> pypi_isPrivate env project then Some (peUpstreams (pyBase env))
      else map_option (\<lambda>up. [up]) (pyPrivateUpstream env))"

definition pypi_route :: "'b pypi_env \<Rightarrow> Upstream list \<Rightarrow> ArtifactRef \<Rightarrow> route" where
  "pypi_route env ups ref = (if ups = [] then None else map_option (\<lambda>offline. (offline, ups, ref)) (peClient (pyBase env)))"

section \<open>Answers\<close>

definition pypi_serveFromCache ::
  "pt_request \<Rightarrow> ArtifactRef \<Rightarrow> string \<Rightarrow> CacheEntry option \<Rightarrow> 'b pt_state \<Rightarrow> pt_response \<times> 'b pt_state" where
  "pypi_serveFromCache req ref ct = serve_cached write_error ''artifact not in cache'' req ref ct"

text \<open>A refusal of the chain is reported with its tier and reason.\<close>

definition writeFetchError :: "cache_err option \<Rightarrow> pt_response" where
  "writeFetchError err =
     (case Option.bind err AsVerifyError of
        None \<Rightarrow> write_error 502 ''upstream fetch failed''
      | Some (_, res) \<Rightarrow>
          let msg = ''specula: verification rejected (tier='' @ Tier_String (resTier res) @ '', retryable=''
                    @ (if resRetryable res then ''true'' else ''false'') @ ''): '' @ resMessage res in
          if resRetryable res then
            let e = write_error 503 msg in e\<lparr>psHeaders := (''Retry-After'', ''30'') # psHeaders e\<rparr>
          else write_error 502 msg)"

definition pypi_fill_answer :: "fill_fail \<Rightarrow> pt_response" where
  "pypi_fill_answer f =
     (case f of
        StoreFail e \<Rightarrow> writeFetchError (Some e)
      | UpFail e \<Rightarrow> if IsNotFound (Some e) then write_error 404 ''not found'' else writeFetchError None)"

definition pypi_absent :: "'b pypi_env \<Rightarrow> string \<Rightarrow> uerr \<Rightarrow> pt_response" where
  "pypi_absent env project e =
     (if pypi_isPrivate env project then write_error 503 ''private upstream unavailable''
      else if IsNotFound (Some e) then write_error 404 ''not found''
      else write_error 502 ''upstream fetch failed'')"

definition pypi_unstored :: "fill_fail \<Rightarrow> pt_response" where
  "pypi_unstored f = (case f of UpFail _ \<Rightarrow> writeFetchError None | StoreFail e \<Rightarrow> writeFetchError (Some e))"

section \<open>Publication time\<close>

definition pypi_maxMetaBody :: nat where "pypi_maxMetaBody = 8 * 2 ^ 20"

definition fetch_json :: "'b pypi_env \<Rightarrow> bool \<Rightarrow> ArtifactRef \<Rightarrow> Upstream list \<Rightarrow> 'b pt_state
   \<Rightarrow> (uerr + resumingReader option \<times> UpstreamMeta) \<times> 'b pt_state" where
  "fetch_json env offline ref ups s =
     (case MaybeOffline offline (peFetch (pyBase env)) ref ups [WithAcceptHeader ctSimpleJSON] (ptNet s) of
        (r, w) \<Rightarrow> (r, s\<lparr>ptNet := w\<rparr>))"

definition is_json :: "UpstreamMeta \<Rightarrow> bool" where
  "is_json umeta = Contains (ToLower (uContentType umeta)) ''json''"

text \<open>What is left of an answer in the wrong format is read and thrown away; the reader may panic.\<close>

definition discard_body :: "'b pypi_env \<Rightarrow> resumingReader \<Rightarrow> 'b pt_state \<Rightarrow> bool \<times> 'b pt_state" where
  "discard_body env rd s =
     (case read_all pypi_maxMetaBody [] (drain (peFetch (pyBase env)) rd (ptNet s)) (ptNet s) of
        (r, w) \<Rightarrow> (r \<noteq> None, s\<lparr>ptNet := w\<rparr>))"

definition json_fetched :: "'b pypi_env \<Rightarrow> string \<Rightarrow> 'b pt_state \<Rightarrow> (bytes option) option \<times> 'b pt_state" where
  "json_fetched env project s =
     (case pypi_selectUpstreams env project of
        None \<Rightarrow> (Some None, s)
      | Some ups \<Rightarrow>
          (case pypi_route env ups (pypi_jsonRef project) of
             None \<Rightarrow> (Some None, s)
           | Some (offline, _, ref) \<Rightarrow>
               (case fetch_json env offline ref ups s of
                  (Inr (Some rd, umeta), s1) \<Rightarrow>
                    if is_json umeta then small_body pypi_maxMetaBody (pyBase env) rd s1
                    else (case discard_body env rd s1 of (ok, s2) \<Rightarrow> (if ok then Some None else None, s2))
                | (_, s1) \<Rightarrow> (Some None, s1))))"

definition simpleJSONBody :: "'b pypi_env \<Rightarrow> string \<Rightarrow> 'b pt_state \<Rightarrow> (bytes option) option \<times> 'b pt_state" where
  "simpleJSONBody env project s =
     (case pt_cache (\<lambda>c. Lookup c (pypi_jsonRef project)) s of
        (Inr (Some entry), s1) \<Rightarrow>
          (case readCachedBody pypi_maxMetaBody entry s1 of
             (Some body, s2) \<Rightarrow> (Some (Some body), s2)
           | (None, s2) \<Rightarrow> json_fetched env project s2)
      | (_, s1) \<Rightarrow> json_fetched env project s1)"

definition warehouseJSONBody :: "'b pypi_env \<Rightarrow> string \<Rightarrow> 'b pt_state \<Rightarrow> (bytes option) option \<times> 'b pt_state" where
  "warehouseJSONBody env project s =
     (case pypi_selectUpstreams env project of
        None \<Rightarrow> (Some None, s)
      | Some ups \<Rightarrow>
          (case pypi_route env ups (pypi_ref project ''json'' True) of
             None \<Rightarrow> (Some None, s)
           | Some (offline, _, ref) \<Rightarrow>
               (case pt_fetch (pyBase env) offline ref ups s of
                  (Inr (Some rd, _), s1) \<Rightarrow> small_body pypi_maxMetaBody (pyBase env) rd s1
                | (_, s1) \<Rightarrow> (Some None, s1))))"

definition published :: "UpstreamMeta \<Rightarrow> gotime option \<Rightarrow> UpstreamMeta" where
  "published umeta t = (case t of None \<Rightarrow> umeta | Some x \<Rightarrow> umeta\<lparr>uPublishedAt := x\<rparr>)"

definition from_warehouse ::
  "'b pypi_env \<Rightarrow> string \<Rightarrow> string \<Rightarrow> UpstreamMeta \<Rightarrow> 'b pt_state \<Rightarrow> UpstreamMeta option \<times> 'b pt_state" where
  "from_warehouse env project filename umeta s =
     (case warehouseJSONBody env project s of
        (None, s1) \<Rightarrow> (None, s1)
      | (Some None, s1) \<Rightarrow> (Some umeta, s1)
      | (Some (Some body), s1) \<Rightarrow>
          (Some (published umeta (FromPyPIWarehouseJSON (pyParseTime env) (pyWarehouseJSON env body) filename)), s1))"

definition pypi_enrichPublishTime :: "'b pypi_env \<Rightarrow> ArtifactRef \<Rightarrow> UpstreamMeta \<Rightarrow> 'b pt_state \<Rightarrow> UpstreamMeta option \<times> 'b pt_state" where
  "pypi_enrichPublishTime env ref umeta s =
     (let filename = TrimSpace (rVersion ref); project = extractProjectFromFile filename in
      if \<not> IsZero (uPublishedAt umeta) \<or> filename = [] \<or> project = [] then (Some umeta, s)
      else
        case simpleJSONBody env project s of
          (None, s1) \<Rightarrow> (None, s1)
        | (Some None, s1) \<Rightarrow> from_warehouse env project filename umeta s1
        | (Some (Some body), s1) \<Rightarrow>
            (case FromPyPISimpleJSON (pyParseTime env) (pySimpleJSON env body) filename of
               Some t \<Rightarrow> (Some (umeta\<lparr>uPublishedAt := t\<rparr>), s1)
             | None \<Rightarrow> from_warehouse env project filename umeta s1))"

section \<open>Endpoints\<close>

definition fetchAndStoreFile ::
  "'b pypi_env \<Rightarrow> bool \<Rightarrow> Upstream list \<Rightarrow> ArtifactRef \<Rightarrow> 'b pt_state \<Rightarrow> (uerr + (cache_err + CacheEntry)) \<times> 'b pt_state" where
  "fetchAndStoreFile env offline ups ref =
     fill_immutable (pyBase env) (pypi_enrichPublishTime env ref) (CacheWrap ''store: '') offline (ref\<lparr>rDigest := ''pending''\<rparr>) ups ref"

definition pypi_fetchBodyAndStore ::
  "'b pypi_env \<Rightarrow> ArtifactRef \<Rightarrow> resumingReader \<Rightarrow> UpstreamMeta \<Rightarrow> 'b pt_state \<Rightarrow> (fill_fail + CacheEntry) \<times> 'b pt_state" where
  "pypi_fetchBodyAndStore env = store_body (pyBase env) (CacheWrap ''store: '')"

definition pypi_proto :: "'b pypi_env \<Rightarrow> pt_request \<Rightarrow> Upstream list \<Rightarrow> ArtifactRef \<Rightarrow> string \<Rightarrow> 'b rv_proto" where
  "pypi_proto env req ups ref ct =
     \<lparr>rvRoute = pypi_route env ups ref, rvStore = pypi_fetchBodyAndStore env ref,
      rvServe = (\<lambda>e. pypi_serveFromCache req ref ct (Some e)), rvError = write_error,
      rvStale = (pypi_isPrivate env (rName ref) \<longrightarrow> pypi_privateDownServeStale env), rvAbsent = pypi_absent env (rName ref),
      rvUnstored = pypi_unstored, rvHit = soft_refresh (pypi_route env ups ref) ref\<rparr>"

definition pypi_serveMutable ::
  "'b pypi_env \<Rightarrow> pt_request \<Rightarrow> ArtifactRef \<Rightarrow> string \<Rightarrow> Upstream list \<Rightarrow> 'b pt_state \<Rightarrow> pt_response \<times> 'b pt_state" where
  "pypi_serveMutable env req ref ct ups = rv_serveMutable (pyBase env) (pypi_proto env req ups ref ct) ref"

definition pypi_refresh :: "'b pypi_env \<Rightarrow> bool \<Rightarrow> Upstream list \<Rightarrow> ArtifactRef \<Rightarrow> 'b pt_state \<Rightarrow> job_end \<times> 'b pt_state" where
  "pypi_refresh env offline ups ref = swr_refresh (pyBase env) (pypi_fetchBodyAndStore env ref) offline ups ref ref"

text \<open>\<^verbatim>\<open>None\<close> when the caller falls back to HTML.\<close>

definition tryServeJSONIndex ::
  "'b pypi_env \<Rightarrow> pt_request \<Rightarrow> ArtifactRef \<Rightarrow> Upstream list \<Rightarrow> 'b pt_state \<Rightarrow> pt_response option \<times> 'b pt_state" where
  "tryServeJSONIndex env req ref ups s =
     (case pypi_route env ups ref of
        None \<Rightarrow> (None, s)
      | Some (offline, us, r) \<Rightarrow>
          (case fetch_json env offline r us s of
             (Inr (Some rd, umeta), s1) \<Rightarrow>
               if \<not> is_json umeta then (case discard_body env rd s1 of (ok, s2) \<Rightarrow> (if ok then None else Some aborted, s2))
               else
                 (case pypi_fetchBodyAndStore env ref rd umeta s1 of
                    (Inl f, s2) \<Rightarrow> (if panicked f then Some aborted else None, s2)
                  | (Inr entry, s2) \<Rightarrow>
                      (case pt_marked MarkMiss (pypi_serveFromCache req ref ctSimpleJSON (Some entry) s2) of (a, s3) \<Rightarrow> (Some a, s3)))
           | (_, s1) \<Rightarrow> (None, s1)))"

definition json_index ::
  "'b pypi_env \<Rightarrow> pt_request \<Rightarrow> string \<Rightarrow> Upstream list \<Rightarrow> 'b pt_state \<Rightarrow> pt_response option \<times> 'b pt_state" where
  "json_index env req project ups s =
     (let ref = pypi_jsonRef project in
      case pt_cache (\<lambda>c. Lookup c ref) s of
        (Inr (Some entry), s1) \<Rightarrow>
          (case pt_marked MarkHit (pypi_serveFromCache req ref ctSimpleJSON (Some entry) s1) of (a, s2) \<Rightarrow> (Some a, s2))
      | (_, s1) \<Rightarrow> tryServeJSONIndex env req ref ups s1)"

definition pypi_unavailable :: pt_response where
  "pypi_unavailable = write_error 503 ''private package source not available''"

definition pypi_serveIndex :: "'b pypi_env \<Rightarrow> pt_request \<Rightarrow> string \<Rightarrow> 'b pt_state \<Rightarrow> pt_response \<times> 'b pt_state" where
  "pypi_serveIndex env req project s =
     (case pypi_selectUpstreams env project of
        None \<Rightarrow> (pypi_unavailable, s)
      | Some ups \<Rightarrow>
          (case (if wantsJSON req then json_index env req project ups s else (None, s)) of
             (Some a, s1) \<Rightarrow> (a, s1)
           | (None, s1) \<Rightarrow> pypi_serveMutable env req (pypi_indexRef project) ''text/html; charset=utf-8'' ups s1))"

definition pypi_serveImmutable :: "'b pypi_env \<Rightarrow> pt_request \<Rightarrow> ArtifactRef \<Rightarrow> Upstream list \<Rightarrow> 'b pt_state \<Rightarrow> pt_response \<times> 'b pt_state" where
  "pypi_serveImmutable env req ref ups =
     cached_file (pyBase env) write_error pypi_fill_answer (\<lambda>e. pypi_serveFromCache req ref ''application/octet-stream'' (Some e))
       (map_option (\<lambda>(offline, us, _). fetchAndStoreFile env offline us ref) (pypi_route env ups ref)) ref"

definition file_upstreams :: "'b pypi_env \<Rightarrow> string \<Rightarrow> Upstream list option" where
  "file_upstreams env file' =
     (let project = extractProjectFromFile file' in
      if project \<noteq> [] \<and> pypi_isPrivate env project then map_option (\<lambda>up. [up]) (pyPrivateUpstream env)
      else Some (peUpstreams (pyBase env)))"

definition serveFile :: "'b pypi_env \<Rightarrow> pt_request \<Rightarrow> string \<Rightarrow> string \<Rightarrow> 'b pt_state \<Rightarrow> pt_response \<times> 'b pt_state" where
  "serveFile env req name file' s =
     (case file_upstreams env file' of
        None \<Rightarrow> (pypi_unavailable, s)
      | Some ups \<Rightarrow> pypi_serveImmutable env req (fileRef name file') ups s)"

definition pypi_ServeHTTP :: "'b pypi_env \<Rightarrow> pt_request \<Rightarrow> 'b pt_state \<Rightarrow> pt_response \<times> 'b pt_state" where
  "pypi_ServeHTTP env req s =
     (if \<not> get_or_head req then (only_get_head write_error, s)
      else
        let p = rooted_path (pyBase env) req in
        if HasPrefix p ''/simple/'' then
          (case projectFromSimplePath p of
             None \<Rightarrow> (write_error 404 ''not a simple index path'', s)
           | Some project \<Rightarrow> pypi_serveIndex env req project s)
        else if HasPrefix p ''/packages/'' then
          (case splitPackageFile p of
             None \<Rightarrow> (write_error 404 ''not a package file path'', s)
           | Some (name, file') \<Rightarrow> serveFile env req name file' s)
        else (write_error 404 ''not a PyPI path'', s))"

section \<open>Sound answers\<close>

lemma pypi_errors: "\<forall>b. psBody (writeFetchError err) \<noteq> PBytes b" "\<forall>e b. psBody (pypi_absent env pkg e) \<noteq> PBytes b"
  "\<forall>f b. psBody (pypi_fill_answer f) \<noteq> PBytes b" "\<forall>f b. psBody (pypi_unstored f) \<noteq> PBytes b" "\<forall>b. psBody pypi_unavailable \<noteq> PBytes b"
proof -
  have *: "psBody (writeFetchError err) \<noteq> PBytes b" for err b by (auto simp: writeFetchError_def Let_def split: option.splits)
  show "\<forall>b. psBody (writeFetchError err) \<noteq> PBytes b" "\<forall>e b. psBody (pypi_absent env pkg e) \<noteq> PBytes b"
    "\<forall>f b. psBody (pypi_fill_answer f) \<noteq> PBytes b" "\<forall>f b. psBody (pypi_unstored f) \<noteq> PBytes b" "\<forall>b. psBody pypi_unavailable \<noteq> PBytes b"
    using * by (auto simp: pypi_absent_def pypi_fill_answer_def pypi_unstored_def pypi_unavailable_def split: fill_fail.splits)
qed

lemma pypi_refs [simp]: "rMutable (pypi_indexRef pkg)" "rMutable (pypi_jsonRef pkg)" "rName (pypi_indexRef pkg) = pkg" "\<not> rMutable (fileRef n f)"
  "rVersion (fileRef n f) = f" "rDigest (pypi_indexRef pkg) = []"
  by (simp_all add: pypi_indexRef_def pypi_jsonRef_def fileRef_def pypi_ref_def)

lemma fetch_json_inv: "fetch_json env off ref ups s = (r, s') \<Longrightarrow> pt_inv e s \<Longrightarrow> pt_inv e s'"
  by (rule pt_inv_stores) (auto simp: fetch_json_def split: prod.splits)

lemma discard_body_inv: "discard_body env rd s = (r, s') \<Longrightarrow> pt_inv e s \<Longrightarrow> pt_inv e s'"
  by (rule pt_inv_stores) (auto simp: discard_body_def split: prod.splits)

lemma json_fetched_inv: "json_fetched env pkg s = (r, s') \<Longrightarrow> pt_inv e s \<Longrightarrow> pt_inv e s'"
  by (auto simp: json_fetched_def split: option.splits prod.splits sum.splits if_splits dest: fetch_json_inv small_body_inv discard_body_inv)

lemma simpleJSONBody_inv:
  assumes "simpleJSONBody env pkg s = (r, s')" and "pt_inv e s"
  shows "pt_inv e s'"
proof -
  obtain q s1 where q: "pt_cache (\<lambda>c. Lookup c (pypi_jsonRef pkg)) s = (q, s1)" by fastforce
  note i1 = pt_Lookup_inv [OF q assms(2)]
  show ?thesis
    using assms(1) q i1 by (auto simp: simpleJSONBody_def split: sum.splits option.splits prod.splits dest: cached_body_inv json_fetched_inv)
qed

lemma warehouse_inv: "warehouseJSONBody env pkg s = (r, s') \<Longrightarrow> pt_inv e s \<Longrightarrow> pt_inv e s'"
  by (auto simp: warehouseJSONBody_def split: option.splits prod.splits sum.splits dest: pt_fetch_inv small_body_inv)

lemma from_warehouse_inv: "pt_inv e s \<Longrightarrow> pt_inv e (snd (from_warehouse env pkg f u s))"
  by (auto simp: from_warehouse_def split: option.splits prod.splits dest: warehouse_inv)

lemma pypi_enrich_sound: "sound_enrich e (pypi_enrichPublishTime env ref)"
  unfolding sound_enrich_def
proof (intro allI impI)
  fix u s
  assume i: "pt_inv e s"
  obtain b s1 where b: "simpleJSONBody env (extractProjectFromFile (TrimSpace (rVersion ref))) s = (b, s1)" by fastforce
  show "pt_inv e (snd (pypi_enrichPublishTime env ref u s))"
    using i b simpleJSONBody_inv [OF b i] from_warehouse_inv by (auto simp: pypi_enrichPublishTime_def Let_def split: option.splits)
qed

context pull_through
begin

lemma pypi_store_inv: "pyBase n = env \<Longrightarrow> pypi_fetchBodyAndStore n ref rd u s = (r, s') \<Longrightarrow> pt_inv env s \<Longrightarrow> pt_inv env s'"
  using store_body_inv by (auto simp: pypi_fetchBodyAndStore_def)

lemma pypi_document_sound:
  assumes "pyBase n = env" and "pt_inv env s"
  shows "sound_document env id (pypi_serveMutable n req ref ct ups s)"
proof -
  have "rv_sound env id (pypi_proto n req ups ref ct)"
    unfolding rv_sound_def using pypi_store_inv [OF assms(1)]
    by (auto simp: pypi_proto_def pypi_errors pypi_serveFromCache_def [abs_def] intro: swr_inv intro!: serve_cached_sound)
  from rv_serveMutable_sound [OF assms(2) this] show ?thesis by (simp add: pypi_serveMutable_def assms(1))
qed

lemma pypi_json_sound:
  assumes "pyBase n = env" and "pt_inv env s" and "json_index n req project ups s = (a, s')"
  shows "pt_inv env s' \<and> (\<forall>r. a = Some r \<longrightarrow> sound_document env id (r, s'))"
proof -
  let ?ref = "pypi_jsonRef project"
  obtain q s1 where q: "pt_cache (\<lambda>c. Lookup c ?ref) s = (q, s1)" by fastforce
  note i1 = pt_Lookup_inv [OF q assms(2)]
  have serve: "sound_document env id (pypi_serveFromCache req ?ref ctSimpleJSON (Some e) t)" if "pt_inv env t" for e t
    using serve_cached_sound [of write_error env] that by (simp add: pypi_serveFromCache_def sound_server_def)
  have marked: "pt_inv env t' \<and> sound_document env id (r, t')" if "pt_inv env t" "pt_marked m (pypi_serveFromCache req ?ref ctSimpleJSON (Some e) t) = (r, t')" for e t m r t'
    using serve [OF that(1), of e] that(2) sound_marked(1) [of env id m "pypi_serveFromCache req ?ref ctSimpleJSON (Some e) t"]
    by (auto simp: sound_document_def)
  have stop: "sound_document env id (aborted, t)" if "pt_inv env t" for t using that by (intro sound_text) simp_all
  have cold: "pt_inv env t \<and> (\<forall>r. x = Some r \<longrightarrow> sound_document env id (r, t))" if "tryServeJSONIndex n req ?ref ups s1 = (x, t)" for x t
    using that i1
    by (auto simp: tryServeJSONIndex_def split: option.splits prod.splits sum.splits if_splits intro!: stop
        dest: fetch_json_inv discard_body_inv pypi_store_inv [OF assms(1)] marked)
  show ?thesis
    using assms(3) q cold marked [OF i1] by (auto simp: json_index_def Let_def split: sum.splits option.splits prod.splits)
qed

lemma pypi_index_sound:
  assumes "pyBase n = env" and "pt_inv env s"
  shows "sound_document env id (pypi_serveIndex n req project s)"
proof -
  have j: "pt_inv env s1 \<and> (\<forall>r. a = Some r \<longrightarrow> sound_document env id (r, s1))"
    if "(if wantsJSON req then json_index n req project ups s else (None, s)) = (a, s1)" for ups a s1
    using that pypi_json_sound [OF assms] assms(2) by (auto split: if_splits)
  show ?thesis
    using assms j pypi_document_sound [OF assms(1)] pypi_errors(5)
    by (auto simp: pypi_serveIndex_def intro!: sound_text split: option.splits prod.splits)
qed

lemma pypi_file_sound:
  assumes "pyBase n = env" and "pt_inv env s"
  shows "sound_file env (fileRef d f) (serveFile n req d f s)"
proof -
  let ?r = "fileRef d f"
  have "sound_file env ?r (pypi_serveImmutable n req ?r ups s)" for ups
    unfolding pypi_serveImmutable_def assms(1)
  proof (rule cached_file_sound [OF assms(2) _ plain_write_error pypi_errors(3)])
    show "file_server env ?r (\<lambda>e. pypi_serveFromCache req ?r ''application/octet-stream'' (Some e))"
      unfolding pypi_serveFromCache_def by (rule serve_cached_file) simp
  qed (auto simp: fetchAndStoreFile_def assms(1) dest!: fill_immutable_inv [OF _ _ pypi_enrich_sound] split: prod.splits)
  then show ?thesis
    using assms pypi_errors(5) by (auto simp: serveFile_def intro!: sound_text split: option.splits)
qed

end

section \<open>Private projects\<close>

text \<open>The handler with other public mirrors.\<close>

definition pypi_with_mirrors :: "Upstream list \<Rightarrow> 'b pypi_env \<Rightarrow> 'b pypi_env" where
  "pypi_with_mirrors us env = env\<lparr>pyBase := (pyBase env)\<lparr>peUpstreams := us\<rparr>\<rparr>"

lemma pypi_mirrors_simps [simp]:
  "pyBase (pypi_with_mirrors us env) = (pyBase env)\<lparr>peUpstreams := us\<rparr>" "pyPrivateUpstream (pypi_with_mirrors us env) = pyPrivateUpstream env"
  "pypi_isPrivate (pypi_with_mirrors us env) = pypi_isPrivate env" "pypi_privateDownServeStale (pypi_with_mirrors us env) = pypi_privateDownServeStale env"
  "pypi_route (pypi_with_mirrors us env) = pypi_route env" "pypi_fetchBodyAndStore (pypi_with_mirrors us env) = pypi_fetchBodyAndStore env"
  "fetch_json (pypi_with_mirrors us env) = fetch_json env" "discard_body (pypi_with_mirrors us env) = discard_body env"
  "pySimpleJSON (pypi_with_mirrors us env) = pySimpleJSON env" "pyWarehouseJSON (pypi_with_mirrors us env) = pyWarehouseJSON env"
  "pyParseTime (pypi_with_mirrors us env) = pyParseTime env"
  by (simp_all add: pypi_with_mirrors_def fun_eq_iff pypi_isPrivate_def pypi_guard_def pypi_privateDownServeStale_def pypi_route_def
      pypi_fetchBodyAndStore_def fetch_json_def discard_body_def split: option.splits)

lemma pypi_absent_mirrors [simp]: "pypi_absent (pypi_with_mirrors us env) = pypi_absent env"
  by (simp add: pypi_absent_def fun_eq_iff)

lemma pypi_select_mirrors: "pypi_isPrivate env pkg \<Longrightarrow> pypi_selectUpstreams (pypi_with_mirrors us env) pkg = pypi_selectUpstreams env pkg"
  by (simp add: pypi_selectUpstreams_def)

lemma pypi_json_mirrors [simp]: "json_index (pypi_with_mirrors us env) = json_index env"
  by (intro ext) (unfold json_index_def tryServeJSONIndex_def pypi_mirrors_simps, rule refl)

lemma pypi_enrich_mirrors:
  assumes "pypi_isPrivate env (extractProjectFromFile (TrimSpace (rVersion ref)))"
  shows "pypi_enrichPublishTime (pypi_with_mirrors us env) ref = pypi_enrichPublishTime env ref"
proof -
  let ?pkg = "extractProjectFromFile (TrimSpace (rVersion ref))"
  note sel = pypi_select_mirrors [OF assms]
  have j: "json_fetched (pypi_with_mirrors us env) ?pkg = json_fetched env ?pkg"
    by (intro ext) (unfold json_fetched_def sel pypi_mirrors_simps other_upstreams, rule refl)
  have s: "simpleJSONBody (pypi_with_mirrors us env) ?pkg = simpleJSONBody env ?pkg"
    by (intro ext) (unfold simpleJSONBody_def j, rule refl)
  have w: "from_warehouse (pypi_with_mirrors us env) ?pkg = from_warehouse env ?pkg"
    by (intro ext) (unfold from_warehouse_def warehouseJSONBody_def sel pypi_mirrors_simps other_upstreams, rule refl)
  show ?thesis by (intro ext) (unfold pypi_enrichPublishTime_def Let_def s w pypi_mirrors_simps, rule refl)
qed

lemma pypi_private_mirrors:
  assumes "pypi_isPrivate env project"
  shows "pypi_serveIndex (pypi_with_mirrors us env) req project s = pypi_serveIndex env req project s"
proof -
  have p: "pypi_proto (pypi_with_mirrors us env) = pypi_proto env"
    by (intro ext) (unfold pypi_proto_def pypi_mirrors_simps pypi_absent_mirrors, rule refl)
  have m: "pypi_serveMutable (pypi_with_mirrors us env) = pypi_serveMutable env"
    by (intro ext) (simp add: pypi_serveMutable_def p)
  show ?thesis unfolding pypi_serveIndex_def pypi_select_mirrors [OF assms] pypi_json_mirrors m ..
qed

lemma pypi_private_file_mirrors:
  assumes "pypi_isPrivate env (extractProjectFromFile f)" and "extractProjectFromFile f \<noteq> []" and "TrimSpace f = f"
  shows "serveFile (pypi_with_mirrors us env) req d f s = serveFile env req d f s"
proof -
  have "fetchAndStoreFile (pypi_with_mirrors us env) off ups (fileRef d f) = fetchAndStoreFile env off ups (fileRef d f)" for off ups
    using pypi_enrich_mirrors [of env "fileRef d f" us] assms by (simp add: fetchAndStoreFile_def)
  then have "pypi_serveImmutable (pypi_with_mirrors us env) req (fileRef d f) = pypi_serveImmutable env req (fileRef d f)"
    by (intro ext) (simp add: pypi_serveImmutable_def)
  moreover have "file_upstreams (pypi_with_mirrors us env) f = file_upstreams env f" using assms by (simp add: file_upstreams_def Let_def)
  ultimately show ?thesis by (simp add: serveFile_def split: option.splits)
qed

lemma pypi_private_down:
  assumes "pypi_isPrivate env pkg" and "pyFailClosed env" and "fst (Lookup (ptCache s) (pypi_indexRef pkg)) = Inr None"
    and "pypi_selectUpstreams env pkg = Some ups" and "peClient (pyBase env) = Some off" and "\<not> wantsJSON req"
    and "route_fails (pyBase env) (Some (off, ups, pypi_indexRef pkg))"
  shows "fst (pypi_serveIndex env req pkg s) = write_error 503 ''private upstream unavailable''"
proof -
  let ?p = "pypi_proto env req ups (pypi_indexRef pkg) ''text/html; charset=utf-8''"
  have ups: "ups \<noteq> []" using assms(1,4) by (auto simp: pypi_selectUpstreams_def)
  have p: "rvRoute ?p = Some (off, ups, pypi_indexRef pkg)" "\<not> rvStale ?p" "\<And>e. rvAbsent ?p e = write_error 503 ''private upstream unavailable''"
    using ups assms(1,2,5) by (auto simp: pypi_proto_def pypi_route_def pypi_absent_def pypi_privateDownServeStale_def pypi_guard_def ResolvePrivate_def split: option.splits)
  show ?thesis
    using rv_closed [OF p _ assms(3)] p(1) assms(4,6,7) by (simp add: pypi_serveIndex_def pypi_serveMutable_def)
qed

section \<open>Weaker than intended\<close>

text \<open>
  The project of an egg is taken to end at the last dash of its name, where the version of Python
  follows, not at the version of the project. An egg of a private project is therefore taken for a file
  of another project, and asked of the public mirrors.
\<close>

lemma private_egg_is_public:
  "PyPIPackageFromFilename ''acme_core-1.0-py3.9.egg'' = Some ''acme-core-1-0''"
  "PyPIPackageFromFilename ''acme_core-1.0-py3-none-any.whl'' = Some ''acme-core''"
  by code_simp+

end
