(* ===== verification/Confusion.thy ===== *)
theory Confusion
  imports Npm PyPI Packages
begin

text \<open>
  What the npm and the Python handler promise of every request: sound answers, and that the names the organization
  keeps private are never looked up anywhere but on its own registry.
\<close>

section \<open>The package of a request\<close>

definition npm_package :: "'b npm_env \<Rightarrow> pt_request \<Rightarrow> string" where
  "npm_package env req =
     (let rest = bare_path (nmBase env) req in
      case splitTarball rest of Some (pkg, f) \<Rightarrow> pkg | None \<Rightarrow> decodeScopedName rest)"

text \<open>For a file, the project its name belongs to.\<close>

definition pypi_project :: "'b pypi_env \<Rightarrow> pt_request \<Rightarrow> string" where
  "pypi_project env req =
     (let p = rooted_path (pyBase env) req in
      if HasPrefix p ''/simple/'' then (case projectFromSimplePath p of Some project \<Rightarrow> project | None \<Rightarrow> [])
      else case splitPackageFile p of Some (d, f) \<Rightarrow> if TrimSpace f = f then extractProjectFromFile f else [] | None \<Rightarrow> [])"

lemma npm_paths_mirrors [simp]: "bare_path (b\<lparr>peUpstreams := us\<rparr>) = bare_path b" "rooted_path (b\<lparr>peUpstreams := us\<rparr>) = rooted_path b"
  by (simp_all add: fun_eq_iff bare_path_def rooted_path_def mounted_path_def)

lemma npm_request_mirrors:
  assumes "isPrivatePkg env (npm_package env req)"
  shows "npm_ServeHTTP (npm_with_mirrors us env) req s = npm_ServeHTTP env req s"
proof (cases "splitTarball (bare_path (nmBase env) req)")
  case None
  then have p: "isPrivatePkg env (decodeScopedName (bare_path (nmBase env) req))" using assms by (simp add: npm_package_def)
  show ?thesis using None npm_private_mirrors [OF p] by (simp add: npm_ServeHTTP_def Let_def)
next
  case (Some x)
  obtain pkg f where x: "x = (pkg, f)" by fastforce
  then have p: "isPrivatePkg env pkg" using assms Some by (simp add: npm_package_def)
  show ?thesis using Some x npm_private_mirrors [OF p] by (simp add: npm_ServeHTTP_def Let_def)
qed

lemma no_private_nameless: "\<not> pypi_isPrivate env []"
  by (auto simp: pypi_isPrivate_def pypi_guard_def IsPrivate_def TrimSpace_def Let_def split: option.splits)

lemma pypi_request_mirrors:
  assumes "pypi_isPrivate env (pypi_project env req)"
  shows "pypi_ServeHTTP (pypi_with_mirrors us env) req s = pypi_ServeHTTP env req s"
proof -
  let ?p = "rooted_path (pyBase env) req"
  have simple: "projectFromSimplePath ?p = Some pr \<Longrightarrow> HasPrefix ?p ''/simple/'' \<Longrightarrow> pypi_isPrivate env pr" for pr
    using assms by (simp add: pypi_project_def)
  have package: "pypi_isPrivate env (extractProjectFromFile f) \<and> extractProjectFromFile f \<noteq> [] \<and> TrimSpace f = f"
    if "splitPackageFile ?p = Some (d, f)" "\<not> HasPrefix ?p ''/simple/''" for d f
    using assms that no_private_nameless by (auto simp: pypi_project_def split: if_splits)
  show ?thesis
    using pypi_private_mirrors [OF simple] pypi_private_file_mirrors package
    by (auto simp: pypi_ServeHTTP_def Let_def split: option.splits)
qed

section \<open>Properties\<close>




section \<open>Registries of a small organization\<close>

definition cf_npm :: "bool option \<Rightarrow> simple_cb npm_env" where
  "cf_npm client =
     \<lparr>nmBase = pt_demo client, nmPrivateScopes = [''@acme''], nmPrivateUnscoped = [], nmPrivateUpstream = Some (mirror ''own'' 1),
      nmFailClosed = True, nmObject = (\<lambda>_. None), nmPrintObject = (\<lambda>_. None), nmString = (\<lambda>_. None), nmPrintString = (\<lambda>_. None),
      nmTimes = (\<lambda>_. None), nmParseURL = (\<lambda>_. None), nmParseTime = (\<lambda>_ _. None)\<rparr>"

definition cf_pypi :: "bool option \<Rightarrow> simple_cb pypi_env" where
  "cf_pypi client =
     \<lparr>pyBase = pt_demo client, pyPrivateNames = [''acme-*''], pyPrivateUpstream = Some (mirror ''own'' 1), pyFailClosed = True,
      pySimpleJSON = (\<lambda>_. None), pyWarehouseJSON = (\<lambda>_. None), pyParseTime = (\<lambda>_ _. None)\<rparr>"

definition cf_request :: "string \<Rightarrow> pt_request" where
  "cf_request p = (pk_request [])\<lparr>pqPath := p\<rparr>"

lemma cf_private: "isPrivatePkg (cf_npm c) ''@acme/core''" "pypi_isPrivate (cf_pypi c) ''acme-core''"
  by (simp_all add: isPrivatePkg_def npm_guard_def cf_npm_def pypi_isPrivate_def pypi_guard_def cf_pypi_def IsPrivate_def) code_simp+

lemma cf_names: "npm_package (cf_npm c) (cf_request ''/@acme%2fcore'') = ''@acme/core''"
  "pypi_project (cf_pypi c) (cf_request ''/packages/ab/acme_core-1.0-py3-none-any.whl'') = ''acme-core''"
  by (simp_all add: npm_package_def pypi_project_def cf_npm_def cf_pypi_def pt_demo_def bare_path_def rooted_path_def mounted_path_def cf_request_def pk_request_def) code_simp+


lemma cf_stale: "rDigest ref = [] \<Longrightarrow> rMutable ref \<Longrightarrow> fst (Lookup (ptCache (pt_document ref)) ref) = Inr None"
  by (simp add: pt_document_def Lookup_def lookupMutable_def with_db_def GetMutable_def db_io_def no_faults_def demo_db_def demo_cache_def isHardExpiredAt_def ttl_sentinels)

lemma cf_offline: "route_fails env (Some (True, ups, fr))"
  using offline_fetches_fail by (auto simp: route_fails_def pt_revalidate_def)



end
