(* ===== verification/Spec2Isabelle.thy ===== *)
theory Spec2Isabelle
  imports Store DepConfusion Resume PushPull OciPull AuthProps TokenProps GoMod Packages Confusion
begin

text \<open>
  A verification development for Specula, a verifying artifact cache and proxy: clients of package
  registries (OCI images, Go modules, npm, PyPI, Cargo, Conda, the Hugging Face Hub and others) fetch through it; what it
  downloads is quarantined, verified and then kept by content, and it also hosts repositories of
  its own organizations.

  \<^bold>\<open>The program.\<close> A request reaches the handler of its protocol (\<^verbatim>\<open>internal/handler\<close>). The
  handler asks the cache manager (\<^verbatim>\<open>internal/cache\<close>) for an entry. On a miss it fetches from the
  mirrors of the protocol (\<^verbatim>\<open>internal/upstream\<close>) under a coalescing lock (\<^verbatim>\<open>internal/coalesce\<close>),
  streams the body into a quarantine file, and has the manager store it: the manager runs the chain of
  verifiers (\<^verbatim>\<open>internal/verify\<close>), commits the bytes to the blob store and a row to the metadata store
  (\<^verbatim>\<open>internal/store\<close>), and evicts old entries when the capacity is reached. Who may read and push
  hosted repositories is decided by the control plane: accounts and sessions (\<^verbatim>\<open>internal/auth\<close>), API keys
  (\<^verbatim>\<open>internal/apikey\<close>), organizations, grants and repositories (\<^verbatim>\<open>internal/org\<close>, \<^verbatim>\<open>grant\<close>,
  \<^verbatim>\<open>repo\<close>, \<^verbatim>\<open>acl\<close>) and the registry tokens (\<^verbatim>\<open>internal/registryauthz\<close>, \<^verbatim>\<open>registrytoken\<close>).

  \<^bold>\<open>How it is modelled.\<close> Every operation is a total function that takes the state and returns it
  updated, with the results and errors of the source as values; branches, early returns and the order of
  effects are those of the code. The state of a handler is made of the states of what it uses: the record
  \<^verbatim>\<open>cache_state\<close> holds the database tables, the blob files and the quarantine files, \<^verbatim>\<open>fetch_world\<close>
  the network with breakers, mirror statistics and cached tokens, \<^verbatim>\<open>control\<close> the tables of the control plane.
  Statements and file operations consult a fault plan that may make any of them fail, so a theorem
  without a hypothesis about the plan holds under every sequence of faults, and a property that a
  request succeeds names the healthy plan. Integers are \<^verbatim>\<open>int\<close> with the wrap-around of 64 bits written
  out where durations and sizes may reach it.

  Code outside the repository is a parameter, and a hypothesis states what its documentation
  promises: SHA-2 and the digest grammar (\<^verbatim>\<open>go-digest\<close>), \<^verbatim>\<open>encoding/json\<close>, signed tokens
  (\<^verbatim>\<open>golang-jwt\<close>, the record \<^verbatim>\<open>jose\<close>), password hashes (bcrypt, the record \<^verbatim>\<open>hasher\<close>), the retry and breaker
  library \<^verbatim>\<open>failsafe-go\<close>, the checksum database client and module paths of \<^verbatim>\<open>golang.org/x/mod\<close>
  (\<^verbatim>\<open>sumdb_lib\<close>), random identifiers, the answers of the network and the lock shared by replicas.

  \<^bold>\<open>The theories.\<close>

  \<^item> \<^verbatim>\<open>Prelude\<close>: Go strings, times and 64-bit integers, fault plans, list lemmas. \<^verbatim>\<open>Artifact\<close>: the types of
    \<^verbatim>\<open>pkg/artifact\<close>. \<^verbatim>\<open>EntryId\<close>: entry identifiers, which decode to what was encoded.
  \<^item> \<^verbatim>\<open>MetaStore\<close> (SQLite driver) and \<^verbatim>\<open>BlobStore\<close> (local disk): the locales \<^verbatim>\<open>metadata_store\<close> and
    \<^verbatim>\<open>blob_store\<close> are what the cache relies on, interpreted on the drivers. Listings are complete, upserts
    keep pins and hosted origins, blobs match their names.
  \<^item> \<^verbatim>\<open>Verify\<close>, \<^verbatim>\<open>Consensus\<close>, \<^verbatim>\<open>DepConfusion\<close>, \<^verbatim>\<open>SumDb\<close>: the chain with its checksum, pinning and maturity
    verifiers, mirror consensus, the guard for private names, and the Go checksum database with its
    anti-rollback mark. The verdict of each is characterised exactly; concurrent writers of the mark are a
    schedule of the critical sections of \<^verbatim>\<open>WriteConfig\<close>, of which there are at most five.
  \<^item> \<^verbatim>\<open>Freshness\<close>, \<^verbatim>\<open>Quarantine\<close>, \<^verbatim>\<open>Manager\<close>, \<^verbatim>\<open>Evict\<close>, \<^verbatim>\<open>Store\<close>: the cache manager. Storing keeps the cache
    invariant on every path; only verified artifacts are recorded; what was stored is served; pinned
    digests do not change; eviction ends, spares what it must and reaches the ceiling.
  \<^item> \<^verbatim>\<open>Upstream\<close>, \<^verbatim>\<open>Breaker\<close>, \<^verbatim>\<open>Runtime\<close>, \<^verbatim>\<open>Fetch\<close>, \<^verbatim>\<open>Resume\<close>, \<^verbatim>\<open>Fill\<close>: the upstream client. The chain of
    mirrors is walked once for fetching and revalidating in the locale \<^verbatim>\<open>mirror_try\<close>; a body is read
    across resumptions to exactly the bytes of the artifact, with a bounded number of requests.
    \<^verbatim>\<open>Coalesce\<close>: the in-process lock as a step relation, with exclusion by rule induction.
  \<^item> \<^verbatim>\<open>Control\<close>, \<^verbatim>\<open>Acl\<close>, \<^verbatim>\<open>Orgs\<close>, \<^verbatim>\<open>Grants\<close>, \<^verbatim>\<open>Repos\<close>, \<^verbatim>\<open>RegistryAuthz\<close>: the control database and the decision
    which actions a caller gets on a repository: exactly those of an abstract decision on a healthy database,
    none for an outsider of a private repository.
  \<^item> \<^verbatim>\<open>Jose\<close>, \<^verbatim>\<open>Users\<close>, \<^verbatim>\<open>ApiKeys\<close>, \<^verbatim>\<open>Auth\<close>, \<^verbatim>\<open>AuthProps\<close>, \<^verbatim>\<open>RegistryToken\<close>, \<^verbatim>\<open>TokenProps\<close>: accounts, keys, session and
    registry tokens, from the credentials to the gate. A logout ends the sessions, a key acts only as issued,
    a token opens what its issue granted.
  \<^item> \<^verbatim>\<open>Sessions\<close>, \<^verbatim>\<open>Push\<close>, \<^verbatim>\<open>PushProps\<close>, \<^verbatim>\<open>PushPull\<close>: the push side of the registry. Both session stores are
    interpretations of the locale \<^verbatim>\<open>upload_sessions\<close>, extended by \<^verbatim>\<open>push_sessions\<close>; accepted manifests are complete and
    a pushed blob is pulled.
  \<^item> \<^verbatim>\<open>OciRemote\<close>, \<^verbatim>\<open>Oci\<close>, \<^verbatim>\<open>OciProps\<close>, \<^verbatim>\<open>OciPull\<close>: the pull side of the registry, from routing to the bytes
    sent, with the locale \<^verbatim>\<open>pull_handler\<close>.
  \<^item> \<^verbatim>\<open>PullThrough\<close>, \<^verbatim>\<open>PublishMeta\<close>, \<^verbatim>\<open>Revalidating\<close>, \<^verbatim>\<open>GoMod\<close>, \<^verbatim>\<open>Packages\<close>, \<^verbatim>\<open>Npm\<close>, \<^verbatim>\<open>PyPI\<close>, \<^verbatim>\<open>Confusion\<close>: the handlers
    of the package protocols. The pipeline that each handler has a copy of is defined once, with the differences as
    arguments, and proved sound in the locale \<^verbatim>\<open>pull_through\<close>; \<^verbatim>\<open>Packages\<close> holds the Cargo, Conda and Hub handlers.
    \<^verbatim>\<open>Revalidating\<close> adds what the Go module proxy, the npm and the Python handler share: conditional revalidation,
    refreshing in the background and serving old copies; what differs is a record \<^verbatim>\<open>rv_proto\<close>. The
    module proxy (locale \<^verbatim>\<open>module_proxy\<close>) adds the pass-through to the checksum database. For npm and Python, private names are proved
    independent of the public mirrors (\<^verbatim>\<open>Confusion\<close>).

  \<^bold>\<open>Loops.\<close> No operation has fuel chosen for convenience. Capacity enforcement recurses on the number of rows, which
    every round that makes progress lowers; the resuming reader recurses on the events its bodies still hold and the rounds
    of resumption left; a body is a finite list of reads, so a transfer that never ends is not represented.
    The walks over mirrors, attempts, verifiers, chunks and pages are structural.

  \<^bold>\<open>Weaknesses found.\<close> Lemmas at the end of several theories state what the code does where a comment or
    another part of the code says otherwise, such as the pin written before the chain has accepted, the visibility
    gate that opens on a database fault, or the high-water mark two writers can lower.

  \<^bold>\<open>Not modelled.\<close> The handlers of \<^verbatim>\<open>apt\<close>, \<^verbatim>\<open>git\<close>, \<^verbatim>\<open>helm\<close> and \<^verbatim>\<open>tarball\<close>, which repeat the pipeline
    with their own rewriting; the verifiers that are calls of OpenPGP and Sigstore libraries; the
    administration API and web pages, which are JSON over the stores modelled here; configuration, cluster
    bootstrap and client integration, which edit files and call external tools; the PostgreSQL, S3 and Redis back ends,
    which keep the same contracts over network services; metrics, logging, packaging and the entry of the program,
    apart from the adapters of \<^verbatim>\<open>main.go\<close> the chain uses. Concurrency is modelled where the code
    relies on it, for the lock, first pushes, uploads, registrations, sessions and the high-water mark; elsewhere an
    operation runs alone.
\<close>

end
